(* ===== verification/Prelude.thy ===== *)
theory Prelude
  imports Complex_Main "HOL-Library.Word" "HOL-Library.AList" "HOL-Library.Multiset"
begin

text \<open>
  Shared ground of the development: the machine types of the C++ code, the part of Qt's value
  classes the code relies on (\<open>QString\<close>, \<open>QHash\<close>, \<open>QList\<close> and the standard sorting
  algorithms), and the lemmas every component uses.

  \<^item> A \<open>QString\<close> is a \<^typ>\<open>string\<close>: one \<^typ>\<open>char\<close> is one UTF-16 unit below 256
    (Latin-1). Whitespace and case follow \<open>QChar::isSpace\<close> and \<open>QChar::toLower\<close> on that range.
  \<^item> A \<open>QHash\<close> is an association list with distinct keys. The list order stands for the
    iteration order, which Qt leaves open; what is proved about iteration does not depend on it.
  \<^item> Unsigned C++ integers are words of their width. Signed quantities that are only compared,
    added below their range or clamped (pids, milliseconds) are \<^typ>\<open>int\<close>.
  \<^item> A \<open>double\<close> is a \<^typ>\<open>real\<close>: rounding is not modelled.
\<close>

section \<open>Machine types\<close>

type_synonym quint8 = "8 word"
type_synonym quint16 = "16 word"
type_synonym quint32 = "32 word"
type_synonym quint64 = "64 word"

text \<open>Rewrite collections: \<open>qstring_simps\<close> evaluates string helpers, \<open>qhash_simps\<close> the hash
  operations, \<open>cfg_simps\<close> the constants of the source.\<close>

named_theorems qstring_simps
named_theorems qhash_simps
named_theorems cfg_simps

section \<open>Strings\<close>

definition isSpace :: "char \<Rightarrow> bool" where
  "isSpace c = (let n = (of_char c :: nat) in
     n = 32 \<or> (9 \<le> n \<and> n \<le> 13) \<or> n = 133 \<or> n = 160)"

text \<open>\<open>\\s\<close> in a regular expression is ASCII white space only.\<close>

definition rx_space :: "char \<Rightarrow> bool" where
  "rx_space c = (c \<in> {CHR '' '', CHR 0x09, CHR 0x0A, CHR 0x0B, CHR 0x0C, CHR 0x0D})"

definition lower_char :: "char \<Rightarrow> char" where
  "lower_char c = (let n = (of_char c :: nat) in
     if (65 \<le> n \<and> n \<le> 90) \<or> (192 \<le> n \<and> n \<le> 222 \<and> n \<noteq> 215) then char_of (n + 32) else c)"

definition toLower :: "string \<Rightarrow> string" where
  "toLower s = map lower_char s"

definition trimmed :: "string \<Rightarrow> string" where
  "trimmed s = rev (dropWhile isSpace (rev (dropWhile isSpace s)))"

text \<open>\<open>QByteArray::trimmed\<close> knows ASCII white space only.\<close>

definition trimmed_bytes :: "string \<Rightarrow> string" where
  "trimmed_bytes s = rev (dropWhile rx_space (rev (dropWhile rx_space s)))"

text \<open>\<open>QString::compare(\<dots>, Qt::CaseInsensitive) == 0\<close>.\<close>

definition eqCI :: "string \<Rightarrow> string \<Rightarrow> bool" where
  "eqCI a b = (toLower a = toLower b)"

definition starts_with :: "string \<Rightarrow> string \<Rightarrow> bool" where
  "starts_with p s = (take (length p) s = p)"

definition ends_with :: "string \<Rightarrow> string \<Rightarrow> bool" where
  "ends_with p s = (length p \<le> length s \<and> drop (length s - length p) s = p)"

text \<open>\<open>QString::endsWith(\<dots>, Qt::CaseInsensitive)\<close> and \<open>QString::chop\<close>.\<close>

definition ends_withCI :: "string \<Rightarrow> string \<Rightarrow> bool" where
  "ends_withCI p s = ends_with (toLower p) (toLower s)"

definition chop :: "nat \<Rightarrow> string \<Rightarrow> string" where
  "chop n s = take (length s - n) s"

text \<open>\<open>QString::contains\<close>: the empty string occurs in every string.\<close>

fun contains_at :: "string \<Rightarrow> string \<Rightarrow> bool" where
  "contains_at p [] = (p = [])"
| "contains_at p (c # cs) = (starts_with p (c # cs) \<or> contains_at p cs)"

definition containsCI :: "string \<Rightarrow> string \<Rightarrow> bool" where
  "containsCI p s = contains_at (toLower p) (toLower s)"

text \<open>\<open>removeAt\<close> of a list.\<close>

definition remove_at :: "nat \<Rightarrow> 'a list \<Rightarrow> 'a list" where
  "remove_at i xs = take i xs @ drop (Suc i) xs"

text \<open>\<open>QString::split(sep)\<close> keeping empty parts, and with \<open>Qt::SkipEmptyParts\<close>.\<close>

fun qsplit :: "char \<Rightarrow> string \<Rightarrow> string list" where
  "qsplit sep [] = [[]]"
| "qsplit sep (c # cs) =
     (if c = sep then [] # qsplit sep cs
      else (case qsplit sep cs of [] \<Rightarrow> [[c]] | w # ws \<Rightarrow> (c # w) # ws))"

definition qsplit_skip :: "char \<Rightarrow> string \<Rightarrow> string list" where
  "qsplit_skip sep s = filter (\<lambda>w. w \<noteq> []) (qsplit sep s)"

text \<open>\<open>QString::number\<close> of a natural number.\<close>

definition digit_char :: "nat \<Rightarrow> char" where
  "digit_char d = ''0123456789'' ! d"

fun show_nat :: "nat \<Rightarrow> string" where
  "show_nat n = (if n < 10 then [digit_char n] else show_nat (n div 10) @ [digit_char (n mod 10)])"

declare show_nat.simps [simp del]

definition digit_val :: "char \<Rightarrow> nat" where
  "digit_val c = (of_char c :: nat) - 48"

definition is_digit :: "char \<Rightarrow> bool" where
  "is_digit c = (48 \<le> (of_char c :: nat) \<and> (of_char c :: nat) \<le> 57)"

fun read_nat :: "string \<Rightarrow> nat \<Rightarrow> nat" where
  "read_nat [] acc = acc"
| "read_nat (c # cs) acc = read_nat cs (10 * acc + digit_val c)"

lemma less_10_cases:
  "(d::nat) < 10 \<Longrightarrow> d = 0 \<or> d = 1 \<or> d = 2 \<or> d = 3 \<or> d = 4 \<or> d = 5 \<or> d = 6 \<or> d = 7 \<or> d = 8 \<or> d = 9"
  by arith

lemma digit_val_digit_char [simp]: "d < 10 \<Longrightarrow> digit_val (digit_char d) = d"
  by (drule less_10_cases) (auto simp: digit_char_def digit_val_def)

lemma is_digit_digit_char [simp]: "d < 10 \<Longrightarrow> is_digit (digit_char d)"
  by (drule less_10_cases) (auto simp: digit_char_def is_digit_def)

lemma read_nat_append: "read_nat (a @ b) acc = read_nat b (read_nat a acc)"
  by (induction a arbitrary: acc) auto

lemma read_show_nat [simp]: "read_nat (show_nat n) 0 = n"
proof (induction n rule: show_nat.induct)
  case (1 n)
  then show ?case by (subst show_nat.simps) (auto simp: read_nat_append)
qed

lemma show_nat_inj [simp]: "show_nat m = show_nat n \<longleftrightarrow> m = n"
  by (metis read_show_nat)

lemma show_nat_digits: "c \<in> set (show_nat n) \<Longrightarrow> is_digit c"
proof (induction n rule: show_nat.induct)
  case (1 n)
  then show ?case by (subst (asm) show_nat.simps) (auto split: if_splits)
qed

lemma show_nat_nonempty [simp]: "show_nat n \<noteq> []"
  by (subst show_nat.simps) simp

lemma length_toLower [simp]: "length (toLower s) = length s"
  by (simp add: toLower_def)

lemma eqCI_refl [simp]: "eqCI s s"
  by (simp add: eqCI_def)

lemma eqCI_sym: "eqCI a b \<Longrightarrow> eqCI b a"
  by (simp add: eqCI_def)

lemma qsplit_nonempty [simp]: "qsplit sep s \<noteq> []"
  by (induction s) (auto split: list.splits)

lemma qsplit_no_sep: "w \<in> set (qsplit sep s) \<Longrightarrow> sep \<notin> set w"
  by (induction s arbitrary: w) (auto split: if_splits list.splits)

lemma qsplit_id: "sep \<notin> set s \<Longrightarrow> qsplit sep s = [s]"
  by (induction s) auto

text \<open>Splitting undoes joining: a separator-free first part comes back whole.\<close>

lemma qsplit_append_sep: "sep \<notin> set a \<Longrightarrow> qsplit sep (a @ sep # b) = a # qsplit sep b"
  by (induction a) auto

lemmas qsplit_simps = qsplit_id qsplit_append_sep

text \<open>A separator that occurs in neither first part (or neither last part) splits uniquely.\<close>

lemma append_first_sep_eq:
  "x \<notin> set xs \<Longrightarrow> x \<notin> set xs' \<Longrightarrow> xs @ x # ys = xs' @ x # ys' \<longleftrightarrow> xs = xs' \<and> ys = ys'"
proof (induction xs arbitrary: xs')
  case Nil
  then show ?case by (cases xs') auto
next
  case (Cons a xs)
  then show ?case by (cases xs') auto
qed

lemma append_last_sep_eq:
  assumes "x \<notin> set ys" and "x \<notin> set ys'"
  shows "xs @ x # ys = xs' @ x # ys' \<longleftrightarrow> xs = xs' \<and> ys = ys'"
proof
  assume "xs @ x # ys = xs' @ x # ys'"
  then have "rev (xs @ x # ys) = rev (xs' @ x # ys')" by simp
  then have "rev ys @ x # rev xs = rev ys' @ x # rev xs'" by simp
  with assms show "xs = xs' \<and> ys = ys'" by (simp add: append_first_sep_eq)
qed simp

text \<open>\<open>operator<\<close> of \<open>QString\<close>: by the codes of the characters.\<close>

fun str_less :: "string \<Rightarrow> string \<Rightarrow> bool" where
  "str_less xs [] = False"
| "str_less [] (y # ys) = True"
| "str_less (x # xs) (y # ys) = (if x = y then str_less xs ys else (of_char x :: nat) < of_char y)"

lemma str_less_asym: "str_less a b \<Longrightarrow> \<not> str_less b a"
  by (induction a b rule: str_less.induct) (auto split: if_splits)

lemma str_less_total: "a \<noteq> b \<Longrightarrow> str_less a b \<or> str_less b a"
proof (induction a b rule: str_less.induct)
  case (1 xs)
  then show ?case by (cases xs) auto
next
  case (3 x xs y ys)
  then show ?case by (metis not_less_iff_gr_or_eq of_char_eq_iff str_less.simps(3))
qed simp

section \<open>Hash tables\<close>

type_synonym ('k, 'v) qhash = "('k \<times> 'v) list"

abbreviation hfind :: "('k, 'v) qhash \<Rightarrow> 'k \<Rightarrow> 'v option" where
  "hfind m k \<equiv> map_of m k"

abbreviation hcontains :: "('k, 'v) qhash \<Rightarrow> 'k \<Rightarrow> bool" where
  "hcontains m k \<equiv> map_of m k \<noteq> None"

abbreviation hinsert :: "'k \<Rightarrow> 'v \<Rightarrow> ('k, 'v) qhash \<Rightarrow> ('k, 'v) qhash" where
  "hinsert \<equiv> AList.update"

abbreviation hremove :: "'k \<Rightarrow> ('k, 'v) qhash \<Rightarrow> ('k, 'v) qhash" where
  "hremove \<equiv> AList.delete"

abbreviation hsize :: "('k, 'v) qhash \<Rightarrow> nat" where
  "hsize m \<equiv> length m"

text \<open>Erasing while iterating: keep the entries that satisfy \<open>P\<close>.\<close>

abbreviation hretain :: "('k \<Rightarrow> 'v \<Rightarrow> bool) \<Rightarrow> ('k, 'v) qhash \<Rightarrow> ('k, 'v) qhash" where
  "hretain P m \<equiv> filter (\<lambda>(k, v). P k v) m"

text \<open>The representation invariant: every key is stored once.\<close>

definition hwf :: "('k, 'v) qhash \<Rightarrow> bool" where
  "hwf m = distinct (map fst m)"

lemma hwf_Nil [simp, intro]: "hwf []"
  by (simp add: hwf_def)

lemma hwf_insert [simp, intro]: "hwf m \<Longrightarrow> hwf (hinsert k v m)"
  by (simp add: hwf_def distinct_update)

lemma hwf_remove [simp, intro]: "hwf m \<Longrightarrow> hwf (hremove k m)"
  by (simp add: hwf_def distinct_delete)

lemma hwf_filter [simp, intro]: "hwf m \<Longrightarrow> hwf (filter P m)"
  by (induction m) (auto simp: hwf_def)

lemma hfind_insert [qhash_simps]: "hfind (hinsert k v m) k' = (if k' = k then Some v else hfind m k')"
  by (simp add: update_conv')

lemma hfind_remove [qhash_simps]: "hfind (hremove k m) k' = (if k' = k then None else hfind m k')"
  by (simp add: delete_conv')

lemma hfind_in: "hfind m k = Some v \<Longrightarrow> (k, v) \<in> set m"
  by (rule map_of_SomeD)

lemma hwf_find: "hwf m \<Longrightarrow> (k, v) \<in> set m \<Longrightarrow> hfind m k = Some v"
  by (simp add: hwf_def)

lemma hfind_None_iff: "hfind m k = None \<longleftrightarrow> k \<notin> fst ` set m"
  by (rule map_of_eq_None_iff)

lemma hsize_insert_new: "hfind m k = None \<Longrightarrow> hsize (hinsert k v m) = Suc (hsize m)"
  by (induction m) (auto split: if_splits)

lemma hsize_insert_old: "hfind m k \<noteq> None \<Longrightarrow> hsize (hinsert k v m) = hsize m"
  by (induction m) (auto split: if_splits)

lemma hsize_insert [qhash_simps]:
  "hsize (hinsert k v m) = (if hfind m k = None then Suc (hsize m) else hsize m)"
  by (simp add: hsize_insert_new hsize_insert_old)

lemma hsize_remove_le: "hsize (hremove k m) \<le> hsize m"
  by (rule length_delete_le)

lemma hremove_absent: "hfind m k = None \<Longrightarrow> hremove k m = m"
  by (induction m) (auto split: if_splits)

lemma hinsert_entries: "set (hinsert k v m) \<subseteq> insert (k, v) (set m)"
  by (induction m) auto

lemma hinsert_keys: "fst ` set (hinsert k v m) = insert k (fst ` set m)"
  by (induction m) auto

lemma hremove_keys: "fst ` set (hremove k m) = fst ` set m - {k}"
  by (induction m) auto

lemma hsize_remove: "hwf m \<Longrightarrow> hcontains m k \<Longrightarrow> Suc (hsize (hremove k m)) = hsize m"
proof (induction m)
  case (Cons e m)
  have "hremove k m = m" if "fst e = k"
    using Cons.prems that by (intro hremove_absent) (auto simp: hwf_def map_of_eq_None_iff)
  then show ?case using Cons by (cases "fst e = k") (auto simp: hwf_def)
qed simp

lemma hwf_filter_find:
  "hwf m \<Longrightarrow> hfind (filter P m) k =
    (case hfind m k of None \<Rightarrow> None | Some v \<Rightarrow> if P (k, v) then Some v else None)"
  by (induction m) (auto simp: hwf_def map_of_eq_None_iff rev_image_eqI split: option.splits)

text \<open>The contract of a hash table, stated once for every client of the interface.\<close>

locale hash_table =
  fixes lookup :: "'m \<Rightarrow> 'k \<Rightarrow> 'v option"
    and insert :: "'k \<Rightarrow> 'v \<Rightarrow> 'm \<Rightarrow> 'm"
    and remove :: "'k \<Rightarrow> 'm \<Rightarrow> 'm"
    and size_of :: "'m \<Rightarrow> nat"
    and invar :: "'m \<Rightarrow> bool"
  assumes lookup_insert: "invar m \<Longrightarrow> lookup (insert k v m) = (lookup m)(k \<mapsto> v)"
    and lookup_remove: "invar m \<Longrightarrow> lookup (remove k m) = (lookup m)(k := None)"
    and invar_insert: "invar m \<Longrightarrow> invar (insert k v m)"
    and invar_remove: "invar m \<Longrightarrow> invar (remove k m)"
    and size_insert: "invar m \<Longrightarrow>
      size_of (insert k v m) = (if lookup m k = None then Suc (size_of m) else size_of m)"
    and size_remove: "invar m \<Longrightarrow> size_of (remove k m) \<le> size_of m"
begin

text \<open>Insertion guarded by a cap keeps the cap; refusing a new key is the only way to lose it.\<close>

lemma capped_insert_size:
  assumes "invar m" and "size_of m \<le> cap" and "lookup m k \<noteq> None \<or> size_of m < cap"
  shows "size_of (insert k v m) \<le> cap"
  using assms by (auto simp: size_insert)

lemma insert_other: "invar m \<Longrightarrow> k' \<noteq> k \<Longrightarrow> lookup (insert k v m) k' = lookup m k'"
  by (simp add: lookup_insert)

lemma insert_remove: "invar m \<Longrightarrow> lookup (insert k v (remove k m)) = lookup (insert k v m)"
  by (simp add: lookup_insert lookup_remove invar_remove)

end

interpretation qh: hash_table map_of AList.update AList.delete length hwf
  by unfold_locales (simp_all add: update_conv' delete_conv' hsize_insert hsize_remove_le)

section \<open>Sorting by weight\<close>

text \<open>
  \<open>std::partial_sort\<close> with a \<open>greater\<close> comparator, followed by keeping the first \<open>n\<close>
  elements. The order of equal elements is left open by C++; the model takes the stable one, and
  what is proved of it only speaks of weights.
\<close>

definition sort_desc :: "('a \<Rightarrow> 'w::linorder) \<Rightarrow> 'a list \<Rightarrow> 'a list" where
  "sort_desc w xs = rev (sort_key w (rev xs))"

lemma mset_sort_desc [simp]: "mset (sort_desc w xs) = mset xs"
  by (simp add: sort_desc_def)

lemma set_sort_desc [simp]: "set (sort_desc w xs) = set xs"
  by (simp add: sort_desc_def)

lemma length_sort_desc [simp]: "length (sort_desc w xs) = length xs"
  by (simp add: sort_desc_def)

lemma sort_desc_sorted: "sorted_wrt (\<ge>) (map w (sort_desc w xs))"
  by (simp add: sort_desc_def rev_map [symmetric] sorted_wrt_rev)

lemma sort_desc_distinct_map: "distinct (map f (sort_desc w xs)) \<longleftrightarrow> distinct (map f xs)"
proof -
  have "mset (map f (sort_desc w xs)) = mset (map f xs)"
    by simp
  then show ?thesis
    by (rule mset_eq_imp_distinct_iff)
qed

text \<open>Elements kept by a descending prefix weigh at least as much as the ones left out.\<close>

lemma sort_desc_take_drop:
  assumes "x \<in> set (take n (sort_desc w xs))" and "y \<in> set (drop n (sort_desc w xs))"
  shows "w y \<le> w x"
proof -
  have "sorted_wrt (\<ge>) (map w (take n (sort_desc w xs)) @ map w (drop n (sort_desc w xs)))"
    using sort_desc_sorted [of w xs] by (metis append_take_drop_id map_append)
  then show ?thesis using assms by (auto simp: sorted_wrt_append)
qed

section \<open>Words\<close>

lemma unat_add_no_wrap: "unat (a::'a::len word) + unat b < 2 ^ LENGTH('a) \<Longrightarrow> unat (a + b) = unat a + unat b"
  by (simp add: unat_word_ariths)

section \<open>Sorting with a comparison\<close>

text \<open>A stable insertion sort, for \<open>std::stable_sort\<close> with the comparison \<open>lt\<close>.\<close>

primrec insert_by :: "('a \<Rightarrow> 'a \<Rightarrow> bool) \<Rightarrow> 'a \<Rightarrow> 'a list \<Rightarrow> 'a list" where
  "insert_by lt x [] = [x]"
| "insert_by lt x (y # ys) = (if lt y x then y # insert_by lt x ys else x # y # ys)"

definition sort_by :: "('a \<Rightarrow> 'a \<Rightarrow> bool) \<Rightarrow> 'a list \<Rightarrow> 'a list" where
  "sort_by lt xs = foldr (insert_by lt) xs []"

lemma mset_insert_by [simp]: "mset (insert_by lt x ys) = add_mset x (mset ys)"
  by (induction ys) auto

lemma mset_sort_by [simp]: "mset (sort_by lt xs) = mset xs"
  by (induction xs) (simp_all add: sort_by_def)

lemma set_insert_by [simp]: "set (insert_by lt x ys) = insert x (set ys)"
  by (induction ys) auto

lemma length_sort_by [simp]: "length (sort_by lt xs) = length xs"
  by (metis mset_sort_by size_mset)

text \<open>What the sort needs of a comparison, and what it gives.\<close>

definition weak_order :: "('a \<Rightarrow> 'a \<Rightarrow> bool) \<Rightarrow> bool" where
  "weak_order lt = ((\<forall>x y. lt x y \<longrightarrow> \<not> lt y x) \<and> (\<forall>x y z. \<not> lt x y \<longrightarrow> \<not> lt y z \<longrightarrow> \<not> lt x z))"

lemma weak_orderD:
  assumes "weak_order lt"
  shows "lt x y \<Longrightarrow> \<not> lt y x" and "\<not> lt x y \<Longrightarrow> \<not> lt y z \<Longrightarrow> \<not> lt x z"
  using assms unfolding weak_order_def by (blast, metis)

lemma insert_by_sorted:
  assumes "weak_order lt"
  shows "sorted_wrt (\<lambda>a b. \<not> lt b a) xs \<Longrightarrow> sorted_wrt (\<lambda>a b. \<not> lt b a) (insert_by lt x xs)"
proof (induction xs)
  case (Cons y ys)
  show ?case
  proof (cases "lt y x")
    case True
    have "\<not> lt x y" using weak_orderD(1) [OF assms True] .
    then show ?thesis using True Cons by simp
  next
    case False
    have "\<not> lt z x" if "z \<in> set ys" for z
    proof -
      have "\<not> lt z y" using Cons.prems that by simp
      then show ?thesis using False by (rule weak_orderD(2) [OF assms])
    qed
    then show ?thesis using False Cons.prems by simp
  qed
qed simp

lemma sort_by_sorted: "weak_order lt \<Longrightarrow> sorted_wrt (\<lambda>a b. \<not> lt b a) (sort_by lt xs)"
  by (induction xs) (simp_all add: sort_by_def insert_by_sorted)

lemma weak_order_key: "weak_order (\<lambda>a b. (f a :: 'k :: linorder) < f b)" "weak_order (\<lambda>a b. (f b :: 'k :: linorder) < f a)"
  by (auto simp: weak_order_def)

end
