(* ===== verification/FlowTypes.thy ===== *)
theory FlowTypes
  imports Prelude
begin

text \<open>
  The value types every component exchanges: \<open>backend/Connection.h\<close> (protocols, directions, TCP
  states, attribution reasons, endpoints and flows), the data half of
  \<open>backend/ProcessResolver.h\<close> (process and container metadata, eagerness presets) and
  \<open>InterfaceStats\<close> of \<open>backend/NetworkMonitor.h\<close>.
\<close>

section \<open>Enumerations\<close>

datatype L4Proto = ProtoUnknown | Tcp | Udp | Icmp | IcmpV6

fun L4Proto_num :: "L4Proto \<Rightarrow> nat" where
  "L4Proto_num ProtoUnknown = 0"
| "L4Proto_num Tcp = 1"
| "L4Proto_num Udp = 2"
| "L4Proto_num Icmp = 3"
| "L4Proto_num IcmpV6 = 4"

fun toIanaProto :: "L4Proto \<Rightarrow> quint8" where
  "toIanaProto Tcp = 6"
| "toIanaProto Udp = 17"
| "toIanaProto Icmp = 1"
| "toIanaProto IcmpV6 = 58"
| "toIanaProto ProtoUnknown = 0"

definition fromIanaProto :: "quint8 \<Rightarrow> L4Proto" where
  "fromIanaProto n =
     (if n = 6 then Tcp else if n = 17 then Udp else if n = 1 then Icmp
      else if n = 58 then IcmpV6 else ProtoUnknown)"

datatype Direction = DirUnknown | Outbound | Inbound

fun Direction_num :: "Direction \<Rightarrow> quint8" where
  "Direction_num DirUnknown = 0"
| "Direction_num Outbound = 1"
| "Direction_num Inbound = 2"

datatype TcpState = TcpNone | SynSent | SynRecv | Established | FinWait | CloseWait | LastAck
  | TimeWait | Close | SynSent2

fun TcpState_num :: "TcpState \<Rightarrow> quint8" where
  "TcpState_num TcpNone = 0"
| "TcpState_num SynSent = 1"
| "TcpState_num SynRecv = 2"
| "TcpState_num Established = 3"
| "TcpState_num FinWait = 4"
| "TcpState_num CloseWait = 5"
| "TcpState_num LastAck = 6"
| "TcpState_num TimeWait = 7"
| "TcpState_num Close = 8"
| "TcpState_num SynSent2 = 9"

fun tcpStateToString :: "TcpState \<Rightarrow> string" where
  "tcpStateToString TcpNone = ''''"
| "tcpStateToString SynSent = ''SYN_SENT''"
| "tcpStateToString SynRecv = ''SYN_RECV''"
| "tcpStateToString Established = ''ESTABLISHED''"
| "tcpStateToString FinWait = ''FIN_WAIT''"
| "tcpStateToString CloseWait = ''CLOSE_WAIT''"
| "tcpStateToString LastAck = ''LAST_ACK''"
| "tcpStateToString TimeWait = ''TIME_WAIT''"
| "tcpStateToString Close = ''CLOSE''"
| "tcpStateToString SynSent2 = ''SYN_SENT2''"

datatype AttributionReason = Resolved | NoLocalSocket | Orphaned | Forwarded

fun AttributionReason_num :: "AttributionReason \<Rightarrow> quint8" where
  "AttributionReason_num Resolved = 0"
| "AttributionReason_num NoLocalSocket = 1"
| "AttributionReason_num Orphaned = 2"
| "AttributionReason_num Forwarded = 3"

fun attributionReasonToString :: "AttributionReason \<Rightarrow> string" where
  "attributionReasonToString Resolved = ''resolved''"
| "attributionReasonToString NoLocalSocket = ''nosocket''"
| "attributionReasonToString Orphaned = ''orphaned''"
| "attributionReasonToString Forwarded = ''forwarded''"

fun l4ProtoToString :: "L4Proto \<Rightarrow> string" where
  "l4ProtoToString Tcp = ''TCP''"
| "l4ProtoToString Udp = ''UDP''"
| "l4ProtoToString Icmp = ''ICMP''"
| "l4ProtoToString IcmpV6 = ''ICMPv6''"
| "l4ProtoToString ProtoUnknown = ''?''"

section \<open>Endpoints, process and container metadata, flows\<close>

text \<open>\<open>QHostAddress\<close> as the backends build it: null, from 32 address bits or from 128, never with
  an IPv6 scope id. Equality is Qt's strict comparison.\<close>

datatype QHostAddress = HostNull | HostV4 "32 word" | HostV6 "128 word"

record Endpoint =
  ep_address :: QHostAddress
  ep_port :: quint16

definition isIPv6 :: "Endpoint \<Rightarrow> bool" where
  "isIPv6 e = (case ep_address e of HostV6 _ \<Rightarrow> True | _ \<Rightarrow> False)"

record ProcessInfo =
  pi_pid :: int
  pi_comm :: string
  pi_cmdline :: string
  pi_exe :: string
  pi_uid :: quint32

definition no_process :: ProcessInfo where
  "no_process = \<lparr>pi_pid = 0, pi_comm = [], pi_cmdline = [], pi_exe = [], pi_uid = 0\<rparr>"

definition pi_valid :: "ProcessInfo \<Rightarrow> bool" where
  "pi_valid p = (0 < pi_pid p)"

record ContainerInfo =
  ct_runtime :: string
  ct_id :: string
  ct_name :: string

definition no_container :: ContainerInfo where
  "no_container = \<lparr>ct_runtime = [], ct_id = [], ct_name = []\<rparr>"

definition ct_valid :: "ContainerInfo \<Rightarrow> bool" where
  "ct_valid c = (ct_runtime c \<noteq> [] \<and> ct_id c \<noteq> [])"

record Connection =
  c_local :: Endpoint
  c_remote :: Endpoint
  c_proto :: L4Proto
  c_rxBytes :: quint64
  c_txBytes :: quint64
  c_rxPackets :: quint64
  c_txPackets :: quint64
  c_iface :: string
  c_ifIndex :: quint32
  c_direction :: Direction
  c_tcpState :: TcpState
  c_reason :: AttributionReason
  c_process :: ProcessInfo
  c_container :: ContainerInfo
  c_chain :: "ContainerInfo list"

definition no_endpoint :: Endpoint where
  "no_endpoint = \<lparr>ep_address = HostNull, ep_port = 0\<rparr>"

definition no_connection :: Connection where
  "no_connection = \<lparr>c_local = no_endpoint, c_remote = no_endpoint, c_proto = ProtoUnknown,
     c_rxBytes = 0, c_txBytes = 0, c_rxPackets = 0, c_txPackets = 0, c_iface = [], c_ifIndex = 0,
     c_direction = DirUnknown, c_tcpState = TcpNone, c_reason = Resolved,
     c_process = no_process, c_container = no_container, c_chain = []\<rparr>"

text \<open>\<open>Connection::key()\<close>. \<open>toStr\<close> is \<open>QHostAddress::toString\<close>.\<close>

definition conn_key :: "(QHostAddress \<Rightarrow> string) \<Rightarrow> Connection \<Rightarrow> string" where
  "conn_key toStr c =
     show_nat (L4Proto_num (c_proto c)) @ ''|'' @
     show_nat (unat (Direction_num (c_direction c))) @ ''|'' @
     toStr (ep_address (c_local c)) @ ''.'' @ show_nat (unat (ep_port (c_local c))) @ ''|'' @
     toStr (ep_address (c_remote c)) @ ''.'' @ show_nat (unat (ep_port (c_remote c)))"

text \<open>What \<open>QHostAddress::toString\<close> documents, as far as keys need it: distinct addresses print
  differently, and no address prints a vertical bar.\<close>

definition addr_text_ok :: "(QHostAddress \<Rightarrow> string) \<Rightarrow> bool" where
  "addr_text_ok toStr = (inj toStr \<and> (\<forall>a. CHR ''|'' \<notin> set (toStr a)))"

text \<open>A concrete printer with those two properties, for evaluation.\<close>

fun plain_addr :: "QHostAddress \<Rightarrow> string" where
  "plain_addr HostNull = ''''"
| "plain_addr (HostV4 w) = ''4:'' @ show_nat (unat w)"
| "plain_addr (HostV6 w) = ''6:'' @ show_nat (unat w)"

section \<open>Interface statistics\<close>

record InterfaceStats =
  if_name :: string
  if_type :: string
  if_mtu :: quint32
  if_addresses :: "string list"
  if_rxBytes :: quint64
  if_txBytes :: quint64
  if_rxPackets :: quint64
  if_txPackets :: quint64
  if_isUp :: bool
  if_isLoopback :: bool
  if_ifIndex :: quint32
  if_operState :: quint8
  if_rxErrors :: quint64
  if_txErrors :: quint64
  if_rxDropped :: quint64
  if_txDropped :: quint64

section \<open>Attribution eagerness and resolver tuning\<close>

datatype AttributionEagerness = Off | Balanced | Eager

fun eagerness_num :: "AttributionEagerness \<Rightarrow> nat" where
  "eagerness_num Off = 0"
| "eagerness_num Balanced = 1"
| "eagerness_num Eager = 2"

record ResolverTuning =
  cacheRefreshMs :: int
  containerCacheMs :: int
  netnsRefreshMs :: int
  deepQueueMax :: int
  deepBatchMax :: int
  deepCoalesceMs :: int
  deepMaxAttempts :: int
  deepDemandNetnsScan :: bool

definition balancedResolverTuning :: ResolverTuning where
  "balancedResolverTuning = \<lparr>cacheRefreshMs = 1000, containerCacheMs = 2000, netnsRefreshMs = 5000,
     deepQueueMax = 8192, deepBatchMax = 256, deepCoalesceMs = 100, deepMaxAttempts = 12,
     deepDemandNetnsScan = False\<rparr>"

definition eagerResolverTuning :: ResolverTuning where
  "eagerResolverTuning = balancedResolverTuning\<lparr>cacheRefreshMs := 250, containerCacheMs := 1000,
     netnsRefreshMs := 1000, deepBatchMax := 2048, deepCoalesceMs := 50,
     deepDemandNetnsScan := True\<rparr>"

definition offResolverTuning :: ResolverTuning where
  "offResolverTuning = balancedResolverTuning\<lparr>cacheRefreshMs := 0, containerCacheMs := 0,
     netnsRefreshMs := 0\<rparr>"

definition resolverTuningFor :: "AttributionEagerness \<Rightarrow> int \<Rightarrow> int \<Rightarrow> ResolverTuning" where
  "resolverTuningFor eagerness cacheRefreshOverrideMs netnsRefreshOverrideMs =
     (if eagerness = Off then offResolverTuning
      else
        (let tuning = (if eagerness = Eager then eagerResolverTuning else balancedResolverTuning);
             tuning = (if 0 < cacheRefreshOverrideMs
                       then tuning\<lparr>cacheRefreshMs := cacheRefreshOverrideMs,
                                   containerCacheMs := cacheRefreshOverrideMs\<rparr>
                       else tuning)
         in if 0 < netnsRefreshOverrideMs
            then tuning\<lparr>netnsRefreshMs := netnsRefreshOverrideMs\<rparr> else tuning))"

lemmas tuning_defs [cfg_simps] = balancedResolverTuning_def eagerResolverTuning_def
  offResolverTuning_def resolverTuningFor_def

fun eagernessToString :: "AttributionEagerness \<Rightarrow> string" where
  "eagernessToString Off = ''off''"
| "eagernessToString Balanced = ''balanced''"
| "eagernessToString Eager = ''eager''"

definition eagernessFromString :: "string \<Rightarrow> AttributionEagerness option" where
  "eagernessFromString s =
     (let t = toLower (trimmed s) in
      if t = ''off'' then Some Off
      else if t = ''balanced'' then Some Balanced
      else if t = ''eager'' then Some Eager
      else None)"

record ProcessResolverConfig =
  cfg_eagerness :: AttributionEagerness
  cfg_processAttribution :: bool
  cfg_containerAttribution :: bool
  cfg_netnsScan :: bool
  cfg_tuning :: ResolverTuning

instantiation AttributionEagerness :: linorder
begin

definition less_eq_AttributionEagerness :: "AttributionEagerness \<Rightarrow> AttributionEagerness \<Rightarrow> bool" where
  "less_eq_AttributionEagerness a b = (eagerness_num a \<le> eagerness_num b)"

definition less_AttributionEagerness :: "AttributionEagerness \<Rightarrow> AttributionEagerness \<Rightarrow> bool" where
  "less_AttributionEagerness a b = (eagerness_num a < eagerness_num b)"

instance
proof
  fix a b c :: AttributionEagerness
  show "(a < b) = (a \<le> b \<and> \<not> b \<le> a)"
    by (auto simp: less_eq_AttributionEagerness_def less_AttributionEagerness_def)
  show "a \<le> a" by (simp add: less_eq_AttributionEagerness_def)
  show "a \<le> b \<Longrightarrow> b \<le> c \<Longrightarrow> a \<le> c" by (simp add: less_eq_AttributionEagerness_def)
  show "a \<le> b \<Longrightarrow> b \<le> a \<Longrightarrow> a = b"
    by (cases a; cases b) (auto simp: less_eq_AttributionEagerness_def)
  show "a \<le> b \<or> b \<le> a" by (auto simp: less_eq_AttributionEagerness_def)
qed

end

section \<open>Facts about the types\<close>

lemma fromIana_toIana [simp]: "fromIanaProto (toIanaProto p) = p"
  by (cases p) (simp_all add: fromIanaProto_def)

lemma L4Proto_num_inj [simp]: "L4Proto_num p = L4Proto_num q \<longleftrightarrow> p = q"
  by (cases p; cases q) simp_all

lemma Direction_num_inj [simp]: "Direction_num p = Direction_num q \<longleftrightarrow> p = q"
  by (cases p; cases q) simp_all

lemma eagerness_string_roundtrip [simp]: "eagernessFromString (eagernessToString e) = Some e"
  by (cases e) (simp_all add: eagernessFromString_def trimmed_def toLower_def lower_char_def isSpace_def)

lemma no_process_invalid [simp]: "\<not> pi_valid no_process"
  by (simp add: pi_valid_def no_process_def)

lemma no_container_invalid [simp]: "\<not> ct_valid no_container"
  by (simp add: ct_valid_def no_container_def)

lemma eagerness_le_Off [simp]: "e \<le> Off \<longleftrightarrow> e = Off"
  by (cases e) (auto simp: less_eq_AttributionEagerness_def)

lemma Off_le [simp]: "Off \<le> e"
  by (simp add: less_eq_AttributionEagerness_def)

lemma plain_addr_ok: "addr_text_ok plain_addr"
proof -
  have "inj plain_addr"
  proof (rule injI)
    fix a b assume "plain_addr a = plain_addr b"
    then show "a = b"
      by (cases a; cases b) (auto simp: word_unat_eq_iff)
  qed
  moreover have "CHR ''|'' \<notin> set (plain_addr a)" for a
    by (cases a) (auto dest!: show_nat_digits simp: is_digit_def)
  ultimately show ?thesis by (simp add: addr_text_ok_def)
qed

lemma show_nat_no_sep:
  "CHR ''|'' \<notin> set (show_nat n)" "CHR ''.'' \<notin> set (show_nat n)"
  by (auto dest!: show_nat_digits simp: is_digit_def)

lemma conn_key_split:
  assumes "addr_text_ok toStr"
  shows "qsplit (CHR ''|'') (conn_key toStr c) =
    [show_nat (L4Proto_num (c_proto c)), show_nat (unat (Direction_num (c_direction c))),
     toStr (ep_address (c_local c)) @ ''.'' @ show_nat (unat (ep_port (c_local c))),
     toStr (ep_address (c_remote c)) @ ''.'' @ show_nat (unat (ep_port (c_remote c)))]"
proof -
  have addr: "CHR ''|'' \<notin> set (toStr a @ CHR ''.'' # show_nat n)" for a n
    using assms by (auto simp: addr_text_ok_def show_nat_no_sep)
  have "conn_key toStr c =
    show_nat (L4Proto_num (c_proto c)) @ CHR ''|'' #
    show_nat (unat (Direction_num (c_direction c))) @ CHR ''|'' #
    (toStr (ep_address (c_local c)) @ CHR ''.'' # show_nat (unat (ep_port (c_local c)))) @ CHR ''|'' #
    (toStr (ep_address (c_remote c)) @ CHR ''.'' # show_nat (unat (ep_port (c_remote c))))"
    by (simp add: conn_key_def)
  then show ?thesis
    by (simp only: qsplit_append_sep show_nat_no_sep addr qsplit_id append_Cons append_Nil not_False_eq_True simp_thms)
qed

lemma conn_key_eq_iff:
  assumes "addr_text_ok toStr"
  shows "conn_key toStr c = conn_key toStr d \<longleftrightarrow>
    c_proto c = c_proto d \<and> c_direction c = c_direction d \<and>
    ep_address (c_local c) = ep_address (c_local d) \<and> ep_port (c_local c) = ep_port (c_local d) \<and>
    ep_address (c_remote c) = ep_address (c_remote d) \<and> ep_port (c_remote c) = ep_port (c_remote d)"
    (is "?k c = ?k d \<longleftrightarrow> ?same")
proof
  assume "?k c = ?k d"
  then have "qsplit (CHR ''|'') (?k c) = qsplit (CHR ''|'') (?k d)" by simp
  moreover have "toStr a = toStr b \<longleftrightarrow> a = b" for a b
    using assms by (simp add: addr_text_ok_def inj_eq)
  ultimately show ?same
    by (simp add: conn_key_split [OF assms] append_last_sep_eq show_nat_no_sep flip: word_unat_eq_iff)
qed (simp add: conn_key_def)

end
