(* ===== verification/Heuristics.thy ===== *)
theory Heuristics
  imports FlowTypes
begin

text \<open>
  \<open>util/ConnectionHeuristics.h\<close> and \<open>aggregate/BandwidthScale.h\<close>: the pure decisions the agent
  and every front end share. A flow is forwarded when neither end is one of the host's addresses;
  the attribution reason and the direction are derived from the endpoints, the TCP state and the
  ephemeral port range; rates are smoothed by an exponential moving average and an ease-out curve,
  and the gauge scale is the next 1/2/5 step above the loudest rate.
\<close>

section \<open>Attribution reason and direction\<close>

definition isForwardedFlow :: "Connection \<Rightarrow> QHostAddress set \<Rightarrow> QHostAddress set \<Rightarrow> bool" where
  "isForwardedFlow c localAddrs loopbackAddrs =
     (let isOurs = (\<lambda>a. a \<in> loopbackAddrs \<or> a \<in> localAddrs)
      in \<not> isOurs (ep_address (c_local c)) \<and> \<not> isOurs (ep_address (c_remote c)))"

definition attributionReason ::
  "Connection \<Rightarrow> QHostAddress set \<Rightarrow> QHostAddress set \<Rightarrow> AttributionReason" where
  "attributionReason c localAddrs loopbackAddrs =
     (if 0 < pi_pid (c_process c) then Resolved
      else if isForwardedFlow c localAddrs loopbackAddrs then Forwarded
      else if c_proto c = Tcp \<and>
        (case c_tcpState c of
           FinWait \<Rightarrow> True | CloseWait \<Rightarrow> True | LastAck \<Rightarrow> True | TimeWait \<Rightarrow> True | Close \<Rightarrow> True
         | _ \<Rightarrow> False)
      then Orphaned
      else NoLocalSocket)"

definition inferDirection ::
  "Connection \<Rightarrow> QHostAddress set \<Rightarrow> QHostAddress set \<Rightarrow> quint16 \<Rightarrow> quint16 \<Rightarrow> Direction" where
  "inferDirection c localAddrs loopbackAddrs ephemeralLow ephemeralHigh =
     (if c_proto c \<noteq> Tcp \<and> c_proto c \<noteq> Udp then DirUnknown
      else
        (let lEph = (ephemeralLow \<le> ep_port (c_local c) \<and> ep_port (c_local c) \<le> ephemeralHigh);
             rEph = (ephemeralLow \<le> ep_port (c_remote c) \<and> ep_port (c_remote c) \<le> ephemeralHigh)
         in if lEph \<and> \<not> rEph then Outbound
            else if rEph \<and> \<not> lEph then Inbound
            else
              (let lLocal = (ep_address (c_local c) \<in> localAddrs
                             \<or> ep_address (c_local c) \<in> loopbackAddrs);
                   rLocal = (ep_address (c_remote c) \<in> localAddrs
                             \<or> ep_address (c_remote c) \<in> loopbackAddrs)
               in if lLocal \<and> \<not> rLocal then Outbound
                  else if rLocal \<and> \<not> lLocal then Inbound
                  else DirUnknown)))"

section \<open>Smoothing\<close>

definition emaUpdate :: "real \<Rightarrow> real \<Rightarrow> real \<Rightarrow> real \<Rightarrow> real" where
  "emaUpdate prev raw dtMs tauMs =
     (if tauMs \<le> 0 \<or> dtMs \<le> 0 then raw
      else (let alpha = dtMs / (tauMs + dtMs) in alpha * raw + (1 - alpha) * prev))"

definition easeOutCubic :: "real \<Rightarrow> real" where
  "easeOutCubic t = (let u = 1 - t in 1 - u * u * u)"

section \<open>Gauge scale\<close>

text \<open>\<open>std::log10\<close>, \<open>std::floor\<close> and \<open>std::pow\<close> are the real functions.\<close>

definition niceScale :: "real \<Rightarrow> real" where
  "niceScale maxRate =
     (if maxRate \<le> 0 then 1024
      else
        (let e = of_int \<lfloor>log 10 maxRate\<rfloor>;
             base = 10 powr e;
             m = maxRate / base;
             nice = (if m \<le> 1 then 1 else if m \<le> 2 then 2 else if m \<le> 5 then 5 else 10)
         in nice * base))"

definition gaugeFraction :: "real \<Rightarrow> real \<Rightarrow> real" where
  "gaugeFraction v scale = (if scale \<le> 0 then 0 else max 0 (min 1 (v / scale)))"

section \<open>Facts\<close>

text \<open>The flow seen from the other end.\<close>

definition swap_ends :: "Connection \<Rightarrow> Connection" where
  "swap_ends c = c\<lparr>c_local := c_remote c, c_remote := c_local c\<rparr>"

fun flip_dir :: "Direction \<Rightarrow> Direction" where
  "flip_dir Outbound = Inbound"
| "flip_dir Inbound = Outbound"
| "flip_dir DirUnknown = DirUnknown"

lemma isForwardedFlow_iff:
  "isForwardedFlow c L B \<longleftrightarrow>
    ep_address (c_local c) \<notin> L \<union> B \<and> ep_address (c_remote c) \<notin> L \<union> B"
  by (auto simp: isForwardedFlow_def)

lemma isForwardedFlow_swap: "isForwardedFlow (swap_ends c) L B = isForwardedFlow c L B"
  by (auto simp: isForwardedFlow_iff swap_ends_def)

lemma swap_ends_sel [simp]:
  "c_local (swap_ends c) = c_remote c" "c_remote (swap_ends c) = c_local c"
  "c_proto (swap_ends c) = c_proto c" "c_process (swap_ends c) = c_process c"
  "c_tcpState (swap_ends c) = c_tcpState c"
  by (simp_all add: swap_ends_def)

text \<open>The two-stage decision over its four observations: port ephemeral and address ours, per end.\<close>

definition pick_direction :: "bool \<Rightarrow> bool \<Rightarrow> bool \<Rightarrow> bool \<Rightarrow> Direction" where
  "pick_direction lEph rEph lLocal rLocal =
     (if lEph \<and> \<not> rEph then Outbound else if rEph \<and> \<not> lEph then Inbound
      else if lLocal \<and> \<not> rLocal then Outbound else if rLocal \<and> \<not> lLocal then Inbound
      else DirUnknown)"

lemma inferDirection_cases:
  "inferDirection c L B lo hi =
     (if c_proto c = Tcp \<or> c_proto c = Udp
      then pick_direction (ep_port (c_local c) \<in> {lo..hi}) (ep_port (c_remote c) \<in> {lo..hi})
             (ep_address (c_local c) \<in> L \<union> B) (ep_address (c_remote c) \<in> L \<union> B)
      else DirUnknown)"
  unfolding inferDirection_def pick_direction_def Let_def atLeastAtMost_iff Un_iff by argo

lemma pick_direction_flip: "pick_direction re le rl ll = flip_dir (pick_direction le re ll rl)"
  by (simp add: pick_direction_def)

text \<open>The TCP states in which the owning socket is already gone.\<close>

definition teardown_states :: "TcpState set" where
  "teardown_states = {FinWait, CloseWait, LastAck, TimeWait, Close}"

lemma teardown_case:
  "(case s of FinWait \<Rightarrow> True | CloseWait \<Rightarrow> True | LastAck \<Rightarrow> True | TimeWait \<Rightarrow> True | Close \<Rightarrow> True
     | _ \<Rightarrow> False) \<longleftrightarrow> s \<in> teardown_states"
  by (cases s) (auto simp: teardown_states_def)

lemma attributionReason_eq:
  "attributionReason c L B =
     (if pi_valid (c_process c) then Resolved
      else if isForwardedFlow c L B then Forwarded
      else if c_proto c = Tcp \<and> c_tcpState c \<in> teardown_states then Orphaned
      else NoLocalSocket)"
  by (simp add: attributionReason_def teardown_case pi_valid_def)

lemma easeOutCubic_bounds: "0 \<le> t \<Longrightarrow> t \<le> 1 \<Longrightarrow> 0 \<le> easeOutCubic t \<and> easeOutCubic t \<le> 1"
proof -
  assume "0 \<le> t" "t \<le> 1"
  then have "0 \<le> (1 - t) ^ 3" "(1 - t) ^ 3 \<le> 1"
    by (simp_all add: power_le_one)
  then show ?thesis by (simp add: easeOutCubic_def power3_eq_cube Let_def)
qed

lemma easeOutCubic_mono: "s \<le> t \<Longrightarrow> t \<le> 1 \<Longrightarrow> easeOutCubic s \<le> easeOutCubic t"
proof -
  assume "s \<le> t" "t \<le> 1"
  then have "(1 - t) ^ 3 \<le> (1 - s) ^ 3"
    by (intro power_mono) simp_all
  then show ?thesis by (simp add: easeOutCubic_def power3_eq_cube Let_def)
qed

lemma emaUpdate_convex:
  assumes "0 < dt" and "0 < tau"
  shows "\<exists>a. 0 < a \<and> a < 1 \<and> emaUpdate prev raw dt tau = a * raw + (1 - a) * prev"
proof -
  have "0 < dt / (tau + dt)" and "dt / (tau + dt) < 1"
    using assms by (simp_all add: field_simps)
  then show ?thesis
    using assms by (auto simp: emaUpdate_def Let_def intro!: exI [of _ "dt / (tau + dt)"])
qed

lemma emaUpdate_between:
  "min prev raw \<le> emaUpdate prev raw dt tau \<and> emaUpdate prev raw dt tau \<le> max prev raw"
proof (cases "0 < dt \<and> 0 < tau")
  case True
  then obtain a where a: "0 < a" "a < 1" "emaUpdate prev raw dt tau = a * raw + (1 - a) * prev"
    using emaUpdate_convex by blast
  have "min prev raw = a * min prev raw + (1 - a) * min prev raw"
    by (simp add: algebra_simps)
  also have "\<dots> \<le> a * raw + (1 - a) * prev"
    using a by (intro add_mono mult_left_mono) simp_all
  finally have lower: "min prev raw \<le> a * raw + (1 - a) * prev" .
  have "a * raw + (1 - a) * prev \<le> a * max prev raw + (1 - a) * max prev raw"
    using a by (intro add_mono mult_left_mono) simp_all
  also have "\<dots> = max prev raw" by (simp add: algebra_simps)
  finally show ?thesis using lower a(3) by simp
qed (auto simp: emaUpdate_def)

text \<open>A positive rate divided by its power of ten lies in \<open>[1, 10)\<close>.\<close>

lemma mantissa_bounds:
  assumes "0 < x"
  defines "b \<equiv> 10 powr of_int \<lfloor>log 10 x\<rfloor>"
  shows "0 < b" and "1 \<le> x / b" and "x / b < 10"
proof -
  show b0: "0 < b" by (simp add: b_def)
  have x: "x = 10 powr (log 10 x)" using assms by simp
  have "b \<le> x" unfolding b_def by (subst (2) x) (simp add: powr_mono)
  then show "1 \<le> x / b" using b0 by simp
  have "log 10 x < of_int \<lfloor>log 10 x\<rfloor> + 1" by linarith
  then have "10 powr (log 10 x) < 10 powr (of_int \<lfloor>log 10 x\<rfloor> + 1)"
    by (rule powr_less_mono) simp
  also have "\<dots> = 10 * b" by (simp add: b_def powr_add)
  finally have "x < 10 * b" using x by linarith
  then show "x / b < 10" using b0 by (simp add: field_simps)
qed

lemma niceScale_pos: "0 < niceScale x"
  by (simp add: niceScale_def Let_def)

lemma niceScale_bounds:
  assumes "0 < x"
  shows "x \<le> niceScale x \<and> niceScale x \<le> 5 / 2 * x"
proof -
  define b where "b = 10 powr (real_of_int \<lfloor>log 10 x\<rfloor>)"
  define m where "m = x / b"
  have b: "0 < b" and m: "1 \<le> m" "m < 10"
    using mantissa_bounds [OF assms] by (simp_all add: b_def m_def)
  have x: "x = m * b" using b by (simp add: m_def)
  define n :: real where "n = (if m \<le> 1 then 1 else if m \<le> 2 then 2 else if m \<le> 5 then 5 else 10)"
  have s: "niceScale x = n * b"
    using assms by (simp add: niceScale_def Let_def b_def m_def n_def)
  have "m \<le> n" and "n \<le> 5 / 2 * m"
    using m by (auto simp: n_def)
  then have "m * b \<le> n * b" and "n * b \<le> (5 / 2 * m) * b"
    using b by (simp_all add: mult_right_mono)
  then show ?thesis unfolding s by (simp add: x mult.assoc)
qed

lemma gaugeFraction_bounds: "0 \<le> gaugeFraction v s \<and> gaugeFraction v s \<le> 1"
  by (simp add: gaugeFraction_def)

section \<open>Properties\<close>

text \<open>The attribution reason of a flow is Resolved exactly when it has a process, Forwarded exactly
  when it has none and neither endpoint address belongs to the host, and Orphaned exactly when an
  unattributed, host-terminated TCP flow is in a teardown state; the reason does not depend on which
  end is called local.\<close>

theorem attributionReason_spec:
  "(attributionReason c L B = Resolved \<longleftrightarrow> 0 < pi_pid (c_process c)) \<and>
   (attributionReason c L B = Forwarded \<longleftrightarrow>
      pi_pid (c_process c) \<le> 0 \<and> ep_address (c_local c) \<notin> L \<union> B \<and> ep_address (c_remote c) \<notin> L \<union> B) \<and>
   (attributionReason c L B = Orphaned \<longleftrightarrow>
      pi_pid (c_process c) \<le> 0 \<and> \<not> isForwardedFlow c L B \<and> c_proto c = Tcp
      \<and> c_tcpState c \<in> {FinWait, CloseWait, LastAck, TimeWait, Close}) \<and>
   attributionReason (swap_ends c) L B = attributionReason c L B"
proof -
  have "attributionReason (swap_ends c) L B = attributionReason c L B"
    by (simp add: attributionReason_eq isForwardedFlow_swap)
  then show ?thesis
    by (auto simp: attributionReason_eq isForwardedFlow_iff pi_valid_def teardown_states_def)
qed

text \<open>Direction inference is antisymmetric: exchanging the two ends of a flow exchanges outbound
  and inbound and leaves unknown alone, so the same conversation never looks outbound from both
  ends.\<close>

theorem inferDirection_antisymmetric:
  "inferDirection (swap_ends c) L B lo hi = flip_dir (inferDirection c L B lo hi)"
  using pick_direction_flip [of "ep_port (c_remote c) \<in> {lo..hi}" "ep_port (c_local c) \<in> {lo..hi}"
      "ep_address (c_remote c) \<in> L \<union> B" "ep_address (c_local c) \<in> L \<union> B"]
  by (simp only: inferDirection_cases swap_ends_sel flip_dir.simps split: if_split) simp

text \<open>The smoothed rate always lies between the previous value and the raw sample, and equals the
  raw sample when smoothing is off or no time has passed.\<close>

theorem emaUpdate_bounded:
  "min prev raw \<le> emaUpdate prev raw dt tau \<and> emaUpdate prev raw dt tau \<le> max prev raw
   \<and> (tau \<le> 0 \<or> dt \<le> 0 \<longrightarrow> emaUpdate prev raw dt tau = raw)"
  using emaUpdate_between by (simp add: emaUpdate_def)

theorem emaUpdate_bounded_witness:
  "emaUpdate 10 30 1000 0 = 30 \<and> 10 \<le> emaUpdate 10 30 1000 3000 \<and> emaUpdate 10 30 1000 3000 \<le> 30"
  using emaUpdate_bounded [of 10 30 1000 0] emaUpdate_bounded [of 10 30 1000 3000] by simp

text \<open>The gauge scale of a positive rate is at least that rate and at most two and a half times it,
  so the loudest row fills between 40 and 100 percent of its gauge.\<close>

theorem niceScale_gauge:
  assumes "0 < maxRate"
  shows "maxRate \<le> niceScale maxRate \<and> niceScale maxRate \<le> 5 / 2 * maxRate
    \<and> 2 / 5 \<le> gaugeFraction maxRate (niceScale maxRate) \<and> gaugeFraction maxRate (niceScale maxRate) \<le> 1"
proof -
  have b: "maxRate \<le> niceScale maxRate" "niceScale maxRate \<le> 5 / 2 * maxRate"
    using niceScale_bounds [OF assms] by simp_all
  moreover have "2 / 5 \<le> maxRate / niceScale maxRate"
    using b niceScale_pos [of maxRate] by (simp add: field_simps)
  ultimately show ?thesis
    using niceScale_pos [of maxRate] assms by (simp add: gaugeFraction_def)
qed

theorem niceScale_gauge_witness: "(3::real) > 0 \<and> 3 \<le> niceScale 3 \<and> niceScale 3 \<le> 15 / 2"
  using niceScale_gauge [of 3] by simp

end
