(* ===== verification/FilterLexer.thy ===== *)
theory FilterLexer
  imports Prelude
begin

text \<open>
  The tokenizer of the connection filter language, \<open>Lexer\<close> in \<open>util/ConnectionFilter.cpp\<close>.
  The object keeps the input and a position; the model keeps the unread suffix together with the
  position. One call of \<open>next\<close> skips white space and returns one token.
\<close>

section \<open>Tokens\<close>

datatype TokType = TIdent | TString | TNumber | TOp | TLParen | TRParen | TAnd | TOr | TNot | TEnd

record Token =
  tok_type :: TokType
  tok_text :: string
  tok_pos :: nat

record Lexer =
  lx_rest :: string
  lx_pos :: nat

definition mk_token :: "TokType \<Rightarrow> string \<Rightarrow> nat \<Rightarrow> Token" where
  "mk_token ty s p = \<lparr>tok_type = ty, tok_text = s, tok_pos = p\<rparr>"

definition mk_lexer :: "string \<Rightarrow> Lexer" where
  "mk_lexer src = \<lparr>lx_rest = src, lx_pos = 0\<rparr>"

definition skipWs :: "Lexer \<Rightarrow> Lexer" where
  "skipWs lx = \<lparr>lx_rest = dropWhile isSpace (lx_rest lx),
                 lx_pos = lx_pos lx + length (takeWhile isSpace (lx_rest lx))\<rparr>"

text \<open>\<open>++m_pos\<close>, \<open>n\<close> times.\<close>

definition lx_skip :: "nat \<Rightarrow> Lexer \<Rightarrow> Lexer" where
  "lx_skip n lx = \<lparr>lx_rest = drop n (lx_rest lx), lx_pos = lx_pos lx + n\<rparr>"

text \<open>The body of a quoted string: its text with escapes resolved, and the number of characters
  read before the closing quote or the end of the input.\<close>

abbreviation backslash :: char where
  "backslash \<equiv> CHR 0x5C"

abbreviation squote :: char where
  "squote \<equiv> CHR 0x27"

abbreviation dquote :: char where
  "dquote \<equiv> CHR 0x22"

fun read_quoted :: "char \<Rightarrow> string \<Rightarrow> string \<times> nat" where
  "read_quoted q [] = ([], 0)"
| "read_quoted q [c] = (if c = q then ([], 0) else ([c], 1))"
| "read_quoted q (c # d # cs) =
     (if c = q then ([], 0)
      else if c = backslash then (let (s, n) = read_quoted q cs in (d # s, n + 2))
      else (let (s, n) = read_quoted q (d # cs) in (c # s, n + 1)))"

definition word_char :: "char \<Rightarrow> bool" where
  "word_char c = (\<not> isSpace c \<and> c \<notin> set ''()<>=!~:&|'')"

definition second_is :: "char \<Rightarrow> string \<Rightarrow> bool" where
  "second_is c s = (case s of _ # d # _ \<Rightarrow> d = c | _ \<Rightarrow> False)"

text \<open>The parenthesis and operator tests of \<open>Lexer::next\<close>, in their order: the type and the text of
  the token, which is also what is skipped.\<close>

definition lex_punct :: "string \<Rightarrow> (TokType \<times> string) option" where
  "lex_punct s =
     (case s of
        [] \<Rightarrow> None
      | ch # _ \<Rightarrow>
          if ch = CHR ''('' then Some (TLParen, ''('')
          else if ch = CHR '')'' then Some (TRParen, '')'')
          else if ch = CHR '':'' then Some (TOp, '':'')
          else if ch = CHR ''~'' then Some (TOp, ''~'')
          else if ch = CHR ''='' then Some (TOp, ''='')
          else if ch = CHR ''!'' then
            (if second_is (CHR ''='') s then Some (TOp, ''!='') else Some (TNot, ''!''))
          else if ch = CHR ''<'' then
            (if second_is (CHR ''='') s then Some (TOp, ''<='') else Some (TOp, ''<''))
          else if ch = CHR ''>'' then
            (if second_is (CHR ''='') s then Some (TOp, ''>='') else Some (TOp, ''>''))
          else if ch = CHR ''&'' \<and> second_is (CHR ''&'') s then Some (TAnd, ''&&'')
          else if ch = CHR ''|'' \<and> second_is (CHR ''|'') s then Some (TOr, ''||'')
          else None)"

text \<open>Bareword, identifier or number; the boolean keywords are recognised in any case.\<close>

definition lex_word :: "string \<Rightarrow> TokType" where
  "lex_word word =
     (let lw = toLower word in
      if lw = ''and'' then TAnd else if lw = ''or'' then TOr else if lw = ''not'' then TNot else TIdent)"

text \<open>\<open>Lexer::next\<close>.\<close>

definition lex_next :: "Lexer \<Rightarrow> Token \<times> Lexer" where
  "lex_next lx0 =
     (let lx = skipWs lx0; start = lx_pos lx; s = lx_rest lx in
      if s = [] then (mk_token TEnd [] start, lx)
      else
        (case lex_punct s of
           Some (ty, tx) \<Rightarrow> (mk_token ty tx start, lx_skip (length tx) lx)
         | None \<Rightarrow>
             if hd s = dquote \<or> hd s = squote then
               (let (tx, n) = read_quoted (hd s) (tl s) in
                (mk_token TString tx start, lx_skip (1 + n + (if 1 + n < length s then 1 else 0)) lx))
             else
               (let word = takeWhile word_char s in
                (mk_token (lex_word word) word start, lx_skip (length word) lx))))"

section \<open>Progress\<close>

lemma tok_sel [simp]:
  "tok_type (mk_token ty s p) = ty" "tok_text (mk_token ty s p) = s" "tok_pos (mk_token ty s p) = p"
  by (simp_all add: mk_token_def)

lemma lx_skip_sel [simp]:
  "lx_rest (lx_skip n lx) = drop n (lx_rest lx)" "lx_pos (lx_skip n lx) = lx_pos lx + n"
  by (simp_all add: lx_skip_def)

lemma skipWs_sel:
  "lx_rest (skipWs lx) = dropWhile isSpace (lx_rest lx)"
  "lx_pos (skipWs lx) + length (lx_rest (skipWs lx)) = lx_pos lx + length (lx_rest lx)"
proof -
  have "length (takeWhile isSpace (lx_rest lx)) + length (dropWhile isSpace (lx_rest lx))
      = length (lx_rest lx)"
    by (metis length_append takeWhile_dropWhile_id)
  then show "lx_rest (skipWs lx) = dropWhile isSpace (lx_rest lx)"
    and "lx_pos (skipWs lx) + length (lx_rest (skipWs lx)) = lx_pos lx + length (lx_rest lx)"
    by (simp_all add: skipWs_def)
qed

lemma skipWs_length: "length (lx_rest (skipWs lx)) \<le> length (lx_rest lx)"
  by (simp add: skipWs_sel length_dropWhile_le)

lemma read_quoted_le: "read_quoted q s = (t, n) \<Longrightarrow> n \<le> length s"
  by (induction q s arbitrary: t n rule: read_quoted.induct) (auto split: if_splits prod.splits)

text \<open>What one call of the lexer may do: drop \<open>n\<close> characters after the white space, at least one
  unless the input is exhausted or the token is an empty word.\<close>

definition lex_ok :: "Lexer \<Rightarrow> Token \<Rightarrow> Lexer \<Rightarrow> bool" where
  "lex_ok lx t lx' = (\<exists>n \<le> length (lx_rest (skipWs lx)). lx' = lx_skip n (skipWs lx) \<and>
     (tok_type t = TEnd \<longrightarrow> lx_rest (skipWs lx) = []) \<and>
     (tok_type t \<noteq> TEnd \<and> (tok_type t = TIdent \<longrightarrow> tok_text t \<noteq> []) \<longrightarrow> 0 < n))"

lemma lex_okI:
  "n \<le> length (lx_rest (skipWs lx)) \<Longrightarrow> ty \<noteq> TEnd \<Longrightarrow> (ty = TIdent \<Longrightarrow> s \<noteq> [] \<Longrightarrow> 0 < n) \<Longrightarrow>
   (ty \<noteq> TIdent \<Longrightarrow> 0 < n) \<Longrightarrow> lex_ok lx (mk_token ty s p) (lx_skip n (skipWs lx))"
  by (auto simp: lex_ok_def)

lemma second_is_length: "second_is d s \<Longrightarrow> 2 \<le> length s"
  by (auto simp: second_is_def split: list.splits)

lemma lex_punct_length:
  "lex_punct s = Some (ty, tx) \<Longrightarrow> tx \<noteq> [] \<and> length tx \<le> length s \<and> ty \<noteq> TEnd \<and> ty \<noteq> TIdent"
  by (auto simp: lex_punct_def split: list.splits if_splits dest: second_is_length)

lemma lex_word_cases: "lex_word w \<noteq> TEnd" "lex_word [] = TIdent"
  by (simp_all add: lex_word_def Let_def toLower_def)

lemma lex_next_ok: "lex_next lx = (t, lx') \<Longrightarrow> lex_ok lx t lx'"
proof (cases "lex_punct (lx_rest (skipWs lx))")
  case None
  let ?s = "lx_rest (skipWs lx)"
  assume n: "lex_next lx = (t, lx')"
  consider "?s = []" | "?s \<noteq> []" "hd ?s = dquote \<or> hd ?s = squote"
    | "?s \<noteq> []" "\<not> (hd ?s = dquote \<or> hd ?s = squote)" by blast
  then show ?thesis
  proof cases
    case 1
    with n show ?thesis by (auto simp: lex_next_def Let_def lex_ok_def lx_skip_def)
  next
    case 2
    then obtain tx k where r: "read_quoted (hd ?s) (tl ?s) = (tx, k)" by fastforce
    have "Suc k \<le> length ?s" using read_quoted_le [OF r] 2 by (cases ?s) auto
    moreover have "t = mk_token TString tx (lx_pos (skipWs lx))"
      and "lx' = lx_skip (1 + k + (if 1 + k < length ?s then 1 else 0)) (skipWs lx)"
      using 2 None n r by (simp_all add: lex_next_def Let_def)
    ultimately show ?thesis using 2 by (auto intro!: lex_okI)
  next
    case 3
    let ?w = "takeWhile word_char ?s"
    have "t = mk_token (lex_word ?w) ?w (lx_pos (skipWs lx))" and "lx' = lx_skip (length ?w) (skipWs lx)"
      using 3 None n by (simp_all add: lex_next_def Let_def)
    then show ?thesis
      by (auto intro!: lex_okI simp: length_takeWhile_le lex_word_cases)
  qed
next
  case (Some a)
  obtain ty tx where a: "a = (ty, tx)" by fastforce
  have len: "tx \<noteq> []" "length tx \<le> length (lx_rest (skipWs lx))" "ty \<noteq> TEnd" "ty \<noteq> TIdent"
    using lex_punct_length Some a by blast+
  then have "lx_rest (skipWs lx) \<noteq> []" by auto
  moreover assume "lex_next lx = (t, lx')"
  ultimately show ?thesis
    using Some a len by (auto simp: lex_next_def Let_def intro!: lex_okI)
qed

text \<open>Two consequences the parser needs: the unread input never grows, and every token but the end
  and the empty word takes at least one character of it.\<close>

lemma lex_next_shrinks: "lex_next lx = (t, lx') \<Longrightarrow> length (lx_rest lx') \<le> length (lx_rest lx)"
  using skipWs_length [of lx] by (auto dest!: lex_next_ok simp: lex_ok_def)

lemma lex_next_progress:
  assumes "lex_next lx = (t, lx')" and "tok_type t \<noteq> TEnd" and "tok_type t = TIdent \<longrightarrow> tok_text t \<noteq> []"
  shows "length (lx_rest lx') < length (lx_rest lx)"
proof -
  obtain n where "n \<le> length (lx_rest (skipWs lx))" "lx' = lx_skip n (skipWs lx)" "0 < n"
    using lex_next_ok [OF assms(1)] assms(2,3) by (auto simp: lex_ok_def)
  then have "length (lx_rest lx') < length (lx_rest (skipWs lx))" by simp
  then show ?thesis using skipWs_length [of lx] by linarith
qed

text \<open>A position and what is left of the input always add up to the length of the source.\<close>

lemma lex_next_pos:
  assumes "lex_next lx = (t, lx')"
  shows "lx_pos lx' + length (lx_rest lx') = lx_pos lx + length (lx_rest lx)"
  using lex_next_ok [OF assms] skipWs_sel(2) [of lx] by (auto simp: lex_ok_def)

end
