(* ===== verification/FilterParser.thy ===== *)
theory FilterParser
  imports FilterLexer FlowTypes "HOL-Library.While_Combinator"
begin

text \<open>
  The syntax tree and the recursive-descent parser of the filter language
  (\<open>util/ConnectionFilter.cpp\<close>). Qt's regular expressions and number parser are not part of the
  repository: they enter as the fields of a \<open>FilterEnv\<close>. A null \<open>ExprPtr\<close> is \<^const>\<open>None\<close>.
  The two left-associative loops keep their shape as \<^const>\<open>while\<close>; that they end is proved, not
  assumed.
\<close>

section \<open>Syntax tree\<close>

datatype Field =
    FProto | FSrc | FDst | FHost | FSport | FDport | FPort | FIface | FFamily | FDirection
  | FBytesIn | FBytesOut | FBytes | FPktsIn | FPktsOut | FPkts | FRateIn | FRateOut | FRate
  | FPid | FUid | FComm | FRuntime | FContainer | FChainHas | FReason

datatype Op = OpContains | OpEquals | OpNotEquals | OpRegex | OpLt | OpLe | OpGt | OpGe

record Predicate =
  p_field :: Field
  p_op :: Op
  p_text :: string
  p_num :: real
  p_hasNumeric :: bool
  p_rx :: string

datatype Expr =
    EPred Predicate
  | ENot "Expr option"
  | EAnd "Expr option" "Expr option"
  | EOr "Expr option" "Expr option"

definition fieldTable :: "(string \<times> Field \<times> bool) list" where
  "fieldTable =
    [(''proto'', FProto, False), (''src'', FSrc, False), (''dst'', FDst, False),
     (''host'', FHost, False), (''iface'', FIface, False), (''family'', FFamily, False),
     (''direction'', FDirection, False), (''sport'', FSport, True), (''dport'', FDport, True),
     (''port'', FPort, True), (''bytes_in'', FBytesIn, True), (''bytes_out'', FBytesOut, True),
     (''bytes'', FBytes, True), (''pkts_in'', FPktsIn, True), (''pkts_out'', FPktsOut, True),
     (''pkts'', FPkts, True), (''rate_in'', FRateIn, True), (''rate_out'', FRateOut, True),
     (''rate'', FRate, True), (''pid'', FPid, True), (''uid'', FUid, True), (''comm'', FComm, False),
     (''runtime'', FRuntime, False), (''container'', FContainer, False),
     (''chain_has'', FChainHas, False), (''reason'', FReason, False)]"

text \<open>The fields \<open>evalPredicate\<close> compares as numbers.\<close>

definition isNumericField :: "Field \<Rightarrow> bool" where
  "isNumericField f = (f \<in> {FSport, FDport, FPort, FBytesIn, FBytesOut, FBytes, FPktsIn, FPktsOut, FPkts,
     FRateIn, FRateOut, FRate, FPid, FUid})"

text \<open>What the parser and the evaluator use of Qt: the validity and error text of a regular
  expression, its case-insensitive match, \<open>QString::toDouble\<close> on finite values and
  \<open>QHostAddress::toString\<close>.\<close>

record FilterEnv =
  rx_valid :: "string \<Rightarrow> bool"
  rx_error :: "string \<Rightarrow> string"
  rx_match :: "string \<Rightarrow> string \<Rightarrow> bool"
  toDouble :: "string \<Rightarrow> real option"
  addr_text :: "QHostAddress \<Rightarrow> string"

text \<open>A concrete instance for evaluation: a regular expression is a plain text searched for without
  regard to case, a number is a run of digits.\<close>

definition sample_env :: FilterEnv where
  "sample_env = \<lparr>rx_valid = (\<lambda>_. True), rx_error = (\<lambda>_. []), rx_match = containsCI,
     toDouble = (\<lambda>s. if s \<noteq> [] \<and> list_all is_digit s then Some (real (read_nat s 0)) else None),
     addr_text = plain_addr\<rparr>"

section \<open>Numeric literals\<close>

definition num_suffixes :: "(string \<times> real) list" where
  "num_suffixes =
    [(''KiB'', 1024), (''MiB'', 1048576), (''GiB'', 1073741824), (''TiB'', 1099511627776),
     (''Ki'', 1024), (''Mi'', 1048576), (''Gi'', 1073741824), (''Ti'', 1099511627776),
     (''KB'', 1000), (''MB'', 1000000), (''GB'', 1000000000), (''TB'', 1000000000000),
     (''K'', 1000), (''M'', 1000000), (''G'', 1000000000), (''T'', 1000000000000), (''B'', 1)]"

definition parseNumeric :: "FilterEnv \<Rightarrow> string \<Rightarrow> real option" where
  "parseNumeric env s0 =
     (let s = trimmed s0 in
      if s = [] then None
      else
        (let (s', mult) =
           (case find (\<lambda>(suf, m). ends_withCI suf s) num_suffixes of
              Some (suf, m) \<Rightarrow> (trimmed (chop (length suf) s), m)
            | None \<Rightarrow> (s, 1))
         in map_option (\<lambda>n. n * mult) (toDouble env s')))"

section \<open>Parser\<close>

definition kMaxExprDepth :: nat where
  "kMaxExprDepth = 64"

record Parser =
  ps_cur :: Token
  ps_lex :: Lexer
  ps_error :: string
  ps_errorPos :: int

record ParseResult =
  pr_expr :: "Expr option"
  pr_error :: string
  pr_errorPos :: int

definition in_quotes :: "string \<Rightarrow> string" where
  "in_quotes s = squote # s @ [squote]"

definition advance :: "Parser \<Rightarrow> Parser" where
  "advance p = (let (t, lx) = lex_next (ps_lex p) in p\<lparr>ps_cur := t, ps_lex := lx\<rparr>)"

definition mk_parser :: "string \<Rightarrow> Parser" where
  "mk_parser src = (let (t, lx) = lex_next (mk_lexer src)
     in \<lparr>ps_cur = t, ps_lex = lx, ps_error = [], ps_errorPos = -1\<rparr>)"

definition fail :: "string \<Rightarrow> nat \<Rightarrow> Parser \<Rightarrow> Parser" where
  "fail msg pos p = (if ps_error p = [] then p\<lparr>ps_error := msg, ps_errorPos := int pos\<rparr> else p)"

definition failDeep :: "Parser \<Rightarrow> Parser" where
  "failDeep p = fail (''expression nested too deeply (max '' @ show_nat kMaxExprDepth @ '')'')
     (tok_pos (ps_cur p)) p"

definition parseOp :: "string \<Rightarrow> Op option" where
  "parseOp s =
     (if s = '':'' then Some OpContains
      else if s = ''='' then Some OpEquals
      else if s = ''!='' then Some OpNotEquals
      else if s = ''~'' then Some OpRegex
      else if s = ''<'' then Some OpLt
      else if s = ''<='' then Some OpLe
      else if s = ''>'' then Some OpGt
      else if s = ''>='' then Some OpGe
      else None)"

text \<open>The checks \<open>parsePredicate\<close> makes on the value once the three tokens are read: the
  error message and its column, or the predicate.\<close>

definition mk_predicate ::
  "FilterEnv \<Rightarrow> string \<Rightarrow> Field \<Rightarrow> bool \<Rightarrow> Op \<Rightarrow> string \<Rightarrow> nat \<Rightarrow> nat \<Rightarrow> (string \<times> nat) + Predicate" where
  "mk_predicate env fname f isNumeric op val opPos valPos =
     (let num = (if isNumeric then parseNumeric env val else None) in
      if isNumeric \<and> num = None
        then Inl (''expected numeric value for field '' @ in_quotes fname, valPos)
      else if op = OpRegex \<and> \<not> rx_valid env val
        then Inl (''invalid regex: '' @ rx_error env val, valPos)
      else if (op = OpLt \<or> op = OpLe \<or> op = OpGt \<or> op = OpGe) \<and> \<not> isNumeric
        then Inl (''field '' @ in_quotes fname @ '' is not numeric'', opPos)
      else Inr \<lparr>p_field = f, p_op = op, p_text = val, p_num = (case num of None \<Rightarrow> 0 | Some n \<Rightarrow> n),
                 p_hasNumeric = isNumeric, p_rx = (if op = OpRegex then val else [])\<rparr>)"

definition parsePredicate :: "FilterEnv \<Rightarrow> Parser \<Rightarrow> Expr option \<times> Parser" where
  "parsePredicate env p =
     (if tok_type (ps_cur p) \<noteq> TIdent
      then (None, fail ''expected field name'' (tok_pos (ps_cur p)) p)
      else
        (let fname = toLower (tok_text (ps_cur p)); fpos = tok_pos (ps_cur p) in
         case map_of fieldTable fname of
           None \<Rightarrow> (None, fail (''unknown field '' @ in_quotes (tok_text (ps_cur p))) fpos p)
         | Some (f, isNumeric) \<Rightarrow>
             (let p1 = advance p in
              if tok_type (ps_cur p1) \<noteq> TOp
              then (None, fail (''expected operator after field '' @ in_quotes fname)
                            (tok_pos (ps_cur p1)) p1)
              else
                (let opStr = tok_text (ps_cur p1); opPos = tok_pos (ps_cur p1) in
                 case parseOp opStr of
                   None \<Rightarrow> (None, fail (''unknown operator '' @ in_quotes opStr) opPos p1)
                 | Some op \<Rightarrow>
                     (let p2 = advance p1 in
                      if tok_type (ps_cur p2) \<noteq> TIdent \<and> tok_type (ps_cur p2) \<noteq> TString
                      then (None, fail ''expected value after operator'' (tok_pos (ps_cur p2)) p2)
                      else
                        (let val = tok_text (ps_cur p2); valPos = tok_pos (ps_cur p2);
                             p3 = advance p2 in
                         case mk_predicate env fname f isNumeric op val opPos valPos of
                           Inl (msg, pos) \<Rightarrow> (None, fail msg pos p3)
                         | Inr pr \<Rightarrow> (Some (EPred pr), p3)))))))"

text \<open>The left-associative loop shared by \<open>parseOr\<close> and \<open>parseAnd\<close>: while the current token is the
  connective, skip it, parse the right operand and combine.\<close>

definition chain_guard :: "TokType \<Rightarrow> Expr option \<times> Parser \<Rightarrow> bool" where
  "chain_guard ty x = (ps_error (snd x) = [] \<and> tok_type (ps_cur (snd x)) = ty)"

definition chain_step ::
  "(Expr option \<Rightarrow> Expr option \<Rightarrow> Expr) \<Rightarrow> (Parser \<Rightarrow> Expr option \<times> Parser)
    \<Rightarrow> Expr option \<times> Parser \<Rightarrow> Expr option \<times> Parser" where
  "chain_step mk sub x = (let (rhs, p) = sub (advance (snd x)) in (Some (mk (fst x) rhs), p))"

definition chain_loop ::
  "TokType \<Rightarrow> (Expr option \<Rightarrow> Expr option \<Rightarrow> Expr) \<Rightarrow> (Parser \<Rightarrow> Expr option \<times> Parser)
    \<Rightarrow> Expr option \<times> Parser \<Rightarrow> Expr option \<times> Parser" where
  "chain_loop ty mk sub x = while (chain_guard ty) (chain_step mk sub) x"

function parseOr :: "FilterEnv \<Rightarrow> nat \<Rightarrow> Parser \<Rightarrow> Expr option \<times> Parser"
  and parseAnd :: "FilterEnv \<Rightarrow> nat \<Rightarrow> Parser \<Rightarrow> Expr option \<times> Parser"
  and parseNot :: "FilterEnv \<Rightarrow> nat \<Rightarrow> Parser \<Rightarrow> Expr option \<times> Parser"
  and parseAtom :: "FilterEnv \<Rightarrow> nat \<Rightarrow> Parser \<Rightarrow> Expr option \<times> Parser" where
  "parseOr env depth p =
     (if kMaxExprDepth \<le> depth then (None, failDeep p)
      else chain_loop TOr EOr (parseAnd env (depth + 1)) (parseAnd env (depth + 1) p))"
| "parseAnd env depth p =
     (if kMaxExprDepth \<le> depth then (None, failDeep p)
      else chain_loop TAnd EAnd (parseNot env (depth + 1)) (parseNot env (depth + 1) p))"
| "parseNot env depth p =
     (if kMaxExprDepth \<le> depth then (None, failDeep p)
      else if tok_type (ps_cur p) = TNot
      then (let (child, p') = parseNot env (depth + 1) (advance p) in (Some (ENot child), p'))
      else parseAtom env (depth + 1) p)"
| "parseAtom env depth p =
     (if kMaxExprDepth \<le> depth then (None, failDeep p)
      else if tok_type (ps_cur p) = TLParen
      then (let (e, p') = parseOr env (depth + 1) (advance p) in
            if tok_type (ps_cur p') \<noteq> TRParen
            then (None, fail (''expected '' @ in_quotes '')'') (tok_pos (ps_cur p')) p')
            else (e, advance p'))
      else parsePredicate env p)"
  by pat_completeness auto
termination
  by (relation "measure (\<lambda>x. case x of
        Inl (Inl (env, depth, p)) \<Rightarrow> kMaxExprDepth - depth
      | Inl (Inr (env, depth, p)) \<Rightarrow> kMaxExprDepth - depth
      | Inr (Inl (env, depth, p)) \<Rightarrow> kMaxExprDepth - depth
      | Inr (Inr (env, depth, p)) \<Rightarrow> kMaxExprDepth - depth)") auto

declare parseOr.simps [simp del] parseAnd.simps [simp del] parseNot.simps [simp del]
  parseAtom.simps [simp del]

lemmas parse_simps = parseOr.simps parseAnd.simps parseNot.simps parseAtom.simps

text \<open>\<open>Parser::parse\<close> behind the public \<open>parse\<close>.\<close>

definition parse :: "FilterEnv \<Rightarrow> string \<Rightarrow> ParseResult" where
  "parse env input =
     (let p0 = mk_parser input in
      if tok_type (ps_cur p0) = TEnd then \<lparr>pr_expr = None, pr_error = [], pr_errorPos = -1\<rparr>
      else
        (let (e, p) = parseOr env 0 p0 in
         if ps_error p \<noteq> []
         then \<lparr>pr_expr = None, pr_error = ps_error p, pr_errorPos = ps_errorPos p\<rparr>
         else if tok_type (ps_cur p) \<noteq> TEnd
         then \<lparr>pr_expr = None, pr_error = ''unexpected '' @ in_quotes (tok_text (ps_cur p)),
                pr_errorPos = int (tok_pos (ps_cur p))\<rparr>
         else \<lparr>pr_expr = e, pr_error = [], pr_errorPos = -1\<rparr>))"

end
