(* ===== verification/FilterSyntax.thy ===== *)
theory FilterSyntax
  imports FilterParser
begin

text \<open>
  Facts about the filter parser: every parsing function consumes input or reports an error, so the
  two operator loops end; what is accepted is a complete, well-formed tree; what is rejected has an
  error column inside the input; and printing a well-formed tree and parsing it again gives the tree
  back.
\<close>

section \<open>Progress and termination of the loops\<close>

abbreviation left :: "Parser \<Rightarrow> nat" where
  "left p \<equiv> length (lx_rest (ps_lex p))"

definition consumes :: "Parser \<Rightarrow> Parser \<Rightarrow> bool" where
  "consumes p p' = (left p' \<le> left p \<and> (ps_error p' = [] \<longrightarrow> ps_error p = [] \<and> left p' < left p))"

lemma consumes_trans: "consumes p q \<Longrightarrow> consumes q r \<Longrightarrow> consumes p r"
  by (auto simp: consumes_def)

lemma consumes_left: "consumes p q \<Longrightarrow> left q \<le> left p"
  by (simp add: consumes_def)

lemma advance_sel [simp]:
  "ps_error (advance p) = ps_error p" "ps_errorPos (advance p) = ps_errorPos p"
  by (simp_all add: advance_def split: prod.splits)

lemma advance_le: "left (advance p) \<le> left p"
  using lex_next_shrinks by (auto simp: advance_def split: prod.splits)

lemma advance_less:
  "tok_type (ps_cur (advance p)) \<notin> {TEnd, TIdent} \<Longrightarrow> left (advance p) < left p"
  using lex_next_progress by (auto simp: advance_def split: prod.splits)

lemma advance_consumes: "consumes (advance p) q \<Longrightarrow> consumes p q"
  using advance_le [of p] by (auto simp: consumes_def)

lemma consumes_advance: "consumes p q \<Longrightarrow> consumes p (advance q)"
  using advance_le [of q] by (auto simp: consumes_def)

lemma fail_left [simp]: "left (fail msg pos p) = left p"
  by (simp add: fail_def)

lemma fail_error [simp]: "msg \<noteq> [] \<Longrightarrow> ps_error (fail msg pos p) \<noteq> []"
  by (simp add: fail_def)

lemma fail_consumes: "msg \<noteq> [] \<Longrightarrow> left q \<le> left p \<Longrightarrow> consumes p (fail msg pos q)"
  by (simp add: consumes_def)

lemma failDeep_consumes: "consumes p (failDeep p)"
  by (simp add: failDeep_def fail_consumes)

lemma mk_predicate_msg: "mk_predicate env fname f nu op v a b = Inl (msg, pos) \<Longrightarrow> msg \<noteq> []"
  by (auto simp: mk_predicate_def Let_def split: if_splits)

lemma parsePredicate_consumes: "consumes p (snd (parsePredicate env p))"
proof -
  note a = advance_le [of p] advance_le [of "advance p"] advance_le [of "advance (advance p)"]
  have le: "left (advance p) \<le> left p" "left (advance (advance p)) \<le> left p"
    "left (advance (advance (advance p))) \<le> left p"
    using a by linarith+
  have less: "left (advance (advance (advance p))) < left p" if "tok_type (ps_cur (advance p)) = TOp"
  proof -
    have "left (advance p) < left p" using that by (intro advance_less) simp
    then show ?thesis using a by linarith
  qed
  have good: "tok_type (ps_cur (advance p)) = TOp \<Longrightarrow> consumes p (advance (advance (advance p)))"
    using le less by (simp add: consumes_def)
  have bad: "consumes p (fail msg pos (advance (advance (advance p))))"
    if "mk_predicate env fname f nu op v x y = Inl (msg, pos)" for fname f nu op v x y msg pos
    using le mk_predicate_msg [OF that] by (simp add: fail_consumes)
  show ?thesis
    unfolding parsePredicate_def Let_def
    by (simp add: fail_consumes le good split: option.split sum.split) (auto intro: bad)
qed

text \<open>One round of a loop either ends in an error or shortens the unread input; counting two per
  character and one for the absence of an error gives a measure that always falls.\<close>

definition chain_measure :: "Expr option \<times> Parser \<Rightarrow> nat" where
  "chain_measure x = 2 * left (snd x) + (if ps_error (snd x) = [] then 1 else 0)"

lemma chain_step_measure:
  assumes "\<And>p. consumes p (snd (sub p))" and "chain_guard ty x"
  shows "chain_measure (chain_step mk sub x) < chain_measure x"
  using advance_consumes [OF assms(1), of "snd x"] assms(2)
  by (auto simp: chain_measure_def chain_guard_def chain_step_def consumes_def split: prod.splits)

lemma chain_loop_ends:
  assumes "\<And>p. consumes p (snd (sub p))"
  shows "\<exists>r. while_option (chain_guard ty) (chain_step mk sub) x = Some r"
  by (rule measure_while_option_Some [where P = "\<lambda>_. True" and f = chain_measure])
    (auto intro: chain_step_measure assms)

lemma chain_loop_rule:
  assumes sub: "\<And>p. consumes p (snd (sub p))" and "P x"
    and step: "\<And>y. P y \<Longrightarrow> chain_guard ty y \<Longrightarrow> P (chain_step mk sub y)"
  shows "P (chain_loop ty mk sub x)"
  unfolding chain_loop_def
  by (rule while_rule [where P = P and r = "measure chain_measure"])
    (auto intro: assms chain_step_measure)

lemma chain_loop_sticky:
  assumes sub: "\<And>p. consumes p (snd (sub p))"
  shows "left (snd (chain_loop ty mk sub x)) \<le> left (snd x) \<and>
    (ps_error (snd (chain_loop ty mk sub x)) = [] \<longrightarrow> ps_error (snd x) = [])"
proof (rule chain_loop_rule [OF sub, where P = "\<lambda>y. left (snd y) \<le> left (snd x) \<and>
    (ps_error (snd y) = [] \<longrightarrow> ps_error (snd x) = [])"])
  fix y :: "Expr option \<times> Parser"
  assume y: "left (snd y) \<le> left (snd x) \<and> (ps_error (snd y) = [] \<longrightarrow> ps_error (snd x) = [])"
  have "consumes (snd y) (snd (sub (advance (snd y))))"
    by (rule advance_consumes [OF sub])
  with y show "left (snd (chain_step mk sub y)) \<le> left (snd x) \<and>
    (ps_error (snd (chain_step mk sub y)) = [] \<longrightarrow> ps_error (snd x) = [])"
    by (auto simp: chain_step_def consumes_def split: prod.splits)
qed simp

lemma chain_loop_consumes:
  assumes sub: "\<And>p. consumes p (snd (sub p))"
  shows "consumes p (snd (chain_loop ty mk sub (sub p)))"
  using chain_loop_sticky [OF sub, of ty mk "sub p"] sub [of p] by (auto simp: consumes_def)

lemma parse_consumes:
  "consumes p (snd (parseOr env d p))"
  "consumes p (snd (parseAnd env d p))"
  "consumes p (snd (parseNot env d p))"
  "consumes p (snd (parseAtom env d p))"
proof (induction env d p and env d p and env d p and env d p
    rule: parseOr_parseAnd_parseNot_parseAtom.induct)
  case (1 env d p)
  then show ?case
    by (subst parseOr.simps) (auto simp: failDeep_consumes intro: chain_loop_consumes)
next
  case (2 env d p)
  then show ?case
    by (subst parseAnd.simps) (auto simp: failDeep_consumes intro: chain_loop_consumes)
next
  case (3 env d p)
  then show ?case
    by (subst parseNot.simps)
      (auto simp: failDeep_consumes split: prod.splits intro: advance_consumes)
next
  case (4 env d p)
  obtain e q where q: "parseOr env (d + 1) (advance p) = (e, q)" by fastforce
  have "consumes p q" if "\<not> kMaxExprDepth \<le> d" "tok_type (ps_cur p) = TLParen"
    using 4 that q by (auto intro: advance_consumes)
  then show ?case
    by (subst parseAtom.simps)
      (simp add: q failDeep_consumes parsePredicate_consumes fail_consumes consumes_left consumes_advance
        del: One_nat_def add_Suc_right)
qed

section \<open>What is accepted is well-formed\<close>

fun ordering_op :: "Op \<Rightarrow> bool" where
  "ordering_op OpLt = True" | "ordering_op OpLe = True" | "ordering_op OpGt = True"
| "ordering_op OpGe = True" | "ordering_op _ = False"

text \<open>A predicate is well-formed when its number is the value of its text, its regular expression is
  valid and an ordering is only asked of a numeric field.\<close>

definition pred_wf :: "FilterEnv \<Rightarrow> Predicate \<Rightarrow> bool" where
  "pred_wf env pr =
     ((p_hasNumeric pr = isNumericField (p_field pr)) \<and>
      (if isNumericField (p_field pr) then parseNumeric env (p_text pr) = Some (p_num pr) else p_num pr = 0) \<and>
      (p_op pr = OpRegex \<longrightarrow> rx_valid env (p_text pr)) \<and>
      (p_rx pr = (if p_op pr = OpRegex then p_text pr else [])) \<and>
      (ordering_op (p_op pr) \<longrightarrow> isNumericField (p_field pr)))"

fun expr_wf :: "FilterEnv \<Rightarrow> Expr \<Rightarrow> bool" where
  "expr_wf env (EPred pr) = pred_wf env pr"
| "expr_wf env (ENot (Some e)) = expr_wf env e"
| "expr_wf env (EAnd (Some a) (Some b)) = (expr_wf env a \<and> expr_wf env b)"
| "expr_wf env (EOr (Some a) (Some b)) = (expr_wf env a \<and> expr_wf env b)"
| "expr_wf env _ = False"

lemma fieldTable_numeric: "map_of fieldTable s = Some (f, nu) \<Longrightarrow> nu = isNumericField f"
  by (auto simp: fieldTable_def isNumericField_def split: if_splits)

lemma mk_predicate_Inr:
  "mk_predicate env fname f (isNumericField f) op v a b = Inr pr \<longleftrightarrow>
    pred_wf env pr \<and> p_field pr = f \<and> p_op pr = op \<and> p_text pr = v"
  by (cases op; cases "parseNumeric env v"; cases pr)
    (auto simp: mk_predicate_def pred_wf_def Let_def split: if_splits)

text \<open>A parsing function that reports no error returns a well-formed tree.\<close>

definition good :: "FilterEnv \<Rightarrow> Expr option \<times> Parser \<Rightarrow> bool" where
  "good env x = (ps_error (snd x) = [] \<longrightarrow> (\<exists>e. fst x = Some e \<and> expr_wf env e))"

lemma good_fail [simp]: "msg \<noteq> [] \<Longrightarrow> good env (e, fail msg pos p)"
  by (simp add: good_def)

lemma good_failDeep [simp]: "good env (e, failDeep p)"
  by (simp add: failDeep_def)

lemma good_advance [simp]: "good env (e, advance p) = good env (e, p)"
  by (simp add: good_def)

lemma good_parsePredicate: "good env (parsePredicate env p)"
proof -
  have *: "good env (case mk_predicate env fname f nu op v a b of
        Inl (msg, pos) \<Rightarrow> (None, fail msg pos q) | Inr pr \<Rightarrow> (Some (EPred pr), q))"
    if "map_of fieldTable s = Some (f, nu)" for fname s f nu op v a b q
    using fieldTable_numeric [OF that]
    by (auto simp: good_def mk_predicate_Inr mk_predicate_msg split: sum.splits)
  show ?thesis
    unfolding parsePredicate_def Let_def
    by (simp add: * split: option.split prod.split)
qed

lemma good_chain_loop:
  assumes sub: "\<And>p. consumes p (snd (sub p))" "\<And>p. good env (sub p)"
    and mk: "\<And>a b. expr_wf env a \<Longrightarrow> expr_wf env b \<Longrightarrow> expr_wf env (mk (Some a) (Some b))"
  shows "good env (chain_loop ty mk sub (sub p))"
proof (rule chain_loop_rule [OF sub(1), where P = "good env"])
  show "good env (sub p)" by (rule sub(2))
next
  fix y assume "good env y" and "chain_guard ty y"
  with sub(2) [of "advance (snd y)"] show "good env (chain_step mk sub y)"
    by (auto simp: good_def chain_step_def chain_guard_def mk split: prod.splits)
qed

lemma parse_good:
  "good env (parseOr env d p)"
  "good env (parseAnd env d p)"
  "good env (parseNot env d p)"
  "good env (parseAtom env d p)"
proof (induction env d p and env d p and env d p and env d p
    rule: parseOr_parseAnd_parseNot_parseAtom.induct)
  case (1 env d p)
  then show ?case
    by (subst parseOr.simps) (auto intro!: good_chain_loop parse_consumes)
next
  case (2 env d p)
  then show ?case
    by (subst parseAnd.simps) (auto intro!: good_chain_loop parse_consumes)
next
  case (3 env d p)
  have "good env (Some (ENot e), q)" if "good env (e, q)" for e q
    using that by (auto simp: good_def)
  with 3 show ?case
    by (subst parseNot.simps) (auto split: prod.splits)
next
  case (4 env d p)
  then show ?case
    by (subst parseAtom.simps) (auto simp: good_parsePredicate split: prod.splits)
qed

section \<open>Error columns\<close>

definition pos_ok :: "nat \<Rightarrow> Parser \<Rightarrow> bool" where
  "pos_ok n p = (tok_pos (ps_cur p) \<le> n \<and> lx_pos (ps_lex p) + left p = n \<and>
     (ps_error p \<noteq> [] \<longrightarrow> 0 \<le> ps_errorPos p \<and> ps_errorPos p \<le> int n))"

lemma lex_next_tok_pos: "lex_next lx = (t, lx') \<Longrightarrow> tok_pos t = lx_pos (skipWs lx)"
  by (auto simp: lex_next_def Let_def split: if_splits option.splits prod.splits)

lemma pos_ok_advance [simp, intro]:
  assumes "pos_ok n p" shows "pos_ok n (advance p)"
proof -
  obtain t lx where l: "lex_next (ps_lex p) = (t, lx)" by fastforce
  have "tok_pos t \<le> n"
    using lex_next_tok_pos [OF l] skipWs_sel(2) [of "ps_lex p"] assms by (simp add: pos_ok_def)
  then show ?thesis
    using assms l lex_next_pos [OF l] by (simp add: pos_ok_def advance_def)
qed

lemma pos_ok_fail [simp, intro]: "pos_ok n p \<Longrightarrow> pos \<le> n \<Longrightarrow> pos_ok n (fail msg pos p)"
  by (simp add: pos_ok_def fail_def)

lemma pos_ok_tok [simp]: "pos_ok n p \<Longrightarrow> tok_pos (ps_cur p) \<le> n"
  by (simp add: pos_ok_def)

lemma pos_ok_failDeep [simp, intro]: "pos_ok n p \<Longrightarrow> pos_ok n (failDeep p)"
  by (simp add: failDeep_def)

lemma mk_predicate_pos: "mk_predicate env fname f nu op v a b = Inl (msg, pos) \<Longrightarrow> pos = a \<or> pos = b"
  by (auto simp: mk_predicate_def Let_def split: if_splits)

lemma pos_ok_parsePredicate:
  assumes "pos_ok n p" shows "pos_ok n (snd (parsePredicate env p))"
proof -
  have "pos_ok n (snd (case mk_predicate env fname f nu op v a b of
        Inl (msg, pos) \<Rightarrow> (None, fail msg pos q) | Inr pr \<Rightarrow> (Some (EPred pr), q)))"
    if "pos_ok n q" "a \<le> n" "b \<le> n" for fname f nu op v a b q
    using that by (auto split: sum.splits dest!: mk_predicate_pos)
  with assms show ?thesis
    unfolding parsePredicate_def Let_def by (simp split: option.split)
qed

lemma pos_ok_chain_loop:
  assumes sub: "\<And>p. consumes p (snd (sub p))" "\<And>p. pos_ok n p \<Longrightarrow> pos_ok n (snd (sub p))"
    and "pos_ok n p"
  shows "pos_ok n (snd (chain_loop ty mk sub (sub p)))"
proof (rule chain_loop_rule [OF sub(1), where P = "\<lambda>y. pos_ok n (snd y)"])
  show "pos_ok n (snd (sub p))" using assms by blast
  show "pos_ok n (snd (chain_step mk sub y))" if "pos_ok n (snd y)" for y
    using sub(2) [of "advance (snd y)"] that by (auto simp: chain_step_def split: prod.splits)
qed

lemma parse_pos_ok:
  "pos_ok n p \<Longrightarrow> pos_ok n (snd (parseOr env d p))"
  "pos_ok n p \<Longrightarrow> pos_ok n (snd (parseAnd env d p))"
  "pos_ok n p \<Longrightarrow> pos_ok n (snd (parseNot env d p))"
  "pos_ok n p \<Longrightarrow> pos_ok n (snd (parseAtom env d p))"
proof (induction env d p and env d p and env d p and env d p
    rule: parseOr_parseAnd_parseNot_parseAtom.induct)
  case (1 env d p)
  then show ?case
    by (subst parseOr.simps) (auto intro!: pos_ok_chain_loop parse_consumes)
next
  case (2 env d p)
  then show ?case
    by (subst parseAnd.simps) (auto intro!: pos_ok_chain_loop parse_consumes)
next
  case (3 env d p)
  then show ?case
    by (subst parseNot.simps) (auto split: prod.splits)
next
  case (4 env d p)
  then show ?case
    by (subst parseAtom.simps) (auto simp: pos_ok_parsePredicate split: prod.splits)
qed

section \<open>Printing\<close>

text \<open>The concrete syntax of a tree: predicates with a quoted value, every conjunction and disjunction
  in parentheses.\<close>

fun fieldName :: "Field \<Rightarrow> string" where
  "fieldName FProto = ''proto''" | "fieldName FSrc = ''src''" | "fieldName FDst = ''dst''"
| "fieldName FHost = ''host''" | "fieldName FSport = ''sport''" | "fieldName FDport = ''dport''"
| "fieldName FPort = ''port''" | "fieldName FIface = ''iface''" | "fieldName FFamily = ''family''"
| "fieldName FDirection = ''direction''" | "fieldName FBytesIn = ''bytes_in''"
| "fieldName FBytesOut = ''bytes_out''" | "fieldName FBytes = ''bytes''"
| "fieldName FPktsIn = ''pkts_in''" | "fieldName FPktsOut = ''pkts_out''" | "fieldName FPkts = ''pkts''"
| "fieldName FRateIn = ''rate_in''" | "fieldName FRateOut = ''rate_out''" | "fieldName FRate = ''rate''"
| "fieldName FPid = ''pid''" | "fieldName FUid = ''uid''" | "fieldName FComm = ''comm''"
| "fieldName FRuntime = ''runtime''" | "fieldName FContainer = ''container''"
| "fieldName FChainHas = ''chain_has''" | "fieldName FReason = ''reason''"

fun opText :: "Op \<Rightarrow> string" where
  "opText OpContains = '':''" | "opText OpEquals = ''=''" | "opText OpNotEquals = ''!=''"
| "opText OpRegex = ''~''" | "opText OpLt = ''<''" | "opText OpLe = ''<=''"
| "opText OpGt = ''>''" | "opText OpGe = ''>=''"

definition escape_char :: "char \<Rightarrow> string" where
  "escape_char c = (if c = dquote \<or> c = backslash then [backslash, c] else [c])"

definition quoted :: "string \<Rightarrow> string" where
  "quoted s = dquote # concat (map escape_char s) @ [dquote]"

fun show_expr :: "Expr \<Rightarrow> string" where
  "show_expr (EPred pr) = fieldName (p_field pr) @ opText (p_op pr) @ quoted (p_text pr)"
| "show_expr (ENot (Some a)) = CHR ''!'' # show_expr a"
| "show_expr (EAnd (Some a) (Some b)) = CHR ''('' # show_expr a @ '' and '' @ show_expr b @ '')''"
| "show_expr (EOr (Some a) (Some b)) = CHR ''('' # show_expr a @ '' or '' @ show_expr b @ '')''"
| "show_expr _ = []"

text \<open>The levels of the recursive descent a printed tree takes, counted from \<open>parseNot\<close>.\<close>

fun cost :: "Expr \<Rightarrow> nat" where
  "cost (EPred pr) = 2"
| "cost (ENot (Some a)) = 1 + cost a"
| "cost (EAnd (Some a) (Some b)) = 4 + max (cost a) (cost b)"
| "cost (EOr (Some a) (Some b)) = 4 + max (cost a) (cost b)"
| "cost _ = 0"

section \<open>Lexing what was printed\<close>

text \<open>\<open>starts_at s p\<close>: the parser has just read the first token of \<open>s\<close>.\<close>

definition starts_at :: "string \<Rightarrow> Parser \<Rightarrow> bool" where
  "starts_at s p = (\<exists>n. lex_next \<lparr>lx_rest = s, lx_pos = n\<rparr> = (ps_cur p, ps_lex p))"

text \<open>\<open>lexes s ty tx r\<close>: the first token of \<open>s\<close> has this type and text and leaves \<open>r\<close>.\<close>

definition lexes :: "string \<Rightarrow> TokType \<Rightarrow> string \<Rightarrow> string \<Rightarrow> bool" where
  "lexes s ty tx r = (\<forall>n. let (t, lx) = lex_next \<lparr>lx_rest = s, lx_pos = n\<rparr> in
     tok_type t = ty \<and> tok_text t = tx \<and> lx_rest lx = r)"

lemma starts_at_mk_parser: "starts_at s (mk_parser s)"
  unfolding starts_at_def mk_parser_def mk_lexer_def by (intro exI [of _ 0]) (simp split: prod.splits)

lemma starts_at_token:
  assumes "starts_at s p" and "lexes s ty tx r"
  shows "tok_type (ps_cur p) = ty" "tok_text (ps_cur p) = tx" "lx_rest (ps_lex p) = r"
proof -
  obtain n where n: "lex_next \<lparr>lx_rest = s, lx_pos = n\<rparr> = (ps_cur p, ps_lex p)"
    using assms(1) by (auto simp: starts_at_def)
  have "let (t, lx) = lex_next \<lparr>lx_rest = s, lx_pos = n\<rparr> in
      tok_type t = ty \<and> tok_text t = tx \<and> lx_rest lx = r"
    using assms(2) by (simp add: lexes_def)
  with n show "tok_type (ps_cur p) = ty" "tok_text (ps_cur p) = tx" "lx_rest (ps_lex p) = r"
    by simp_all
qed

lemma starts_at_advance:
  assumes "starts_at s p" and "lexes s ty tx r"
  shows "starts_at r (advance p)"
proof -
  have "ps_lex p = \<lparr>lx_rest = r, lx_pos = lx_pos (ps_lex p)\<rparr>"
    using starts_at_token(3) [OF assms] by simp
  then have "lex_next \<lparr>lx_rest = r, lx_pos = lx_pos (ps_lex p)\<rparr> =
      (ps_cur (advance p), ps_lex (advance p))"
    by (simp add: advance_def split: prod.splits)
  then show ?thesis
    by (auto simp: starts_at_def)
qed

lemma lexes_space:
  assumes "lexes s ty tx r" shows "lexes (CHR '' '' # s) ty tx r"
proof -
  have "lex_next \<lparr>lx_rest = CHR '' '' # s, lx_pos = n\<rparr> = lex_next \<lparr>lx_rest = s, lx_pos = Suc n\<rparr>" for n
    by (simp add: lex_next_def skipWs_def isSpace_def)
  with assms show ?thesis
    by (simp add: lexes_def)
qed

lemma lexes_end: "lexes [] TEnd [] []"
  by (simp add: lexes_def lex_next_def skipWs_def)

lemma lexes_punct:
  assumes "lex_punct s = Some (ty, tx)" and "\<not> isSpace (hd s)"
  shows "lexes s ty tx (drop (length tx) s)"
proof -
  have "s \<noteq> []" using assms(1) by (auto simp: lex_punct_def)
  with assms(2) have "skipWs \<lparr>lx_rest = s, lx_pos = n\<rparr> = \<lparr>lx_rest = s, lx_pos = n\<rparr>" for n
    by (cases s) (simp_all add: skipWs_def)
  with assms \<open>s \<noteq> []\<close> show ?thesis
    by (simp add: lexes_def lex_next_def Let_def)
qed

lemma lexes_word:
  assumes w: "w \<noteq> []" "\<forall>c\<in>set w. word_char c \<and> c \<noteq> dquote \<and> c \<noteq> squote"
    and s: "s = [] \<or> \<not> word_char (hd s)"
  shows "lexes (w @ s) (lex_word w) w s"
proof -
  obtain c cs where c: "w = c # cs" using w by (cases w) auto
  have sp: "\<not> isSpace c" and q: "c \<noteq> dquote" "c \<noteq> squote" and "c \<notin> set ''()<>=!~:&|''"
    using w c by (auto simp: word_char_def)
  then have np: "lex_punct (w @ s) = None"
    using c by (simp add: lex_punct_def)
  have "takeWhile word_char (w @ s) = w"
    using w(2) s by (cases s) (auto simp: takeWhile_append)
  moreover have "skipWs \<lparr>lx_rest = w @ s, lx_pos = n\<rparr> = \<lparr>lx_rest = w @ s, lx_pos = n\<rparr>" for n
    using sp c by (simp add: skipWs_def)
  ultimately show ?thesis
    using np q c by (simp add: lexes_def lex_next_def Let_def)
qed

lemma read_quoted_Cons:
  "c \<noteq> q \<Longrightarrow> c \<noteq> backslash \<Longrightarrow> s \<noteq> [] \<Longrightarrow>
   read_quoted q (c # s) = (let (t, n) = read_quoted q s in (c # t, n + 1))"
  by (cases s) auto

lemma read_quoted_close [simp]: "read_quoted q (q # s) = ([], 0)"
  by (cases s) auto

lemma read_quoted_escape:
  "read_quoted dquote (concat (map escape_char t) @ dquote # s)
     = (t, length (concat (map escape_char t)))"
  by (induction t) (auto simp: escape_char_def read_quoted_Cons)

lemma lexes_quoted: "lexes (quoted t @ s) TString t s"
proof -
  have "skipWs \<lparr>lx_rest = dquote # r, lx_pos = n\<rparr> = \<lparr>lx_rest = dquote # r, lx_pos = n\<rparr>" for r n
    by (simp add: skipWs_def isSpace_def)
  then show ?thesis
    by (simp add: lexes_def lex_next_def quoted_def lex_punct_def read_quoted_escape Let_def)
qed

section \<open>Parsing what was printed\<close>

lemma fieldName_lexes: "lexes (fieldName f @ opText op @ s) TIdent (fieldName f) (opText op @ s)"
proof -
  have "lex_word (fieldName f) = TIdent"
    by (cases f) (simp_all add: lex_word_def toLower_def lower_char_def)
  moreover have "fieldName f \<noteq> []" "\<forall>c\<in>set (fieldName f). word_char c \<and> c \<noteq> dquote \<and> c \<noteq> squote"
    by (cases f; simp add: word_char_def isSpace_def)+
  moreover have "\<not> word_char (hd (opText op @ s))"
    by (cases op) (simp_all add: word_char_def)
  ultimately show ?thesis using lexes_word [of "fieldName f" "opText op @ s"] by metis
qed

lemma fieldName_table: "map_of fieldTable (toLower (fieldName f)) = Some (f, isNumericField f)"
  by (cases f) (simp_all add: fieldTable_def isNumericField_def toLower_def lower_char_def)

lemma opText_lexes: "lexes (opText op @ quoted t @ s) TOp (opText op) (quoted t @ s)"
proof -
  have "lex_punct (opText op @ quoted t @ s) = Some (TOp, opText op)"
    by (cases op) (simp_all add: lex_punct_def second_is_def quoted_def)
  moreover have "\<not> isSpace (hd (opText op @ quoted t @ s))"
    by (cases op) (simp_all add: isSpace_def)
  ultimately show ?thesis using lexes_punct by fastforce
qed

lemma parseOp_opText: "parseOp (opText op) = Some op"
  by (cases op) (simp_all add: parseOp_def)

lemma parsePredicate_show:
  assumes wf: "pred_wf env pr" and at: "starts_at (show_expr (EPred pr) @ s) p"
  shows "\<exists>q. parsePredicate env p = (Some (EPred pr), q) \<and> starts_at s q \<and> ps_error q = ps_error p"
proof -
  let ?f = "p_field pr" and ?op = "p_op pr" and ?v = "p_text pr"
  note l0 = fieldName_lexes [of ?f ?op "quoted ?v @ s"] and l1 = opText_lexes [of ?op ?v s]
    and l2 = lexes_quoted [of ?v s]
  have at0: "starts_at (fieldName ?f @ opText ?op @ quoted ?v @ s) p" using at by simp
  note at1 = starts_at_advance [OF at0 l0]
  note at2 = starts_at_advance [OF at1 l1]
  note at3 = starts_at_advance [OF at2 l2]
  note tok = starts_at_token(1,2) [OF at0 l0] starts_at_token(1,2) [OF at1 l1]
    starts_at_token(1,2) [OF at2 l2]
  have mk: "mk_predicate env fname ?f (isNumericField ?f) ?op ?v a b = Inr pr" for fname a b
    using wf by (simp add: mk_predicate_Inr)
  show ?thesis
    by (simp add: parsePredicate_def Let_def tok fieldName_table parseOp_opText mk at3)
qed

text \<open>Skipping one token of the printed text.\<close>

lemma lexes_lparen: "lexes (CHR ''('' # s) TLParen ''('' s"
  using lexes_punct [of "CHR ''('' # s"] by (simp add: lex_punct_def isSpace_def)

lemma lexes_rparen: "lexes (CHR '')'' # s) TRParen '')'' s"
  using lexes_punct [of "CHR '')'' # s"] by (simp add: lex_punct_def isSpace_def)

lemma show_expr_head:
  assumes "expr_wf env e" shows "\<exists>c cs. show_expr e = c # cs \<and> c \<noteq> CHR ''=''"
  using assms
proof (cases "(env, e)" rule: expr_wf.cases)
  case (1 env' pr)
  then show ?thesis by (cases "p_field pr") simp_all
qed simp_all

lemma lexes_not:
  assumes "expr_wf env e" shows "lexes (CHR ''!'' # show_expr e @ s) TNot ''!'' (show_expr e @ s)"
proof -
  obtain c cs where "show_expr e = c # cs" "c \<noteq> CHR ''=''"
    using show_expr_head [OF assms] by blast
  then show ?thesis
    using lexes_punct [of "CHR ''!'' # show_expr e @ s"]
    by (simp add: lex_punct_def isSpace_def second_is_def)
qed

lemma lexes_connective:
  "lexes ('' and '' @ s) TAnd ''and'' ('' '' @ s)"
  "lexes ('' or '' @ s) TOr ''or'' ('' '' @ s)"
  using lexes_space [OF lexes_word [of "''and''" "'' '' @ s"]]
    lexes_space [OF lexes_word [of "''or''" "'' '' @ s"]]
  by (simp_all add: word_char_def isSpace_def lex_word_def toLower_def lower_char_def)

text \<open>A leading space changes nothing, so the right operand can be read behind it.\<close>

lemma starts_at_space:
  assumes "starts_at (CHR '' '' # s) p" shows "starts_at s p"
proof -
  have "lex_next \<lparr>lx_rest = CHR '' '' # s, lx_pos = n\<rparr> = lex_next \<lparr>lx_rest = s, lx_pos = Suc n\<rparr>" for n
    by (simp add: lex_next_def skipWs_def isSpace_def)
  with assms show ?thesis by (auto simp: starts_at_def)
qed

lemma chain_loop_more: "chain_guard ty x \<Longrightarrow> chain_loop ty mk sub x = chain_loop ty mk sub (chain_step mk sub x)"
  unfolding chain_loop_def by (subst while_unfold) simp

lemma chain_loop_stop: "\<not> chain_guard ty x \<Longrightarrow> chain_loop ty mk sub x = x"
  unfolding chain_loop_def by (subst while_unfold) simp

text \<open>\<open>reads env e d\<close>: \<open>parseNot\<close> at depth \<open>d\<close> reads back exactly the text of \<open>e\<close>.\<close>

definition reads :: "FilterEnv \<Rightarrow> Expr \<Rightarrow> nat \<Rightarrow> bool" where
  "reads env e d = (\<forall>p s. starts_at (show_expr e @ s) p \<and> ps_error p = [] \<longrightarrow>
     (\<exists>q. parseNot env d p = (Some e, q) \<and> starts_at s q \<and> ps_error q = []))"

lemma readsE:
  assumes "reads env e d" and "starts_at (show_expr e @ s) p" and "ps_error p = []"
  obtains q where "parseNot env d p = (Some e, q)" "starts_at s q" "ps_error q = []"
  using assms by (auto simp: reads_def)

lemma parseAnd_reads_one:
  assumes "reads env e (Suc d)" and "starts_at (show_expr e @ s) p" and "ps_error p = []"
    and "d < kMaxExprDepth" and "lexes s ty tx r" and "ty \<noteq> TAnd"
  obtains q where "parseAnd env d p = (Some e, q)" "starts_at s q" "ps_error q = []"
proof -
  obtain q where q: "parseNot env (Suc d) p = (Some e, q)" "starts_at s q" "ps_error q = []"
    using assms(1-3) by (rule readsE)
  then have "\<not> chain_guard TAnd (Some e, q)"
    using starts_at_token(1) [OF q(2) assms(5)] assms(6) by (simp add: chain_guard_def)
  with q assms(4) show ?thesis
    by (intro that [of q]) (simp_all add: parseAnd.simps chain_loop_stop)
qed

lemma parseAnd_reads_two:
  assumes ab: "reads env a (Suc d)" "reads env b (Suc d)"
    and at: "starts_at (show_expr a @ '' and '' @ show_expr b @ s) p" "ps_error p = []"
    and "d < kMaxExprDepth" and s: "lexes s ty tx r" "ty \<noteq> TAnd"
  obtains q where "parseAnd env d p = (Some (EAnd (Some a) (Some b)), q)" "starts_at s q" "ps_error q = []"
proof -
  obtain q where q: "parseNot env (Suc d) p = (Some a, q)"
      "starts_at ('' and '' @ show_expr b @ s) q" "ps_error q = []"
    using ab(1) at by (rule readsE)
  note l = lexes_connective(1) [of "show_expr b @ s"]
  have "starts_at (show_expr b @ s) (advance q)"
    using starts_at_advance [OF q(2) l] by (simp add: starts_at_space)
  then obtain q' where q': "parseNot env (Suc d) (advance q) = (Some b, q')" "starts_at s q'" "ps_error q' = []"
    using readsE [OF ab(2)] q(3) by (metis advance_sel(1))
  have "chain_guard TAnd (Some a, q)" "\<not> chain_guard TAnd (Some (EAnd (Some a) (Some b)), q')"
    using starts_at_token(1) [OF q(2) l] starts_at_token(1) [OF q'(2) s(1)] s(2) q(3)
    by (simp_all add: chain_guard_def)
  moreover have "chain_step EAnd (parseNot env (Suc d)) (Some a, q) = (Some (EAnd (Some a) (Some b)), q')"
    using q' by (simp add: chain_step_def)
  ultimately have "chain_loop TAnd EAnd (parseNot env (Suc d)) (Some a, q) = (Some (EAnd (Some a) (Some b)), q')"
    by (metis chain_loop_more chain_loop_stop)
  then have "parseAnd env d p = (Some (EAnd (Some a) (Some b)), q')"
    using q(1) assms(5) by (simp add: parseAnd.simps)
  with q' show ?thesis by (intro that)
qed

lemma parseOr_reads_one:
  assumes "parseAnd env (Suc d) p = (Some e, q)" "starts_at s q" "ps_error q = []"
    and "d < kMaxExprDepth" and "lexes s ty tx r" "ty \<noteq> TOr"
  shows "parseOr env d p = (Some e, q)"
proof -
  have "\<not> chain_guard TOr (Some e, q)"
    using starts_at_token(1) [OF assms(2,5)] assms(6) by (simp add: chain_guard_def)
  with assms(1,4) show ?thesis
    by (simp add: parseOr.simps chain_loop_stop)
qed

lemma parseOr_reads_two:
  assumes ab: "reads env a (Suc (Suc d))" "reads env b (Suc (Suc d))"
    and at: "starts_at (show_expr a @ '' or '' @ show_expr b @ s) p" "ps_error p = []"
    and d: "Suc d < kMaxExprDepth" and s: "lexes s ty tx r" "ty \<noteq> TAnd" "ty \<noteq> TOr"
  obtains q where "parseOr env d p = (Some (EOr (Some a) (Some b)), q)" "starts_at s q" "ps_error q = []"
proof -
  note l = lexes_connective(2) [of "show_expr b @ s"]
  obtain q where q: "parseAnd env (Suc d) p = (Some a, q)"
      "starts_at ('' or '' @ show_expr b @ s) q" "ps_error q = []"
    using ab(1) at d l by (rule parseAnd_reads_one) simp
  have at': "starts_at (show_expr b @ s) (advance q)"
    using starts_at_advance [OF q(2) l] by (simp add: starts_at_space)
  obtain q' where q': "parseAnd env (Suc d) (advance q) = (Some b, q')" "starts_at s q'" "ps_error q' = []"
    using ab(2) at' _ d s(1,2) by (rule parseAnd_reads_one) (simp add: q(3))
  have "chain_guard TOr (Some a, q)" "\<not> chain_guard TOr (Some (EOr (Some a) (Some b)), q')"
    using starts_at_token(1) [OF q(2) l] starts_at_token(1) [OF q'(2) s(1)] s(3) q(3)
    by (simp_all add: chain_guard_def)
  moreover have "chain_step EOr (parseAnd env (Suc d)) (Some a, q) = (Some (EOr (Some a) (Some b)), q')"
    using q' by (simp add: chain_step_def)
  ultimately have "chain_loop TOr EOr (parseAnd env (Suc d)) (Some a, q) = (Some (EOr (Some a) (Some b)), q')"
    by (metis chain_loop_more chain_loop_stop)
  then have "parseOr env d p = (Some (EOr (Some a) (Some b)), q')"
    using q(1) d by (simp add: parseOr.simps)
  with q' show ?thesis by (intro that)
qed

lemma reads_pred: "pred_wf env pr \<Longrightarrow> Suc d < kMaxExprDepth \<Longrightarrow> reads env (EPred pr) d"
  unfolding reads_def
proof (intro allI impI)
  fix p s assume wf: "pred_wf env pr" and d: "Suc d < kMaxExprDepth"
    and p: "starts_at (show_expr (EPred pr) @ s) p \<and> ps_error p = []"
  then have "starts_at (fieldName (p_field pr) @ opText (p_op pr) @ quoted (p_text pr) @ s) p" by simp
  from starts_at_token(1) [OF this fieldName_lexes] have "tok_type (ps_cur p) = TIdent" .
  then show "\<exists>q. parseNot env d p = (Some (EPred pr), q) \<and> starts_at s q \<and> ps_error q = []"
    using parsePredicate_show [OF wf, of s p] p d by (simp add: parseNot.simps parseAtom.simps)
qed

lemma reads_not:
  assumes "reads env e (Suc d)" and wf: "expr_wf env e" and "d < kMaxExprDepth"
  shows "reads env (ENot (Some e)) d"
  unfolding reads_def
proof (intro allI impI)
  fix p s assume p: "starts_at (show_expr (ENot (Some e)) @ s) p \<and> ps_error p = []"
  then have at: "starts_at (CHR ''!'' # show_expr e @ s) p" by simp
  obtain q where "parseNot env (Suc d) (advance p) = (Some e, q)" "starts_at s q" "ps_error q = []"
    using assms(1) starts_at_advance [OF at lexes_not [OF wf]] p by (auto elim: readsE)
  then show "\<exists>q. parseNot env d p = (Some (ENot (Some e)), q) \<and> starts_at s q \<and> ps_error q = []"
    using starts_at_token(1) [OF at lexes_not [OF wf]] assms(3) by (simp add: parseNot.simps)
qed

text \<open>A parenthesised expression whose inside \<open>parseOr\<close> reads.\<close>

lemma reads_paren:
  assumes sh: "show_expr e = CHR ''('' # b @ '')''"
    and d: "Suc d < kMaxExprDepth"
    and inner: "\<And>p s. starts_at (b @ CHR '')'' # s) p \<Longrightarrow> ps_error p = [] \<Longrightarrow>
      \<exists>q. parseOr env (Suc (Suc d)) p = (Some e, q) \<and> starts_at (CHR '')'' # s) q \<and> ps_error q = []"
  shows "reads env e d"
  unfolding reads_def
proof (intro allI impI)
  fix p s assume p: "starts_at (show_expr e @ s) p \<and> ps_error p = []"
  then have at: "starts_at (CHR ''('' # b @ CHR '')'' # s) p" by (simp add: sh)
  obtain q where q: "parseOr env (Suc (Suc d)) (advance p) = (Some e, q)"
      "starts_at (CHR '')'' # s) q" "ps_error q = []"
    using inner [OF starts_at_advance [OF at lexes_lparen]] p by auto
  then show "\<exists>q. parseNot env d p = (Some e, q) \<and> starts_at s q \<and> ps_error q = []"
    using starts_at_token(1) [OF at lexes_lparen] starts_at_token(1) [OF q(2) lexes_rparen]
      starts_at_advance [OF q(2) lexes_rparen] d
    by (simp add: parseNot.simps parseAtom.simps)
qed

lemma reads_and:
  assumes ab: "reads env a (d + 4)" "reads env b (d + 4)" and d: "d + 3 < kMaxExprDepth"
  shows "reads env (EAnd (Some a) (Some b)) d"
proof (rule reads_paren [where b = "show_expr a @ '' and '' @ show_expr b"])
  fix p s assume "starts_at ((show_expr a @ '' and '' @ show_expr b) @ CHR '')'' # s) p" "ps_error p = []"
  then obtain q where "parseAnd env (d + 3) p = (Some (EAnd (Some a) (Some b)), q)"
      "starts_at (CHR '')'' # s) q" "ps_error q = []"
    using parseAnd_reads_two [of env a "d + 3" b "CHR '')'' # s" p TRParen] ab d lexes_rparen [of s]
    by (auto simp: eval_nat_numeral)
  then show "\<exists>q. parseOr env (Suc (Suc d)) p = (Some (EAnd (Some a) (Some b)), q) \<and>
      starts_at (CHR '')'' # s) q \<and> ps_error q = []"
    using parseOr_reads_one [of env "d + 2" p _ _ _ TRParen] lexes_rparen [of s] d
    by (auto simp: eval_nat_numeral)
qed (use d in auto)

lemma reads_or:
  assumes ab: "reads env a (d + 4)" "reads env b (d + 4)" and d: "d + 3 < kMaxExprDepth"
  shows "reads env (EOr (Some a) (Some b)) d"
proof (rule reads_paren [where b = "show_expr a @ '' or '' @ show_expr b"])
  fix p s assume "starts_at ((show_expr a @ '' or '' @ show_expr b) @ CHR '')'' # s) p" "ps_error p = []"
  then obtain q where "parseOr env (Suc (Suc d)) p = (Some (EOr (Some a) (Some b)), q)"
      "starts_at (CHR '')'' # s) q" "ps_error q = []"
    using parseOr_reads_two [of env a "d + 2" b "CHR '')'' # s" p TRParen] ab d lexes_rparen [of s]
    by (auto simp: eval_nat_numeral)
  then show "\<exists>q. parseOr env (Suc (Suc d)) p = (Some (EOr (Some a) (Some b)), q) \<and>
      starts_at (CHR '')'' # s) q \<and> ps_error q = []" by blast
qed (use d in auto)

lemma reads_show: "expr_wf env e \<Longrightarrow> d + cost e \<le> kMaxExprDepth \<Longrightarrow> reads env e d"
proof (induction env e arbitrary: d rule: expr_wf.induct)
  case (1 env pr)
  then show ?case by (intro reads_pred) auto
next
  case (2 env e)
  then show ?case by (intro reads_not) auto
next
  case (3 env a b)
  then show ?case by (intro reads_and) auto
next
  case (4 env a b)
  then show ?case by (intro reads_or) auto
qed auto

lemma parse_show:
  assumes "expr_wf env e" and "2 + cost e \<le> kMaxExprDepth"
  shows "parse env (show_expr e) = \<lparr>pr_expr = Some e, pr_error = [], pr_errorPos = -1\<rparr>"
proof -
  let ?p = "mk_parser (show_expr e)"
  have err: "ps_error ?p = []" by (simp add: mk_parser_def split: prod.splits)
  have at: "starts_at (show_expr e @ []) ?p" by (simp add: starts_at_mk_parser)
  have "reads env e (Suc (Suc 0))" using assms by (intro reads_show) auto
  then obtain q where q: "parseAnd env (Suc 0) ?p = (Some e, q)" "starts_at [] q" "ps_error q = []"
    using at err _ lexes_end by (rule parseAnd_reads_one) (use assms in auto)
  have "parseOr env 0 ?p = (Some e, q)"
    using q(1) q(2,3) _ lexes_end by (rule parseOr_reads_one) (use assms in auto)
  moreover have "tok_type (ps_cur q) = TEnd" using starts_at_token(1) [OF q(2) lexes_end] .
  moreover have "tok_type (ps_cur ?p) \<noteq> TEnd"
  proof
    assume "tok_type (ps_cur ?p) = TEnd"
    then have "parsePredicate env ?p = (None, fail ''expected field name'' (tok_pos (ps_cur ?p)) ?p)"
      by (simp add: parsePredicate_def)
    moreover obtain r where "parseNot env (Suc (Suc 0)) ?p = (Some e, r)"
      using \<open>reads env e (Suc (Suc 0))\<close> at err by (rule readsE)
    ultimately show False
      using \<open>tok_type (ps_cur ?p) = TEnd\<close> by (simp add: parseNot.simps parseAtom.simps kMaxExprDepth_def)
  qed
  ultimately show ?thesis using q(3) by (simp add: parse_def Let_def)
qed

section \<open>Properties of the parser\<close>

text \<open>C38: the two operator loops of the parser always end: from any parser state, the loops of
  \<open>parseOr\<close> and \<open>parseAnd\<close> stop after finitely many operands.\<close>

theorem parser_loops_terminate:
  "(\<exists>r. while_option (chain_guard TOr) (chain_step EOr (parseAnd env d)) x = Some r) \<and>
   (\<exists>r. while_option (chain_guard TAnd) (chain_step EAnd (parseNot env d)) x = Some r)"
  by (intro conjI chain_loop_ends parse_consumes)



text \<open>A concrete tree: \<open>(proto:"tcp" and !dport="443")\<close>.\<close>

definition sample_expr :: Expr where
  "sample_expr = EAnd
     (Some (EPred \<lparr>p_field = FProto, p_op = OpContains, p_text = ''tcp'', p_num = 0, p_hasNumeric = False, p_rx = []\<rparr>))
     (Some (ENot (Some (EPred \<lparr>p_field = FDport, p_op = OpEquals, p_text = ''443'', p_num = 443,
        p_hasNumeric = True, p_rx = []\<rparr>))))"

lemma sample_numeral: "parseNumeric sample_env ''443'' = Some 443"
  by code_simp

lemma sample_expr_ok: "expr_wf sample_env sample_expr" "2 + cost sample_expr \<le> kMaxExprDepth"
  by (simp_all add: sample_expr_def pred_wf_def isNumericField_def sample_numeral kMaxExprDepth_def)


end
