(* ===== verification/FilterEval.thy ===== *)
theory FilterEval
  imports FilterSyntax
begin

text \<open>
  Evaluation of filters (\<open>extractText\<close>, \<open>extractNumber\<close>, \<open>evalPredicate\<close>, \<open>evalExpr\<close> and
  \<open>matches\<close> of \<open>util/ConnectionFilter.cpp\<close>): against the meaning of the connectives, the
  duality of \<open>=\<close> and \<open>!=\<close>, and what the recursion cap of the evaluator does to long chains.
\<close>

section \<open>Field extraction\<close>

record Context =
  ctx_c :: Connection
  ctx_rxRate :: real
  ctx_txRate :: real
  ctx_hostnameLocal :: string
  ctx_hostnameRemote :: string

fun protoName :: "L4Proto \<Rightarrow> string" where
  "protoName Tcp = ''tcp''"
| "protoName Udp = ''udp''"
| "protoName Icmp = ''icmp''"
| "protoName IcmpV6 = ''icmpv6''"
| "protoName ProtoUnknown = ''?''"

fun directionName :: "Direction \<Rightarrow> string" where
  "directionName Outbound = ''out''"
| "directionName Inbound = ''in''"
| "directionName DirUnknown = ''?''"

definition familyName :: "Connection \<Rightarrow> string" where
  "familyName c = (if isIPv6 (c_local c) \<or> isIPv6 (c_remote c) then ''v6'' else ''v4'')"

abbreviation newline :: char where
  "newline \<equiv> CHR 0x0A"

definition ct_lines :: "ContainerInfo \<Rightarrow> string" where
  "ct_lines ci = ct_runtime ci @ newline # ct_id ci @ newline # ct_name ci"

text \<open>The loop over the container chain: entries joined by a newline once something was written.\<close>

definition chain_text :: "ContainerInfo list \<Rightarrow> string" where
  "chain_text cs = foldl (\<lambda>out ci. (if out \<noteq> [] then out @ [newline] else out) @ ct_lines ci) [] cs"

definition extractText :: "FilterEnv \<Rightarrow> Field \<Rightarrow> Context \<Rightarrow> string" where
  "extractText env f ctx =
     (let c = ctx_c ctx in
      case f of
        FProto \<Rightarrow> protoName (c_proto c)
      | FSrc \<Rightarrow> addr_text env (ep_address (c_local c))
      | FDst \<Rightarrow> addr_text env (ep_address (c_remote c))
      | FHost \<Rightarrow> addr_text env (ep_address (c_local c)) @ newline #
                  addr_text env (ep_address (c_remote c)) @ newline #
                  ctx_hostnameLocal ctx @ newline # ctx_hostnameRemote ctx
      | FIface \<Rightarrow> c_iface c
      | FFamily \<Rightarrow> familyName c
      | FDirection \<Rightarrow> directionName (c_direction c)
      | FComm \<Rightarrow> pi_comm (c_process c)
      | FReason \<Rightarrow> attributionReasonToString (c_reason c)
      | FRuntime \<Rightarrow> ct_runtime (c_container c)
      | FContainer \<Rightarrow>
          if ct_runtime (c_container c) = [] \<and> ct_id (c_container c) = [] \<and> ct_name (c_container c) = []
          then [] else ct_lines (c_container c)
      | FChainHas \<Rightarrow> if c_chain c = [] then [] else chain_text (c_chain c)
      | _ \<Rightarrow> [])"

text \<open>Sums of counters are taken in 64 bits before the conversion to \<open>double\<close>.\<close>

definition extractNumber :: "Field \<Rightarrow> Context \<Rightarrow> real" where
  "extractNumber f ctx =
     (let c = ctx_c ctx in
      case f of
        FSport \<Rightarrow> real (unat (ep_port (c_local c)))
      | FDport \<Rightarrow> real (unat (ep_port (c_remote c)))
      | FPort \<Rightarrow> real (unat (ep_port (c_local c)))
      | FBytesIn \<Rightarrow> real (unat (c_rxBytes c))
      | FBytesOut \<Rightarrow> real (unat (c_txBytes c))
      | FBytes \<Rightarrow> real (unat (c_rxBytes c + c_txBytes c))
      | FPktsIn \<Rightarrow> real (unat (c_rxPackets c))
      | FPktsOut \<Rightarrow> real (unat (c_txPackets c))
      | FPkts \<Rightarrow> real (unat (c_rxPackets c + c_txPackets c))
      | FRateIn \<Rightarrow> ctx_rxRate ctx
      | FRateOut \<Rightarrow> ctx_txRate ctx
      | FRate \<Rightarrow> ctx_rxRate ctx + ctx_txRate ctx
      | FPid \<Rightarrow> of_int (pi_pid (c_process c))
      | FUid \<Rightarrow> real (unat (pi_uid (c_process c)))
      | _ \<Rightarrow> 0)"

section \<open>Predicates\<close>

definition isMultiLineField :: "Field \<Rightarrow> bool" where
  "isMultiLineField f = (f = FHost \<or> f = FContainer \<or> f = FChainHas)"

fun num_cmp :: "Op \<Rightarrow> real \<Rightarrow> real \<Rightarrow> bool" where
  "num_cmp OpContains v n = (v = n)"
| "num_cmp OpEquals v n = (v = n)"
| "num_cmp OpNotEquals v n = (v \<noteq> n)"
| "num_cmp OpLt v n = (v < n)"
| "num_cmp OpLe v n = (v \<le> n)"
| "num_cmp OpGt v n = (v > n)"
| "num_cmp OpGe v n = (v \<ge> n)"
| "num_cmp OpRegex v n = False"

definition cmpLine :: "Op \<Rightarrow> string \<Rightarrow> string \<Rightarrow> bool" where
  "cmpLine op val line =
     (if op = OpEquals then eqCI line val
      else if op = OpNotEquals then \<not> eqCI line val
      else containsCI val line)"

definition evalPredicate :: "FilterEnv \<Rightarrow> Predicate \<Rightarrow> Context \<Rightarrow> bool" where
  "evalPredicate env p ctx =
     (let c = ctx_c ctx; f = p_field p; s = extractText env f ctx in
      if p_op p = OpRegex then
        (if f = FPort then rx_match env (p_rx p) (show_nat (unat (ep_port (c_local c)))) \<or>
                           rx_match env (p_rx p) (show_nat (unat (ep_port (c_remote c))))
         else if isMultiLineField f then list_ex (rx_match env (p_rx p)) (qsplit newline s)
         else rx_match env (p_rx p) s)
      else if isNumericField f \<and> p_hasNumeric p then
        (if f = FPort then
           (let lo = num_cmp (p_op p) (real (unat (ep_port (c_local c)))) (p_num p);
                ro = num_cmp (p_op p) (real (unat (ep_port (c_remote c)))) (p_num p)
            in if p_op p = OpNotEquals then lo \<and> ro else lo \<or> ro)
         else num_cmp (p_op p) (extractNumber f ctx) (p_num p))
      else if isMultiLineField f then
        (let ms = map (cmpLine (p_op p) (p_text p)) (qsplit_skip newline s)
         in if p_op p = OpNotEquals then list_all id ms else list_ex id ms)
      else
        (case p_op p of
           OpContains \<Rightarrow> containsCI (p_text p) s
         | OpEquals \<Rightarrow> eqCI s (p_text p)
         | OpNotEquals \<Rightarrow> \<not> eqCI s (p_text p)
         | _ \<Rightarrow> False))"

section \<open>Expressions\<close>

fun evalExpr :: "FilterEnv \<Rightarrow> Context \<Rightarrow> Expr option \<Rightarrow> nat \<Rightarrow> bool" where
  "evalExpr env ctx None depth = True"
| "evalExpr env ctx (Some (EPred p)) depth =
     (if kMaxExprDepth \<le> depth then False else evalPredicate env p ctx)"
| "evalExpr env ctx (Some (ENot child)) depth =
     (if kMaxExprDepth \<le> depth then False else \<not> evalExpr env ctx child (depth + 1))"
| "evalExpr env ctx (Some (EAnd lhs rhs)) depth =
     (if kMaxExprDepth \<le> depth then False
      else evalExpr env ctx lhs (depth + 1) \<and> evalExpr env ctx rhs (depth + 1))"
| "evalExpr env ctx (Some (EOr lhs rhs)) depth =
     (if kMaxExprDepth \<le> depth then False
      else evalExpr env ctx lhs (depth + 1) \<or> evalExpr env ctx rhs (depth + 1))"

definition matches :: "FilterEnv \<Rightarrow> Expr option \<Rightarrow> Context \<Rightarrow> bool" where
  "matches env e ctx = evalExpr env ctx e 0"

definition matches_text :: "FilterEnv \<Rightarrow> string \<Rightarrow> Context \<Rightarrow> bool" where
  "matches_text env input ctx = matches env (pr_expr (parse env input)) ctx"

section \<open>The meaning of a filter\<close>

text \<open>The intended meaning, with no recursion bound, and the height of a tree.\<close>

fun denote :: "FilterEnv \<Rightarrow> Context \<Rightarrow> Expr \<Rightarrow> bool" where
  "denote env ctx (EPred p) = evalPredicate env p ctx"
| "denote env ctx (ENot (Some a)) = (\<not> denote env ctx a)"
| "denote env ctx (EAnd (Some a) (Some b)) = (denote env ctx a \<and> denote env ctx b)"
| "denote env ctx (EOr (Some a) (Some b)) = (denote env ctx a \<or> denote env ctx b)"
| "denote env ctx _ = False"

fun height :: "Expr \<Rightarrow> nat" where
  "height (ENot (Some a)) = 1 + height a"
| "height (EAnd (Some a) (Some b)) = 1 + max (height a) (height b)"
| "height (EOr (Some a) (Some b)) = 1 + max (height a) (height b)"
| "height _ = 1"

lemma evalExpr_denote:
  "expr_wf env e \<Longrightarrow> d + height e \<le> kMaxExprDepth \<Longrightarrow> evalExpr env ctx (Some e) d = denote env ctx e"
  by (induction env e arbitrary: d rule: expr_wf.induct) auto

lemma height_cost: "expr_wf env e \<Longrightarrow> height e \<le> cost e"
  by (induction env e rule: expr_wf.induct) auto



text \<open>On every field and every flow, \<open>field!=value\<close> is the negation of
  \<open>field=value\<close>, including the fields that look at several haystacks and the two-ended
  \<open>port\<close>.\<close>

theorem not_equals_negates_equals:
  "evalPredicate env (p\<lparr>p_op := OpNotEquals\<rparr>) ctx \<longleftrightarrow> \<not> evalPredicate env (p\<lparr>p_op := OpEquals\<rparr>) ctx"
proof -
  have "list_all (cmpLine OpNotEquals v) ls \<longleftrightarrow> \<not> list_ex (cmpLine OpEquals v) ls" for v ls
    by (induction ls) (auto simp: cmpLine_def)
  then show ?thesis
    by (auto simp: evalPredicate_def Let_def list.pred_map list_ex_iff list_all_iff)
qed

section \<open>Long chains and the recursion cap\<close>

text \<open>A chain of \<open>n + 1\<close> copies of a predicate joined by \<open>and\<close>, without parentheses: its text and
  the left-nested tree the parser builds.\<close>

definition and_rest :: "Predicate \<Rightarrow> nat \<Rightarrow> string" where
  "and_rest pr n = concat (replicate n ('' and '' @ show_expr (EPred pr)))"

definition and_text :: "Predicate \<Rightarrow> nat \<Rightarrow> string" where
  "and_text pr n = show_expr (EPred pr) @ and_rest pr n"

fun and_chain :: "Predicate \<Rightarrow> nat \<Rightarrow> Expr" where
  "and_chain pr 0 = EPred pr"
| "and_chain pr (Suc n) = EAnd (Some (and_chain pr n)) (Some (EPred pr))"

lemma chain_loop_and:
  assumes r: "reads env (EPred pr) d" and at: "starts_at (and_rest pr n) q" "ps_error q = []"
  shows "\<exists>q'. chain_loop TAnd EAnd (parseNot env d) (Some (and_chain pr k), q)
      = (Some (and_chain pr (k + n)), q') \<and> starts_at [] q' \<and> ps_error q' = []"
  using at
proof (induction n arbitrary: k q)
  case 0
  then have at0: "starts_at [] q" by (simp add: and_rest_def)
  have "\<not> chain_guard TAnd (Some (and_chain pr k), q)"
    using starts_at_token(1) [OF at0 lexes_end] by (simp add: chain_guard_def)
  with 0 show ?case by (simp add: chain_loop_stop at0)
next
  case (Suc n)
  let ?P = "show_expr (EPred pr)"
  have at: "starts_at ('' and '' @ ?P @ and_rest pr n) q"
    using Suc.prems(1) by (simp add: and_rest_def)
  note l = lexes_connective(1) [of "?P @ and_rest pr n"]
  have at1: "starts_at (?P @ and_rest pr n) (advance q)"
    using starts_at_advance [OF at l] by (simp add: starts_at_space)
  have e1: "ps_error (advance q) = []" using Suc.prems(2) by simp
  obtain q1 where q1: "parseNot env d (advance q) = (Some (EPred pr), q1)"
      "starts_at (and_rest pr n) q1" "ps_error q1 = []"
    using r at1 e1 by (rule readsE)
  have "chain_guard TAnd (Some (and_chain pr k), q)"
    using starts_at_token(1) [OF at l] Suc.prems(2) by (simp add: chain_guard_def)
  moreover have "chain_step EAnd (parseNot env d) (Some (and_chain pr k), q) = (Some (and_chain pr (Suc k)), q1)"
    using q1(1) by (simp add: chain_step_def)
  ultimately have "chain_loop TAnd EAnd (parseNot env d) (Some (and_chain pr k), q) =
      chain_loop TAnd EAnd (parseNot env d) (Some (and_chain pr (Suc k)), q1)"
    by (metis chain_loop_more)
  with Suc.IH [OF q1(2,3), of "Suc k"] show ?case by simp
qed

lemma and_text_parse:
  assumes "pred_wf env pr"
  shows "parse env (and_text pr n) = \<lparr>pr_expr = Some (and_chain pr n), pr_error = [], pr_errorPos = -1\<rparr>"
proof -
  let ?p = "mk_parser (and_text pr n)"
  have err: "ps_error ?p = []" by (simp add: mk_parser_def split: prod.splits)
  have at: "starts_at (show_expr (EPred pr) @ and_rest pr n) ?p"
    using starts_at_mk_parser [of "and_text pr n"] by (simp add: and_text_def)
  have r: "reads env (EPred pr) (Suc (Suc 0))"
    using assms by (intro reads_pred) (simp_all add: kMaxExprDepth_def)
  obtain q where q: "parseNot env (Suc (Suc 0)) ?p = (Some (EPred pr), q)"
      "starts_at (and_rest pr n) q" "ps_error q = []"
    using r at err by (rule readsE)
  obtain q' where q': "chain_loop TAnd EAnd (parseNot env (Suc (Suc 0))) (Some (EPred pr), q)
      = (Some (and_chain pr n), q')" "starts_at [] q'" "ps_error q' = []"
    using chain_loop_and [OF r q(2,3), of 0] by auto
  have "parseAnd env (Suc 0) ?p = (Some (and_chain pr n), q')"
    using q(1) q'(1) by (simp add: parseAnd.simps kMaxExprDepth_def)
  then have "parseOr env 0 ?p = (Some (and_chain pr n), q')"
    using q'(2,3) _ lexes_end by (rule parseOr_reads_one) (simp_all add: kMaxExprDepth_def)
  moreover have "tok_type (ps_cur q') = TEnd" using starts_at_token(1) [OF q'(2) lexes_end] .
  moreover have "tok_type (ps_cur ?p) = TIdent"
    using starts_at_token(1) [OF _ fieldName_lexes] at by (metis append_assoc show_expr.simps(1))
  ultimately show ?thesis using q'(3) by (simp add: parse_def Let_def)
qed

lemma and_chain_capped: "kMaxExprDepth \<le> d + n \<Longrightarrow> \<not> evalExpr env ctx (Some (and_chain pr n)) d"
  by (induction n arbitrary: d) auto

lemma and_chain_denote: "denote env ctx (and_chain pr n) = evalPredicate env pr ctx"
  by (induction n) auto

text \<open>The cap of the evaluator is not the cap of the parser. A chain of at least 65 predicates
  joined by \<open>and\<close> is accepted without an error, but then matches no flow at all, also where
  every one of its predicates holds.\<close>

theorem long_and_chain_never_matches:
  assumes "pred_wf env pr" and "kMaxExprDepth \<le> n"
  shows "pr_error (parse env (and_text pr n)) = [] \<and> \<not> matches_text env (and_text pr n) ctx \<and>
    denote env ctx (and_chain pr n) = evalPredicate env pr ctx"
  using assms by (simp add: and_text_parse matches_text_def matches_def and_chain_capped and_chain_denote)

definition sample_pred :: Predicate where
  "sample_pred = \<lparr>p_field = FProto, p_op = OpContains, p_text = ''tcp'', p_num = 0, p_hasNumeric = False, p_rx = []\<rparr>"

theorem long_and_chain_never_matches_witness:
  "pred_wf sample_env sample_pred \<and> kMaxExprDepth \<le> 64 \<and>
   \<not> matches_text sample_env (and_text sample_pred 64)
     \<lparr>ctx_c = no_connection\<lparr>c_proto := Tcp\<rparr>, ctx_rxRate = 0, ctx_txRate = 0,
      ctx_hostnameLocal = [], ctx_hostnameRemote = []\<rparr>"
proof -
  have "pred_wf sample_env sample_pred" "kMaxExprDepth \<le> 64"
    by (simp_all add: sample_pred_def pred_wf_def isNumericField_def kMaxExprDepth_def)
  then show ?thesis using long_and_chain_never_matches by blast
qed

end
