(* ===== verification/Resolver.thy ===== *)
theory Resolver
  imports FlowTypes
begin

text \<open>
  Process resolvers: the interface of \<open>backend/ProcessResolver.h\<close>, the no-op resolver, the
  composite that asks its children in order, the factory, and the attribution pass
  \<open>attributeFlows\<close> of \<open>backend/Attribution.cpp\<close> with its per-pass memo.

  A resolver is a record of state-passing operations. All resolvers of one chain share the state
  type \<open>'s\<close>, which stands for their caches together with the world they observe (\<open>/proc\<close>, socket
  tables, the clock): an operation may change it.
\<close>

section \<open>The interface\<close>

record 's ProcessResolver =
  rs_initialize :: "'s \<Rightarrow> bool \<times> 's"
  rs_capabilities :: "'s \<Rightarrow> string list"
  rs_setTuning :: "ResolverTuning \<Rightarrow> 's \<Rightarrow> 's"
  rs_requestDeepScan :: "'s \<Rightarrow> 's"
  rs_resolvePid :: "Connection \<Rightarrow> 's \<Rightarrow> int \<times> 's"
  rs_enrichPid :: "int \<Rightarrow> 's \<Rightarrow> ProcessInfo option \<times> 's"
  rs_resolveContainerForPid :: "int \<Rightarrow> 's \<Rightarrow> ContainerInfo option \<times> 's"
  rs_resolveContainerChainForPid :: "int \<Rightarrow> 's \<Rightarrow> ContainerInfo list \<times> 's"

text \<open>The default bodies of the base class: \<open>resolveFlow\<close> and the one-element chain.\<close>

definition resolveFlow :: "'s ProcessResolver \<Rightarrow> Connection \<Rightarrow> 's \<Rightarrow> ProcessInfo option \<times> 's" where
  "resolveFlow r flow s =
     (let (pid, s) = rs_resolvePid r flow s in
      if pid \<le> 0 then (None, s) else rs_enrichPid r pid s)"

definition default_chain ::
  "(int \<Rightarrow> 's \<Rightarrow> ContainerInfo option \<times> 's) \<Rightarrow> int \<Rightarrow> 's \<Rightarrow> ContainerInfo list \<times> 's" where
  "default_chain container pid s =
     (let (r, s) = container pid s in (case r of Some ci \<Rightarrow> [ci] | None \<Rightarrow> [], s))"

definition NullProcessResolver :: "'s ProcessResolver" where
  "NullProcessResolver = \<lparr>
     rs_initialize = (\<lambda>s. (True, s)),
     rs_capabilities = (\<lambda>s. []),
     rs_setTuning = (\<lambda>_ s. s),
     rs_requestDeepScan = (\<lambda>s. s),
     rs_resolvePid = (\<lambda>_ s. (0, s)),
     rs_enrichPid = (\<lambda>_ s. (None, s)),
     rs_resolveContainerForPid = (\<lambda>_ s. (None, s)),
     rs_resolveContainerChainForPid = default_chain (\<lambda>_ s. (None, s))\<rparr>"

section \<open>The composite\<close>

text \<open>The loops over the children, one per operation.\<close>

primrec initialize_all :: "'s ProcessResolver list \<Rightarrow> 's \<Rightarrow> bool \<times> 's" where
  "initialize_all [] s = (False, s)"
| "initialize_all (c # cs) s =
     (let (r, s) = rs_initialize c s; (rest, s) = initialize_all cs s in (r \<or> rest, s))"

definition capabilities_union :: "'s ProcessResolver list \<Rightarrow> 's \<Rightarrow> string list" where
  "capabilities_union cs s =
     foldl (\<lambda>out c. foldl (\<lambda>out tok. if tok \<in> set out then out else out @ [tok]) out (rs_capabilities c s))
       [] cs"

text \<open>Ask the children in order until an answer is accepted; \<open>dflt\<close> when none is.\<close>

primrec first_answer :: "('a \<Rightarrow> bool) \<Rightarrow> 'a \<Rightarrow> ('s \<Rightarrow> 'a \<times> 's) list \<Rightarrow> 's \<Rightarrow> 'a \<times> 's" where
  "first_answer ok dflt [] s = (dflt, s)"
| "first_answer ok dflt (q # qs) s =
     (let (a, s) = q s in if ok a then (a, s) else first_answer ok dflt qs s)"

definition CompositeResolver :: "'s ProcessResolver list \<Rightarrow> 's ProcessResolver" where
  "CompositeResolver cs = \<lparr>
     rs_initialize = initialize_all cs,
     rs_capabilities = capabilities_union cs,
     rs_setTuning = (\<lambda>t s. fold (\<lambda>c. rs_setTuning c t) cs s),
     rs_requestDeepScan = fold rs_requestDeepScan cs,
     rs_resolvePid = (\<lambda>flow. first_answer (\<lambda>pid. 0 < pid) 0 (map (\<lambda>c. rs_resolvePid c flow) cs)),
     rs_enrichPid = (\<lambda>pid. first_answer (\<lambda>r. r \<noteq> None) None (map (\<lambda>c. rs_enrichPid c pid) cs)),
     rs_resolveContainerForPid =
       (\<lambda>pid. first_answer (\<lambda>r. r \<noteq> None) None (map (\<lambda>c. rs_resolveContainerForPid c pid) cs)),
     rs_resolveContainerChainForPid =
       (\<lambda>pid. first_answer (\<lambda>ch. ch \<noteq> []) [] (map (\<lambda>c. rs_resolveContainerChainForPid c pid) cs))\<rparr>"

text \<open>\<open>createProcessResolver\<close> on Linux with all three features compiled in; the layers are arguments.
  A layer joins the composite when its configuration bits are set and its probe succeeds.\<close>

definition add_layer :: "bool \<Rightarrow> 's ProcessResolver \<Rightarrow> 's ProcessResolver list \<times> 's
    \<Rightarrow> 's ProcessResolver list \<times> 's" where
  "add_layer enabled r x =
     (if enabled
      then (let (ok, s) = rs_initialize r (snd x) in (if ok then fst x @ [r] else fst x, s))
      else x)"

definition createProcessResolver ::
  "'s ProcessResolver \<Rightarrow> 's ProcessResolver \<Rightarrow> 's ProcessResolver \<Rightarrow> ProcessResolverConfig \<Rightarrow> 's
    \<Rightarrow> 's ProcessResolver \<times> 's" where
  "createProcessResolver sockDiag cgroup netns cfg s =
     (if cfg_eagerness cfg = Off \<or>
         (\<not> cfg_processAttribution cfg \<and> \<not> cfg_containerAttribution cfg \<and> \<not> cfg_netnsScan cfg)
      then (NullProcessResolver, snd (rs_initialize NullProcessResolver s))
      else
        (let x = ([], s);
             x = add_layer (cfg_processAttribution cfg) sockDiag x;
             x = add_layer (cfg_processAttribution cfg \<and> cfg_containerAttribution cfg) cgroup x;
             x = add_layer (cfg_processAttribution cfg \<and> cfg_netnsScan cfg) netns x;
             composite = CompositeResolver (fst x)
         in if rs_capabilities composite (snd x) \<noteq> [] then (composite, snd x)
            else (NullProcessResolver, snd (rs_initialize NullProcessResolver (snd x)))))"

section \<open>The attribution pass\<close>

type_synonym PidKey = "int \<times> quint64"

record 's AttributionOptions =
  wantContainerChain :: bool
  startTimeForPid :: "int \<Rightarrow> 's \<Rightarrow> quint64"

record PassMemo =
  processByPid :: "(PidKey, ProcessInfo) qhash"
  containerByPid :: "(PidKey, ContainerInfo) qhash"
  chainByPid :: "(PidKey, ContainerInfo list) qhash"

definition empty_memo :: PassMemo where
  "empty_memo = \<lparr>processByPid = [], containerByPid = [], chainByPid = []\<rparr>"

text \<open>One memoised lookup: the table's entry if there is one, otherwise the fetched value, which is
  then stored.\<close>

definition memoised :: "('k, 'v) qhash \<Rightarrow> 'k \<Rightarrow> ('s \<Rightarrow> 'v \<times> 's) \<Rightarrow> 's \<Rightarrow> 'v \<times> ('k, 'v) qhash \<times> 's" where
  "memoised tab key fetch s =
     (case hfind tab key of
        Some v \<Rightarrow> (v, tab, s)
      | None \<Rightarrow> (let (v, s) = fetch s in (v, hinsert key v tab, s)))"

definition fetch_process :: "'s ProcessResolver \<Rightarrow> int \<Rightarrow> 's \<Rightarrow> ProcessInfo \<times> 's" where
  "fetch_process r pid s =
     (let (pi, s) = rs_enrichPid r pid s
      in (case pi of Some i \<Rightarrow> if pi_valid i then i else no_process | None \<Rightarrow> no_process, s))"

definition fetch_container :: "'s ProcessResolver \<Rightarrow> int \<Rightarrow> 's \<Rightarrow> ContainerInfo \<times> 's" where
  "fetch_container r pid s =
     (let (found, s) = rs_resolveContainerForPid r pid s
      in (case found of Some ci \<Rightarrow> ci | None \<Rightarrow> no_container, s))"

text \<open>The loop body of \<open>attributeFlows\<close>.\<close>

definition attribute_flow ::
  "'s ProcessResolver \<Rightarrow> 's AttributionOptions \<Rightarrow> Connection \<Rightarrow> PassMemo \<times> 's \<Rightarrow> Connection \<times> PassMemo \<times> 's" where
  "attribute_flow r opts c x =
     (let (m, s) = x; (pid, s) = rs_resolvePid r c s in
      if pid \<le> 0 then (c, m, s)
      else
        (let key = (pid, startTimeForPid opts pid s);
             (info, tab, s) = memoised (processByPid m) key (fetch_process r pid) s;
             m = m\<lparr>processByPid := tab\<rparr>;
             c = c\<lparr>c_process := info\<rparr>
         in if \<not> pi_valid info then (c, m, s)
            else
              (let (ci, tab, s) = memoised (containerByPid m) key (fetch_container r pid) s;
                   m = m\<lparr>containerByPid := tab\<rparr>;
                   c = c\<lparr>c_container := ci\<rparr>
               in if wantContainerChain opts
                  then (let (ch, tab, s) = memoised (chainByPid m) key
                              (rs_resolveContainerChainForPid r pid) s
                        in (c\<lparr>c_chain := ch\<rparr>, m\<lparr>chainByPid := tab\<rparr>, s))
                  else (c, m, s))))"

primrec attribute_pass ::
  "'s ProcessResolver \<Rightarrow> 's AttributionOptions \<Rightarrow> Connection list \<Rightarrow> PassMemo \<times> 's
    \<Rightarrow> Connection list \<times> PassMemo \<times> 's" where
  "attribute_pass r opts [] x = ([], x)"
| "attribute_pass r opts (c # cs) x =
     (let (c', x') = attribute_flow r opts c x; (cs', x'') = attribute_pass r opts cs x'
      in (c' # cs', x''))"

definition attributeFlows ::
  "Connection list \<Rightarrow> 's ProcessResolver option \<Rightarrow> 's AttributionOptions \<Rightarrow> 's \<Rightarrow> Connection list \<times> 's" where
  "attributeFlows flows resolver opts s =
     (case resolver of
        None \<Rightarrow> (flows, s)
      | Some r \<Rightarrow> (let (cs, _, s) = attribute_pass r opts flows (empty_memo, s) in (cs, s)))"

section \<open>Facts about the composite\<close>

lemma add_tokens_set:
  "set (foldl (\<lambda>out tok. if tok \<in> set out then out else out @ [tok]) out toks) = set out \<union> set toks"
  by (induction toks arbitrary: out) auto

lemma add_tokens_distinct:
  "distinct out \<Longrightarrow> distinct (foldl (\<lambda>out tok. if tok \<in> set out then out else out @ [tok]) out toks)"
  by (induction toks arbitrary: out) auto

lemma capabilities_union_set: "set (capabilities_union cs s) = (\<Union>c\<in>set cs. set (rs_capabilities c s))"
proof -
  have "set (foldl (\<lambda>out c. foldl (\<lambda>out tok. if tok \<in> set out then out else out @ [tok]) out (rs_capabilities c s)) out cs)
      = set out \<union> (\<Union>c\<in>set cs. set (rs_capabilities c s))" for out
    by (induction cs arbitrary: out) (auto simp: add_tokens_set)
  then show ?thesis by (simp add: capabilities_union_def)
qed

lemma capabilities_union_distinct: "distinct (capabilities_union cs s)"
proof -
  have "distinct out \<Longrightarrow>
    distinct (foldl (\<lambda>out c. foldl (\<lambda>out tok. if tok \<in> set out then out else out @ [tok]) out (rs_capabilities c s)) out cs)"
    for out
    by (induction cs arbitrary: out) (auto simp: add_tokens_distinct)
  then show ?thesis by (simp add: capabilities_union_def)
qed

section \<open>Resolvers with stable answers\<close>

text \<open>The answers of a resolver that observes a world at rest: each query always gets the same answer,
  whatever the caches hold.\<close>

record Answers =
  an_pid :: "Connection \<Rightarrow> int"
  an_enrich :: "int \<Rightarrow> ProcessInfo option"
  an_container :: "int \<Rightarrow> ContainerInfo option"
  an_chain :: "int \<Rightarrow> ContainerInfo list"

text \<open>What the pass should compute: every lookup made afresh for every flow, no memo.\<close>

definition spec_process :: "Answers \<Rightarrow> int \<Rightarrow> ProcessInfo" where
  "spec_process a pid =
     (case an_enrich a pid of Some i \<Rightarrow> if pi_valid i then i else no_process | None \<Rightarrow> no_process)"

definition spec_container :: "Answers \<Rightarrow> int \<Rightarrow> ContainerInfo" where
  "spec_container a pid = (case an_container a pid of Some ci \<Rightarrow> ci | None \<Rightarrow> no_container)"

definition attribute_spec :: "Answers \<Rightarrow> bool \<Rightarrow> Connection \<Rightarrow> Connection" where
  "attribute_spec a want c =
     (let pid = an_pid a c in
      if pid \<le> 0 then c
      else if \<not> pi_valid (spec_process a pid) then c\<lparr>c_process := spec_process a pid\<rparr>
      else
        (let c = c\<lparr>c_process := spec_process a pid, c_container := spec_container a pid\<rparr>
         in if want then c\<lparr>c_chain := an_chain a pid\<rparr> else c))"

definition memo_ok :: "Answers \<Rightarrow> PassMemo \<Rightarrow> bool" where
  "memo_ok a m = ((\<forall>k v. hfind (processByPid m) k = Some v \<longrightarrow> v = spec_process a (fst k)) \<and>
     (\<forall>k v. hfind (containerByPid m) k = Some v \<longrightarrow> v = spec_container a (fst k)) \<and>
     (\<forall>k v. hfind (chainByPid m) k = Some v \<longrightarrow> v = an_chain a (fst k)))"

lemma memoised_invariant:
  assumes "memoised tab key fetch s = (v, tab', s')" and "quiet s"
    and "\<And>w t. fetch s = (w, t) \<Longrightarrow> P key w \<and> quiet t"
    and "\<forall>k w. hfind tab k = Some w \<longrightarrow> P k w"
  shows "P key v \<and> quiet s' \<and> (\<forall>k w. hfind tab' k = Some w \<longrightarrow> P k w)"
  using assms by (auto simp: memoised_def update_conv' split: option.splits prod.splits if_splits)

locale stable_resolver =
  fixes r :: "'s ProcessResolver" and quiet :: "'s \<Rightarrow> bool" and a :: Answers
  assumes stable_pid: "quiet s \<Longrightarrow> rs_resolvePid r c s = (p, t) \<Longrightarrow> p = an_pid a c \<and> quiet t"
    and stable_enrich: "quiet s \<Longrightarrow> rs_enrichPid r pid s = (i, t) \<Longrightarrow> i = an_enrich a pid \<and> quiet t"
    and stable_container:
      "quiet s \<Longrightarrow> rs_resolveContainerForPid r pid s = (ci, t) \<Longrightarrow> ci = an_container a pid \<and> quiet t"
    and stable_chain:
      "quiet s \<Longrightarrow> rs_resolveContainerChainForPid r pid s = (ch, t) \<Longrightarrow> ch = an_chain a pid \<and> quiet t"
begin

lemma fetch_process_spec: "quiet s \<Longrightarrow> fetch_process r pid s = (i, t) \<Longrightarrow> i = spec_process a pid \<and> quiet t"
  using stable_enrich [of s pid]
  by (cases "rs_enrichPid r pid s") (simp add: fetch_process_def spec_process_def)

lemma fetch_container_spec: "quiet s \<Longrightarrow> fetch_container r pid s = (ci, t) \<Longrightarrow> ci = spec_container a pid \<and> quiet t"
  using stable_container [of s pid]
  by (cases "rs_resolveContainerForPid r pid s") (simp add: fetch_container_def spec_container_def)

lemma memo_process:
  assumes "quiet s" and "memo_ok a m" and "memoised (processByPid m) (pid, st) (fetch_process r pid) s = (v, tab, t)"
  shows "v = spec_process a pid \<and> quiet t \<and> memo_ok a (m\<lparr>processByPid := tab\<rparr>)"
proof -
  have "v = spec_process a (fst (pid, st)) \<and> quiet t \<and> (\<forall>k w. hfind tab k = Some w \<longrightarrow> w = spec_process a (fst k))"
    by (rule memoised_invariant [where quiet = quiet and P = "\<lambda>k v. v = spec_process a (fst k)", OF assms(3,1)])
      (use fetch_process_spec [OF assms(1)] assms(2) in \<open>simp_all add: memo_ok_def\<close>)
  then show ?thesis using assms(2) by (simp add: memo_ok_def)
qed

lemma memo_container:
  assumes "quiet s" and "memo_ok a m"
    and "memoised (containerByPid m) (pid, st) (fetch_container r pid) s = (v, tab, t)"
  shows "v = spec_container a pid \<and> quiet t \<and> memo_ok a (m\<lparr>containerByPid := tab\<rparr>)"
proof -
  have "v = spec_container a (fst (pid, st)) \<and> quiet t \<and> (\<forall>k w. hfind tab k = Some w \<longrightarrow> w = spec_container a (fst k))"
    by (rule memoised_invariant [where quiet = quiet and P = "\<lambda>k v. v = spec_container a (fst k)", OF assms(3,1)])
      (use fetch_container_spec [OF assms(1)] assms(2) in \<open>simp_all add: memo_ok_def\<close>)
  then show ?thesis using assms(2) by (simp add: memo_ok_def)
qed

lemma memo_chain:
  assumes "quiet s" and "memo_ok a m"
    and "memoised (chainByPid m) (pid, st) (rs_resolveContainerChainForPid r pid) s = (v, tab, t)"
  shows "v = an_chain a pid \<and> quiet t \<and> memo_ok a (m\<lparr>chainByPid := tab\<rparr>)"
proof -
  have "v = an_chain a (fst (pid, st)) \<and> quiet t \<and> (\<forall>k w. hfind tab k = Some w \<longrightarrow> w = an_chain a (fst k))"
    by (rule memoised_invariant [where quiet = quiet and P = "\<lambda>k v. v = an_chain a (fst k)", OF assms(3,1)])
      (use stable_chain [OF assms(1)] assms(2) in \<open>simp_all add: memo_ok_def\<close>)
  then show ?thesis using assms(2) by (simp add: memo_ok_def)
qed

lemma attribute_flow_spec:
  assumes "quiet s" and "memo_ok a m" and "attribute_flow r opts c (m, s) = (c', m', s')"
  shows "c' = attribute_spec a (wantContainerChain opts) c \<and> memo_ok a m' \<and> quiet s'"
proof -
  define pid where "pid = an_pid a c"
  obtain s1 where p: "rs_resolvePid r c s = (pid, s1)" and i1: "quiet s1"
    using stable_pid [OF assms(1)] by (metis pid_def surj_pair)
  let ?key = "(pid, startTimeForPid opts pid s1)"
  obtain i t1 s2 where q: "memoised (processByPid m) ?key (fetch_process r pid) s1 = (i, t1, s2)"
    by (metis prod_cases3)
  let ?m1 = "m\<lparr>processByPid := t1\<rparr>"
  have i2: "i = spec_process a pid" "quiet s2" "memo_ok a ?m1"
    using memo_process [OF i1 assms(2) q] by auto
  obtain ci t2 s3 where k: "memoised (containerByPid m) ?key (fetch_container r pid) s2 = (ci, t2, s3)"
    by (metis prod_cases3)
  let ?m2 = "?m1\<lparr>containerByPid := t2\<rparr>"
  have i3: "ci = spec_container a pid" "quiet s3" "memo_ok a ?m2"
    using memo_container [OF i2(2,3)] k by simp_all
  obtain ch t3 s4 where h: "memoised (chainByPid m) ?key (rs_resolveContainerChainForPid r pid) s3 = (ch, t3, s4)"
    by (metis prod_cases3)
  have i4: "ch = an_chain a pid" "quiet s4" "memo_ok a (?m2\<lparr>chainByPid := t3\<rparr>)"
    using memo_chain [OF i3(2,3)] h by simp_all
  show ?thesis
    using assms(2,3) i1 i2 i3 i4
    by (simp add: attribute_flow_def attribute_spec_def Let_def p q k h pid_def [symmetric] split: if_splits)
qed

lemma attribute_pass_spec:
  "quiet s \<Longrightarrow> memo_ok a m \<Longrightarrow> attribute_pass r opts cs (m, s) = (cs', m', s') \<Longrightarrow>
   cs' = map (attribute_spec a (wantContainerChain opts)) cs \<and> memo_ok a m' \<and> quiet s'"
proof (induction cs arbitrary: m s cs')
  case (Cons c cs)
  obtain d m1 s1 where f: "attribute_flow r opts c (m, s) = (d, m1, s1)" by (metis prod_cases3)
  obtain ds x where p: "attribute_pass r opts cs (m1, s1) = (ds, x)" by (metis surj_pair)
  show ?case
    using Cons.IH [of s1 m1 ds] attribute_flow_spec [OF Cons.prems(1,2) f] Cons.prems(3) f p by auto
qed simp

lemma attributeFlows_spec:
  "quiet s \<Longrightarrow> fst (attributeFlows cs (Some r) opts s) = map (attribute_spec a (wantContainerChain opts)) cs"
  using attribute_pass_spec [of s empty_memo opts cs]
  by (auto simp: attributeFlows_def memo_ok_def empty_memo_def split: prod.splits)

end

text \<open>The answers of a composite: for every query the first useful answer of its children.\<close>

primrec first_ok :: "('a \<Rightarrow> bool) \<Rightarrow> 'a \<Rightarrow> 'a list \<Rightarrow> 'a" where
  "first_ok ok dflt [] = dflt"
| "first_ok ok dflt (x # xs) = (if ok x then x else first_ok ok dflt xs)"

definition composite_answers :: "Answers list \<Rightarrow> Answers" where
  "composite_answers as = \<lparr>
     an_pid = (\<lambda>c. first_ok (\<lambda>p. 0 < p) 0 (map (\<lambda>a. an_pid a c) as)),
     an_enrich = (\<lambda>pid. first_ok (\<lambda>i. i \<noteq> None) None (map (\<lambda>a. an_enrich a pid) as)),
     an_container = (\<lambda>pid. first_ok (\<lambda>i. i \<noteq> None) None (map (\<lambda>a. an_container a pid) as)),
     an_chain = (\<lambda>pid. first_ok (\<lambda>ch. ch \<noteq> []) [] (map (\<lambda>a. an_chain a pid) as))\<rparr>"

lemma first_answer_stable:
  assumes "list_all2 (\<lambda>q x. \<forall>s y t. quiet s \<and> q s = (y, t) \<longrightarrow> y = x \<and> quiet t) qs xs"
    and "quiet s" and "first_answer ok dflt qs s = (y, t)"
  shows "y = first_ok ok dflt xs \<and> quiet t"
  using assms
proof (induction arbitrary: s rule: list_all2_induct)
  case (Cons q qs x xs)
  obtain z u where "q s = (z, u)" by fastforce
  with Cons show ?case by (auto split: if_splits)
qed simp

lemma composite_stable:
  assumes "list_all2 (\<lambda>r a. stable_resolver r quiet a) rs as"
  shows "stable_resolver (CompositeResolver rs) quiet (composite_answers as)"
proof
  let ?st = "\<lambda>q x. \<forall>s y t. quiet s \<and> q s = (y, t) \<longrightarrow> y = x \<and> quiet t"
  note lift = list_all2_map1 list_all2_map2 and al = list_all2_mono [OF assms]
  have st: "list_all2 ?st (map (\<lambda>r. rs_resolvePid r c) rs) (map (\<lambda>a. an_pid a c) as)"
    "list_all2 ?st (map (\<lambda>r. rs_enrichPid r pid) rs) (map (\<lambda>a. an_enrich a pid) as)"
    "list_all2 ?st (map (\<lambda>r. rs_resolveContainerForPid r pid) rs) (map (\<lambda>a. an_container a pid) as)"
    "list_all2 ?st (map (\<lambda>r. rs_resolveContainerChainForPid r pid) rs) (map (\<lambda>a. an_chain a pid) as)"
    for c pid
    unfolding lift
    by (rule al, blast dest: stable_resolver.stable_pid stable_resolver.stable_enrich
        stable_resolver.stable_container stable_resolver.stable_chain)+
  note defs = CompositeResolver_def composite_answers_def
  fix s assume s: "quiet s"
  show "p = an_pid (composite_answers as) c \<and> quiet t"
    if "rs_resolvePid (CompositeResolver rs) c s = (p, t)" for c p t
    using first_answer_stable [OF st(1) s] that by (simp add: defs)
  show "i = an_enrich (composite_answers as) pid \<and> quiet t"
    if "rs_enrichPid (CompositeResolver rs) pid s = (i, t)" for pid i t
    using first_answer_stable [OF st(2) s] that by (simp add: defs)
  show "i = an_container (composite_answers as) pid \<and> quiet t"
    if "rs_resolveContainerForPid (CompositeResolver rs) pid s = (i, t)" for pid i t
    using first_answer_stable [OF st(3) s] that by (simp add: defs)
  show "i = an_chain (composite_answers as) pid \<and> quiet t"
    if "rs_resolveContainerChainForPid (CompositeResolver rs) pid s = (i, t)" for pid i t
    using first_answer_stable [OF st(4) s] that by (simp add: defs)
qed

text \<open>The no-op resolver has stable answers in every state.\<close>

definition null_answers :: Answers where
  "null_answers = \<lparr>an_pid = (\<lambda>_. 0), an_enrich = (\<lambda>_. None), an_container = (\<lambda>_. None), an_chain = (\<lambda>_. [])\<rparr>"

interpretation null_res: stable_resolver NullProcessResolver "\<lambda>_. True" null_answers
  by unfold_locales (auto simp: NullProcessResolver_def null_answers_def default_chain_def)

lemma attribute_spec_null: "attribute_spec null_answers want = (\<lambda>c. c)"
  by (rule ext) (simp add: attribute_spec_def null_answers_def)

section \<open>How often processes are enriched\<close>

text \<open>A resolver that records every call of \<open>enrichPid\<close>.\<close>

definition keep_log :: "('s \<Rightarrow> 'a \<times> 's) \<Rightarrow> 's \<times> int list \<Rightarrow> 'a \<times> ('s \<times> int list)" where
  "keep_log q x = (let (y, s) = q (fst x) in (y, (s, snd x)))"

definition log_enrich :: "'s ProcessResolver \<Rightarrow> ('s \<times> int list) ProcessResolver" where
  "log_enrich r = \<lparr>
     rs_initialize = keep_log (rs_initialize r),
     rs_capabilities = (\<lambda>x. rs_capabilities r (fst x)),
     rs_setTuning = (\<lambda>t x. (rs_setTuning r t (fst x), snd x)),
     rs_requestDeepScan = (\<lambda>x. (rs_requestDeepScan r (fst x), snd x)),
     rs_resolvePid = (\<lambda>c. keep_log (rs_resolvePid r c)),
     rs_enrichPid = (\<lambda>pid x. let (i, s) = rs_enrichPid r pid (fst x) in (i, (s, snd x @ [pid]))),
     rs_resolveContainerForPid = (\<lambda>pid. keep_log (rs_resolveContainerForPid r pid)),
     rs_resolveContainerChainForPid = (\<lambda>pid. keep_log (rs_resolveContainerChainForPid r pid))\<rparr>"

definition log_ok :: "(int \<Rightarrow> quint64) \<Rightarrow> PassMemo \<Rightarrow> int list \<Rightarrow> bool" where
  "log_ok st m l = (distinct l \<and> (\<forall>pid \<in> set l. 0 < pid \<and> hfind (processByPid m) (pid, st pid) \<noteq> None))"

lemma keep_log_snd [simp]: "snd (snd (keep_log q x)) = snd x"
  by (simp add: keep_log_def split: prod.splits)

lemma memoised_log:
  assumes "\<And>x. snd (snd (fetch x)) = snd x"
  shows "snd (snd (snd (memoised tab key fetch x))) = snd x"
  using assms [of x] by (cases "fetch x") (auto simp: memoised_def split: option.splits)

lemma fetch_container_log: "snd (snd (fetch_container (log_enrich r) pid x)) = snd x"
  by (simp add: fetch_container_def log_enrich_def keep_log_def split: prod.splits)

lemma fetch_process_log: "snd (snd (fetch_process (log_enrich r) pid x)) = snd x @ [pid]"
  by (simp add: fetch_process_def log_enrich_def split: prod.splits)

lemma memoised_process_log:
  assumes "log_ok st m (snd x)" and "0 < pid"
    and "memoised (processByPid m) (pid, st pid) (fetch_process (log_enrich r) pid) x = (v, tab, y)"
  shows "log_ok st (m\<lparr>processByPid := tab\<rparr>) (snd y)"
proof (cases "hfind (processByPid m) (pid, st pid)")
  case None
  then have "snd y = snd x @ [pid]" "tab = hinsert (pid, st pid) v (processByPid m)"
    using assms(3) fetch_process_log [of r pid x]
    by (auto simp: memoised_def split: prod.splits)
  moreover have "pid \<notin> set (snd x)" using None assms(1) by (auto simp: log_ok_def)
  ultimately show ?thesis using assms(1,2) by (auto simp: log_ok_def update_conv')
next
  case (Some i)
  with assms show ?thesis by (auto simp: memoised_def)
qed

lemma log_ok_memo [simp]:
  "log_ok st (m\<lparr>containerByPid := a\<rparr>) l = log_ok st m l" "log_ok st (m\<lparr>chainByPid := b\<rparr>) l = log_ok st m l"
  by (simp_all add: log_ok_def)

lemma attribute_flow_log:
  assumes "log_ok st m (snd x)" and st: "\<And>pid s. startTimeForPid opts pid s = st pid"
    and "attribute_flow (log_enrich r) opts c (m, x) = (c', m', x')"
  shows "log_ok st m' (snd x')"
proof -
  let ?r = "log_enrich r"
  obtain pid x1 where p: "rs_resolvePid ?r c x = (pid, x1)" by (metis surj_pair)
  have "rs_resolvePid ?r c = keep_log (rs_resolvePid r c)" by (simp add: log_enrich_def)
  then have l1: "snd x1 = snd x" using p by (metis keep_log_snd snd_conv)
  obtain i t1 x2 where q: "memoised (processByPid m) (pid, st pid) (fetch_process ?r pid) x1 = (i, t1, x2)"
    by (metis prod_cases3)
  have l2: "log_ok st (m\<lparr>processByPid := t1\<rparr>) (snd x2)" if "0 < pid"
    using memoised_process_log [of st m x1 pid r, OF _ that q] assms(1) l1 by simp
  obtain ci t2 x3 where k: "memoised (containerByPid m) (pid, st pid) (fetch_container ?r pid) x2 = (ci, t2, x3)"
    by (metis prod_cases3)
  have l3: "snd x3 = snd x2"
    using memoised_log [of "fetch_container ?r pid", OF fetch_container_log] k by (metis snd_conv)
  obtain ch t3 x4 where h: "memoised (chainByPid m) (pid, st pid) (rs_resolveContainerChainForPid ?r pid) x3 = (ch, t3, x4)"
    by (metis prod_cases3)
  have "snd x4 = snd x3"
    using memoised_log [of "rs_resolveContainerChainForPid ?r pid" "chainByPid m" "(pid, st pid)" x3] h
    by (simp add: log_enrich_def)
  then show ?thesis
    using assms(1,3) l1 l2 l3
    by (auto simp: attribute_flow_def Let_def p q k h st split: if_splits)
qed

lemma attribute_pass_log:
  assumes st: "\<And>pid s. startTimeForPid opts pid s = st pid"
  shows "log_ok st m (snd x) \<Longrightarrow> attribute_pass (log_enrich r) opts cs (m, x) = (cs', m', x') \<Longrightarrow>
    log_ok st m' (snd x')"
proof (induction cs arbitrary: m x cs')
  case (Cons c cs)
  obtain d m1 x1 where f: "attribute_flow (log_enrich r) opts c (m, x) = (d, m1, x1)" by (metis prod_cases3)
  obtain ds y where p: "attribute_pass (log_enrich r) opts cs (m1, x1) = (ds, y)" by (metis surj_pair)
  show ?case
    using Cons.IH [of m1 x1 ds] attribute_flow_log [OF Cons.prems(1) st f] Cons.prems(2) f p by auto
qed simp

section \<open>Properties of attribution\<close>

text \<open>C1: the memo of an attribution pass changes nothing but the cost: with resolvers whose
  answers are stable during the pass, composed in a chain, every flow gets exactly the
  process, container and chain that asking the first child with an answer, flow by flow, would give.\<close>

theorem attributeFlows_equals_unmemoised:
  assumes "list_all2 (\<lambda>r a. stable_resolver r quiet a) rs as" and "quiet s"
  shows "fst (attributeFlows flows (Some (CompositeResolver rs)) opts s)
    = map (attribute_spec (composite_answers as) (wantContainerChain opts)) flows"
  by (rule stable_resolver.attributeFlows_spec [OF composite_stable [OF assms(1)] assms(2)])

text \<open>One pass enriches every process at most once: as long as start times do not change
  during the pass, no pid is passed to \<open>enrichPid\<close> twice, and only positive pids are.\<close>

theorem attribution_enriches_once:
  assumes "\<And>pid x. startTimeForPid opts pid x = st pid"
  shows "let l = snd (snd (attributeFlows flows (Some (log_enrich r)) opts (s, []))) in
    distinct l \<and> (\<forall>pid \<in> set l. 0 < pid)"
  using attribute_pass_log [OF assms, of empty_memo "(s, [])" r flows]
  by (auto simp: attributeFlows_def log_ok_def split: prod.splits)

definition sample_resolver :: "unit ProcessResolver" where
  "sample_resolver = NullProcessResolver\<lparr>rs_resolvePid := \<lambda>_ s. (7, s),
     rs_enrichPid := \<lambda>pid s. (Some (no_process\<lparr>pi_pid := pid, pi_comm := ''nginx''\<rparr>), s)\<rparr>"

theorem attribution_enriches_once_witness:
  "snd (snd (attributeFlows [no_connection, no_connection] (Some (log_enrich sample_resolver))
      \<lparr>wantContainerChain = True, startTimeForPid = (\<lambda>_ _. 5)\<rparr> ((), []))) = [7] \<and>
   distinct (snd (snd (attributeFlows [no_connection, no_connection] (Some (log_enrich sample_resolver))
      \<lparr>wantContainerChain = True, startTimeForPid = (\<lambda>_ _. 5)\<rparr> ((), []))))"
proof
  show "snd (snd (attributeFlows [no_connection, no_connection] (Some (log_enrich sample_resolver))
      \<lparr>wantContainerChain = True, startTimeForPid = (\<lambda>_ _. 5)\<rparr> ((), []))) = [7]"
    by code_simp
  show "distinct (snd (snd (attributeFlows [no_connection, no_connection] (Some (log_enrich sample_resolver))
      \<lparr>wantContainerChain = True, startTimeForPid = (\<lambda>_ _. 5)\<rparr> ((), []))))"
    using attribution_enriches_once [of "\<lparr>wantContainerChain = True, startTimeForPid = (\<lambda>_ _. 5)\<rparr>" "\<lambda>_. 5"
        "[no_connection, no_connection]" sample_resolver "()"]
    by (simp add: Let_def)
qed

text \<open>\<open>off\<close> is a kill switch: with attribution configured off, or with none of the three layers
  enabled, the resolver that is built advertises nothing and no flow of any pass is attributed.\<close>

theorem attribution_off_kill_switch:
  assumes "cfg_eagerness cfg = Off \<or>
    \<not> cfg_processAttribution cfg \<and> \<not> cfg_containerAttribution cfg \<and> \<not> cfg_netnsScan cfg"
  shows "let (r, s') = createProcessResolver sockDiag cgroup netns cfg s in
    rs_capabilities r t = [] \<and> fst (attributeFlows flows (Some r) opts t) = flows"
proof -
  have "createProcessResolver sockDiag cgroup netns cfg s = (NullProcessResolver, s)"
    using assms by (auto simp: createProcessResolver_def NullProcessResolver_def)
  then show ?thesis
    using null_res.attributeFlows_spec [where s = t and cs = flows and opts = opts]
    by (simp add: NullProcessResolver_def attribute_spec_null)
qed

theorem attribution_off_kill_switch_witness:
  "let cfg = \<lparr>cfg_eagerness = Off, cfg_processAttribution = True, cfg_containerAttribution = True,
       cfg_netnsScan = True, cfg_tuning = balancedResolverTuning\<rparr>;
       (r, s') = createProcessResolver sample_resolver sample_resolver sample_resolver cfg ()
   in rs_capabilities r () = [] \<and>
     fst (attributeFlows [no_connection] (Some r) \<lparr>wantContainerChain = True, startTimeForPid = (\<lambda>_ _. 0)\<rparr> ())
       = [no_connection]"
  using attribution_off_kill_switch
    [of "\<lparr>cfg_eagerness = Off, cfg_processAttribution = True, cfg_containerAttribution = True,
       cfg_netnsScan = True, cfg_tuning = balancedResolverTuning\<rparr>" sample_resolver sample_resolver
       sample_resolver "()" "()" "[no_connection]" "\<lparr>wantContainerChain = True, startTimeForPid = (\<lambda>_ _. 0)\<rparr>"]
  by (simp add: Let_def)

end
