(* ===== verification/BoundedCache.thy ===== *)
theory BoundedCache
  imports Prelude
begin

text \<open>
  The contract shared by the time-limited caches of the agent (the birth cache and the cgroup
  cache): a write is found while it is fresh, writing one key never changes what another key finds
  except by losing it, and the number of entries stays below a cap. From the contract alone it
  follows that a cache only ever serves the latest write of a key.
\<close>

locale ttl_cache =
  fixes get :: "'c \<Rightarrow> 'k \<Rightarrow> int \<Rightarrow> 'v option"
    and put :: "'k \<Rightarrow> 'v \<Rightarrow> int \<Rightarrow> 'c \<Rightarrow> 'c"
    and stamp :: "'v \<Rightarrow> int \<Rightarrow> 'v"
    and fresh :: "int \<Rightarrow> int \<Rightarrow> bool"
    and entries :: "'c \<Rightarrow> nat"
    and cap :: nat
    and invar :: "'c \<Rightarrow> bool"
  assumes invar_put: "invar c \<Longrightarrow> invar (put k v t c)"
    and entries_cap: "invar c \<Longrightarrow> entries c \<le> cap"
    and get_put_same: "invar c \<Longrightarrow> get (put k v t c) k now = (if fresh t now then Some (stamp v t) else None)"
    and get_put_other: "invar c \<Longrightarrow> k' \<noteq> k \<Longrightarrow> get (put k v t c) k' now = Some w \<Longrightarrow> get c k' now = Some w"
begin

text \<open>A history of writes, oldest first, and the latest write of a key in it.\<close>

definition write_all :: "('k \<times> 'v \<times> int) list \<Rightarrow> 'c \<Rightarrow> 'c" where
  "write_all evs c = foldl (\<lambda>c (k, v, t). put k v t c) c evs"

lemma write_all_snoc: "write_all (evs @ [(k, v, t)]) c = put k v t (write_all evs c)"
  by (simp add: write_all_def)

lemma write_all_invar: "invar c \<Longrightarrow> invar (write_all evs c)"
  by (induction evs rule: rev_induct) (auto simp: write_all_snoc invar_put write_all_def)

lemma write_all_bounded: "invar c \<Longrightarrow> entries (write_all evs c) \<le> cap"
  by (simp add: entries_cap write_all_invar)

text \<open>Whatever a lookup returns after any history is the latest write of its key, and fresh.\<close>

lemma get_latest:
  assumes "invar c" and "\<And>k now. get c k now = None" and "get (write_all evs c) k now = Some w"
  shows "\<exists>pre v t post. evs = pre @ (k, v, t) # post \<and> k \<notin> fst ` set post \<and> w = stamp v t \<and> fresh t now"
  using assms(3)
proof (induction evs rule: rev_induct)
  case Nil
  then show ?case using assms(2) by (simp add: write_all_def)
next
  case (snoc e evs)
  obtain k' v t where e: "e = (k', v, t)" by (metis prod_cases3)
  have ok: "invar (write_all evs c)" using assms(1) by (rule write_all_invar)
  show ?case
  proof (cases "k = k'")
    case True
    with snoc.prems have "evs @ [e] = evs @ (k, v, t) # [] \<and> w = stamp v t \<and> fresh t now"
      using get_put_same [OF ok] by (auto simp: e write_all_snoc split: if_splits)
    then show ?thesis by fastforce
  next
    case False
    with snoc.prems have "get (write_all evs c) k now = Some w"
      using get_put_other [OF ok] by (auto simp: e write_all_snoc)
    with snoc.IH obtain pre v' t' post where h: "evs = pre @ (k, v', t') # post"
        "k \<notin> fst ` set post" "w = stamp v' t'" "fresh t' now" by blast
    have "evs @ [e] = pre @ (k, v', t') # (post @ [e])" "k \<notin> fst ` set (post @ [e])"
      using h False by (auto simp: e)
    with h(3,4) show ?thesis by blast
  qed
qed

end

end
