(* ===== verification/BirthCache.thy ===== *)
theory BirthCache
  imports Resolver BoundedCache
begin

text \<open>
  The birth cache of \<open>backend/BirthCache.h\<close> (who opened a flow, captured at \<open>connect\<close> or
  \<open>accept\<close>) and the resolver built on it, \<open>backend/BpfBirthResolver.h\<close>. The clock and the
  start-time probe are arguments of the operations that call them; the mutex serialises whole
  operations, which is what the sequential model states.
\<close>

section \<open>The cache\<close>

record BirthKey =
  bk_proto :: L4Proto
  bk_localAddress :: QHostAddress
  bk_localPort :: quint16
  bk_remoteAddress :: QHostAddress
  bk_remotePort :: quint16

definition birthKeyOf :: "Connection \<Rightarrow> BirthKey" where
  "birthKeyOf c = \<lparr>bk_proto = c_proto c, bk_localAddress = ep_address (c_local c),
     bk_localPort = ep_port (c_local c), bk_remoteAddress = ep_address (c_remote c),
     bk_remotePort = ep_port (c_remote c)\<rparr>"

record BirthRecord =
  br_pid :: int
  br_uid :: quint32
  br_comm :: string
  br_direction :: Direction
  br_startTime :: quint64
  br_firstSeenMonoMs :: int
  br_insertedMonoMs :: int

definition br_valid :: "BirthRecord \<Rightarrow> bool" where
  "br_valid r = (0 < br_pid r)"

record BirthCache =
  bc_map :: "(BirthKey, BirthRecord) qhash"
  bc_maxEntries :: int
  bc_ttlMs :: int

definition kDefaultMaxEntries :: int where [cfg_simps]: "kDefaultMaxEntries = 65536"

definition kDefaultTtlMs :: int where [cfg_simps]: "kDefaultTtlMs = 30000"

definition mk_BirthCache :: "int \<Rightarrow> int \<Rightarrow> BirthCache" where
  "mk_BirthCache maxEntries ttlMs = \<lparr>bc_map = [],
     bc_maxEntries = (if 0 < maxEntries then maxEntries else kDefaultMaxEntries),
     bc_ttlMs = (if 0 < ttlMs then ttlMs else kDefaultTtlMs)\<rparr>"

definition bc_insert :: "BirthKey \<Rightarrow> BirthRecord \<Rightarrow> int \<Rightarrow> BirthCache \<Rightarrow> bool \<times> BirthCache" where
  "bc_insert key rec nowMs c =
     (let cleared = (\<not> hcontains (bc_map c) key \<and> bc_maxEntries c \<le> int (hsize (bc_map c)));
          m = (if cleared then [] else bc_map c)
      in (cleared, c\<lparr>bc_map := hinsert key (rec\<lparr>br_insertedMonoMs := nowMs\<rparr>) m\<rparr>))"

definition bc_find :: "BirthCache \<Rightarrow> BirthKey \<Rightarrow> int \<Rightarrow> BirthRecord option" where
  "bc_find c key nowMs =
     (case hfind (bc_map c) key of
        None \<Rightarrow> None
      | Some r \<Rightarrow> if bc_ttlMs c < nowMs - br_insertedMonoMs r then None else Some r)"

definition bc_remove :: "BirthKey \<Rightarrow> BirthCache \<Rightarrow> BirthCache" where
  "bc_remove key c = c\<lparr>bc_map := hremove key (bc_map c)\<rparr>"

definition bc_prune :: "int \<Rightarrow> BirthCache \<Rightarrow> nat \<times> BirthCache" where
  "bc_prune nowMs c =
     (let kept = hretain (\<lambda>_ r. \<not> bc_ttlMs c < nowMs - br_insertedMonoMs r) (bc_map c)
      in (hsize (bc_map c) - hsize kept, c\<lparr>bc_map := kept\<rparr>))"

definition bc_clear :: "BirthCache \<Rightarrow> BirthCache" where
  "bc_clear c = c\<lparr>bc_map := []\<rparr>"

text \<open>Invariant of a cache with a given cap and lifetime.\<close>

definition bc_ok :: "int \<Rightarrow> int \<Rightarrow> BirthCache \<Rightarrow> bool" where
  "bc_ok m ttl c = (hwf (bc_map c) \<and> int (hsize (bc_map c)) \<le> m \<and> 0 < m \<and>
     bc_maxEntries c = m \<and> bc_ttlMs c = ttl)"

lemma mk_BirthCache_ok: "0 < m \<Longrightarrow> 0 < ttl \<Longrightarrow> bc_ok m ttl (mk_BirthCache m ttl)"
  by (simp add: bc_ok_def mk_BirthCache_def)

lemma bc_insert_ok: "bc_ok m ttl c \<Longrightarrow> bc_ok m ttl (snd (bc_insert k r t c))"
  by (auto simp: bc_ok_def bc_insert_def Let_def hsize_insert split: option.splits if_splits)

lemma bc_remove_ok: "bc_ok m ttl c \<Longrightarrow> bc_ok m ttl (bc_remove k c)"
  using hsize_remove_le [of k "bc_map c"] by (auto simp: bc_ok_def bc_remove_def)

lemma bc_prune_ok: "bc_ok m ttl c \<Longrightarrow> bc_ok m ttl (snd (bc_prune t c))"
  by (auto simp: bc_ok_def bc_prune_def Let_def intro: order_trans [OF of_nat_mono [OF length_filter_le]])

interpretation bcache: ttl_cache bc_find "\<lambda>k r t c. snd (bc_insert k r t c)"
  "\<lambda>r t. r\<lparr>br_insertedMonoMs := t\<rparr>" "\<lambda>t now. now - t \<le> ttl" "\<lambda>c. hsize (bc_map c)" "nat m" "bc_ok m ttl"
  for m ttl :: int
proof
  fix c k r t now
  assume c: "bc_ok m ttl c"
  show "bc_ok m ttl (snd (bc_insert k r t c))" using c by (rule bc_insert_ok)
  show "hsize (bc_map c) \<le> nat m" using c by (simp add: bc_ok_def le_nat_iff)
  show "bc_find (snd (bc_insert k r t c)) k now =
      (if now - t \<le> ttl then Some (r\<lparr>br_insertedMonoMs := t\<rparr>) else None)"
    using c by (auto simp: bc_find_def bc_insert_def Let_def bc_ok_def update_conv')
  fix k' w
  assume "k' \<noteq> k" and "bc_find (snd (bc_insert k r t c)) k' now = Some w"
  then show "bc_find c k' now = Some w"
    by (auto simp: bc_find_def bc_insert_def Let_def update_conv' split: if_splits option.splits)
qed

lemma bc_prune_find:
  assumes "hwf (bc_map c)" and "t \<le> now"
  shows "bc_find (snd (bc_prune t c)) k now = bc_find c k now"
  using assms by (auto simp: bc_find_def bc_prune_def Let_def hwf_filter_find split: option.splits)

section \<open>The resolver\<close>

record BpfBirthResolver =
  bb_cache :: BirthCache
  bb_enrichByPid :: "(int, ProcessInfo) qhash"
  bb_loaded :: bool

definition bb_onBirth :: "int \<Rightarrow> BirthKey \<Rightarrow> BirthRecord \<Rightarrow> BpfBirthResolver \<Rightarrow> BpfBirthResolver" where
  "bb_onBirth now key rec s =
     (let s = s\<lparr>bb_cache := snd (bc_insert key rec now (bb_cache s))\<rparr> in
      if br_valid rec
      then (let pi = no_process\<lparr>pi_pid := br_pid rec, pi_comm := br_comm rec, pi_uid := br_uid rec\<rparr>;
                m = hinsert (br_pid rec) pi (bb_enrichByPid s);
                m = (if bc_maxEntries (bb_cache s) < int (hsize m) then [] else m)
            in s\<lparr>bb_enrichByPid := m\<rparr>)
      else s)"

definition bb_setLoaded :: "bool \<Rightarrow> BpfBirthResolver \<Rightarrow> BpfBirthResolver" where
  "bb_setLoaded b s = s\<lparr>bb_loaded := b\<rparr>"

definition bb_capabilities :: "BpfBirthResolver \<Rightarrow> string list" where
  "bb_capabilities s = (if \<not> bb_loaded s then [] else [''process-attribution'', ''birth-attribution''])"

definition bb_resolvePid ::
  "(int \<Rightarrow> quint64) option \<Rightarrow> int \<Rightarrow> Connection \<Rightarrow> BpfBirthResolver \<Rightarrow> int \<times> BpfBirthResolver" where
  "bb_resolvePid startTimeProbe now flow s =
     (if \<not> bb_loaded s then (0, s)
      else
        (case bc_find (bb_cache s) (birthKeyOf flow) now of
           None \<Rightarrow> (0, s)
         | Some rec \<Rightarrow>
             if \<not> br_valid rec then (0, s)
             else
               (case startTimeProbe of
                  None \<Rightarrow> (br_pid rec, s)
                | Some probe \<Rightarrow>
                    (let live = probe (br_pid rec) in
                     if live = 0 \<or> live \<noteq> br_startTime rec
                     then (0, s\<lparr>bb_cache := bc_remove (birthKeyOf flow) (bb_cache s)\<rparr>)
                     else (br_pid rec, s)))))"

definition bb_enrichPid :: "int \<Rightarrow> BpfBirthResolver \<Rightarrow> ProcessInfo option \<times> BpfBirthResolver" where
  "bb_enrichPid pid s =
     (if \<not> bb_loaded s \<or> pid \<le> 0 then (None, s) else (hfind (bb_enrichByPid s) pid, s))"

definition bb_prune :: "int \<Rightarrow> BpfBirthResolver \<Rightarrow> BpfBirthResolver" where
  "bb_prune now s = s\<lparr>bb_cache := snd (bc_prune now (bb_cache s))\<rparr>"

definition birth_resolver :: "(int \<Rightarrow> quint64) option \<Rightarrow> int \<Rightarrow> BpfBirthResolver ProcessResolver" where
  "birth_resolver startTimeProbe now = \<lparr>
     rs_initialize = (\<lambda>s. (bb_loaded s, s)),
     rs_capabilities = bb_capabilities,
     rs_setTuning = (\<lambda>_ s. s),
     rs_requestDeepScan = (\<lambda>s. s),
     rs_resolvePid = bb_resolvePid startTimeProbe now,
     rs_enrichPid = bb_enrichPid,
     rs_resolveContainerForPid = (\<lambda>_ s. (None, s)),
     rs_resolveContainerChainForPid = default_chain (\<lambda>_ s. (None, s))\<rparr>"

text \<open>With the clock and the processes at rest the resolver keeps answering the same, although every
  rejected birth is dropped from the cache on the way.\<close>

definition birth_answers :: "(int \<Rightarrow> quint64) option \<Rightarrow> int \<Rightarrow> BpfBirthResolver \<Rightarrow> Answers" where
  "birth_answers probe now s0 = \<lparr>an_pid = (\<lambda>c. fst (bb_resolvePid probe now c s0)),
     an_enrich = (\<lambda>pid. fst (bb_enrichPid pid s0)), an_container = (\<lambda>_. None), an_chain = (\<lambda>_. [])\<rparr>"

definition birth_quiet :: "(int \<Rightarrow> quint64) option \<Rightarrow> int \<Rightarrow> BpfBirthResolver \<Rightarrow> BpfBirthResolver \<Rightarrow> bool" where
  "birth_quiet probe now s0 s =
     ((\<forall>c. fst (bb_resolvePid probe now c s) = fst (bb_resolvePid probe now c s0)) \<and>
      bb_enrichByPid s = bb_enrichByPid s0 \<and> bb_loaded s = bb_loaded s0)"

lemma bc_find_remove: "bc_find (bc_remove k c) k' now = (if k' = k then None else bc_find c k' now)"
  by (simp add: bc_find_def bc_remove_def delete_conv' split: option.split)

lemma bb_resolvePid_same:
  assumes "bb_resolvePid probe now c s = (p, t)"
  shows "fst (bb_resolvePid probe now d t) = fst (bb_resolvePid probe now d s) \<and>
    bb_enrichByPid t = bb_enrichByPid s \<and> bb_loaded t = bb_loaded s"
proof (cases "t = s")
  case False
  then obtain rec f where f: "probe = Some f" "bc_find (bb_cache s) (birthKeyOf c) now = Some rec"
      "f (br_pid rec) = 0 \<or> f (br_pid rec) \<noteq> br_startTime rec"
      "t = s\<lparr>bb_cache := bc_remove (birthKeyOf c) (bb_cache s)\<rparr>"
    using assms by (auto simp: bb_resolvePid_def Let_def split: if_splits option.splits)
  then show ?thesis
    by (cases "birthKeyOf d = birthKeyOf c")
      (auto simp: bb_resolvePid_def Let_def bc_find_remove split: option.splits)
qed simp

interpretation birth_res: stable_resolver "birth_resolver probe now" "birth_quiet probe now s0"
  "birth_answers probe now s0"
  for probe now s0
proof
  fix s assume s: "birth_quiet probe now s0 s"
  show "p = an_pid (birth_answers probe now s0) c \<and> birth_quiet probe now s0 t"
    if "rs_resolvePid (birth_resolver probe now) c s = (p, t)" for c p t
  proof -
    have r: "bb_resolvePid probe now c s = (p, t)" using that by (simp add: birth_resolver_def)
    then have "p = an_pid (birth_answers probe now s0) c"
      using s by (metis Answers.select_convs(1) birth_answers_def birth_quiet_def fst_conv)
    then show ?thesis
      using bb_resolvePid_same [OF r] s by (simp add: birth_quiet_def)
  qed
qed (auto simp: birth_resolver_def birth_answers_def bb_enrichPid_def birth_quiet_def default_chain_def)

lemma bb_resolvePid_sound:
  assumes "bb_resolvePid (Some probe) now flow s = (pid, t)" and "0 < pid"
  shows "\<exists>rec. bc_find (bb_cache s) (birthKeyOf flow) now = Some rec \<and> br_pid rec = pid \<and>
    probe pid = br_startTime rec \<and> probe pid \<noteq> 0"
  using assms by (auto simp: bb_resolvePid_def Let_def split: if_splits option.splits)

lemma bb_resolvePid_complete:
  assumes "bb_loaded s" and "bc_find (bb_cache s) (birthKeyOf flow) now = Some rec" and "0 < br_pid rec"
    and "probe (br_pid rec) = br_startTime rec" and "br_startTime rec \<noteq> 0"
  shows "bb_resolvePid (Some probe) now flow s = (br_pid rec, s)"
  using assms by (simp add: bb_resolvePid_def br_valid_def)

section \<open>Properties\<close>

text \<open>C39: after any history of births into a fresh cache, the cache holds at most
  its cap of entries, and whatever it returns for a flow is the latest birth recorded for that
  flow, stamped with its insertion time and within its lifetime.\<close>

theorem birth_cache_serves_latest:
  assumes "0 < m" and "0 < ttl"
    and "c = foldl (\<lambda>c (k, r, t). snd (bc_insert k r t c)) (mk_BirthCache m ttl) births"
  shows "int (hsize (bc_map c)) \<le> m \<and>
    (\<forall>k now r. bc_find c k now = Some r \<longrightarrow>
      (\<exists>pre r0 t post. births = pre @ (k, r0, t) # post \<and> k \<notin> fst ` set post \<and>
        r = r0\<lparr>br_insertedMonoMs := t\<rparr> \<and> now - t \<le> ttl))"
proof -
  note ok = mk_BirthCache_ok [OF assms(1,2)]
  have c: "c = bcache.write_all births (mk_BirthCache m ttl)"
    using assms(3) by (simp add: bcache.write_all_def)
  have "bc_find (mk_BirthCache m ttl) k now = None" for k now
    by (simp add: bc_find_def mk_BirthCache_def)
  from bcache.get_latest [OF ok this] show ?thesis
    using bcache.write_all_bounded [OF ok, of births] assms(1) unfolding c by fastforce
qed

definition sample_key :: BirthKey where
  "sample_key = birthKeyOf no_connection"

definition sample_birth :: BirthRecord where
  "sample_birth = \<lparr>br_pid = 42, br_uid = 1000, br_comm = ''curl'', br_direction = Outbound,
     br_startTime = 77, br_firstSeenMonoMs = 5, br_insertedMonoMs = 0\<rparr>"

theorem birth_cache_serves_latest_witness:
  "let c = foldl (\<lambda>c (k, r, t). snd (bc_insert k r t c)) (mk_BirthCache 2 100) [(sample_key, sample_birth, 10)]
   in int (hsize (bc_map c)) \<le> 2 \<and> bc_find c sample_key 50 = Some (sample_birth\<lparr>br_insertedMonoMs := 10\<rparr>)"
  using birth_cache_serves_latest [OF _ _ refl, of 2 100 "[(sample_key, sample_birth, 10)]"]
  by (simp add: Let_def bc_find_def bc_insert_def mk_BirthCache_def)

text \<open>The resolver never attributes a flow through a recycled pid: with a start-time probe, a pid
  it answers belongs to an unexpired birth of that very flow whose recorded start time is the one the
  process has now; and a birth whose process has already exited is never used, but dropped.\<close>

theorem birth_resolver_reuse_guard:
  "(case bb_resolvePid (Some probe) now flow s of (pid, t) \<Rightarrow>
      pid = 0 \<or> (\<exists>rec. bc_find (bb_cache s) (birthKeyOf flow) now = Some rec \<and> br_pid rec = pid \<and>
        0 < pid \<and> probe pid = br_startTime rec \<and> probe pid \<noteq> 0)) \<and>
   (bb_loaded s \<and> bc_find (bb_cache s) (birthKeyOf flow) now = Some r \<and> br_valid r \<and> probe (br_pid r) = 0 \<longrightarrow>
      bb_resolvePid (Some probe) now flow s = (0, s\<lparr>bb_cache := bc_remove (birthKeyOf flow) (bb_cache s)\<rparr>))"
  by (auto simp: bb_resolvePid_def br_valid_def Let_def split: option.splits)

definition sample_births :: BpfBirthResolver where
  "sample_births = bb_onBirth 10 sample_key sample_birth
     \<lparr>bb_cache = mk_BirthCache 2 100, bb_enrichByPid = [], bb_loaded = True\<rparr>"

theorem birth_resolver_reuse_guard_witness:
  "bb_loaded sample_births \<and>
   bc_find (bb_cache sample_births) (birthKeyOf no_connection) 50 = Some (sample_birth\<lparr>br_insertedMonoMs := 10\<rparr>) \<and>
   fst (bb_resolvePid (Some (\<lambda>_. 77)) 50 no_connection sample_births) = 42 \<and>
   fst (bb_resolvePid (Some (\<lambda>_. 0)) 50 no_connection sample_births) = 0"
proof -
  have f: "bb_loaded sample_births"
    "bc_find (bb_cache sample_births) (birthKeyOf no_connection) 50 = Some (sample_birth\<lparr>br_insertedMonoMs := 10\<rparr>)"
    by (simp_all add: sample_births_def bb_onBirth_def bc_find_def bc_insert_def mk_BirthCache_def sample_key_def
        sample_birth_def br_valid_def Let_def)
  have "fst (bb_resolvePid (Some (\<lambda>_. 0)) 50 no_connection sample_births) = 0"
    using birth_resolver_reuse_guard [where probe = "\<lambda>_. 0" and now = 50 and flow = no_connection and
        s = sample_births and r = "sample_birth\<lparr>br_insertedMonoMs := 10\<rparr>"] f
    by (simp add: br_valid_def sample_birth_def)
  with f show ?thesis
    by (simp add: bb_resolvePid_def br_valid_def sample_birth_def)
qed

text \<open>The memo of the attribution pass on a chain of this resolver alone.\<close>

theorem attributeFlows_equals_unmemoised_witness:
  "list_all2 (\<lambda>r a. stable_resolver r (birth_quiet None 50 sample_births) a)
     [birth_resolver None 50] [birth_answers None 50 sample_births] \<and>
   birth_quiet None 50 sample_births sample_births \<and>
   map (\<lambda>c. pi_comm (c_process c)) (fst (attributeFlows [no_connection, no_connection]
     (Some (CompositeResolver [birth_resolver None 50]))
     \<lparr>wantContainerChain = False, startTimeForPid = (\<lambda>_ _. 77)\<rparr> sample_births)) = [''curl'', ''curl'']"
proof -
  have st: "list_all2 (\<lambda>r a. stable_resolver r (birth_quiet None 50 sample_births) a)
     [birth_resolver None 50] [birth_answers None 50 sample_births]"
    using birth_res.stable_resolver_axioms by simp
  moreover have q: "birth_quiet None 50 sample_births sample_births" by (simp add: birth_quiet_def)
  moreover have "pi_comm (c_process (attribute_spec (composite_answers [birth_answers None 50 sample_births])
      False no_connection)) = ''curl''"
    by code_simp
  ultimately show ?thesis
    by (simp add: attributeFlows_equals_unmemoised [OF st q])
qed

end
