(* ===== verification/TopK.thy ===== *)
theory TopK
  imports Prelude
begin

text \<open>
  Keeping the heaviest \<open>n\<close> elements of a list: the contract of the code's partial sorts (the deep
  attribution queue, the snapshot cap of the agent) and of its bounded heap (the conntrack dump),
  and what follows from it. The kept part carries at least the total weight of any other choice
  of at most \<open>n\<close> elements.
\<close>

lemma sum_mset_const_bound:
  fixes f :: "'a \<Rightarrow> nat"
  assumes "\<And>x. x \<in># A \<Longrightarrow> f x \<le> t" and "\<And>y. y \<in># B \<Longrightarrow> t \<le> f y" and "size A \<le> size B"
  shows "(\<Sum>x\<in>#A. f x) \<le> (\<Sum>y\<in>#B. f y)"
proof -
  have "(\<Sum>x\<in>#A. f x) \<le> size A * t" using assms(1)
    by (induction A) (auto simp: add_mono)
  also have "\<dots> \<le> size B * t" using assms(3) by simp
  also have "\<dots> \<le> (\<Sum>y\<in>#B. f y)" using assms(2)
    by (induction B) (auto simp: add_mono)
  finally show ?thesis .
qed

locale top_k =
  fixes w :: "'a \<Rightarrow> nat" and kept :: "nat \<Rightarrow> 'a list \<Rightarrow> 'a list" and dropped :: "nat \<Rightarrow> 'a list \<Rightarrow> 'a list"
  assumes split_mset: "mset (kept n xs) + mset (dropped n xs) = mset xs"
    and kept_length: "length (kept n xs) = min n (length xs)"
    and kept_heavier: "x \<in> set (kept n xs) \<Longrightarrow> y \<in> set (dropped n xs) \<Longrightarrow> w y \<le> w x"
begin

lemma kept_subset: "set (kept n xs) \<subseteq> set xs"
  using split_mset [of n xs] by (metis mset_subset_eq_add_left set_mset_mono set_mset_mset)

lemma kept_distinct: "distinct (map f xs) \<Longrightarrow> distinct (map f (kept n xs @ dropped n xs))"
proof -
  have "mset (map f (kept n xs @ dropped n xs)) = mset (map f xs)"
    using split_mset [of n xs] by (simp flip: image_mset_union)
  then show "distinct (map f xs) \<Longrightarrow> distinct (map f (kept n xs @ dropped n xs))"
    using mset_eq_imp_distinct_iff by blast
qed

lemma threshold: "\<exists>t. (\<forall>x\<in>set (kept n xs). t \<le> w x) \<and> (\<forall>y\<in>set (dropped n xs). w y \<le> t)"
proof (cases "dropped n xs = []")
  case False
  then obtain y where y: "y \<in> set (dropped n xs)" "w y = Max (w ` set (dropped n xs))"
    by (metis (no_types) Max_in finite_imageI finite_set image_iff image_is_empty set_empty)
  then have "\<forall>z\<in>set (dropped n xs). w z \<le> w y" by simp
  with y kept_heavier show ?thesis by blast
qed auto

text \<open>No other choice of at most \<open>n\<close> elements weighs more.\<close>

lemma kept_maximal:
  assumes "M \<subseteq># mset xs" and "size M \<le> n"
  shows "(\<Sum>x\<in>#M. w x) \<le> (\<Sum>x\<leftarrow>kept n xs. w x)"
proof -
  let ?S = "mset (kept n xs)"
  have sm: "M - ?S \<subseteq># mset (dropped n xs)"
    using assms(1) split_mset [of n xs] by (metis add.commute subset_eq_diff_conv)
  have split: "M = (M \<inter># ?S) + (M - ?S)" "?S = (M \<inter># ?S) + (?S - M)"
    by (rule multiset_eqI; simp)+
  have "size M \<le> size ?S"
    using assms size_mset_mono [OF assms(1)] by (simp add: kept_length)
  moreover have "size M = size (M \<inter># ?S) + size (M - ?S)" "size ?S = size (M \<inter># ?S) + size (?S - M)"
    using split by (metis size_union)+
  ultimately have le: "size (M - ?S) \<le> size (?S - M)" by linarith
  obtain t where t: "\<forall>x\<in>set (kept n xs). t \<le> w x" "\<forall>y\<in>set (dropped n xs). w y \<le> t"
    using threshold by blast
  have "(\<Sum>x\<in>#M - ?S. w x) \<le> (\<Sum>x\<in>#?S - M. w x)"
  proof (rule sum_mset_const_bound [OF _ _ le])
    show "w x \<le> t" if "x \<in># M - ?S" for x
      using mset_subset_eqD [OF sm that] t(2) by simp
    show "t \<le> w y" if "y \<in># ?S - M" for y
      using in_diffD [OF that] t(1) by simp
  qed
  with split have "(\<Sum>x\<in>#M. w x) \<le> (\<Sum>x\<in>#?S. w x)"
    by (metis add_left_mono image_mset_union sum_mset.union)
  then show ?thesis by (simp flip: mset_map add: sum_mset_sum_list)
qed

end

text \<open>The prefix and the rest of a descending sort, as \<open>std::partial_sort\<close> leaves them.\<close>

definition loudest :: "('a \<Rightarrow> nat) \<Rightarrow> nat \<Rightarrow> 'a list \<Rightarrow> 'a list" where
  "loudest w n xs = take n (sort_desc w xs)"

definition quietest :: "('a \<Rightarrow> nat) \<Rightarrow> nat \<Rightarrow> 'a list \<Rightarrow> 'a list" where
  "quietest w n xs = drop n (sort_desc w xs)"

interpretation psort: top_k w "loudest w" "quietest w"
  for w :: "'a \<Rightarrow> nat"
proof
  fix n and xs :: "'a list"
  show "mset (loudest w n xs) + mset (quietest w n xs) = mset xs"
    by (metis append_take_drop_id loudest_def mset_append mset_sort_desc quietest_def)
  show "length (loudest w n xs) = min n (length xs)" by (simp add: loudest_def)
  show "w y \<le> w x" if "x \<in> set (loudest w n xs)" "y \<in> set (quietest w n xs)" for x y
    using that unfolding loudest_def quietest_def by (rule sort_desc_take_drop)
qed

lemma loudest_sorted: "sorted_wrt (\<ge>) (map w (loudest w n xs))"
  unfolding loudest_def take_map [symmetric] by (rule sorted_wrt_take [OF sort_desc_sorted])

section \<open>Sorting with a comparator\<close>

text \<open>A sort driven by a C++ comparator \<open>gt\<close> ("goes first"), and the prefix \<open>std::partial_sort\<close>
  delivers. For a comparator that compares weights it meets the same contract.\<close>

definition partial_sort :: "('a \<Rightarrow> 'a \<Rightarrow> bool) \<Rightarrow> nat \<Rightarrow> 'a list \<Rightarrow> 'a list" where
  "partial_sort gt n xs = take n (sort_by gt xs)"

lemma sort_by_top_k:
  assumes "\<And>a b. gt a b \<longleftrightarrow> (w b :: nat) < w a"
  shows "top_k w (partial_sort gt) (\<lambda>n xs. drop n (sort_by gt xs))"
proof
  fix n xs
  show "mset (partial_sort gt n xs) + mset (drop n (sort_by gt xs)) = mset xs"
    by (metis append_take_drop_id mset_append mset_sort_by partial_sort_def)
  show "length (partial_sort gt n xs) = min n (length xs)" by (simp add: partial_sort_def)
  have "sorted_wrt (\<lambda>a b. w b \<le> w a) (take n (sort_by gt xs) @ drop n (sort_by gt xs))"
    using sort_by_sorted [OF weak_order_key(2), of w xs] by (simp add: assms [abs_def] not_less)
  then show "w y \<le> w x" if "x \<in> set (partial_sort gt n xs)" "y \<in> set (drop n (sort_by gt xs))" for x y
    using that by (simp only: partial_sort_def sorted_wrt_append)
qed

end
