(* ===== verification/DeepQueue.thy ===== *)
theory DeepQueue
  imports Resolver TopK
begin

text \<open>
  Deferred attribution: the request and update types of \<open>backend/DeepAttribution.h\<close>, the bounded
  deduplicating priority queue of \<open>backend/DeepAttributionQueue.h\<close> and the worker of
  \<open>backend/ResolverDeepWorker.cpp\<close>. The coalescing timer is its interval while it runs; a tick is
  one call of \<open>process\<close>.
\<close>

section \<open>Requests and updates\<close>

record AttributionFlowKey =
  fk_proto :: L4Proto
  fk_localAddress :: QHostAddress
  fk_localPort :: quint16
  fk_remoteAddress :: QHostAddress
  fk_remotePort :: quint16
  fk_ifIndex :: quint32
  fk_direction :: Direction

definition keyOf :: "Connection \<Rightarrow> AttributionFlowKey" where
  "keyOf c = \<lparr>fk_proto = c_proto c, fk_localAddress = ep_address (c_local c),
     fk_localPort = ep_port (c_local c), fk_remoteAddress = ep_address (c_remote c),
     fk_remotePort = ep_port (c_remote c), fk_ifIndex = c_ifIndex c, fk_direction = c_direction c\<rparr>"

record DeepAttributionRequest =
  rq_key :: AttributionFlowKey
  rq_flow :: Connection
  rq_generation :: quint64
  rq_monotonicMsQueued :: quint64
  rq_wantContainerChain :: bool
  rq_attempts :: int

record DeepAttributionUpdate =
  up_key :: AttributionFlowKey
  up_generation :: quint64
  up_process :: ProcessInfo
  up_container :: ContainerInfo
  up_chain :: "ContainerInfo list"
  up_reason :: AttributionReason

section \<open>The queue\<close>

record DeepAttributionQueue =
  dq_byKey :: "(AttributionFlowKey, DeepAttributionRequest) qhash"
  dq_cap :: int
  dq_warnedOverflow :: bool

text \<open>The sum wraps around at 64 bits.\<close>

definition totalBytes :: "DeepAttributionRequest \<Rightarrow> quint64" where
  "totalBytes r = c_rxBytes (rq_flow r) + c_txBytes (rq_flow r)"

abbreviation priority :: "DeepAttributionRequest \<Rightarrow> nat" where
  "priority r \<equiv> unat (totalBytes r)"

definition warnOnce :: "nat \<Rightarrow> DeepAttributionQueue \<Rightarrow> DeepAttributionQueue" where
  "warnOnce dropped q = (if dropped \<le> 0 \<or> dq_warnedOverflow q then q else q\<lparr>dq_warnedOverflow := True\<rparr>)"

definition remove_requests :: "DeepAttributionRequest list \<Rightarrow> DeepAttributionQueue \<Rightarrow> DeepAttributionQueue" where
  "remove_requests rs q = q\<lparr>dq_byKey := fold (\<lambda>r. hremove (rq_key r)) rs (dq_byKey q)\<rparr>"

definition enforceCap :: "DeepAttributionQueue \<Rightarrow> nat \<times> DeepAttributionQueue" where
  "enforceCap q =
     (let n = hsize (dq_byKey q) in
      if dq_cap q \<le> 0 then (n, if 0 < n then warnOnce n (q\<lparr>dq_byKey := []\<rparr>) else q)
      else if int n \<le> dq_cap q then (0, q)
      else
        (let all = map snd (dq_byKey q); cap = nat (dq_cap q); dropped = n - cap
         in (dropped, warnOnce dropped (remove_requests (quietest priority cap all) q))))"

definition mk_queue :: "int \<Rightarrow> DeepAttributionQueue" where
  "mk_queue capacity = \<lparr>dq_byKey = [], dq_cap = capacity, dq_warnedOverflow = False\<rparr>"

definition setCapacity :: "int \<Rightarrow> DeepAttributionQueue \<Rightarrow> DeepAttributionQueue" where
  "setCapacity c q = snd (enforceCap (q\<lparr>dq_cap := if 0 < c then c else 0\<rparr>))"

definition merge_request :: "DeepAttributionRequest option \<Rightarrow> DeepAttributionRequest \<Rightarrow> DeepAttributionRequest" where
  "merge_request old r =
     (case old of
        None \<Rightarrow> r
      | Some o' \<Rightarrow> r\<lparr>rq_generation := max (rq_generation o') (rq_generation r),
                     rq_attempts := max (rq_attempts o') (rq_attempts r)\<rparr>)"

definition merge_into :: "DeepAttributionRequest \<Rightarrow> DeepAttributionQueue \<Rightarrow> DeepAttributionQueue" where
  "merge_into r q = q\<lparr>dq_byKey :=
     hinsert (rq_key r) (merge_request (hfind (dq_byKey q) (rq_key r)) r) (dq_byKey q)\<rparr>"

definition enqueue :: "DeepAttributionRequest list \<Rightarrow> DeepAttributionQueue \<Rightarrow> nat \<times> DeepAttributionQueue" where
  "enqueue reqs q = enforceCap (fold merge_into reqs q)"

definition dequeue :: "int \<Rightarrow> DeepAttributionQueue \<Rightarrow> DeepAttributionRequest list \<times> DeepAttributionQueue" where
  "dequeue batch q =
     (if batch \<le> 0 \<or> dq_byKey q = [] then ([], q)
      else
        (let all = map snd (dq_byKey q); out = loudest priority (nat batch) all
         in (out, remove_requests out q)))"

definition queue_clear :: "DeepAttributionQueue \<Rightarrow> DeepAttributionQueue" where
  "queue_clear q = q\<lparr>dq_byKey := []\<rparr>"

section \<open>Facts about the queue\<close>

abbreviation pending :: "DeepAttributionQueue \<Rightarrow> DeepAttributionRequest list" where
  "pending q \<equiv> map snd (dq_byKey q)"

text \<open>Every entry sits under its own key, once, and there are no more than the capacity.\<close>

definition keyed :: "(AttributionFlowKey, DeepAttributionRequest) qhash \<Rightarrow> bool" where
  "keyed m = (hwf m \<and> (\<forall>(k, r) \<in> set m. rq_key r = k))"

definition dq_ok :: "DeepAttributionQueue \<Rightarrow> bool" where
  "dq_ok q = (keyed (dq_byKey q) \<and> int (hsize (dq_byKey q)) \<le> max 0 (dq_cap q))"

lemma keyed_insert:
  assumes "keyed m" and "rq_key r = k" shows "keyed (hinsert k r m)"
proof -
  have wf: "hwf (hinsert k r m)" using assms by (simp add: keyed_def)
  have "rq_key v = k'" if "(k', v) \<in> set (hinsert k r m)" for k' v
    using hwf_find [OF wf that] assms by (auto simp: update_conv' keyed_def split: if_splits dest!: hfind_in)
  with wf show ?thesis by (auto simp: keyed_def)
qed

lemma keyed_keys: "keyed m \<Longrightarrow> map fst m = map rq_key (map snd m)"
  by (auto simp: keyed_def)

lemma keyed_distinct: "keyed m \<Longrightarrow> distinct (map rq_key (map snd m))"
  by (metis hwf_def keyed_def keyed_keys)

lemma remove_all_filter:
  "fold (\<lambda>r. hremove (f r)) rs m = filter (\<lambda>(k, v). k \<notin> f ` set rs) m"
proof (induction rs arbitrary: m)
  case (Cons r rs)
  have "hremove (f r) m = filter (\<lambda>(k, v). k \<noteq> f r) m"
    unfolding AList.delete_eq by (rule filter_cong) auto
  with Cons show ?case by (auto simp: filter_filter intro!: filter_cong)
qed simp

lemma keyed_filter: "keyed m \<Longrightarrow> keyed (filter P m)"
  by (auto simp: keyed_def)

lemma keyed_remove: "keyed m \<Longrightarrow> keyed (fold (\<lambda>r. hremove (f r)) rs m)"
  by (simp add: remove_all_filter keyed_filter)

text \<open>Splitting the entries in two and removing one part leaves the other.\<close>

lemma remove_part:
  assumes "keyed m" and "mset xs + mset ys = mset (map snd m)"
  shows "mset (map snd (fold (\<lambda>r. hremove (rq_key r)) xs m)) = mset ys"
proof -
  have ms: "mset (map rq_key (xs @ ys)) = mset (map rq_key (map snd m))"
    by (metis assms(2) mset_append mset_map)
  then have "distinct (map rq_key (xs @ ys))"
    using keyed_distinct [OF assms(1)] mset_eq_imp_distinct_iff by blast
  then have sep: "rq_key x \<noteq> rq_key y" if "x \<in> set xs" "y \<in> set ys" for x y
    using that by auto
  have "map snd (fold (\<lambda>r. hremove (rq_key r)) xs m) = filter (\<lambda>v. rq_key v \<notin> rq_key ` set xs) (map snd m)"
    using assms(1) by (induction m) (auto simp: remove_all_filter keyed_def hwf_def)
  then have "mset (map snd (fold (\<lambda>r. hremove (rq_key r)) xs m)) =
      filter_mset (\<lambda>v. rq_key v \<notin> rq_key ` set xs) (mset xs + mset ys)"
    using assms(2) by (metis mset_filter)
  also have "\<dots> = mset ys"
  proof -
    have "filter (\<lambda>v. rq_key v \<notin> rq_key ` set xs) xs = []" by (auto simp: filter_empty_conv)
    moreover have "filter (\<lambda>v. rq_key v \<notin> rq_key ` set xs) ys = ys"
      using sep by (intro filter_True) fastforce
    ultimately show ?thesis by (metis filter_union_mset mset_filter mset.simps(1) add_0)
  qed
  finally show ?thesis .
qed

lemma warnOnce_sel [simp]: "dq_byKey (warnOnce n q) = dq_byKey q" "dq_cap (warnOnce n q) = dq_cap q"
  by (simp_all add: warnOnce_def)

lemma remove_requests_sel [simp]:
  "dq_byKey (remove_requests rs q) = fold (\<lambda>r. hremove (rq_key r)) rs (dq_byKey q)"
  "dq_cap (remove_requests rs q) = dq_cap q"
  by (simp_all add: remove_requests_def)

text \<open>What \<open>enforceCap\<close> keeps: the loudest entries, up to the capacity.\<close>

lemma enforceCap_kept:
  assumes "keyed (dq_byKey q)" and "enforceCap q = (n, q')"
  shows "mset (pending q') = mset (loudest priority (nat (dq_cap q)) (pending q)) \<and>
    n = length (pending q) - nat (dq_cap q) \<and> dq_cap q' = dq_cap q \<and> keyed (dq_byKey q')"
proof -
  let ?k = "nat (dq_cap q)" and ?all = "pending q"
  consider "dq_cap q \<le> 0" | "0 < dq_cap q" "int (length ?all) \<le> dq_cap q"
    | "0 < dq_cap q" "dq_cap q < int (length ?all)" by linarith
  then show ?thesis
  proof cases
    case 1
    then show ?thesis using assms by (auto simp: enforceCap_def Let_def loudest_def keyed_def split: if_splits)
  next
    case 2
    then have "n = 0" "q' = q" using assms(2) by (auto simp: enforceCap_def Let_def)
    moreover have "loudest priority ?k ?all = sort_desc priority ?all" using 2 by (simp add: loudest_def)
    ultimately show ?thesis using 2 assms(1) by simp
  next
    case 3
    then have q': "q' = warnOnce n (remove_requests (quietest priority ?k ?all) q)" "n = length ?all - ?k"
      using assms(2) by (auto simp: enforceCap_def Let_def)
    have "mset (quietest priority ?k ?all) + mset (loudest priority ?k ?all) = mset ?all"
      using psort.split_mset [of priority ?k ?all] by (simp add: add.commute)
    from remove_part [OF assms(1) this] show ?thesis
      using q' assms(1) by (simp add: keyed_remove)
  qed
qed

lemma enforceCap_ok: "keyed (dq_byKey q) \<Longrightarrow> dq_ok (snd (enforceCap q))"
proof -
  assume k: "keyed (dq_byKey q)"
  obtain n q' where e: "enforceCap q = (n, q')" by fastforce
  note f = enforceCap_kept [OF k e]
  have "length (pending q') = length (loudest priority (nat (dq_cap q)) (pending q))"
    using f by (metis size_mset)
  then show ?thesis
    using f e by (simp add: dq_ok_def psort.kept_length)
qed

lemma merge_key [simp]: "rq_key (merge_request old r) = rq_key r"
  by (simp add: merge_request_def split: option.splits)

lemma keyed_merge_all:
  "keyed (dq_byKey q) \<Longrightarrow> keyed (dq_byKey (fold merge_into reqs q))"
  by (induction reqs arbitrary: q) (simp_all add: keyed_insert merge_into_def)

lemma enqueue_ok: "dq_ok q \<Longrightarrow> dq_ok (snd (enqueue reqs q))"
  unfolding enqueue_def by (intro enforceCap_ok keyed_merge_all) (simp add: dq_ok_def)

lemma setCapacity_ok: "dq_ok q \<Longrightarrow> dq_ok (setCapacity c q)"
  unfolding setCapacity_def by (intro enforceCap_ok) (simp add: dq_ok_def)

lemma dequeue_split:
  assumes "keyed (dq_byKey q)" and "dequeue batch q = (out, q')"
  shows "out = loudest priority (nat batch) (pending q) \<and>
    mset (pending q') = mset (quietest priority (nat batch) (pending q)) \<and>
    keyed (dq_byKey q') \<and> dq_cap q' = dq_cap q"
proof (cases "batch \<le> 0 \<or> dq_byKey q = []")
  case True
  then show ?thesis using assms by (auto simp: dequeue_def loudest_def quietest_def sort_desc_def)
next
  case False
  then have "out = loudest priority (nat batch) (pending q)" "q' = remove_requests out q"
    using assms(2) by (auto simp: dequeue_def Let_def)
  with remove_part [OF assms(1) psort.split_mset] assms(1) show ?thesis
    by (simp add: keyed_remove)
qed

lemma dequeue_ok: "dq_ok q \<Longrightarrow> dq_ok (snd (dequeue batch q))"
proof -
  assume q: "dq_ok q"
  obtain out q' where d: "dequeue batch q = (out, q')" by fastforce
  have f: "mset (pending q') = mset (quietest priority (nat batch) (pending q))" "keyed (dq_byKey q')" "dq_cap q' = dq_cap q"
    using dequeue_split [OF _ d] q by (auto simp: dq_ok_def)
  have "length (pending q') = length (quietest priority (nat batch) (pending q))"
    using f(1) by (metis size_mset)
  then show ?thesis using f q d by (simp add: dq_ok_def quietest_def) linarith
qed

section \<open>The worker\<close>

record ResolverDeepWorker =
  dw_queue :: DeepAttributionQueue
  dw_timer :: "int option"
  dw_active :: bool
  dw_batchMax :: int
  dw_maxAttempts :: int
  dw_coalesceMs :: int
  dw_demandNetnsScan :: bool

definition mk_worker :: ResolverDeepWorker where
  "mk_worker = \<lparr>dw_queue = mk_queue 8192, dw_timer = None, dw_active = True, dw_batchMax = 256,
     dw_maxAttempts = 12, dw_coalesceMs = 100, dw_demandNetnsScan = False\<rparr>"

definition worker_setTuning :: "ResolverTuning \<Rightarrow> ResolverDeepWorker \<Rightarrow> ResolverDeepWorker" where
  "worker_setTuning tuning w =
     (let w = w\<lparr>dw_batchMax := if 0 < deepBatchMax tuning then deepBatchMax tuning else 1,
               dw_maxAttempts := if 0 < deepMaxAttempts tuning then deepMaxAttempts tuning else 1,
               dw_coalesceMs := if 0 < deepCoalesceMs tuning then deepCoalesceMs tuning else 50,
               dw_demandNetnsScan := deepDemandNetnsScan tuning,
               dw_queue := setCapacity (deepQueueMax tuning) (dw_queue w)\<rparr>
      in if dw_timer w \<noteq> None then w\<lparr>dw_timer := Some (dw_coalesceMs w)\<rparr> else w)"

definition ensureRunning :: "ResolverDeepWorker \<Rightarrow> ResolverDeepWorker" where
  "ensureRunning w =
     (if dw_timer w = None \<and> dq_byKey (dw_queue w) \<noteq> [] then w\<lparr>dw_timer := Some (dw_coalesceMs w)\<rparr> else w)"

definition worker_enqueue :: "DeepAttributionRequest list \<Rightarrow> ResolverDeepWorker \<Rightarrow> ResolverDeepWorker" where
  "worker_enqueue reqs w =
     (if \<not> dw_active w \<or> reqs = [] then w
      else ensureRunning (w\<lparr>dw_queue := snd (enqueue reqs (dw_queue w))\<rparr>))"

definition worker_clear :: "ResolverDeepWorker \<Rightarrow> ResolverDeepWorker" where
  "worker_clear w = w\<lparr>dw_queue := queue_clear (dw_queue w), dw_timer := None\<rparr>"

definition worker_setActive :: "bool \<Rightarrow> ResolverDeepWorker \<Rightarrow> ResolverDeepWorker" where
  "worker_setActive active w =
     (let w = w\<lparr>dw_active := active\<rparr> in if \<not> active then worker_clear w else w)"

text \<open>The outcome of one request of a batch: a refinement, a retry with one more attempt, or nothing
  when it has aged out. \<open>st\<close> is the start-time reader \<open>attributeFlows\<close> falls back to.\<close>

definition improved :: "Connection \<Rightarrow> Connection \<Rightarrow> bool" where
  "improved flow got =
     ((pi_valid (c_process got) \<and> \<not> pi_valid (c_process flow)) \<or>
      (ct_valid (c_container got) \<and> \<not> ct_valid (c_container flow)) \<or>
      (c_chain got \<noteq> [] \<and> c_chain flow = []))"

definition process_request ::
  "'s ProcessResolver \<Rightarrow> (int \<Rightarrow> 's \<Rightarrow> quint64) \<Rightarrow> int \<Rightarrow> DeepAttributionRequest
    \<Rightarrow> DeepAttributionUpdate list \<times> DeepAttributionRequest list \<times> 's
    \<Rightarrow> DeepAttributionUpdate list \<times> DeepAttributionRequest list \<times> 's" where
  "process_request r st maxAttempts req x =
     (let (updates, retry, s) = x;
          (one, s) = attributeFlows [rq_flow req] (Some r)
            \<lparr>wantContainerChain = rq_wantContainerChain req, startTimeForPid = st\<rparr> s;
          got = hd one
      in if improved (rq_flow req) got
         then (updates @ [\<lparr>up_key = rq_key req, up_generation = rq_generation req,
                 up_process = c_process got, up_container = c_container got, up_chain = c_chain got,
                 up_reason = (if pi_valid (c_process got) then Resolved else c_reason (rq_flow req))\<rparr>],
               retry, s)
         else if rq_attempts req + 1 < maxAttempts
         then (updates, retry @ [req\<lparr>rq_attempts := rq_attempts req + 1\<rparr>], s)
         else (updates, retry, s))"

text \<open>One timer tick: the new worker, the emitted refinements and the resolver's state.\<close>

definition worker_process ::
  "'s ProcessResolver option \<Rightarrow> (int \<Rightarrow> 's \<Rightarrow> quint64) \<Rightarrow> ResolverDeepWorker \<Rightarrow> 's
    \<Rightarrow> ResolverDeepWorker \<times> DeepAttributionUpdate list \<times> 's" where
  "worker_process resolver st w s =
     (case resolver of
        None \<Rightarrow> (worker_clear w, [], s)
      | Some r \<Rightarrow>
          if \<not> dw_active w then (worker_clear w, [], s)
          else
            (let (batch, q) = dequeue (dw_batchMax w) (dw_queue w);
                 (updates, retry, s) = fold (process_request r st (dw_maxAttempts w)) batch ([], [], s);
                 q = (if retry \<noteq> [] then snd (enqueue retry q) else q);
                 s = (if retry \<noteq> [] \<and> dw_demandNetnsScan w then rs_requestDeepScan r s else s);
                 w = w\<lparr>dw_queue := q\<rparr>
             in (if dq_byKey q = [] then w\<lparr>dw_timer := None\<rparr> else w, updates, s)))"

section \<open>Ageing and draining\<close>

text \<open>How many more ticks a request can survive.\<close>

definition lifetime :: "int \<Rightarrow> DeepAttributionRequest \<Rightarrow> nat" where
  "lifetime maxAttempts r = nat (max 1 (maxAttempts - rq_attempts r))"

definition total_lifetime :: "int \<Rightarrow> DeepAttributionRequest list \<Rightarrow> nat" where
  "total_lifetime maxAttempts rs = (\<Sum>r\<leftarrow>rs. lifetime maxAttempts r)"

lemma total_lifetime_mset: "mset xs = mset ys \<Longrightarrow> total_lifetime n xs = total_lifetime n ys"
  unfolding total_lifetime_def by (metis mset_map sum_mset_sum_list)

lemma total_lifetime_append [simp]: "total_lifetime n (xs @ ys) = total_lifetime n xs + total_lifetime n ys"
  by (simp add: total_lifetime_def)

lemma total_lifetime_submset: "mset xs \<subseteq># mset ys \<Longrightarrow> total_lifetime n xs \<le> total_lifetime n ys"
proof -
  assume "mset xs \<subseteq># mset ys"
  then have "image_mset (lifetime n) (mset xs) \<subseteq># image_mset (lifetime n) (mset ys)"
    by (rule image_mset_subseteq_mono)
  then show ?thesis
    unfolding total_lifetime_def by (metis mset_map sum_mset_sum_list le_add1 subset_mset.le_iff_add sum_mset.union)
qed

lemma total_lifetime_bound:
  assumes "\<And>r. r \<in> set rs \<Longrightarrow> 0 \<le> rq_attempts r" and "1 \<le> n"
  shows "total_lifetime n rs \<le> length rs * nat n"
  using assms(1)
proof (induction rs)
  case (Cons r rs)
  have "lifetime n r \<le> nat n" using Cons.prems [of r] assms(2) by (simp add: lifetime_def)
  with Cons show ?case by (simp add: total_lifetime_def add_mono)
qed (simp add: total_lifetime_def)

lemma process_requests_age:
  "fold (process_request r st n) batch (u, rt, s) = (u', rt', s') \<Longrightarrow>
   \<exists>new. rt' = rt @ new \<and> set (map rq_key new) \<subseteq> set (map rq_key batch) \<and>
     (distinct (map rq_key batch) \<longrightarrow> distinct (map rq_key new)) \<and>
     total_lifetime n new + length batch \<le> total_lifetime n batch"
proof (induction batch arbitrary: u rt s)
  case Nil
  then show ?case by (intro exI [of _ "[]"]) (simp add: total_lifetime_def)
next
  case (Cons q batch)
  obtain u1 rt1 s1 where p: "process_request r st n q (u, rt, s) = (u1, rt1, s1)" by (metis prod_cases3)
  let ?again = "q\<lparr>rq_attempts := rq_attempts q + 1\<rparr>"
  have "rt1 = rt \<or> rt1 = rt @ [?again] \<and> rq_attempts q + 1 < n"
    using p by (auto simp: process_request_def Let_def split: if_splits prod.splits)
  then obtain hd' where h: "rt1 = rt @ hd'" "set (map rq_key hd') \<subseteq> {rq_key q}" "distinct (map rq_key hd')"
      "total_lifetime n hd' + 1 \<le> lifetime n q"
    by (elim disjE) (auto simp: total_lifetime_def lifetime_def intro!: that [of "[]"] that [of "[?again]"])
  obtain new where n: "rt' = rt1 @ new" "set (map rq_key new) \<subseteq> set (map rq_key batch)"
      "distinct (map rq_key batch) \<longrightarrow> distinct (map rq_key new)"
      "total_lifetime n new + length batch \<le> total_lifetime n batch"
    using Cons.IH [of u1 rt1 s1] Cons.prems p by auto
  show ?case
  proof (intro exI [of _ "hd' @ new"] conjI impI)
    show "total_lifetime n (hd' @ new) + length (q # batch) \<le> total_lifetime n (q # batch)"
      using h(4) n(4) by (simp add: total_lifetime_def)
    assume "distinct (map rq_key (q # batch))"
    then have "distinct (map rq_key new)" "rq_key q \<notin> set (map rq_key new)"
      using n(2,3) by auto
    moreover have "set (map rq_key hd') \<inter> set (map rq_key new) = {}"
      using h(2) calculation(2) by blast
    ultimately show "distinct (map rq_key (hd' @ new))" using h(3) by simp
  qed (use h n in auto)
qed

text \<open>Retried requests go back under keys the queue no longer has, so nothing is merged.\<close>

lemma merge_fresh:
  assumes "distinct (map rq_key rs)" and "set (map rq_key rs) \<inter> fst ` set (dq_byKey q) = {}"
  shows "dq_byKey (fold merge_into rs q)
    = dq_byKey q @ map (\<lambda>r. (rq_key r, r)) rs \<and>
    dq_cap (fold merge_into rs q) = dq_cap q"
  using assms
proof (induction rs arbitrary: q)
  case (Cons r rs)
  have none: "hfind (dq_byKey q) (rq_key r) = None"
    using Cons.prems(2) by (auto simp: map_of_eq_None_iff)
  have "hinsert (rq_key r) v m = m @ [(rq_key r, v)]" if "hfind m (rq_key r) = None" for v m
    using that by (induction m) (auto split: if_splits)
  with none have one: "dq_byKey (merge_into r q) = dq_byKey q @ [(rq_key r, r)]" "dq_cap (merge_into r q) = dq_cap q"
    by (simp_all add: merge_into_def merge_request_def)
  with Cons.IH [of "merge_into r q"] Cons.prems show ?case by auto
qed simp

lemma enqueue_fresh:
  assumes "keyed (dq_byKey q)" and "distinct (map rq_key rs)" and "set (map rq_key rs) \<inter> fst ` set (dq_byKey q) = {}"
  shows "mset (pending (snd (enqueue rs q))) \<subseteq># mset (pending q) + mset rs"
proof -
  define q1 where "q1 = fold merge_into rs q"
  have q1: "mset (pending q1) = mset (pending q) + mset rs" "keyed (dq_byKey q1)"
    using merge_fresh [OF assms(2,3)] keyed_merge_all [OF assms(1), of rs] unfolding q1_def by (simp_all add: comp_def)
  obtain n q2 where e: "enforceCap q1 = (n, q2)" by fastforce
  have "mset (pending q2) = mset (loudest priority (nat (dq_cap q1)) (pending q1))"
    using enforceCap_kept [OF q1(2) e] by blast
  also have "\<dots> \<subseteq># mset (pending q1)"
    using psort.split_mset [of priority "nat (dq_cap q1)" "pending q1"] by (metis mset_subset_eq_add_left)
  finally show ?thesis using q1(1) e by (simp add: enqueue_def q1_def [symmetric])
qed

definition dw_ok :: "ResolverDeepWorker \<Rightarrow> bool" where
  "dw_ok w = (dq_ok (dw_queue w) \<and> 1 \<le> dw_batchMax w)"

lemma worker_clear_ok: "dw_ok w \<Longrightarrow> dw_ok (worker_clear w)"
  by (simp add: dw_ok_def worker_clear_def queue_clear_def dq_ok_def keyed_def)

lemma worker_process_fields:
  "worker_process res st w s = (w', u, s') \<Longrightarrow> dw_batchMax w' = dw_batchMax w \<and> dw_maxAttempts w' = dw_maxAttempts w"
  by (auto simp: worker_process_def worker_clear_def Let_def split: option.splits if_splits prod.splits)

text \<open>One tick of an active worker with work to do uses up at least one unit of lifetime, whatever
  the resolver answers.\<close>

lemma worker_tick:
  assumes "dw_ok w" and "worker_process res st w s = (w', u, s')"
  shows "dw_ok w' \<and> (dq_byKey (dw_queue w') = [] \<longrightarrow> dw_timer w' = None) \<and>
    (dq_byKey (dw_queue w) = [] \<longrightarrow> dq_byKey (dw_queue w') = []) \<and>
    (dq_byKey (dw_queue w) \<noteq> [] \<longrightarrow> total_lifetime (dw_maxAttempts w) (pending (dw_queue w'))
      < total_lifetime (dw_maxAttempts w) (pending (dw_queue w)) \<or> dq_byKey (dw_queue w') = [])"
proof (cases "res = None \<or> \<not> dw_active w")
  case True
  then have "w' = worker_clear w" using assms(2) by (auto simp: worker_process_def split: option.splits)
  with assms(1) show ?thesis by (auto simp: worker_clear_ok) (simp_all add: worker_clear_def queue_clear_def)
next
  case False
  then obtain r where r: "res = Some r" "dw_active w" by auto
  let ?n = "dw_maxAttempts w" and ?q = "dw_queue w"
  obtain batch q1 where d: "dequeue (dw_batchMax w) ?q = (batch, q1)" by fastforce
  obtain up rt s1 where f: "fold (process_request r st ?n) batch ([], [], s) = (up, rt, s1)" by (metis prod_cases3)
  define q2 where "q2 = (if rt \<noteq> [] then snd (enqueue rt q1) else q1)"
  have w': "dw_queue w' = q2" "dq_byKey q2 = [] \<Longrightarrow> dw_timer w' = None"
    using assms(2) r by (auto simp: worker_process_def d f Let_def q2_def split: if_splits)
  have k: "keyed (dq_byKey ?q)" using assms(1) by (simp add: dw_ok_def dq_ok_def)
  note ds = dequeue_split [OF k d]
  have q1: "dq_ok q1" using dequeue_ok [of ?q "dw_batchMax w"] assms(1) d by (simp add: dw_ok_def)
  have q2: "dq_ok q2" using q1 enqueue_ok by (simp add: q2_def)
  have all: "mset batch + mset (pending q1) = mset (pending ?q)"
    using ds psort.split_mset [of priority "nat (dw_batchMax w)" "pending ?q"] by metis
  have dist: "distinct (map rq_key (batch @ pending q1))"
    using keyed_distinct [OF k] all by (metis mset_append mset_map mset_eq_imp_distinct_iff)
  have rt: "set (map rq_key rt) \<subseteq> set (map rq_key batch)" "distinct (map rq_key rt)"
      "total_lifetime ?n rt + length batch \<le> total_lifetime ?n batch"
    using process_requests_age [OF f] dist by auto
  have "fst ` set (dq_byKey q1) = set (map rq_key (pending q1))"
    using keyed_keys [of "dq_byKey q1"] ds by (metis list.set_map)
  then have "set (map rq_key rt) \<inter> fst ` set (dq_byKey q1) = {}" using rt(1) dist by auto
  then have sub: "mset (pending q2) \<subseteq># mset (pending q1) + mset rt"
    using enqueue_fresh [of q1, OF _ rt(2)] ds by (simp add: q2_def)
  have fewer: "total_lifetime ?n (pending q2) < total_lifetime ?n (pending ?q)" if "dq_byKey ?q \<noteq> []"
  proof -
    have "0 < length batch" using that assms(1) ds by (simp add: psort.kept_length dw_ok_def)
    moreover have "total_lifetime ?n (pending q2) \<le> total_lifetime ?n (pending q1 @ rt)"
      using sub by (intro total_lifetime_submset) simp
    moreover have "total_lifetime ?n (pending ?q) = total_lifetime ?n (batch @ pending q1)"
      using all by (intro total_lifetime_mset) simp
    ultimately show ?thesis using rt(3) unfolding total_lifetime_append by linarith
  qed
  have "batch = [] \<and> q1 = ?q \<and> rt = []" if "dq_byKey ?q = []"
    using that d f by (auto simp: dequeue_def)
  then show ?thesis
    using w' q2 fewer worker_process_fields [OF assms(2)] assms(1) by (auto simp: dw_ok_def q2_def)
qed

section \<open>Properties\<close>

text \<open>The states the queue can reach through its operations.\<close>

inductive dq_reachable :: "DeepAttributionQueue \<Rightarrow> bool" where
  start: "dq_reachable (mk_queue capacity)"
| enq: "dq_reachable q \<Longrightarrow> dq_reachable (snd (enqueue reqs q))"
| deq: "dq_reachable q \<Longrightarrow> dq_reachable (snd (dequeue batch q))"
| setcap: "dq_reachable q \<Longrightarrow> dq_reachable (setCapacity c q)"
| clr: "dq_reachable q \<Longrightarrow> dq_reachable (queue_clear q)"

lemma dq_reachable_ok: "dq_reachable q \<Longrightarrow> dq_ok q"
proof (induction rule: dq_reachable.induct)
  case (start capacity)
  show ?case by (simp add: dq_ok_def mk_queue_def keyed_def)
next
  case (clr q)
  show ?case by (simp add: dq_ok_def queue_clear_def keyed_def)
qed (simp_all add: enqueue_ok dequeue_ok setCapacity_ok)

text \<open>C35: in every reachable state the queue holds each flow at most once and no more than
  its capacity, and a dequeue takes out the loudest requests, loudest first: nothing is
  lost or duplicated, nothing left behind is louder than anything taken, and no other choice of as
  many requests carries more bytes.\<close>

theorem deep_queue_dequeues_loudest:
  assumes "dq_reachable q" and "dequeue batch q = (out, q')"
  shows "distinct (map rq_key (pending q)) \<and> int (length (pending q)) \<le> max 0 (dq_cap q) \<and>
    mset out + mset (pending q') = mset (pending q) \<and> length out = min (nat batch) (length (pending q)) \<and>
    sorted_wrt (\<ge>) (map priority out) \<and>
    (\<forall>a \<in> set out. \<forall>b \<in> set (pending q'). totalBytes b \<le> totalBytes a) \<and>
    (\<forall>M. M \<subseteq># mset (pending q) \<and> size M \<le> nat batch \<longrightarrow> (\<Sum>r\<in>#M. priority r) \<le> (\<Sum>r\<leftarrow>out. priority r))"
proof -
  have ok: "dq_ok q" using assms(1) by (rule dq_reachable_ok)
  then have k: "keyed (dq_byKey q)" by (simp add: dq_ok_def)
  have out: "out = loudest priority (nat batch) (pending q)"
    and rest: "mset (pending q') = mset (quietest priority (nat batch) (pending q))"
    using dequeue_split [OF k assms(2)] by auto
  have set_rest: "set (pending q') = set (quietest priority (nat batch) (pending q))"
    using rest by (metis set_mset_mset)
  have "distinct (map rq_key (pending q))" by (rule keyed_distinct [OF k])
  moreover have "mset out + mset (pending q') = mset (pending q)"
    unfolding rest out by (rule psort.split_mset)
  moreover have "\<forall>a \<in> set out. \<forall>b \<in> set (pending q'). totalBytes b \<le> totalBytes a"
    unfolding set_rest out word_le_nat_alt using psort.kept_heavier [of _ priority] by blast
  moreover have "\<forall>M. M \<subseteq># mset (pending q) \<and> size M \<le> nat batch \<longrightarrow> (\<Sum>r\<in>#M. priority r) \<le> (\<Sum>r\<leftarrow>out. priority r)"
    unfolding out using psort.kept_maximal by blast
  ultimately show ?thesis
    using ok loudest_sorted [of priority "nat batch" "pending q"]
    by (simp add: out psort.kept_length dq_ok_def)
qed

definition sample_request :: "quint16 \<Rightarrow> quint64 \<Rightarrow> DeepAttributionRequest" where
  "sample_request port bytes =
     (let c = no_connection\<lparr>c_proto := Tcp, c_local := no_endpoint\<lparr>ep_port := port\<rparr>, c_rxBytes := bytes\<rparr>
      in \<lparr>rq_key = keyOf c, rq_flow = c, rq_generation = 1, rq_monotonicMsQueued = 0,
          rq_wantContainerChain = False, rq_attempts = 0\<rparr>)"

definition sample_queue :: DeepAttributionQueue where
  "sample_queue = snd (enqueue [sample_request 1 10, sample_request 2 30, sample_request 3 20] (mk_queue 2))"

lemma sample_queue_reachable: "dq_reachable sample_queue"
  unfolding sample_queue_def by (intro dq_reachable.intros)

lemma sample_queue_loudest: "map totalBytes (fst (dequeue 1 sample_queue)) = [30]"
  by code_simp

theorem deep_queue_dequeues_loudest_witness:
  "dq_reachable sample_queue \<and> map totalBytes (fst (dequeue 1 sample_queue)) = [30] \<and>
   list_all (\<lambda>a. list_all (\<lambda>b. totalBytes b \<le> totalBytes a) (pending (snd (dequeue 1 sample_queue)))) (fst (dequeue 1 sample_queue))"
  using deep_queue_dequeues_loudest [OF sample_queue_reachable, of 1 "fst (dequeue 1 sample_queue)" "snd (dequeue 1 sample_queue)"]
    sample_queue_reachable sample_queue_loudest
  by (simp add: list_all_iff)

lemma merge_into_find: "hfind (dq_byKey (merge_into r q)) k =
    (if k = rq_key r then Some (merge_request (hfind (dq_byKey q) k) r) else hfind (dq_byKey q) k)"
  by (simp add: merge_into_def update_conv')

lemma merge_request_ge:
  "rq_attempts r \<le> rq_attempts (merge_request old r)" "rq_generation r \<le> rq_generation (merge_request old r)"
  "old = Some p \<Longrightarrow> rq_attempts p \<le> rq_attempts (merge_request old r)"
  "old = Some p \<Longrightarrow> rq_generation p \<le> rq_generation (merge_request old r)"
  by (simp_all add: merge_request_def split: option.splits)

lemma merge_all_monotone:
  assumes "hfind (dq_byKey (fold merge_into reqs q)) k = Some r"
  shows "(\<forall>p. hfind (dq_byKey q) k = Some p \<longrightarrow> rq_attempts p \<le> rq_attempts r \<and> rq_generation p \<le> rq_generation r) \<and>
    (\<forall>p \<in> set reqs. rq_key p = k \<longrightarrow> rq_attempts p \<le> rq_attempts r \<and> rq_generation p \<le> rq_generation r)"
  using assms
proof (induction reqs arbitrary: q)
  case (Cons a reqs)
  note ih = Cons.IH [of "merge_into a q"] Cons.prems
  show ?case
  proof (cases "rq_key a = k")
    case True
    let ?m = "merge_request (hfind (dq_byKey q) k) a"
    have "rq_attempts ?m \<le> rq_attempts r \<and> rq_generation ?m \<le> rq_generation r"
      using ih True by (simp add: merge_into_find)
    with merge_request_ge [where r = a and old = "hfind (dq_byKey q) k"] have "rq_attempts p \<le> rq_attempts r \<and> rq_generation p \<le> rq_generation r"
      if "p = a \<or> hfind (dq_byKey q) k = Some p" for p
      using that by (metis order_trans)
    with ih show ?thesis by auto
  qed (use ih in \<open>auto simp: merge_into_find\<close>)
qed simp

lemma enforceCap_find:
  assumes "keyed (dq_byKey q)" and "hfind (dq_byKey (snd (enforceCap q))) k = Some r"
  shows "hfind (dq_byKey q) k = Some r"
proof -
  have "hfind m k = Some r" if "hfind (fold (\<lambda>r. hremove (rq_key r)) rs m) k = Some r" for rs m
    using that
  proof (induction rs arbitrary: m)
    case (Cons a rs)
    then have "hfind (hremove (rq_key a) m) k = Some r" by simp
    then show ?case by (simp add: delete_conv' split: if_splits)
  qed simp
  with assms show ?thesis
    by (auto simp: enforceCap_def Let_def split: if_splits)
qed

text \<open>Re-observing a flow never resets its age: whatever is pending under a key after an
  \<open>enqueue\<close> has at least the attempts and the generation of what was pending
  under it before and of every request for it in the batch.\<close>

theorem enqueue_keeps_age:
  assumes "dq_reachable q" and "hfind (dq_byKey (snd (enqueue reqs q))) k = Some r"
  shows "(\<forall>p. hfind (dq_byKey q) k = Some p \<longrightarrow> rq_attempts p \<le> rq_attempts r \<and> rq_generation p \<le> rq_generation r) \<and>
    (\<forall>p \<in> set reqs. rq_key p = k \<longrightarrow> rq_attempts p \<le> rq_attempts r \<and> rq_generation p \<le> rq_generation r)"
proof (rule merge_all_monotone, rule enforceCap_find)
  show "keyed (dq_byKey (fold merge_into reqs q))"
    using dq_reachable_ok [OF assms(1)] by (intro keyed_merge_all) (simp add: dq_ok_def)
  show "hfind (dq_byKey (snd (enforceCap (fold merge_into reqs q)))) k = Some r"
    using assms(2) by (simp add: enqueue_def)
qed

theorem enqueue_keeps_age_witness:
  "let q = snd (enqueue [(sample_request 1 10)\<lparr>rq_attempts := 5\<rparr>] (mk_queue 2));
       k = rq_key (sample_request 1 10)
   in map_option rq_attempts (hfind (dq_byKey (snd (enqueue [sample_request 1 99] q))) k) = Some 5"
proof -
  let ?q = "snd (enqueue [(sample_request 1 10)\<lparr>rq_attempts := 5\<rparr>] (mk_queue 2))"
  let ?k = "rq_key (sample_request 1 10)"
  have r: "dq_reachable ?q" by (intro dq_reachable.intros)
  have "map_option rq_attempts (hfind (dq_byKey ?q) ?k) = Some 5" by code_simp
  moreover have f: "map_option rq_attempts (hfind (dq_byKey (snd (enqueue [sample_request 1 99] ?q))) ?k) = Some 5"
    by code_simp
  ultimately obtain p r where "hfind (dq_byKey ?q) ?k = Some p"
      "hfind (dq_byKey (snd (enqueue [sample_request 1 99] ?q))) ?k = Some r" by auto
  with enqueue_keeps_age [OF r] have "rq_attempts p \<le> rq_attempts r" by blast
  then show ?thesis using f by (simp add: Let_def)
qed

primrec worker_ticks ::
  "nat \<Rightarrow> 's ProcessResolver option \<Rightarrow> (int \<Rightarrow> 's \<Rightarrow> quint64) \<Rightarrow> ResolverDeepWorker \<times> 's \<Rightarrow> ResolverDeepWorker \<times> 's" where
  "worker_ticks 0 res st x = x"
| "worker_ticks (Suc n) res st x =
     (let (w, _, s) = worker_process res st (fst x) (snd x) in worker_ticks n res st (w, s))"

lemma worker_ticks_drain:
  assumes "dw_ok w" and "total_lifetime (dw_maxAttempts w) (pending (dw_queue w)) < n"
  shows "dq_byKey (dw_queue (fst (worker_ticks n res st (w, s)))) = [] \<and>
    dw_timer (fst (worker_ticks n res st (w, s))) = None"
  using assms
proof (induction n arbitrary: w s)
  case (Suc n)
  obtain w' u s' where p: "worker_process res st w s = (w', u, s')" by (metis prod_cases3)
  note t = worker_tick [OF Suc.prems(1) p] and f = worker_process_fields [OF p]
  show ?case
  proof (cases "n = 0")
    case True
    then have "dq_byKey (dw_queue w) = []"
      using Suc.prems(2) by (cases "dq_byKey (dw_queue w)") (auto simp: total_lifetime_def lifetime_def)
    with t show ?thesis by (simp add: True p)
  next
    case False
    have "total_lifetime (dw_maxAttempts w') (pending (dw_queue w')) < n"
    proof (cases "dq_byKey (dw_queue w') = []")
      case True
      with False show ?thesis by (simp add: total_lifetime_def)
    next
      case nonempty: False
      then have "dq_byKey (dw_queue w) \<noteq> []" using t by blast
      with t nonempty f Suc.prems(2) show ?thesis by auto
    qed
    with Suc.IH [of w' s'] t show ?thesis by (simp add: p)
  qed
qed simp

text \<open>C13: deferred work always ends: if nothing new is enqueued, then after at most one tick more than
  the number of pending requests times the attempt limit the queue is empty and the timer
  stopped, whatever the resolver answers.\<close>

theorem deep_worker_drains:
  assumes "dw_ok w" and "1 \<le> dw_maxAttempts w" and "\<And>r. r \<in> set (pending (dw_queue w)) \<Longrightarrow> 0 \<le> rq_attempts r"
    and "length (pending (dw_queue w)) * nat (dw_maxAttempts w) < n"
  shows "dq_byKey (dw_queue (fst (worker_ticks n res st (w, s)))) = [] \<and>
    dw_timer (fst (worker_ticks n res st (w, s))) = None"
proof -
  have "total_lifetime (dw_maxAttempts w) (pending (dw_queue w)) \<le> length (pending (dw_queue w)) * nat (dw_maxAttempts w)"
    using assms(3,2) by (rule total_lifetime_bound)
  with assms(4) show ?thesis by (intro worker_ticks_drain [OF assms(1)]) linarith
qed

lemma sample_worker_ok: "dw_ok (worker_enqueue [sample_request 1 10] mk_worker)"
proof -
  have "dq_ok (mk_queue 8192)" by (intro dq_reachable_ok dq_reachable.intros)
  then show ?thesis
    using enqueue_ok by (simp add: dw_ok_def worker_enqueue_def mk_worker_def ensureRunning_def)
qed

theorem deep_worker_drains_witness:
  "dq_byKey (dw_queue (worker_enqueue [sample_request 1 10] mk_worker)) \<noteq> [] \<and>
   dq_byKey (dw_queue (fst (worker_ticks 13 (Some NullProcessResolver) (\<lambda>_ _. 0)
     (worker_enqueue [sample_request 1 10] mk_worker, ())))) = []"
proof -
  let ?w = "worker_enqueue [sample_request 1 10] mk_worker"
  have p: "pending (dw_queue ?w) = [sample_request 1 10]" by code_simp
  have m: "dw_maxAttempts ?w = 12" by code_simp
  have "1 \<le> dw_maxAttempts ?w" unfolding m by simp
  moreover have "0 \<le> rq_attempts r" if "r \<in> set (pending (dw_queue ?w))" for r
    using that unfolding p by (simp add: sample_request_def Let_def)
  moreover have "length (pending (dw_queue ?w)) * nat (dw_maxAttempts ?w) < 13"
    unfolding p m by simp
  ultimately have "dq_byKey (dw_queue (fst (worker_ticks 13 (Some NullProcessResolver) (\<lambda>_ _. 0) (?w, ())))) = []"
    by (rule deep_worker_drains [OF sample_worker_ok, THEN conjunct1])
  with p show ?thesis by force
qed

end
