(* ===== verification/CgroupParse.thy ===== *)
theory CgroupParse
  imports FlowTypes
begin

text \<open>
  Container classification from \<open>/proc/<pid>/cgroup\<close> (\<open>backend/linux/CgroupParse.h\<close>). The
  source's regular expressions are written out as matchers on one path segment or on the path. A
  path never contains a newline (it comes from one line of the file), so \<open>$\<close> is the end of
  the text and a dot matches every character.
\<close>

section \<open>The path\<close>

definition colon_fields :: "string \<Rightarrow> (string \<times> string) option" where
  "colon_fields line =
     (case dropWhile (\<lambda>c. c \<noteq> CHR '':'') line of
        [] \<Rightarrow> None
      | _ # rest \<Rightarrow>
          (case dropWhile (\<lambda>c. c \<noteq> CHR '':'') rest of
             [] \<Rightarrow> None
           | _ # path \<Rightarrow> Some (takeWhile (\<lambda>c. c \<noteq> CHR '':'') rest, path)))"

fun extract_lines :: "string list \<Rightarrow> string \<Rightarrow> string" where
  "extract_lines [] v1Fallback = v1Fallback"
| "extract_lines (line # lines) v1Fallback =
     (case colon_fields line of
        None \<Rightarrow> extract_lines lines v1Fallback
      | Some (controllers, path) \<Rightarrow>
          if controllers = [] then path
          else extract_lines lines (if v1Fallback = [] then path else v1Fallback))"

definition extractPath :: "string \<Rightarrow> string" where
  "extractPath contents = extract_lines (qsplit_skip (CHR 0x0A) contents) []"

section \<open>Segment patterns\<close>

definition kMaxContainerChainDepth :: nat where
  "kMaxContainerChainDepth = 16"

datatype CgroupHint = Auto | PreferCrio

definition hex_digit :: "char \<Rightarrow> bool" where
  "hex_digit c = (is_digit c \<or> c \<in> set ''abcdef'')"

definition pod_char :: "char \<Rightarrow> bool" where
  "pod_char c = (is_digit c \<or> c \<in> set ''abcdefABCDEF_-'')"

text \<open>\<open>^pre(\<dots>)suf$\<close>: what stands between a literal prefix and suffix.\<close>

definition between :: "string \<Rightarrow> string \<Rightarrow> string \<Rightarrow> string option" where
  "between pre suf s =
     (if length pre + length suf \<le> length s \<and> starts_with pre s \<and> ends_with suf s
      then Some (take (length s - length pre - length suf) (drop (length pre) s)) else None)"

definition hex64 :: "string \<Rightarrow> bool" where
  "hex64 s = (length s = 64 \<and> list_all hex_digit s)"

definition rx_hex64 :: "string \<Rightarrow> string \<Rightarrow> string \<Rightarrow> string option" where
  "rx_hex64 pre suf s = (case between pre suf s of Some m \<Rightarrow> if hex64 m then Some m else None | None \<Rightarrow> None)"

definition rxLxd :: "string \<Rightarrow> string option" where
  "rxLxd s = (case between ''lxd-'' ''.service'' s of
     Some m \<Rightarrow> if m \<noteq> [] \<and> list_all (\<lambda>c. c \<noteq> CHR ''/'' \<and> \<not> rx_space c \<and> c \<noteq> CHR ''.'') m then Some m else None
   | None \<Rightarrow> None)"

definition rx_nonempty :: "string \<Rightarrow> string \<Rightarrow> string \<Rightarrow> string option" where
  "rx_nonempty pre suf s = (case between pre suf s of Some m \<Rightarrow> if m \<noteq> [] then Some m else None | None \<Rightarrow> None)"

text \<open>\<open>pod([0-9a-fA-F_-]{32,72})\<close> at the start of \<open>s\<close>: the longest run, at most 72 characters.\<close>

definition pod_at :: "string \<Rightarrow> string option" where
  "pod_at s =
     (if starts_with ''pod'' s
      then (let run = take 72 (takeWhile pod_char (drop 3 s)) in if 32 \<le> length run then Some run else None)
      else None)"

definition rxKubepodsPodCgfs :: "string \<Rightarrow> string option" where
  "rxKubepodsPodCgfs s =
     (let m = drop 3 s in
      if starts_with ''pod'' s \<and> 32 \<le> length m \<and> length m \<le> 72 \<and> list_all pod_char m then Some m else None)"

fun rxKubepodsPod :: "string \<Rightarrow> string option" where
  "rxKubepodsPod [] = None"
| "rxKubepodsPod (c # cs) = (case pod_at (c # cs) of Some m \<Rightarrow> Some m | None \<Rightarrow> rxKubepodsPod cs)"

definition container :: "string \<Rightarrow> string \<Rightarrow> ContainerInfo" where
  "container runtime i = \<lparr>ct_runtime = runtime, ct_id = i, ct_name = []\<rparr>"

text \<open>The patterns in the order they are tried, each with the entry it yields.\<close>

definition segment_patterns :: "(string \<Rightarrow> ContainerInfo option) list" where
  "segment_patterns =
    [\<lambda>s. map_option (\<lambda>m. container ''containerd'' (take 12 m)) (rx_hex64 ''cri-containerd-'' ''.scope'' s),
     \<lambda>s. map_option (\<lambda>m. container ''cri-o'' (take 12 m)) (rx_hex64 ''crio-'' ''.scope'' s),
     \<lambda>s. map_option (\<lambda>m. container ''docker'' (take 12 m)) (rx_hex64 ''docker-'' ''.scope'' s),
     \<lambda>s. map_option (\<lambda>m. container ''podman'' (take 12 m)) (rx_hex64 ''libpod-'' ''.scope'' s),
     \<lambda>s. map_option (\<lambda>m. container ''podman'' (take 12 m)) (rx_hex64 ''libpod-'' '''' s),
     \<lambda>s. map_option (\<lambda>m. container ''lxd'' m) (rxLxd s),
     \<lambda>s. map_option (\<lambda>m. container ''nspawn'' m) (rx_nonempty ''machine-'' ''.scope'' s),
     \<lambda>s. map_option (\<lambda>m. container ''nspawn'' m) (rx_nonempty ''systemd-nspawn@'' ''.service'' s),
     \<lambda>s. map_option (\<lambda>m. container ''kubernetes'' (take 12 m)) (rxKubepodsPodCgfs s),
     \<lambda>s. map_option (\<lambda>m. container ''kubernetes'' (take 12 m)) (rxKubepodsPod s)]"

fun first_match :: "('a \<Rightarrow> 'b option) list \<Rightarrow> 'a \<Rightarrow> 'b option" where
  "first_match [] x = None"
| "first_match (f # fs) x = (case f x of Some y \<Rightarrow> Some y | None \<Rightarrow> first_match fs x)"

definition classifySegment :: "string \<Rightarrow> ContainerInfo option" where
  "classifySegment seg = first_match segment_patterns seg"

section \<open>The chain\<close>

text \<open>The loop over the segments; a bare 64-digit segment right below a pod is the runtime's leaf.\<close>

fun classify_segments :: "CgroupHint \<Rightarrow> string list \<Rightarrow> string \<Rightarrow> ContainerInfo list" where
  "classify_segments hint [] prevRuntime = []"
| "classify_segments hint (seg # segs) prevRuntime =
     (case classifySegment seg of
        Some ci \<Rightarrow> ci # classify_segments hint segs (ct_runtime ci)
      | None \<Rightarrow>
          if prevRuntime = ''kubernetes'' \<and> hex64 seg
          then (let runtime = (if hint = PreferCrio then ''cri-o'' else ''containerd'')
                in container runtime (take 12 seg) # classify_segments hint segs runtime)
          else classify_segments hint segs [])"

text \<open>All non-overlapping matches of \<open>/docker/([0-9a-f]{64})(?:/|$)\<close>, left to right: a match
  consumes the slash behind the id.\<close>

definition docker_at :: "string \<Rightarrow> string option" where
  "docker_at s =
     (let i = take 64 (drop 8 s); rest = drop 72 s in
      if starts_with ''/docker/'' s \<and> hex64 i \<and> (rest = [] \<or> hd rest = CHR ''/'') then Some i else None)"

function rxDockerLegacy :: "string \<Rightarrow> string list" where
  "rxDockerLegacy s =
     (if s = [] then []
      else (case docker_at s of
              Some i \<Rightarrow> i # rxDockerLegacy (drop 73 s)
            | None \<Rightarrow> rxDockerLegacy (tl s)))"
  by pat_completeness auto
termination
  by (relation "measure length") (auto simp: length_greater_0_conv)

declare rxDockerLegacy.simps [simp del]

text \<open>\<open>/lxc(?:\\.payload)?[./]([^/\\s]+)\<close>: the optional part is tried first.\<close>

definition lxc_name :: "string \<Rightarrow> string option" where
  "lxc_name s =
     (let m = takeWhile (\<lambda>c. c \<noteq> CHR ''/'' \<and> \<not> rx_space c) (tl s) in
      if s \<noteq> [] \<and> (hd s = CHR ''.'' \<or> hd s = CHR ''/'') \<and> m \<noteq> [] then Some m else None)"

definition lxc_at :: "string \<Rightarrow> string option" where
  "lxc_at s =
     (if starts_with ''/lxc'' s
      then first_match
             [\<lambda>r. if starts_with ''.payload'' r then lxc_name (drop 8 r) else None, lxc_name] (drop 4 s)
      else None)"

fun rxLxc :: "string \<Rightarrow> string option" where
  "rxLxc [] = None"
| "rxLxc (c # cs) = (case lxc_at (c # cs) of Some m \<Rightarrow> Some m | None \<Rightarrow> rxLxc cs)"

definition unit_char :: "char \<Rightarrow> bool" where
  "unit_char c = (is_digit c \<or> c \<in> set ''abcdefghijklmnopqrstuvwxyzABCDEFGHIJKLMNOPQRSTUVWXYZ@_.-'')"

definition rxSystemdUnit :: "string \<Rightarrow> bool" where
  "rxSystemdUnit s =
     list_ex (\<lambda>suf. case between '''' suf s of Some m \<Rightarrow> m \<noteq> [] \<and> list_all unit_char m | None \<Rightarrow> False)
       [''.service'', ''.socket'', ''.mount'']"

text \<open>\<open>classifyPathChain\<close> before the cap on its depth.\<close>

definition uncapped_chain :: "string \<Rightarrow> CgroupHint \<Rightarrow> ContainerInfo list" where
  "uncapped_chain path hint =
     (let segments = qsplit_skip (CHR ''/'') path;
          chain = classify_segments hint segments [];
          chain = (if chain = [] then map (\<lambda>i. container ''docker'' (take 12 i)) (rxDockerLegacy path) else chain);
          chain = (if chain = []
                   then (case rxLxc path of Some m \<Rightarrow> [container ''lxc'' m] | None \<Rightarrow> []) else chain)
      in if chain = [] \<and> ''user.slice'' \<notin> set segments
         then (case find rxSystemdUnit (rev segments) of
                 Some u \<Rightarrow> [container ''systemd'' (''unit:'' @ u)] | None \<Rightarrow> [])
         else chain)"

definition classifyPathChain :: "string \<Rightarrow> CgroupHint \<Rightarrow> ContainerInfo list" where
  "classifyPathChain path hint =
     (if path = [] \<or> path = ''/'' \<or> path = ''/init.scope'' then []
      else
        (let chain = uncapped_chain path hint in
         if kMaxContainerChainDepth < length chain
         then drop (length chain - kMaxContainerChainDepth) chain else chain))"

definition classifyPath :: "string \<Rightarrow> CgroupHint \<Rightarrow> ContainerInfo option" where
  "classifyPath path hint =
     (let chain = classifyPathChain path hint in if chain = [] then None else Some (last chain))"

definition classifyProcCgroupChain :: "string \<Rightarrow> CgroupHint \<Rightarrow> ContainerInfo list" where
  "classifyProcCgroupChain contents hint = classifyPathChain (extractPath contents) hint"

definition classifyProcCgroup :: "string \<Rightarrow> CgroupHint \<Rightarrow> ContainerInfo option" where
  "classifyProcCgroup contents hint = classifyPath (extractPath contents) hint"

section \<open>Facts\<close>

lemma first_match_in: "first_match fs x = Some y \<Longrightarrow> \<exists>f \<in> set fs. f x = Some y"
  by (induction fs) (auto split: option.splits)

lemma pod_at_length: "pod_at s = Some m \<Longrightarrow> m \<noteq> []"
  by (auto simp: pod_at_def Let_def split: if_splits)

lemma rxKubepodsPod_nonempty: "rxKubepodsPod s = Some m \<Longrightarrow> m \<noteq> []"
  by (induction s rule: rxKubepodsPod.induct) (auto split: option.splits dest: pod_at_length)

lemma container_valid [simp]: "ct_valid (container r i) \<longleftrightarrow> r \<noteq> [] \<and> i \<noteq> []"
  by (simp add: container_def ct_valid_def)

lemma hex64_nonempty: "hex64 s \<Longrightarrow> s \<noteq> []"
  by (auto simp: hex64_def)

lemma pattern_captures:
  "rx_hex64 pre suf s = Some m \<Longrightarrow> m \<noteq> []" "rxLxd s = Some m \<Longrightarrow> m \<noteq> []"
  "rx_nonempty pre suf s = Some m \<Longrightarrow> m \<noteq> []" "rxKubepodsPodCgfs s = Some m \<Longrightarrow> m \<noteq> []"
  by (auto simp: rx_hex64_def rxLxd_def rx_nonempty_def rxKubepodsPodCgfs_def Let_def
      dest: hex64_nonempty split: option.splits if_splits)

lemma classifySegment_valid:
  assumes "classifySegment s = Some ci" shows "ct_valid ci"
proof -
  obtain f where "f \<in> set segment_patterns" "f s = Some ci"
    using assms first_match_in unfolding classifySegment_def by metis
  then show ?thesis
    unfolding segment_patterns_def by (auto dest: pattern_captures rxKubepodsPod_nonempty)
qed

lemma classify_segments_valid: "list_all ct_valid (classify_segments hint segs prev)"
  by (induction hint segs prev rule: classify_segments.induct)
    (auto simp: classifySegment_valid hex64_nonempty Let_def split: option.split)

lemma rxDockerLegacy_hex: "i \<in> set (rxDockerLegacy s) \<Longrightarrow> hex64 i"
proof (induction s rule: rxDockerLegacy.induct)
  case (1 s)
  then show ?case
    by (subst (asm) (3) rxDockerLegacy.simps) (auto simp: docker_at_def Let_def split: if_splits option.splits)
qed

lemma lxc_name_nonempty: "lxc_name s = Some m \<Longrightarrow> m \<noteq> []"
  by (auto simp: lxc_name_def Let_def split: if_splits)

lemma rxLxc_nonempty: "rxLxc s = Some m \<Longrightarrow> m \<noteq> []"
  by (induction s rule: rxLxc.induct)
    (auto simp: lxc_at_def split: option.splits if_splits dest: lxc_name_nonempty)

lemma uncapped_chain_valid: "list_all ct_valid (uncapped_chain path hint)"
  using classify_segments_valid [of hint "qsplit_skip (CHR ''/'') path" "[]"]
  by (auto simp: uncapped_chain_def Let_def list_all_iff
      dest!: rxDockerLegacy_hex hex64_nonempty rxLxc_nonempty split: option.splits)

lemma capped_chain:
  "classifyPathChain path hint = [] \<or>
   classifyPathChain path hint =
     drop (length (uncapped_chain path hint) - kMaxContainerChainDepth) (uncapped_chain path hint)"
  by (simp add: classifyPathChain_def Let_def)

section \<open>Reading back nested scopes\<close>

text \<open>The scope names of the runtimes that put a full container id in one segment.\<close>

definition scope_prefixes :: "(string \<times> string) list" where
  "scope_prefixes = [(''containerd'', ''cri-containerd-''), (''cri-o'', ''crio-''), (''docker'', ''docker-''),
     (''podman'', ''libpod-'')]"

definition scope_segment :: "(string \<times> string) \<times> string \<Rightarrow> string" where
  "scope_segment x = snd (fst x) @ snd x @ ''.scope''"

definition scope_path :: "((string \<times> string) \<times> string) list \<Rightarrow> string" where
  "scope_path xs = concat (map (\<lambda>x. CHR ''/'' # scope_segment x) xs)"

lemma between_append: "between pre suf (pre @ m @ suf) = Some m"
  by (simp add: between_def starts_with_def ends_with_def)

lemma scope_classified:
  assumes "x \<in> set scope_prefixes" and "hex64 h"
  shows "classifySegment (scope_segment (x, h)) = Some (container (fst x) (take 12 h))"
proof -
  have "rx_hex64 (snd x) ''.scope'' (scope_segment (x, h)) = Some h"
    using assms(2) by (simp add: rx_hex64_def scope_segment_def between_append)
  with assms(1) show ?thesis
    by (auto simp: scope_prefixes_def classifySegment_def segment_patterns_def)
      (auto simp: rx_hex64_def between_def starts_with_def scope_segment_def)
qed

lemma scope_segment_chars:
  assumes "x \<in> set scope_prefixes" and "hex64 h"
  shows "CHR ''/'' \<notin> set (scope_segment (x, h))" "scope_segment (x, h) \<noteq> []"
  using assms by (auto simp: scope_prefixes_def scope_segment_def hex64_def list_all_iff hex_digit_def is_digit_def)

lemma qsplit_skip_joined:
  assumes "\<And>w. w \<in> set ws \<Longrightarrow> w \<noteq> [] \<and> sep \<notin> set w"
  shows "qsplit_skip sep (concat (map (\<lambda>w. sep # w) ws)) = ws"
proof -
  have "qsplit sep (w @ concat (map (\<lambda>w. sep # w) ws)) = w # ws" if "sep \<notin> set w" for w
    using assms that
  proof (induction ws arbitrary: w)
    case (Cons v ws)
    then have "qsplit sep (v @ concat (map (\<lambda>w. sep # w) ws)) = v # ws" by simp
    then show ?case using Cons.prems(2) by (simp add: qsplit_append_sep)
  qed (simp add: qsplit_id)
  from this [of "[]"] show ?thesis
    using assms by (simp add: qsplit_skip_def filter_id_conv)
qed

lemma scope_path_split:
  assumes "\<And>x h. (x, h) \<in> set xs \<Longrightarrow> x \<in> set scope_prefixes \<and> hex64 h"
  shows "qsplit_skip (CHR ''/'') (scope_path xs) = map scope_segment xs"
proof -
  have "scope_path xs = concat (map (\<lambda>w. CHR ''/'' # w) (map scope_segment xs))"
    by (simp add: scope_path_def comp_def)
  moreover have "w \<noteq> [] \<and> CHR ''/'' \<notin> set w" if "w \<in> set (map scope_segment xs)" for w
    using that assms scope_segment_chars by fastforce
  ultimately show ?thesis using qsplit_skip_joined [of "map scope_segment xs" "CHR ''/''"] by metis
qed

lemma classify_scopes:
  assumes "\<And>x h. (x, h) \<in> set xs \<Longrightarrow> x \<in> set scope_prefixes \<and> hex64 h"
  shows "classify_segments hint (map scope_segment xs) prev = map (\<lambda>(x, h). container (fst x) (take 12 h)) xs"
  using assms
proof (induction xs arbitrary: prev)
  case (Cons y xs)
  obtain x h where y: "y = (x, h)" by fastforce
  then have "classifySegment (scope_segment y) = Some (container (fst x) (take 12 h))"
    using Cons.prems [of x h] scope_classified by simp
  moreover have "x \<in> set scope_prefixes \<and> hex64 h" if "(x, h) \<in> set xs" for x h
    using Cons.prems [of x h] that by simp
  ultimately show ?case using Cons.IH y by simp
qed simp

section \<open>Properties\<close>

text \<open>C10: nested container scopes are read back in order: for every path built from
  container scopes of the known runtimes, whatever their 64-digit ids, the chain is the list of
  their runtimes and short ids, outermost first, cut to the innermost sixteen.\<close>

theorem cgroup_scopes_roundtrip:
  assumes "xs \<noteq> []" and "\<And>x h. (x, h) \<in> set xs \<Longrightarrow> x \<in> set scope_prefixes \<and> hex64 h"
  shows "classifyPathChain (scope_path xs) hint =
    drop (length xs - kMaxContainerChainDepth) (map (\<lambda>(x, h). container (fst x) (take 12 h)) xs)"
proof -
  obtain x h ys where xs: "xs = (x, h) # ys" using assms(1) by (cases xs) auto
  then have "hex64 h" using assms(2) [of x h] by simp
  then have "64 \<le> length (scope_path xs)"
    using xs by (simp add: scope_path_def scope_segment_def hex64_def)
  then have "\<not> (scope_path xs = [] \<or> scope_path xs = ''/'' \<or> scope_path xs = ''/init.scope'')"
    by auto
  moreover have "uncapped_chain (scope_path xs) hint = map (\<lambda>(x, h). container (fst x) (take 12 h)) xs"
    using assms by (simp add: uncapped_chain_def scope_path_split classify_scopes)
  ultimately show ?thesis by (simp add: classifyPathChain_def Let_def)
qed

definition sample_id :: string where
  "sample_id = replicate 64 (CHR ''a'')"

lemma sample_id_hex: "hex64 sample_id" "take 12 sample_id = replicate 12 (CHR ''a'')"
  by (simp_all only: sample_id_def hex64_def list_all_iff set_replicate take_replicate length_replicate)
    (simp_all add: hex_digit_def)

theorem cgroup_scopes_roundtrip_witness:
  "hex64 sample_id \<and>
   classifyPathChain (scope_path [((''docker'', ''docker-''), sample_id), ((''containerd'', ''cri-containerd-''), sample_id)]) Auto
     = [container ''docker'' (replicate 12 (CHR ''a'')), container ''containerd'' (replicate 12 (CHR ''a''))]"
proof -
  let ?xs = "[((''docker'', ''docker-''), sample_id), ((''containerd'', ''cri-containerd-''), sample_id)]"
  have "x \<in> set scope_prefixes \<and> hex64 h" if "(x, h) \<in> set ?xs" for x h
    using that sample_id_hex(1) by (auto simp: scope_prefixes_def)
  from cgroup_scopes_roundtrip [of ?xs Auto, OF _ this] show ?thesis
    by (simp add: sample_id_hex kMaxContainerChainDepth_def)
qed

text \<open>Whatever the file holds, the chain has at most sixteen entries, each with a runtime and
  an id; a non-empty chain is the innermost part of what the path contains, so its last
  entry is the container the process lives in; and host scopes have no chain.\<close>

theorem cgroup_chain_bounded:
  "length (classifyProcCgroupChain contents hint) \<le> kMaxContainerChainDepth \<and>
   list_all ct_valid (classifyProcCgroupChain contents hint) \<and>
   (let full = uncapped_chain (extractPath contents) hint; ch = classifyProcCgroupChain contents hint in
      ch = [] \<or> ch = drop (length full - length ch) full \<and> last ch = last full \<and>
        classifyProcCgroup contents hint = Some (last full)) \<and>
   classifyPathChain [] hint = [] \<and> classifyPathChain ''/'' hint = [] \<and> classifyPathChain ''/init.scope'' hint = []"
proof -
  let ?full = "uncapped_chain (extractPath contents) hint" and ?ch = "classifyProcCgroupChain contents hint"
  have ch: "?ch = [] \<or> ?ch = drop (length ?full - kMaxContainerChainDepth) ?full"
    unfolding classifyProcCgroupChain_def by (rule capped_chain)
  have "list_all ct_valid ?ch"
    using ch uncapped_chain_valid [of "extractPath contents" hint] by (metis in_set_dropD list.pred_inject(1) list_all_iff)
  moreover have "?ch = drop (length ?full - length ?ch) ?full \<and> last ?ch = last ?full" if "?ch \<noteq> []"
    using ch that by (metis diff_diff_cancel diff_le_self last_drop length_drop length_greater_0_conv zero_less_diff)
  moreover have "classifyProcCgroup contents hint = Some (last ?ch)" if "?ch \<noteq> []"
    using that by (simp add: classifyProcCgroup_def classifyPath_def classifyProcCgroupChain_def)
  ultimately show ?thesis
    using ch by (auto simp: Let_def classifyPathChain_def)
qed

lemma starts_with_set: "starts_with pre s \<Longrightarrow> set pre \<subseteq> set s"
  unfolding starts_with_def by (metis set_take_subset)

lemma rxKubepodsPod_none: "CHR ''p'' \<notin> set s \<Longrightarrow> rxKubepodsPod s = None"
proof (induction s)
  case (Cons c s)
  then have "\<not> starts_with ''pod'' (c # s)" using starts_with_set [of "''pod''" "c # s"] by auto
  with Cons show ?case by (simp add: pod_at_def)
qed simp

text \<open>A bare id is no pattern of its own: every prefix has a letter that is not a hexadecimal digit.\<close>

lemma classifySegment_hex: "list_all hex_digit s \<Longrightarrow> classifySegment s = None"
proof -
  assume h: "list_all hex_digit s"
  have nb: "between pre suf s = None" if "c \<in> set pre" "\<not> hex_digit c" for pre suf c
    using starts_with_set [of pre s] that h by (auto simp: between_def list_all_iff)
  have p: "CHR ''p'' \<notin> set s" using h by (auto simp: list_all_iff hex_digit_def is_digit_def)
  have "\<not> starts_with ''pod'' s" using starts_with_set [of "''pod''" s] p by auto
  then have k: "rxKubepodsPodCgfs s = None" by (simp add: rxKubepodsPodCgfs_def)
  have n: "between ''cri-containerd-'' t s = None" "between ''crio-'' t s = None" "between ''docker-'' t s = None"
    "between ''libpod-'' t s = None" "between ''lxd-'' t s = None" "between ''machine-'' t s = None"
    "between ''systemd-nspawn@'' t s = None" for t
    by (rule nb [of "CHR ''-''"]; simp add: hex_digit_def is_digit_def)+
  show ?thesis
    by (simp add: classifySegment_def segment_patterns_def rx_hex64_def rxLxd_def rx_nonempty_def n k
        rxKubepodsPod_none [OF p])
qed

lemma count_docker: "count_list ''/docker/'' (CHR ''/'') = 2"
  by simp

lemma rxDockerLegacy_few_slashes: "count_list s (CHR ''/'') < 2 \<Longrightarrow> rxDockerLegacy s = []"
proof (induction s)
  case (Cons c s)
  have "\<not> starts_with ''/docker/'' (c # s)"
  proof
    assume "starts_with ''/docker/'' (c # s)"
    then have "take 8 (c # s) = ''/docker/''" by (simp add: starts_with_def eval_nat_numeral)
    then have "c # s = ''/docker/'' @ drop 8 (c # s)" by (metis append_take_drop_id)
    then have "count_list (c # s) (CHR ''/'') = 2 + count_list (drop 8 (c # s)) (CHR ''/'')"
      using count_list_append [of "''/docker/''" "drop 8 (c # s)" "CHR ''/''"] by (metis count_docker)
    with Cons.prems show False by simp
  qed
  then have "docker_at (c # s) = None" by (simp add: docker_at_def)
  with Cons show ?case by (subst rxDockerLegacy.simps) (simp split: if_splits)
qed (simp add: rxDockerLegacy.simps)

text \<open>With Docker's cgroupfs driver a container started inside a container is attributed to the
  outer one: in a path of two nested \<open>/docker/<id>\<close> scopes the search for the second one starts behind
  the slash that the first match has consumed, so only the outer id is found.\<close>

theorem nested_docker_cgroupfs_loses_inner:
  assumes "hex64 a" and "hex64 b"
  shows "classifyPathChain (''/docker/'' @ a @ ''/docker/'' @ b) hint = [container ''docker'' (take 12 a)]"
proof -
  define p where "p = ''/docker/'' @ a @ ''/docker/'' @ b"
  have len: "length a = 64" "length b = 64" using assms by (simp_all add: hex64_def)
  have no: "CHR ''/'' \<notin> set a" "CHR ''/'' \<notin> set b" "a \<noteq> []" "b \<noteq> []"
    using assms by (auto simp: hex64_def list_all_iff hex_digit_def is_digit_def)
  have split: "qsplit_skip (CHR ''/'') p = [''docker'', a, ''docker'', b]"
    using qsplit_skip_joined [of "[''docker'', a, ''docker'', b]" "CHR ''/''"] no unfolding p_def by fastforce
  have seg: "classifySegment a = None" "classifySegment b = None"
    using assms by (simp_all add: hex64_def classifySegment_hex)
  have "classifySegment ''docker'' = None" by code_simp
  then have "classify_segments hint (qsplit_skip (CHR ''/'') p) [] = []"
    unfolding split by (simp add: seg)
  moreover have "docker_at p = Some a" "drop 73 p = ''docker/'' @ b" "p \<noteq> []"
    using len assms(1) by (simp_all add: docker_at_def starts_with_def Let_def p_def)
  moreover have "rxDockerLegacy (''docker/'' @ b) = []"
    using no(2) by (intro rxDockerLegacy_few_slashes) (simp add: count_notin)
  ultimately have "uncapped_chain p hint = [container ''docker'' (take 12 a)]"
    using rxDockerLegacy.simps [of p] by (simp add: uncapped_chain_def Let_def)
  moreover have "p \<noteq> []" "p \<noteq> ''/''" "p \<noteq> ''/init.scope''" by (simp_all add: p_def)
  ultimately have "classifyPathChain p hint = [container ''docker'' (take 12 a)]"
    unfolding classifyPathChain_def by (simp add: kMaxContainerChainDepth_def)
  then show ?thesis by (simp add: p_def)
qed

theorem nested_docker_cgroupfs_loses_inner_witness:
  "hex64 sample_id \<and>
   classifyPathChain (''/docker/'' @ sample_id @ ''/docker/'' @ sample_id) Auto
     = [container ''docker'' (replicate 12 (CHR ''a''))]"
  using nested_docker_cgroupfs_loses_inner [OF sample_id_hex(1) sample_id_hex(1), of Auto]
  by (simp only: sample_id_hex simp_thms)

end
