(* ===== verification/CgroupCache.thy ===== *)
theory CgroupCache
  imports CgroupParse Resolver BoundedCache
begin

text \<open>
  The container resolver \<open>backend/linux/CgroupClassifier.cpp\<close> and the start-time parser of
  \<open>backend/linux/ProcSnapshot.h\<close>: a per-pid cache with a lifetime, guarded by the start time of
  the process, over the classifier of \<open>CgroupParse\<close>. What the code reads from \<open>/proc\<close> is a
  \<open>ProcWorld\<close>: the contents of \<open>/proc/<pid>/stat\<close> and \<open>/proc/<pid>/cgroup\<close>, if they can be
  opened. Files are ASCII text.
\<close>

section \<open>Process start times\<close>

text \<open>The part of the line behind the last closing parenthesis and the blank after it.\<close>

fun after_last_paren :: "string \<Rightarrow> string option" where
  "after_last_paren [] = None"
| "after_last_paren (c # cs) =
     (case after_last_paren cs of
        Some r \<Rightarrow> Some r
      | None \<Rightarrow> if c = CHR '')'' then Some cs else None)"

fun skip_fields :: "nat \<Rightarrow> string \<Rightarrow> string option" where
  "skip_fields 0 s = Some s"
| "skip_fields (Suc n) s =
     (case dropWhile (\<lambda>c. c \<noteq> CHR '' '') s of [] \<Rightarrow> None | _ # r \<Rightarrow> skip_fields n r)"

text \<open>\<open>QByteArray::toULongLong\<close> on a token the kernel prints: a run of digits below \<open>2^64\<close>.\<close>

definition toULongLong :: "string \<Rightarrow> quint64 option" where
  "toULongLong tok =
     (if tok \<noteq> [] \<and> list_all is_digit tok \<and> read_nat tok 0 < 2 ^ 64
      then Some (word_of_nat (read_nat tok 0)) else None)"

definition parseStartTime :: "string \<Rightarrow> quint64 option" where
  "parseStartTime stat =
     (case after_last_paren stat of
        None \<Rightarrow> None
      | Some r \<Rightarrow>
          if length r \<le> 1 then None
          else
            (case skip_fields 19 (tl r) of
               None \<Rightarrow> None
             | Some s \<Rightarrow> toULongLong (takeWhile (\<lambda>c. c \<noteq> CHR '' '') s)))"

record ProcWorld =
  pw_stat :: "int \<Rightarrow> string option"
  pw_cgroup :: "int \<Rightarrow> string option"
  pw_crioSock :: bool

definition pidStartTime :: "ProcWorld \<Rightarrow> int \<Rightarrow> quint64 option" where
  "pidStartTime w pid =
     (if pid \<le> 0 then None
      else (case pw_stat w pid of None \<Rightarrow> None | Some stat \<Rightarrow> parseStartTime (take 4096 stat)))"

section \<open>The resolver\<close>

record CgroupEntry =
  ce_chain :: "ContainerInfo list"
  ce_ts :: int
  ce_startTime :: quint64

record CgroupClassifier =
  cg_ready :: bool
  cg_crioPreferred :: bool
  cg_cache :: "(int, CgroupEntry) qhash"
  cg_cacheTtlMs :: int

definition kCacheTtlMs :: int where "kCacheTtlMs = 2000"
definition kMinCacheTtlMs :: int where "kMinCacheTtlMs = 100"
definition kCacheMaxItems :: nat where "kCacheMaxItems = 8192"

definition safeContainerTtlMs :: "int \<Rightarrow> int \<Rightarrow> int \<Rightarrow> int" where
  "safeContainerTtlMs raw defaultMs minMs =
     (if raw \<le> 0 then defaultMs else if minMs \<le> raw then raw else minMs)"

definition mk_CgroupClassifier :: "ResolverTuning \<Rightarrow> CgroupClassifier" where
  "mk_CgroupClassifier tuning = \<lparr>cg_ready = False, cg_crioPreferred = False, cg_cache = [],
     cg_cacheTtlMs = safeContainerTtlMs (containerCacheMs tuning) kCacheTtlMs kMinCacheTtlMs\<rparr>"

definition cg_setTuning :: "ResolverTuning \<Rightarrow> CgroupClassifier \<Rightarrow> CgroupClassifier" where
  "cg_setTuning tuning s =
     s\<lparr>cg_cacheTtlMs := safeContainerTtlMs (containerCacheMs tuning) kCacheTtlMs kMinCacheTtlMs\<rparr>"

text \<open>\<open>selfOk\<close>: whether \<open>/proc/self/cgroup\<close> could be opened.\<close>

definition cg_initialize :: "ProcWorld \<Rightarrow> bool \<Rightarrow> CgroupClassifier \<Rightarrow> bool \<times> CgroupClassifier" where
  "cg_initialize w selfOk s =
     (if \<not> selfOk then (False, s)
      else (True, (if pw_crioSock w then s\<lparr>cg_crioPreferred := True\<rparr> else s)\<lparr>cg_ready := True\<rparr>))"

definition cg_capabilities :: "CgroupClassifier \<Rightarrow> string list" where
  "cg_capabilities s = (if \<not> cg_ready s then [] else [''container-attribution'', ''container-chain''])"

text \<open>What reading and classifying the file yields now.\<close>

definition cg_read :: "ProcWorld \<Rightarrow> bool \<Rightarrow> int \<Rightarrow> ContainerInfo list" where
  "cg_read w crio pid =
     (case pw_cgroup w pid of
        None \<Rightarrow> []
      | Some data \<Rightarrow> classifyProcCgroupChain (take 4096 data) (if crio then PreferCrio else Auto))"

text \<open>The cache: a hit needs the same start time and an age below the lifetime; on overflow the
  whole table is cleared.\<close>

definition cache_get :: "CgroupClassifier \<Rightarrow> int \<times> quint64 \<Rightarrow> int \<Rightarrow> ContainerInfo list option" where
  "cache_get s key now =
     (case hfind (cg_cache s) (fst key) of
        None \<Rightarrow> None
      | Some e \<Rightarrow> if ce_startTime e = snd key \<and> now - ce_ts e < cg_cacheTtlMs s then Some (ce_chain e) else None)"

definition cache_put :: "int \<times> quint64 \<Rightarrow> ContainerInfo list \<Rightarrow> int \<Rightarrow> CgroupClassifier \<Rightarrow> CgroupClassifier" where
  "cache_put key chain now s =
     s\<lparr>cg_cache := hinsert (fst key) \<lparr>ce_chain = chain, ce_ts = now, ce_startTime = snd key\<rparr>
        (if kCacheMaxItems \<le> hsize (cg_cache s) then [] else cg_cache s)\<rparr>"

definition cg_resolveContainerChainForPid ::
  "ProcWorld \<Rightarrow> int \<Rightarrow> int \<Rightarrow> CgroupClassifier \<Rightarrow> ContainerInfo list \<times> CgroupClassifier" where
  "cg_resolveContainerChainForPid w now pid s =
     (if \<not> cg_ready s \<or> pid \<le> 0 then ([], s)
      else
        (case pidStartTime w pid of
           None \<Rightarrow> ([], s)
         | Some stNow \<Rightarrow>
             (case cache_get s (pid, stNow) now of
                Some chain \<Rightarrow> (chain, s)
              | None \<Rightarrow>
                  (let chain = cg_read w (cg_crioPreferred s) pid
                   in (chain, cache_put (pid, stNow) chain now s)))))"

definition cg_resolveContainerForPid ::
  "ProcWorld \<Rightarrow> int \<Rightarrow> int \<Rightarrow> CgroupClassifier \<Rightarrow> ContainerInfo option \<times> CgroupClassifier" where
  "cg_resolveContainerForPid w now pid s =
     (let (chain, s) = cg_resolveContainerChainForPid w now pid s
      in (if chain = [] then None else Some (last chain), s))"

definition cgroup_resolver :: "ProcWorld \<Rightarrow> bool \<Rightarrow> int \<Rightarrow> CgroupClassifier ProcessResolver" where
  "cgroup_resolver w selfOk now = \<lparr>
     rs_initialize = cg_initialize w selfOk,
     rs_capabilities = cg_capabilities,
     rs_setTuning = cg_setTuning,
     rs_requestDeepScan = (\<lambda>s. s),
     rs_resolvePid = (\<lambda>_ s. (0, s)),
     rs_enrichPid = (\<lambda>_ s. (None, s)),
     rs_resolveContainerForPid = cg_resolveContainerForPid w now,
     rs_resolveContainerChainForPid = cg_resolveContainerChainForPid w now\<rparr>"

section \<open>Facts about the cache\<close>

definition cg_ok :: "int \<Rightarrow> CgroupClassifier \<Rightarrow> bool" where
  "cg_ok ttl s = (hwf (cg_cache s) \<and> hsize (cg_cache s) \<le> kCacheMaxItems \<and> cg_cacheTtlMs s = ttl)"

text \<open>Seen as a cache keyed by pid and start time, it satisfies the contract of \<open>ttl_cache\<close>.\<close>

interpretation cgcache: ttl_cache cache_get cache_put "\<lambda>v t. v" "\<lambda>t now. now - t < ttl"
  "\<lambda>s. hsize (cg_cache s)" kCacheMaxItems "cg_ok ttl"
  for ttl :: int
proof
  fix c k v t now
  assume c: "cg_ok ttl c"
  show "cg_ok ttl (cache_put k v t c)"
    using c by (auto simp: cg_ok_def cache_put_def hsize_insert kCacheMaxItems_def)
  show "hsize (cg_cache c) \<le> kCacheMaxItems" using c by (simp add: cg_ok_def)
  show "cache_get (cache_put k v t c) k now = (if now - t < ttl then Some v else None)"
    using c by (simp add: cache_get_def cache_put_def cg_ok_def update_conv')
  fix k' u
  assume "k' \<noteq> k" and "cache_get (cache_put k v t c) k' now = Some u"
  then show "cache_get c k' now = Some u"
    by (cases k; cases k') (auto simp: cache_get_def cache_put_def update_conv' split: if_splits option.splits)
qed

text \<open>With \<open>/proc\<close> and the clock at rest, and a cache that only holds what the files say, the
  resolver's answers are stable.\<close>

definition cg_answers :: "ProcWorld \<Rightarrow> bool \<Rightarrow> Answers" where
  "cg_answers w crio = \<lparr>an_pid = (\<lambda>_. 0), an_enrich = (\<lambda>_. None),
     an_container = (\<lambda>pid. if pidStartTime w pid = None \<or> cg_read w crio pid = [] then None
                             else Some (last (cg_read w crio pid))),
     an_chain = (\<lambda>pid. if pidStartTime w pid = None then [] else cg_read w crio pid)\<rparr>"

definition cg_quiet :: "ProcWorld \<Rightarrow> bool \<Rightarrow> int \<Rightarrow> CgroupClassifier \<Rightarrow> bool" where
  "cg_quiet w crio now s =
     (cg_ready s \<and> cg_crioPreferred s = crio \<and>
      (\<forall>pid st ch. pidStartTime w pid = Some st \<and> cache_get s (pid, st) now = Some ch \<longrightarrow> ch = cg_read w crio pid))"

lemma pidStartTime_positive: "pidStartTime w pid = Some st \<Longrightarrow> 0 < pid"
  by (simp add: pidStartTime_def split: if_splits)

lemma cg_chain_quiet:
  assumes "cg_quiet w crio now s" and "cg_resolveContainerChainForPid w now pid s = (ch, t)"
  shows "ch = an_chain (cg_answers w crio) pid \<and> cg_quiet w crio now t"
proof (cases "pidStartTime w pid")
  case None
  then show ?thesis using assms by (auto simp: cg_resolveContainerChainForPid_def cg_answers_def split: if_splits)
next
  case (Some st)
  then have pos: "0 < pid" by (rule pidStartTime_positive)
  show ?thesis
  proof (cases "cache_get s (pid, st) now")
    case None
    then have "ch = cg_read w crio pid" and t: "t = cache_put (pid, st) ch now s"
      using assms Some pos by (auto simp: cg_resolveContainerChainForPid_def cg_quiet_def Let_def)
    moreover have "c = cg_read w crio p" if "pidStartTime w p = Some st'" "cache_get t (p, st') now = Some c" for p st' c
    proof (cases "p = pid")
      case True
      then show ?thesis using that Some \<open>ch = _\<close> t
        by (auto simp: cache_get_def cache_put_def update_conv' split: if_splits)
    next
      case False
      then have "cache_get s (p, st') now = Some c"
        using that(2) t by (auto simp: cache_get_def cache_put_def update_conv' split: if_splits option.splits)
      with that(1) assms(1) show ?thesis by (simp add: cg_quiet_def)
    qed
    ultimately show ?thesis
      using assms(1) Some by (auto simp: cg_answers_def cg_quiet_def cache_put_def)
  next
    case c: (Some c)
    then show ?thesis
      using assms Some pos by (auto simp: cg_resolveContainerChainForPid_def cg_quiet_def cg_answers_def)
  qed
qed

interpretation cg_res: stable_resolver "cgroup_resolver w selfOk now" "cg_quiet w crio now" "cg_answers w crio"
  for w selfOk now crio
proof
  fix s assume s: "cg_quiet w crio now s"
  show "ch = an_chain (cg_answers w crio) pid \<and> cg_quiet w crio now t"
    if "rs_resolveContainerChainForPid (cgroup_resolver w selfOk now) pid s = (ch, t)" for pid ch t
    using cg_chain_quiet [OF s] that by (simp add: cgroup_resolver_def)
  show "ci = an_container (cg_answers w crio) pid \<and> cg_quiet w crio now t"
    if r: "rs_resolveContainerForPid (cgroup_resolver w selfOk now) pid s = (ci, t)" for pid ci t
  proof -
    obtain ch where c: "cg_resolveContainerChainForPid w now pid s = (ch, t)"
      "ci = (if ch = [] then None else Some (last ch))"
      using r by (auto simp: cgroup_resolver_def cg_resolveContainerForPid_def split: prod.splits)
    from cg_chain_quiet [OF s c(1)] c(2) show ?thesis by (simp add: cg_answers_def)
  qed
qed (auto simp: cgroup_resolver_def cg_answers_def)

section \<open>A history of lookups\<close>

text \<open>The states reached from a fresh resolver by lookups and re-tuning, with the lookups made so far:
  what \<open>/proc\<close> held, when, and for which pid.\<close>

inductive cg_history :: "(ProcWorld \<times> int \<times> int) list \<Rightarrow> CgroupClassifier \<Rightarrow> bool" where
  fresh: "cg_history [] (snd (cg_initialize w selfOk (mk_CgroupClassifier tuning)))"
| lookup: "cg_history h s \<Longrightarrow> cg_history (h @ [(w, now, pid)]) (snd (cg_resolveContainerChainForPid w now pid s))"
| retune: "cg_history h s \<Longrightarrow> cg_history h (cg_setTuning tuning s)"

definition entry_from :: "(ProcWorld \<times> int \<times> int) list \<Rightarrow> bool \<Rightarrow> int \<Rightarrow> CgroupEntry \<Rightarrow> bool" where
  "entry_from h crio pid e = (\<exists>w. (w, ce_ts e, pid) \<in> set h \<and> pidStartTime w pid = Some (ce_startTime e) \<and>
     ce_chain e = cg_read w crio pid)"

lemma cg_step_fields:
  "cg_crioPreferred (snd (cg_resolveContainerChainForPid w now pid s)) = cg_crioPreferred s"
  "cg_cacheTtlMs (snd (cg_resolveContainerChainForPid w now pid s)) = cg_cacheTtlMs s"
  by (simp_all add: cg_resolveContainerChainForPid_def cache_put_def Let_def split: option.split)

lemma cg_history_ok:
  "cg_history h s \<Longrightarrow> cg_ok (cg_cacheTtlMs s) s \<and> kMinCacheTtlMs \<le> cg_cacheTtlMs s \<and>
    (\<forall>pid e. hfind (cg_cache s) pid = Some e \<longrightarrow> entry_from h (cg_crioPreferred s) pid e)"
proof (induction rule: cg_history.induct)
  case (fresh w selfOk tuning)
  then show ?case
    by (auto simp: cg_initialize_def mk_CgroupClassifier_def cg_ok_def safeContainerTtlMs_def
        kCacheTtlMs_def kMinCacheTtlMs_def)
next
  case (lookup h s w now pid)
  let ?h = "h @ [(w, now, pid)]" and ?t = "snd (cg_resolveContainerChainForPid w now pid s)"
  have old: "entry_from ?h (cg_crioPreferred s) p e" if "hfind (cg_cache s) p = Some e" for p e
    using lookup.IH that by (auto simp: entry_from_def)
  show ?case
  proof (cases "?t = s")
    case True
    then show ?thesis using lookup.IH old by simp
  next
    case False
    then obtain st where st: "pidStartTime w pid = Some st"
        "?t = cache_put (pid, st) (cg_read w (cg_crioPreferred s) pid) now s"
      by (auto simp: cg_resolveContainerChainForPid_def Let_def split: if_splits option.splits)
    have "entry_from ?h (cg_crioPreferred s) p e" if "hfind (cg_cache ?t) p = Some e" for p e
      using that old st by (auto simp: cache_put_def update_conv' entry_from_def split: if_splits)
    moreover have "cg_ok (cg_cacheTtlMs s) ?t"
      using cgcache.invar_put [of "cg_cacheTtlMs s" s] lookup.IH st(2) by simp
    ultimately show ?thesis using lookup.IH by (simp add: cg_step_fields)
  qed
next
  case (retune h s tuning)
  then show ?case
    by (auto simp: cg_setTuning_def cg_ok_def safeContainerTtlMs_def kCacheTtlMs_def kMinCacheTtlMs_def)
qed

section \<open>Properties\<close>

text \<open>C23: container badges never leak across pid reuse: after any history of lookups
  and re-tunings, a non-empty chain answered for a pid is what its cgroup file said for a process with the start
  time the pid has now, read by this or by an earlier lookup less than the
  current lifetime ago; and the cache never exceeds its cap.\<close>

theorem cgroup_cache_reuse_guard:
  assumes "cg_history h s" and "cg_resolveContainerChainForPid w now pid s = (ch, t)"
  shows "hsize (cg_cache t) \<le> kCacheMaxItems \<and>
    (ch = [] \<or> (\<exists>w' now'. (w', now', pid) \<in> set (h @ [(w, now, pid)]) \<and> pidStartTime w' pid \<noteq> None \<and>
       pidStartTime w' pid = pidStartTime w pid \<and> ch = cg_read w' (cg_crioPreferred s) pid \<and>
       (now' = now \<or> now - now' < cg_cacheTtlMs s)))"
proof -
  note ok = cg_history_ok [OF assms(1)]
  have "cg_history (h @ [(w, now, pid)]) t"
    using cg_history.lookup [OF assms(1), of w now pid] assms(2) by simp
  then have "hsize (cg_cache t) \<le> kCacheMaxItems" using cg_history_ok by (auto simp: cg_ok_def)
  moreover have "\<exists>w' now'. (w', now', pid) \<in> set (h @ [(w, now, pid)]) \<and> pidStartTime w' pid \<noteq> None \<and>
       pidStartTime w' pid = pidStartTime w pid \<and> ch = cg_read w' (cg_crioPreferred s) pid \<and>
       (now' = now \<or> now - now' < cg_cacheTtlMs s)" if ne: "ch \<noteq> []"
  proof -
    obtain st where st: "pidStartTime w pid = Some st"
      using assms(2) ne by (auto simp: cg_resolveContainerChainForPid_def split: if_splits option.splits)
    show ?thesis
    proof (cases "cache_get s (pid, st) now")
      case None
      then have "ch = cg_read w (cg_crioPreferred s) pid"
        using assms(2) ne st by (auto simp: cg_resolveContainerChainForPid_def Let_def split: if_splits)
      with st show ?thesis by (intro exI [of _ w] exI [of _ now]) simp
    next
      case (Some c)
      then have "ch = c" using assms(2) ne st
        by (auto simp: cg_resolveContainerChainForPid_def split: if_splits)
      then obtain e where e: "hfind (cg_cache s) pid = Some e" "ce_startTime e = st"
          "now - ce_ts e < cg_cacheTtlMs s" "ch = ce_chain e"
        using Some by (auto simp: cache_get_def split: option.splits if_splits)
      with ok obtain w' where "(w', ce_ts e, pid) \<in> set h" "pidStartTime w' pid = Some st"
          "ce_chain e = cg_read w' (cg_crioPreferred s) pid"
        by (auto simp: entry_from_def)
      with e st show ?thesis by (intro exI [of _ w'] exI [of _ "ce_ts e"]) simp
    qed
  qed
  ultimately show ?thesis by blast
qed

definition sample_world :: ProcWorld where
  "sample_world = \<lparr>pw_stat = (\<lambda>_. Some ''7 (a b) S 1 2 3 4 5 6 7 8 9 10 11 12 13 14 15 16 17 18 77 0''),
     pw_cgroup = (\<lambda>_. Some (''0::/system.slice/nginx.service'')), pw_crioSock = False\<rparr>"

lemma sample_fields:
  "after_last_paren ''7 (a b) S 1 2 3 4 5 6 7 8 9 10 11 12 13 14 15 16 17 18 77 0''
     = Some '' S 1 2 3 4 5 6 7 8 9 10 11 12 13 14 15 16 17 18 77 0''"
  "skip_fields 19 ''S 1 2 3 4 5 6 7 8 9 10 11 12 13 14 15 16 17 18 77 0'' = Some ''77 0''"
  by (simp_all add: eval_nat_numeral)

lemma sample_start: "pidStartTime sample_world 7 = Some 77"
  by (simp add: pidStartTime_def sample_world_def parseStartTime_def sample_fields toULongLong_def is_digit_def digit_val_def)

definition sample_classifier :: CgroupClassifier where
  "sample_classifier = snd (cg_initialize sample_world True (mk_CgroupClassifier balancedResolverTuning))"

theorem cgroup_cache_reuse_guard_witness:
  "cg_history [] sample_classifier \<and>
   fst (cg_resolveContainerChainForPid sample_world 5 7 sample_classifier) = [container ''systemd'' ''unit:nginx.service''] \<and>
   hsize (cg_cache (snd (cg_resolveContainerChainForPid sample_world 5 7 sample_classifier))) \<le> kCacheMaxItems"
proof -
  have h: "cg_history [] sample_classifier" unfolding sample_classifier_def by (rule cg_history.fresh)
  moreover have "classifyProcCgroupChain ''0::/system.slice/nginx.service'' Auto = [container ''systemd'' ''unit:nginx.service'']"
    by code_simp
  then have "fst (cg_resolveContainerChainForPid sample_world 5 7 sample_classifier) = [container ''systemd'' ''unit:nginx.service'']"
    by (simp add: cg_resolveContainerChainForPid_def sample_classifier_def cg_initialize_def mk_CgroupClassifier_def
        sample_start cache_get_def cg_read_def Let_def)
      (simp add: sample_world_def)
  ultimately show ?thesis using cgroup_cache_reuse_guard [OF h prod.collapse [symmetric]] by blast
qed

end
