(* ===== verification/HintTables.thy ===== *)
theory HintTables
  imports FlowTypes
begin

text \<open>
  The two per-client hint tables of the agent: polling cadence (\<open>agent/IdleManager.cpp\<close>) and
  attribution eagerness (\<open>agent/AttributionHintManager.cpp\<close>). Both keep at most 64 hints with an
  expiry time, refuse new senders when full rather than evicting others, and recompute an effective
  value. Time is an argument of every operation that reads the clock; the intervals handed to the
  monitors and the mode transitions emitted are outputs. Logging and the bus subscription itself are
  left out.
\<close>

section \<open>The shared contract\<close>

locale capped_hints =
  fixes hints :: "'s \<Rightarrow> (string, 'h) qhash"
    and set_hint :: "int \<Rightarrow> string \<Rightarrow> 'v \<Rightarrow> 's \<Rightarrow> bool \<times> 's"
    and live :: "int \<Rightarrow> 'h \<Rightarrow> bool"
    and cap :: nat
    and invar :: "'s \<Rightarrow> bool"
  assumes invar_set: "invar s \<Longrightarrow> invar (snd (set_hint now sender v s))"
    and invar_cap: "invar s \<Longrightarrow> hsize (hints s) \<le> cap"
    and others_kept: "invar s \<Longrightarrow> sender \<noteq> other \<Longrightarrow> hfind (hints s) other = Some h \<Longrightarrow> live now h \<Longrightarrow>
      hfind (hints (snd (set_hint now sender v s))) other = Some h"
    and rejected_unchanged: "\<not> fst (set_hint now sender v s) \<Longrightarrow> snd (set_hint now sender v s) = s"
    and accepted_known: "sender \<noteq> [] \<Longrightarrow> hcontains (hints s) sender \<Longrightarrow> fst (set_hint now sender v s)"
begin

definition set_all :: "(int \<times> string \<times> 'v) list \<Rightarrow> 's \<Rightarrow> 's" where
  "set_all calls s = foldl (\<lambda>s (now, sender, v). snd (set_hint now sender v s)) s calls"

lemma set_all_invar: "invar s \<Longrightarrow> invar (set_all calls s)"
  by (induction calls arbitrary: s) (auto simp: set_all_def invar_set)

text \<open>No flood of requests from other clients removes a hint before it expires.\<close>

lemma no_eviction:
  assumes "invar s" and "hfind (hints s) other = Some h"
    and "\<forall>(now, sender, v) \<in> set calls. sender \<noteq> other \<and> live now h"
  shows "hfind (hints (set_all calls s)) other = Some h \<and> hsize (hints (set_all calls s)) \<le> cap"
  using assms
proof (induction calls arbitrary: s)
  case Nil
  then show ?case by (simp add: set_all_def invar_cap)
next
  case (Cons c calls)
  obtain now sender v where c: "c = (now, sender, v)" by (metis prod_cases3)
  have "sender \<noteq> other" "live now h" using Cons.prems(3) c by simp_all
  then have "hfind (hints (snd (set_hint now sender v s))) other = Some h"
    using others_kept Cons.prems(1,2) by blast
  with Cons.IH [of "snd (set_hint now sender v s)"] Cons.prems(1,3) show ?case
    by (simp add: set_all_def c invar_set)
qed

end

section \<open>Polling cadence: \<open>IdleManager\<close>\<close>

record IdleConfig =
  activeIntervalMs :: int
  slow1IntervalMs :: int
  slow2IntervalMs :: int
  activeWindowMs :: int
  slow1WindowMs :: int
  slow2WindowMs :: int
  idleTimeoutMs :: int
  minIntervalMs :: int
  hintTtlMs :: int

definition default_IdleConfig :: IdleConfig where
  "default_IdleConfig = \<lparr>activeIntervalMs = 1000, slow1IntervalMs = 2000, slow2IntervalMs = 5000,
     activeWindowMs = 30000, slow1WindowMs = 45000, slow2WindowMs = 60000, idleTimeoutMs = 60000,
     minIntervalMs = 100, hintTtlMs = 10000\<rparr>"

record CadenceHint =
  ch_ms :: int
  ch_expiresAtMs :: int

record IdleManager =
  im_cfg :: IdleConfig
  im_since :: int
  im_currentMs :: int
  im_hints :: "(string, CadenceHint) qhash"

definition kMaxHints :: nat where "kMaxHints = 64"

text \<open>\<open>effectiveActiveIntervalMs\<close>: expired hints are erased while the minimum is taken.\<close>

definition im_effectiveActiveIntervalMs :: "int \<Rightarrow> IdleManager \<Rightarrow> int \<times> IdleManager" where
  "im_effectiveActiveIntervalMs now s =
     (let kept = hretain (\<lambda>_ h. \<not> ch_expiresAtMs h \<le> now) (im_hints s);
          best = fold (\<lambda>(_, h) best. min best (ch_ms h)) kept (activeIntervalMs (im_cfg s))
      in (max best (minIntervalMs (im_cfg s)), s\<lparr>im_hints := kept\<rparr>))"

text \<open>\<open>applyInterval\<close> hands the interval to both monitors and emits \<open>cadenceChanged\<close>.\<close>

definition im_applyInterval :: "int \<Rightarrow> IdleManager \<Rightarrow> int list \<times> IdleManager" where
  "im_applyInterval ms s = ([ms], s\<lparr>im_currentMs := ms\<rparr>)"

definition im_target :: "IdleConfig \<Rightarrow> int \<Rightarrow> int \<Rightarrow> int" where
  "im_target cfg elapsed active =
     (if (0 < idleTimeoutMs cfg \<and> idleTimeoutMs cfg \<le> elapsed) \<or>
         (0 < slow2WindowMs cfg \<and> slow2WindowMs cfg \<le> elapsed) then 0
      else if 0 < slow1WindowMs cfg \<and> slow1WindowMs cfg \<le> elapsed then max (slow2IntervalMs cfg) active
      else if 0 < activeWindowMs cfg \<and> activeWindowMs cfg \<le> elapsed then max (slow1IntervalMs cfg) active
      else active)"

definition im_evaluate :: "int \<Rightarrow> IdleManager \<Rightarrow> int list \<times> IdleManager" where
  "im_evaluate now s =
     (let elapsed = now - im_since s;
          (active, s) = im_effectiveActiveIntervalMs now s;
          target = im_target (im_cfg s) elapsed active
      in if target \<noteq> im_currentMs s then im_applyInterval target s else ([], s))"

definition im_noteActivity :: "int \<Rightarrow> IdleManager \<Rightarrow> int list \<times> IdleManager" where
  "im_noteActivity now s =
     (let (target, s) = im_effectiveActiveIntervalMs now (s\<lparr>im_since := now\<rparr>)
      in if im_currentMs s \<noteq> target then im_applyInterval target s else ([], s))"

definition mk_IdleManager :: "IdleConfig \<Rightarrow> int \<Rightarrow> int list \<times> IdleManager" where
  "mk_IdleManager cfg now =
     (let (target, s) = im_effectiveActiveIntervalMs now
            \<lparr>im_cfg = cfg, im_since = now, im_currentMs = -1, im_hints = []\<rparr>
      in im_applyInterval target s)"

definition im_setClientHint :: "int \<Rightarrow> string \<Rightarrow> int \<Rightarrow> IdleManager \<Rightarrow> bool \<times> int list \<times> IdleManager" where
  "im_setClientHint now sender ms s =
     (if sender = [] then (False, [], s)
      else if ms \<le> 0
      then (True, if hcontains (im_hints s) sender
                  then im_evaluate now (s\<lparr>im_hints := hremove sender (im_hints s)\<rparr>) else ([], s))
      else if \<not> hcontains (im_hints s) sender \<and> kMaxHints \<le> hsize (im_hints s) then (False, [], s)
      else
        (let clamped = max ms (minIntervalMs (im_cfg s));
             expiry = now + hintTtlMs (im_cfg s)
         in (True, im_evaluate now
               (s\<lparr>im_hints := hinsert sender \<lparr>ch_ms = clamped, ch_expiresAtMs = expiry\<rparr> (im_hints s)\<rparr>))))"

definition im_onNameOwnerChanged :: "int \<Rightarrow> string \<Rightarrow> string \<Rightarrow> string \<Rightarrow> IdleManager \<Rightarrow> int list \<times> IdleManager" where
  "im_onNameOwnerChanged now name oldOwner newOwner s =
     (if newOwner \<noteq> [] \<or> oldOwner = [] then ([], s)
      else if hcontains (im_hints s) name
      then im_evaluate now (s\<lparr>im_hints := hremove name (im_hints s)\<rparr>) else ([], s))"

section \<open>Attribution eagerness: \<open>AttributionHintManager\<close>\<close>

record ModeHint =
  mh_mode :: AttributionEagerness
  mh_expiresAtMs :: int

record AttributionHintManager =
  ah_configMode :: AttributionEagerness
  ah_hintTtlMs :: int
  ah_lastEmitted :: AttributionEagerness
  ah_hints :: "(string, ModeHint) qhash"

definition mk_AttributionHintManager :: "AttributionEagerness \<Rightarrow> int \<Rightarrow> AttributionHintManager" where
  "mk_AttributionHintManager configMode ttl =
     \<lparr>ah_configMode = configMode, ah_hintTtlMs = max 1 ttl, ah_lastEmitted = configMode, ah_hints = []\<rparr>"

text \<open>The loop of \<open>effectiveMode\<close>: \<open>None\<close> as long as no live hint was seen.\<close>

definition best_mode :: "int \<Rightarrow> (string, ModeHint) qhash \<Rightarrow> AttributionEagerness option" where
  "best_mode now hs =
     fold (\<lambda>(_, h) best. if mh_expiresAtMs h \<le> now then best
             else (case best of None \<Rightarrow> Some (mh_mode h) | Some b \<Rightarrow> Some (max b (mh_mode h)))) hs None"

definition ah_effectiveMode :: "int \<Rightarrow> AttributionHintManager \<Rightarrow> AttributionEagerness" where
  "ah_effectiveMode now s =
     (if ah_configMode s = Off then Off
      else (case best_mode now (ah_hints s) of Some b \<Rightarrow> b | None \<Rightarrow> ah_configMode s))"

definition ah_evaluate :: "int \<Rightarrow> AttributionHintManager \<Rightarrow> AttributionEagerness list \<times> AttributionHintManager" where
  "ah_evaluate now s =
     (let s = s\<lparr>ah_hints := hretain (\<lambda>_ h. \<not> mh_expiresAtMs h \<le> now) (ah_hints s)\<rparr>;
          eff = ah_effectiveMode now s
      in if eff \<noteq> ah_lastEmitted s then ([eff], s\<lparr>ah_lastEmitted := eff\<rparr>) else ([], s))"

definition ah_setHint ::
  "int \<Rightarrow> string \<Rightarrow> AttributionEagerness \<Rightarrow> AttributionHintManager
    \<Rightarrow> bool \<times> AttributionEagerness list \<times> AttributionHintManager" where
  "ah_setHint now sender mode s =
     (if sender = [] then (False, [], s)
      else if \<not> hcontains (ah_hints s) sender \<and> kMaxHints \<le> hsize (ah_hints s) then (False, [], s)
      else (True, ah_evaluate now (s\<lparr>ah_hints :=
              hinsert sender \<lparr>mh_mode = mode, mh_expiresAtMs = now + ah_hintTtlMs s\<rparr> (ah_hints s)\<rparr>)))"

definition ah_clearHint ::
  "int \<Rightarrow> string \<Rightarrow> AttributionHintManager \<Rightarrow> bool \<times> AttributionEagerness list \<times> AttributionHintManager" where
  "ah_clearHint now sender s =
     (if sender = [] then (False, [], s)
      else (True, if hcontains (ah_hints s) sender
                  then ah_evaluate now (s\<lparr>ah_hints := hremove sender (ah_hints s)\<rparr>) else ([], s)))"

definition ah_onNameOwnerChanged ::
  "int \<Rightarrow> string \<Rightarrow> string \<Rightarrow> string \<Rightarrow> AttributionHintManager \<Rightarrow> AttributionEagerness list \<times> AttributionHintManager" where
  "ah_onNameOwnerChanged now name oldOwner newOwner s =
     (if newOwner \<noteq> [] \<or> oldOwner = [] then ([], s)
      else if hcontains (ah_hints s) name
      then ah_evaluate now (s\<lparr>ah_hints := hremove name (ah_hints s)\<rparr>) else ([], s))"

section \<open>Facts about the cadence\<close>

definition im_ok :: "IdleManager \<Rightarrow> bool" where
  "im_ok s = (hwf (im_hints s) \<and> hsize (im_hints s) \<le> kMaxHints)"

lemma length_filter_bound: "length xs \<le> n \<Longrightarrow> length (filter P xs) \<le> n"
  using length_filter_le [of P xs] by linarith

lemma im_effective_sel:
  "snd (im_effectiveActiveIntervalMs now s) = s\<lparr>im_hints := hretain (\<lambda>_ h. \<not> ch_expiresAtMs h \<le> now) (im_hints s)\<rparr>"
  "minIntervalMs (im_cfg s) \<le> fst (im_effectiveActiveIntervalMs now s)"
  by (simp_all add: im_effectiveActiveIntervalMs_def Let_def)

lemma im_evaluate_state:
  "snd (im_evaluate now s) = s\<lparr>im_hints := hretain (\<lambda>_ h. \<not> ch_expiresAtMs h \<le> now) (im_hints s),
     im_currentMs := im_target (im_cfg s) (now - im_since s) (fst (im_effectiveActiveIntervalMs now s))\<rparr>"
  by (simp add: im_evaluate_def im_applyInterval_def im_effectiveActiveIntervalMs_def Let_def)

lemma im_noteActivity_state:
  "snd (im_noteActivity now s) = s\<lparr>im_since := now,
     im_hints := hretain (\<lambda>_ h. \<not> ch_expiresAtMs h \<le> now) (im_hints s),
     im_currentMs := fst (im_effectiveActiveIntervalMs now s)\<rparr>"
  by (simp add: im_noteActivity_def im_applyInterval_def im_effectiveActiveIntervalMs_def Let_def)

lemma im_target_floor: "m \<le> active \<Longrightarrow> im_target cfg elapsed active = 0 \<or> m \<le> im_target cfg elapsed active"
  by (auto simp: im_target_def)

text \<open>The effective interval is the smallest of the base interval and the live hints, but never
  below the floor.\<close>

lemma fold_min_init:
  "fold (\<lambda>(_, h) best. min best (ch_ms h)) hs (min (b::int) c) = min c (fold (\<lambda>(_, h) best. min best (ch_ms h)) hs b)"
proof (induction hs arbitrary: b)
  case (Cons x hs)
  obtain k h where x: "x = (k, h)" by fastforce
  have "min (min b c) (ch_ms h) = min (min b (ch_ms h)) c" by linarith
  with Cons.IH [of "min b (ch_ms h)"] show ?case by (simp add: x)
qed (simp add: min.commute)

lemma fold_min: "fold (\<lambda>(_, h) best. min best (ch_ms h)) hs (b::int) = Min (insert b ((\<lambda>(_, h). ch_ms h) ` set hs))"
proof (induction hs)
  case (Cons x hs)
  obtain k h where x: "x = (k, h)" by fastforce
  let ?S = "(\<lambda>(_, h). ch_ms h) ` set hs"
  have "Min (insert (ch_ms h) (insert b ?S)) = min (ch_ms h) (Min (insert b ?S))" by simp
  with Cons.IH show ?case by (simp only: x fold_simps(2) case_prod_conv fold_min_init insert_commute list.set image_insert)
qed simp

definition live_intervals :: "int \<Rightarrow> IdleManager \<Rightarrow> int set" where
  "live_intervals now s = {ch_ms h |k h. (k, h) \<in> set (im_hints s) \<and> now < ch_expiresAtMs h}"

lemma im_effective_value:
  "fst (im_effectiveActiveIntervalMs now s) =
    max (Min (insert (activeIntervalMs (im_cfg s)) (live_intervals now s))) (minIntervalMs (im_cfg s))"
proof -
  have "(\<lambda>(_, h). ch_ms h) ` set (hretain (\<lambda>_ h. \<not> ch_expiresAtMs h \<le> now) (im_hints s)) = live_intervals now s"
    by (force simp: live_intervals_def)
  then show ?thesis by (simp add: im_effectiveActiveIntervalMs_def Let_def fold_min)
qed

abbreviation set_cadence :: "int \<Rightarrow> string \<Rightarrow> int \<Rightarrow> IdleManager \<Rightarrow> bool \<times> IdleManager" where
  "set_cadence now sender ms s \<equiv>
     (fst (im_setClientHint now sender ms s), snd (snd (im_setClientHint now sender ms s)))"

lemmas im_set_simps = im_setClientHint_def im_evaluate_state Let_def

interpretation cadence: capped_hints im_hints set_cadence "\<lambda>now h. now < ch_expiresAtMs h" kMaxHints im_ok
proof
  fix s :: IdleManager and now ms :: int and sender other :: string and h
  assume ok: "im_ok s"
  show "im_ok (snd (set_cadence now sender ms s))"
    using ok hsize_remove_le [of sender "im_hints s"]
    by (auto simp: im_set_simps im_ok_def hsize_insert intro!: length_filter_bound)
  show "hsize (im_hints s) \<le> kMaxHints" using ok by (simp add: im_ok_def)
  assume "sender \<noteq> other" "hfind (im_hints s) other = Some h" "now < ch_expiresAtMs h"
  then show "hfind (im_hints (snd (set_cadence now sender ms s))) other = Some h"
    using ok by (auto simp: im_set_simps im_ok_def hwf_filter_find update_conv' delete_conv')
qed (auto simp: im_setClientHint_def Let_def split: if_splits)

section \<open>Facts about the mode\<close>

definition ah_ok :: "AttributionHintManager \<Rightarrow> bool" where
  "ah_ok s = (hwf (ah_hints s) \<and> hsize (ah_hints s) \<le> kMaxHints)"

lemma ah_evaluate_state:
  "snd (ah_evaluate now s) = s\<lparr>ah_hints := hretain (\<lambda>_ h. \<not> mh_expiresAtMs h \<le> now) (ah_hints s),
     ah_lastEmitted := ah_effectiveMode now (s\<lparr>ah_hints := hretain (\<lambda>_ h. \<not> mh_expiresAtMs h \<le> now) (ah_hints s)\<rparr>)\<rparr>"
  by (simp add: ah_evaluate_def Let_def)

abbreviation set_mode :: "int \<Rightarrow> string \<Rightarrow> AttributionEagerness \<Rightarrow> AttributionHintManager \<Rightarrow> bool \<times> AttributionHintManager" where
  "set_mode now sender m s \<equiv> (fst (ah_setHint now sender m s), snd (snd (ah_setHint now sender m s)))"

interpretation modes: capped_hints ah_hints set_mode "\<lambda>now h. now < mh_expiresAtMs h" kMaxHints ah_ok
proof
  fix s :: AttributionHintManager and now :: int and m and sender other :: string and h
  assume ok: "ah_ok s"
  show "ah_ok (snd (set_mode now sender m s))"
    using ok by (auto simp: ah_setHint_def ah_evaluate_state Let_def ah_ok_def hsize_insert intro!: length_filter_bound)
  show "hsize (ah_hints s) \<le> kMaxHints" using ok by (simp add: ah_ok_def)
  assume "sender \<noteq> other" "hfind (ah_hints s) other = Some h" "now < mh_expiresAtMs h"
  then show "hfind (ah_hints (snd (set_mode now sender m s))) other = Some h"
    using ok by (auto simp: ah_setHint_def ah_evaluate_state Let_def ah_ok_def hwf_filter_find update_conv')
qed (auto simp: ah_setHint_def Let_def split: if_splits)

text \<open>The loop computes the most eager live mode.\<close>

definition live_modes :: "int \<Rightarrow> (string, ModeHint) qhash \<Rightarrow> AttributionEagerness set" where
  "live_modes now hs = {mh_mode h |k h. (k, h) \<in> set hs \<and> now < mh_expiresAtMs h}"

lemma finite_live_modes [simp]: "finite (live_modes now hs)"
proof -
  have "live_modes now hs \<subseteq> (\<lambda>(k, h). mh_mode h) ` set hs" by (force simp: live_modes_def)
  then show ?thesis by (rule finite_subset) simp
qed

lemma best_mode_spec:
  "best_mode now hs = (if live_modes now hs = {} then None else Some (Max (live_modes now hs)))"
proof (induction hs rule: rev_induct)
  case Nil
  then show ?case by (simp add: best_mode_def live_modes_def)
next
  case (snoc x hs)
  obtain k h where x: "x = (k, h)" by fastforce
  have "live_modes now (hs @ [x]) = (if now < mh_expiresAtMs h then insert (mh_mode h) (live_modes now hs) else live_modes now hs)"
    by (auto simp: live_modes_def x)
  moreover have "best_mode now (hs @ [x]) = (if mh_expiresAtMs h \<le> now then best_mode now hs
      else (case best_mode now hs of None \<Rightarrow> Some (mh_mode h) | Some b \<Rightarrow> Some (max b (mh_mode h))))"
    by (simp add: best_mode_def x)
  ultimately show ?case using snoc by (auto simp: max.commute)
qed

lemma live_modes_pruned: "live_modes now (hretain (\<lambda>_ h. \<not> mh_expiresAtMs h \<le> now) hs) = live_modes now hs"
  unfolding live_modes_def by force

lemma ah_effectiveMode_spec:
  "ah_effectiveMode now s = (if ah_configMode s = Off then Off
     else if live_modes now (ah_hints s) = {} then ah_configMode s else Max (live_modes now (ah_hints s)))"
  by (simp add: ah_effectiveMode_def best_mode_spec)

section \<open>Properties\<close>

text \<open>The states the two managers can reach.\<close>

inductive im_reachable :: "IdleConfig \<Rightarrow> IdleManager \<Rightarrow> bool" for cfg where
  im_start: "im_reachable cfg (snd (mk_IdleManager cfg now))"
| im_activity: "im_reachable cfg s \<Longrightarrow> im_reachable cfg (snd (im_noteActivity now s))"
| im_tick: "im_reachable cfg s \<Longrightarrow> im_reachable cfg (snd (im_evaluate now s))"
| im_hint: "im_reachable cfg s \<Longrightarrow> im_reachable cfg (snd (snd (im_setClientHint now sender ms s)))"
| im_owner: "im_reachable cfg s \<Longrightarrow> im_reachable cfg (snd (im_onNameOwnerChanged now name oldOwner newOwner s))"

inductive ah_reachable :: "AttributionEagerness \<Rightarrow> AttributionHintManager \<Rightarrow> bool" for cfg where
  ah_start: "ah_reachable cfg (mk_AttributionHintManager cfg ttl)"
| ah_tick: "ah_reachable cfg s \<Longrightarrow> ah_reachable cfg (snd (ah_evaluate now s))"
| ah_hint: "ah_reachable cfg s \<Longrightarrow> ah_reachable cfg (snd (snd (ah_setHint now sender mode s)))"
| ah_clear: "ah_reachable cfg s \<Longrightarrow> ah_reachable cfg (snd (snd (ah_clearHint now sender s)))"
| ah_owner: "ah_reachable cfg s \<Longrightarrow> ah_reachable cfg (snd (ah_onNameOwnerChanged now name oldOwner newOwner s))"

definition cadence_ok :: "IdleConfig \<Rightarrow> IdleManager \<Rightarrow> bool" where
  "cadence_ok cfg s = (im_ok s \<and> im_cfg s = cfg \<and> (im_currentMs s = 0 \<or> minIntervalMs cfg \<le> im_currentMs s))"

lemma cadence_ok_evaluate:
  assumes "im_ok s" and "im_cfg s = cfg" shows "cadence_ok cfg (snd (im_evaluate now s))"
  using assms im_target_floor [OF im_effective_sel(2) [of s now], of cfg "now - im_since s"]
  by (auto simp: cadence_ok_def im_evaluate_state im_ok_def intro: length_filter_bound)

lemma im_ok_remove: "im_ok s \<Longrightarrow> im_ok (s\<lparr>im_hints := hremove k (im_hints s)\<rparr>)"
  using hsize_remove_le [of k "im_hints s"] by (auto simp: im_ok_def)

lemma im_ok_insert:
  "im_ok s \<Longrightarrow> hcontains (im_hints s) k \<or> hsize (im_hints s) < kMaxHints \<Longrightarrow> im_ok (s\<lparr>im_hints := hinsert k h (im_hints s)\<rparr>)"
  by (auto simp: im_ok_def hsize_insert)

lemma cadence_ok_reachable: "im_reachable cfg s \<Longrightarrow> cadence_ok cfg s"
proof (induction rule: im_reachable.induct)
  case (im_start now)
  show ?case
    by (auto simp: mk_IdleManager_def im_applyInterval_def im_effectiveActiveIntervalMs_def cadence_ok_def im_ok_def Let_def)
next
  case (im_activity s now)
  then show ?case
    using im_effective_sel(2) [of s now]
    by (auto simp: cadence_ok_def im_noteActivity_state im_ok_def intro: length_filter_bound)
next
  case (im_tick s now)
  then show ?case by (simp add: cadence_ok_evaluate cadence_ok_def [of _ s])
next
  case (im_hint s now sender ms)
  then have s: "im_ok s" "im_cfg s = cfg" by (simp_all add: cadence_ok_def)
  show ?case
    using im_hint.IH s
    by (auto simp: im_setClientHint_def Let_def intro!: cadence_ok_evaluate im_ok_remove im_ok_insert)
next
  case (im_owner s now name oldOwner newOwner)
  then have s: "im_ok s" "im_cfg s = cfg" by (simp_all add: cadence_ok_def)
  show ?case
    using im_owner.IH s
    by (auto simp: im_onNameOwnerChanged_def intro!: cadence_ok_evaluate im_ok_remove)
qed

text \<open>C34: polling never runs faster than the configured floor: in every reachable state the
  applied interval is 0 (paused) or at least \<open>minIntervalMs\<close>, whatever clients ask for and whatever the
  schedule says, and the hint table holds at most 64 senders.\<close>

theorem cadence_never_below_floor:
  assumes "im_reachable cfg s"
  shows "(im_currentMs s = 0 \<or> minIntervalMs cfg \<le> im_currentMs s) \<and> hsize (im_hints s) \<le> 64"
  using cadence_ok_reachable [OF assms] by (simp add: cadence_ok_def im_ok_def kMaxHints_def)

theorem cadence_never_below_floor_witness:
  "let s = snd (snd (im_setClientHint 5 '':1.7'' 1 (snd (mk_IdleManager default_IdleConfig 0)))) in
     im_currentMs s = 100 \<and> (im_currentMs s = 0 \<or> minIntervalMs default_IdleConfig \<le> im_currentMs s)"
proof -
  let ?s = "snd (snd (im_setClientHint 5 '':1.7'' 1 (snd (mk_IdleManager default_IdleConfig 0))))"
  have "im_reachable default_IdleConfig ?s" by (intro im_reachable.intros)
  from cadence_never_below_floor [OF this]
  have "im_currentMs ?s = 0 \<or> minIntervalMs default_IdleConfig \<le> im_currentMs ?s" by blast
  moreover have "im_currentMs ?s = 100" by code_simp
  ultimately show ?thesis by (simp add: Let_def)
qed

text \<open>Activity restores full speed at once: after any client call the applied interval is the
  smallest of the base interval and the live hints, raised to the floor; and once the idle timeout has
  passed without activity the next tick pauses polling.\<close>

theorem activity_restores_cadence:
  "im_currentMs (snd (im_noteActivity now s)) =
     max (Min (insert (activeIntervalMs (im_cfg s)) (live_intervals now s))) (minIntervalMs (im_cfg s)) \<and>
   (0 < idleTimeoutMs (im_cfg s) \<and> idleTimeoutMs (im_cfg s) \<le> now - im_since s \<longrightarrow>
     im_currentMs (snd (im_evaluate now s)) = 0)"
  by (simp add: im_noteActivity_state im_effective_value im_evaluate_state im_target_def)

theorem activity_restores_cadence_witness:
  "im_currentMs (snd (im_evaluate 60000 (snd (mk_IdleManager default_IdleConfig 0)))) = 0 \<and>
   im_currentMs (snd (im_noteActivity 60001 (snd (im_evaluate 60000 (snd (mk_IdleManager default_IdleConfig 0)))))) = 1000"
proof
  let ?s = "snd (mk_IdleManager default_IdleConfig 0)"
  have f: "idleTimeoutMs (im_cfg ?s) = 60000" "im_since ?s = 0"
    by (simp_all add: mk_IdleManager_def im_applyInterval_def im_effectiveActiveIntervalMs_def default_IdleConfig_def Let_def)
  show "im_currentMs (snd (im_evaluate 60000 ?s)) = 0"
    using activity_restores_cadence [of 60000 ?s] f by simp
  show "im_currentMs (snd (im_noteActivity 60001 (snd (im_evaluate 60000 ?s)))) = 1000"
    by code_simp
qed

text \<open>A client cannot push out another client's hint: whatever sequence of hint requests other
  senders make, a hint that has not expired stays, for the polling cadence as for the attribution
  mode.\<close>

theorem hints_not_evicted:
  assumes "im_ok s" and "hfind (im_hints s) other = Some h"
    and "\<forall>(now, sender, ms) \<in> set calls. sender \<noteq> other \<and> now < ch_expiresAtMs h"
    and "ah_ok a" and "hfind (ah_hints a) other = Some g"
    and "\<forall>(now, sender, m) \<in> set requests. sender \<noteq> other \<and> now < mh_expiresAtMs g"
  shows "hfind (im_hints (foldl (\<lambda>s (now, sender, ms). snd (snd (im_setClientHint now sender ms s))) s calls)) other = Some h \<and>
    hfind (ah_hints (foldl (\<lambda>a (now, sender, m). snd (snd (ah_setHint now sender m a))) a requests)) other = Some g"
  using cadence.no_eviction [OF assms(1-3)] modes.no_eviction [OF assms(4-6)]
  by (simp add: cadence.set_all_def modes.set_all_def)

theorem hints_not_evicted_witness:
  "hfind (im_hints (foldl (\<lambda>s (now, sender, ms). snd (snd (im_setClientHint now sender ms s)))
      (snd (snd (im_setClientHint 0 '':1.1'' 500 (snd (mk_IdleManager default_IdleConfig 0))))) [(5, '':1.2'', 200)])) '':1.1''
    = Some \<lparr>ch_ms = 500, ch_expiresAtMs = 10000\<rparr>"
proof -
  let ?s = "snd (snd (im_setClientHint 0 '':1.1'' 500 (snd (mk_IdleManager default_IdleConfig 0))))"
  let ?a = "snd (snd (ah_setHint 0 '':1.1'' Eager (mk_AttributionHintManager Balanced 10000)))"
  have "im_reachable default_IdleConfig ?s" by (intro im_reachable.intros)
  then have i: "im_ok ?s" using cadence_ok_reachable by (auto simp: cadence_ok_def)
  have fi: "hfind (im_hints ?s) '':1.1'' = Some \<lparr>ch_ms = 500, ch_expiresAtMs = 10000\<rparr>" by code_simp
  have a: "ah_ok ?a"
    by (simp add: ah_setHint_def ah_evaluate_state mk_AttributionHintManager_def ah_ok_def kMaxHints_def hwf_def)
  have fa: "hfind (ah_hints ?a) '':1.1'' = Some \<lparr>mh_mode = Eager, mh_expiresAtMs = 10000\<rparr>" by code_simp
  show ?thesis
    using hints_not_evicted [OF i fi _ a fa, of "[(5, '':1.2'', 200)]" "[]"] by simp
qed

text \<open>The effective attribution mode obeys its three rules: configured off it is off; otherwise
  the most eager live hint decides, and without live hints the configuration; and whenever a hint is accepted,
  the mode that was last announced is the effective one, announced exactly when it changed.\<close>

theorem effective_mode_rules:
  "ah_effectiveMode now s = (if ah_configMode s = Off then Off
     else if live_modes now (ah_hints s) = {} then ah_configMode s else Max (live_modes now (ah_hints s))) \<and>
   (case ah_setHint now sender mode s of (accepted, out, t) \<Rightarrow>
      if accepted then ah_lastEmitted t = ah_effectiveMode now t \<and>
        out = (if ah_lastEmitted t = ah_lastEmitted s then [] else [ah_effectiveMode now t]) \<and>
        (0 < ah_hintTtlMs s \<longrightarrow>
          hfind (ah_hints t) sender = Some \<lparr>mh_mode = mode, mh_expiresAtMs = now + ah_hintTtlMs s\<rparr>)
      else out = [] \<and> t = s)"
proof (intro conjI)
  have eff: "ah_effectiveMode now (t\<lparr>ah_lastEmitted := x\<rparr>) = ah_effectiveMode now t" for t x
    by (simp add: ah_effectiveMode_def split: option.split)
  have find: "hfind (filter P (hinsert k v m)) k = Some v" if "P (k, v)" for P k v and m :: "(string, ModeHint) qhash"
    using that by (induction m) auto
  show "case ah_setHint now sender mode s of (accepted, out, t) \<Rightarrow>
      if accepted then ah_lastEmitted t = ah_effectiveMode now t \<and>
        out = (if ah_lastEmitted t = ah_lastEmitted s then [] else [ah_effectiveMode now t]) \<and>
        (0 < ah_hintTtlMs s \<longrightarrow>
          hfind (ah_hints t) sender = Some \<lparr>mh_mode = mode, mh_expiresAtMs = now + ah_hintTtlMs s\<rparr>)
      else out = [] \<and> t = s"
    by (simp add: ah_setHint_def ah_evaluate_def Let_def eff find)
qed (rule ah_effectiveMode_spec)

theorem effective_mode_rules_witness:
  "let t = snd (snd (ah_setHint 2 '':1.1'' Eager (mk_AttributionHintManager Balanced 10000))) in
     ah_lastEmitted t = Eager \<and> hfind (ah_hints t) '':1.1'' = Some \<lparr>mh_mode = Eager, mh_expiresAtMs = 10002\<rparr>"
proof -
  let ?s = "mk_AttributionHintManager Balanced 10000"
  have "ah_lastEmitted (snd (snd (ah_setHint 2 '':1.1'' Eager ?s))) = Eager" by code_simp
  moreover have "fst (ah_setHint 2 '':1.1'' Eager ?s)" "ah_hintTtlMs ?s = 10000" by code_simp+
  ultimately show ?thesis
    using effective_mode_rules [of 2 ?s "'':1.1''" Eager] by (auto simp: Let_def split: prod.splits)
qed

lemma ah_off_evaluate:
  "ah_configMode s = Off \<Longrightarrow> ah_lastEmitted s = Off \<Longrightarrow>
   ah_configMode (snd (ah_evaluate now s)) = Off \<and> ah_lastEmitted (snd (ah_evaluate now s)) = Off \<and> fst (ah_evaluate now s) = []"
  by (simp add: ah_evaluate_def Let_def ah_effectiveMode_def)

text \<open>Attribution configured off cannot be re-enabled at run time: in every reachable state the
  effective mode is off, at any time and whatever hints are set, and no mode change is ever announced.\<close>

theorem config_off_stays_off:
  assumes "ah_reachable Off s"
  shows "ah_effectiveMode now s = Off \<and> ah_lastEmitted s = Off \<and> fst (ah_evaluate now s) = [] \<and>
    fst (snd (ah_setHint now sender mode s)) = []"
proof -
  have "ah_configMode s = Off \<and> ah_lastEmitted s = Off"
    using assms
  proof (induction rule: ah_reachable.induct)
    case (ah_start ttl)
    show ?case by (simp add: mk_AttributionHintManager_def)
  qed (auto simp: ah_off_evaluate ah_setHint_def ah_clearHint_def ah_onNameOwnerChanged_def)
  then show ?thesis by (simp add: ah_off_evaluate ah_setHint_def) (simp add: ah_effectiveMode_def)
qed

theorem config_off_stays_off_witness:
  "ah_effectiveMode 3 (snd (snd (ah_setHint 2 '':1.1'' Eager (mk_AttributionHintManager Off 10000)))) = Off"
proof -
  have "ah_reachable Off (snd (snd (ah_setHint 2 '':1.1'' Eager (mk_AttributionHintManager Off 10000))))"
    by (intro ah_reachable.intros)
  from config_off_stays_off [OF this] show ?thesis by blast
qed

end
