(* ===== verification/AgentConfig.thy ===== *)
theory AgentConfig
  imports HintTables Resolver
begin

text \<open>
  The agent's configuration loaders (\<open>agent/Config.cpp\<close>). \<open>QSettings\<close> is the map from keys to
  the list of comma-separated values of an INI file; \<open>None\<close> instead of a map means the file does not
  exist. The integer conversions of \<open>QString\<close> are written out: they trim, take an optional sign
  and digits, and give 0 for anything else or out of range.
\<close>

section \<open>Reading values\<close>

type_synonym Ini = "string \<Rightarrow> string list option"

definition ini_toString :: "Ini \<Rightarrow> string \<Rightarrow> string \<Rightarrow> string" where
  "ini_toString ini key dflt = (case ini key of None \<Rightarrow> dflt | Some [s] \<Rightarrow> s | Some _ \<Rightarrow> [])"

definition parse_int :: "int \<Rightarrow> int \<Rightarrow> string \<Rightarrow> int" where
  "parse_int lo hi s =
     (let t = trimmed s;
          (neg, ds) = (case t of CHR ''-'' # r \<Rightarrow> (True, r) | CHR ''+'' # r \<Rightarrow> (False, r) | _ \<Rightarrow> (False, t));
          v = (if neg then - int (read_nat ds 0) else int (read_nat ds 0))
      in if ds \<noteq> [] \<and> list_all is_digit ds \<and> lo \<le> v \<and> v \<le> hi then v else 0)"

definition toInt :: "string \<Rightarrow> int" where
  "toInt s = parse_int (-2147483648) 2147483647 s"

definition toLongLong :: "string \<Rightarrow> int" where
  "toLongLong s = parse_int (-9223372036854775808) 9223372036854775807 s"

definition ini_int :: "(string \<Rightarrow> int) \<Rightarrow> Ini \<Rightarrow> string \<Rightarrow> int \<Rightarrow> int" where
  "ini_int conv ini key dflt = (case ini key of None \<Rightarrow> dflt | Some _ \<Rightarrow> conv (ini_toString ini key []))"

definition clampCfg :: "int \<Rightarrow> int \<Rightarrow> int \<Rightarrow> int \<Rightarrow> int" where
  "clampCfg raw lo hi fallback = (if raw < lo \<or> hi < raw then fallback else raw)"

definition parseBoolToken :: "string \<Rightarrow> bool option" where
  "parseBoolToken v =
     (let t = toLower (trimmed v) in
      if t \<in> {''true'', ''yes'', ''1'', ''on''} then Some True
      else if t \<in> {''false'', ''no'', ''0'', ''off''} then Some False
      else None)"

definition readBoolCfg :: "Ini \<Rightarrow> string \<Rightarrow> bool \<Rightarrow> bool" where
  "readBoolCfg ini key fallback =
     (if ini key = None then fallback
      else (case parseBoolToken (trimmed (ini_toString ini key [])) of Some b \<Rightarrow> b | None \<Rightarrow> fallback))"

definition readAttributionOverrideMs :: "Ini \<Rightarrow> string \<Rightarrow> int \<Rightarrow> int \<Rightarrow> int" where
  "readAttributionOverrideMs ini key lo hi =
     (let raw = ini_int toInt ini key 0 in
      if raw = 0 then 0 else if raw < lo \<or> hi < raw then 0 else raw)"

section \<open>Polling schedule\<close>

definition kMinMs :: int where [cfg_simps]: "kMinMs = 10"
definition kMaxMs :: int where [cfg_simps]: "kMaxMs = 3600000"
definition kMaxWin :: int where [cfg_simps]: "kMaxWin = 86400000"
definition kMaxSec :: int where [cfg_simps]: "kMaxSec = 86400"

definition secsToMsInline :: "int \<Rightarrow> int \<Rightarrow> int" where
  "secsToMsInline raw defaultMs = (if raw < 0 \<or> kMaxSec < raw then defaultMs else raw * 1000)"

definition secsToMs :: "Ini \<Rightarrow> string \<Rightarrow> int \<Rightarrow> int" where
  "secsToMs ini key defaultMs = secsToMsInline (ini_int toLongLong ini key (defaultMs div 1000)) defaultMs"

fun join_commas :: "string list \<Rightarrow> string" where
  "join_commas [] = []"
| "join_commas [s] = s"
| "join_commas (s # ss) = s @ '','' @ join_commas ss"

text \<open>The parts of a schedule entry, if it has the form \<open>window:interval\<close>.\<close>

definition schedule_pair :: "string list \<Rightarrow> nat \<Rightarrow> (string \<times> string) option" where
  "schedule_pair pairs i =
     (if i < length pairs
      then (case qsplit (CHR '':'') (pairs ! i) of [a, b] \<Rightarrow> Some (a, b) | _ \<Rightarrow> None)
      else None)"

text \<open>The \<open>[poll]\<close> and \<open>[idle]\<close> keys, then the three schedule entries, each step in the order of
  the source: later bounds use the floor already read.\<close>

definition load_intervals :: "Ini \<Rightarrow> IdleConfig \<Rightarrow> IdleConfig" where
  "load_intervals ini cfg =
     (let cfg = cfg\<lparr>minIntervalMs := clampCfg (ini_int toInt ini ''poll/min_interval_ms'' (minIntervalMs cfg))
                     kMinMs kMaxMs (minIntervalMs cfg)\<rparr>;
          cfg = cfg\<lparr>activeIntervalMs := clampCfg (ini_int toInt ini ''poll/base_interval_ms'' (activeIntervalMs cfg))
                     (minIntervalMs cfg) kMaxMs (activeIntervalMs cfg)\<rparr>;
          cfg = cfg\<lparr>idleTimeoutMs := secsToMs ini ''idle/timeout_secs'' (idleTimeoutMs cfg)\<rparr>
      in cfg\<lparr>hintTtlMs := clampCfg (secsToMs ini ''idle/hint_ttl_secs'' (hintTtlMs cfg))
               kMinMs kMaxWin (hintTtlMs cfg)\<rparr>)"

definition load_pair1 :: "string list \<Rightarrow> IdleConfig \<Rightarrow> IdleConfig" where
  "load_pair1 pairs cfg =
     (case schedule_pair pairs 0 of
        None \<Rightarrow> cfg
      | Some (win, ivl) \<Rightarrow>
          cfg\<lparr>activeWindowMs := secsToMsInline (toLongLong (trimmed win)) (activeWindowMs cfg),
              slow1IntervalMs := clampCfg (toInt (trimmed ivl)) (minIntervalMs cfg) kMaxMs (slow1IntervalMs cfg)\<rparr>)"

definition load_pair2 :: "string list \<Rightarrow> IdleConfig \<Rightarrow> IdleConfig" where
  "load_pair2 pairs cfg =
     (case schedule_pair pairs 1 of
        None \<Rightarrow> cfg
      | Some (win, ivl) \<Rightarrow>
          cfg\<lparr>slow1WindowMs := secsToMsInline (toLongLong (trimmed win)) (slow1WindowMs cfg),
              slow2IntervalMs := clampCfg (toInt (trimmed ivl)) (minIntervalMs cfg) kMaxMs (slow2IntervalMs cfg)\<rparr>)"

definition load_pair3 :: "string list \<Rightarrow> IdleConfig \<Rightarrow> IdleConfig" where
  "load_pair3 pairs cfg =
     (case schedule_pair pairs 2 of
        None \<Rightarrow> cfg
      | Some (win, ivl) \<Rightarrow>
          cfg\<lparr>slow2WindowMs := secsToMsInline (toLongLong (trimmed win)) (slow2WindowMs cfg)\<rparr>)"

definition loadIdleConfig :: "Ini option \<Rightarrow> IdleConfig" where
  "loadIdleConfig conf =
     (case conf of
        None \<Rightarrow> default_IdleConfig
      | Some ini \<Rightarrow>
          (let cfg = load_intervals ini default_IdleConfig;
               sched = (case ini ''idle/schedule'' of None \<Rightarrow> ''30:2000,45:5000,60:0'' | Some l \<Rightarrow> join_commas l);
               pairs = qsplit_skip (CHR '','') sched
           in load_pair3 pairs (load_pair2 pairs (load_pair1 pairs cfg))))"

section \<open>Attribution\<close>

definition default_AttributionConfig :: ProcessResolverConfig where
  "default_AttributionConfig = \<lparr>cfg_eagerness = Balanced, cfg_processAttribution = True,
     cfg_containerAttribution = True, cfg_netnsScan = True, cfg_tuning = balancedResolverTuning\<rparr>"

definition loadAttributionConfig :: "Ini option \<Rightarrow> ProcessResolverConfig" where
  "loadAttributionConfig conf =
     (case conf of
        None \<Rightarrow> default_AttributionConfig
      | Some ini \<Rightarrow>
          (let cfg = default_AttributionConfig;
               eagerness = toLower (trimmed (ini_toString ini ''attribution/eagerness'' ''balanced''));
               cfg = cfg\<lparr>cfg_eagerness := (if eagerness = ''off'' then Off else if eagerness = ''balanced'' then Balanced
                          else if eagerness = ''eager'' then Eager else Balanced)\<rparr>;
               cacheOverrideMs = readAttributionOverrideMs ini ''attribution/cache_refresh_ms'' 100 60000;
               netnsOverrideMs = readAttributionOverrideMs ini ''attribution/netns_refresh_ms'' 250 300000;
               cfg = cfg\<lparr>cfg_tuning := resolverTuningFor (cfg_eagerness cfg) cacheOverrideMs netnsOverrideMs\<rparr>
           in if cfg_eagerness cfg = Off
              then cfg\<lparr>cfg_processAttribution := False, cfg_containerAttribution := False, cfg_netnsScan := False\<rparr>
              else
                (let cfg = cfg\<lparr>cfg_processAttribution := readBoolCfg ini ''attribution/process'' (cfg_processAttribution cfg),
                               cfg_containerAttribution := readBoolCfg ini ''attribution/container'' (cfg_containerAttribution cfg),
                               cfg_netnsScan := readBoolCfg ini ''attribution/netns'' (cfg_netnsScan cfg)\<rparr>
                 in if \<not> cfg_processAttribution cfg \<and> (cfg_containerAttribution cfg \<or> cfg_netnsScan cfg)
                    then cfg\<lparr>cfg_containerAttribution := False, cfg_netnsScan := False\<rparr> else cfg)))"

section \<open>Disclosure of process details\<close>

datatype DisclosureMode = Owner | Permissive | Restricted

record ProcessDetailsPolicy =
  pd_mode :: DisclosureMode
  pd_allowUsers :: "string list"
  pd_allowGroups :: "string list"

text \<open>Splitting at runs of white space and commas, dropping empty parts.\<close>

definition list_tokens :: "string \<Rightarrow> string list" where
  "list_tokens s = qsplit_skip (CHR '','') (map (\<lambda>c. if rx_space c then CHR '','' else c) s)"

definition splitList :: "Ini \<Rightarrow> string \<Rightarrow> string list" where
  "splitList ini key =
     rev (remdups (rev (map trimmed (concat (map list_tokens (case ini key of None \<Rightarrow> [] | Some l \<Rightarrow> l))))))"

definition loadProcessDetailsPolicy :: "Ini option \<Rightarrow> ProcessDetailsPolicy" where
  "loadProcessDetailsPolicy conf =
     (case conf of
        None \<Rightarrow> \<lparr>pd_mode = Owner, pd_allowUsers = [], pd_allowGroups = []\<rparr>
      | Some ini \<Rightarrow>
          (let m = toLower (trimmed (ini_toString ini ''process_details/disclosure'' ''owner'')) in
           \<lparr>pd_mode = (if m = ''owner'' then Owner
                       else if m = ''permissive'' \<or> m = ''all'' then Permissive
                       else if m = ''restricted'' \<or> m = ''users'' then Restricted
                       else Owner),
            pd_allowUsers = splitList ini ''process_details/allow_users'',
            pd_allowGroups = splitList ini ''process_details/allow_groups''\<rparr>))"

section \<open>Facts\<close>

lemma clampCfg_bounds:
  "a \<le> lo \<Longrightarrow> hi \<le> b \<Longrightarrow> a \<le> fallback \<Longrightarrow> fallback \<le> b \<Longrightarrow> a \<le> clampCfg raw lo hi fallback \<and> clampCfg raw lo hi fallback \<le> b"
  by (auto simp: clampCfg_def)

lemma secsToMsInline_bounds:
  "0 \<le> d \<Longrightarrow> d \<le> kMaxWin \<Longrightarrow> 0 \<le> secsToMsInline raw d \<and> secsToMsInline raw d \<le> kMaxWin"
  by (auto simp: secsToMsInline_def cfg_simps)

definition interval_ok :: "int \<Rightarrow> bool" where
  "interval_ok ms = (kMinMs \<le> ms \<and> ms \<le> kMaxMs)"

definition window_ok :: "int \<Rightarrow> bool" where
  "window_ok ms = (0 \<le> ms \<and> ms \<le> kMaxWin)"

definition idle_config_ok :: "IdleConfig \<Rightarrow> bool" where
  "idle_config_ok cfg = (interval_ok (minIntervalMs cfg) \<and> interval_ok (activeIntervalMs cfg) \<and>
     interval_ok (slow1IntervalMs cfg) \<and> interval_ok (slow2IntervalMs cfg) \<and>
     window_ok (activeWindowMs cfg) \<and> window_ok (slow1WindowMs cfg) \<and> window_ok (slow2WindowMs cfg) \<and>
     window_ok (idleTimeoutMs cfg) \<and> kMinMs \<le> hintTtlMs cfg \<and> hintTtlMs cfg \<le> kMaxWin)"

lemma interval_ok_clamp: "interval_ok lo \<Longrightarrow> interval_ok d \<Longrightarrow> interval_ok (clampCfg raw lo kMaxMs d)"
  by (auto simp: interval_ok_def clampCfg_def)

lemma window_ok_secs: "window_ok d \<Longrightarrow> window_ok (secsToMsInline raw d)"
  using secsToMsInline_bounds by (simp add: window_ok_def)

lemma idle_config_ok_default: "idle_config_ok default_IdleConfig"
  by (simp add: idle_config_ok_def default_IdleConfig_def interval_ok_def window_ok_def cfg_simps)

text \<open>Each assignment of the loader keeps the bounds.\<close>

lemma idle_config_ok_update:
  assumes "idle_config_ok cfg"
  shows "idle_config_ok (cfg\<lparr>minIntervalMs := clampCfg raw kMinMs kMaxMs (minIntervalMs cfg)\<rparr>)"
    "idle_config_ok (cfg\<lparr>activeIntervalMs := clampCfg raw (minIntervalMs cfg) kMaxMs (activeIntervalMs cfg)\<rparr>)"
    "idle_config_ok (cfg\<lparr>idleTimeoutMs := secsToMs ini k (idleTimeoutMs cfg)\<rparr>)"
    "idle_config_ok (cfg\<lparr>hintTtlMs := clampCfg raw kMinMs kMaxWin (hintTtlMs cfg)\<rparr>)"
    "idle_config_ok (cfg\<lparr>activeWindowMs := secsToMsInline r (activeWindowMs cfg),
       slow1IntervalMs := clampCfg raw (minIntervalMs cfg) kMaxMs (slow1IntervalMs cfg)\<rparr>)"
    "idle_config_ok (cfg\<lparr>slow1WindowMs := secsToMsInline r (slow1WindowMs cfg),
       slow2IntervalMs := clampCfg raw (minIntervalMs cfg) kMaxMs (slow2IntervalMs cfg)\<rparr>)"
    "idle_config_ok (cfg\<lparr>slow2WindowMs := secsToMsInline r (slow2WindowMs cfg)\<rparr>)"
proof -
  have "interval_ok kMinMs" by (simp add: interval_ok_def cfg_simps)
  then show "idle_config_ok (cfg\<lparr>minIntervalMs := clampCfg raw kMinMs kMaxMs (minIntervalMs cfg)\<rparr>)"
    using assms by (simp add: idle_config_ok_def interval_ok_clamp)
qed (use assms clampCfg_bounds [of kMinMs kMinMs kMaxWin kMaxWin] in
    \<open>simp_all add: idle_config_ok_def interval_ok_clamp window_ok_secs secsToMs_def\<close>)

lemma idle_config_ok_load: "idle_config_ok (loadIdleConfig conf)"
proof -
  have "idle_config_ok (load_intervals ini cfg)" if "idle_config_ok cfg" for ini cfg
    unfolding load_intervals_def Let_def by (intro idle_config_ok_update that)
  moreover have "idle_config_ok (load_pair1 pairs cfg)" "idle_config_ok (load_pair2 pairs cfg)"
      "idle_config_ok (load_pair3 pairs cfg)" if "idle_config_ok cfg" for pairs cfg
    using that by (auto simp: load_pair1_def load_pair2_def load_pair3_def idle_config_ok_update split: option.split)
  ultimately show ?thesis
    by (simp add: loadIdleConfig_def Let_def idle_config_ok_default split: option.split)
qed

section \<open>Properties\<close>

text \<open>No configuration file can make the agent poll dangerously: whatever the file says, every
  interval loaded lies between 10 ms and one hour and every window between 0 and 24 hours, and the
  cadence of an agent started with it never falls below 10 ms unless it is paused.\<close>

theorem loaded_idle_config_safe:
  "idle_config_ok (loadIdleConfig conf) \<and>
   (im_reachable (loadIdleConfig conf) s \<longrightarrow> im_currentMs s = 0 \<or> 10 \<le> im_currentMs s)"
proof -
  have ok: "idle_config_ok (loadIdleConfig conf)" by (rule idle_config_ok_load)
  then have "10 \<le> minIntervalMs (loadIdleConfig conf)"
    by (simp add: idle_config_ok_def interval_ok_def cfg_simps)
  then show ?thesis
    using ok cadence_ok_reachable [of "loadIdleConfig conf" s] by (auto simp: cadence_ok_def)
qed

definition sample_ini :: Ini where
  "sample_ini key = (if key = ''poll/min_interval_ms'' then Some [''5000''] else None)"

theorem loaded_idle_config_safe_witness:
  "im_reachable (loadIdleConfig (Some sample_ini)) (snd (mk_IdleManager (loadIdleConfig (Some sample_ini)) 0)) \<and>
   10 \<le> im_currentMs (snd (mk_IdleManager (loadIdleConfig (Some sample_ini)) 0))"
proof -
  let ?s = "snd (mk_IdleManager (loadIdleConfig (Some sample_ini)) 0)"
  have r: "im_reachable (loadIdleConfig (Some sample_ini)) ?s" by (rule im_reachable.intros)
  have "minIntervalMs (loadIdleConfig (Some sample_ini)) \<le> im_currentMs ?s"
    by (simp add: mk_IdleManager_def im_applyInterval_def im_effectiveActiveIntervalMs_def Let_def)
  moreover have "10 \<le> minIntervalMs (loadIdleConfig (Some sample_ini))"
    using loaded_idle_config_safe [of "Some sample_ini"] by (simp add: idle_config_ok_def interval_ok_def cfg_simps)
  ultimately show ?thesis using loaded_idle_config_safe [of "Some sample_ini" ?s] r by simp
qed

text \<open>An out-of-range value falls back to the built-in default, which may itself violate the
  bound that was checked: with a floor of five seconds and no base interval, the loaded base interval is one
  second, below the floor.\<close>

lemma clamp_fallback_below_floor:
  "minIntervalMs (loadIdleConfig (Some sample_ini)) = 5000 \<and> activeIntervalMs (loadIdleConfig (Some sample_ini)) = 1000"
proof -
  have "toInt ''5000'' = 5000"
    by (simp add: toInt_def parse_int_def trimmed_def isSpace_def is_digit_def digit_val_def)
  then have "minIntervalMs (load_intervals sample_ini default_IdleConfig) = 5000"
    "activeIntervalMs (load_intervals sample_ini default_IdleConfig) = 1000"
    by (simp_all add: load_intervals_def sample_ini_def ini_int_def ini_toString_def clampCfg_def default_IdleConfig_def
        cfg_simps Let_def)
  moreover have "minIntervalMs (load_pair1 ps c) = minIntervalMs c" "activeIntervalMs (load_pair1 ps c) = activeIntervalMs c"
    "minIntervalMs (load_pair2 ps c) = minIntervalMs c" "activeIntervalMs (load_pair2 ps c) = activeIntervalMs c"
    "minIntervalMs (load_pair3 ps c) = minIntervalMs c" "activeIntervalMs (load_pair3 ps c) = activeIntervalMs c" for ps c
    by (simp_all add: load_pair1_def load_pair2_def load_pair3_def split: option.split)
  ultimately show ?thesis by (simp add: loadIdleConfig_def Let_def)
qed

text \<open>The attribution configuration is always consistent: off disables every layer, the dependent
  layers are never on without process attribution, and the resolver built from a file that says off
  attributes nothing; otherwise the refresh intervals stay within their documented ranges.\<close>

theorem loaded_attribution_config_consistent:
  "let cfg = loadAttributionConfig conf in
     (cfg_containerAttribution cfg \<or> cfg_netnsScan cfg \<longrightarrow> cfg_processAttribution cfg) \<and>
     (cfg_eagerness cfg = Off \<longrightarrow> \<not> cfg_processAttribution cfg \<and>
        fst (createProcessResolver sockDiag cgroup netns cfg s) = NullProcessResolver) \<and>
     (cfg_eagerness cfg \<noteq> Off \<longrightarrow> 100 \<le> cacheRefreshMs (cfg_tuning cfg) \<and> cacheRefreshMs (cfg_tuning cfg) \<le> 60000 \<and>
        250 \<le> netnsRefreshMs (cfg_tuning cfg) \<and> netnsRefreshMs (cfg_tuning cfg) \<le> 300000)"
proof -
  define tn where "tn ini e = resolverTuningFor e (readAttributionOverrideMs ini ''attribution/cache_refresh_ms'' 100 60000)
    (readAttributionOverrideMs ini ''attribution/netns_refresh_ms'' 250 300000)" for ini e
  have ov: "readAttributionOverrideMs ini k lo hi = 0 \<or> lo \<le> readAttributionOverrideMs ini k lo hi \<and>
      readAttributionOverrideMs ini k lo hi \<le> hi" for ini k lo hi
    by (simp add: readAttributionOverrideMs_def Let_def)
  have tn: "100 \<le> cacheRefreshMs (tn ini e) \<and> cacheRefreshMs (tn ini e) \<le> 60000 \<and>
      250 \<le> netnsRefreshMs (tn ini e) \<and> netnsRefreshMs (tn ini e) \<le> 300000" if "e \<noteq> Off" for ini e
    using that ov [of ini "''attribution/cache_refresh_ms''" 100 60000] ov [of ini "''attribution/netns_refresh_ms''" 250 300000]
    by (auto simp: tn_def tuning_defs Let_def)
  have null: "fst (createProcessResolver sockDiag cgroup netns cfg s) = NullProcessResolver" if "cfg_eagerness cfg = Off" for cfg
    using that by (simp add: createProcessResolver_def)
  show ?thesis
  proof (cases conf)
    case None
    then show ?thesis
      by (simp add: loadAttributionConfig_def default_AttributionConfig_def balancedResolverTuning_def Let_def)
  next
    case (Some ini)
    then show ?thesis
      by (simp add: loadAttributionConfig_def default_AttributionConfig_def Let_def null tn tn_def [symmetric])
  qed
qed

theorem loaded_attribution_config_consistent_witness:
  "let cfg = loadAttributionConfig (Some (\<lambda>k. if k = ''attribution/eagerness'' then Some [''off''] else None)) in
     cfg_eagerness cfg = Off \<and> \<not> cfg_processAttribution cfg"
proof -
  let ?f = "Some (\<lambda>k. if k = ''attribution/eagerness'' then Some [''off''] else None) :: Ini option"
  have "cfg_eagerness (loadAttributionConfig ?f) = Off" by code_simp
  then show ?thesis
    using loaded_attribution_config_consistent [of ?f "NullProcessResolver :: unit ProcessResolver"] by (simp add: Let_def)
qed

end
