(* ===== verification/WireTypes.thy ===== *)
theory WireTypes
  imports FlowTypes "HOL-Library.Monad_Syntax"
begin

text \<open>
  The wire format of the agent: the transfer objects of \<open>dbus/Types.h\<close>, their marshalling operators
  and the conversions of \<open>dbus/Types.cpp\<close>.

  A marshalled value is a tree of D-Bus values. A reader consumes the fields of a structure from the
  left; \<open>None\<close> is what QtDBus turns into an abort: a field read past the end of its structure or of
  another type. \<open>QHostAddress::toString\<close> and the constructor that parses it are arguments.
\<close>

section \<open>Transfer objects\<close>

record InterfaceStatsDto =
  id_name :: string
  id_type :: string
  id_mtu :: quint32
  id_addresses :: "string list"
  id_rxBytes :: quint64
  id_txBytes :: quint64
  id_rxPackets :: quint64
  id_txPackets :: quint64
  id_isUp :: bool
  id_isLoopback :: bool
  id_ifIndex :: quint32
  id_operState :: quint8
  id_rxErrors :: quint64
  id_txErrors :: quint64
  id_rxDropped :: quint64
  id_txDropped :: quint64

definition default_InterfaceStatsDto :: InterfaceStatsDto where
  "default_InterfaceStatsDto = \<lparr>id_name = [], id_type = [], id_mtu = 0, id_addresses = [], id_rxBytes = 0,
     id_txBytes = 0, id_rxPackets = 0, id_txPackets = 0, id_isUp = False, id_isLoopback = False,
     id_ifIndex = 0, id_operState = 0, id_rxErrors = 0, id_txErrors = 0, id_rxDropped = 0, id_txDropped = 0\<rparr>"

record ContainerInfoDto =
  cid_runtime :: string
  cid_id :: string
  cid_name :: string

definition default_ContainerInfoDto :: ContainerInfoDto where
  "default_ContainerInfoDto = \<lparr>cid_runtime = [], cid_id = [], cid_name = []\<rparr>"

record ConnectionDto =
  cd_proto :: quint8
  cd_localFamily :: quint8
  cd_localAddress :: string
  cd_localPort :: quint16
  cd_remoteFamily :: quint8
  cd_remoteAddress :: string
  cd_remotePort :: quint16
  cd_rxBytes :: quint64
  cd_txBytes :: quint64
  cd_rxPackets :: quint64
  cd_txPackets :: quint64
  cd_iface :: string
  cd_direction :: quint8
  cd_ifIndex :: quint32
  cd_tcpState :: quint8
  cd_pid :: quint32
  cd_uid :: quint32
  cd_comm :: string
  cd_containerRuntime :: string
  cd_containerId :: string
  cd_containerName :: string
  cd_containerChain :: "ContainerInfoDto list"
  cd_reason :: quint8

definition default_ConnectionDto :: ConnectionDto where
  "default_ConnectionDto = \<lparr>cd_proto = 0, cd_localFamily = 0, cd_localAddress = [], cd_localPort = 0,
     cd_remoteFamily = 0, cd_remoteAddress = [], cd_remotePort = 0, cd_rxBytes = 0, cd_txBytes = 0,
     cd_rxPackets = 0, cd_txPackets = 0, cd_iface = [], cd_direction = 0, cd_ifIndex = 0, cd_tcpState = 0,
     cd_pid = 0, cd_uid = 0, cd_comm = [], cd_containerRuntime = [], cd_containerId = [],
     cd_containerName = [], cd_containerChain = [], cd_reason = 0\<rparr>"

record ProcessDetailsDto =
  pdd_pid :: quint32
  pdd_uid :: quint32
  pdd_comm :: string
  pdd_exe :: string
  pdd_cmdline :: string
  pdd_cwd :: string
  pdd_startTimeJiffies :: quint64

definition default_ProcessDetailsDto :: ProcessDetailsDto where
  "default_ProcessDetailsDto = \<lparr>pdd_pid = 0, pdd_uid = 0, pdd_comm = [], pdd_exe = [], pdd_cmdline = [],
     pdd_cwd = [], pdd_startTimeJiffies = 0\<rparr>"

section \<open>D-Bus values and readers\<close>

datatype dbus_value = ByteV quint8 | UInt16V quint16 | UInt32V quint32 | UInt64V quint64 | BoolV bool
  | StringV string | StringsV "string list" | ArrayV "dbus_value list" | StructV "dbus_value list"

type_synonym 'a reader = "dbus_value list \<Rightarrow> ('a \<times> dbus_value list) option"

definition getByte :: "quint8 reader" where
  "getByte r = (case r of ByteV v # r' \<Rightarrow> Some (v, r') | _ \<Rightarrow> None)"

definition getUInt16 :: "quint16 reader" where
  "getUInt16 r = (case r of UInt16V v # r' \<Rightarrow> Some (v, r') | _ \<Rightarrow> None)"

definition getUInt32 :: "quint32 reader" where
  "getUInt32 r = (case r of UInt32V v # r' \<Rightarrow> Some (v, r') | _ \<Rightarrow> None)"

definition getUInt64 :: "quint64 reader" where
  "getUInt64 r = (case r of UInt64V v # r' \<Rightarrow> Some (v, r') | _ \<Rightarrow> None)"

definition getBool :: "bool reader" where
  "getBool r = (case r of BoolV v # r' \<Rightarrow> Some (v, r') | _ \<Rightarrow> None)"

definition getString :: "string reader" where
  "getString r = (case r of StringV v # r' \<Rightarrow> Some (v, r') | _ \<Rightarrow> None)"

definition getStrings :: "string list reader" where
  "getStrings r = (case r of StringsV v # r' \<Rightarrow> Some (v, r') | _ \<Rightarrow> None)"

lemmas getters [cfg_simps] = getByte_def getUInt16_def getUInt32_def getUInt64_def getBool_def
  getString_def getStrings_def

text \<open>\<open>a >> s.f\<close>, and the guarded \<open>if (!a.atEnd()) a >> s.f\<close> of the appended fields.\<close>

definition field :: "'v reader \<Rightarrow> ('v \<Rightarrow> 'a \<Rightarrow> 'a) \<Rightarrow> 'a \<times> dbus_value list \<Rightarrow> ('a \<times> dbus_value list) option" where
  "field get upd x = (case get (snd x) of None \<Rightarrow> None | Some (v, r) \<Rightarrow> Some (upd v (fst x), r))"

definition tail_field :: "'v reader \<Rightarrow> ('v \<Rightarrow> 'a \<Rightarrow> 'a) \<Rightarrow> 'a \<times> dbus_value list \<Rightarrow> ('a \<times> dbus_value list) option" where
  "tail_field get upd x = (if snd x = [] then Some x else field get upd x)"

text \<open>A list is an array of its elements.\<close>

definition enc_list :: "('a \<Rightarrow> dbus_value) \<Rightarrow> 'a list \<Rightarrow> dbus_value" where
  "enc_list enc xs = ArrayV (map enc xs)"

primrec dec_all :: "(dbus_value \<Rightarrow> 'a option) \<Rightarrow> dbus_value list \<Rightarrow> 'a list option" where
  "dec_all dec [] = Some []"
| "dec_all dec (v # vs) =
     (case dec v of None \<Rightarrow> None
      | Some x \<Rightarrow> (case dec_all dec vs of None \<Rightarrow> None | Some xs \<Rightarrow> Some (x # xs)))"

definition dec_list :: "(dbus_value \<Rightarrow> 'a option) \<Rightarrow> dbus_value \<Rightarrow> 'a list option" where
  "dec_list dec v = (case v of ArrayV vs \<Rightarrow> dec_all dec vs | _ \<Rightarrow> None)"

definition get_value :: "(dbus_value \<Rightarrow> 'a option) \<Rightarrow> 'a reader" where
  "get_value dec r = (case r of v # r' \<Rightarrow> (case dec v of Some x \<Rightarrow> Some (x, r') | None \<Rightarrow> None) | [] \<Rightarrow> None)"

section \<open>Marshalling operators\<close>

definition put_ContainerInfoDto :: "ContainerInfoDto \<Rightarrow> dbus_value" where
  "put_ContainerInfoDto c = StructV [StringV (cid_runtime c), StringV (cid_id c), StringV (cid_name c)]"

definition get_ContainerInfoDto :: "dbus_value \<Rightarrow> ContainerInfoDto option" where
  "get_ContainerInfoDto v =
     (case v of
        StructV r \<Rightarrow> do {
          x \<leftarrow> field getString (\<lambda>u c. c\<lparr>cid_runtime := u\<rparr>) (default_ContainerInfoDto, r);
          x \<leftarrow> field getString (\<lambda>u c. c\<lparr>cid_id := u\<rparr>) x;
          x \<leftarrow> field getString (\<lambda>u c. c\<lparr>cid_name := u\<rparr>) x;
          Some (fst x) }
      | _ \<Rightarrow> None)"

definition InterfaceStatsDto_fields :: "InterfaceStatsDto \<Rightarrow> dbus_value list" where
  "InterfaceStatsDto_fields s =
     [StringV (id_name s), StringV (id_type s), UInt32V (id_mtu s), StringsV (id_addresses s),
      UInt64V (id_rxBytes s), UInt64V (id_txBytes s), UInt64V (id_rxPackets s), UInt64V (id_txPackets s),
      BoolV (id_isUp s), BoolV (id_isLoopback s),
      UInt32V (id_ifIndex s), ByteV (id_operState s),
      UInt64V (id_rxErrors s), UInt64V (id_txErrors s), UInt64V (id_rxDropped s), UInt64V (id_txDropped s)]"

definition put_InterfaceStatsDto :: "InterfaceStatsDto \<Rightarrow> dbus_value" where
  "put_InterfaceStatsDto s = StructV (InterfaceStatsDto_fields s)"

definition get_InterfaceStatsDto :: "dbus_value \<Rightarrow> InterfaceStatsDto option" where
  "get_InterfaceStatsDto v =
     (case v of
        StructV r \<Rightarrow> do {
          x \<leftarrow> field getString (\<lambda>u s. s\<lparr>id_name := u\<rparr>) (default_InterfaceStatsDto, r);
          x \<leftarrow> field getString (\<lambda>u s. s\<lparr>id_type := u\<rparr>) x;
          x \<leftarrow> field getUInt32 (\<lambda>u s. s\<lparr>id_mtu := u\<rparr>) x;
          x \<leftarrow> field getStrings (\<lambda>u s. s\<lparr>id_addresses := u\<rparr>) x;
          x \<leftarrow> field getUInt64 (\<lambda>u s. s\<lparr>id_rxBytes := u\<rparr>) x;
          x \<leftarrow> field getUInt64 (\<lambda>u s. s\<lparr>id_txBytes := u\<rparr>) x;
          x \<leftarrow> field getUInt64 (\<lambda>u s. s\<lparr>id_rxPackets := u\<rparr>) x;
          x \<leftarrow> field getUInt64 (\<lambda>u s. s\<lparr>id_txPackets := u\<rparr>) x;
          x \<leftarrow> field getBool (\<lambda>u s. s\<lparr>id_isUp := u\<rparr>) x;
          x \<leftarrow> field getBool (\<lambda>u s. s\<lparr>id_isLoopback := u\<rparr>) x;
          x \<leftarrow> tail_field getUInt32 (\<lambda>u s. s\<lparr>id_ifIndex := u\<rparr>) x;
          x \<leftarrow> tail_field getByte (\<lambda>u s. s\<lparr>id_operState := u\<rparr>) x;
          x \<leftarrow> tail_field getUInt64 (\<lambda>u s. s\<lparr>id_rxErrors := u\<rparr>) x;
          x \<leftarrow> tail_field getUInt64 (\<lambda>u s. s\<lparr>id_txErrors := u\<rparr>) x;
          x \<leftarrow> tail_field getUInt64 (\<lambda>u s. s\<lparr>id_rxDropped := u\<rparr>) x;
          x \<leftarrow> tail_field getUInt64 (\<lambda>u s. s\<lparr>id_txDropped := u\<rparr>) x;
          Some (fst x) }
      | _ \<Rightarrow> None)"

definition wireMaxContainerChainDepth :: nat where "wireMaxContainerChainDepth = 16"

definition ConnectionDto_fields :: "ConnectionDto \<Rightarrow> dbus_value list" where
  "ConnectionDto_fields c =
     [ByteV (cd_proto c),
      ByteV (cd_localFamily c), StringV (cd_localAddress c), UInt16V (cd_localPort c),
      ByteV (cd_remoteFamily c), StringV (cd_remoteAddress c), UInt16V (cd_remotePort c),
      UInt64V (cd_rxBytes c), UInt64V (cd_txBytes c), UInt64V (cd_rxPackets c), UInt64V (cd_txPackets c),
      StringV (cd_iface c), ByteV (cd_direction c),
      UInt32V (cd_ifIndex c), ByteV (cd_tcpState c),
      UInt32V (cd_pid c), UInt32V (cd_uid c), StringV (cd_comm c),
      StringV (cd_containerRuntime c), StringV (cd_containerId c), StringV (cd_containerName c),
      enc_list put_ContainerInfoDto (cd_containerChain c),
      ByteV (cd_reason c)]"

definition put_ConnectionDto :: "ConnectionDto \<Rightarrow> dbus_value" where
  "put_ConnectionDto c = StructV (ConnectionDto_fields c)"

definition get_ConnectionDto :: "dbus_value \<Rightarrow> ConnectionDto option" where
  "get_ConnectionDto v =
     (case v of
        StructV r \<Rightarrow> do {
          x \<leftarrow> field getByte (\<lambda>u c. c\<lparr>cd_proto := u\<rparr>) (default_ConnectionDto, r);
          x \<leftarrow> field getByte (\<lambda>u c. c\<lparr>cd_localFamily := u\<rparr>) x;
          x \<leftarrow> field getString (\<lambda>u c. c\<lparr>cd_localAddress := u\<rparr>) x;
          x \<leftarrow> field getUInt16 (\<lambda>u c. c\<lparr>cd_localPort := u\<rparr>) x;
          x \<leftarrow> field getByte (\<lambda>u c. c\<lparr>cd_remoteFamily := u\<rparr>) x;
          x \<leftarrow> field getString (\<lambda>u c. c\<lparr>cd_remoteAddress := u\<rparr>) x;
          x \<leftarrow> field getUInt16 (\<lambda>u c. c\<lparr>cd_remotePort := u\<rparr>) x;
          x \<leftarrow> field getUInt64 (\<lambda>u c. c\<lparr>cd_rxBytes := u\<rparr>) x;
          x \<leftarrow> field getUInt64 (\<lambda>u c. c\<lparr>cd_txBytes := u\<rparr>) x;
          x \<leftarrow> field getUInt64 (\<lambda>u c. c\<lparr>cd_rxPackets := u\<rparr>) x;
          x \<leftarrow> field getUInt64 (\<lambda>u c. c\<lparr>cd_txPackets := u\<rparr>) x;
          x \<leftarrow> field getString (\<lambda>u c. c\<lparr>cd_iface := u\<rparr>) x;
          x \<leftarrow> field getByte (\<lambda>u c. c\<lparr>cd_direction := u\<rparr>) x;
          x \<leftarrow> tail_field getUInt32 (\<lambda>u c. c\<lparr>cd_ifIndex := u\<rparr>) x;
          x \<leftarrow> tail_field getByte (\<lambda>u c. c\<lparr>cd_tcpState := u\<rparr>) x;
          x \<leftarrow> tail_field getUInt32 (\<lambda>u c. c\<lparr>cd_pid := u\<rparr>) x;
          x \<leftarrow> tail_field getUInt32 (\<lambda>u c. c\<lparr>cd_uid := u\<rparr>) x;
          x \<leftarrow> tail_field getString (\<lambda>u c. c\<lparr>cd_comm := u\<rparr>) x;
          x \<leftarrow> tail_field getString (\<lambda>u c. c\<lparr>cd_containerRuntime := u\<rparr>) x;
          x \<leftarrow> tail_field getString (\<lambda>u c. c\<lparr>cd_containerId := u\<rparr>) x;
          x \<leftarrow> tail_field getString (\<lambda>u c. c\<lparr>cd_containerName := u\<rparr>) x;
          x \<leftarrow> tail_field (get_value (dec_list get_ContainerInfoDto)) (\<lambda>u c. c\<lparr>cd_containerChain := u\<rparr>) x;
          x \<leftarrow> tail_field getByte (\<lambda>u c. c\<lparr>cd_reason := u\<rparr>) x;
          let c = fst x in
          Some (if wireMaxContainerChainDepth < length (cd_containerChain c)
                then c\<lparr>cd_containerChain := take wireMaxContainerChainDepth (cd_containerChain c)\<rparr> else c) }
      | _ \<Rightarrow> None)"

definition put_ProcessDetailsDto :: "ProcessDetailsDto \<Rightarrow> dbus_value" where
  "put_ProcessDetailsDto p =
     StructV [UInt32V (pdd_pid p), UInt32V (pdd_uid p), StringV (pdd_comm p), StringV (pdd_exe p),
              StringV (pdd_cmdline p), StringV (pdd_cwd p), UInt64V (pdd_startTimeJiffies p)]"

definition get_ProcessDetailsDto :: "dbus_value \<Rightarrow> ProcessDetailsDto option" where
  "get_ProcessDetailsDto v =
     (case v of
        StructV r \<Rightarrow> do {
          x \<leftarrow> field getUInt32 (\<lambda>u p. p\<lparr>pdd_pid := u\<rparr>) (default_ProcessDetailsDto, r);
          x \<leftarrow> field getUInt32 (\<lambda>u p. p\<lparr>pdd_uid := u\<rparr>) x;
          x \<leftarrow> field getString (\<lambda>u p. p\<lparr>pdd_comm := u\<rparr>) x;
          x \<leftarrow> field getString (\<lambda>u p. p\<lparr>pdd_exe := u\<rparr>) x;
          x \<leftarrow> field getString (\<lambda>u p. p\<lparr>pdd_cmdline := u\<rparr>) x;
          x \<leftarrow> field getString (\<lambda>u p. p\<lparr>pdd_cwd := u\<rparr>) x;
          x \<leftarrow> field getUInt64 (\<lambda>u p. p\<lparr>pdd_startTimeJiffies := u\<rparr>) x;
          Some (fst x) }
      | _ \<Rightarrow> None)"

section \<open>Conversions\<close>

definition if_toDto :: "InterfaceStats \<Rightarrow> InterfaceStatsDto" where
  "if_toDto s = \<lparr>id_name = if_name s, id_type = if_type s, id_mtu = if_mtu s, id_addresses = if_addresses s,
     id_rxBytes = if_rxBytes s, id_txBytes = if_txBytes s, id_rxPackets = if_rxPackets s,
     id_txPackets = if_txPackets s, id_isUp = if_isUp s, id_isLoopback = if_isLoopback s,
     id_ifIndex = if_ifIndex s, id_operState = if_operState s, id_rxErrors = if_rxErrors s,
     id_txErrors = if_txErrors s, id_rxDropped = if_rxDropped s, id_txDropped = if_txDropped s\<rparr>"

definition if_fromDto :: "InterfaceStatsDto \<Rightarrow> InterfaceStats" where
  "if_fromDto d = \<lparr>if_name = id_name d, if_type = id_type d, if_mtu = id_mtu d, if_addresses = id_addresses d,
     if_rxBytes = id_rxBytes d, if_txBytes = id_txBytes d, if_rxPackets = id_rxPackets d,
     if_txPackets = id_txPackets d, if_isUp = id_isUp d, if_isLoopback = id_isLoopback d,
     if_ifIndex = id_ifIndex d, if_operState = id_operState d, if_rxErrors = id_rxErrors d,
     if_txErrors = id_txErrors d, if_rxDropped = id_rxDropped d, if_txDropped = id_txDropped d\<rparr>"

definition if_toDtos :: "InterfaceStats list \<Rightarrow> InterfaceStatsDto list" where
  "if_toDtos xs = map if_toDto xs"

definition if_fromDtos :: "InterfaceStatsDto list \<Rightarrow> InterfaceStats list" where
  "if_fromDtos ds = map if_fromDto ds"

definition ct_toDto :: "ContainerInfo \<Rightarrow> ContainerInfoDto" where
  "ct_toDto ci = \<lparr>cid_runtime = ct_runtime ci, cid_id = ct_id ci, cid_name = ct_name ci\<rparr>"

definition ct_fromDto :: "ContainerInfoDto \<Rightarrow> ContainerInfo" where
  "ct_fromDto ci = \<lparr>ct_runtime = cid_runtime ci, ct_id = cid_id ci, ct_name = cid_name ci\<rparr>"

definition toDto :: "(QHostAddress \<Rightarrow> string) \<Rightarrow> Connection \<Rightarrow> ConnectionDto" where
  "toDto toStr c = \<lparr>
     cd_proto = toIanaProto (c_proto c),
     cd_localFamily = (if isIPv6 (c_local c) then 6 else 4),
     cd_localAddress = toStr (ep_address (c_local c)),
     cd_localPort = ep_port (c_local c),
     cd_remoteFamily = (if isIPv6 (c_remote c) then 6 else 4),
     cd_remoteAddress = toStr (ep_address (c_remote c)),
     cd_remotePort = ep_port (c_remote c),
     cd_rxBytes = c_rxBytes c, cd_txBytes = c_txBytes c,
     cd_rxPackets = c_rxPackets c, cd_txPackets = c_txPackets c,
     cd_iface = c_iface c,
     cd_direction = Direction_num (c_direction c),
     cd_ifIndex = c_ifIndex c,
     cd_tcpState = TcpState_num (c_tcpState c),
     cd_pid = (if 0 < pi_pid (c_process c) then word_of_int (pi_pid (c_process c)) else 0),
     cd_uid = pi_uid (c_process c),
     cd_comm = pi_comm (c_process c),
     cd_containerRuntime = ct_runtime (c_container c),
     cd_containerId = ct_id (c_container c),
     cd_containerName = ct_name (c_container c),
     cd_containerChain = map ct_toDto (c_chain c),
     cd_reason = AttributionReason_num (c_reason c)\<rparr>"

text \<open>The enumerations in the order of their numbers; \<open>static_cast\<close> back from a number in range.\<close>

definition enum_of :: "'e list \<Rightarrow> 'e \<Rightarrow> quint8 \<Rightarrow> 'e" where
  "enum_of values fallback n = (if unat n < length values then values ! unat n else fallback)"

definition wire_Direction :: "quint8 \<Rightarrow> Direction" where
  "wire_Direction = enum_of [DirUnknown, Outbound, Inbound] DirUnknown"

definition wire_TcpState :: "quint8 \<Rightarrow> TcpState" where
  "wire_TcpState = enum_of [TcpNone, SynSent, SynRecv, Established, FinWait, CloseWait, LastAck, TimeWait,
     Close, SynSent2] TcpNone"

definition wire_reason :: "quint8 \<Rightarrow> AttributionReason" where
  "wire_reason = enum_of [Resolved, NoLocalSocket, Orphaned, Forwarded] NoLocalSocket"

definition qint32_max :: int where "qint32_max = 2147483647"

definition fromDto :: "(string \<Rightarrow> QHostAddress) \<Rightarrow> ConnectionDto \<Rightarrow> Connection" where
  "fromDto ofStr d = \<lparr>
     c_local = \<lparr>ep_address = ofStr (cd_localAddress d), ep_port = cd_localPort d\<rparr>,
     c_remote = \<lparr>ep_address = ofStr (cd_remoteAddress d), ep_port = cd_remotePort d\<rparr>,
     c_proto = fromIanaProto (cd_proto d),
     c_rxBytes = cd_rxBytes d, c_txBytes = cd_txBytes d,
     c_rxPackets = cd_rxPackets d, c_txPackets = cd_txPackets d,
     c_iface = cd_iface d,
     c_ifIndex = cd_ifIndex d,
     c_direction = wire_Direction (cd_direction d),
     c_tcpState = wire_TcpState (cd_tcpState d),
     c_reason = wire_reason (cd_reason d),
     c_process = no_process\<lparr>
       pi_pid := (if uint (cd_pid d) \<le> qint32_max then uint (cd_pid d) else 0),
       pi_uid := cd_uid d, pi_comm := cd_comm d\<rparr>,
     c_container = \<lparr>ct_runtime = cd_containerRuntime d, ct_id = cd_containerId d, ct_name = cd_containerName d\<rparr>,
     c_chain = map ct_fromDto (take (min (length (cd_containerChain d)) wireMaxContainerChainDepth)
       (cd_containerChain d))\<rparr>"

definition toDtos :: "(QHostAddress \<Rightarrow> string) \<Rightarrow> Connection list \<Rightarrow> ConnectionDto list" where
  "toDtos toStr cs = map (toDto toStr) cs"

definition fromDtos :: "(string \<Rightarrow> QHostAddress) \<Rightarrow> ConnectionDto list \<Rightarrow> Connection list" where
  "fromDtos ofStr ds = map (fromDto ofStr) ds"

section \<open>The codec contract\<close>

text \<open>Marshalling then unmarshalling gives back the value, up to a normalisation of the receiver;
  lists of such values then do too.\<close>

locale wire_codec =
  fixes enc :: "'a \<Rightarrow> dbus_value" and dec :: "dbus_value \<Rightarrow> 'a option" and norm :: "'a \<Rightarrow> 'a"
  assumes dec_enc: "dec (enc x) = Some (norm x)"
begin

lemma dec_all_enc: "dec_all dec (map enc xs) = Some (map norm xs)"
  by (induction xs) (simp_all add: dec_enc)

lemma dec_list_enc: "dec_list dec (enc_list enc xs) = Some (map norm xs)"
  by (simp add: dec_list_def enc_list_def dec_all_enc)

lemma get_value_list: "get_value (dec_list dec) (enc_list enc xs # r) = Some (map norm xs, r)"
  by (simp add: get_value_def dec_list_enc)

end

lemmas read_simps = field_def tail_field_def getters bind_eq_Some_conv

interpretation container_wire: wire_codec put_ContainerInfoDto get_ContainerInfoDto "\<lambda>x. x"
  by unfold_locales (simp add: put_ContainerInfoDto_def get_ContainerInfoDto_def default_ContainerInfoDto_def read_simps)

interpretation details_wire: wire_codec put_ProcessDetailsDto get_ProcessDetailsDto "\<lambda>x. x"
  by unfold_locales (simp add: put_ProcessDetailsDto_def get_ProcessDetailsDto_def default_ProcessDetailsDto_def read_simps)

lemma get_chain [simp]:
  "get_value (dec_list get_ContainerInfoDto) (enc_list put_ContainerInfoDto xs # r) = Some (xs, r)"
  using container_wire.get_value_list by simp

text \<open>What the receiver does to a connection: it keeps at most 16 chain entries.\<close>

definition clamp_chain :: "ConnectionDto \<Rightarrow> ConnectionDto" where
  "clamp_chain c = c\<lparr>cd_containerChain := take wireMaxContainerChainDepth (cd_containerChain c)\<rparr>"

lemma clamp_chain_short: "length (cd_containerChain c) \<le> wireMaxContainerChainDepth \<Longrightarrow> clamp_chain c = c"
  by (simp add: clamp_chain_def)

interpretation connection_wire: wire_codec put_ConnectionDto get_ConnectionDto clamp_chain
  by unfold_locales (simp add: put_ConnectionDto_def get_ConnectionDto_def default_ConnectionDto_def
      ConnectionDto_fields_def read_simps clamp_chain_def Let_def)

interpretation interface_wire: wire_codec put_InterfaceStatsDto get_InterfaceStatsDto "\<lambda>x. x"
  by unfold_locales (simp add: put_InterfaceStatsDto_def get_InterfaceStatsDto_def default_InterfaceStatsDto_def
      InterfaceStatsDto_fields_def read_simps)

section \<open>Facts about the conversions\<close>

lemma wire_Direction_num [simp]: "wire_Direction (Direction_num d) = d"
  by (cases d) (simp_all add: wire_Direction_def enum_of_def)

lemma wire_TcpState_num [simp]: "wire_TcpState (TcpState_num t) = t"
  by (cases t) (simp_all add: wire_TcpState_def enum_of_def)

lemma wire_reason_num [simp]: "wire_reason (AttributionReason_num a) = a"
  by (cases a) (simp_all add: wire_reason_def enum_of_def)

lemma enum_of_range: "length values \<le> unat n \<Longrightarrow> enum_of values fallback n = fallback"
  by (simp add: enum_of_def)

lemma ct_roundtrip [simp]: "ct_fromDto (ct_toDto c) = c"
  by (simp add: ct_fromDto_def ct_toDto_def)

lemma if_roundtrip [simp]: "if_fromDto (if_toDto s) = s"
  by (simp add: if_fromDto_def if_toDto_def)

lemma if_roundtrip_list: "if_fromDtos (if_toDtos xs) = xs"
  by (simp add: if_fromDtos_def if_toDtos_def o_def)

lemma uint_pid: "0 < p \<Longrightarrow> p \<le> qint32_max \<Longrightarrow> uint (word_of_int p :: quint32) = p"
  by (simp add: qint32_max_def uint_word_of_int take_bit_int_eq_self)

text \<open>What a client sees of a flow of the agent: no executable path and no command line, no
  negative pid, at most the 16 outermost scopes.\<close>

definition client_view :: "Connection \<Rightarrow> Connection" where
  "client_view c = c\<lparr>
     c_process := (c_process c)\<lparr>pi_pid := max 0 (pi_pid (c_process c)), pi_exe := [], pi_cmdline := []\<rparr>,
     c_chain := take wireMaxContainerChainDepth (c_chain c)\<rparr>"

lemma process_eq_iff: "(p::ProcessInfo) = q \<longleftrightarrow> pi_pid p = pi_pid q \<and> pi_comm p = pi_comm q \<and>
    pi_cmdline p = pi_cmdline q \<and> pi_exe p = pi_exe q \<and> pi_uid p = pi_uid q"
  by auto

lemma from_toDto:
  assumes "\<And>a. ofStr (toStr a) = a" and "pi_pid (c_process c) \<le> qint32_max"
  shows "fromDto ofStr (clamp_chain (toDto toStr c)) = client_view c"
proof -
  have "uint (cd_pid (toDto toStr c)) = max 0 (pi_pid (c_process c))"
    using assms(2) by (simp add: toDto_def uint_pid)
  then show ?thesis
    using assms by (simp add: fromDto_def clamp_chain_def client_view_def no_process_def toDto_def
        min_def take_map o_def process_eq_iff qint32_max_def)
qed

text \<open>A parser for the plain address texts, for evaluation.\<close>

fun plain_parse :: "string \<Rightarrow> QHostAddress" where
  "plain_parse (f # _ # ds) =
     (if f = CHR ''4'' then HostV4 (of_nat (read_nat ds 0)) else HostV6 (of_nat (read_nat ds 0)))"
| "plain_parse _ = HostNull"

lemma plain_parse_addr: "plain_parse (plain_addr a) = a"
  by (cases a) simp_all

text \<open>The connection structure read from any list of fields it can be read from.\<close>

lemma ConnectionDto_fields_length [simp]: "length (ConnectionDto_fields d) = 23"
  by (simp add: ConnectionDto_fields_def)

lemma InterfaceStatsDto_fields_length [simp]: "length (InterfaceStatsDto_fields d) = 16"
  by (simp add: InterfaceStatsDto_fields_def)

text \<open>A structure that stops after the \<open>n\<close>-th field.\<close>

definition same_prefix :: "('a \<Rightarrow> dbus_value list) \<Rightarrow> nat \<Rightarrow> 'a \<Rightarrow> 'a \<Rightarrow> 'a \<Rightarrow> bool" where
  "same_prefix fs n got sent dflt =
     (take n (fs got) = take n (fs sent) \<and> drop n (fs got) = drop n (fs dflt))"

lemma connection_cut_read:
  assumes "length (cd_containerChain d) \<le> wireMaxContainerChainDepth"
  shows "\<forall>n \<in> set [13..<23]. \<exists>d'. get_ConnectionDto (StructV (take n (ConnectionDto_fields d))) = Some d' \<and>
    same_prefix ConnectionDto_fields n d' d default_ConnectionDto"
  using assms by (simp add: get_ConnectionDto_def ConnectionDto_fields_def default_ConnectionDto_def
      read_simps same_prefix_def Let_def wireMaxContainerChainDepth_def)

lemma connection_short_read:
  assumes "13 \<le> n" and "length (cd_containerChain d) \<le> wireMaxContainerChainDepth"
  shows "\<exists>d'. get_ConnectionDto (StructV (take n (ConnectionDto_fields d))) = Some d' \<and>
    same_prefix ConnectionDto_fields n d' d default_ConnectionDto"
proof (cases "n < 23")
  case True
  with assms(1) have "n \<in> set [13..<23]" by (simp del: upt_rec_numeral)
  then show ?thesis using connection_cut_read [OF assms(2)] by blast
next
  case False
  then show ?thesis
    using connection_wire.dec_enc [of d] assms(2)
    by (simp add: put_ConnectionDto_def clamp_chain_short same_prefix_def)
qed

lemma interface_cut_read:
  "\<forall>n \<in> set [10..<16]. \<exists>d'. get_InterfaceStatsDto (StructV (take n (InterfaceStatsDto_fields d))) = Some d' \<and>
    same_prefix InterfaceStatsDto_fields n d' d default_InterfaceStatsDto"
  by (simp add: get_InterfaceStatsDto_def InterfaceStatsDto_fields_def default_InterfaceStatsDto_def
      read_simps same_prefix_def)

lemma interface_short_read:
  assumes "10 \<le> n"
  shows "\<exists>d'. get_InterfaceStatsDto (StructV (take n (InterfaceStatsDto_fields d))) = Some d' \<and>
    same_prefix InterfaceStatsDto_fields n d' d default_InterfaceStatsDto"
proof (cases "n < 16")
  case True
  with assms(1) have "n \<in> set [10..<16]" by (simp del: upt_rec_numeral)
  then show ?thesis using interface_cut_read by blast
next
  case False
  then show ?thesis
    using interface_wire.dec_enc [of d] by (simp add: put_InterfaceStatsDto_def same_prefix_def)
qed

lemma connection_long_read: "get_ConnectionDto (StructV (ConnectionDto_fields d @ extra)) = Some (clamp_chain d)"
  by (simp add: get_ConnectionDto_def default_ConnectionDto_def ConnectionDto_fields_def read_simps
      clamp_chain_def Let_def)

lemma interface_long_read: "get_InterfaceStatsDto (StructV (InterfaceStatsDto_fields d @ extra)) = Some d"
  by (simp add: get_InterfaceStatsDto_def default_InterfaceStatsDto_def InterfaceStatsDto_fields_def read_simps)

lemma connection_base_cut:
  "\<forall>n \<in> set [0..<13]. get_ConnectionDto (StructV (take n (ConnectionDto_fields d))) = None"
  by (simp add: get_ConnectionDto_def ConnectionDto_fields_def read_simps upt_rec)

lemma connection_base_missing:
  assumes "n < 13"
  shows "get_ConnectionDto (StructV (take n (ConnectionDto_fields d))) = None"
proof -
  have "n \<in> set [0..<13]" using assms by (simp del: upt_rec_numeral)
  then show ?thesis using connection_base_cut by blast
qed

lemma bind_SomeD: "Option.bind m f = Some d \<Longrightarrow> \<exists>x. f x = Some d"
  by (cases m) auto

lemma chain_bounded_read:
  assumes "get_ConnectionDto v = Some d"
  shows "length (cd_containerChain d) \<le> wireMaxContainerChainDepth"
proof -
  obtain r where "get_ConnectionDto (StructV r) = Some d"
    using assms by (cases v) (simp_all add: get_ConnectionDto_def)
  then show ?thesis
    by (simp only: get_ConnectionDto_def dbus_value.case) ((drule bind_SomeD, elim exE)+, auto simp: Let_def split: if_splits)
qed

text \<open>The D-Bus signature of a value.\<close>

fun signature :: "dbus_value \<Rightarrow> string" where
  "signature (ByteV _) = ''y''"
| "signature (UInt16V _) = ''q''"
| "signature (UInt32V _) = ''u''"
| "signature (UInt64V _) = ''t''"
| "signature (BoolV _) = ''b''"
| "signature (StringV _) = ''s''"
| "signature (StringsV _) = ''as''"
| "signature (ArrayV vs) = ''a'' @ (case vs of [] \<Rightarrow> ''(sss)'' | v # _ \<Rightarrow> signature v)"
| "signature (StructV vs) = ''('' @ concat (map signature vs) @ '')''"

lemma connection_signature: "signature (put_ConnectionDto d) = ''(yysqysqttttsyuyuussssa(sss)y)''"
  by (cases "cd_containerChain d")
    (simp_all add: put_ConnectionDto_def ConnectionDto_fields_def enc_list_def put_ContainerInfoDto_def)

section \<open>Properties\<close>

text \<open>C11: what the agent publishes is what a client sees: marshalling a snapshot and reading it back
  gives the same flows in the same order, every counter, endpoint, state and attribution intact,
  except that executable paths and command lines never travel, a non-positive pid becomes 0 and
  only the first 16 chain entries are kept; interface statistics come back unchanged.\<close>

theorem wire_roundtrip:
  assumes "\<And>a. ofStr (toStr a) = a" and "\<And>c. c \<in> set cs \<Longrightarrow> pi_pid (c_process c) \<le> qint32_max"
  shows "map_option (fromDtos ofStr) (dec_list get_ConnectionDto (enc_list put_ConnectionDto (toDtos toStr cs)))
      = Some (map client_view cs) \<and>
    map_option if_fromDtos (dec_list get_InterfaceStatsDto (enc_list put_InterfaceStatsDto (if_toDtos xs)))
      = Some xs"
  using assms
  by (simp add: connection_wire.dec_list_enc interface_wire.dec_list_enc fromDtos_def toDtos_def
      if_roundtrip_list from_toDto)

definition sample_wire_flow :: Connection where
  "sample_wire_flow = no_connection\<lparr>c_proto := Tcp, c_rxBytes := 1500, c_direction := Outbound,
     c_local := \<lparr>ep_address = HostV4 16909060, ep_port = 40000\<rparr>, c_tcpState := Established,
     c_process := no_process\<lparr>pi_pid := 7, pi_comm := ''curl'', pi_exe := ''/usr/bin/curl''\<rparr>\<rparr>"

theorem wire_roundtrip_witness:
  "map_option (fromDtos plain_parse)
     (dec_list get_ConnectionDto (enc_list put_ConnectionDto (toDtos plain_addr [sample_wire_flow])))
   = Some [sample_wire_flow\<lparr>c_process := (c_process sample_wire_flow)\<lparr>pi_exe := []\<rparr>\<rparr>]"
proof -
  have "pi_pid (c_process c) \<le> qint32_max" if "c \<in> set [sample_wire_flow]" for c
    using that by (simp add: sample_wire_flow_def qint32_max_def)
  from wire_roundtrip [of plain_parse plain_addr "[sample_wire_flow]" "[]", OF plain_parse_addr this]
  show ?thesis
    by (simp add: client_view_def sample_wire_flow_def no_connection_def no_process_def)
qed

text \<open>C40: the format only grows: a client reads a structure of an older agent that stops after any of
  the appended fields, getting the sent fields and the defaults for the rest, and ignores
  fields a newer agent appends; a structure without the base fields is the one that cannot be read.\<close>

theorem wire_append_only:
  assumes "length (cd_containerChain d) \<le> wireMaxContainerChainDepth"
  shows "(13 \<le> n \<longrightarrow> (\<exists>d'. get_ConnectionDto (StructV (take n (ConnectionDto_fields d))) = Some d' \<and>
      same_prefix ConnectionDto_fields n d' d default_ConnectionDto)) \<and>
    (n < 13 \<longrightarrow> get_ConnectionDto (StructV (take n (ConnectionDto_fields d))) = None) \<and>
    get_ConnectionDto (StructV (ConnectionDto_fields d @ extra)) = Some d \<and>
    (10 \<le> m \<longrightarrow> (\<exists>i'. get_InterfaceStatsDto (StructV (take m (InterfaceStatsDto_fields i))) = Some i' \<and>
      same_prefix InterfaceStatsDto_fields m i' i default_InterfaceStatsDto)) \<and>
    get_InterfaceStatsDto (StructV (InterfaceStatsDto_fields i @ extra)) = Some i"
  using assms by (simp add: connection_short_read connection_base_missing interface_short_read
      connection_long_read interface_long_read clamp_chain_short)

theorem wire_append_only_witness:
  "(\<exists>d'. get_ConnectionDto (StructV (take 15 (ConnectionDto_fields (default_ConnectionDto\<lparr>cd_pid := 9\<rparr>)))) = Some d' \<and>
     same_prefix ConnectionDto_fields 15 d' (default_ConnectionDto\<lparr>cd_pid := 9\<rparr>) default_ConnectionDto) \<and>
   get_ConnectionDto (StructV (take 12 (ConnectionDto_fields default_ConnectionDto))) = None"
  using wire_append_only [of "default_ConnectionDto\<lparr>cd_pid := 9\<rparr>" 15] wire_append_only [of default_ConnectionDto 12]
  by (simp add: default_ConnectionDto_def)

text \<open>A hostile agent cannot hurt a client: whatever structure is read, the resulting flow has at
  most 16 chain entries, a pid between 0 and the largest \<open>qint32\<close>, no executable path and no
  command line, and enumeration values out of range become their documented fallbacks.\<close>

theorem hostile_flow_is_bounded:
  assumes "get_ConnectionDto v = Some d" and "c = fromDto ofStr d"
  shows "length (cd_containerChain d) \<le> 16 \<and> length (c_chain c) \<le> 16 \<and>
    0 \<le> pi_pid (c_process c) \<and> pi_pid (c_process c) \<le> qint32_max \<and>
    pi_exe (c_process c) = [] \<and> pi_cmdline (c_process c) = [] \<and>
    (2 < cd_direction d \<longrightarrow> c_direction c = DirUnknown) \<and>
    (9 < cd_tcpState d \<longrightarrow> c_tcpState c = TcpNone) \<and>
    (3 < cd_reason d \<longrightarrow> c_reason c = NoLocalSocket)"
  using chain_bounded_read [OF assms(1)]
  by (simp add: assms(2) fromDto_def no_process_def qint32_max_def wireMaxContainerChainDepth_def
      wire_Direction_def wire_TcpState_def wire_reason_def enum_of_range word_less_nat_alt)

theorem hostile_flow_is_bounded_witness:
  "c_direction (fromDto plain_parse (default_ConnectionDto\<lparr>cd_direction := 200\<rparr>)) = DirUnknown"
  using hostile_flow_is_bounded [of "put_ConnectionDto (default_ConnectionDto\<lparr>cd_direction := 200\<rparr>)"
      "default_ConnectionDto\<lparr>cd_direction := 200\<rparr>" _ plain_parse]
    connection_wire.dec_enc [of "default_ConnectionDto\<lparr>cd_direction := 200\<rparr>"]
  by (simp add: clamp_chain_def default_ConnectionDto_def)

end
