(* ===== verification/Capabilities.thy ===== *)
theory Capabilities
  imports Resolver
begin

text \<open>
  Capability tokens: the transport-neutral helpers of \<open>backend/MonitorCapabilities.h\<close> and the list the
  agent advertises (\<open>InterfacesService::capabilities\<close>). Clients branch on the presence of a token.
\<close>

text \<open>Append a token unless it is there: the loop body shared by every merge of the code.\<close>

definition add_token :: "string \<Rightarrow> string list \<Rightarrow> string list" where
  "add_token tok out = (if tok \<in> set out then out else out @ [tok])"

definition add_tokens :: "string list \<Rightarrow> string list \<Rightarrow> string list" where
  "add_tokens toks out = fold add_token toks out"

definition mergeCapabilities :: "string list \<Rightarrow> string list \<Rightarrow> string list" where
  "mergeCapabilities a b = add_tokens b (add_tokens a [])"

text \<open>The overload on two monitors that may be absent.\<close>

definition mergeMonitorCapabilities :: "string list option \<Rightarrow> string list option \<Rightarrow> string list" where
  "mergeMonitorCapabilities net conn =
     mergeCapabilities (case net of Some c \<Rightarrow> c | None \<Rightarrow> []) (case conn of Some c \<Rightarrow> c | None \<Rightarrow> [])"

definition attributionWireTokens :: "string list \<Rightarrow> string list" where
  "attributionWireTokens resolverCaps =
     (let process = ''process-attribution'' \<in> set resolverCaps;
          container = ''container-attribution'' \<in> set resolverCaps;
          chain = ''container-chain'' \<in> set resolverCaps
      in (if process then [''process-attribution-wire''] else []) @
         (if container then [''container-attribution-wire''] else []) @
         (if container \<and> chain then [''container-chain-wire''] else []))"

definition kAgentVersion :: string where "kAgentVersion = ''0.7''"

definition base_capabilities :: "string list" where
  "base_capabilities =
     [''cadence-hints'', ''cadence-signal'', ''name-owner-cleanup'', ''monotonic-clock'', ''snapshot-cap'',
      ''iana-proto'', ''direction-on-wire'', ''snapshot-timestamp'', ''ifindex'', ''oper-state'',
      ''link-errors'', ''tcp-state'', ''attribution-reason'', ''on-demand-process-details'',
      ''attribution-eagerness-hints'']"

text \<open>\<open>capabilities()\<close>: \<open>resolverCaps\<close> is what the wired resolver advertises, \<open>None\<close> without one.\<close>

definition agent_capabilities :: "bool \<Rightarrow> string list option \<Rightarrow> string list" where
  "agent_capabilities asyncRefinement resolverCaps =
     (let base = base_capabilities @ (if asyncRefinement then [''attribution-async-refinement''] else [])
      in case resolverCaps of
           None \<Rightarrow> base
         | Some caps \<Rightarrow> add_tokens (attributionWireTokens caps) (add_tokens caps base))"

section \<open>Facts\<close>

lemma merge_token_set [simp]: "set (add_token t out) = insert t (set out)"
  by (auto simp: add_token_def)

lemma merge_token_distinct: "distinct out \<Longrightarrow> distinct (add_token t out)"
  by (simp add: add_token_def)

lemma merge_tokens_set [simp]: "set (add_tokens toks out) = set toks \<union> set out"
  unfolding add_tokens_def by (induction toks arbitrary: out) auto

lemma merge_tokens_distinct: "distinct out \<Longrightarrow> distinct (add_tokens toks out)"
  unfolding add_tokens_def by (induction toks arbitrary: out) (auto simp: merge_token_distinct)

lemma merge_tokens_prefix: "\<exists>more. add_tokens toks out = out @ more"
proof (induction toks arbitrary: out)
  case (Cons t toks)
  then obtain more where "add_tokens toks (add_token t out) = add_token t out @ more" by blast
  then show ?case by (auto simp: add_tokens_def add_token_def split: if_splits)
qed (simp add: add_tokens_def)

lemma attributionWireTokens_set:
  "set (attributionWireTokens caps) =
     {t. (t = ''process-attribution-wire'' \<and> ''process-attribution'' \<in> set caps) \<or>
         (t = ''container-attribution-wire'' \<and> ''container-attribution'' \<in> set caps) \<or>
         (t = ''container-chain-wire'' \<and> ''container-attribution'' \<in> set caps \<and> ''container-chain'' \<in> set caps)}"
  by (auto simp: attributionWireTokens_def Let_def)

lemma base_capabilities_distinct: "distinct base_capabilities"
  by (simp add: base_capabilities_def)

section \<open>Properties\<close>

text \<open>The agent advertises exactly what it delivers: the structural tokens always, async refinement exactly when a
  worker is wired, every token of the resolver, and a wire token exactly when the resolver
  delivers the data behind it; no token twice, the structural ones first; and the union of two
  monitors' tokens loses and repeats nothing.\<close>

theorem capabilities_exact:
  assumes "set caps \<inter> {''process-attribution-wire'', ''container-attribution-wire'',
      ''container-chain-wire'', ''attribution-async-refinement''} = {}"
    and "out = agent_capabilities async (Some caps)"
  shows "distinct out \<and> take 15 out = base_capabilities \<and> set caps \<subseteq> set out \<and>
    (''attribution-async-refinement'' \<in> set out \<longleftrightarrow> async) \<and>
    (''process-attribution-wire'' \<in> set out \<longleftrightarrow> ''process-attribution'' \<in> set caps) \<and>
    (''container-chain-wire'' \<in> set out \<longleftrightarrow> ''container-attribution'' \<in> set caps \<and> ''container-chain'' \<in> set caps) \<and>
    distinct (mergeCapabilities a b) \<and> set (mergeCapabilities a b) = set a \<union> set b"
proof -
  let ?base = "base_capabilities @ (if async then [''attribution-async-refinement''] else [])"
  have out: "out = add_tokens (attributionWireTokens caps) (add_tokens caps ?base)"
    by (simp add: assms(2) agent_capabilities_def)
  have d: "distinct ?base"
    using base_capabilities_distinct by (simp add: base_capabilities_def)
  obtain more where "out = ?base @ more"
    using merge_tokens_prefix [of "attributionWireTokens caps" "add_tokens caps ?base"] merge_tokens_prefix [of caps ?base]
    by (auto simp: out)
  then have "take 15 out = base_capabilities"
    by (simp add: base_capabilities_def)
  moreover have "distinct out"
    unfolding out by (intro merge_tokens_distinct d)
  moreover have "distinct (mergeCapabilities a b) \<and> set (mergeCapabilities a b) = set a \<union> set b"
    by (auto simp: mergeCapabilities_def merge_tokens_distinct)
  moreover have "set out = set (attributionWireTokens caps) \<union> set caps \<union> set ?base"
    by (auto simp: out)
  ultimately show ?thesis
    using assms(1) by (auto simp: attributionWireTokens_set base_capabilities_def)
qed

theorem capabilities_exact_witness:
  "''process-attribution-wire'' \<in> set (agent_capabilities True (Some [''process-attribution'', ''container-chain''])) \<and>
   ''container-chain-wire'' \<notin> set (agent_capabilities True (Some [''process-attribution'', ''container-chain'']))"
  using capabilities_exact [of "[''process-attribution'', ''container-chain'']" _ True "[]" "[]"] by simp

end
