(* ===== verification/AgentServices.thy ===== *)
theory AgentServices
  imports Heuristics DeepQueue HintTables AgentConfig WireTypes Capabilities
begin

text \<open>
  The two D-Bus services of the agent, \<open>agent/ConnectionsService.cpp\<close> and
  \<open>agent/InterfacesService.cpp\<close>, and the wiring of \<open>agent/Application.cpp\<close>.

  One record holds what \<open>Application::start\<close> wires together: the shared objects (resolver,
  idle manager, hint manager, deep worker), each \<open>None\<close> while its pointer is null, and the private state
  of both services. A handler returns the signals it emits, in order, and the new state. Signals between
  objects of the agent (\<open>effectiveModeChanged\<close>, \<open>cadenceChanged\<close>, \<open>refined\<close>) are
  delivered at once, as same-thread Qt connections are.
\<close>

section \<open>State\<close>

text \<open>The readings of the four elapsed timers at the time of a call.\<close>

record Clocks =
  clk_conn :: quint64
  clk_iface :: quint64
  clk_idle :: int
  clk_hints :: int

text \<open>\<open>backend/linux/ProcDetails.h\<close>.\<close>

record ProcessDetails =
  det_pid :: int
  det_uid :: quint32
  det_comm :: string
  det_exe :: string
  det_cmdline :: string
  det_cwd :: string
  det_startTimeJiffies :: quint64
  det_valid :: bool

text \<open>What a handler observes of the host during one call: \<open>PlatformInfo.h\<close>, \<open>readProcessDetails\<close>,
  the start-time reader of the attribution pass, address printing and the bus daemon's
  \<open>GetConnectionUnixUser\<close> (\<open>None\<close> without a bus interface; \<open>Some f\<close> with \<open>f sender = None\<close> for an
  invalid reply).\<close>

record 's HostEnv =
  env_localAddresses :: "QHostAddress set"
  env_loopbackAddresses :: "QHostAddress set"
  env_ephemeralPortRange :: "quint16 \<times> quint16"
  env_userNameForUid :: "quint32 \<Rightarrow> string"
  env_userInGroup :: "quint32 \<Rightarrow> string \<Rightarrow> bool"
  env_readProcessDetails :: "int \<Rightarrow> ProcessDetails"
  env_startTimeForPid :: "int \<Rightarrow> 's \<Rightarrow> quint64"
  env_toString :: "QHostAddress \<Rightarrow> string"
  env_serviceUid :: "(string \<Rightarrow> quint32 option) option"

datatype agent_signal = ConnectionsChanged quint64 "ConnectionDto list"
  | AttributionChanged quint64 "ConnectionDto list"
  | PermissionDenied string
  | AccountingChanged bool
  | AttributionEagernessChanged string
  | StatsChanged quint64 "InterfaceStatsDto list"
  | CadenceChanged quint32

record 's Agent =
  ag_resolver :: "'s ProcessResolver option"
  ag_world :: 's
  ag_idle :: "IdleManager option"
  ag_hints :: "AttributionHintManager option"
  ag_worker :: "ResolverDeepWorker option"
  cs_wantContainerChain :: bool
  cs_detailsPolicy :: ProcessDetailsPolicy
  cs_last :: "ConnectionDto list"
  cs_lastConns :: "Connection list"
  cs_keyIndex :: "(AttributionFlowKey, nat) qhash"
  cs_generation :: quint64
  cs_accountingEnabled :: bool
  is_asyncRefinement :: bool
  is_last :: "InterfaceStatsDto list"

text \<open>Who calls a method: the agent itself, or a bus client by its unique name.\<close>

datatype Caller = InProcess | DBusCall string

fun sender_of :: "Caller \<Rightarrow> string" where
  "sender_of InProcess = []"
| "sender_of (DBusCall s) = s"

section \<open>Activity and cadence\<close>

definition is_onCadenceChanged :: "int \<Rightarrow> agent_signal" where
  "is_onCadenceChanged ms = CadenceChanged (word_of_int (max 0 ms))"

definition note_activity :: "Clocks \<Rightarrow> 's Agent \<Rightarrow> agent_signal list \<times> 's Agent" where
  "note_activity clk a =
     (case ag_idle a of
        None \<Rightarrow> ([], a)
      | Some i \<Rightarrow> (let (out, i) = im_noteActivity (clk_idle clk) i
                  in (map is_onCadenceChanged out, a\<lparr>ag_idle := Some i\<rparr>)))"

text \<open>The cast from \<open>uint\<close> to \<open>int\<close> wraps: requests of \<open>2\<^sup>3\<^sup>1\<close> and more are negative.\<close>

definition set_desired_interval :: "Clocks \<Rightarrow> Caller \<Rightarrow> quint32 \<Rightarrow> 's Agent \<Rightarrow> agent_signal list \<times> 's Agent" where
  "set_desired_interval clk caller intervalMs a =
     (case ag_idle a of
        None \<Rightarrow> ([], a)
      | Some i \<Rightarrow>
          (let (accepted, out, i) = im_setClientHint (clk_idle clk) (sender_of caller) (sint intervalMs) i;
               a = a\<lparr>ag_idle := Some i\<rparr>;
               (more, a) = (if accepted then note_activity clk a else ([], a))
           in (map is_onCadenceChanged out @ more, a)))"

section \<open>\<open>ConnectionsService\<close>: reads and hints\<close>

definition cs_GetConnections :: "Clocks \<Rightarrow> 's Agent \<Rightarrow> ConnectionDto list \<times> agent_signal list \<times> 's Agent" where
  "cs_GetConnections clk a = (let (out, a) = note_activity clk a in (cs_last a, out, a))"

definition cs_SetDesiredIntervalMs :: "Clocks \<Rightarrow> Caller \<Rightarrow> quint32 \<Rightarrow> 's Agent \<Rightarrow> agent_signal list \<times> 's Agent" where
  "cs_SetDesiredIntervalMs = set_desired_interval"

definition cs_attributionEagerness :: "Clocks \<Rightarrow> 's Agent \<Rightarrow> string" where
  "cs_attributionEagerness clk a =
     (case ag_hints a of
        Some h \<Rightarrow> eagernessToString (ah_effectiveMode (clk_hints clk) h)
      | None \<Rightarrow> eagernessToString Balanced)"

definition cs_onEffectiveEagernessChanged :: "AttributionEagerness \<Rightarrow> 's Agent \<Rightarrow> agent_signal list \<times> 's Agent" where
  "cs_onEffectiveEagernessChanged mode a =
     (let a = (case ag_resolver a of
                 None \<Rightarrow> a
               | Some r \<Rightarrow> a\<lparr>ag_world := rs_setTuning r (resolverTuningFor mode 0 0) (ag_world a)\<rparr>);
          a = (case ag_worker a of
                 None \<Rightarrow> a
               | Some w \<Rightarrow>
                   (let w = worker_setTuning (resolverTuningFor mode 0 0) w;
                        w = (if mode = Off then worker_setActive False w else worker_setActive True w)
                    in a\<lparr>ag_worker := Some w\<rparr>))
      in ([AttributionEagernessChanged (eagernessToString mode)], a))"

text \<open>Every mode the hint manager announces reaches the service.\<close>

primrec announce_modes :: "AttributionEagerness list \<Rightarrow> 's Agent \<Rightarrow> agent_signal list \<times> 's Agent" where
  "announce_modes [] a = ([], a)"
| "announce_modes (m # ms) a =
     (let (out, a) = cs_onEffectiveEagernessChanged m a; (more, a) = announce_modes ms a in (out @ more, a))"

definition cs_SetDesiredAttributionEagerness ::
  "Clocks \<Rightarrow> Caller \<Rightarrow> string \<Rightarrow> 's Agent \<Rightarrow> string \<times> agent_signal list \<times> 's Agent" where
  "cs_SetDesiredAttributionEagerness clk caller mode a =
     (case ag_hints a of
        None \<Rightarrow> (cs_attributionEagerness clk a, [], a)
      | Some h \<Rightarrow>
          (let sender = sender_of caller;
               t = trimmed mode;
               now = clk_hints clk;
               (accepted, modes, h) =
                 (if t = [] \<or> eqCI t ''default'' then ah_clearHint now sender h
                  else (case eagernessFromString t of
                          Some m \<Rightarrow> ah_setHint now sender m h
                        | None \<Rightarrow> (False, [], h)));
               (out, a) = announce_modes modes (a\<lparr>ag_hints := Some h\<rparr>);
               (more, a) = (if accepted then note_activity clk a else ([], a))
           in (eagernessToString (ah_effectiveMode now h), out @ more, a)))"

section \<open>\<open>ConnectionsService\<close>: process details\<close>

definition cs_callerMaySeeProcessFields :: "'s HostEnv \<Rightarrow> Caller \<Rightarrow> ProcessDetailsPolicy \<Rightarrow> quint32 \<Rightarrow> bool" where
  "cs_callerMaySeeProcessFields env caller policy targetUid =
     (if pd_mode policy = Permissive then True
      else (case caller of
              InProcess \<Rightarrow> True
            | DBusCall sender \<Rightarrow>
                (case env_serviceUid env of
                   None \<Rightarrow> False
                 | Some serviceUid \<Rightarrow>
                     (case serviceUid sender of
                        None \<Rightarrow> False
                      | Some uid \<Rightarrow>
                          if uid = 0 \<or> uid = targetUid then True
                          else if pd_mode policy = Restricted then
                            (let name = env_userNameForUid env uid
                             in (name \<noteq> [] \<and> list_ex (\<lambda>u. eqCI u name) (pd_allowUsers policy)) \<or>
                                list_ex (env_userInGroup env uid) (pd_allowGroups policy))
                          else False))))"

definition cs_GetProcessDetails ::
  "'s HostEnv \<Rightarrow> Clocks \<Rightarrow> Caller \<Rightarrow> quint32 \<Rightarrow> 's Agent \<Rightarrow> ProcessDetailsDto \<times> agent_signal list \<times> 's Agent" where
  "cs_GetProcessDetails env clk caller pid a =
     (let (out, a) = note_activity clk a in
      if pid = 0 \<or> qint32_max < uint pid then (default_ProcessDetailsDto, out, a)
      else
        (let d = env_readProcessDetails env (uint pid) in
         if \<not> det_valid d then (default_ProcessDetailsDto, out, a)
         else
           (let dto = default_ProcessDetailsDto\<lparr>pdd_pid := word_of_int (det_pid d), pdd_uid := det_uid d,
                        pdd_comm := det_comm d, pdd_startTimeJiffies := det_startTimeJiffies d\<rparr>
            in (if cs_callerMaySeeProcessFields env caller (cs_detailsPolicy a) (det_uid d)
                then dto\<lparr>pdd_exe := det_exe d, pdd_cmdline := det_cmdline d, pdd_cwd := det_cwd d\<rparr>
                else dto, out, a))))"

section \<open>\<open>ConnectionsService\<close>: snapshots\<close>

record ByteTotal =
  bt_low :: quint64
  bt_carry :: bool

definition cs_totalBytes :: "Connection \<Rightarrow> ByteTotal" where
  "cs_totalBytes c = \<lparr>bt_low = c_rxBytes c + c_txBytes c, bt_carry = (- 1 - c_txBytes c < c_rxBytes c)\<rparr>"

definition hasGreaterTotalBytes :: "Connection \<Rightarrow> Connection \<Rightarrow> bool" where
  "hasGreaterTotalBytes a b =
     (let ta = cs_totalBytes a; tb = cs_totalBytes b in
      if bt_carry ta \<noteq> bt_carry tb then bt_carry ta else bt_low tb < bt_low ta)"

definition kMaxConnections :: nat where "kMaxConnections = 4096"

definition cap_snapshot :: "Connection list \<Rightarrow> Connection list" where
  "cap_snapshot conns =
     (if kMaxConnections < length conns then partial_sort hasGreaterTotalBytes kMaxConnections conns
      else conns)"

definition set_directions :: "'s HostEnv \<Rightarrow> Connection list \<Rightarrow> Connection list" where
  "set_directions env cs = map (\<lambda>c. c\<lparr>c_direction := inferDirection c (env_localAddresses env)
     (env_loopbackAddresses env) (fst (env_ephemeralPortRange env)) (snd (env_ephemeralPortRange env))\<rparr>) cs"

definition set_reasons :: "'s HostEnv \<Rightarrow> Connection list \<Rightarrow> Connection list" where
  "set_reasons env cs = map (\<lambda>c. c\<lparr>c_reason := attributionReason c (env_localAddresses env)
     (env_loopbackAddresses env)\<rparr>) cs"

definition index_rows :: "Connection list \<Rightarrow> (AttributionFlowKey, nat) qhash" where
  "index_rows cs = fold (\<lambda>(i, c). hinsert (keyOf c) i) (enumerate 0 cs) []"

definition deep_requests :: "quint64 \<Rightarrow> quint64 \<Rightarrow> bool \<Rightarrow> Connection list \<Rightarrow> DeepAttributionRequest list" where
  "deep_requests generation nowMs wantChain cs =
     map (\<lambda>c. \<lparr>rq_key = keyOf c, rq_flow = c, rq_generation = generation, rq_monotonicMsQueued = nowMs,
                rq_wantContainerChain = wantChain, rq_attempts = 0\<rparr>)
       (filter (\<lambda>c. \<not> pi_valid (c_process c) \<and> c_reason c \<noteq> Forwarded) cs)"

definition cs_onConnectionsUpdated ::
  "'s HostEnv \<Rightarrow> Clocks \<Rightarrow> Connection list \<Rightarrow> 's Agent \<Rightarrow> agent_signal list \<times> 's Agent" where
  "cs_onConnectionsUpdated env clk conns a =
     (let kept = set_directions env (cap_snapshot conns);
          (kept, world) = attributeFlows kept (ag_resolver a)
            \<lparr>wantContainerChain = cs_wantContainerChain a, startTimeForPid = env_startTimeForPid env\<rparr> (ag_world a);
          kept = set_reasons env kept;
          last = toDtos (env_toString env) kept;
          a = a\<lparr>ag_world := world, cs_last := last, cs_lastConns := kept,
                cs_generation := cs_generation a + 1, cs_keyIndex := index_rows kept\<rparr>;
          a = (case ag_worker a of
                 None \<Rightarrow> a
               | Some w \<Rightarrow>
                   (let reqs = deep_requests (cs_generation a) (clk_conn clk) (cs_wantContainerChain a) kept
                    in if reqs \<noteq> [] then a\<lparr>ag_worker := Some (worker_enqueue reqs w)\<rparr> else a))
      in ([ConnectionsChanged (clk_conn clk) last], a))"

section \<open>\<open>ConnectionsService\<close>: refinements and backend notices\<close>

text \<open>The three guarded assignments to a row, and whether any of them happened.\<close>

definition patch_row :: "DeepAttributionUpdate \<Rightarrow> Connection \<Rightarrow> Connection \<times> bool" where
  "patch_row u c =
     (let (c, changed) = (if pi_valid (up_process u) \<and> \<not> pi_valid (c_process c)
                          then (c\<lparr>c_process := up_process u, c_reason := up_reason u\<rparr>, True) else (c, False));
          (c, changed) = (if ct_valid (up_container u) \<and> \<not> ct_valid (c_container c)
                          then (c\<lparr>c_container := up_container u\<rparr>, True) else (c, changed))
      in if up_chain u \<noteq> [] \<and> c_chain c = [] then (c\<lparr>c_chain := up_chain u\<rparr>, True) else (c, changed))"

definition refine_row ::
  "'s HostEnv \<Rightarrow> DeepAttributionUpdate \<Rightarrow> ConnectionDto list \<times> 's Agent \<Rightarrow> ConnectionDto list \<times> 's Agent" where
  "refine_row env u x =
     (let (patched, a) = x in
      case hfind (cs_keyIndex a) (up_key u) of
        None \<Rightarrow> x
      | Some idx \<Rightarrow>
          if length (cs_lastConns a) \<le> idx then x
          else
            (let (c, changed) = patch_row u (cs_lastConns a ! idx);
                 a = a\<lparr>cs_lastConns := (cs_lastConns a)[idx := c]\<rparr>
             in if \<not> changed then (patched, a)
                else (let d = toDto (env_toString env) c
                      in (patched @ [d], a\<lparr>cs_last := (cs_last a)[idx := d]\<rparr>))))"

definition cs_onDeepRefined ::
  "'s HostEnv \<Rightarrow> Clocks \<Rightarrow> DeepAttributionUpdate list \<Rightarrow> 's Agent \<Rightarrow> agent_signal list \<times> 's Agent" where
  "cs_onDeepRefined env clk updates a =
     (let (patched, a) = fold (refine_row env) updates ([], a)
      in (if patched \<noteq> [] then [AttributionChanged (clk_conn clk) patched] else [], a))"

definition cs_onPermissionDenied :: "string \<Rightarrow> 's Agent \<Rightarrow> agent_signal list \<times> 's Agent" where
  "cs_onPermissionDenied detail a = ([PermissionDenied detail], a)"

definition cs_onAccountingUnavailable :: "string \<Rightarrow> 's Agent \<Rightarrow> agent_signal list \<times> 's Agent" where
  "cs_onAccountingUnavailable detail a =
     (if cs_accountingEnabled a then ([AccountingChanged False], a\<lparr>cs_accountingEnabled := False\<rparr>) else ([], a))"

section \<open>\<open>InterfacesService\<close>\<close>

definition is_capabilities :: "'s Agent \<Rightarrow> string list" where
  "is_capabilities a =
     agent_capabilities (is_asyncRefinement a) (map_option (\<lambda>r. rs_capabilities r (ag_world a)) (ag_resolver a))"

definition is_GetInterfaces :: "Clocks \<Rightarrow> 's Agent \<Rightarrow> InterfaceStatsDto list \<times> agent_signal list \<times> 's Agent" where
  "is_GetInterfaces clk a = (let (out, a) = note_activity clk a in (is_last a, out, a))"

definition is_SetDesiredIntervalMs :: "Clocks \<Rightarrow> Caller \<Rightarrow> quint32 \<Rightarrow> 's Agent \<Rightarrow> agent_signal list \<times> 's Agent" where
  "is_SetDesiredIntervalMs = set_desired_interval"

definition is_onStatsUpdated :: "Clocks \<Rightarrow> InterfaceStats list \<Rightarrow> 's Agent \<Rightarrow> agent_signal list \<times> 's Agent" where
  "is_onStatsUpdated clk stats a =
     (let last = if_toDtos stats in ([StatsChanged (clk_iface clk) last], a\<lparr>is_last := last\<rparr>))"

section \<open>Wiring\<close>

definition kBusName :: string where "kBusName = ''org.qiftop.NetworkAgent1''"
definition kIfacesPath :: string where "kIfacesPath = ''/org/qiftop/NetworkAgent1/Interfaces''"
definition kConnsPath :: string where "kConnsPath = ''/org/qiftop/NetworkAgent1/Connections''"

text \<open>How the bus answers the calls of \<open>start\<close>.\<close>

record BusReplies =
  bus_connected :: bool
  bus_lastError :: string
  bus_registerObject :: "string \<Rightarrow> bool"
  bus_registerService :: "string \<Rightarrow> bool"

text \<open>The services right after their construction.\<close>

definition mk_services :: "'s ProcessResolver option \<Rightarrow> ProcessDetailsPolicy \<Rightarrow> 's \<Rightarrow> 's Agent" where
  "mk_services resolver policy s = \<lparr>ag_resolver = resolver, ag_world = s, ag_idle = None, ag_hints = None,
     ag_worker = None,
     cs_wantContainerChain = (case resolver of
        None \<Rightarrow> False | Some r \<Rightarrow> ''container-chain'' \<in> set (rs_capabilities r s)),
     cs_detailsPolicy = policy, cs_last = [], cs_lastConns = [], cs_keyIndex = [], cs_generation = 0,
     cs_accountingEnabled = True, is_asyncRefinement = False, is_last = []\<rparr>"

text \<open>The deep worker, when the resolver can attribute processes.\<close>

definition wire_worker :: "AttributionEagerness \<Rightarrow> 's Agent \<Rightarrow> 's Agent" where
  "wire_worker attrMode a =
     (case ag_resolver a of
        None \<Rightarrow> a
      | Some r \<Rightarrow>
          if ''process-attribution'' \<in> set (rs_capabilities r (ag_world a))
          then a\<lparr>ag_worker := Some (worker_setActive (attrMode \<noteq> Off)
                   (worker_setTuning (resolverTuningFor attrMode 0 0) mk_worker)),
                 is_asyncRefinement := True\<rparr>
          else a)"

text \<open>\<open>Application::start\<close>: on failure the error text and the object paths that are registered
  by then; on success the emitted signals and the running agent.\<close>

definition Application_start ::
  "BusReplies \<Rightarrow> Clocks \<Rightarrow> IdleConfig \<Rightarrow> AttributionEagerness \<Rightarrow> 's ProcessResolver option \<Rightarrow>
    ProcessDetailsPolicy \<Rightarrow> 's \<Rightarrow> (string \<times> string list) + (agent_signal list \<times> 's Agent)" where
  "Application_start bus clk idleCfg attrMode resolver policy s =
     (if \<not> bus_connected bus
      then Inl (if bus_lastError bus = [] then ''DBus connection is not open'' else bus_lastError bus, [])
      else if \<not> bus_registerObject bus kIfacesPath
      then Inl (''registerObject('' @ kIfacesPath @ '') failed: '' @ bus_lastError bus, [])
      else if \<not> bus_registerObject bus kConnsPath
      then Inl (''registerObject('' @ kConnsPath @ '') failed: '' @ bus_lastError bus, [kIfacesPath])
      else if \<not> bus_registerService bus kBusName
      then Inl (''registerService('' @ kBusName @ '') failed: '' @ bus_lastError bus, [kIfacesPath, kConnsPath])
      else
        (let a = mk_services resolver policy s;
             a = a\<lparr>ag_idle := Some (snd (mk_IdleManager idleCfg (clk_idle clk)))\<rparr>;
             a = a\<lparr>ag_hints := Some (mk_AttributionHintManager attrMode (hintTtlMs idleCfg))\<rparr>;
             a = wire_worker attrMode a
         in Inr (note_activity clk a)))"

text \<open>The timer-driven and bus-driven entries: the idle tick, the hint prune tick, a peer leaving the bus and the
  tick of the deep worker, whose refinements go straight to the service.\<close>

definition agent_idleTick :: "Clocks \<Rightarrow> 's Agent \<Rightarrow> agent_signal list \<times> 's Agent" where
  "agent_idleTick clk a =
     (case ag_idle a of
        None \<Rightarrow> ([], a)
      | Some i \<Rightarrow> (let (out, i) = im_evaluate (clk_idle clk) i
                  in (map is_onCadenceChanged out, a\<lparr>ag_idle := Some i\<rparr>)))"

definition agent_hintTick :: "Clocks \<Rightarrow> 's Agent \<Rightarrow> agent_signal list \<times> 's Agent" where
  "agent_hintTick clk a =
     (case ag_hints a of
        None \<Rightarrow> ([], a)
      | Some h \<Rightarrow> (let (modes, h) = ah_evaluate (clk_hints clk) h
                  in announce_modes modes (a\<lparr>ag_hints := Some h\<rparr>)))"

definition agent_idleOwnerChanged :: "Clocks \<Rightarrow> string \<Rightarrow> string \<Rightarrow> string \<Rightarrow> 's Agent \<Rightarrow> agent_signal list \<times> 's Agent" where
  "agent_idleOwnerChanged clk name oldOwner newOwner a =
     (case ag_idle a of
        None \<Rightarrow> ([], a)
      | Some i \<Rightarrow> (let (out, i) = im_onNameOwnerChanged (clk_idle clk) name oldOwner newOwner i
                  in (map is_onCadenceChanged out, a\<lparr>ag_idle := Some i\<rparr>)))"

definition agent_hintOwnerChanged :: "Clocks \<Rightarrow> string \<Rightarrow> string \<Rightarrow> string \<Rightarrow> 's Agent \<Rightarrow> agent_signal list \<times> 's Agent" where
  "agent_hintOwnerChanged clk name oldOwner newOwner a =
     (case ag_hints a of
        None \<Rightarrow> ([], a)
      | Some h \<Rightarrow> (let (modes, h) = ah_onNameOwnerChanged (clk_hints clk) name oldOwner newOwner h
                  in announce_modes modes (a\<lparr>ag_hints := Some h\<rparr>)))"

definition agent_deepTick :: "'s HostEnv \<Rightarrow> Clocks \<Rightarrow> 's Agent \<Rightarrow> agent_signal list \<times> 's Agent" where
  "agent_deepTick env clk a =
     (case ag_worker a of
        None \<Rightarrow> ([], a)
      | Some w \<Rightarrow>
          (let (w, updates, world) = worker_process (ag_resolver a) (env_startTimeForPid env) w (ag_world a)
           in cs_onDeepRefined env clk updates (a\<lparr>ag_worker := Some w, ag_world := world\<rparr>)))"

section \<open>Facts about the snapshot pass\<close>

text \<open>The comparator orders flows by their true byte totals, 65 bits wide.\<close>

definition total_bytes :: "Connection \<Rightarrow> nat" where
  "total_bytes c = unat (c_rxBytes c) + unat (c_txBytes c)"

lemma carry_iff: "(- 1 - b < (a::quint64)) \<longleftrightarrow> 2 ^ 64 \<le> unat a + unat b"
proof -
  have "unat (- 1 - b) = 2 ^ 64 - 1 - unat b"
    by (subst unat_sub) (simp_all add: unsigned_minus_1_eq_mask mask_eq_exp_minus_1)
  moreover have "unat b < 2 ^ 64"
    using unsigned_less [of b] by simp
  ultimately show ?thesis
    unfolding word_less_nat_alt by linarith
qed

lemma hasGreaterTotalBytes_iff: "hasGreaterTotalBytes a b \<longleftrightarrow> total_bytes b < total_bytes a"
proof -
  have lt: "unat (w::quint64) < 2 ^ 64" for w
    using unsigned_less [of w] by simp
  have low: "unat (bt_low (cs_totalBytes c)) = (if bt_carry (cs_totalBytes c) then total_bytes c - 2 ^ 64 else total_bytes c)"
    for c
    using lt [of "c_rxBytes c"] lt [of "c_txBytes c"]
    by (simp add: cs_totalBytes_def carry_iff total_bytes_def unat_word_ariths mod_if)
  have carry: "bt_carry (cs_totalBytes c) \<longleftrightarrow> 2 ^ 64 \<le> total_bytes c" for c
    by (simp add: cs_totalBytes_def carry_iff total_bytes_def)
  show ?thesis
    by (auto simp: hasGreaterTotalBytes_def Let_def word_less_nat_alt low carry)
qed

interpretation snapshot_cap: top_k total_bytes "partial_sort hasGreaterTotalBytes"
  "\<lambda>n cs. drop n (sort_by hasGreaterTotalBytes cs)"
  by (rule sort_by_top_k) (rule hasGreaterTotalBytes_iff)

text \<open>What attribution and refinement never touch, and what identifies a flow.\<close>

definition bare :: "Connection \<Rightarrow> Connection" where
  "bare c = c\<lparr>c_reason := Resolved, c_process := no_process, c_container := no_container, c_chain := []\<rparr>"

lemma bare_attribute_flow: "bare (fst (attribute_flow r opts c x)) = bare c"
  by (simp add: attribute_flow_def Let_def bare_def split: prod.splits)

lemma bare_attribute_pass: "map bare (fst (attribute_pass r opts cs x)) = map bare cs"
proof (induction cs arbitrary: x)
  case (Cons c cs)
  obtain c' y where c': "attribute_flow r opts c x = (c', y)" by (metis surj_pair)
  obtain cs' z where cs': "attribute_pass r opts cs y = (cs', z)" by (metis surj_pair)
  show ?case
    using bare_attribute_flow [of r opts c x] Cons.IH [of y] by (simp add: c' cs')
qed simp

lemma bare_attributeFlows: "map bare (fst (attributeFlows cs res opts s)) = map bare cs"
proof (cases res)
  case (Some r)
  obtain ds y t where "attribute_pass r opts cs (empty_memo, s) = (ds, y, t)" by (metis surj_pair)
  then show ?thesis
    using bare_attribute_pass [of r opts cs "(empty_memo, s)"] by (simp add: attributeFlows_def Some)
qed (simp add: attributeFlows_def)

lemma bare_keyOf: "bare c = bare d \<Longrightarrow> keyOf c = keyOf d"
  by (cases c; cases d) (simp add: bare_def keyOf_def)

lemma bare_total: "bare c = bare d \<Longrightarrow> total_bytes c = total_bytes d"
  by (cases c; cases d) (simp add: bare_def total_bytes_def)

text \<open>The row index is sound and complete.\<close>

definition index_ok :: "(AttributionFlowKey, nat) qhash \<Rightarrow> Connection list \<Rightarrow> bool" where
  "index_ok m cs = ((\<forall>k i. hfind m k = Some i \<longrightarrow> i < length cs \<and> keyOf (cs ! i) = k) \<and>
     (\<forall>c \<in> set cs. hcontains m (keyOf c)))"

lemma index_rows_snoc: "index_rows (cs @ [c]) = hinsert (keyOf c) (length cs) (index_rows cs)"
  by (simp add: index_rows_def enumerate_append_eq)

lemma index_rows_ok: "index_ok (index_rows cs) cs"
proof (induction cs rule: rev_induct)
  case Nil
  then show ?case by (simp add: index_rows_def index_ok_def)
next
  case (snoc c cs)
  then show ?case
    by (auto simp: index_rows_snoc index_ok_def update_conv' nth_append less_Suc_eq split: if_splits)
qed

text \<open>An index stays right when rows change but keep their keys.\<close>

lemma index_ok_cong: "map keyOf cs = map keyOf ds \<Longrightarrow> index_ok m cs \<Longrightarrow> index_ok m ds"
proof -
  assume eq: "map keyOf cs = map keyOf ds" and ok: "index_ok m cs"
  have len: "length cs = length ds" using eq by (rule map_eq_imp_length_eq)
  have nth: "keyOf (cs ! i) = keyOf (ds ! i)" if "i < length ds" for i
    using eq that len by (metis nth_map)
  have keys: "keyOf ` set cs = keyOf ` set ds" using eq by (metis set_map)
  have "hcontains m (keyOf d)" if "d \<in> set ds" for d
  proof -
    have "keyOf d \<in> keyOf ` set cs" using keys that by blast
    then obtain c where "c \<in> set cs" "keyOf d = keyOf c" by blast
    then show ?thesis using ok by (simp add: index_ok_def)
  qed
  then show ?thesis
    using ok len nth unfolding index_ok_def by simp metis
qed

section \<open>Facts about refinement\<close>

text \<open>A row after a refinement: attribution the row already has stays, and nothing else changes.\<close>

definition refines_row :: "Connection \<Rightarrow> Connection \<Rightarrow> bool" where
  "refines_row c d = (bare d = bare c \<and>
     (pi_valid (c_process c) \<longrightarrow> c_process d = c_process c) \<and>
     (c_reason d \<noteq> c_reason c \<longrightarrow> pi_valid (c_process d) \<and> \<not> pi_valid (c_process c)) \<and>
     (ct_valid (c_container c) \<longrightarrow> c_container d = c_container c) \<and>
     (c_chain c \<noteq> [] \<longrightarrow> c_chain d = c_chain c))"

lemma refines_row_refl [simp]: "refines_row c c"
  by (simp add: refines_row_def)

lemma refines_row_trans: "refines_row c d \<Longrightarrow> refines_row d e \<Longrightarrow> refines_row c e"
  unfolding refines_row_def by (intro conjI impI; metis)

lemma patch_row_refines: "refines_row c (fst (patch_row u c))"
  by (simp add: patch_row_def Let_def refines_row_def bare_def)

lemma patch_row_unchanged: "\<not> snd (patch_row u c) \<Longrightarrow> fst (patch_row u c) = c"
proof -
  let ?p = "pi_valid (up_process u) \<and> \<not> pi_valid (c_process c)"
  let ?ct = "ct_valid (up_container u) \<and> \<not> ct_valid (c_container c)"
  let ?ch = "up_chain u \<noteq> [] \<and> c_chain c = []"
  have "snd (patch_row u c) \<longleftrightarrow> ?p \<or> ?ct \<or> ?ch"
    by (simp add: patch_row_def)
  moreover have "fst (patch_row u c) = c" if "\<not> ?p" "\<not> ?ct" "\<not> ?ch"
    using that by (simp only: patch_row_def if_False Let_def case_prod_conv fst_conv)
  ultimately show "\<not> snd (patch_row u c) \<Longrightarrow> fst (patch_row u c) = c" by blast
qed

text \<open>The two lists of the service agree row by row.\<close>

definition mirror_ok :: "(QHostAddress \<Rightarrow> string) \<Rightarrow> 's Agent \<Rightarrow> bool" where
  "mirror_ok toStr a = (cs_last a = toDtos toStr (cs_lastConns a) \<and> index_ok (cs_keyIndex a) (cs_lastConns a))"

text \<open>What a batch of refinements does to the service, seen from its start.\<close>

definition refined_to :: "(QHostAddress \<Rightarrow> string) \<Rightarrow> AttributionFlowKey set \<Rightarrow> ConnectionDto list \<times> 's Agent \<Rightarrow>
    ConnectionDto list \<times> 's Agent \<Rightarrow> bool" where
  "refined_to toStr keys x y = (mirror_ok toStr (snd y) \<and>
     list_all2 refines_row (cs_lastConns (snd x)) (cs_lastConns (snd y)) \<and>
     snd y = (snd x)\<lparr>cs_last := cs_last (snd y), cs_lastConns := cs_lastConns (snd y)\<rparr> \<and>
     (\<exists>ds. fst y = fst x @ ds \<and> (ds = [] \<longrightarrow> snd y = snd x)) \<and>
     (\<forall>i < length (cs_lastConns (snd x)). keyOf (cs_lastConns (snd x) ! i) \<notin> keys \<longrightarrow>
        cs_lastConns (snd y) ! i = cs_lastConns (snd x) ! i))"

lemma refines_rows_keys: "list_all2 refines_row cs ds \<Longrightarrow> map keyOf cs = map keyOf ds"
  by (induction rule: list_all2_induct) (auto simp: refines_row_def dest: bare_keyOf)

lemma refined_to_refl: "mirror_ok toStr (snd x) \<Longrightarrow> refined_to toStr keys x x"
  by (simp add: refined_to_def list_all2_refl)

lemma refined_to_trans:
  assumes "refined_to toStr A x y" and "refined_to toStr B y z"
  shows "refined_to toStr (A \<union> B) x z"
proof -
  have rows: "list_all2 refines_row (cs_lastConns (snd x)) (cs_lastConns (snd z))"
    using list_all2_trans [of refines_row refines_row refines_row] refines_row_trans assms
    unfolding refined_to_def by metis
  have keys: "map keyOf (cs_lastConns (snd x)) = map keyOf (cs_lastConns (snd y))"
    using assms(1) by (auto simp: refined_to_def intro: refines_rows_keys)
  have len: "length (cs_lastConns (snd y)) = length (cs_lastConns (snd x))"
    using assms(1) by (auto simp: refined_to_def dest: list_all2_lengthD)
  have same: "cs_lastConns (snd z) ! i = cs_lastConns (snd x) ! i"
    if "i < length (cs_lastConns (snd x))" "keyOf (cs_lastConns (snd x) ! i) \<notin> A \<union> B" for i
  proof -
    have "keyOf (cs_lastConns (snd y) ! i) = keyOf (cs_lastConns (snd x) ! i)"
      using keys that(1) len by (metis nth_map)
    then show ?thesis
      using assms that len by (simp add: refined_to_def)
  qed
  obtain l c where y: "snd y = (snd x)\<lparr>cs_last := l, cs_lastConns := c\<rparr>"
    using assms(1) unfolding refined_to_def by blast
  obtain l' c' where z: "snd z = (snd y)\<lparr>cs_last := l', cs_lastConns := c'\<rparr>"
    using assms(2) unfolding refined_to_def by blast
  have st: "snd z = (snd x)\<lparr>cs_last := cs_last (snd z), cs_lastConns := cs_lastConns (snd z)\<rparr>"
    by (simp add: z y)
  have out: "\<exists>ds. fst z = fst x @ ds \<and> (ds = [] \<longrightarrow> snd z = snd x)"
  proof -
    obtain ds es where "fst y = fst x @ ds" "ds = [] \<longrightarrow> snd y = snd x" "fst z = fst y @ es" "es = [] \<longrightarrow> snd z = snd y"
      using assms unfolding refined_to_def by blast
    then show ?thesis by (intro exI [of _ "ds @ es"]) simp
  qed
  have "mirror_ok toStr (snd z)"
    using assms(2) by (simp add: refined_to_def)
  then show ?thesis
    unfolding refined_to_def using rows same st out by blast
qed

lemma refine_row_refines:
  assumes "mirror_ok toStr (snd x)" and "env_toString env = toStr"
  shows "refined_to toStr {up_key u} x (refine_row env u x)"
proof (cases "hfind (cs_keyIndex (snd x)) (up_key u)")
  case None
  then show ?thesis
    using refined_to_refl [OF assms(1)] by (cases x) (simp add: refine_row_def)
next
  case (Some idx)
  obtain p a where x: "x = (p, a)" by (metis surj_pair)
  let ?cs = "cs_lastConns a"
  have idx: "idx < length ?cs" "keyOf (?cs ! idx) = up_key u" and mir: "cs_last a = toDtos toStr ?cs"
    using assms(1) Some unfolding mirror_ok_def index_ok_def x snd_conv by blast+
  obtain c ch where pr: "patch_row u (?cs ! idx) = (c, ch)" by (metis surj_pair)
  have ref: "refines_row (?cs ! idx) c" and same: "\<not> ch \<Longrightarrow> c = ?cs ! idx"
    using patch_row_refines [of "?cs ! idx" u] patch_row_unchanged [of u "?cs ! idx"] by (simp_all add: pr)
  have rows: "list_all2 refines_row ?cs (?cs[idx := c])"
    using ref idx(1) by (simp add: list_all2_conv_all_nth nth_list_update)
  have "index_ok (cs_keyIndex a) ?cs"
    using assms(1) by (simp add: mirror_ok_def x)
  then have ix: "index_ok (cs_keyIndex a) (?cs[idx := c])"
    by (rule index_ok_cong [OF refines_rows_keys [OF rows]])
  show ?thesis
  proof (cases ch)
    case False
    then show ?thesis
      using refined_to_refl [OF assms(1)] Some idx same by (simp add: refine_row_def x pr Let_def)
  next
    case True
    let ?d = "toDto (env_toString env) c"
    have res: "refine_row env u x = (p @ [?d], a\<lparr>cs_lastConns := ?cs[idx := c], cs_last := (cs_last a)[idx := ?d]\<rparr>)"
      using Some idx True by (simp add: refine_row_def x pr Let_def)
    have "(cs_last a)[idx := ?d] = toDtos toStr (?cs[idx := c])"
      using assms(2) by (simp add: mir toDtos_def map_update)
    then show ?thesis
      using rows ix idx unfolding res by (auto simp: x refined_to_def mirror_ok_def nth_list_update)
  qed
qed

lemma refine_rows_refine:
  assumes "mirror_ok toStr (snd x)" and "env_toString env = toStr"
  shows "refined_to toStr (up_key ` set us) x (fold (refine_row env) us x)"
  using assms(1)
proof (induction us arbitrary: x)
  case (Cons u us)
  have "refined_to toStr {up_key u} x (refine_row env u x)"
    using Cons.prems assms(2) by (rule refine_row_refines)
  moreover from this have "refined_to toStr (up_key ` set us) (refine_row env u x) (fold (refine_row env) us (refine_row env u x))"
    by (intro Cons.IH) (simp add: refined_to_def)
  ultimately show ?case using refined_to_trans by fastforce
qed (simp add: refined_to_refl)

end
