(* ===== verification/AgentRun.thy ===== *)
theory AgentRun
  imports AgentServices
begin

text \<open>
  The running agent: what the deep worker holds, the states the wired agent can reach through its
  entry points (\<open>agent/Application.cpp\<close> wires them), and the properties that span the services, the
  hint tables, the resolver and the worker.
\<close>

section \<open>What the deep worker holds\<close>

text \<open>Requests are for unattributed flows that end on this host, under their own key.\<close>

definition weak_request :: "DeepAttributionRequest \<Rightarrow> bool" where
  "weak_request r = (rq_key r = keyOf (rq_flow r) \<and> \<not> pi_valid (c_process (rq_flow r)) \<and>
     c_reason (rq_flow r) \<noteq> Forwarded)"

definition weak_queue :: "DeepAttributionQueue \<Rightarrow> bool" where
  "weak_queue q = (\<forall>r \<in> set (pending q). weak_request r)"

definition worker_ok :: "ResolverDeepWorker \<Rightarrow> bool" where
  "worker_ok w = (dw_ok w \<and> weak_queue (dw_queue w))"

lemma set_hremoves_subset: "set (fold (\<lambda>r. hremove (f r)) rs m) \<subseteq> set m"
proof (induction rs arbitrary: m)
  case (Cons r rs)
  then show ?case using Cons [of "hremove (f r) m"] by (auto simp: AList.delete_eq)
qed simp

lemma enforceCap_subset: "set (pending (snd (enforceCap q))) \<subseteq> set (pending q)"
  using image_mono [OF set_hremoves_subset, of snd rq_key "quietest priority (nat (dq_cap q)) (pending q)" "dq_byKey q"]
  by (simp add: enforceCap_def remove_requests_def Let_def)

lemma weak_queue_subset: "set (pending q') \<subseteq> set (pending q) \<Longrightarrow> weak_queue q \<Longrightarrow> weak_queue q'"
  unfolding weak_queue_def by blast

lemma enforceCap_weak: "weak_queue q \<Longrightarrow> weak_queue (snd (enforceCap q))"
  by (rule weak_queue_subset [OF enforceCap_subset])

lemma merge_weak:
  assumes "weak_queue q" and "weak_request r"
  shows "weak_queue (merge_into r q)"
proof -
  let ?m = "merge_request (hfind (dq_byKey q) (rq_key r)) r"
  have "weak_request ?m"
    using assms(2) by (simp add: merge_request_def weak_request_def split: option.split)
  moreover have "set (pending (merge_into r q)) \<subseteq> insert ?m (set (pending q))"
    using image_mono [OF hinsert_entries, of snd "rq_key r" ?m "dq_byKey q"] by (simp add: merge_into_def)
  ultimately show ?thesis
    using assms(1) unfolding weak_queue_def by blast
qed

lemma merge_all_weak: "weak_queue q \<Longrightarrow> \<forall>r \<in> set rs. weak_request r \<Longrightarrow> weak_queue (fold merge_into rs q)"
  by (induction rs arbitrary: q) (simp_all add: merge_weak)

lemma enqueue_weak: "weak_queue q \<Longrightarrow> \<forall>r \<in> set rs. weak_request r \<Longrightarrow> weak_queue (snd (enqueue rs q))"
  unfolding enqueue_def by (intro enforceCap_weak merge_all_weak)

lemma dequeue_weak:
  assumes "weak_queue q" and "dequeue batch q = (out, q')"
  shows "weak_queue q' \<and> (\<forall>r \<in> set out. weak_request r)"
proof (cases "batch \<le> 0 \<or> dq_byKey q = []")
  case True
  then show ?thesis using assms by (auto simp: dequeue_def)
next
  case False
  let ?out = "loudest priority (nat batch) (pending q)"
  have o: "out = ?out" "q' = remove_requests ?out q"
    using False assms(2) by (auto simp: dequeue_def Let_def)
  have "set (pending q') \<subseteq> set (pending q)"
    unfolding o(2) using image_mono [OF set_hremoves_subset, of snd rq_key ?out "dq_byKey q"]
    by (simp add: remove_requests_def)
  then have "weak_queue q'" using assms(1) by (rule weak_queue_subset)
  moreover have "set out \<subseteq> set (pending q)"
    unfolding o(1) by (rule psort.kept_subset)
  ultimately show ?thesis using assms(1) unfolding weak_queue_def by blast
qed

lemma worker_enqueue_ok:
  assumes "worker_ok w" and "\<forall>r \<in> set rs. weak_request r"
  shows "worker_ok (worker_enqueue rs w)"
  using assms enqueue_ok [of "dw_queue w" rs] enqueue_weak [of "dw_queue w" rs]
  by (simp add: worker_enqueue_def worker_ok_def dw_ok_def ensureRunning_def)

lemma worker_clear_worker_ok: "worker_ok w \<Longrightarrow> worker_ok (worker_clear w)"
  by (simp add: worker_ok_def worker_clear_ok) (simp add: worker_clear_def queue_clear_def weak_queue_def)

lemma worker_setActive_ok: "worker_ok w \<Longrightarrow> worker_ok (worker_setActive active w)"
  using worker_clear_worker_ok [of "w\<lparr>dw_active := False\<rparr>"]
  by (auto simp: worker_setActive_def Let_def worker_ok_def dw_ok_def)

lemma worker_setTuning_ok: "worker_ok w \<Longrightarrow> worker_ok (worker_setTuning t w)"
proof -
  assume ok: "worker_ok w"
  have "weak_queue ((dw_queue w)\<lparr>dq_cap := c\<rparr>)" for c
    using ok by (simp add: worker_ok_def weak_queue_def)
  then have "weak_queue (setCapacity (deepQueueMax t) (dw_queue w))"
    unfolding setCapacity_def by (rule enforceCap_weak)
  moreover have "dq_ok (setCapacity (deepQueueMax t) (dw_queue w))"
    using ok by (simp add: worker_ok_def dw_ok_def setCapacity_ok)
  ultimately show "worker_ok (worker_setTuning t w)"
    by (simp add: worker_setTuning_def worker_ok_def dw_ok_def Let_def)
qed

lemma mk_worker_ok: "worker_ok mk_worker"
  by (simp add: worker_ok_def dw_ok_def mk_worker_def mk_queue_def dq_ok_def keyed_def weak_queue_def)

text \<open>A refinement that found a process always says resolved.\<close>

definition update_ok :: "DeepAttributionUpdate \<Rightarrow> bool" where
  "update_ok u = (pi_valid (up_process u) \<longrightarrow> up_reason u = Resolved)"

lemma process_request_outcome:
  assumes "process_request r st n req (us, rt, s) = (us', rt', s')"
    and "\<forall>u \<in> set us. update_ok u" and "\<forall>q \<in> set rt. weak_request q" and "weak_request req"
  shows "(\<forall>u \<in> set us'. update_ok u) \<and> (\<forall>q \<in> set rt'. weak_request q)"
proof -
  have "weak_request (req\<lparr>rq_attempts := k\<rparr>)" for k
    using assms(4) by (simp add: weak_request_def)
  then show ?thesis
    using assms by (auto simp: process_request_def Let_def update_ok_def split: prod.splits if_splits)
qed

lemma process_requests_outcome:
  assumes "\<forall>u \<in> set us. update_ok u" and "\<forall>q \<in> set rt. weak_request q" and "\<forall>q \<in> set batch. weak_request q"
    and "fold (process_request r st n) batch (us, rt, s) = (us', rt', s')"
  shows "(\<forall>u \<in> set us'. update_ok u) \<and> (\<forall>q \<in> set rt'. weak_request q)"
  using assms
proof (induction batch arbitrary: us rt s)
  case (Cons req batch)
  obtain us1 rt1 s1 where one: "process_request r st n req (us, rt, s) = (us1, rt1, s1)" by (metis prod_cases3)
  note step = process_request_outcome [OF one Cons.prems(1,2)]
  show ?case
    using Cons.IH [of us1 rt1 s1] step Cons.prems(3,4) by (simp add: one)
qed simp

lemma worker_process_ok:
  assumes "worker_ok w" and "worker_process res st w s = (w', us, s')"
  shows "worker_ok w' \<and> (\<forall>u \<in> set us. update_ok u)"
proof (cases "res = None \<or> \<not> dw_active w")
  case True
  then have "w' = worker_clear w" "us = []"
    using assms(2) by (auto simp: worker_process_def split: option.splits)
  then show ?thesis using assms(1) worker_clear_worker_ok by simp
next
  case False
  then obtain r where r: "res = Some r" "dw_active w" by auto
  obtain batch q1 where d: "dequeue (dw_batchMax w) (dw_queue w) = (batch, q1)" by fastforce
  obtain up rt s1 where f: "fold (process_request r st (dw_maxAttempts w)) batch ([], [], s) = (up, rt, s1)"
    by (metis prod_cases3)
  have "weak_queue (dw_queue w)" using assms(1) by (simp add: worker_ok_def)
  note dq = dequeue_weak [OF this d]
  have out: "(\<forall>u \<in> set up. update_ok u) \<and> (\<forall>q \<in> set rt. weak_request q)"
    using process_requests_outcome [of "[]" "[]" batch, OF _ _ _ f] dq by simp
  have w': "dw_queue w' = (if rt \<noteq> [] then snd (enqueue rt q1) else q1)" "us = up"
    using assms(2) r by (auto simp: worker_process_def d f Let_def split: if_splits)
  have "weak_queue (dw_queue w')"
    using w'(1) dq out enqueue_weak [of q1 rt] by simp
  then show ?thesis
    using w'(2) out worker_tick [OF _ assms(2)] assms(1) by (simp add: worker_ok_def)
qed

section \<open>The invariant of the agent\<close>

definition row_ok :: "Connection \<Rightarrow> bool" where
  "row_ok c = (c_reason c = Resolved \<longleftrightarrow> pi_valid (c_process c))"

definition agent_ok :: "(QHostAddress \<Rightarrow> string) \<Rightarrow> 's Agent \<Rightarrow> bool" where
  "agent_ok toStr a = (mirror_ok toStr a \<and> length (cs_lastConns a) \<le> kMaxConnections \<and>
     (\<forall>c \<in> set (cs_lastConns a). row_ok c) \<and> (\<forall>w. ag_worker a = Some w \<longrightarrow> worker_ok w))"

lemma agent_ok_frame [simp]:
  "agent_ok toStr (a\<lparr>ag_idle := i\<rparr>) = agent_ok toStr a"
  "agent_ok toStr (a\<lparr>ag_hints := h\<rparr>) = agent_ok toStr a"
  "agent_ok toStr (a\<lparr>ag_world := s\<rparr>) = agent_ok toStr a"
  "agent_ok toStr (a\<lparr>is_last := l\<rparr>) = agent_ok toStr a"
  "agent_ok toStr (a\<lparr>cs_accountingEnabled := b\<rparr>) = agent_ok toStr a"
  "agent_ok toStr (a\<lparr>is_asyncRefinement := b\<rparr>) = agent_ok toStr a"
  by (simp_all add: agent_ok_def mirror_ok_def)

lemma agent_ok_worker: "agent_ok toStr a \<Longrightarrow> worker_ok w \<Longrightarrow> agent_ok toStr (a\<lparr>ag_worker := Some w\<rparr>)"
  by (simp add: agent_ok_def mirror_ok_def)

lemma note_activity_ok: "agent_ok toStr a \<Longrightarrow> agent_ok toStr (snd (note_activity clk a))"
  by (simp add: note_activity_def split: option.split prod.split)

lemma set_desired_interval_ok: "agent_ok toStr a \<Longrightarrow> agent_ok toStr (snd (set_desired_interval clk caller ms a))"
  by (cases "ag_idle a") (simp_all add: set_desired_interval_def Let_def case_prod_beta note_activity_ok)

lemma effective_changed_ok:
  assumes "agent_ok toStr a"
  shows "agent_ok toStr (snd (cs_onEffectiveEagernessChanged m a))"
proof (cases "ag_worker a")
  case None
  then show ?thesis using assms by (simp add: cs_onEffectiveEagernessChanged_def Let_def split: option.split)
next
  case (Some w)
  then have "worker_ok w" using assms by (simp add: agent_ok_def)
  then have "worker_ok (worker_setActive b (worker_setTuning t w))" for b t
    by (intro worker_setActive_ok worker_setTuning_ok)
  then show ?thesis
    using assms Some
    by (cases "ag_resolver a") (simp_all add: cs_onEffectiveEagernessChanged_def Let_def agent_ok_worker)
qed

lemma announce_modes_ok: "agent_ok toStr a \<Longrightarrow> agent_ok toStr (snd (announce_modes ms a))"
  by (induction ms arbitrary: a) (simp_all add: Let_def case_prod_beta effective_changed_ok)

lemma set_eagerness_ok:
  "agent_ok toStr a \<Longrightarrow> agent_ok toStr (snd (snd (cs_SetDesiredAttributionEagerness clk caller m a)))"
  by (cases "ag_hints a")
    (simp_all add: cs_SetDesiredAttributionEagerness_def Let_def case_prod_beta note_activity_ok announce_modes_ok)

text \<open>The snapshot pass, named step by step.\<close>

definition snapshot_rows :: "'s HostEnv \<Rightarrow> Connection list \<Rightarrow> 's Agent \<Rightarrow> Connection list" where
  "snapshot_rows env conns a = set_reasons env (fst (attributeFlows (set_directions env (cap_snapshot conns))
     (ag_resolver a) \<lparr>wantContainerChain = cs_wantContainerChain a, startTimeForPid = env_startTimeForPid env\<rparr>
     (ag_world a)))"

lemma cs_onConnectionsUpdated_sel:
  assumes "cs_onConnectionsUpdated env clk conns a = (out, a')"
  shows "out = [ConnectionsChanged (clk_conn clk) (cs_last a')]"
    and "cs_lastConns a' = snapshot_rows env conns a"
    and "cs_last a' = toDtos (env_toString env) (cs_lastConns a')"
    and "cs_keyIndex a' = index_rows (cs_lastConns a')"
    and "cs_generation a' = cs_generation a + 1"
    and "ag_worker a' = map_option (\<lambda>w. worker_enqueue (deep_requests (cs_generation a') (clk_conn clk)
           (cs_wantContainerChain a) (cs_lastConns a')) w) (ag_worker a)"
  using assms
  by (auto simp: cs_onConnectionsUpdated_def snapshot_rows_def Let_def case_prod_beta worker_enqueue_def
      split: option.split)

lemma cap_snapshot_length: "length (cap_snapshot conns) = min kMaxConnections (length conns)"
  by (simp add: cap_snapshot_def snapshot_cap.kept_length)

text \<open>What the snapshot pass leaves alone: everything but the attribution and the direction.\<close>

definition flow_facts :: "Connection \<Rightarrow> Connection" where
  "flow_facts c = (bare c)\<lparr>c_direction := DirUnknown\<rparr>"

lemma flow_facts_total: "flow_facts c = flow_facts d \<Longrightarrow> total_bytes c = total_bytes d"
  by (cases c; cases d) (simp add: flow_facts_def bare_def total_bytes_def)

lemma bare_set_directions: "map flow_facts (set_directions env cs) =
    map flow_facts cs"
  by (simp add: set_directions_def flow_facts_def bare_def)

lemma inferDirection_cong:
  "c_proto c = c_proto d \<Longrightarrow> c_local c = c_local d \<Longrightarrow> c_remote c = c_remote d \<Longrightarrow>
   inferDirection c L K lo hi = inferDirection d L K lo hi"
  by (simp only: inferDirection_def)

lemma bare_direction:
  assumes "bare c = bare d"
  shows "c_direction c = c_direction d \<and> inferDirection c L K lo hi = inferDirection d L K lo hi"
proof -
  have "c_proto c = c_proto d \<and> c_local c = c_local d \<and> c_remote c = c_remote d \<and> c_direction c = c_direction d"
    using assms by (cases c; cases d) (simp add: bare_def)
  then show ?thesis using inferDirection_cong by blast
qed

lemma inferDirection_self [simp]: "inferDirection (c\<lparr>c_direction := x\<rparr>) L K lo hi = inferDirection c L K lo hi"
  by (rule inferDirection_cong) simp_all

lemma bare_set_reasons: "map bare (set_reasons env cs) = map bare cs"
  by (simp add: set_reasons_def bare_def)

lemma map_bare_rows: "map bare (snapshot_rows env conns a) = map bare (set_directions env (cap_snapshot conns))"
  by (simp add: snapshot_rows_def bare_set_reasons bare_attributeFlows)

lemma snapshot_rows_length: "length (snapshot_rows env conns a) = min kMaxConnections (length conns)"
  using map_bare_rows [THEN arg_cong, of length] by (simp add: set_directions_def cap_snapshot_length)

lemma reason_resolved_iff: "attributionReason c l k = Resolved \<longleftrightarrow> pi_valid (c_process c)"
  by (simp add: attributionReason_def pi_valid_def split: TcpState.split)

lemma attributionReason_self [simp]: "attributionReason (c\<lparr>c_reason := x\<rparr>) l k = attributionReason c l k"
  by (simp add: attributionReason_def isForwardedFlow_def)

lemma snapshot_rows_reason:
  "c \<in> set (snapshot_rows env conns a) \<Longrightarrow>
   c_reason c = attributionReason c (env_localAddresses env) (env_loopbackAddresses env)"
  by (auto simp: snapshot_rows_def set_reasons_def)

lemma deep_requests_weak: "\<forall>r \<in> set (deep_requests g now want cs). weak_request r"
  by (auto simp: deep_requests_def weak_request_def)

lemma connections_updated_ok:
  assumes "agent_ok (env_toString env) a"
  shows "agent_ok (env_toString env) (snd (cs_onConnectionsUpdated env clk conns a))"
proof -
  obtain out a' where u: "cs_onConnectionsUpdated env clk conns a = (out, a')" by fastforce
  note sel = cs_onConnectionsUpdated_sel [OF u]
  have "mirror_ok (env_toString env) a'"
    using sel(3,4) index_rows_ok by (simp add: mirror_ok_def)
  moreover have "length (cs_lastConns a') \<le> kMaxConnections"
    using sel(2) by (simp add: snapshot_rows_length)
  moreover have "row_ok c" if "c \<in> set (cs_lastConns a')" for c
    using snapshot_rows_reason [of c env conns a] that reason_resolved_iff by (simp add: sel(2) row_ok_def)
  moreover have "worker_ok w" if "ag_worker a' = Some w" for w
    using that assms deep_requests_weak by (auto simp: sel(6) agent_ok_def intro: worker_enqueue_ok)
  ultimately show ?thesis
    by (simp add: u agent_ok_def)
qed

lemma patch_row_ok: "update_ok u \<Longrightarrow> row_ok c \<Longrightarrow> row_ok (fst (patch_row u c))"
  by (cases "pi_valid (up_process u) \<and> \<not> pi_valid (c_process c)") (simp_all add: patch_row_def update_ok_def row_ok_def)

lemma refine_row_rows:
  assumes "update_ok u" and "\<forall>c \<in> set (cs_lastConns (snd x)). row_ok c"
  shows "\<forall>c \<in> set (cs_lastConns (snd (refine_row env u x))). row_ok c"
proof (cases "hfind (cs_keyIndex (snd x)) (up_key u)")
  case None
  then show ?thesis using assms(2) by (cases x) (simp add: refine_row_def)
next
  case (Some idx)
  show ?thesis
  proof (cases "length (cs_lastConns (snd x)) \<le> idx")
    case True
    then show ?thesis using assms(2) Some by (cases x) (simp add: refine_row_def)
  next
    case False
    let ?c = "cs_lastConns (snd x) ! idx"
    have "row_ok (fst (patch_row u ?c))"
      using assms False by (intro patch_row_ok) simp_all
    moreover have "cs_lastConns (snd (refine_row env u x)) = (cs_lastConns (snd x))[idx := fst (patch_row u ?c)]"
      using Some False by (cases x) (simp add: refine_row_def Let_def case_prod_beta)
    ultimately show ?thesis
      using assms(2) set_update_subset_insert [of "cs_lastConns (snd x)" idx "fst (patch_row u ?c)"] by auto
  qed
qed

lemma refine_rows_rows:
  "\<forall>u \<in> set us. update_ok u \<Longrightarrow> \<forall>c \<in> set (cs_lastConns (snd x)). row_ok c \<Longrightarrow>
   \<forall>c \<in> set (cs_lastConns (snd (fold (refine_row env) us x))). row_ok c"
proof (induction us arbitrary: x)
  case (Cons u us)
  have "\<forall>c \<in> set (cs_lastConns (snd (refine_row env u x))). row_ok c"
    using Cons.prems by (intro refine_row_rows) simp_all
  with Cons.prems(1) have "\<forall>c \<in> set (cs_lastConns (snd (fold (refine_row env) us (refine_row env u x)))). row_ok c"
    by (intro Cons.IH) simp_all
  then show ?case by simp
qed simp

lemma deep_refined_ok:
  assumes "agent_ok (env_toString env) a" and "\<forall>u \<in> set us. update_ok u"
  shows "agent_ok (env_toString env) (snd (cs_onDeepRefined env clk us a))"
proof -
  define y where "y = fold (refine_row env) us ([], a)"
  have ref: "refined_to (env_toString env) (up_key ` set us) ([], a) y"
    unfolding y_def using assms(1) by (intro refine_rows_refine) (simp_all add: agent_ok_def)
  have rows: "\<forall>c \<in> set (cs_lastConns (snd y)). row_ok c"
    unfolding y_def using assms by (intro refine_rows_rows) (simp_all add: agent_ok_def)
  have y: "snd y = a\<lparr>cs_last := cs_last (snd y), cs_lastConns := cs_lastConns (snd y)\<rparr>"
    and "list_all2 refines_row (cs_lastConns a) (cs_lastConns (snd y))" and mir: "mirror_ok (env_toString env) (snd y)"
    using ref unfolding refined_to_def snd_conv by blast+
  then have len: "length (cs_lastConns (snd y)) = length (cs_lastConns a)"
    by (metis list_all2_lengthD)
  have "ag_worker (snd y) = ag_worker a" by (subst y) simp
  then have "agent_ok (env_toString env) (snd y)"
    using assms(1) rows len mir unfolding agent_ok_def by simp
  then show ?thesis
    by (simp add: cs_onDeepRefined_def case_prod_beta y_def)
qed

section \<open>Reachable states\<close>

text \<open>Every entry point of the agent, from a successful start. Addresses, clocks and the host may
  change between steps; address printing does not.\<close>

inductive agent_reachable :: "(QHostAddress \<Rightarrow> string) \<Rightarrow> 's Agent \<Rightarrow> bool" for toStr where
  started: "Application_start bus clk idleCfg attrMode resolver policy s = Inr (out, a) \<Longrightarrow> agent_reachable toStr a"
| snapshot: "agent_reachable toStr a \<Longrightarrow> env_toString env = toStr \<Longrightarrow>
    agent_reachable toStr (snd (cs_onConnectionsUpdated env clk conns a))"
| refined: "agent_reachable toStr a \<Longrightarrow> env_toString env = toStr \<Longrightarrow>
    agent_reachable toStr (snd (agent_deepTick env clk a))"
| read_connections: "agent_reachable toStr a \<Longrightarrow> agent_reachable toStr (snd (snd (cs_GetConnections clk a)))"
| read_interfaces: "agent_reachable toStr a \<Longrightarrow> agent_reachable toStr (snd (snd (is_GetInterfaces clk a)))"
| read_details: "agent_reachable toStr a \<Longrightarrow> agent_reachable toStr (snd (snd (cs_GetProcessDetails env clk caller pid a)))"
| want_interval: "agent_reachable toStr a \<Longrightarrow> agent_reachable toStr (snd (cs_SetDesiredIntervalMs clk caller ms a))"
| want_interval_if: "agent_reachable toStr a \<Longrightarrow> agent_reachable toStr (snd (is_SetDesiredIntervalMs clk caller ms a))"
| want_mode: "agent_reachable toStr a \<Longrightarrow>
    agent_reachable toStr (snd (snd (cs_SetDesiredAttributionEagerness clk caller mode a)))"
| stats: "agent_reachable toStr a \<Longrightarrow> agent_reachable toStr (snd (is_onStatsUpdated clk st a))"
| denied: "agent_reachable toStr a \<Longrightarrow> agent_reachable toStr (snd (cs_onPermissionDenied detail a))"
| no_accounting: "agent_reachable toStr a \<Longrightarrow> agent_reachable toStr (snd (cs_onAccountingUnavailable detail a))"
| idle_tick: "agent_reachable toStr a \<Longrightarrow> agent_reachable toStr (snd (agent_idleTick clk a))"
| hint_tick: "agent_reachable toStr a \<Longrightarrow> agent_reachable toStr (snd (agent_hintTick clk a))"
| idle_owner: "agent_reachable toStr a \<Longrightarrow> agent_reachable toStr (snd (agent_idleOwnerChanged clk name old new a))"
| hint_owner: "agent_reachable toStr a \<Longrightarrow> agent_reachable toStr (snd (agent_hintOwnerChanged clk name old new a))"

lemma started_ok:
  assumes "Application_start bus clk idleCfg attrMode resolver policy s = Inr (out, a)"
  shows "agent_ok toStr a"
proof -
  have svc: "agent_ok toStr (mk_services resolver policy s)"
    by (simp add: agent_ok_def mirror_ok_def mk_services_def toDtos_def index_ok_def)
  have w: "agent_ok toStr (wire_worker m b)" if "agent_ok toStr b" for m and b :: "'a Agent"
    using agent_ok_worker [OF that worker_setActive_ok [OF worker_setTuning_ok [OF mk_worker_ok]]] that
    by (simp add: wire_worker_def split: option.split)
  show ?thesis
    using assms by (auto simp: Application_start_def Let_def note_activity_ok w svc split: if_splits
        dest!: arg_cong [where f = snd])
qed

lemma deepTick_ok:
  assumes "agent_ok (env_toString env) a"
  shows "agent_ok (env_toString env) (snd (agent_deepTick env clk a))"
proof (cases "ag_worker a")
  case (Some w)
  obtain w' us s' where p: "worker_process (ag_resolver a) (env_startTimeForPid env) w (ag_world a) = (w', us, s')"
    by (metis prod_cases3)
  have "worker_ok w" using assms Some by (simp add: agent_ok_def)
  note wp = worker_process_ok [OF this p]
  then have "agent_ok (env_toString env) (a\<lparr>ag_worker := Some w', ag_world := s'\<rparr>)"
    using assms by (simp add: agent_ok_worker)
  from deep_refined_ok [OF this] show ?thesis
    using wp by (simp add: agent_deepTick_def Some p)
qed (use assms in \<open>simp add: agent_deepTick_def\<close>)

lemma agent_reachable_ok: "agent_reachable toStr a \<Longrightarrow> agent_ok toStr a"
proof (induction rule: agent_reachable.induct)
  case (started bus clk idleCfg attrMode resolver policy s out a)
  then show ?case by (rule started_ok)
next
  case (snapshot a env clk conns)
  then show ?case using connections_updated_ok by blast
next
  case (refined a env clk)
  then show ?case using deepTick_ok by blast
next
  case (read_details a env clk caller pid)
  then show ?case by (simp add: cs_GetProcessDetails_def Let_def case_prod_beta note_activity_ok)
next
  case (hint_tick a clk)
  then show ?case
    by (cases "ag_hints a") (simp_all add: agent_hintTick_def case_prod_beta announce_modes_ok)
next
  case (hint_owner a clk name old new)
  then show ?case
    by (cases "ag_hints a") (simp_all add: agent_hintOwnerChanged_def case_prod_beta announce_modes_ok)
next
  case (idle_tick a clk)
  then show ?case by (cases "ag_idle a") (simp_all add: agent_idleTick_def case_prod_beta)
next
  case (idle_owner a clk name old new)
  then show ?case by (cases "ag_idle a") (simp_all add: agent_idleOwnerChanged_def case_prod_beta)
qed (simp_all add: cs_GetConnections_def is_GetInterfaces_def cs_SetDesiredIntervalMs_def is_SetDesiredIntervalMs_def
    set_desired_interval_ok set_eagerness_ok is_onStatsUpdated_def cs_onPermissionDenied_def
    cs_onAccountingUnavailable_def Let_def case_prod_beta note_activity_ok)

section \<open>Properties\<close>

text \<open>C4: what the agent serves is always consistent: in every state it can reach, the list clients
  get is the image of the rows it keeps, at most 4096 of them; a row is marked resolved exactly when it
  has a process; every row is found under its key and the index never points elsewhere; and the deep worker
  holds, within its capacity, only requests for unattributed flows that end on this host.\<close>

theorem agent_state_consistent:
  assumes "agent_reachable toStr a"
  shows "cs_last a = toDtos toStr (cs_lastConns a) \<and> length (cs_last a) \<le> 4096 \<and>
    (\<forall>c \<in> set (cs_lastConns a). (c_reason c = Resolved \<longleftrightarrow> pi_valid (c_process c)) \<and>
      (\<exists>i. hfind (cs_keyIndex a) (keyOf c) = Some i)) \<and>
    (\<forall>k i. hfind (cs_keyIndex a) k = Some i \<longrightarrow> i < length (cs_lastConns a) \<and> keyOf (cs_lastConns a ! i) = k) \<and>
    (\<forall>w. ag_worker a = Some w \<longrightarrow> int (length (pending (dw_queue w))) \<le> max 0 (dq_cap (dw_queue w)) \<and>
      (\<forall>r \<in> set (pending (dw_queue w)). \<not> pi_valid (c_process (rq_flow r)) \<and> c_reason (rq_flow r) \<noteq> Forwarded))"
proof -
  note ok = agent_reachable_ok [OF assms]
  have "length (cs_last a) \<le> 4096"
    using ok by (simp add: agent_ok_def mirror_ok_def toDtos_def kMaxConnections_def)
  moreover have "int (length (pending (dw_queue w))) \<le> max 0 (dq_cap (dw_queue w)) \<and>
      (\<forall>r \<in> set (pending (dw_queue w)). \<not> pi_valid (c_process (rq_flow r)) \<and> c_reason (rq_flow r) \<noteq> Forwarded)"
    if "ag_worker a = Some w" for w
    using ok that unfolding agent_ok_def worker_ok_def dw_ok_def dq_ok_def weak_queue_def weak_request_def by simp
  ultimately show ?thesis
    using ok unfolding agent_ok_def mirror_ok_def index_ok_def row_ok_def by blast
qed

definition sample_env :: "unit HostEnv" where
  "sample_env = \<lparr>env_localAddresses = {HostV4 16909060}, env_loopbackAddresses = {},
     env_ephemeralPortRange = (32768, 60999), env_userNameForUid = (\<lambda>u. if u = 1000 then ''ines'' else []),
     env_userInGroup = (\<lambda>u g. False),
     env_readProcessDetails = (\<lambda>pid. \<lparr>det_pid = pid, det_uid = 1000, det_comm = ''curl'',
       det_exe = ''/usr/bin/curl'', det_cmdline = ''curl x'', det_cwd = ''/'', det_startTimeJiffies = 5,
       det_valid = True\<rparr>),
     env_startTimeForPid = (\<lambda>_ _. 0), env_toString = plain_addr,
     env_serviceUid = Some (\<lambda>s. if s = '':1.5'' then Some 1000 else if s = '':1.6'' then Some 1001 else None)\<rparr>"

definition sample_clocks :: Clocks where
  "sample_clocks = \<lparr>clk_conn = 0, clk_iface = 0, clk_idle = 0, clk_hints = 0\<rparr>"

definition open_bus :: BusReplies where
  "open_bus = \<lparr>bus_connected = True, bus_lastError = [], bus_registerObject = (\<lambda>_. True), bus_registerService = (\<lambda>_. True)\<rparr>"

definition sample_agent :: "unit Agent" where
  "sample_agent = snd (projr (Application_start open_bus sample_clocks default_IdleConfig Balanced
     (Some (sample_resolver\<lparr>rs_capabilities := \<lambda>_. [''process-attribution'']\<rparr>))
     \<lparr>pd_mode = Owner, pd_allowUsers = [], pd_allowGroups = []\<rparr> ()))"

lemma sample_agent_reachable: "agent_reachable plain_addr sample_agent"
proof (rule agent_reachable.started)
  show "Application_start open_bus sample_clocks default_IdleConfig Balanced
     (Some (sample_resolver\<lparr>rs_capabilities := \<lambda>_. [''process-attribution'']\<rparr>))
     \<lparr>pd_mode = Owner, pd_allowUsers = [], pd_allowGroups = []\<rparr> () =
    Inr (fst (projr (Application_start open_bus sample_clocks default_IdleConfig Balanced
     (Some (sample_resolver\<lparr>rs_capabilities := \<lambda>_. [''process-attribution'']\<rparr>))
     \<lparr>pd_mode = Owner, pd_allowUsers = [], pd_allowGroups = []\<rparr> ())), sample_agent)"
    by (simp add: Application_start_def open_bus_def sample_agent_def Let_def)
qed

theorem agent_state_consistent_witness:
  "length (cs_last (snd (cs_onConnectionsUpdated sample_env sample_clocks [sample_wire_flow] sample_agent))) \<le> 4096 \<and>
   length (cs_lastConns (snd (cs_onConnectionsUpdated sample_env sample_clocks [sample_wire_flow] sample_agent))) = 1"
proof -
  have "agent_reachable plain_addr (snd (cs_onConnectionsUpdated sample_env sample_clocks [sample_wire_flow] sample_agent))"
    by (rule agent_reachable.snapshot [OF sample_agent_reachable]) (simp add: sample_env_def)
  from agent_state_consistent [OF this] show ?thesis
    using cs_onConnectionsUpdated_sel(2) [OF surjective_pairing, of sample_env sample_clocks "[sample_wire_flow]" sample_agent]
    by (simp add: snapshot_rows_length kMaxConnections_def toDtos_def)
qed





text \<open>Staleness is judged by the flow key alone: the generation an update carries is never looked at.\<close>

lemma refinement_ignores_generation:
  "cs_onDeepRefined env clk (map (\<lambda>u. u\<lparr>up_generation := g\<rparr>) us) a = cs_onDeepRefined env clk us a"
proof -
  have sels: "up_process (u\<lparr>up_generation := g\<rparr>) = up_process u" "up_reason (u\<lparr>up_generation := g\<rparr>) = up_reason u"
    "up_key (u\<lparr>up_generation := g\<rparr>) = up_key u" "up_container (u\<lparr>up_generation := g\<rparr>) = up_container u" "up_chain (u\<lparr>up_generation := g\<rparr>) = up_chain u" for u
    by simp_all
  have patch: "patch_row (u\<lparr>up_generation := g\<rparr>) c = patch_row u c" for u c
    by (simp only: patch_row_def sels)
  have "refine_row env (u\<lparr>up_generation := g\<rparr>) = refine_row env u" for u
    by (rule ext) (simp only: refine_row_def patch sels)
  then show ?thesis
    by (simp add: cs_onDeepRefined_def fold_map o_def)
qed

text \<open>C32: privileged process details go only to those the policy allows: whatever the request, a reply
  that carries an executable path, a command line or a working directory answers the agent itself, or is given under
  the permissive policy, or answers a bus client whose verified uid is root's, the process owner's or,
  under the restricted policy, an allow-listed user's or group's; and a client allowed this way gets
  the fields as read.\<close>

theorem details_disclosed_by_policy:
  assumes "cs_GetProcessDetails env clk caller pid a = (dto, out, a')"
    and "policy = cs_detailsPolicy a" and "d = env_readProcessDetails env (uint pid)"
    and "allowed \<longleftrightarrow> pd_mode policy = Permissive \<or> caller = InProcess \<or>
      (\<exists>sender uidOf uid. caller = DBusCall sender \<and> env_serviceUid env = Some uidOf \<and> uidOf sender = Some uid \<and>
        (uid = 0 \<or> uid = det_uid d \<or>
         pd_mode policy = Restricted \<and>
         (env_userNameForUid env uid \<noteq> [] \<and> (\<exists>u \<in> set (pd_allowUsers policy). eqCI u (env_userNameForUid env uid)) \<or>
          (\<exists>g \<in> set (pd_allowGroups policy). env_userInGroup env uid g))))"
  shows "(\<not> allowed \<longrightarrow> pdd_exe dto = [] \<and> pdd_cmdline dto = [] \<and> pdd_cwd dto = []) \<and>
    (pid \<noteq> 0 \<and> uint pid \<le> qint32_max \<and> det_valid d \<longrightarrow>
      pdd_uid dto = det_uid d \<and> pdd_comm dto = det_comm d \<and>
      (allowed \<longrightarrow> pdd_exe dto = det_exe d \<and> pdd_cmdline dto = det_cmdline d \<and> pdd_cwd dto = det_cwd d)) \<and>
    (pid = 0 \<or> qint32_max < uint pid \<or> \<not> det_valid d \<longrightarrow> dto = default_ProcessDetailsDto)"
proof -
  have "cs_detailsPolicy (snd (note_activity clk a)) = policy"
    by (simp add: note_activity_def assms(2) split: option.split prod.split)
  moreover have "cs_callerMaySeeProcessFields env caller policy (det_uid d) = allowed"
    unfolding cs_callerMaySeeProcessFields_def assms(4)
    by (cases caller) (auto simp: Let_def list_ex_iff split: option.split)
  moreover have "dto = fst (cs_GetProcessDetails env clk caller pid a)"
    by (simp add: assms(1))
  ultimately have "dto = (if pid = 0 \<or> qint32_max < uint pid \<or> \<not> det_valid d then default_ProcessDetailsDto
     else (let r = default_ProcessDetailsDto\<lparr>pdd_pid := word_of_int (det_pid d), pdd_uid := det_uid d,
             pdd_comm := det_comm d, pdd_startTimeJiffies := det_startTimeJiffies d\<rparr>
           in if allowed then r\<lparr>pdd_exe := det_exe d, pdd_cmdline := det_cmdline d, pdd_cwd := det_cwd d\<rparr> else r))"
    by (simp add: cs_GetProcessDetails_def Let_def case_prod_beta assms(3))
  then show ?thesis
    by (simp add: default_ProcessDetailsDto_def Let_def)
qed

theorem details_disclosed_by_policy_witness:
  "pdd_exe (fst (cs_GetProcessDetails sample_env sample_clocks (DBusCall '':1.5'') 7 sample_agent)) = ''/usr/bin/curl'' \<and>
   pdd_exe (fst (cs_GetProcessDetails sample_env sample_clocks (DBusCall '':1.6'') 7 sample_agent)) = []"
proof -
  have "pd_mode (cs_detailsPolicy sample_agent) = Owner"
    by (simp add: sample_agent_def Application_start_def open_bus_def Let_def note_activity_def wire_worker_def
        mk_services_def split: option.split prod.split)
  moreover obtain dto o1 a1 where one: "cs_GetProcessDetails sample_env sample_clocks (DBusCall '':1.5'') 7 sample_agent = (dto, o1, a1)"
    by (metis prod_cases3)
  moreover obtain dto' o2 a2 where two: "cs_GetProcessDetails sample_env sample_clocks (DBusCall '':1.6'') 7 sample_agent = (dto', o2, a2)"
    by (metis prod_cases3)
  ultimately show ?thesis
    using details_disclosed_by_policy [OF one refl refl refl] details_disclosed_by_policy [OF two refl refl refl]
    by (simp add: qint32_max_def) (simp add: sample_env_def)
qed

text \<open>A refused client cannot keep the agent awake: when both hint tables are full, calls from a
  sender that holds no hint, and calls with a mode nobody understands, change nothing at all,
  not even the activity clock, and send nothing.\<close>

theorem refused_hints_leave_no_trace:
  assumes "ag_idle a = Some i" and "ag_hints a = Some h"
    and "hfind (im_hints i) sender = None" and "64 \<le> hsize (im_hints i)"
    and "hfind (ah_hints h) sender = None" and "64 \<le> hsize (ah_hints h)"
    and "0 < sint ms" and "trimmed mode \<noteq> []" and "\<not> eqCI (trimmed mode) ''default''"
  shows "cs_SetDesiredIntervalMs clk (DBusCall sender) ms a = ([], a) \<and>
    is_SetDesiredIntervalMs clk (DBusCall sender) ms a = ([], a) \<and>
    cs_SetDesiredAttributionEagerness clk (DBusCall sender) mode a = (cs_attributionEagerness clk a, [], a)"
proof -
  have "fst (im_setClientHint (clk_idle clk) sender (sint ms) i) = False \<and>
      snd (im_setClientHint (clk_idle clk) sender (sint ms) i) = ([], i)"
    using assms by (simp add: im_setClientHint_def kMaxHints_def)
  then have idle: "im_setClientHint (clk_idle clk) sender (sint ms) i = (False, [], i)"
    by (metis surjective_pairing)
  have hint: "ah_setHint (clk_hints clk) sender m h = (False, [], h)" for m
    using assms by (simp add: ah_setHint_def kMaxHints_def)
  have same: "a\<lparr>ag_idle := Some i\<rparr> = a" "a\<lparr>ag_hints := Some h\<rparr> = a"
    using assms(1,2) by simp_all
  show ?thesis
    using assms idle hint same
    by (cases "eagernessFromString (trimmed mode)")
      (simp_all add: cs_SetDesiredIntervalMs_def is_SetDesiredIntervalMs_def set_desired_interval_def
        cs_SetDesiredAttributionEagerness_def cs_attributionEagerness_def)
qed

definition full_agent :: "unit Agent" where
  "full_agent = sample_agent\<lparr>
     ag_idle := Some \<lparr>im_cfg = default_IdleConfig, im_since = 0, im_currentMs = 1000,
       im_hints = map (\<lambda>n. (replicate n CHR ''a'', \<lparr>ch_ms = 500, ch_expiresAtMs = 10000\<rparr>)) [0..<64]\<rparr>,
     ag_hints := Some \<lparr>ah_configMode = Balanced, ah_hintTtlMs = 10000, ah_lastEmitted = Balanced,
       ah_hints = map (\<lambda>n. (replicate n CHR ''a'', \<lparr>mh_mode = Eager, mh_expiresAtMs = 10000\<rparr>)) [0..<64]\<rparr>\<rparr>"

theorem refused_hints_leave_no_trace_witness:
  "cs_SetDesiredIntervalMs sample_clocks (DBusCall ''x'') 100 full_agent = ([], full_agent)"
proof -
  have "(replicate n CHR ''a'' = ''x'') = False" for n :: nat
    by (cases n) simp_all
  then have none: "hfind (map (\<lambda>n. (replicate n CHR ''a'', v)) ns) ''x'' = None" for v :: "'v" and ns
    by (induction ns) (simp_all add: eq_commute [of "''x''"])
  have blank: "trimmed ''eager'' = ''eager''" "\<not> eqCI ''eager'' ''default''"
    by (simp_all add: trimmed_def isSpace_def eqCI_def toLower_def)
  obtain i h where ih: "ag_idle full_agent = Some i" "ag_hints full_agent = Some h"
    "im_hints i = map (\<lambda>n. (replicate n CHR ''a'', \<lparr>ch_ms = 500, ch_expiresAtMs = 10000\<rparr>)) [0..<64]"
    "ah_hints h = map (\<lambda>n. (replicate n CHR ''a'', \<lparr>mh_mode = Eager, mh_expiresAtMs = 10000\<rparr>)) [0..<64]"
    by (simp add: full_agent_def)
  have "hfind (im_hints i) ''x'' = None" "hfind (ah_hints h) ''x'' = None"
    "64 \<le> hsize (im_hints i)" "64 \<le> hsize (ah_hints h)" "0 < sint (100 :: quint32)"
    unfolding ih(3,4) by (simp_all add: none del: upt_rec_numeral)
  then show ?thesis
    using refused_hints_leave_no_trace [OF ih(1,2), where mode = "''eager''" and sender = "''x''" and ms = 100] blank
    by simp
qed

text \<open>Switching attribution off at run time silences refinement: from the moment the effective
  mode becomes off, no sequence of snapshots and worker ticks sends a refinement or queues a request, until
  another mode is announced.\<close>

definition quiesced :: "'s Agent \<Rightarrow> bool" where
  "quiesced a = (\<forall>w. ag_worker a = Some w \<longrightarrow> \<not> dw_active w \<and> dq_byKey (dw_queue w) = [])"

datatype 's agent_event = Snapshot "'s HostEnv" Clocks "Connection list" | DeepTick "'s HostEnv" Clocks

fun handle :: "'s agent_event \<Rightarrow> 's Agent \<Rightarrow> agent_signal list \<times> 's Agent" where
  "handle (Snapshot env clk conns) a = cs_onConnectionsUpdated env clk conns a"
| "handle (DeepTick env clk) a = agent_deepTick env clk a"

primrec run_events :: "'s agent_event list \<Rightarrow> 's Agent \<Rightarrow> agent_signal list \<times> 's Agent" where
  "run_events [] a = ([], a)"
| "run_events (e # es) a = (let (out, a) = handle e a; (more, a) = run_events es a in (out @ more, a))"

lemma quiesced_off: "quiesced (snd (cs_onEffectiveEagernessChanged Off a))"
  by (cases "ag_resolver a"; cases "ag_worker a")
    (simp_all add: cs_onEffectiveEagernessChanged_def quiesced_def worker_setActive_def worker_clear_def queue_clear_def Let_def)

lemma quiesced_handle:
  assumes "quiesced a" and "handle e a = (out, a')"
  shows "quiesced a' \<and> (\<forall>t ds. AttributionChanged t ds \<notin> set out)"
proof (cases e)
  case (Snapshot env clk conns)
  note sel = cs_onConnectionsUpdated_sel [of env clk conns a out a']
  show ?thesis
    using assms sel by (cases "ag_worker a") (auto simp: Snapshot quiesced_def worker_enqueue_def)
next
  case (DeepTick env clk)
  show ?thesis
  proof (cases "ag_worker a")
    case (Some w)
    then have "\<not> dw_active w" using assms(1) by (simp add: quiesced_def)
    then have "worker_process (ag_resolver a) (env_startTimeForPid env) w (ag_world a) = (worker_clear w, [], ag_world a)"
      by (simp add: worker_process_def split: option.split)
    then show ?thesis
      using assms by (auto simp: DeepTick Some agent_deepTick_def cs_onDeepRefined_def quiesced_def worker_clear_def queue_clear_def)
  qed (use assms in \<open>auto simp: DeepTick agent_deepTick_def quiesced_def\<close>)
qed

theorem runtime_off_silences_refinement:
  assumes "run_events es (snd (cs_onEffectiveEagernessChanged Off a)) = (out, a')"
  shows "(\<forall>t ds. AttributionChanged t ds \<notin> set out) \<and>
    (\<forall>w. ag_worker a' = Some w \<longrightarrow> pending (dw_queue w) = [])"
proof -
  have "quiesced b' \<and> (\<forall>t ds. AttributionChanged t ds \<notin> set o')" if "quiesced b" "run_events es b = (o', b')" for b o' b'
    using that
  proof (induction es arbitrary: b o' b')
    case (Cons e es)
    obtain o1 b1 where one: "handle e b = (o1, b1)" by fastforce
    obtain o2 b2 where two: "run_events es b1 = (o2, b2)" by fastforce
    show ?case
      using quiesced_handle [OF Cons.prems(1) one] Cons.IH [OF _ two] Cons.prems(2) by (auto simp: one two)
  qed simp
  from this [OF quiesced_off assms] show ?thesis
    by (auto simp: quiesced_def)
qed

theorem runtime_off_silences_refinement_witness:
  "AttributionChanged 0 [] \<notin> set (fst (run_events
     [Snapshot sample_env sample_clocks [sample_wire_flow], DeepTick sample_env sample_clocks]
     (snd (cs_onEffectiveEagernessChanged Off sample_agent))))"
  using runtime_off_silences_refinement [OF surjective_pairing] by blast

section \<open>Observations\<close>

text \<open>A runtime mode change re-tunes the resolver from the presets only, so the refresh intervals an
  administrator configured are lost as soon as any client has hinted, also when the mode comes back.\<close>

lemma retune_ignores_overrides:
  "ag_resolver a = Some r \<Longrightarrow>
   ag_world (snd (cs_onEffectiveEagernessChanged mode a)) = rs_setTuning r (resolverTuningFor mode 0 0) (ag_world a)"
  by (cases "ag_worker a") (simp_all add: cs_onEffectiveEagernessChanged_def Let_def)

lemma configured_tuning_differs: "resolverTuningFor Balanced 30000 0 \<noteq> resolverTuningFor Balanced 0 0"
  by (simp add: tuning_defs)

text \<open>A start that fails at the bus name leaves both service objects registered.\<close>

lemma failed_start_leaves_objects:
  "Application_start (open_bus\<lparr>bus_registerService := \<lambda>_. False\<rparr>) clk cfg m r p s =
     Inl (''registerService(org.qiftop.NetworkAgent1) failed: '', [kIfacesPath, kConnsPath])"
  by (simp add: Application_start_def open_bus_def kBusName_def)

end
