(* ===== verification/Aggregator.thy ===== *)
theory Aggregator
  imports Heuristics
begin

text \<open>
  \<open>aggregate/ConnectionAggregator.cpp\<close>: the flow table every front end shows. Each snapshot is
  completed with directions, UDP flows are folded into one row per peer, rates are computed from
  byte deltas and smoothed, rows that vanish are kept as stale for a while, and every change is announced
  by the granular signals a Qt model adapter turns into its begin/end calls.

  Time is the reading of the elapsed timer. The address printer \<open>toStr\<close> is an argument; calls on the
  DNS resolver are outputs and its cache is the argument \<open>dns\<close>.
\<close>

section \<open>State\<close>

datatype ThroughputMaxMode = Windowed | CumulativeAverage

datatype FlowEnd = FlowSource | FlowDestination

record RateSample =
  sm_timeMs :: int
  sm_rate :: real

record ConnRow =
  cr_current :: Connection
  cr_rxRate :: real
  cr_txRate :: real
  cr_rxRaw :: real
  cr_txRaw :: real
  cr_rxTarget :: real
  cr_txTarget :: real
  cr_rxAnimFrom :: real
  cr_txAnimFrom :: real
  cr_rxAnimStartMs :: int
  cr_txAnimStartMs :: int
  cr_rxAnimDurMs :: int
  cr_txAnimDurMs :: int
  cr_lastSeenMs :: int
  cr_stale :: bool
  cr_rxSamples :: "RateSample list"
  cr_txSamples :: "RateSample list"
  cr_rxSum :: real
  cr_txSum :: real
  cr_samples :: quint64

definition new_row :: "Connection \<Rightarrow> int \<Rightarrow> ConnRow" where
  "new_row c nowMs = \<lparr>cr_current = c, cr_rxRate = 0, cr_txRate = 0, cr_rxRaw = 0, cr_txRaw = 0,
     cr_rxTarget = 0, cr_txTarget = 0, cr_rxAnimFrom = 0, cr_txAnimFrom = 0, cr_rxAnimStartMs = 0,
     cr_txAnimStartMs = 0, cr_rxAnimDurMs = 0, cr_txAnimDurMs = 0, cr_lastSeenMs = nowMs,
     cr_stale = False, cr_rxSamples = [], cr_txSamples = [], cr_rxSum = 0, cr_txSum = 0, cr_samples = 0\<rparr>"

record UdpAggMember =
  um_rxBytes :: quint64
  um_txBytes :: quint64
  um_rxPackets :: quint64
  um_txPackets :: quint64
  um_lastSeenMs :: int

definition no_member :: UdpAggMember where
  "no_member = \<lparr>um_rxBytes = 0, um_txBytes = 0, um_rxPackets = 0, um_txPackets = 0, um_lastSeenMs = 0\<rparr>"

record UdpAggState =
  ua_rxBase :: quint64
  ua_txBase :: quint64
  ua_rxPktBase :: quint64
  ua_txPktBase :: quint64
  ua_members :: "(string, UdpAggMember) qhash"
  ua_lastSeenMs :: int

definition no_aggregate :: UdpAggState where
  "no_aggregate = \<lparr>ua_rxBase = 0, ua_txBase = 0, ua_rxPktBase = 0, ua_txPktBase = 0, ua_members = [], ua_lastSeenMs = 0\<rparr>"

record ConnectionAggregator =
  ca_rows :: "ConnRow list"
  ca_keyToIdx :: "(string, nat) qhash"
  ca_prev :: "(string, Connection) qhash"
  ca_lastElapsedMs :: int
  ca_udpAgg :: "(string, UdpAggState) qhash"
  ca_hasResolver :: bool
  ca_resolveEnabled :: bool
  ca_staleRetentionMs :: int
  ca_staleRetentionMsUdp :: int
  ca_udpAggregateByPeer :: bool
  ca_aliasIfaceAddrsAsLocalhost :: bool
  ca_maxMode :: ThroughputMaxMode
  ca_windowMs :: int
  ca_rateSmoothingMs :: int
  ca_pollIntervalMs :: int
  ca_ephemeralLow :: quint16
  ca_ephemeralHigh :: quint16
  ca_loopbackAddrs :: "QHostAddress set"
  ca_localAddrs :: "QHostAddress set"

text \<open>\<open>127.0.0.1\<close> and \<open>::1\<close>.\<close>

definition LocalHost :: QHostAddress where "LocalHost = HostV4 0x7F000001"
definition LocalHostIPv6 :: QHostAddress where "LocalHostIPv6 = HostV6 1"

definition mk_ConnectionAggregator :: "quint16 \<times> quint16 \<Rightarrow> ConnectionAggregator" where
  "mk_ConnectionAggregator ports = \<lparr>ca_rows = [], ca_keyToIdx = [], ca_prev = [], ca_lastElapsedMs = 0,
     ca_udpAgg = [], ca_hasResolver = False, ca_resolveEnabled = False, ca_staleRetentionMs = 15000,
     ca_staleRetentionMsUdp = 60000, ca_udpAggregateByPeer = True, ca_aliasIfaceAddrsAsLocalhost = True,
     ca_maxMode = Windowed, ca_windowMs = 30000, ca_rateSmoothingMs = 0, ca_pollIntervalMs = 1000,
     ca_ephemeralLow = fst ports, ca_ephemeralHigh = snd ports,
     ca_loopbackAddrs = {LocalHost, LocalHostIPv6}, ca_localAddrs = {}\<rparr>"

datatype agg_signal = RowsAboutToBeInserted nat nat | RowsInserted
  | RowsAboutToBeRemoved nat nat | RowsRemoved | RowsUpdated nat nat | ViewDataChanged
  | ResolveRequest QHostAddress

section \<open>Coalesced update signals: \<open>RowUpdateRuns\<close>\<close>

type_synonym RowUpdateRuns = "(nat \<times> nat) option"

definition runs_add :: "nat \<Rightarrow> RowUpdateRuns \<Rightarrow> agg_signal list \<times> RowUpdateRuns" where
  "runs_add row runs =
     (case runs of
        None \<Rightarrow> ([], Some (row, row))
      | Some (lo, hi) \<Rightarrow>
          if row = hi + 1 then ([], Some (lo, row))
          else ([RowsUpdated lo hi], Some (row, row)))"

definition runs_flush :: "RowUpdateRuns \<Rightarrow> agg_signal list" where
  "runs_flush runs = (case runs of None \<Rightarrow> [] | Some (lo, hi) \<Rightarrow> [RowsUpdated lo hi])"

section \<open>Settings\<close>

definition requestResolution :: "ConnectionAggregator \<Rightarrow> QHostAddress \<Rightarrow> agg_signal list" where
  "requestResolution a addr =
     (if ca_resolveEnabled a \<and> ca_hasResolver a \<and> addr \<noteq> HostNull then [ResolveRequest addr] else [])"

definition repaint_if :: "bool \<Rightarrow> ConnectionAggregator \<Rightarrow> agg_signal list" where
  "repaint_if b a = (if ca_rows a \<noteq> [] \<and> b then [ViewDataChanged] else [])"

text \<open>Whether a resolver is set; its signal connection is the wiring of \<open>onResolved\<close>.\<close>

definition ca_setDnsResolver :: "bool \<Rightarrow> ConnectionAggregator \<Rightarrow> ConnectionAggregator" where
  "ca_setDnsResolver resolver a = a\<lparr>ca_hasResolver := resolver\<rparr>"

definition ca_setHostnameResolutionEnabled :: "bool \<Rightarrow> ConnectionAggregator \<Rightarrow> agg_signal list \<times> ConnectionAggregator" where
  "ca_setHostnameResolutionEnabled enabled a =
     (if ca_resolveEnabled a = enabled then ([], a)
      else
        (let a = a\<lparr>ca_resolveEnabled := enabled\<rparr>;
             asks = (if enabled \<and> ca_hasResolver a
                     then concat (map (\<lambda>r. requestResolution a (ep_address (c_local (cr_current r))) @
                                           requestResolution a (ep_address (c_remote (cr_current r)))) (ca_rows a))
                     else [])
         in (repaint_if True a @ asks, a)))"

definition ca_setLocalAddresses :: "QHostAddress set \<Rightarrow> ConnectionAggregator \<Rightarrow> agg_signal list \<times> ConnectionAggregator" where
  "ca_setLocalAddresses addrs a =
     (let addrs = addrs - {LocalHost, LocalHostIPv6} in
      if addrs = ca_localAddrs a then ([], a)
      else
        (let a = a\<lparr>ca_localAddrs := addrs\<rparr>
         in (repaint_if (ca_resolveEnabled a \<and> ca_aliasIfaceAddrsAsLocalhost a) a, a)))"

definition ca_setStaleRetentionMs :: "int \<Rightarrow> ConnectionAggregator \<Rightarrow> ConnectionAggregator" where
  "ca_setStaleRetentionMs ms a = a\<lparr>ca_staleRetentionMs := if ms < 0 then 0 else ms\<rparr>"

definition ca_setStaleRetentionMsUdp :: "int \<Rightarrow> ConnectionAggregator \<Rightarrow> ConnectionAggregator" where
  "ca_setStaleRetentionMsUdp ms a = a\<lparr>ca_staleRetentionMsUdp := if ms < 0 then 0 else ms\<rparr>"

definition ca_setUdpAggregateByPeer :: "bool \<Rightarrow> ConnectionAggregator \<Rightarrow> ConnectionAggregator" where
  "ca_setUdpAggregateByPeer v a =
     (let a = (if v \<noteq> ca_udpAggregateByPeer a then a\<lparr>ca_udpAgg := []\<rparr> else a) in a\<lparr>ca_udpAggregateByPeer := v\<rparr>)"

definition ca_setResolveIfaceAddrsAsLocalhost :: "bool \<Rightarrow> ConnectionAggregator \<Rightarrow> agg_signal list \<times> ConnectionAggregator" where
  "ca_setResolveIfaceAddrsAsLocalhost v a =
     (if v = ca_aliasIfaceAddrsAsLocalhost a then ([], a)
      else (let a = a\<lparr>ca_aliasIfaceAddrsAsLocalhost := v\<rparr> in (repaint_if (ca_resolveEnabled a) a, a)))"

definition ca_setThroughputMaxMode :: "ThroughputMaxMode \<Rightarrow> ConnectionAggregator \<Rightarrow> agg_signal list \<times> ConnectionAggregator" where
  "ca_setThroughputMaxMode m a =
     (if m = ca_maxMode a then ([], a)
      else (let a = a\<lparr>ca_maxMode := m\<rparr> in (repaint_if True a, a)))"

text \<open>Dropping samples older than the cutoff from the front.\<close>

definition trim_samples :: "int \<Rightarrow> RateSample list \<Rightarrow> RateSample list" where
  "trim_samples cutoff ss = dropWhile (\<lambda>s. sm_timeMs s < cutoff) ss"

definition trim_row :: "int \<Rightarrow> ConnRow \<Rightarrow> ConnRow" where
  "trim_row cutoff r = r\<lparr>cr_rxSamples := trim_samples cutoff (cr_rxSamples r),
     cr_txSamples := trim_samples cutoff (cr_txSamples r)\<rparr>"

definition ca_setThroughputWindowMs :: "int \<Rightarrow> ConnectionAggregator \<Rightarrow> agg_signal list \<times> ConnectionAggregator" where
  "ca_setThroughputWindowMs ms a =
     (let ms = (if ms < 1000 then 1000 else ms) in
      if ms = ca_windowMs a then ([], a)
      else
        (let a = a\<lparr>ca_windowMs := ms\<rparr> in
         if ca_rows a \<noteq> [] \<and> ca_maxMode a = Windowed
         then ([ViewDataChanged], a\<lparr>ca_rows := map (trim_row (ca_lastElapsedMs a - ca_windowMs a)) (ca_rows a)\<rparr>)
         else ([], a)))"

definition ca_setRateSmoothingMs :: "int \<Rightarrow> ConnectionAggregator \<Rightarrow> ConnectionAggregator" where
  "ca_setRateSmoothingMs ms a = a\<lparr>ca_rateSmoothingMs := if ms < 0 then 0 else ms\<rparr>"

definition ca_setPollIntervalMs :: "int \<Rightarrow> ConnectionAggregator \<Rightarrow> ConnectionAggregator" where
  "ca_setPollIntervalMs ms a = a\<lparr>ca_pollIntervalMs := if ms < 0 then 0 else ms\<rparr>"

section \<open>Derived texts and references\<close>

definition max_rate :: "RateSample list \<Rightarrow> real" where
  "max_rate ss = foldl (\<lambda>m s. max (sm_rate s) m) 0 ss"

definition ca_rxReference :: "ConnectionAggregator \<Rightarrow> ConnRow \<Rightarrow> real" where
  "ca_rxReference a r =
     (if ca_maxMode a = CumulativeAverage
      then (if 0 < cr_samples r then cr_rxSum r / real (unat (cr_samples r)) else 0)
      else max_rate (cr_rxSamples r))"

definition ca_txReference :: "ConnectionAggregator \<Rightarrow> ConnRow \<Rightarrow> real" where
  "ca_txReference a r =
     (if ca_maxMode a = CumulativeAverage
      then (if 0 < cr_samples r then cr_txSum r / real (unat (cr_samples r)) else 0)
      else max_rate (cr_txSamples r))"

definition ca_isForwardedFlow :: "ConnectionAggregator \<Rightarrow> Connection \<Rightarrow> bool" where
  "ca_isForwardedFlow a c = isForwardedFlow c (ca_localAddrs a) (ca_loopbackAddrs a)"

definition ca_displayHost ::
  "(QHostAddress \<Rightarrow> string) \<Rightarrow> (QHostAddress \<Rightarrow> string) \<Rightarrow> ConnectionAggregator \<Rightarrow> QHostAddress \<Rightarrow> string" where
  "ca_displayHost toStr dns a addr =
     (if ca_resolveEnabled a
      then (if addr \<in> ca_loopbackAddrs a then ''localhost''
            else if ca_aliasIfaceAddrsAsLocalhost a \<and> addr \<in> ca_localAddrs a then ''localhost''
            else if ca_hasResolver a \<and> dns addr \<noteq> [] then dns addr
            else toStr addr)
      else toStr addr)"

definition ca_cachedHostname :: "(QHostAddress \<Rightarrow> string) \<Rightarrow> ConnectionAggregator \<Rightarrow> QHostAddress \<Rightarrow> string" where
  "ca_cachedHostname dns a addr = (if ca_resolveEnabled a \<and> ca_hasResolver a then dns addr else [])"

definition ca_protoLabel :: "ConnectionAggregator \<Rightarrow> Connection \<Rightarrow> string" where
  "ca_protoLabel a c =
     (let base = l4ProtoToString (c_proto c) in
      if ca_resolveEnabled a \<and> (c_proto c = Tcp \<or> c_proto c = Udp)
      then base @ (if isIPv6 (c_local c) \<or> isIPv6 (c_remote c) then ''v6'' else ''v4'')
      else base)"

definition port_text :: "quint16 \<Rightarrow> string" where
  "port_text p = (if p = 0 then ''*'' else show_nat (unat p))"

text \<open>An IPv6 address is bracketed when it is shown as a number.\<close>

definition host_port :: "(QHostAddress \<Rightarrow> string) \<Rightarrow> Endpoint \<Rightarrow> string \<Rightarrow> string" where
  "host_port toStr ep host =
     (if isIPv6 ep \<and> host = toStr (ep_address ep)
      then ''['' @ host @ '']:'' @ port_text (ep_port ep) else host @ '':'' @ port_text (ep_port ep))"

definition ca_endpointText ::
  "(QHostAddress \<Rightarrow> string) \<Rightarrow> (QHostAddress \<Rightarrow> string) \<Rightarrow> ConnectionAggregator \<Rightarrow> Endpoint \<Rightarrow> string" where
  "ca_endpointText toStr dns a ep = host_port toStr ep (ca_displayHost toStr dns a (ep_address ep))"

definition ca_endpointCopyText ::
  "(QHostAddress \<Rightarrow> string) \<Rightarrow> (QHostAddress \<Rightarrow> string) \<Rightarrow> ConnectionAggregator \<Rightarrow> Endpoint \<Rightarrow> string" where
  "ca_endpointCopyText toStr dns a ep =
     host_port toStr ep (if ca_resolveEnabled a \<and> ep_address ep \<in> ca_localAddrs a then toStr (ep_address ep)
                         else ca_displayHost toStr dns a (ep_address ep))"

definition ca_copyTextForEndpoint ::
  "(QHostAddress \<Rightarrow> string) \<Rightarrow> (QHostAddress \<Rightarrow> string) \<Rightarrow> ConnectionAggregator \<Rightarrow> int \<Rightarrow> FlowEnd \<Rightarrow> string" where
  "ca_copyTextForEndpoint toStr dns a row which =
     (if row < 0 \<or> int (length (ca_rows a)) \<le> row then []
      else
        (let c = cr_current (ca_rows a ! nat row);
             srcIsLocal = (c_direction c \<noteq> Inbound);
             ep = (if which = FlowSource then (if srcIsLocal then c_local c else c_remote c)
                   else (if srcIsLocal then c_remote c else c_local c))
         in ca_endpointCopyText toStr dns a ep))"

text \<open>The arrow of the text is the single character \<open>U+2192\<close>, outside Latin-1; \<open>arrow\<close> stands for it.\<close>

definition ca_copyTextForFlow ::
  "string \<Rightarrow> (QHostAddress \<Rightarrow> string) \<Rightarrow> (QHostAddress \<Rightarrow> string) \<Rightarrow> ConnectionAggregator \<Rightarrow> int \<Rightarrow> string" where
  "ca_copyTextForFlow arrow toStr dns a row =
     (if row < 0 \<or> int (length (ca_rows a)) \<le> row then []
      else
        (let c = cr_current (ca_rows a ! nat row);
             iface = (if c_iface c = [] then [] else '' ['' @ c_iface c @ '']'')
         in ca_protoLabel a c @ ''  '' @ ca_copyTextForEndpoint toStr dns a row FlowSource @ '' '' @ arrow @ '' '' @
            ca_copyTextForEndpoint toStr dns a row FlowDestination @ iface))"

definition ca_peerAddressText :: "(QHostAddress \<Rightarrow> string) \<Rightarrow> ConnectionAggregator \<Rightarrow> int \<Rightarrow> string" where
  "ca_peerAddressText toStr a row =
     (if row < 0 \<or> int (length (ca_rows a)) \<le> row then []
      else
        (let c = cr_current (ca_rows a ! nat row);
             peer = (if c_direction c = Inbound then c_local c else c_remote c)
         in if ep_address peer = HostNull then [] else toStr (ep_address peer)))"

section \<open>A snapshot arrives: \<open>updateConnections\<close>\<close>

definition infer_directions :: "ConnectionAggregator \<Rightarrow> Connection list \<Rightarrow> Connection list" where
  "infer_directions a cs = map (\<lambda>c. if c_direction c \<noteq> DirUnknown then c
     else c\<lparr>c_direction := inferDirection c (ca_localAddrs a) (ca_loopbackAddrs a) (ca_ephemeralLow a) (ca_ephemeralHigh a)\<rparr>) cs"

subsection \<open>UDP aggregation by peer\<close>

text \<open>The row a UDP flow is folded into: the same flow with its ephemeral port blanked.\<close>

definition udp_row :: "Connection \<Rightarrow> Connection" where
  "udp_row c = (if c_direction c = Outbound then c\<lparr>c_local := (c_local c)\<lparr>ep_port := 0\<rparr>\<rparr>
                else c\<lparr>c_remote := (c_remote c)\<lparr>ep_port := 0\<rparr>\<rparr>)"

text \<open>One observation of a member flow. A counter that went down means the flow was replaced: what was
  counted so far moves into the base.\<close>

definition udp_observe :: "string \<Rightarrow> Connection \<Rightarrow> int \<Rightarrow> UdpAggState \<Rightarrow> UdpAggState" where
  "udp_observe memberKey c nowMs st =
     (let st = st\<lparr>ua_lastSeenMs := nowMs\<rparr>;
          mem = (case hfind (ua_members st) memberKey of Some m \<Rightarrow> m | None \<Rightarrow> no_member);
          st = (if c_rxBytes c < um_rxBytes mem \<or> c_txBytes c < um_txBytes mem
                then st\<lparr>ua_rxBase := ua_rxBase st + um_rxBytes mem, ua_txBase := ua_txBase st + um_txBytes mem,
                        ua_rxPktBase := ua_rxPktBase st + um_rxPackets mem,
                        ua_txPktBase := ua_txPktBase st + um_txPackets mem\<rparr>
                else st)
      in st\<lparr>ua_members := hinsert memberKey \<lparr>um_rxBytes = c_rxBytes c, um_txBytes = c_txBytes c,
              um_rxPackets = c_rxPackets c, um_txPackets = c_txPackets c, um_lastSeenMs = nowMs\<rparr> (ua_members st)\<rparr>)"

record UdpPass =
  up_agg :: "(string, Connection) qhash"
  up_passthrough :: "Connection list"
  up_udpAgg :: "(string, UdpAggState) qhash"

definition udp_fold :: "(QHostAddress \<Rightarrow> string) \<Rightarrow> int \<Rightarrow> Connection \<Rightarrow> UdpPass \<Rightarrow> UdpPass" where
  "udp_fold toStr nowMs c x =
     (if c_proto c \<noteq> Udp \<or> c_direction c = DirUnknown
      then x\<lparr>up_passthrough := up_passthrough x @ [c]\<rparr>
      else
        (let k = udp_row c; aggKey = conn_key toStr k; memberKey = conn_key toStr c;
             st = (case hfind (up_udpAgg x) aggKey of Some st \<Rightarrow> st | None \<Rightarrow> no_aggregate);
             x = x\<lparr>up_udpAgg := hinsert aggKey (udp_observe memberKey c nowMs st) (up_udpAgg x)\<rparr>
         in if hcontains (up_agg x) aggKey then x else x\<lparr>up_agg := hinsert aggKey k (up_agg x)\<rparr>))"

text \<open>Members not seen for the retention time retire into the base; an aggregate not seen goes entirely.\<close>

definition udp_retire :: "UdpAggMember \<Rightarrow> UdpAggState \<Rightarrow> UdpAggState" where
  "udp_retire m st = st\<lparr>ua_rxBase := ua_rxBase st + um_rxBytes m, ua_txBase := ua_txBase st + um_txBytes m,
     ua_rxPktBase := ua_rxPktBase st + um_rxPackets m, ua_txPktBase := ua_txPktBase st + um_txPackets m\<rparr>"

definition udp_expire_members :: "int \<Rightarrow> int \<Rightarrow> UdpAggState \<Rightarrow> UdpAggState" where
  "udp_expire_members nowMs retention st =
     (let old = filter (\<lambda>(_, m). retention < nowMs - um_lastSeenMs m) (ua_members st);
          st' = fold (\<lambda>(_, m). udp_retire m) old st
      in st'\<lparr>ua_members := filter (\<lambda>(_, m). \<not> retention < nowMs - um_lastSeenMs m) (ua_members st)\<rparr>)"

definition udp_expire :: "int \<Rightarrow> int \<Rightarrow> (string, UdpAggState) qhash \<Rightarrow> (string, UdpAggState) qhash" where
  "udp_expire nowMs retention tab =
     map (\<lambda>(k, st). (k, udp_expire_members nowMs retention st))
       (filter (\<lambda>(_, st). \<not> retention < nowMs - ua_lastSeenMs st) tab)"

definition udp_total :: "(UdpAggState \<Rightarrow> quint64) \<Rightarrow> (UdpAggMember \<Rightarrow> quint64) \<Rightarrow> UdpAggState \<Rightarrow> quint64" where
  "udp_total base part st = fold (\<lambda>(_, m) acc. acc + part m) (ua_members st) (base st)"

definition udp_counters :: "UdpAggState \<Rightarrow> Connection \<Rightarrow> Connection" where
  "udp_counters st c = c\<lparr>c_rxBytes := udp_total ua_rxBase um_rxBytes st, c_txBytes := udp_total ua_txBase um_txBytes st,
     c_rxPackets := udp_total ua_rxPktBase um_rxPackets st, c_txPackets := udp_total ua_txPktBase um_txPackets st\<rparr>"

definition udp_aggregate ::
  "(QHostAddress \<Rightarrow> string) \<Rightarrow> int \<Rightarrow> Connection list \<Rightarrow> ConnectionAggregator \<Rightarrow> Connection list \<times> ConnectionAggregator" where
  "udp_aggregate toStr nowMs cs a =
     (if ca_udpAggregateByPeer a
      then
        (let x = fold (udp_fold toStr nowMs) cs \<lparr>up_agg = [], up_passthrough = [], up_udpAgg = ca_udpAgg a\<rparr>;
             tab = udp_expire nowMs (ca_staleRetentionMsUdp a) (up_udpAgg x);
             agg = map (\<lambda>(k, c). (k, case hfind tab k of None \<Rightarrow> c | Some st \<Rightarrow> udp_counters st c)) (up_agg x)
         in (up_passthrough x @ map snd agg, a\<lparr>ca_udpAgg := tab\<rparr>))
      else (cs, a\<lparr>ca_udpAgg := []\<rparr>))"

subsection \<open>Rates\<close>

definition byte_rate :: "quint64 \<Rightarrow> quint64 \<Rightarrow> real \<Rightarrow> real" where
  "byte_rate current previous deltaSecs =
     (if previous \<le> current then real (unat (current - previous)) / deltaSecs else 0)"

record Tick =
  tk_nowMs :: int
  tk_deltaMs :: int
  tk_deltaSecs :: real

definition raw_rates :: "Connection option \<Rightarrow> Connection \<Rightarrow> real \<Rightarrow> real \<times> real" where
  "raw_rates prev c deltaSecs =
     (case prev of
        None \<Rightarrow> (0, 0)
      | Some p \<Rightarrow> (byte_rate (c_rxBytes c) (c_rxBytes p) deltaSecs, byte_rate (c_txBytes c) (c_txBytes p) deltaSecs))"

text \<open>The target the display tends to, and the tween that takes it there.\<close>

definition smooth_row :: "ConnectionAggregator \<Rightarrow> Tick \<Rightarrow> real \<Rightarrow> real \<Rightarrow> ConnRow \<Rightarrow> ConnRow" where
  "smooth_row a tk rawRx rawTx r =
     (if 0 < ca_rateSmoothingMs a
      then
        (let tau = real_of_int (ca_rateSmoothingMs a); dt = real_of_int (tk_deltaMs tk);
             r = (if 0 < tk_deltaMs tk
                  then r\<lparr>cr_rxTarget := emaUpdate (cr_rxTarget r) rawRx dt tau,
                         cr_txTarget := emaUpdate (cr_txTarget r) rawTx dt tau\<rparr>
                  else r\<lparr>cr_rxTarget := rawRx, cr_txTarget := rawTx\<rparr>);
             durRise = (if 0 < ca_pollIntervalMs a then ca_pollIntervalMs a else 1000);
             durFall = max 100 (durRise div 3)
         in r\<lparr>cr_rxAnimFrom := cr_rxRate r, cr_rxAnimStartMs := tk_nowMs tk,
              cr_rxAnimDurMs := (if cr_rxTarget r < cr_rxRate r then durFall else durRise),
              cr_txAnimFrom := cr_txRate r, cr_txAnimStartMs := tk_nowMs tk,
              cr_txAnimDurMs := (if cr_txTarget r < cr_txRate r then durFall else durRise)\<rparr>)
      else r\<lparr>cr_rxRate := rawRx, cr_txRate := rawTx, cr_rxTarget := rawRx, cr_txTarget := rawTx,
             cr_rxAnimDurMs := 0, cr_txAnimDurMs := 0\<rparr>)"

definition refresh_row :: "ConnectionAggregator \<Rightarrow> Tick \<Rightarrow> Connection option \<Rightarrow> Connection \<Rightarrow> ConnRow \<Rightarrow> ConnRow" where
  "refresh_row a tk prev c r =
     (let (rawRx, rawTx) = raw_rates prev c (tk_deltaSecs tk);
          r = r\<lparr>cr_rxRaw := rawRx, cr_txRaw := rawTx\<rparr>;
          r = smooth_row a tk rawRx rawTx r;
          r = r\<lparr>cr_rxSamples := cr_rxSamples r @ [\<lparr>sm_timeMs = tk_nowMs tk, sm_rate = rawRx\<rparr>],
                cr_txSamples := cr_txSamples r @ [\<lparr>sm_timeMs = tk_nowMs tk, sm_rate = rawTx\<rparr>]\<rparr>;
          r = trim_row (tk_nowMs tk - ca_windowMs a) r
      in r\<lparr>cr_rxSum := cr_rxSum r + rawRx, cr_txSum := cr_txSum r + rawTx, cr_samples := cr_samples r + 1,
           cr_current := c, cr_lastSeenMs := tk_nowMs tk, cr_stale := False\<rparr>)"

definition stale_row :: "ConnRow \<Rightarrow> ConnRow" where
  "stale_row r = r\<lparr>cr_stale := True, cr_rxRate := 0, cr_txRate := 0, cr_rxRaw := 0, cr_txRaw := 0,
     cr_rxTarget := 0, cr_txTarget := 0, cr_rxAnimDurMs := 0, cr_txAnimDurMs := 0\<rparr>"

text \<open>The first loop over the rows, with its coalesced signals.\<close>

primrec refresh_rows ::
  "(QHostAddress \<Rightarrow> string) \<Rightarrow> ConnectionAggregator \<Rightarrow> Tick \<Rightarrow> (string, Connection) qhash \<Rightarrow> nat \<Rightarrow> ConnRow list
    \<Rightarrow> RowUpdateRuns \<Rightarrow> agg_signal list \<times> ConnRow list" where
  "refresh_rows toStr a tk incoming i [] runs = (runs_flush runs, [])"
| "refresh_rows toStr a tk incoming i (r # rs) runs =
     (let k = conn_key toStr (cr_current r) in
      case hfind incoming k of
        Some c \<Rightarrow>
          (let (out, runs) = runs_add i runs;
               (more, rs) = refresh_rows toStr a tk incoming (i + 1) rs runs
           in (out @ more, refresh_row a tk (hfind (ca_prev a) k) c r # rs))
      | None \<Rightarrow>
          if \<not> cr_stale r
          then (let (out, runs) = runs_add i runs;
                    (more, rs) = refresh_rows toStr a tk incoming (i + 1) rs runs
                in (out @ more, stale_row r # rs))
          else (let (more, rs) = refresh_rows toStr a tk incoming (i + 1) rs runs in (more, r # rs)))"

subsection \<open>Rows that go and rows that come\<close>

definition row_expired :: "ConnectionAggregator \<Rightarrow> int \<Rightarrow> ConnRow \<Rightarrow> bool" where
  "row_expired a nowMs r =
     (let budget = (if c_proto (cr_current r) = Udp then ca_staleRetentionMsUdp a else ca_staleRetentionMs a)
      in cr_stale r \<and> budget < nowMs - cr_lastSeenMs r)"

text \<open>The loop from the last row down; \<open>n\<close> rows are still to be looked at.\<close>

primrec prune_rows :: "(ConnRow \<Rightarrow> bool) \<Rightarrow> nat \<Rightarrow> ConnRow list \<Rightarrow> agg_signal list \<times> ConnRow list" where
  "prune_rows gone 0 rs = ([], rs)"
| "prune_rows gone (Suc n) rs =
     (if gone (rs ! n)
      then (let (out, rs) = prune_rows gone n (remove_at n rs) in ([RowsAboutToBeRemoved n n, RowsRemoved] @ out, rs))
      else prune_rows gone n rs)"

definition row_index :: "(QHostAddress \<Rightarrow> string) \<Rightarrow> ConnRow list \<Rightarrow> (string, nat) qhash" where
  "row_index toStr rs = fold (\<lambda>(i, r). hinsert (conn_key toStr (cr_current r)) i) (enumerate 0 rs) []"

definition append_rows ::
  "(QHostAddress \<Rightarrow> string) \<Rightarrow> int \<Rightarrow> (string, Connection) qhash \<Rightarrow> ConnectionAggregator \<Rightarrow> agg_signal list \<times> ConnectionAggregator" where
  "append_rows toStr nowMs incoming a =
     (let additions = map snd (filter (\<lambda>(k, _). \<not> hcontains (ca_keyToIdx a) k) incoming);
          firstNew = length (ca_rows a)
      in if additions = [] then ([], a)
         else ([RowsAboutToBeInserted firstNew (firstNew + length additions - 1)] @
               concat (map (\<lambda>c. requestResolution a (ep_address (c_local c)) @
                                requestResolution a (ep_address (c_remote c))) additions) @ [RowsInserted],
               a\<lparr>ca_rows := ca_rows a @ map (\<lambda>c. new_row c nowMs) additions,
                 ca_keyToIdx := fold (\<lambda>(i, c). hinsert (conn_key toStr c) i) (enumerate firstNew additions) (ca_keyToIdx a)\<rparr>))"

definition index_incoming :: "(QHostAddress \<Rightarrow> string) \<Rightarrow> Connection list \<Rightarrow> (string, Connection) qhash" where
  "index_incoming toStr cs = fold (\<lambda>c. hinsert (conn_key toStr c) c) cs []"

definition mk_tick :: "int \<Rightarrow> ConnectionAggregator \<Rightarrow> Tick" where
  "mk_tick nowMs a =
     (let deltaMs = nowMs - ca_lastElapsedMs a
      in \<lparr>tk_nowMs = nowMs, tk_deltaMs = deltaMs,
          tk_deltaSecs = (if 0 < deltaMs then real_of_int deltaMs / 1000 else 1)\<rparr>)"

definition ca_updateConnections ::
  "(QHostAddress \<Rightarrow> string) \<Rightarrow> int \<Rightarrow> Connection list \<Rightarrow> ConnectionAggregator \<Rightarrow> agg_signal list \<times> ConnectionAggregator" where
  "ca_updateConnections toStr nowMs conns a =
     (let tk = mk_tick nowMs a;
          a = a\<lparr>ca_lastElapsedMs := nowMs\<rparr>;
          (conns, a) = udp_aggregate toStr nowMs (infer_directions a conns) a;
          incoming = index_incoming toStr conns;
          (upd, rows) = refresh_rows toStr a tk incoming 0 (ca_rows a) None;
          (del, rows) = prune_rows (row_expired a nowMs) (length rows) rows;
          a = a\<lparr>ca_rows := rows, ca_keyToIdx := row_index toStr rows\<rparr>;
          (ins, a) = append_rows toStr nowMs incoming a
      in (upd @ del @ ins, a\<lparr>ca_prev := incoming\<rparr>))"

section \<open>Refinements, the animation and resolved names\<close>

definition patch_current :: "Connection \<Rightarrow> Connection \<Rightarrow> Connection \<times> bool" where
  "patch_current p cur =
     (let (cur, some) = (if pi_valid (c_process p) \<and> c_process cur \<noteq> c_process p
                         then (cur\<lparr>c_process := c_process p, c_reason := c_reason p\<rparr>, True) else (cur, False));
          (cur, some) = (if ct_valid (c_container p) \<and> c_container cur \<noteq> c_container p
                         then (cur\<lparr>c_container := c_container p\<rparr>, True) else (cur, some))
      in if c_chain p \<noteq> [] \<and> c_chain cur \<noteq> c_chain p then (cur\<lparr>c_chain := c_chain p\<rparr>, True) else (cur, some))"

definition patch_one :: "(QHostAddress \<Rightarrow> string) \<Rightarrow> Connection \<Rightarrow> bool \<times> ConnectionAggregator \<Rightarrow> bool \<times> ConnectionAggregator" where
  "patch_one toStr p x =
     (case hfind (ca_keyToIdx (snd x)) (conn_key toStr p) of
        None \<Rightarrow> x
      | Some i \<Rightarrow>
          (let r = ca_rows (snd x) ! i; (cur, some) = patch_current p (cr_current r)
           in (fst x \<or> some, (snd x)\<lparr>ca_rows := (ca_rows (snd x))[i := r\<lparr>cr_current := cur\<rparr>]\<rparr>)))"

definition ca_applyAttributionPatch ::
  "(QHostAddress \<Rightarrow> string) \<Rightarrow> Connection list \<Rightarrow> ConnectionAggregator \<Rightarrow> agg_signal list \<times> ConnectionAggregator" where
  "ca_applyAttributionPatch toStr patch a =
     (let (some, a) = fold (patch_one toStr) patch (False, a) in (if some then [ViewDataChanged] else [], a))"

text \<open>One tween step of one quantity: the displayed value, the remaining duration and whether the
  display moved by more than one byte per second.\<close>

definition tween :: "int \<Rightarrow> real \<Rightarrow> real \<Rightarrow> int \<Rightarrow> int \<Rightarrow> real \<Rightarrow> real \<times> int \<times> bool" where
  "tween nowMs disp animFrom startMs durMs target =
     (if durMs \<le> 0 then (disp, durMs, False)
      else
        (let t = real_of_int (nowMs - startMs) / real_of_int durMs in
         if 1 \<le> t then (target, 0, 1 < \<bar>disp - target\<bar>)
         else if t \<le> 0 then (disp, durMs, False)
         else (let v = animFrom + (target - animFrom) * easeOutCubic t in (v, durMs, 1 < \<bar>v - disp\<bar>))))"

definition tween_row :: "int \<Rightarrow> ConnRow \<Rightarrow> ConnRow \<times> bool" where
  "tween_row nowMs r =
     (let (rx, rxDur, m1) = tween nowMs (cr_rxRate r) (cr_rxAnimFrom r) (cr_rxAnimStartMs r) (cr_rxAnimDurMs r) (cr_rxTarget r);
          (tx, txDur, m2) = tween nowMs (cr_txRate r) (cr_txAnimFrom r) (cr_txAnimStartMs r) (cr_txAnimDurMs r) (cr_txTarget r)
      in (r\<lparr>cr_rxRate := rx, cr_rxAnimDurMs := rxDur, cr_txRate := tx, cr_txAnimDurMs := txDur\<rparr>, m1 \<or> m2))"

primrec tween_rows :: "int \<Rightarrow> nat \<Rightarrow> ConnRow list \<Rightarrow> RowUpdateRuns \<Rightarrow> agg_signal list \<times> ConnRow list" where
  "tween_rows nowMs i [] runs = (runs_flush runs, [])"
| "tween_rows nowMs i (r # rs) runs =
     (if cr_stale r then (let (more, rs) = tween_rows nowMs (i + 1) rs runs in (more, r # rs))
      else
        (let (r, moved) = tween_row nowMs r;
             (out, runs) = (if moved then runs_add i runs else ([], runs));
             (more, rs) = tween_rows nowMs (i + 1) rs runs
         in (out @ more, r # rs)))"

definition ca_advanceSmoothing :: "int \<Rightarrow> ConnectionAggregator \<Rightarrow> agg_signal list \<times> ConnectionAggregator" where
  "ca_advanceSmoothing nowMs a =
     (if ca_rateSmoothingMs a \<le> 0 \<or> ca_rows a = [] then ([], a)
      else (let (out, rows) = tween_rows nowMs 0 (ca_rows a) None in (out, a\<lparr>ca_rows := rows\<rparr>)))"

primrec resolved_rows :: "QHostAddress \<Rightarrow> nat \<Rightarrow> ConnRow list \<Rightarrow> RowUpdateRuns \<Rightarrow> agg_signal list" where
  "resolved_rows addr i [] runs = runs_flush runs"
| "resolved_rows addr i (r # rs) runs =
     (let c = cr_current r in
      if ep_address (c_local c) = addr \<or> ep_address (c_remote c) = addr
      then (let (out, runs) = runs_add i runs in out @ resolved_rows addr (i + 1) rs runs)
      else resolved_rows addr (i + 1) rs runs)"

definition ca_onResolved :: "QHostAddress \<Rightarrow> ConnectionAggregator \<Rightarrow> agg_signal list" where
  "ca_onResolved addr a =
     (if \<not> ca_resolveEnabled a \<or> ca_rows a = [] then [] else resolved_rows addr 0 (ca_rows a) None)"

end
