(* ===== verification/AggregatorFacts.thy ===== *)
theory AggregatorFacts
  imports Aggregator
begin

text \<open>
  Facts about the flow table of \<open>aggregate/ConnectionAggregator.cpp\<close>: what a snapshot does to the
  rows, that the granular signals replayed on a view reproduce the table, that peer totals of UDP
  never fall, and that displayed rates stay between where they were and where they are going.
\<close>

section \<open>The loops, as list functions\<close>

abbreviation row_key :: "(QHostAddress \<Rightarrow> string) \<Rightarrow> ConnRow \<Rightarrow> string" where
  "row_key toStr r \<equiv> conn_key toStr (cr_current r)"

text \<open>What the first loop does to one row.\<close>

definition seen_or_stale ::
  "(QHostAddress \<Rightarrow> string) \<Rightarrow> ConnectionAggregator \<Rightarrow> Tick \<Rightarrow> (string, Connection) qhash \<Rightarrow> ConnRow \<Rightarrow> ConnRow" where
  "seen_or_stale toStr a tk incoming r =
     (case hfind incoming (row_key toStr r) of
        Some c \<Rightarrow> refresh_row a tk (hfind (ca_prev a) (row_key toStr r)) c r
      | None \<Rightarrow> if \<not> cr_stale r then stale_row r else r)"

lemma refresh_rows_map: "snd (refresh_rows toStr a tk incoming i rs runs) = map (seen_or_stale toStr a tk incoming) rs"
  by (induction rs arbitrary: i runs) (simp_all add: Let_def case_prod_beta seen_or_stale_def split: option.split)

lemma prune_rows_filter:
  "n \<le> length rs \<Longrightarrow> snd (prune_rows gone n rs) = filter (\<lambda>r. \<not> gone r) (take n rs) @ drop n rs"
proof (induction n arbitrary: rs)
  case (Suc n)
  then have n: "n < length rs" by simp
  have take: "take (Suc n) rs = take n rs @ [rs ! n]" using n by (rule take_Suc_conv_app_nth)
  have split: "drop n rs = rs ! n # drop (Suc n) rs" using n by (rule Cons_nth_drop_Suc [symmetric])
  have rest: "take n (remove_at n rs) = take n rs" "drop n (remove_at n rs) = drop (Suc n) rs" "n \<le> length (remove_at n rs)"
    using n by (simp_all add: remove_at_def)
  show ?case
    using Suc.IH [of "remove_at n rs"] Suc.IH [of rs] n by (simp add: take split rest case_prod_beta)
qed simp

lemma prune_all: "snd (prune_rows gone (length rs) rs) = filter (\<lambda>r. \<not> gone r) rs"
  by (simp add: prune_rows_filter)

lemma refresh_row_current [simp]: "cr_current (refresh_row a tk prev c r) = c" "\<not> cr_stale (refresh_row a tk prev c r)"
  "cr_lastSeenMs (refresh_row a tk prev c r) = tk_nowMs tk"
  by (simp_all add: refresh_row_def Let_def case_prod_beta)

lemma stale_row_sel [simp]: "cr_current (stale_row r) = cr_current r" "cr_stale (stale_row r)"
  "cr_lastSeenMs (stale_row r) = cr_lastSeenMs r"
  by (simp_all add: stale_row_def)

lemma new_row_sel [simp]: "cr_current (new_row c nowMs) = c" "\<not> cr_stale (new_row c nowMs)"
  "cr_lastSeenMs (new_row c nowMs) = nowMs"
  by (simp_all add: new_row_def)

section \<open>The incoming index\<close>

text \<open>Every entry sits under its own key.\<close>

definition keyed_by :: "(QHostAddress \<Rightarrow> string) \<Rightarrow> (string, Connection) qhash \<Rightarrow> bool" where
  "keyed_by toStr m = (hwf m \<and> (\<forall>(k, c) \<in> set m. conn_key toStr c = k))"

lemma keyed_by_find: "keyed_by toStr m \<Longrightarrow> hfind m k = Some c \<Longrightarrow> conn_key toStr c = k"
  by (auto simp: keyed_by_def dest: map_of_SomeD)

lemma keyed_by_insert: "keyed_by toStr m \<Longrightarrow> keyed_by toStr (hinsert (conn_key toStr c) c m)"
  using hinsert_entries [of "conn_key toStr c" c m] unfolding keyed_by_def by fastforce

lemma index_incoming_snoc: "index_incoming toStr (cs @ [c]) = hinsert (conn_key toStr c) c (index_incoming toStr cs)"
  by (simp add: index_incoming_def)

lemma index_incoming_keyed: "keyed_by toStr (index_incoming toStr cs)"
proof (induction cs rule: rev_induct)
  case (snoc c cs)
  then show ?case unfolding index_incoming_snoc by (rule keyed_by_insert)
qed (simp add: index_incoming_def keyed_by_def)

lemma index_incoming_dom: "hcontains (index_incoming toStr cs) k \<longleftrightarrow> k \<in> conn_key toStr ` set cs"
proof (induction cs rule: rev_induct)
  case (snoc c cs)
  then show ?case by (auto simp: index_incoming_snoc update_conv')
qed (simp add: index_incoming_def)

section \<open>The table invariant\<close>

definition index_of :: "(QHostAddress \<Rightarrow> string) \<Rightarrow> (string, nat) qhash \<Rightarrow> ConnRow list \<Rightarrow> bool" where
  "index_of toStr m rs = (\<forall>k i. hfind m k = Some i \<longleftrightarrow> i < length rs \<and> row_key toStr (rs ! i) = k)"

definition table_ok :: "(QHostAddress \<Rightarrow> string) \<Rightarrow> ConnectionAggregator \<Rightarrow> bool" where
  "table_ok toStr a = (distinct (map (row_key toStr) (ca_rows a)) \<and> index_of toStr (ca_keyToIdx a) (ca_rows a) \<and>
     keyed_by toStr (ca_prev a))"

lemma index_of_snoc:
  assumes "index_of toStr m rs" and "row_key toStr r \<notin> row_key toStr ` set rs"
  shows "index_of toStr (hinsert (row_key toStr r) (length rs) m) (rs @ [r])"
proof -
  have "\<not> (i < length rs \<and> row_key toStr (rs ! i) = row_key toStr r)" for i
    using assms(2) by (metis imageI nth_mem)
  then show ?thesis
    using assms(1) by (auto simp: index_of_def update_conv' nth_append less_Suc_eq)
qed

lemma index_of_append:
  assumes "index_of toStr m rs" and "distinct (map (row_key toStr) (rs @ new))"
  shows "index_of toStr (fold (\<lambda>(i, r). hinsert (row_key toStr r) i) (enumerate (length rs) new) m) (rs @ new)"
  using assms
proof (induction new rule: rev_induct)
  case (snoc r new)
  have "index_of toStr (fold (\<lambda>(i, r). hinsert (row_key toStr r) i) (enumerate (length rs) new) m) (rs @ new)"
    using snoc by simp
  then have "index_of toStr (hinsert (row_key toStr r) (length (rs @ new))
      (fold (\<lambda>(i, r). hinsert (row_key toStr r) i) (enumerate (length rs) new) m)) ((rs @ new) @ [r])"
    using snoc.prems(2) by (intro index_of_snoc) auto
  then show ?case by (simp add: enumerate_append_eq)
qed simp

lemma row_index_ok: "distinct (map (row_key toStr) rs) \<Longrightarrow> index_of toStr (row_index toStr rs) rs"
  using index_of_append [of toStr "[]" "[]" rs] by (simp add: row_index_def index_of_def)

lemma seen_or_stale_key:
  assumes "keyed_by toStr incoming"
  shows "row_key toStr (seen_or_stale toStr a tk incoming r) = row_key toStr r"
  using keyed_by_find [OF assms] by (simp add: seen_or_stale_def split: option.split)

section \<open>One snapshot\<close>

text \<open>The flows a snapshot stands for, after direction inference and UDP folding.\<close>

definition effective_flows :: "(QHostAddress \<Rightarrow> string) \<Rightarrow> int \<Rightarrow> Connection list \<Rightarrow> ConnectionAggregator \<Rightarrow> (string, Connection) qhash" where
  "effective_flows toStr nowMs conns a =
     index_incoming toStr (fst (udp_aggregate toStr nowMs (infer_directions a conns) (a\<lparr>ca_lastElapsedMs := nowMs\<rparr>)))"

lemma udp_aggregate_frame:
  "ca_rows (snd (udp_aggregate toStr nowMs cs a)) = ca_rows a"
  "ca_prev (snd (udp_aggregate toStr nowMs cs a)) = ca_prev a"
  "ca_keyToIdx (snd (udp_aggregate toStr nowMs cs a)) = ca_keyToIdx a"
  "ca_staleRetentionMs (snd (udp_aggregate toStr nowMs cs a)) = ca_staleRetentionMs a"
  "ca_staleRetentionMsUdp (snd (udp_aggregate toStr nowMs cs a)) = ca_staleRetentionMsUdp a"
  "ca_rateSmoothingMs (snd (udp_aggregate toStr nowMs cs a)) = ca_rateSmoothingMs a"
  "ca_windowMs (snd (udp_aggregate toStr nowMs cs a)) = ca_windowMs a"
  "ca_pollIntervalMs (snd (udp_aggregate toStr nowMs cs a)) = ca_pollIntervalMs a"
  by (simp_all add: udp_aggregate_def Let_def)

definition surviving_rows :: "(QHostAddress \<Rightarrow> string) \<Rightarrow> int \<Rightarrow> Connection list \<Rightarrow> ConnectionAggregator \<Rightarrow> ConnRow list" where
  "surviving_rows toStr nowMs conns a =
     filter (\<lambda>r. \<not> row_expired a nowMs r)
       (map (seen_or_stale toStr a (mk_tick nowMs a) (effective_flows toStr nowMs conns a)) (ca_rows a))"

definition arriving_flows :: "(QHostAddress \<Rightarrow> string) \<Rightarrow> int \<Rightarrow> Connection list \<Rightarrow> ConnectionAggregator \<Rightarrow> Connection list" where
  "arriving_flows toStr nowMs conns a =
     map snd (filter (\<lambda>(k, _). k \<notin> row_key toStr ` set (surviving_rows toStr nowMs conns a))
       (effective_flows toStr nowMs conns a))"

lemma seen_or_stale_frame:
  assumes "ca_rateSmoothingMs b = ca_rateSmoothingMs a" and "ca_windowMs b = ca_windowMs a"
    and "ca_pollIntervalMs b = ca_pollIntervalMs a" and "ca_prev b = ca_prev a"
  shows "seen_or_stale toStr b tk incoming = seen_or_stale toStr a tk incoming"
proof -
  have "refresh_row b tk prev c r = refresh_row a tk prev c r" for prev c r
    by (simp only: refresh_row_def smooth_row_def assms)
  then show ?thesis
    by (intro ext) (simp only: seen_or_stale_def assms)
qed

lemma row_expired_frame:
  "ca_staleRetentionMs b = ca_staleRetentionMs a \<Longrightarrow> ca_staleRetentionMsUdp b = ca_staleRetentionMsUdp a \<Longrightarrow>
   row_expired b nowMs = row_expired a nowMs"
  by (intro ext) (simp only: row_expired_def)

lemma append_rows_sel:
  "ca_rows (snd (append_rows toStr nowMs incoming a)) = ca_rows a @ map (\<lambda>c. new_row c nowMs)
     (map snd (filter (\<lambda>(k, _). \<not> hcontains (ca_keyToIdx a) k) incoming))"
  "ca_keyToIdx (snd (append_rows toStr nowMs incoming a)) = fold (\<lambda>(i, c). hinsert (conn_key toStr c) i)
     (enumerate (length (ca_rows a)) (map snd (filter (\<lambda>(k, _). \<not> hcontains (ca_keyToIdx a) k) incoming))) (ca_keyToIdx a)"
  by (simp_all add: append_rows_def Let_def)

lemma index_of_dom: "index_of toStr m rs \<Longrightarrow> hcontains m k \<longleftrightarrow> k \<in> row_key toStr ` set rs"
  by (auto simp: index_of_def in_set_conv_nth intro: rev_image_eqI [OF nth_mem])

text \<open>The state between the two halves of an update.\<close>

lemma survivors_distinct:
  assumes "table_ok toStr a"
  shows "distinct (map (row_key toStr) (surviving_rows toStr nowMs conns a))"
proof -
  have key: "row_key toStr (seen_or_stale toStr a tk (effective_flows toStr nowMs conns a) r) = row_key toStr r" for tk r
    unfolding effective_flows_def by (intro seen_or_stale_key index_incoming_keyed)
  have "distinct (map (row_key toStr) (map (seen_or_stale toStr a (mk_tick nowMs a) (effective_flows toStr nowMs conns a)) (ca_rows a)))"
    using assms by (simp add: table_ok_def key o_def)
  then show ?thesis
    unfolding surviving_rows_def by (rule distinct_map_filter)
qed

text \<open>The bracket around an insertion of \<open>n\<close> rows after the first \<open>at\<close>.\<close>

definition insert_signals :: "nat \<Rightarrow> nat \<Rightarrow> agg_signal list \<Rightarrow> agg_signal list" where
  "insert_signals pos n asks = (if n = 0 then [] else [RowsAboutToBeInserted pos (pos + n - 1)] @ asks @ [RowsInserted])"

lemma refresh_signals_frame:
  "fst (refresh_rows toStr b tk incoming i rs runs) = fst (refresh_rows toStr a tk incoming i rs runs)"
  by (induction rs arbitrary: i runs) (simp_all add: Let_def case_prod_beta split: option.split)

lemma requests_only: "s \<in> set (requestResolution a h) \<Longrightarrow> \<exists>h. s = ResolveRequest h"
  by (simp add: requestResolution_def split: if_splits)

lemma append_signals:
  assumes "additions = map snd (filter (\<lambda>(k, _). \<not> hcontains (ca_keyToIdx a) k) incoming)"
  shows "\<exists>asks. (\<forall>s \<in> set asks. \<exists>h. s = ResolveRequest h) \<and>
    fst (append_rows toStr nowMs incoming a) = insert_signals (length (ca_rows a)) (length additions) asks"
  unfolding append_rows_def Let_def assms [symmetric] insert_signals_def
  by (rule exI [of _ "concat (map (\<lambda>c. requestResolution a (ep_address (c_local c)) @
        requestResolution a (ep_address (c_remote c))) additions)"]) (auto dest: requests_only)

lemma update_rows:
  assumes "table_ok toStr a" and "ca_updateConnections toStr nowMs conns a = (out, a')"
  shows "ca_rows a' = surviving_rows toStr nowMs conns a @ map (\<lambda>c. new_row c nowMs) (arriving_flows toStr nowMs conns a)"
    and "ca_keyToIdx a' = fold (\<lambda>(i, c). hinsert (conn_key toStr c) i)
      (enumerate (length (surviving_rows toStr nowMs conns a)) (arriving_flows toStr nowMs conns a))
      (row_index toStr (surviving_rows toStr nowMs conns a))"
    and "ca_prev a' = effective_flows toStr nowMs conns a"
    and "\<exists>asks. (\<forall>s \<in> set asks. \<exists>h. s = ResolveRequest h) \<and>
      out = fst (refresh_rows toStr a (mk_tick nowMs a) (effective_flows toStr nowMs conns a) 0 (ca_rows a) None) @
        fst (prune_rows (row_expired a nowMs) (length (ca_rows a))
          (map (seen_or_stale toStr a (mk_tick nowMs a) (effective_flows toStr nowMs conns a)) (ca_rows a))) @
        insert_signals (length (surviving_rows toStr nowMs conns a)) (length (arriving_flows toStr nowMs conns a)) asks"
proof -
  define a1 where "a1 = snd (udp_aggregate toStr nowMs (infer_directions a conns) (a\<lparr>ca_lastElapsedMs := nowMs\<rparr>))"
  define inc where "inc = effective_flows toStr nowMs conns a"
  have inf: "infer_directions (a\<lparr>ca_lastElapsedMs := nowMs\<rparr>) conns = infer_directions a conns"
    by (simp add: infer_directions_def)
  note fr = udp_aggregate_frame [of toStr nowMs "infer_directions a conns" "a\<lparr>ca_lastElapsedMs := nowMs\<rparr>", folded a1_def, simplified]
  have rows: "filter (\<lambda>r. \<not> row_expired a1 nowMs r) (map (seen_or_stale toStr a1 (mk_tick nowMs a) inc) (ca_rows a1))
      = surviving_rows toStr nowMs conns a"
    using seen_or_stale_frame [of a1 a] row_expired_frame [of a1 a] fr by (simp add: surviving_rows_def inc_def)
  define a2 where "a2 = a1\<lparr>ca_rows := surviving_rows toStr nowMs conns a,
      ca_keyToIdx := row_index toStr (surviving_rows toStr nowMs conns a)\<rparr>"
  have pruned: "snd (prune_rows (row_expired a1 nowMs) (length (ca_rows a1)) (map (seen_or_stale toStr a1 (mk_tick nowMs a) inc) (ca_rows a1)))
      = surviving_rows toStr nowMs conns a"
    using prune_all [of "row_expired a1 nowMs" "map (seen_or_stale toStr a1 (mk_tick nowMs a) inc) (ca_rows a1)"] rows by simp
  have a': "a' = (snd (append_rows toStr nowMs inc a2))\<lparr>ca_prev := inc\<rparr>"
    and out: "out = fst (refresh_rows toStr a1 (mk_tick nowMs a) inc 0 (ca_rows a) None) @
      fst (prune_rows (row_expired a1 nowMs) (length (ca_rows a)) (map (seen_or_stale toStr a1 (mk_tick nowMs a) inc) (ca_rows a))) @
      fst (append_rows toStr nowMs inc a2)"
    using assms(2) fr(1) unfolding ca_updateConnections_def Let_def case_prod_beta a2_def pruned [symmetric]
    by (auto simp: inf refresh_rows_map effective_flows_def [symmetric] inc_def [symmetric] a1_def [symmetric])
  have "(\<not> hcontains (ca_keyToIdx a2) k) = (k \<notin> row_key toStr ` set (surviving_rows toStr nowMs conns a))" for k
    using index_of_dom [OF row_index_ok [OF survivors_distinct [OF assms(1), of nowMs conns]]] by (simp add: a2_def)
  then have arr: "map snd (filter (\<lambda>(k, _). \<not> hcontains (ca_keyToIdx a2) k) inc) = arriving_flows toStr nowMs conns a"
    unfolding arriving_flows_def inc_def by presburger
  show "ca_rows a' = surviving_rows toStr nowMs conns a @ map (\<lambda>c. new_row c nowMs) (arriving_flows toStr nowMs conns a)"
    using append_rows_sel(1) [of toStr nowMs inc a2] unfolding arr by (simp add: a' a2_def)
  show "ca_keyToIdx a' = fold (\<lambda>(i, c). hinsert (conn_key toStr c) i)
      (enumerate (length (surviving_rows toStr nowMs conns a)) (arriving_flows toStr nowMs conns a))
      (row_index toStr (surviving_rows toStr nowMs conns a))"
    using append_rows_sel(2) [of toStr nowMs inc a2] unfolding arr by (simp add: a' a2_def)
  show "ca_prev a' = effective_flows toStr nowMs conns a"
    by (simp add: a' inc_def)
  obtain asks where asks: "\<forall>s \<in> set asks. \<exists>h. s = ResolveRequest h" "fst (append_rows toStr nowMs inc a2) =
      insert_signals (length (ca_rows a2)) (length (arriving_flows toStr nowMs conns a)) asks"
    using append_signals [OF arr [symmetric]] by blast
  have "seen_or_stale toStr a1 = seen_or_stale toStr a" "row_expired a1 nowMs = row_expired a nowMs"
    using seen_or_stale_frame [of a1 a] row_expired_frame [of a1 a] fr by (simp_all add: fun_eq_iff)
  then have "out = fst (refresh_rows toStr a (mk_tick nowMs a) inc 0 (ca_rows a) None) @
        fst (prune_rows (row_expired a nowMs) (length (ca_rows a)) (map (seen_or_stale toStr a (mk_tick nowMs a) inc) (ca_rows a))) @
        insert_signals (length (surviving_rows toStr nowMs conns a)) (length (arriving_flows toStr nowMs conns a)) asks"
    unfolding out asks(2) using refresh_signals_frame [of toStr a1 _ _ _ _ _ a] by (simp add: a2_def)
  with asks(1) show "\<exists>asks. (\<forall>s \<in> set asks. \<exists>h. s = ResolveRequest h) \<and>
      out = fst (refresh_rows toStr a (mk_tick nowMs a) (effective_flows toStr nowMs conns a) 0 (ca_rows a) None) @
        fst (prune_rows (row_expired a nowMs) (length (ca_rows a))
          (map (seen_or_stale toStr a (mk_tick nowMs a) (effective_flows toStr nowMs conns a)) (ca_rows a))) @
        insert_signals (length (surviving_rows toStr nowMs conns a)) (length (arriving_flows toStr nowMs conns a)) asks"
    unfolding inc_def by blast
qed

lemma surviving_seen:
  assumes "r \<in> set (surviving_rows toStr nowMs conns a)"
  shows "case hfind (effective_flows toStr nowMs conns a) (row_key toStr r) of
      Some c \<Rightarrow> cr_current r = c \<and> \<not> cr_stale r \<and> cr_lastSeenMs r = nowMs
    | None \<Rightarrow> cr_stale r \<and> \<not> row_expired a nowMs r \<and>
        (\<exists>o' \<in> set (ca_rows a). cr_current o' = cr_current r \<and> cr_lastSeenMs o' = cr_lastSeenMs r)"
proof -
  let ?inc = "effective_flows toStr nowMs conns a" and ?tk = "mk_tick nowMs a"
  obtain o' where o': "o' \<in> set (ca_rows a)" "r = seen_or_stale toStr a ?tk ?inc o'" and live: "\<not> row_expired a nowMs r"
    using assms unfolding surviving_rows_def set_filter set_map by blast
  have key: "row_key toStr r = row_key toStr o'"
    unfolding o'(2) by (rule seen_or_stale_key) (simp add: effective_flows_def index_incoming_keyed)
  show ?thesis
  proof (cases "hfind ?inc (row_key toStr o')")
    case None
    then have "cr_stale r \<and> cr_current o' = cr_current r \<and> cr_lastSeenMs o' = cr_lastSeenMs r"
      unfolding o'(2) by (simp add: seen_or_stale_def)
    moreover have "hfind ?inc (row_key toStr r) = None" using None key by metis
    ultimately show ?thesis unfolding \<open>hfind ?inc (row_key toStr r) = None\<close> option.case using o'(1) live by blast
  next
    case (Some c)
    then have "r = refresh_row a ?tk (hfind (ca_prev a) (row_key toStr o')) c o'"
      unfolding o'(2) by (simp add: seen_or_stale_def)
    moreover have "hfind ?inc (row_key toStr r) = Some c" using Some key by metis
    ultimately show ?thesis by (simp add: mk_tick_def Let_def)
  qed
qed

lemma arriving_keys:
  "map (conn_key toStr) (arriving_flows toStr nowMs conns a) =
   map fst (filter (\<lambda>(k, _). k \<notin> row_key toStr ` set (surviving_rows toStr nowMs conns a)) (effective_flows toStr nowMs conns a))"
proof -
  have "keyed_by toStr (effective_flows toStr nowMs conns a)"
    by (simp add: effective_flows_def index_incoming_keyed)
  then have "conn_key toStr (snd e) = fst e" if "e \<in> set (effective_flows toStr nowMs conns a)" for e
    using that unfolding keyed_by_def by fastforce
  then show ?thesis
    unfolding arriving_flows_def map_map by (intro map_cong [OF refl]) simp
qed

lemma update_keys_distinct:
  assumes "table_ok toStr a"
  shows "distinct (map (row_key toStr) (surviving_rows toStr nowMs conns a @ map (\<lambda>c. new_row c nowMs) (arriving_flows toStr nowMs conns a)))"
proof -
  have "hwf (effective_flows toStr nowMs conns a)"
    using index_incoming_keyed unfolding effective_flows_def keyed_by_def by blast
  then have "distinct (map (conn_key toStr) (arriving_flows toStr nowMs conns a))"
    unfolding arriving_keys hwf_def by (rule distinct_map_filter)
  moreover have "set (map (conn_key toStr) (arriving_flows toStr nowMs conns a)) \<inter>
      row_key toStr ` set (surviving_rows toStr nowMs conns a) = {}"
    unfolding arriving_keys by auto
  ultimately show ?thesis
    using survivors_distinct [OF assms, of nowMs conns] by (auto simp: new_row_def o_def)
qed

lemma update_table_ok:
  assumes "table_ok toStr a" and "ca_updateConnections toStr nowMs conns a = (out, a')"
  shows "table_ok toStr a'"
proof -
  let ?old = "surviving_rows toStr nowMs conns a" and ?new = "map (\<lambda>c. new_row c nowMs) (arriving_flows toStr nowMs conns a)"
  note u = update_rows [OF assms]
  have d: "distinct (map (row_key toStr) (?old @ ?new))"
    by (rule update_keys_distinct [OF assms(1)])
  have "index_of toStr (fold (\<lambda>(i, r). hinsert (row_key toStr r) i) (enumerate (length ?old) ?new) (row_index toStr ?old)) (?old @ ?new)"
    using d by (intro index_of_append row_index_ok) simp_all
  moreover have "fold (\<lambda>(i, r). hinsert (row_key toStr r) i) (enumerate n (map (\<lambda>c. new_row c nowMs) cs)) m =
      fold (\<lambda>(i, c). hinsert (conn_key toStr c) i) (enumerate n cs) m" for n cs m
    by (induction cs arbitrary: n m) (simp_all add: new_row_def)
  ultimately show ?thesis
    using d u unfolding table_ok_def by (simp add: effective_flows_def index_incoming_keyed)
qed

section \<open>The signal protocol\<close>

text \<open>A view that knows the table only through the signals: a list of row keys and whether a bracket is open.
  \<open>now\<close> is the table the view reads inserted rows from. \<open>None\<close> is a violation of the model protocol.\<close>

fun replay :: "'k list \<Rightarrow> agg_signal list \<Rightarrow> 'k list \<times> bool \<Rightarrow> ('k list \<times> bool) option" where
  "replay tab [] v = Some v"
| "replay tab (RowsAboutToBeInserted f l # ss) (v, op) =
     (if \<not> op \<and> f = length v \<and> f \<le> l \<and> l < length tab
      then replay tab ss (v @ take (Suc l - f) (drop f tab), True) else None)"
| "replay tab (RowsInserted # ss) (v, op) = (if op then replay tab ss (v, False) else None)"
| "replay tab (RowsAboutToBeRemoved f l # ss) (v, op) =
     (if \<not> op \<and> f \<le> l \<and> l < length v then replay tab ss (take f v @ drop (Suc l) v, True) else None)"
| "replay tab (RowsRemoved # ss) (v, op) = (if op then replay tab ss (v, False) else None)"
| "replay tab (RowsUpdated f l # ss) (v, op) =
     (if \<not> op \<and> f \<le> l \<and> l < length v then replay tab ss (v, op) else None)"
| "replay tab (ViewDataChanged # ss) v = replay tab ss v"
| "replay tab (ResolveRequest h # ss) v = replay tab ss v"

lemma replay_append: "replay tab (xs @ ys) v = (case replay tab xs v of None \<Rightarrow> None | Some w \<Rightarrow> replay tab ys w)"
  by (induction tab xs v rule: replay.induct) simp_all

lemma replay_requests: "\<forall>s \<in> set asks. \<exists>h. s = ResolveRequest h \<Longrightarrow> replay tab (asks @ ss) v = replay tab ss v"
  by (induction asks) auto

text \<open>Updated runs are well-formed intervals inside the table, and cover exactly the reported rows.\<close>

definition run_ok :: "nat \<Rightarrow> RowUpdateRuns \<Rightarrow> bool" where
  "run_ok i runs = (case runs of None \<Rightarrow> True | Some (lo, hi) \<Rightarrow> lo \<le> hi \<and> hi < i)"

definition covered :: "agg_signal list \<Rightarrow> nat set" where
  "covered ss = {i. \<exists>lo hi. RowsUpdated lo hi \<in> set ss \<and> lo \<le> i \<and> i \<le> hi}"

definition run_rows :: "RowUpdateRuns \<Rightarrow> nat set" where
  "run_rows runs = (case runs of None \<Rightarrow> {} | Some (lo, hi) \<Rightarrow> {lo..hi})"

lemma covered_append [simp]: "covered (xs @ ys) = covered xs \<union> covered ys"
  by (auto simp: covered_def)

lemma covered_Nil [simp]: "covered [] = {}"
  by (simp add: covered_def)

lemma covered_flush: "covered (runs_flush runs) = run_rows runs"
  by (auto simp: covered_def runs_flush_def run_rows_def split: option.split)

text \<open>A stream of updates is fine for any view longer than the rows it names.\<close>

definition updates_within :: "nat \<Rightarrow> agg_signal list \<Rightarrow> bool" where
  "updates_within n ss = (\<forall>s \<in> set ss. \<exists>lo hi. s = RowsUpdated lo hi \<and> lo \<le> hi \<and> hi < n)"

lemma replay_updates: "updates_within (length v) ss \<Longrightarrow> replay tab ss (v, False) = Some (v, False)"
  by (induction ss) (auto simp: updates_within_def)

lemma runs_add_step:
  assumes "runs_add i runs = (out, runs')" and "run_ok i runs"
  shows "run_ok (Suc i) runs' \<and> updates_within i out \<and> covered out \<union> run_rows runs' = insert i (run_rows runs)"
proof (cases runs)
  case None
  then show ?thesis
    using assms by (auto simp: runs_add_def run_ok_def updates_within_def run_rows_def)
next
  case (Some p)
  then show ?thesis
    using assms by (cases p) (auto simp: runs_add_def run_ok_def updates_within_def run_rows_def covered_def split: if_splits)
qed

lemma runs_flush_within: "run_ok i runs \<Longrightarrow> updates_within i (runs_flush runs)"
  by (auto simp: run_ok_def updates_within_def runs_flush_def split: option.split)

lemma updates_within_mono: "updates_within n ss \<Longrightarrow> n \<le> m \<Longrightarrow> updates_within m ss"
  unfolding updates_within_def by (meson less_le_trans)

lemma updates_within_append [simp]: "updates_within n (xs @ ys) \<longleftrightarrow> updates_within n xs \<and> updates_within n ys"
  by (auto simp: updates_within_def)

lemma run_ok_Suc: "run_ok i runs \<Longrightarrow> run_ok (Suc i) runs"
  by (auto simp: run_ok_def split: option.splits)

text \<open>The rows the first loop reports.\<close>

definition touched :: "(QHostAddress \<Rightarrow> string) \<Rightarrow> (string, Connection) qhash \<Rightarrow> ConnRow \<Rightarrow> bool" where
  "touched toStr incoming r = (hcontains incoming (row_key toStr r) \<or> \<not> cr_stale r)"

lemma refresh_signals:
  "run_ok i runs \<Longrightarrow>
   updates_within (i + length rs) (fst (refresh_rows toStr a tk incoming i rs runs)) \<and>
   covered (fst (refresh_rows toStr a tk incoming i rs runs)) =
     run_rows runs \<union> {i + j |j. j < length rs \<and> touched toStr incoming (rs ! j)}"
proof (induction rs arbitrary: i runs)
  case Nil
  then show ?case by (simp add: runs_flush_within covered_flush)
next
  case (Cons r rs)
  have shift: "{i + j |j. j < length (r # rs) \<and> touched toStr incoming ((r # rs) ! j)} =
      (if touched toStr incoming r then {i} else {}) \<union> {Suc i + j |j. j < length rs \<and> touched toStr incoming (rs ! j)}"
    by (auto simp: less_Suc_eq_0_disj)
  obtain out runs' where ra: "runs_add i runs = (out, runs')" by fastforce
  note st = runs_add_step [OF ra Cons.prems]
  note IH1 = Cons.IH [of "Suc i" runs'] and IH2 = Cons.IH [OF run_ok_Suc [OF Cons.prems]]
  show ?case
  proof (cases "touched toStr incoming r")
    case True
    then have e: "fst (refresh_rows toStr a tk incoming i (r # rs) runs) = out @ fst (refresh_rows toStr a tk incoming (Suc i) rs runs')"
      by (auto simp: touched_def ra Let_def case_prod_beta split: option.split)
    show ?thesis
      using st IH1 True unfolding e shift by (auto simp: updates_within_mono)
  next
    case False
    then have e: "fst (refresh_rows toStr a tk incoming i (r # rs) runs) = fst (refresh_rows toStr a tk incoming (Suc i) rs runs)"
      by (auto simp: touched_def Let_def case_prod_beta split: option.split)
    show ?thesis
      using IH2 False unfolding e shift by simp
  qed
qed

text \<open>Removals, last row first.\<close>

lemma prune_replay:
  "n \<le> length rs \<Longrightarrow>
   replay tab (fst (prune_rows gone n rs) @ ss) (map f rs, False) = replay tab ss (map f (snd (prune_rows gone n rs)), False)"
proof (induction n arbitrary: rs)
  case (Suc n)
  then have n: "n < length rs" by simp
  show ?case
  proof (cases "gone (rs ! n)")
    case True
    have rm: "take n (map f rs) @ drop (Suc n) (map f rs) = map f (remove_at n rs)"
      by (simp add: remove_at_def take_map drop_map)
    have "n \<le> length (remove_at n rs)" using n by (simp add: remove_at_def)
    from Suc.IH [OF this] show ?thesis
      using True n by (simp add: case_prod_beta rm)
  next
    case False
    then show ?thesis using Suc.IH [of rs] n by simp
  qed
qed simp

lemma prune_covers: "covered (fst (prune_rows gone n rs)) = {}"
  by (induction n arbitrary: rs) (simp_all add: covered_def case_prod_beta)

lemma insert_covers: "\<forall>s \<in> set asks. \<exists>h. s = ResolveRequest h \<Longrightarrow> covered (insert_signals n m asks) = {}"
  by (auto simp: covered_def insert_signals_def)

text \<open>Arrivals, after the last row.\<close>

lemma insert_replay:
  assumes "\<forall>s \<in> set asks. \<exists>h. s = ResolveRequest h"
  shows "replay (xs @ new) (insert_signals (length xs) (length new) asks) (xs, False) = Some (xs @ new, False)"
proof -
  have "replay tab (asks @ [RowsInserted]) (v, True) = Some (v, False)" for tab :: "'a list" and v
    unfolding replay_requests [OF assms] by simp
  then show ?thesis by (cases new) (simp_all add: insert_signals_def)
qed

section \<open>Reachable tables\<close>

lemma patch_current_key [simp]: "conn_key toStr (fst (patch_current p cur)) = conn_key toStr cur"
  by (simp add: patch_current_def conn_key_def Let_def)

lemma tween_rows_map: "snd (tween_rows nowMs i rs runs) = map (\<lambda>r. if cr_stale r then r else fst (tween_row nowMs r)) rs"
  by (induction rs arbitrary: i runs) (simp_all add: Let_def case_prod_beta)

lemma tween_row_current [simp]: "cr_current (fst (tween_row nowMs r)) = cr_current r"
  by (simp add: tween_row_def Let_def case_prod_beta)

lemma table_ok_cong:
  assumes "table_ok toStr a" and "map (row_key toStr) rs = map (row_key toStr) (ca_rows a)"
  shows "table_ok toStr (a\<lparr>ca_rows := rs\<rparr>)"
proof -
  have len: "length rs = length (ca_rows a)" using assms(2) by (rule map_eq_imp_length_eq)
  have "row_key toStr (rs ! i) = row_key toStr (ca_rows a ! i)" if "i < length rs" for i
    using assms(2) that len by (metis nth_map)
  then have "index_of toStr (ca_keyToIdx a) rs"
    using assms(1) len unfolding table_ok_def index_of_def by auto
  then show ?thesis
    using assms by (simp add: table_ok_def)
qed

lemma map_update_same: "f y = f (xs ! i) \<Longrightarrow> map f (xs[i := y]) = map f xs"
  by (metis length_map linorder_not_less list_update_beyond list_update_id map_update nth_map)

lemma patch_one_ok:
  assumes "table_ok toStr (snd x)"
  shows "table_ok toStr (snd (patch_one toStr p x))"
proof (cases "hfind (ca_keyToIdx (snd x)) (conn_key toStr p)")
  case (Some i)
  let ?rs = "ca_rows (snd x)"
  have "map (row_key toStr) (?rs[i := (?rs ! i)\<lparr>cr_current := fst (patch_current p (cr_current (?rs ! i)))\<rparr>]) = map (row_key toStr) ?rs"
    by (rule map_update_same) simp
  then show ?thesis
    using table_ok_cong [OF assms] by (simp add: patch_one_def Some Let_def case_prod_beta)
qed (use assms in \<open>simp add: patch_one_def\<close>)

lemma patch_all_ok: "table_ok toStr (snd x) \<Longrightarrow> table_ok toStr (snd (fold (patch_one toStr) ps x))"
  by (induction ps arbitrary: x) (simp_all add: patch_one_ok)

inductive agg_reachable :: "(QHostAddress \<Rightarrow> string) \<Rightarrow> ConnectionAggregator \<Rightarrow> bool" for toStr where
  agg_start: "agg_reachable toStr (mk_ConnectionAggregator ports)"
| agg_update: "agg_reachable toStr a \<Longrightarrow> agg_reachable toStr (snd (ca_updateConnections toStr nowMs conns a))"
| agg_patch: "agg_reachable toStr a \<Longrightarrow> agg_reachable toStr (snd (ca_applyAttributionPatch toStr ps a))"
| agg_smooth: "agg_reachable toStr a \<Longrightarrow> agg_reachable toStr (snd (ca_advanceSmoothing nowMs a))"
| agg_resolver: "agg_reachable toStr a \<Longrightarrow> agg_reachable toStr (ca_setDnsResolver b a)"
| agg_resolve: "agg_reachable toStr a \<Longrightarrow> agg_reachable toStr (snd (ca_setHostnameResolutionEnabled b a))"
| agg_addresses: "agg_reachable toStr a \<Longrightarrow> agg_reachable toStr (snd (ca_setLocalAddresses addrs a))"
| agg_stale: "agg_reachable toStr a \<Longrightarrow> agg_reachable toStr (ca_setStaleRetentionMs ms a)"
| agg_stale_udp: "agg_reachable toStr a \<Longrightarrow> agg_reachable toStr (ca_setStaleRetentionMsUdp ms a)"
| agg_udp: "agg_reachable toStr a \<Longrightarrow> agg_reachable toStr (ca_setUdpAggregateByPeer b a)"
| agg_alias: "agg_reachable toStr a \<Longrightarrow> agg_reachable toStr (snd (ca_setResolveIfaceAddrsAsLocalhost b a))"
| agg_mode: "agg_reachable toStr a \<Longrightarrow> agg_reachable toStr (snd (ca_setThroughputMaxMode m a))"
| agg_window: "agg_reachable toStr a \<Longrightarrow> agg_reachable toStr (snd (ca_setThroughputWindowMs ms a))"
| agg_smoothing: "agg_reachable toStr a \<Longrightarrow> agg_reachable toStr (ca_setRateSmoothingMs ms a)"
| agg_poll: "agg_reachable toStr a \<Longrightarrow> agg_reachable toStr (ca_setPollIntervalMs ms a)"

lemma trim_row_current [simp]: "cr_current (trim_row cutoff r) = cr_current r"
  by (simp add: trim_row_def)

lemmas setter_defs = ca_setDnsResolver_def ca_setHostnameResolutionEnabled_def ca_setLocalAddresses_def ca_setStaleRetentionMs_def
  ca_setStaleRetentionMsUdp_def ca_setUdpAggregateByPeer_def ca_setResolveIfaceAddrsAsLocalhost_def
  ca_setThroughputMaxMode_def ca_setRateSmoothingMs_def ca_setPollIntervalMs_def Let_def

lemma table_ok_frame [simp]:
  "table_ok toStr (a\<lparr>ca_hasResolver := b\<rparr>) = table_ok toStr a"
  "table_ok toStr (a\<lparr>ca_resolveEnabled := b\<rparr>) = table_ok toStr a"
  "table_ok toStr (a\<lparr>ca_localAddrs := s\<rparr>) = table_ok toStr a"
  "table_ok toStr (a\<lparr>ca_staleRetentionMs := n\<rparr>) = table_ok toStr a"
  "table_ok toStr (a\<lparr>ca_staleRetentionMsUdp := n\<rparr>) = table_ok toStr a"
  "table_ok toStr (a\<lparr>ca_udpAgg := u\<rparr>) = table_ok toStr a"
  "table_ok toStr (a\<lparr>ca_udpAggregateByPeer := b\<rparr>) = table_ok toStr a"
  "table_ok toStr (a\<lparr>ca_aliasIfaceAddrsAsLocalhost := b\<rparr>) = table_ok toStr a"
  "table_ok toStr (a\<lparr>ca_maxMode := m\<rparr>) = table_ok toStr a"
  "table_ok toStr (a\<lparr>ca_windowMs := n\<rparr>) = table_ok toStr a"
  "table_ok toStr (a\<lparr>ca_rateSmoothingMs := n\<rparr>) = table_ok toStr a"
  "table_ok toStr (a\<lparr>ca_pollIntervalMs := n\<rparr>) = table_ok toStr a"
  by (simp_all add: table_ok_def)

lemma agg_reachable_ok: "agg_reachable toStr a \<Longrightarrow> table_ok toStr a"
proof (induction rule: agg_reachable.induct)
  case (agg_start ports)
  then show ?case by (simp add: mk_ConnectionAggregator_def table_ok_def index_of_def keyed_by_def)
next
  case (agg_update a nowMs conns)
  then show ?case using update_table_ok [OF agg_update.IH surjective_pairing] by blast
next
  case (agg_patch a ps)
  then show ?case using patch_all_ok [of toStr "(False, a)" ps] by (simp add: ca_applyAttributionPatch_def case_prod_beta)
next
  case (agg_smooth a nowMs)
  then show ?case
    using table_ok_cong [OF agg_smooth.IH, of "snd (tween_rows nowMs 0 (ca_rows a) None)"]
    by (simp add: ca_advanceSmoothing_def Let_def case_prod_beta tween_rows_map o_def if_distrib cong: if_cong)
next
  case (agg_window a ms)
  let ?w = "if ms < 1000 then 1000 else ms"
  have "table_ok toStr (a\<lparr>ca_windowMs := ?w, ca_rows := map (trim_row cutoff) (ca_rows a)\<rparr>)" for cutoff
    using table_ok_cong [of toStr "a\<lparr>ca_windowMs := ?w\<rparr>" "map (trim_row cutoff) (ca_rows a)"] agg_window.IH by (simp add: o_def)
  then show ?case using agg_window.IH by (simp add: ca_setThroughputWindowMs_def Let_def)
qed (simp_all add: setter_defs)

section \<open>What a snapshot shows\<close>

lemma effective_shown:
  assumes "table_ok toStr a" and "ca_updateConnections toStr nowMs conns a = (out, a')"
    and "hfind (effective_flows toStr nowMs conns a) k = Some c"
  shows "\<exists>r \<in> set (ca_rows a'). cr_current r = c \<and> \<not> cr_stale r \<and> cr_lastSeenMs r = nowMs"
proof (cases "k \<in> row_key toStr ` set (surviving_rows toStr nowMs conns a)")
  case True
  then obtain r where r: "r \<in> set (surviving_rows toStr nowMs conns a)" "row_key toStr r = k" by blast
  have "cr_current r = c \<and> \<not> cr_stale r \<and> cr_lastSeenMs r = nowMs"
    using surviving_seen [OF r(1)] unfolding r(2) assms(3) by simp
  then show ?thesis using r(1) update_rows(1) [OF assms(1,2)] by auto
next
  case False
  then have "c \<in> set (arriving_flows toStr nowMs conns a)"
    unfolding arriving_flows_def using map_of_SomeD [OF assms(3)] by force
  then show ?thesis
    using update_rows(1) [OF assms(1,2)] by (auto intro: rev_bexI [of "new_row c nowMs"])
qed

lemma absent_is_stale:
  assumes "table_ok toStr a" and "ca_updateConnections toStr nowMs conns a = (out, a')"
    and "r \<in> set (ca_rows a')" and "hfind (effective_flows toStr nowMs conns a) (row_key toStr r) = None"
  shows "cr_stale r \<and> \<not> row_expired a nowMs r \<and>
    (\<exists>o' \<in> set (ca_rows a). cr_current o' = cr_current r \<and> cr_lastSeenMs o' = cr_lastSeenMs r)"
proof -
  have "r \<notin> set (map (\<lambda>c. new_row c nowMs) (arriving_flows toStr nowMs conns a))"
  proof
    assume "r \<in> set (map (\<lambda>c. new_row c nowMs) (arriving_flows toStr nowMs conns a))"
    then have "row_key toStr r \<in> set (map (conn_key toStr) (arriving_flows toStr nowMs conns a))"
      by (auto simp: new_row_def)
    then show False
      using assms(4) unfolding arriving_keys by (auto simp: map_of_eq_None_iff)
  qed
  then have "r \<in> set (surviving_rows toStr nowMs conns a)"
    using assms(3) update_rows(1) [OF assms(1,2)] by auto
  from surviving_seen [OF this] show ?thesis unfolding assms(4) option.case .
qed


definition sample_tcp :: Connection where
  "sample_tcp = no_connection\<lparr>c_proto := Tcp, c_direction := Outbound,
     c_local := \<lparr>ep_address = HostV4 16909060, ep_port = 40000\<rparr>, c_remote := \<lparr>ep_address = HostV4 84281096, ep_port = 443\<rparr>,
     c_rxBytes := 500\<rparr>"

definition sample_table :: ConnectionAggregator where
  "sample_table = snd (ca_updateConnections plain_addr 1000 [sample_tcp] (mk_ConnectionAggregator (32768, 60999)))"

lemma sample_table_reachable: "agg_reachable plain_addr sample_table"
  unfolding sample_table_def by (rule agg_update [OF agg_start])

lemma sample_effective: "effective_flows plain_addr 1000 [sample_tcp] (mk_ConnectionAggregator (32768, 60999)) =
    [(conn_key plain_addr sample_tcp, sample_tcp)]"
  by (simp add: effective_flows_def index_incoming_def udp_aggregate_def infer_directions_def sample_tcp_def
    mk_ConnectionAggregator_def udp_fold_def no_connection_def)


text \<open>C9: the granular signals are a complete account of the table. A view that knows the rows only as the
  signals of an update describe them, and that rejects an insertion anywhere but at the end, a removal or an
  update outside its rows, and any signal inside an unfinished insertion or removal, accepts the whole stream
  and ends with exactly the rows of the new table in their order; and the updated ranges name exactly
  the rows that were refreshed or turned stale.\<close>

theorem signals_reproduce_table:
  assumes "agg_reachable toStr a" and "ca_updateConnections toStr nowMs conns a = (out, a')"
  shows "replay (map (row_key toStr) (ca_rows a')) out (map (row_key toStr) (ca_rows a), False) =
      Some (map (row_key toStr) (ca_rows a'), False) \<and>
    covered out = {i. i < length (ca_rows a) \<and> touched toStr (effective_flows toStr nowMs conns a) (ca_rows a ! i)}"
proof -
  note ok = agg_reachable_ok [OF assms(1)]
  let ?inc = "effective_flows toStr nowMs conns a" and ?k = "row_key toStr"
  let ?seen = "map (seen_or_stale toStr a (mk_tick nowMs a) ?inc) (ca_rows a)"
  let ?upd = "fst (refresh_rows toStr a (mk_tick nowMs a) ?inc 0 (ca_rows a) None)"
  let ?del = "prune_rows (row_expired a nowMs) (length (ca_rows a)) ?seen"
  obtain asks where asks: "\<forall>s \<in> set asks. \<exists>h. s = ResolveRequest h"
    and out: "out = ?upd @ fst ?del @
      insert_signals (length (surviving_rows toStr nowMs conns a)) (length (arriving_flows toStr nowMs conns a)) asks"
    using update_rows(4) [OF ok assms(2)] by blast
  have key: "map ?k ?seen = map ?k (ca_rows a)"
    by (simp add: seen_or_stale_key effective_flows_def index_incoming_keyed)
  have upd: "updates_within (length (ca_rows a)) ?upd"
    "covered ?upd = {i. i < length (ca_rows a) \<and> touched toStr ?inc (ca_rows a ! i)}"
    using refresh_signals [of 0 None "ca_rows a" toStr a "mk_tick nowMs a" ?inc] by (auto simp: run_ok_def run_rows_def)
  have del: "snd ?del = surviving_rows toStr nowMs conns a"
    using prune_all [of "row_expired a nowMs" ?seen] by (simp add: surviving_rows_def)
  have step: "replay tab out (map ?k (ca_rows a), False) = replay tab
      (insert_signals (length (surviving_rows toStr nowMs conns a)) (length (arriving_flows toStr nowMs conns a)) asks)
      (map ?k (surviving_rows toStr nowMs conns a), False)" for tab
    unfolding out replay_append [of _ ?upd] replay_updates [OF upd(1) [folded length_map [of ?k "ca_rows a"]]]
    using prune_replay [of "length (ca_rows a)" ?seen tab "row_expired a nowMs" _ ?k] unfolding key del by simp
  have "replay (map ?k (ca_rows a')) out (map ?k (ca_rows a), False) = Some (map ?k (ca_rows a'), False)"
    using insert_replay [OF asks, of "map ?k (surviving_rows toStr nowMs conns a)" "map (conn_key toStr) (arriving_flows toStr nowMs conns a)"]
    unfolding step by (simp add: update_rows(1) [OF ok assms(2)] o_def)
  then show ?thesis
    using upd(2) by (simp add: out prune_covers insert_covers [OF asks])
qed

theorem signals_reproduce_table_witness:
  "replay (map (row_key plain_addr) (ca_rows (snd (ca_updateConnections plain_addr 2000 [] sample_table))))
     (fst (ca_updateConnections plain_addr 2000 [] sample_table)) (map (row_key plain_addr) (ca_rows sample_table), False) =
   Some (map (row_key plain_addr) (ca_rows (snd (ca_updateConnections plain_addr 2000 [] sample_table))), False)"
  using signals_reproduce_table [OF sample_table_reachable surjective_pairing] by blast

section \<open>Peer totals of UDP\<close>

text \<open>A byte counter of an aggregate: a base, a part in every member, and a counter of the flow that feeds it.
  The laws are what the totals rest on: retiring a member moves its part to the base, and a counter
  that falls retires the member first.\<close>

locale udp_counter =
  fixes base :: "UdpAggState \<Rightarrow> quint64"
    and part :: "UdpAggMember \<Rightarrow> quint64"
    and cnt :: "Connection \<Rightarrow> quint64"
  assumes base_retire: "base (udp_retire m st) = base st + part m"
    and base_members: "base (st\<lparr>ua_members := ms\<rparr>) = base st"
    and base_seen: "base (st\<lparr>ua_lastSeenMs := n\<rparr>) = base st"
    and part_member: "part \<lparr>um_rxBytes = c_rxBytes c, um_txBytes = c_txBytes c, um_rxPackets = c_rxPackets c,
      um_txPackets = c_txPackets c, um_lastSeenMs = n\<rparr> = cnt c"
    and part_none: "part no_member = 0"
    and fall_resets: "cnt c < part m \<Longrightarrow> c_rxBytes c < um_rxBytes m \<or> c_txBytes c < um_txBytes m"
begin

definition parts :: "(string, UdpAggMember) qhash \<Rightarrow> nat" where
  "parts ms = sum_list (map (\<lambda>e. unat (part (snd e))) ms)"

definition exact :: "UdpAggState \<Rightarrow> nat" where
  "exact st = unat (base st) + parts (ua_members st)"

lemma parts_insert:
  "parts (hinsert k m ms) + (case hfind ms k of None \<Rightarrow> 0 | Some o' \<Rightarrow> unat (part o')) = parts ms + unat (part m)"
  by (induction ms) (auto simp: parts_def split: option.splits)

lemma parts_split: "parts (filter P ms) + parts (filter (\<lambda>e. \<not> P e) ms) = parts ms"
  by (induction ms) (auto simp: parts_def)

lemma total_word: "udp_total base part st = of_nat (exact st)"
proof -
  have "fold (\<lambda>(_, m) acc. acc + part m) ms b = b + of_nat (parts ms)" for ms b
    by (induction ms arbitrary: b) (auto simp: parts_def)
  then show ?thesis by (simp add: udp_total_def exact_def)
qed

lemma total_exact: "exact st < 2 ^ 64 \<Longrightarrow> unat (udp_total base part st) = exact st"
  by (simp add: total_word unat_of_nat)

lemma add_exact: "unat a + unat b < 2 ^ 64 \<Longrightarrow> unat (a + b :: quint64) = unat a + unat b"
  by (simp add: unat_word_ariths)

lemma observe_exact:
  assumes "exact st < 2 ^ 64"
  shows "exact st \<le> exact (udp_observe k c now st) \<and> exact (udp_observe k c now st) \<le> exact st + unat (cnt c)"
proof -
  define m where "m = (case hfind (ua_members st) k of Some m \<Rightarrow> m | None \<Rightarrow> no_member)"
  define new where "new = \<lparr>um_rxBytes = c_rxBytes c, um_txBytes = c_txBytes c, um_rxPackets = c_rxPackets c,
      um_txPackets = c_txPackets c, um_lastSeenMs = now\<rparr>"
  define reset where "reset = (c_rxBytes c < um_rxBytes m \<or> c_txBytes c < um_txBytes m)"
  have ms: "parts (hinsert k new (ua_members st)) + unat (part m) = parts (ua_members st) + unat (cnt c)"
    using parts_insert [of k new "ua_members st"] part_none part_member [of c now] by (simp add: m_def new_def split: option.splits)
  have m_le: "unat (part m) \<le> parts (ua_members st)"
  proof (cases "hfind (ua_members st) k")
    case (Some o')
    then show ?thesis
      using member_le_sum_list [of "unat (part o')" "map (\<lambda>e. unat (part (snd e))) (ua_members st)"]
      by (force simp: m_def parts_def dest: map_of_SomeD)
  qed (simp add: m_def part_none)
  have obs: "udp_observe k c now st = (if reset then udp_retire m (st\<lparr>ua_lastSeenMs := now\<rparr>) else st\<lparr>ua_lastSeenMs := now\<rparr>)
      \<lparr>ua_members := hinsert k new (ua_members st)\<rparr>"
    by (simp add: udp_observe_def udp_retire_def Let_def m_def new_def reset_def)
  have b: "unat (base st + part m) = unat (base st) + unat (part m)"
    using assms m_le by (intro add_exact) (simp add: exact_def)
  show ?thesis
  proof (cases reset)
    case True
    then show ?thesis
      using ms b by (simp add: obs exact_def base_members base_retire base_seen)
  next
    case False
    then have "part m \<le> cnt c" using fall_resets unfolding reset_def by (meson linorder_not_less)
    then have "unat (part m) \<le> unat (cnt c)" by (simp add: word_le_nat_alt)
    then show ?thesis
      using False ms by (simp add: obs exact_def base_members base_retire base_seen)
  qed
qed

lemma retire_all:
  "unat (base st) + parts old < 2 ^ 64 \<Longrightarrow> unat (base (fold (\<lambda>(_, m). udp_retire m) old st)) = unat (base st) + parts old"
proof (induction old arbitrary: st)
  case (Cons e old)
  have b: "unat (base (udp_retire (snd e) st)) = unat (base st) + unat (part (snd e))"
    unfolding base_retire using Cons.prems by (intro add_exact) (simp add: parts_def)
  show ?case
    using Cons.IH [of "udp_retire (snd e) st"] Cons.prems by (simp add: b parts_def case_prod_beta)
qed (simp add: parts_def)

lemma expire_exact:
  assumes "exact st < 2 ^ 64"
  shows "exact (udp_expire_members now retention st) = exact st"
proof -
  let ?P = "\<lambda>(_, m). retention < now - um_lastSeenMs m"
  have s: "parts (filter ?P (ua_members st)) + parts (filter (\<lambda>(_, m). \<not> retention < now - um_lastSeenMs m) (ua_members st))
      = parts (ua_members st)"
    using parts_split [of ?P "ua_members st"] by (simp add: case_prod_unfold)
  have "unat (base (fold (\<lambda>(_, m). udp_retire m) (filter ?P (ua_members st)) st)) = unat (base st) + parts (filter ?P (ua_members st))"
    using assms s by (intro retire_all) (simp add: exact_def)
  then show ?thesis
    using s by (simp add: udp_expire_members_def exact_def base_members Let_def)
qed

lemma fold_exact:
  assumes "hfind (up_udpAgg x) k = Some st" and "exact st + sum_list (map (\<lambda>c. unat (cnt c)) cs) < 2 ^ 64"
  shows "\<exists>st'. hfind (up_udpAgg (fold (udp_fold toStr now) cs x)) k = Some st' \<and> exact st \<le> exact st' \<and>
    exact st' \<le> exact st + sum_list (map (\<lambda>c. unat (cnt c)) cs)"
  using assms
proof (induction cs arbitrary: x st)
  case (Cons c cs)
  have "\<exists>st1. hfind (up_udpAgg (udp_fold toStr now c x)) k = Some st1 \<and> exact st \<le> exact st1 \<and> exact st1 \<le> exact st + unat (cnt c)"
    using observe_exact [of st "conn_key toStr c" c now] Cons.prems
    by (cases "k = conn_key toStr (udp_row c)") (simp_all add: udp_fold_def Let_def update_conv')
  then obtain st1 where st1: "hfind (up_udpAgg (udp_fold toStr now c x)) k = Some st1" "exact st \<le> exact st1" "exact st1 \<le> exact st + unat (cnt c)"
    by blast
  then show ?case
    using Cons.IH [OF st1(1)] Cons.prems(2) by force
qed simp

end

interpretation udp_rx: udp_counter ua_rxBase um_rxBytes c_rxBytes
  by unfold_locales (simp_all add: udp_retire_def no_member_def)

interpretation udp_tx: udp_counter ua_txBase um_txBytes c_txBytes
  by unfold_locales (simp_all add: udp_retire_def no_member_def)

lemma udp_fold_wf: "hwf (up_udpAgg x) \<Longrightarrow> hwf (up_udpAgg (fold (udp_fold toStr now) cs x))"
  by (induction cs arbitrary: x) (simp_all add: udp_fold_def Let_def)

lemma udp_expire_wf: "hwf tab \<Longrightarrow> hwf (udp_expire now retention tab)"
  using hwf_filter [of tab "\<lambda>(_, st). \<not> retention < now - ua_lastSeenMs st"]
  by (simp add: udp_expire_def hwf_def case_prod_unfold o_def)

lemma udp_expire_find:
  assumes "hwf tab" and "hfind (udp_expire now retention tab) k = Some st'"
  shows "\<exists>st. hfind tab k = Some st \<and> st' = udp_expire_members now retention st"
  using assms unfolding udp_expire_def by (auto simp: map_of_map hwf_filter_find split: option.splits if_splits)

lemma append_rows_udp: "ca_udpAgg (snd (append_rows toStr now inc a)) = ca_udpAgg a"
  by (simp add: append_rows_def Let_def)

lemma infer_directions_now: "infer_directions (a\<lparr>ca_lastElapsedMs := now\<rparr>) = infer_directions a"
  by (simp add: infer_directions_def fun_eq_iff)

lemma update_udpAgg:
  assumes "ca_updateConnections toStr now conns a = (out, a')"
  shows "ca_udpAgg a' = (if ca_udpAggregateByPeer a
    then udp_expire now (ca_staleRetentionMsUdp a) (up_udpAgg (fold (udp_fold toStr now) (infer_directions a conns)
      \<lparr>up_agg = [], up_passthrough = [], up_udpAgg = ca_udpAgg a\<rparr>)) else [])"
proof -
  have "ca_udpAgg a' = ca_udpAgg (snd (udp_aggregate toStr now (infer_directions a conns) (a\<lparr>ca_lastElapsedMs := now\<rparr>)))"
    using arg_cong [OF assms, of "\<lambda>x. ca_udpAgg (snd x)"]
    by (simp add: ca_updateConnections_def Let_def case_prod_beta append_rows_udp infer_directions_now)
  then show ?thesis by (simp add: udp_aggregate_def Let_def)
qed

lemma agg_reachable_udp: "agg_reachable toStr a \<Longrightarrow> hwf (ca_udpAgg a)"
proof (induction rule: agg_reachable.induct)
  case (agg_update a nowMs conns)
  then show ?case
    unfolding update_udpAgg [OF surjective_pairing] by (simp add: udp_expire_wf udp_fold_wf)
next
  case (agg_patch a ps)
  have "ca_udpAgg (snd (fold (patch_one toStr) ps x)) = ca_udpAgg (snd x)" for x
    by (induction ps arbitrary: x) (simp_all add: patch_one_def Let_def case_prod_beta split: option.split)
  then show ?case using agg_patch by (simp add: ca_applyAttributionPatch_def case_prod_beta)
next
  case (agg_smooth a nowMs)
  then show ?case by (simp add: ca_advanceSmoothing_def Let_def case_prod_beta)
next
  case (agg_window a ms)
  then show ?case by (simp add: ca_setThroughputWindowMs_def Let_def)
qed (simp_all add: setter_defs mk_ConnectionAggregator_def)

text \<open>C36: while a peer's UDP aggregate exists its displayed received and sent byte totals never fall from
  one snapshot to the next, whatever the member flows do: a member that restarts its counters, disappears,
  expires or comes back only moves bytes between the members and the base. The hypotheses only say that the
  totals stay below the 64-bit wrap-around.\<close>

theorem udp_peer_total_never_falls:
  assumes "agg_reachable toStr a" and "ca_updateConnections toStr nowMs conns a = (out, a')"
    and "hfind (ca_udpAgg a) k = Some st" and "hfind (ca_udpAgg a') k = Some st'"
    and "udp_rx.exact st + sum_list (map (\<lambda>c. unat (c_rxBytes c)) conns) < 2 ^ 64"
    and "udp_tx.exact st + sum_list (map (\<lambda>c. unat (c_txBytes c)) conns) < 2 ^ 64"
  shows "c_rxBytes (udp_counters st c) \<le> c_rxBytes (udp_counters st' c) \<and>
    c_txBytes (udp_counters st c) \<le> c_txBytes (udp_counters st' c)"
proof -
  let ?x = "\<lparr>up_agg = [], up_passthrough = [], up_udpAgg = ca_udpAgg a\<rparr>" and ?cs = "infer_directions a conns"
  have on: "ca_udpAggregateByPeer a" using assms(4) unfolding update_udpAgg [OF assms(2)] by (auto split: if_splits)
  have x: "hfind (up_udpAgg ?x) k = Some st" using assms(3) by simp
  have wf: "hwf (up_udpAgg (fold (udp_fold toStr nowMs) ?cs ?x))"
    using agg_reachable_udp [OF assms(1)] by (simp add: udp_fold_wf)
  have sums: "sum_list (map (\<lambda>c. unat (c_rxBytes c)) ?cs) = sum_list (map (\<lambda>c. unat (c_rxBytes c)) conns)"
    "sum_list (map (\<lambda>c. unat (c_txBytes c)) ?cs) = sum_list (map (\<lambda>c. unat (c_txBytes c)) conns)"
    by (auto simp: infer_directions_def o_def intro!: arg_cong [where f = sum_list])
  obtain mid where mid: "hfind (up_udpAgg (fold (udp_fold toStr nowMs) ?cs ?x)) k = Some mid"
    and st': "st' = udp_expire_members nowMs (ca_staleRetentionMsUdp a) mid"
    using udp_expire_find [OF wf, of nowMs "ca_staleRetentionMsUdp a" k st'] assms(4) on
    unfolding update_udpAgg [OF assms(2)] by auto
  have rx: "udp_rx.exact st \<le> udp_rx.exact mid" "udp_rx.exact mid < 2 ^ 64"
    using udp_rx.fold_exact [OF x, of ?cs toStr nowMs] assms(5) mid unfolding sums by auto
  have tx: "udp_tx.exact st \<le> udp_tx.exact mid" "udp_tx.exact mid < 2 ^ 64"
    using udp_tx.fold_exact [OF x, of ?cs toStr nowMs] assms(6) mid unfolding sums by auto
  show ?thesis
    using rx tx by (simp add: udp_counters_def word_le_nat_alt udp_rx.total_exact udp_tx.total_exact
      udp_rx.expire_exact udp_tx.expire_exact st')
qed

definition sample_udp :: "quint64 \<Rightarrow> Connection" where
  "sample_udp n = no_connection\<lparr>c_proto := Udp, c_direction := Outbound,
     c_local := \<lparr>ep_address = HostV4 16909060, ep_port = 40000\<rparr>, c_remote := \<lparr>ep_address = HostV4 84281096, ep_port = 53\<rparr>,
     c_rxBytes := n\<rparr>"

definition sample_udp_table :: ConnectionAggregator where
  "sample_udp_table = snd (ca_updateConnections plain_addr 1000 [sample_udp 500] (mk_ConnectionAggregator (32768, 60999)))"

definition sample_peer :: "int \<Rightarrow> quint64 \<Rightarrow> quint64 \<Rightarrow> UdpAggState" where
  "sample_peer now rxBase n = no_aggregate\<lparr>ua_rxBase := rxBase, ua_members := [(conn_key plain_addr (sample_udp 0),
     no_member\<lparr>um_rxBytes := n, um_lastSeenMs := now\<rparr>)], ua_lastSeenMs := now\<rparr>"

lemma sample_udp_keys: "conn_key plain_addr (sample_udp n) = conn_key plain_addr (sample_udp 0)"
  "conn_key plain_addr (udp_row (sample_udp n)) = conn_key plain_addr (udp_row (sample_udp 0))"
  by (simp_all add: sample_udp_def udp_row_def conn_key_def)

lemma sample_udp_sel: "c_direction (sample_udp n) = Outbound" "c_proto (sample_udp n) = Udp" "c_rxBytes (sample_udp n) = n"
  "c_txBytes (sample_udp n) = 0" "c_rxPackets (sample_udp n) = 0" "c_txPackets (sample_udp n) = 0"
  by (simp_all add: sample_udp_def no_connection_def)

lemma sample_udp_infer: "infer_directions a [sample_udp n] = [sample_udp n]"
  by (simp add: infer_directions_def sample_udp_sel)

lemma sample_udp_first: "ca_udpAgg sample_udp_table = [(conn_key plain_addr (udp_row (sample_udp 0)), sample_peer 1000 0 500)]"
  unfolding sample_udp_table_def update_udpAgg [OF surjective_pairing] sample_udp_infer
  by (simp add: mk_ConnectionAggregator_def udp_fold_def sample_udp_sel sample_udp_keys [of 500] udp_observe_def udp_expire_def
    udp_expire_members_def no_aggregate_def no_member_def sample_peer_def Let_def)

lemma update_keeps_settings:
  "ca_udpAggregateByPeer (snd (ca_updateConnections toStr now conns a)) = ca_udpAggregateByPeer a"
  "ca_staleRetentionMsUdp (snd (ca_updateConnections toStr now conns a)) = ca_staleRetentionMsUdp a"
proof -
  have "ca_udpAggregateByPeer (snd (append_rows toStr now inc b)) = ca_udpAggregateByPeer b"
    "ca_staleRetentionMsUdp (snd (append_rows toStr now inc b)) = ca_staleRetentionMsUdp b"
    "ca_udpAggregateByPeer (snd (udp_aggregate toStr now cs b)) = ca_udpAggregateByPeer b" for inc b cs
    by (simp_all add: append_rows_def udp_aggregate_def Let_def)
  then show "ca_udpAggregateByPeer (snd (ca_updateConnections toStr now conns a)) = ca_udpAggregateByPeer a"
    "ca_staleRetentionMsUdp (snd (ca_updateConnections toStr now conns a)) = ca_staleRetentionMsUdp a"
    by (simp_all add: ca_updateConnections_def Let_def case_prod_beta udp_aggregate_frame)
qed

lemma sample_udp_flags: "ca_udpAggregateByPeer sample_udp_table" "ca_staleRetentionMsUdp sample_udp_table = 60000"
  unfolding sample_udp_table_def update_keeps_settings by (simp_all add: mk_ConnectionAggregator_def)

lemma sample_observe:
  "udp_observe (conn_key plain_addr (sample_udp 0)) (sample_udp 100) 2000 (sample_peer 1000 0 500) = sample_peer 2000 500 100"
  by (simp add: udp_observe_def sample_peer_def sample_udp_sel no_aggregate_def no_member_def)

lemma sample_keep: "udp_expire_members 2000 60000 (sample_peer 2000 500 100) = sample_peer 2000 500 100"
  by (simp add: udp_expire_members_def sample_peer_def no_aggregate_def no_member_def)

lemma sample_udp_second: "ca_udpAgg (snd (ca_updateConnections plain_addr 2000 [sample_udp 100] sample_udp_table)) =
   [(conn_key plain_addr (udp_row (sample_udp 0)), sample_peer 2000 500 100)]"
proof -
  have "ua_lastSeenMs (sample_peer 2000 500 100) = 2000" by (simp add: sample_peer_def)
  then show ?thesis
    unfolding update_udpAgg [OF surjective_pairing] sample_udp_infer sample_udp_first
    by (simp add: sample_udp_flags Let_def udp_fold_def sample_udp_sel sample_udp_keys [of 100] sample_observe udp_expire_def sample_keep)
qed

theorem udp_peer_total_never_falls_witness:
  "c_rxBytes (udp_counters (sample_peer 1000 0 500) (sample_udp 0)) = 500 \<and>
   c_rxBytes (udp_counters (sample_peer 1000 0 500) (sample_udp 0)) \<le> c_rxBytes (udp_counters (sample_peer 2000 500 100) (sample_udp 0))"
proof -
  have r: "agg_reachable plain_addr sample_udp_table"
    unfolding sample_udp_table_def by (rule agg_update [OF agg_start])
  have "c_rxBytes (udp_counters (sample_peer 1000 0 500) (sample_udp 0)) = 500"
    by (simp add: udp_counters_def udp_total_def sample_peer_def no_aggregate_def no_member_def)
  moreover have "udp_rx.exact (sample_peer 1000 0 500) = 500" "udp_tx.exact (sample_peer 1000 0 500) = 0"
    by (simp_all add: udp_rx.exact_def udp_tx.exact_def udp_rx.parts_def udp_tx.parts_def sample_peer_def no_aggregate_def no_member_def)
  moreover have "hfind (ca_udpAgg sample_udp_table) (conn_key plain_addr (udp_row (sample_udp 0))) = Some (sample_peer 1000 0 500)"
    "hfind (ca_udpAgg (snd (ca_updateConnections plain_addr 2000 [sample_udp 100] sample_udp_table)))
      (conn_key plain_addr (udp_row (sample_udp 0))) = Some (sample_peer 2000 500 100)"
    by (simp_all add: sample_udp_first sample_udp_second)
  ultimately show ?thesis
    using udp_peer_total_never_falls [OF r surjective_pairing, of _ "sample_peer 1000 0 500" 2000 "[sample_udp 100]"
      "sample_peer 2000 500 100" "sample_udp 0"] by (simp add: sample_udp_sel)
qed

section \<open>The displayed rate\<close>

lemma tween_between:
  assumes "0 < durMs" and "startMs < nowMs"
  shows "min animFrom target \<le> fst (tween nowMs disp animFrom startMs durMs target) \<and>
    fst (tween nowMs disp animFrom startMs durMs target) \<le> max animFrom target"
proof -
  define t where "t = real_of_int (nowMs - startMs) / real_of_int durMs"
  have pos: "0 < t" using assms by (simp add: t_def)
  show ?thesis
  proof (cases "1 \<le> t")
    case True
    then show ?thesis using assms(1) unfolding tween_def Let_def t_def [symmetric] by simp
  next
    case False
    define e where "e = easeOutCubic t"
    have e: "0 \<le> e" "e \<le> 1" using easeOutCubic_bounds [of t] pos False by (simp_all add: e_def)
    have v: "fst (tween nowMs disp animFrom startMs durMs target) = (1 - e) * animFrom + e * target"
      using assms(1) pos False unfolding tween_def Let_def t_def [symmetric] e_def [symmetric] by (simp add: algebra_simps)
    have "(1 - e) * min animFrom target + e * min animFrom target \<le> (1 - e) * animFrom + e * target"
      "(1 - e) * animFrom + e * target \<le> (1 - e) * max animFrom target + e * max animFrom target"
      using e by (intro add_mono mult_left_mono; simp)+
    then show ?thesis unfolding v by (simp add: algebra_simps)
  qed
qed

lemma tween_arrives: "0 < durMs \<Longrightarrow> startMs + durMs \<le> nowMs \<Longrightarrow> fst (tween nowMs disp animFrom startMs durMs target) = target"
  by (simp add: tween_def Let_def)

text \<open>The animation never overshoots. When \<open>advanceSmoothing\<close> runs while a row's tween is under way, the
  displayed receive rate lies between the value the tween left from and its target, and it is the target once
  the tween's duration has passed; a stale row is not touched.\<close>

theorem smoothing_stays_between:
  assumes "ca_advanceSmoothing nowMs a = (out, a')" and "0 < ca_rateSmoothingMs a" and "i < length (ca_rows a)"
    and "r = ca_rows a ! i" and "0 < cr_rxAnimDurMs r" and "cr_rxAnimStartMs r < nowMs"
  shows "if cr_stale r then ca_rows a' ! i = r
    else min (cr_rxAnimFrom r) (cr_rxTarget r) \<le> cr_rxRate (ca_rows a' ! i) \<and>
      cr_rxRate (ca_rows a' ! i) \<le> max (cr_rxAnimFrom r) (cr_rxTarget r) \<and>
      (cr_rxAnimStartMs r + cr_rxAnimDurMs r \<le> nowMs \<longrightarrow> cr_rxRate (ca_rows a' ! i) = cr_rxTarget r)"
proof -
  have "ca_rows a' = snd (tween_rows nowMs 0 (ca_rows a) None)"
    using assms(1-3) by (auto simp: ca_advanceSmoothing_def Let_def case_prod_beta split: if_splits)
  then have "ca_rows a' ! i = (if cr_stale r then r else fst (tween_row nowMs r))"
    using assms(3,4) by (simp add: tween_rows_map)
  moreover have "cr_rxRate (fst (tween_row nowMs r)) =
      fst (tween nowMs (cr_rxRate r) (cr_rxAnimFrom r) (cr_rxAnimStartMs r) (cr_rxAnimDurMs r) (cr_rxTarget r))"
    by (simp add: tween_row_def Let_def case_prod_beta)
  ultimately show ?thesis
    using tween_between [OF assms(5,6)] tween_arrives [OF assms(5)] by simp
qed

theorem smoothing_stays_between_witness:
  "cr_rxRate (ca_rows (snd (ca_advanceSmoothing 2000 ((mk_ConnectionAggregator (32768, 60999))\<lparr>ca_rateSmoothingMs := 500,
     ca_rows := [(new_row sample_tcp 0)\<lparr>cr_rxTarget := 80, cr_rxAnimDurMs := 1000, cr_rxAnimStartMs := 500\<rparr>]\<rparr>))) ! 0) = 80"
  using smoothing_stays_between [OF surjective_pairing _ _ refl, where i = 0 and nowMs = 2000
    and a = "(mk_ConnectionAggregator (32768, 60999))\<lparr>ca_rateSmoothingMs := 500,
     ca_rows := [(new_row sample_tcp 0)\<lparr>cr_rxTarget := 80, cr_rxAnimDurMs := 1000, cr_rxAnimStartMs := 500\<rparr>]\<rparr>"] by simp

end
