(* ===== verification/InterfaceAggregator.thy ===== *)
theory InterfaceAggregator
  imports Aggregator "HOL-Library.Char_ord" "HOL-Library.List_Lexorder"
begin

text \<open>
  \<open>aggregate/InterfaceAggregator.cpp\<close>: per-interface rates. Rows are kept in the order of the interface names;
  a change of the set of names is announced as a reset, anything else as one update of all rows.
  \<open>QString\<close> compares by code unit, which on the model's strings is the lexicographic order of the library.
\<close>

section \<open>Model\<close>

record IfaceRow =
  ir_current :: InterfaceStats
  ir_rxRate :: real
  ir_txRate :: real

record InterfaceAggregator =
  ia_rows :: "IfaceRow list"
  ia_prev :: "(string, InterfaceStats) qhash"
  ia_lastElapsedMs :: int

definition mk_InterfaceAggregator :: InterfaceAggregator where
  "mk_InterfaceAggregator = \<lparr>ia_rows = [], ia_prev = [], ia_lastElapsedMs = 0\<rparr>"

datatype iface_signal = AboutToReset | DidReset | RowsChanged nat nat

text \<open>The two assignments of the rates; the row keeps its rates when there is no previous sample.\<close>

definition iface_rates :: "(string, InterfaceStats) qhash \<Rightarrow> real \<Rightarrow> InterfaceStats \<Rightarrow> IfaceRow \<Rightarrow> IfaceRow" where
  "iface_rates prev deltaSecs s row =
     (case hfind prev (if_name s) of
        None \<Rightarrow> row
      | Some p \<Rightarrow> row\<lparr>ir_rxRate := byte_rate (if_rxBytes s) (if_rxBytes p) deltaSecs,
                     ir_txRate := byte_rate (if_txBytes s) (if_txBytes p) deltaSecs\<rparr>)"

definition structureChanged :: "InterfaceStats list \<Rightarrow> IfaceRow list \<Rightarrow> bool" where
  "structureChanged stats rows =
     (length stats \<noteq> length rows \<or> list_ex (\<lambda>(s, r). if_name s \<noteq> if_name (ir_current r)) (zip stats rows))"

definition ia_updateStats :: "int \<Rightarrow> InterfaceStats list \<Rightarrow> InterfaceAggregator \<Rightarrow> iface_signal list \<times> InterfaceAggregator" where
  "ia_updateStats nowMs stats a =
     (let deltaMs = nowMs - ia_lastElapsedMs a;
          a = a\<lparr>ia_lastElapsedMs := nowMs\<rparr>;
          deltaSecs = (if 0 < deltaMs then real_of_int deltaMs / 1000 else 1);
          stats = sort_key if_name stats;
          prev = fold (\<lambda>s. hinsert (if_name s) s) stats []
      in if structureChanged stats (ia_rows a)
         then ([AboutToReset, DidReset],
               a\<lparr>ia_rows := map (\<lambda>s. iface_rates (ia_prev a) deltaSecs s \<lparr>ir_current = s, ir_rxRate = 0, ir_txRate = 0\<rparr>) stats,
                 ia_prev := prev\<rparr>)
         else (if ia_rows a = [] then [] else [RowsChanged 0 (length (ia_rows a) - 1)],
               a\<lparr>ia_rows := map (\<lambda>(s, row). (iface_rates (ia_prev a) deltaSecs s row)\<lparr>ir_current := s\<rparr>) (zip stats (ia_rows a)),
                 ia_prev := prev\<rparr>))"

section \<open>Every poll\<close>

text \<open>The last polled sample of a name, as \<open>m_prev\<close> keeps it.\<close>

definition prev_of :: "InterfaceStats list \<Rightarrow> (string, InterfaceStats) qhash" where
  "prev_of stats = fold (\<lambda>s. hinsert (if_name s) s) stats []"

lemma prev_of_dom: "hcontains (prev_of stats) n \<longleftrightarrow> n \<in> if_name ` set stats"
proof (induction stats rule: rev_induct)
  case (snoc s stats)
  then show ?case by (auto simp: prev_of_def update_conv')
qed (simp add: prev_of_def)

inductive ia_reachable :: "InterfaceAggregator \<Rightarrow> bool" where
  ia_start: "ia_reachable mk_InterfaceAggregator"
| ia_poll: "ia_reachable a \<Longrightarrow> ia_reachable (snd (ia_updateStats nowMs stats a))"

definition ia_ok :: "InterfaceAggregator \<Rightarrow> bool" where
  "ia_ok a = (\<forall>n. hcontains (ia_prev a) n \<longleftrightarrow> n \<in> (\<lambda>r. if_name (ir_current r)) ` set (ia_rows a))"

lemma structureChanged_rec:
  "structureChanged [] [] = False" "structureChanged (s # stats) [] = True" "structureChanged [] (r # rows) = True"
  "structureChanged (s # stats) (r # rows) = (if_name s \<noteq> if_name (ir_current r) \<or> structureChanged stats rows)"
  by (auto simp: structureChanged_def)

lemma structureChanged_iff: "structureChanged stats rows \<longleftrightarrow> map if_name stats \<noteq> map (\<lambda>r. if_name (ir_current r)) rows"
proof (induction stats arbitrary: rows)
  case (Cons s stats)
  then show ?case by (cases rows) (simp_all add: structureChanged_rec)
next
  case Nil
  show ?case by (cases rows) (simp_all add: structureChanged_rec)
qed

lemma structure_kept:
  assumes "\<not> structureChanged stats rows"
  shows "length stats = length rows" and "map if_name stats = map (\<lambda>r. if_name (ir_current r)) rows"
  using assms map_eq_imp_length_eq [of if_name stats "\<lambda>r. if_name (ir_current r)" rows] unfolding structureChanged_iff by blast+

lemma updateStats_sel:
  assumes "ia_updateStats nowMs stats a = (out, a')"
  shows "map ir_current (ia_rows a') = sort_key if_name stats"
    and "ia_prev a' = prev_of (sort_key if_name stats)"
proof -
  have c: "ir_current (iface_rates prev d s row) = ir_current row" for prev d s row
    by (simp add: iface_rates_def split: option.split)
  show "map ir_current (ia_rows a') = sort_key if_name stats"
    using assms structure_kept(1) [of "sort_key if_name stats" "ia_rows a"]
    by (auto simp: ia_updateStats_def Let_def c o_def case_prod_beta split: if_splits)
  show "ia_prev a' = prev_of (sort_key if_name stats)"
    using assms by (auto simp: ia_updateStats_def Let_def prev_of_def split: if_splits)
qed

lemma updateStats_out:
  assumes "ia_updateStats nowMs stats a = (out, a')"
  shows "out = (if structureChanged (sort_key if_name stats) (ia_rows a) then [AboutToReset, DidReset]
    else if ia_rows a = [] then [] else [RowsChanged 0 (length (ia_rows a) - 1)])"
proof -
  have "out = fst (ia_updateStats nowMs stats a)" by (simp add: assms)
  then show ?thesis by (simp add: ia_updateStats_def Let_def)
qed

lemma ia_reachable_ok: "ia_reachable a \<Longrightarrow> ia_ok a"
proof (induction rule: ia_reachable.induct)
  case ia_start
  show ?case by (simp add: ia_ok_def mk_InterfaceAggregator_def)
next
  case (ia_poll a nowMs stats)
  note u = updateStats_sel [OF surjective_pairing, of nowMs stats a]
  have "(\<lambda>r. if_name (ir_current r)) ` set (ia_rows (snd (ia_updateStats nowMs stats a))) =
      if_name ` set (map ir_current (ia_rows (snd (ia_updateStats nowMs stats a))))"
    by (simp add: image_image)
  then show ?case
    unfolding ia_ok_def u prev_of_dom by simp
qed

text \<open>The rates of a sample: byte deltas over the time since the last poll, none for a name not seen then.\<close>

definition poll_secs :: "InterfaceAggregator \<Rightarrow> int \<Rightarrow> real" where
  "poll_secs a nowMs = (if ia_lastElapsedMs a < nowMs then real_of_int (nowMs - ia_lastElapsedMs a) / 1000 else 1)"

definition rates_of :: "InterfaceAggregator \<Rightarrow> int \<Rightarrow> InterfaceStats \<Rightarrow> real \<times> real" where
  "rates_of a nowMs s =
     (case hfind (ia_prev a) (if_name s) of
        None \<Rightarrow> (0, 0)
      | Some p \<Rightarrow> (byte_rate (if_rxBytes s) (if_rxBytes p) (poll_secs a nowMs), byte_rate (if_txBytes s) (if_txBytes p) (poll_secs a nowMs)))"

lemma byte_rate_nonneg: "0 < d \<Longrightarrow> 0 \<le> byte_rate current previous d"
  unfolding byte_rate_def by (metis divide_nonneg_pos of_nat_0_le_iff order_refl)

lemma rates_of_nonneg: "0 \<le> fst (rates_of a nowMs s) \<and> 0 \<le> snd (rates_of a nowMs s)"
proof -
  have "0 < poll_secs a nowMs" by (simp add: poll_secs_def)
  from byte_rate_nonneg [OF this] show ?thesis by (simp add: rates_of_def split: option.split)
qed

lemma updateStats_rows:
  assumes "ia_ok a" and "ia_updateStats nowMs stats a = (out, a')"
  shows "\<forall>r \<in> set (ia_rows a'). (ir_rxRate r, ir_txRate r) = rates_of a nowMs (ir_current r)"
proof (cases "structureChanged (sort_key if_name stats) (ia_rows a)")
  case True
  then have "ia_rows a' = map (\<lambda>s. iface_rates (ia_prev a) (poll_secs a nowMs) s \<lparr>ir_current = s, ir_rxRate = 0, ir_txRate = 0\<rparr>)
      (sort_key if_name stats)"
    using assms(2) by (auto simp: ia_updateStats_def Let_def poll_secs_def)
  then show ?thesis by (simp add: iface_rates_def rates_of_def split: option.split)
next
  case False
  note k = structure_kept [OF False]
  have rows: "ia_rows a' = map (\<lambda>(s, row). (iface_rates (ia_prev a) (poll_secs a nowMs) s row)\<lparr>ir_current := s\<rparr>)
      (zip (sort_key if_name stats) (ia_rows a))"
    using assms(2) False by (auto simp: ia_updateStats_def Let_def poll_secs_def)
  have "hcontains (ia_prev a) (if_name s)" if "(s, r) \<in> set (zip (sort_key if_name stats) (ia_rows a))" for s r
  proof -
    have "if_name s \<in> set (map if_name (sort_key if_name stats))" using set_zip_leftD [OF that] by auto
    then show ?thesis using assms(1) unfolding k(2) by (auto simp: ia_ok_def)
  qed
  then show ?thesis
    unfolding rows by (fastforce simp: iface_rates_def rates_of_def split: option.split)
qed

text \<open>After every poll the interface rows are exactly the polled interfaces in the order of their names;
  each row shows the byte deltas to the previous poll over the elapsed time, 0 for an interface that was not
  there or whose counters went back, and never a negative rate; and views are told to reset exactly when the
  list of names changed, otherwise that all rows changed in place.\<close>

theorem interface_rows_exact:
  assumes "ia_reachable a" and "ia_updateStats nowMs stats a = (out, a')"
  shows "map ir_current (ia_rows a') = sort_key if_name stats \<and>
    (\<forall>r \<in> set (ia_rows a'). (ir_rxRate r, ir_txRate r) = rates_of a nowMs (ir_current r) \<and> 0 \<le> ir_rxRate r \<and> 0 \<le> ir_txRate r) \<and>
    out = (if map (\<lambda>r. if_name (ir_current r)) (ia_rows a') \<noteq> map (\<lambda>r. if_name (ir_current r)) (ia_rows a) then [AboutToReset, DidReset]
           else if ia_rows a = [] then [] else [RowsChanged 0 (length (ia_rows a) - 1)])"
proof -
  have names: "map (\<lambda>r. if_name (ir_current r)) (ia_rows a') = map if_name (sort_key if_name stats)"
    unfolding updateStats_sel(1) [OF assms(2), symmetric] by simp
  have "out = (if map (\<lambda>r. if_name (ir_current r)) (ia_rows a') \<noteq> map (\<lambda>r. if_name (ir_current r)) (ia_rows a) then [AboutToReset, DidReset]
           else if ia_rows a = [] then [] else [RowsChanged 0 (length (ia_rows a) - 1)])"
    unfolding names updateStats_out [OF assms(2)] structureChanged_iff by (rule refl)
  moreover have "(ir_rxRate r, ir_txRate r) = rates_of a nowMs (ir_current r) \<and> 0 \<le> ir_rxRate r \<and> 0 \<le> ir_txRate r"
    if "r \<in> set (ia_rows a')" for r
  proof -
    have "(ir_rxRate r, ir_txRate r) = rates_of a nowMs (ir_current r)"
      using updateStats_rows [OF ia_reachable_ok [OF assms(1)] assms(2)] that by (rule bspec)
    then show ?thesis using rates_of_nonneg [of a nowMs "ir_current r"] by (metis fst_conv snd_conv)
  qed
  ultimately show ?thesis
    using updateStats_sel(1) [OF assms(2)] by (intro conjI ballI) simp_all
qed

definition sample_iface :: "string \<Rightarrow> quint64 \<Rightarrow> InterfaceStats" where
  "sample_iface name rx = \<lparr>if_name = name, if_type = ''ethernet'', if_mtu = 1500, if_addresses = [], if_rxBytes = rx, if_txBytes = 0,
     if_rxPackets = 0, if_txPackets = 0, if_isUp = True, if_isLoopback = False, if_ifIndex = 1, if_operState = 6,
     if_rxErrors = 0, if_txErrors = 0, if_rxDropped = 0, if_txDropped = 0\<rparr>"

theorem interface_rows_exact_witness:
  "map ir_current (ia_rows (snd (ia_updateStats 1000 [sample_iface ''wlan0'' 10, sample_iface ''eth0'' 20] mk_InterfaceAggregator))) =
     [sample_iface ''eth0'' 20, sample_iface ''wlan0'' 10]"
  using interface_rows_exact [OF ia_start surjective_pairing, of 1000 "[sample_iface ''wlan0'' 10, sample_iface ''eth0'' 20]"]
  by (simp add: sample_iface_def)

end
