(* ===== verification/SockDiag.thy ===== *)
theory SockDiag
  imports CgroupCache "HOL-Library.Monad_Syntax"
begin

text \<open>
  Reading the kernel's socket table: the lookup keys, the walk over one received chunk of a
  \<open>sock_diag\<close> dump and the receive loop (\<open>backend/linux/SockDiagDump.h\<close>, \<open>SockDiagDump.cpp\<close>), and the
  link parsers of \<open>SockDiagParse.h\<close>.

  A buffer is a list of bytes and every access goes through \<open>byte_at\<close>, which is \<open>None\<close> outside of it: a parser
  that answers \<open>Some\<close> has not read past the end. Sizes and offsets are those of the kernel's
  \<open>nlmsghdr\<close>, \<open>nlmsgerr\<close> and \<open>inet_diag_msg\<close>; host byte order is little-endian.
\<close>

section \<open>Bytes\<close>

text \<open>The \<open>n\<close> low bytes of a number, most significant first.\<close>

definition be_bytes :: "nat \<Rightarrow> 'a::len word \<Rightarrow> quint8 list" where
  "be_bytes n v = map (\<lambda>i. ucast (drop_bit (8 * i) v)) (rev [0..<n])"

definition byte_at :: "quint8 list \<Rightarrow> nat \<Rightarrow> quint8 option" where
  "byte_at buf i = (if i < length buf then Some (buf ! i) else None)"

definition bytes_at :: "quint8 list \<Rightarrow> nat \<Rightarrow> nat \<Rightarrow> quint8 list option" where
  "bytes_at buf i n = (if i + n \<le> length buf then Some (take n (drop i buf)) else None)"

text \<open>Reading a number out of bytes, most significant first.\<close>

definition be_val :: "quint8 list \<Rightarrow> nat" where
  "be_val bs = foldl (\<lambda>acc b. acc * 256 + unat b) 0 bs"

definition le_val :: "quint8 list \<Rightarrow> nat" where
  "le_val bs = be_val (rev bs)"

section \<open>Lookup keys\<close>

text \<open>\<open>QHostAddress::toIPv4Address\<close>: the IPv4 address of an IPv4, an IPv4-mapped or the unspecified IPv6 address.\<close>

definition toIPv4Address :: "QHostAddress \<Rightarrow> quint32 \<times> bool" where
  "toIPv4Address a =
     (case a of
        HostNull \<Rightarrow> (0, False)
      | HostV4 v \<Rightarrow> (v, True)
      | HostV6 v \<Rightarrow> if v = 0 then (0, True) else if drop_bit 32 v = 0xFFFF then (ucast v, True) else (0, False))"

definition isIPv6Address :: "QHostAddress \<Rightarrow> bool" where
  "isIPv6Address a = (case a of HostV6 _ \<Rightarrow> True | _ \<Rightarrow> False)"

definition endpoint_bytes :: "QHostAddress \<Rightarrow> quint16 \<Rightarrow> quint8 list" where
  "endpoint_bytes a port =
     (case a of HostV6 v \<Rightarrow> be_bytes 16 v | _ \<Rightarrow> be_bytes 4 (fst (toIPv4Address a))) @ be_bytes 2 port"

definition makeFlowKey :: "quint8 \<Rightarrow> QHostAddress \<Rightarrow> quint16 \<Rightarrow> QHostAddress \<Rightarrow> quint16 \<Rightarrow> quint8 list" where
  "makeFlowKey proto localAddr localPort remoteAddr remotePort =
     [proto] @ endpoint_bytes localAddr localPort @ endpoint_bytes remoteAddr remotePort"

definition makeLocalKey :: "quint8 \<Rightarrow> QHostAddress \<Rightarrow> quint16 \<Rightarrow> quint8 list" where
  "makeLocalKey proto localAddr localPort = [1, proto] @ endpoint_bytes localAddr localPort"

definition isLocalKey :: "quint8 list \<Rightarrow> bool" where
  "isLocalKey key = (key \<noteq> [] \<and> hd key = 1)"

type_synonym SocketMap = "(quint8 list, quint64) qhash"

definition kMaxSocketEntries :: nat where "kMaxSocketEntries = 65536"
definition kAmbiguousLocalInode :: quint64 where "kAmbiguousLocalInode = 0"

definition isAmbiguousLocalInode :: "quint64 \<Rightarrow> bool" where
  "isAmbiguousLocalInode inode = (inode = kAmbiguousLocalInode)"

definition insertLocalKey :: "quint8 list \<Rightarrow> quint64 \<Rightarrow> SocketMap \<Rightarrow> SocketMap" where
  "insertLocalKey localKey inode m =
     (case hfind m localKey of
        None \<Rightarrow> if hsize m < kMaxSocketEntries then hinsert localKey inode m else m
      | Some v \<Rightarrow> if v \<noteq> inode then hinsert localKey kAmbiguousLocalInode m else m)"

section \<open>One chunk\<close>

datatype DumpChunkResult = NeedMore | Done | Failed

definition AF_INET :: quint8 where "AF_INET = 2"
definition AF_INET6 :: quint8 where "AF_INET6 = 10"
definition NLMSG_ERROR :: nat where "NLMSG_ERROR = 2"
definition NLMSG_DONE :: nat where "NLMSG_DONE = 3"
definition SOCK_DIAG_BY_FAMILY :: nat where "SOCK_DIAG_BY_FAMILY = 20"

definition NLMSG_HDRLEN :: nat where "NLMSG_HDRLEN = 16"
definition nlmsgerr_size :: nat where "nlmsgerr_size = 20"
definition inet_diag_msg_size :: nat where "inet_diag_msg_size = 72"

definition NLMSG_ALIGN :: "nat \<Rightarrow> nat" where
  "NLMSG_ALIGN n = (n + 3) div 4 * 4"

text \<open>What the loop reads of one socket.\<close>

record DiagMsg =
  dm_family :: quint8
  dm_sport :: quint16
  dm_dport :: quint16
  dm_src :: "quint8 list"
  dm_dst :: "quint8 list"
  dm_inode :: quint32

definition addrFromDiag :: "quint8 \<Rightarrow> quint8 list \<Rightarrow> QHostAddress" where
  "addrFromDiag family bs =
     (if family = AF_INET then HostV4 (word_of_nat (be_val (take 4 bs))) else HostV6 (word_of_nat (be_val bs)))"

definition read_diag :: "quint8 list \<Rightarrow> nat \<Rightarrow> DiagMsg option" where
  "read_diag buf i = do {
     family \<leftarrow> byte_at buf i;
     sport \<leftarrow> bytes_at buf (i + 4) 2;
     dport \<leftarrow> bytes_at buf (i + 6) 2;
     src \<leftarrow> bytes_at buf (i + 8) 16;
     dst \<leftarrow> bytes_at buf (i + 24) 16;
     inode \<leftarrow> bytes_at buf (i + 68) 4;
     Some \<lparr>dm_family = family, dm_sport = word_of_nat (be_val sport), dm_dport = word_of_nat (be_val dport),
       dm_src = src, dm_dst = dst, dm_inode = word_of_nat (le_val inode)\<rparr> }"

text \<open>The body of the loop for one socket, from \<open>idiag_inode == 0\<close> on.\<close>

definition enroll_v4 :: "quint8 \<Rightarrow> QHostAddress \<Rightarrow> quint16 \<Rightarrow> QHostAddress \<Rightarrow> quint16 \<Rightarrow> quint64 \<Rightarrow> SocketMap \<Rightarrow> SocketMap" where
  "enroll_v4 proto local lport remote rport inode m =
     (let (l4, lok) = toIPv4Address local; (r4, rok) = toIPv4Address remote in
      if lok
      then
        (let m = (if rok
                  then (let k4 = makeFlowKey proto (HostV4 l4) lport (HostV4 r4) rport in
                        if hsize m < kMaxSocketEntries \<or> hcontains m k4 then hinsert k4 inode m else m)
                  else m)
         in insertLocalKey (makeLocalKey proto (HostV4 l4) lport) inode m)
      else m)"

definition enroll_socket :: "quint8 \<Rightarrow> DiagMsg \<Rightarrow> SocketMap \<Rightarrow> SocketMap" where
  "enroll_socket proto d m =
     (if dm_inode d = 0 then m
      else
        (let local = addrFromDiag (dm_family d) (dm_src d);
             remote = addrFromDiag (dm_family d) (dm_dst d);
             lport = dm_sport d; rport = dm_dport d;
             inode = ucast (dm_inode d);
             flowKey = makeFlowKey proto local lport remote rport
         in if kMaxSocketEntries \<le> hsize m \<and> \<not> hcontains m flowKey then m
            else
              (let m = hinsert flowKey inode m;
                   m = insertLocalKey (makeLocalKey proto local lport) inode m
               in if dm_family d = AF_INET6 then enroll_v4 proto local lport remote rport inode m else m)))"

text \<open>The walk: \<open>NLMSG_OK\<close> and \<open>NLMSG_NEXT\<close> over the remaining bytes. The outer \<open>None\<close> is a read outside
  the buffer. The error number is the positive \<open>errno\<close> of a well-formed error message.\<close>

function parse_from ::
  "quint8 \<Rightarrow> quint8 list \<Rightarrow> nat \<Rightarrow> int \<Rightarrow> SocketMap \<Rightarrow> (DumpChunkResult \<times> int \<times> SocketMap) option" where
  "parse_from proto buf nh remaining m =
     (if remaining < int NLMSG_HDRLEN then Some (NeedMore, 0, m)
      else do {
        lenBytes \<leftarrow> bytes_at buf nh 4;
        typeBytes \<leftarrow> bytes_at buf (nh + 4) 2;
        let (nlmsg_len, nlmsg_type) = (le_val lenBytes, le_val typeBytes);
        if nlmsg_len < NLMSG_HDRLEN \<or> remaining < int nlmsg_len then Some (NeedMore, 0, m)
        else if nlmsg_type = NLMSG_DONE then Some (Done, 0, m)
        else if nlmsg_type = NLMSG_ERROR
        then (if nlmsg_len < NLMSG_HDRLEN + nlmsgerr_size then Some (Failed, 0, m)
              else do {
                err \<leftarrow> bytes_at buf (nh + NLMSG_HDRLEN) 4;
                let error = sint (word_of_nat (le_val err) :: 32 word);
                if error \<noteq> 0 then Some (Failed, - error, m) else Some (Done, 0, m) })
        else do {
          m \<leftarrow> (if nlmsg_type \<noteq> SOCK_DIAG_BY_FAMILY then Some m
               else if nlmsg_len < NLMSG_HDRLEN + inet_diag_msg_size then Some m
               else do { d \<leftarrow> read_diag buf (nh + NLMSG_HDRLEN); Some (enroll_socket proto d m) });
          parse_from proto buf (nh + NLMSG_ALIGN nlmsg_len) (remaining - int (NLMSG_ALIGN nlmsg_len)) m } })"
  by pat_completeness auto
termination
proof (relation "measure (\<lambda>(_, _, _, remaining, _). nat remaining)", goal_cases)
  case (2 proto buf nh remaining m lenBytes typeBytes x y z)
  then show ?case by (auto simp: NLMSG_HDRLEN_def NLMSG_ALIGN_def)
qed simp

declare parse_from.simps [simp del]

definition parseDumpChunk :: "quint8 list \<Rightarrow> quint8 \<Rightarrow> SocketMap \<Rightarrow> (DumpChunkResult \<times> int \<times> SocketMap) option" where
  "parseDumpChunk buf proto m = parse_from proto buf 0 (int (length buf)) m"

section \<open>The receive loop\<close>

text \<open>What one \<open>recv\<close> with \<open>MSG_TRUNC\<close> returns: interrupted, failed, or a datagram with its real length and
  the bytes that fitted the buffer.\<close>

datatype Recv = RecvInterrupted | RecvFailed | Datagram nat "quint8 list"

definition recv_buffer :: nat where "recv_buffer = 16384"

text \<open>\<open>None\<close>: the loop still waits when the replies run out, or a chunk was over-read.\<close>

fun dump_loop :: "quint8 \<Rightarrow> Recv list \<Rightarrow> SocketMap \<Rightarrow> (bool \<times> SocketMap) option" where
  "dump_loop proto [] m = None"
| "dump_loop proto (RecvInterrupted # rs) m = dump_loop proto rs m"
| "dump_loop proto (RecvFailed # rs) m = Some (False, m)"
| "dump_loop proto (Datagram n buf # rs) m =
     (if recv_buffer < n then Some (False, m)
      else if n = 0 then Some (True, m)
      else
        (case parseDumpChunk (take n buf) proto m of
           None \<Rightarrow> None
         | Some (Done, _, m) \<Rightarrow> Some (True, m)
         | Some (Failed, _, m) \<Rightarrow> Some (False, m)
         | Some (NeedMore, _, m) \<Rightarrow> dump_loop proto rs m))"

definition dumpSocketsViaFd :: "bool \<Rightarrow> Recv list \<Rightarrow> quint8 \<Rightarrow> SocketMap \<Rightarrow> (bool \<times> SocketMap) option" where
  "dumpSocketsViaFd sendOk rs proto m = (if \<not> sendOk then Some (False, m) else dump_loop proto rs m)"

section \<open>Links under \<open>/proc\<close>\<close>

definition parseSocketLink :: "string \<Rightarrow> quint64 option" where
  "parseSocketLink link =
     (if \<not> starts_with ''socket:['' link then None
      else if \<not> ends_with '']'' link then None
      else (let inner = take (length link - 9) (drop 8 link) in if inner = [] then None else toULongLong inner))"

definition parseNamespaceLink :: "string \<Rightarrow> string \<Rightarrow> quint64 option" where
  "parseNamespaceLink link typ =
     (if \<not> starts_with typ link then None
      else if length link < length typ + 3 then None
      else if link ! length typ \<noteq> CHR '':'' then None
      else if link ! (length typ + 1) \<noteq> CHR ''['' then None
      else if \<not> ends_with '']'' link then None
      else (let inner = take (length link - length typ - 3) (drop (length typ + 2) link)
            in if inner = [] then None else toULongLong inner))"

section \<open>Numbers in bytes\<close>

lemma be_val_Cons: "be_val (b # bs) = unat b * 256 ^ length bs + be_val bs"
proof -
  have "foldl (\<lambda>acc b. acc * 256 + unat b) x bs = x * 256 ^ length bs + foldl (\<lambda>acc b. acc * 256 + unat b) 0 bs" for x and bs :: "quint8 list"
  proof (induction bs arbitrary: x)
    case (Cons c bs)
    show ?case using Cons [of "x * 256 + unat c"] Cons [of "unat c"] by (simp add: algebra_simps)
  qed simp
  from this [of "unat b" bs] show ?thesis by (simp add: be_val_def)
qed

lemma be_bytes_0 [simp]: "be_bytes 0 v = []"
  by (simp add: be_bytes_def)

lemma be_bytes_Suc: "be_bytes (Suc n) v = ucast (drop_bit (8 * n) v) # be_bytes n v"
  by (simp add: be_bytes_def)

lemma length_be_bytes [simp]: "length (be_bytes n v) = n"
  by (simp add: be_bytes_def)

lemma be_val_be_bytes: "be_val (be_bytes n v) = unat v mod 256 ^ n"
proof (induction n)
  case (Suc n)
  have b: "unat (ucast (drop_bit (8 * n) v) :: quint8) = unat v div 256 ^ n mod 256"
    by (simp only: unsigned_ucast_eq unat_drop_bit_eq) (simp add: drop_bit_eq_div take_bit_eq_mod power_mult)
  have "unat v div 256 ^ n mod 256 * 256 ^ n + unat v mod 256 ^ n = unat v mod 256 ^ Suc n"
    by (metis mod_mult2_eq mult.commute power_Suc2 add.commute)
  then show ?case by (simp add: be_bytes_Suc be_val_Cons Suc b)
qed (simp add: be_val_def)

lemma be_bytes_inj: "unat u < 256 ^ n \<Longrightarrow> unat v < 256 ^ n \<Longrightarrow> be_bytes n u = be_bytes n v \<longleftrightarrow> u = v"
  using be_val_be_bytes [of n u] be_val_be_bytes [of n v] by (metis mod_less unsigned_word_eqI)

lemma be_bytes_full [simp]:
  "be_bytes 2 (p :: quint16) = be_bytes 2 q \<longleftrightarrow> p = q"
  "be_bytes 4 (u :: quint32) = be_bytes 4 v \<longleftrightarrow> u = v"
  "be_bytes 16 (x :: 128 word) = be_bytes 16 y \<longleftrightarrow> x = y"
  using unsigned_less [of p, where 'a = nat] unsigned_less [of q, where 'a = nat] unsigned_less [of u, where 'a = nat]
    unsigned_less [of v, where 'a = nat] unsigned_less [of x, where 'a = nat] unsigned_less [of y, where 'a = nat]
  by (auto intro!: be_bytes_inj [THEN iffD1])

section \<open>Keys identify flows\<close>

text \<open>Endpoints as the socket tables have them: an IPv4 or an IPv6 address.\<close>

definition same_family :: "QHostAddress \<Rightarrow> QHostAddress \<Rightarrow> bool" where
  "same_family a b = (a \<noteq> HostNull \<and> b \<noteq> HostNull \<and> isIPv6Address a = isIPv6Address b)"

lemma endpoint_bytes_length: "length (endpoint_bytes a p) = (if isIPv6Address a then 18 else 6)"
  by (simp add: endpoint_bytes_def isIPv6Address_def split: QHostAddress.split)

lemma endpoint_bytes_inj:
  assumes "a \<noteq> HostNull" and "b \<noteq> HostNull" and "isIPv6Address a = isIPv6Address b"
  shows "endpoint_bytes a p = endpoint_bytes b q \<longleftrightarrow> a = b \<and> p = q"
  using assms by (auto simp: endpoint_bytes_def isIPv6Address_def toIPv4Address_def split: QHostAddress.splits)

text \<open>Lookup keys identify sockets. For flows whose two ends have the same address family the key determines
  protocol, both addresses and both ports; the local key determines protocol, address and port; and no
  key of a TCP or UDP flow is the local key of anything, so the two kinds share one table without
  collisions.\<close>

theorem socket_keys_injective:
  assumes "same_family la ra" and "same_family la' ra'" and "p = 6 \<or> p = 17"
  shows "(makeFlowKey p la lp ra rp = makeFlowKey p' la' lp' ra' rp' \<longleftrightarrow> p = p' \<and> la = la' \<and> lp = lp' \<and> ra = ra' \<and> rp = rp') \<and>
    (makeLocalKey p la lp = makeLocalKey p' la' lp' \<longleftrightarrow> p = p' \<and> la = la' \<and> lp = lp') \<and>
    makeFlowKey p la lp ra rp \<noteq> makeLocalKey p' la' lp' \<and> isLocalKey (makeLocalKey p' la' lp') \<and> \<not> isLocalKey (makeFlowKey p la lp ra rp)"
proof -
  have len: "isIPv6Address la = isIPv6Address la'" if "length (endpoint_bytes la lp) + length (endpoint_bytes ra rp) =
      length (endpoint_bytes la' lp') + length (endpoint_bytes ra' rp')"
    using that assms(1,2) by (auto simp: endpoint_bytes_length same_family_def split: if_splits)
  have fams: "la \<noteq> HostNull" "la' \<noteq> HostNull" "ra \<noteq> HostNull" "ra' \<noteq> HostNull" "isIPv6Address ra = isIPv6Address la" "isIPv6Address ra' = isIPv6Address la'"
    using assms(1,2) by (auto simp: same_family_def)
  have "makeFlowKey p la lp ra rp = makeFlowKey p' la' lp' ra' rp' \<longleftrightarrow> p = p' \<and> la = la' \<and> lp = lp' \<and> ra = ra' \<and> rp = rp'"
  proof
    assume k: "makeFlowKey p la lp ra rp = makeFlowKey p' la' lp' ra' rp'"
    then have bytes: "endpoint_bytes la lp @ endpoint_bytes ra rp = endpoint_bytes la' lp' @ endpoint_bytes ra' rp'" and p: "p = p'"
      by (simp_all add: makeFlowKey_def)
    have v6: "isIPv6Address la = isIPv6Address la'"
      using len arg_cong [OF bytes, of length] by simp
    then have "endpoint_bytes la lp = endpoint_bytes la' lp'" "endpoint_bytes ra rp = endpoint_bytes ra' rp'"
      using bytes by (simp_all add: endpoint_bytes_length)
    then show "p = p' \<and> la = la' \<and> lp = lp' \<and> ra = ra' \<and> rp = rp'"
      using p v6 fams by (simp add: endpoint_bytes_inj)
  qed simp
  moreover have "makeLocalKey p la lp = makeLocalKey p' la' lp' \<longleftrightarrow> p = p' \<and> la = la' \<and> lp = lp'"
  proof
    assume k: "makeLocalKey p la lp = makeLocalKey p' la' lp'"
    then have e: "endpoint_bytes la lp = endpoint_bytes la' lp'" and p: "p = p'" by (simp_all add: makeLocalKey_def)
    have "isIPv6Address la = isIPv6Address la'"
      using arg_cong [OF e, of length] by (simp add: endpoint_bytes_length split: if_splits)
    then show "p = p' \<and> la = la' \<and> lp = lp'" using e p fams by (simp add: endpoint_bytes_inj)
  qed simp
  ultimately show ?thesis
    using assms(3) by (auto simp: makeFlowKey_def makeLocalKey_def isLocalKey_def)
qed

theorem socket_keys_injective_witness:
  "makeFlowKey 6 (HostV4 1) 80 (HostV4 2) 40000 \<noteq> makeFlowKey 6 (HostV4 2) 80 (HostV4 1) 40000"
  using socket_keys_injective [of "HostV4 1" "HostV4 2" "HostV4 2" "HostV4 1" 6 80 40000 6 80 40000]
  by (simp add: same_family_def isIPv6Address_def)

section \<open>No read past the end\<close>

lemma bytes_at_Some: "i + n \<le> length buf \<Longrightarrow> bytes_at buf i n = Some (take n (drop i buf))"
  by (simp add: bytes_at_def)

lemma read_diag_Some: "i + inet_diag_msg_size \<le> length buf \<Longrightarrow> \<exists>d. read_diag buf i = Some d"
  by (simp add: read_diag_def bytes_at_Some byte_at_def inet_diag_msg_size_def)

text \<open>One step of the walk over a header that lies in the buffer.\<close>

lemma parse_from_step:
  assumes "nh + 16 \<le> length buf" and "\<not> remaining < int NLMSG_HDRLEN"
    and "len = le_val (take 4 (drop nh buf))" and "ty = le_val (take 2 (drop (nh + 4) buf))"
  shows "parse_from proto buf nh remaining m =
    (if len < NLMSG_HDRLEN \<or> remaining < int len then Some (NeedMore, 0, m)
     else if ty = NLMSG_DONE then Some (Done, 0, m)
     else if ty = NLMSG_ERROR
     then (if len < NLMSG_HDRLEN + nlmsgerr_size then Some (Failed, 0, m)
           else do {
             err \<leftarrow> bytes_at buf (nh + NLMSG_HDRLEN) 4;
             let error = sint (word_of_nat (le_val err) :: 32 word);
             if error \<noteq> 0 then Some (Failed, - error, m) else Some (Done, 0, m) })
     else do {
       m \<leftarrow> (if ty \<noteq> SOCK_DIAG_BY_FAMILY then Some m
            else if len < NLMSG_HDRLEN + inet_diag_msg_size then Some m
            else do { d \<leftarrow> read_diag buf (nh + NLMSG_HDRLEN); Some (enroll_socket proto d m) });
       parse_from proto buf (nh + NLMSG_ALIGN len) (remaining - int (NLMSG_ALIGN len)) m })"
proof -
  have "bytes_at buf nh 4 = Some (take 4 (drop nh buf))" "bytes_at buf (nh + 4) 2 = Some (take 2 (drop (nh + 4) buf))"
    using assms(1) by (simp_all add: bytes_at_Some)
  then show ?thesis
    using assms(2) by (subst parse_from.simps) (simp add: assms(3,4))
qed

text \<open>Whatever the walk keeps of the table, and never a read past the end.\<close>

lemma parse_from_total:
  assumes "\<And>d m. I m \<Longrightarrow> I (enroll_socket proto d m)"
  shows "int nh + remaining \<le> int (length buf) \<Longrightarrow> I m \<Longrightarrow> \<exists>r e m'. parse_from proto buf nh remaining m = Some (r, e, m') \<and> I m'"
proof (induction "nat remaining" arbitrary: nh remaining m rule: less_induct)
  case less
  show ?case
  proof (cases "remaining < int NLMSG_HDRLEN")
    case True
    then show ?thesis using less.prems(2) by (subst parse_from.simps) simp
  next
    case room: False
    define len where "len = le_val (take 4 (drop nh buf))"
    define ty where "ty = le_val (take 2 (drop (nh + 4) buf))"
    have hdr: "nh + 16 \<le> length buf" using room less.prems(1) by (simp add: NLMSG_HDRLEN_def)
    note step = parse_from_step [OF hdr room len_def ty_def]
    show ?thesis
    proof (cases "len < NLMSG_HDRLEN \<or> remaining < int len \<or> ty = NLMSG_DONE \<or> ty = NLMSG_ERROR \<and> len < NLMSG_HDRLEN + nlmsgerr_size")
      case True
      then show ?thesis using less.prems(2) by (auto simp: step NLMSG_DONE_def NLMSG_ERROR_def)
    next
      case ok: False
      then have body: "nh + len \<le> length buf" using less.prems(1) by simp
      show ?thesis
      proof (cases "ty = NLMSG_ERROR")
        case True
        have "bytes_at buf (nh + NLMSG_HDRLEN) 4 = Some (take 4 (drop (nh + NLMSG_HDRLEN) buf))"
          using True ok body by (intro bytes_at_Some) (simp add: NLMSG_HDRLEN_def nlmsgerr_size_def)
        then show ?thesis using True ok less.prems(2) by (simp add: step Let_def)
      next
        case False
        have "\<exists>m'. (if ty \<noteq> SOCK_DIAG_BY_FAMILY then Some m
            else if len < NLMSG_HDRLEN + inet_diag_msg_size then Some m
            else do { d \<leftarrow> read_diag buf (nh + NLMSG_HDRLEN); Some (enroll_socket proto d m) }) = Some m' \<and> I m'"
          using read_diag_Some [of "nh + NLMSG_HDRLEN" buf] body less.prems(2) assms by auto
        then obtain m' where m': "(if ty \<noteq> SOCK_DIAG_BY_FAMILY then Some m
            else if len < NLMSG_HDRLEN + inet_diag_msg_size then Some m
            else do { d \<leftarrow> read_diag buf (nh + NLMSG_HDRLEN); Some (enroll_socket proto d m) }) = Some m'" "I m'" by blast
        have "nat (remaining - int (NLMSG_ALIGN len)) < nat remaining"
          using ok room by (auto simp: NLMSG_ALIGN_def NLMSG_HDRLEN_def)
        moreover have "int (nh + NLMSG_ALIGN len) + (remaining - int (NLMSG_ALIGN len)) \<le> int (length buf)"
          using less.prems(1) by simp
        ultimately have "\<exists>r e m2. parse_from proto buf (nh + NLMSG_ALIGN len) (remaining - int (NLMSG_ALIGN len)) m' = Some (r, e, m2) \<and> I m2"
          by (rule less.hyps [OF _ _ m'(2)])
        then show ?thesis using ok False by (simp add: step m'(1))
      qed
    qed
  qed
qed

section \<open>The table of sockets\<close>

definition socket_map_ok :: "SocketMap \<Rightarrow> bool" where
  "socket_map_ok m = (hwf m \<and> hsize m \<le> kMaxSocketEntries)"

lemma insert_within:
  "socket_map_ok m \<Longrightarrow> hsize m < kMaxSocketEntries \<or> hcontains m k \<Longrightarrow> socket_map_ok (hinsert k v m)"
  using qh.capped_insert_size [of m kMaxSocketEntries k v] by (auto simp: socket_map_ok_def)

lemma insertLocalKey_ok: "socket_map_ok m \<Longrightarrow> socket_map_ok (insertLocalKey k v m)"
  by (simp add: insertLocalKey_def insert_within split: option.split)

lemma enroll_v4_ok: "socket_map_ok m \<Longrightarrow> socket_map_ok (enroll_v4 proto l lp r rp i m)"
  by (simp add: enroll_v4_def Let_def case_prod_beta insertLocalKey_ok insert_within)

lemma enroll_socket_ok: "socket_map_ok m \<Longrightarrow> socket_map_ok (enroll_socket proto d m)"
  unfolding enroll_socket_def Let_def
  by (auto simp: not_le intro!: enroll_v4_ok insertLocalKey_ok insert_within)

text \<open>C6: whatever bytes a received chunk holds, lengths that lie about the message included, the walk ends,
  reads nothing outside the chunk, and leaves a table that holds every key once and at most 65536 of
  them.\<close>

theorem dump_chunk_safe:
  assumes "socket_map_ok m"
  shows "\<exists>r e m'. parseDumpChunk buf proto m = Some (r, e, m') \<and> socket_map_ok m'"
  unfolding parseDumpChunk_def using parse_from_total [of socket_map_ok proto 0 "int (length buf)" buf m] assms by (simp add: enroll_socket_ok)

theorem dump_chunk_safe_witness:
  "\<exists>r e m'. parseDumpChunk [255, 255, 255, 255, 20, 0, 0, 0, 0, 0, 0, 0, 0, 0, 0, 0] 6 [] = Some (r, e, m') \<and> socket_map_ok m'"
  by (rule dump_chunk_safe) (simp add: socket_map_ok_def)

section \<open>Reading what the kernel writes\<close>

text \<open>The bytes of a socket message and of the end of a dump; the fields the parser does not read are arbitrary.\<close>

record DiagFill =
  df_flags :: "quint8 list"
  df_state :: "quint8 list"
  df_if :: "quint8 list"
  df_queues :: "quint8 list"

definition fill_ok :: "DiagFill \<Rightarrow> bool" where
  "fill_ok f = (length (df_flags f) = 10 \<and> length (df_state f) = 3 \<and> length (df_if f) = 12 \<and> length (df_queues f) = 16)"

definition diag_ok :: "DiagMsg \<Rightarrow> bool" where
  "diag_ok d = (length (dm_src d) = 16 \<and> length (dm_dst d) = 16)"

definition diag_body :: "DiagFill \<Rightarrow> DiagMsg \<Rightarrow> quint8 list" where
  "diag_body f d = [dm_family d] @ df_state f @ be_bytes 2 (dm_sport d) @ be_bytes 2 (dm_dport d) @ dm_src d @ dm_dst d @
     df_if f @ df_queues f @ rev (be_bytes 4 (dm_inode d))"

definition diag_message :: "DiagFill \<times> DiagMsg \<Rightarrow> quint8 list" where
  "diag_message x = [88, 0, 0, 0, 20, 0] @ df_flags (fst x) @ diag_body (fst x) (snd x)"

definition done_message :: "quint8 list" where
  "done_message = [20, 0, 0, 0, 3, 0, 2, 0, 0, 0, 0, 0, 0, 0, 0, 0, 0, 0, 0, 0]"

lemma length_diag_message: "fill_ok f \<Longrightarrow> diag_ok d \<Longrightarrow> length (diag_message (f, d)) = 88"
  by (simp add: diag_message_def diag_body_def fill_ok_def diag_ok_def)

lemma word_of_be: "word_of_nat (be_val (be_bytes 2 (p :: quint16))) = p" "word_of_nat (be_val (be_bytes 4 (v :: quint32))) = v"
  using unsigned_less [of p, where 'a = nat] unsigned_less [of v, where 'a = nat] by (simp_all add: be_val_be_bytes)

lemma read_diag_body:
  assumes "fill_ok f" and "diag_ok d"
  shows "read_diag (pre @ diag_body f d @ rest) (length pre) = Some d"
proof -
  have len: "length (df_state f) = 3" "length (df_if f) = 12" "length (df_queues f) = 16" "length (dm_src d) = 16" "length (dm_dst d) = 16"
    using assms by (simp_all add: fill_ok_def diag_ok_def)
  show ?thesis
    by (simp add: read_diag_def byte_at_def bytes_at_def diag_body_def len nth_append le_val_def word_of_be)
qed

lemma parse_from_append:
  assumes "fill_ok f" and "diag_ok d"
  shows "parse_from proto (pre @ diag_message (f, d) @ rest) (length pre) (int (length (diag_message (f, d) @ rest))) m =
    parse_from proto ((pre @ diag_message (f, d)) @ rest) (length (pre @ diag_message (f, d))) (int (length rest)) (enroll_socket proto d m)"
proof -
  let ?buf = "pre @ diag_message (f, d) @ rest"
  have len: "length (diag_message (f, d)) = 88" using assms by (rule length_diag_message)
  have hdr: "length pre + 16 \<le> length ?buf" using len by simp
  have room: "\<not> int (length (diag_message (f, d) @ rest)) < int NLMSG_HDRLEN" using len by (simp add: NLMSG_HDRLEN_def)
  have l88: "88 = le_val (take 4 (drop (length pre) ?buf))"
    by (simp add: diag_message_def le_val_def be_val_def)
  have t20: "20 = le_val (take 2 (drop (length pre + 4) ?buf))"
    by (simp add: diag_message_def le_val_def be_val_def)
  have flags: "length (df_flags f) = 10" using assms(1) by (simp add: fill_ok_def)
  have "read_diag ?buf (length pre + NLMSG_HDRLEN) = Some d"
    using read_diag_body [OF assms, of "pre @ [88, 0, 0, 0, 20, 0] @ df_flags f" rest] by (simp add: diag_message_def flags NLMSG_HDRLEN_def)
  then show ?thesis
    using len unfolding parse_from_step [OF hdr room l88 t20]
    by (simp add: NLMSG_HDRLEN_def inet_diag_msg_size_def NLMSG_ALIGN_def NLMSG_DONE_def NLMSG_ERROR_def SOCK_DIAG_BY_FAMILY_def)
qed

lemma parse_from_done: "parse_from proto (pre @ done_message @ rest) (length pre) (int (length (done_message @ rest))) m = Some (Done, 0, m)"
proof -
  have hdr: "length pre + 16 \<le> length (pre @ done_message @ rest)" by (simp add: done_message_def)
  have room: "\<not> int (length (done_message @ rest)) < int NLMSG_HDRLEN" by (simp add: done_message_def NLMSG_HDRLEN_def)
  have "20 = le_val (take 4 (drop (length pre) (pre @ done_message @ rest)))" "3 = le_val (take 2 (drop (length pre + 4) (pre @ done_message @ rest)))"
    by (simp_all add: done_message_def le_val_def be_val_def)
  note step = parse_from_step [OF hdr room this]
  show ?thesis unfolding step by (simp add: NLMSG_HDRLEN_def NLMSG_DONE_def done_message_def)
qed

lemma parse_messages:
  assumes "\<forall>(f, d) \<in> set xs. fill_ok f \<and> diag_ok d"
  shows "parse_from proto (pre @ concat (map diag_message xs) @ done_message @ rest) (length pre)
      (int (length (concat (map diag_message xs) @ done_message @ rest))) m = Some (Done, 0, fold (enroll_socket proto) (map snd xs) m)"
  using assms
proof (induction xs arbitrary: pre m)
  case Nil
  show ?case using parse_from_done [of proto pre rest m] by simp
next
  case (Cons x xs)
  obtain f d where x: "x = (f, d)" by fastforce
  have ok: "fill_ok f" "diag_ok d" using Cons.prems x by auto
  show ?case
    using parse_from_append [OF ok, of proto pre "concat (map diag_message xs) @ done_message @ rest" m]
      Cons.IH [of "pre @ diag_message (f, d)" "enroll_socket proto d m"] Cons.prems by (simp add: x)
qed

text \<open>C12: the walk reads what the kernel writes. From a chunk that holds any sequence of socket messages and the
  end of the dump it enrolls exactly those sockets, in their order, whatever the fields it does not
  look at hold and whatever follows.\<close>

theorem dump_chunk_roundtrip:
  assumes "\<forall>(f, d) \<in> set xs. fill_ok f \<and> diag_ok d"
  shows "parseDumpChunk (concat (map diag_message xs) @ done_message @ rest) proto m =
    Some (Done, 0, fold (enroll_socket proto) (map snd xs) m)"
  using parse_messages [OF assms, of proto "[]" rest m] by (simp add: parseDumpChunk_def)

definition sample_fill :: DiagFill where
  "sample_fill = \<lparr>df_flags = replicate 10 0, df_state = replicate 3 0, df_if = replicate 12 0, df_queues = replicate 16 7\<rparr>"

definition sample_diag :: DiagMsg where
  "sample_diag = \<lparr>dm_family = AF_INET, dm_sport = 53, dm_dport = 0, dm_src = [127, 0, 0, 1] @ replicate 12 0, dm_dst = replicate 16 0, dm_inode = 4711\<rparr>"

theorem dump_chunk_roundtrip_witness:
  "parseDumpChunk (diag_message (sample_fill, sample_diag) @ done_message) 17 [] =
     Some (Done, 0, enroll_socket 17 sample_diag [])"
  using dump_chunk_roundtrip [of "[(sample_fill, sample_diag)]" "[]" 17 "[]"] by (simp add: sample_fill_def sample_diag_def fill_ok_def diag_ok_def)

end
