(* ===== verification/SockDiagResolver.thy ===== *)
theory SockDiagResolver
  imports SockDiag
begin

text \<open>
  \<open>backend/linux/SockDiagResolver.cpp\<close>: from a flow to the process that owns its socket. Two tables are rebuilt
  when they are older than the cache lifetime: socket keys to inodes from four \<open>sock_diag\<close> dumps, and inodes to
  processes from a walk over \<open>/proc/<pid>/fd\<close>. An answer is given only while the process still has the start
  time it was enrolled with.

  The host is the argument \<open>w\<close>: the replies to the dump requests, the contents of \<open>/proc\<close>, and start times.
  The once-per-process warnings are not part of the state.
\<close>

section \<open>State and world\<close>

record PidStamp =
  ps_pid :: int
  ps_startTime :: quint64

record SockDiagState =
  sd_nlFd :: bool
  sd_lastDumpMs :: int
  sd_cacheTtlMs :: int
  sd_keyToInode :: SocketMap
  sd_inodeToPid :: "(quint64, PidStamp) qhash"
  sd_pidToStartTime :: "(int, quint64) qhash"
  sd_lastProcWalkMs :: int
  sd_ready :: bool

text \<open>An entry of \<open>/proc\<close>: its name and, when its \<open>fd\<close> directory opens, the names there with their link targets.
  The replies of a dump are those of \<open>recv\<close> until it fails for good.\<close>

record SockWorld =
  sw_socketOpens :: bool
  sw_sendOk :: "quint8 \<Rightarrow> quint8 \<Rightarrow> bool"
  sw_replies :: "quint8 \<Rightarrow> quint8 \<Rightarrow> Recv list"
  sw_proc :: "(string \<times> (string \<times> string option) list option) list option"
  sw_files :: ProcWorld
  sw_status :: "int \<Rightarrow> string option"
  sw_cmdline :: "int \<Rightarrow> string option"
  sw_exe :: "int \<Rightarrow> string"

definition kDefaultSocketTtlMs :: int where "kDefaultSocketTtlMs = 1000"
definition kMinSocketTtlMs :: int where "kMinSocketTtlMs = 100"

definition safeCacheTtlMs :: "int \<Rightarrow> int" where
  "safeCacheTtlMs raw =
     (if raw \<le> 0 then kDefaultSocketTtlMs else if kMinSocketTtlMs \<le> raw then raw else kMinSocketTtlMs)"

definition mk_SockDiagResolver :: "ResolverTuning \<Rightarrow> SockDiagState" where
  "mk_SockDiagResolver tuning = \<lparr>sd_nlFd = False, sd_lastDumpMs = -1, sd_cacheTtlMs = safeCacheTtlMs (cacheRefreshMs tuning),
     sd_keyToInode = [], sd_inodeToPid = [], sd_pidToStartTime = [], sd_lastProcWalkMs = -1, sd_ready = False\<rparr>"

definition sd_setTuning :: "ResolverTuning \<Rightarrow> SockDiagState \<Rightarrow> SockDiagState" where
  "sd_setTuning tuning s = s\<lparr>sd_cacheTtlMs := safeCacheTtlMs (cacheRefreshMs tuning)\<rparr>"

section \<open>Process metadata\<close>

definition toUInt :: "string \<Rightarrow> quint32" where
  "toUInt tok = (if tok \<noteq> [] \<and> list_all is_digit tok \<and> read_nat tok 0 < 2 ^ 32 then word_of_nat (read_nat tok 0) else 0)"

definition status_line :: "string \<Rightarrow> string \<times> quint32 \<Rightarrow> string \<times> quint32" where
  "status_line line x =
     (if starts_with ''Name:'' line then (trimmed_bytes (drop 5 line), snd x)
      else if starts_with ''Uid:'' line then (fst x, toUInt (takeWhile (\<lambda>c. \<not> rx_space c) (trimmed_bytes (drop 4 line))))
      else x)"

definition readProcStatus :: "SockWorld \<Rightarrow> int \<Rightarrow> string \<times> quint32 \<Rightarrow> string \<times> quint32" where
  "readProcStatus w pid x =
     (case sw_status w pid of None \<Rightarrow> x | Some data \<Rightarrow> fold status_line (qsplit (CHR 0x0A) (take 4096 data)) x)"

definition readProcCmdline :: "SockWorld \<Rightarrow> int \<Rightarrow> string" where
  "readProcCmdline w pid =
     (case sw_cmdline w pid of
        None \<Rightarrow> []
      | Some data \<Rightarrow> trimmed (map (\<lambda>b. if b = CHR 0x00 then CHR '' '' else b) (take 8192 data)))"

section \<open>The two tables\<close>

definition dumpProto :: "SockWorld \<Rightarrow> quint8 \<Rightarrow> quint8 \<Rightarrow> SocketMap \<Rightarrow> bool \<times> SocketMap" where
  "dumpProto w family proto m =
     (case dumpSocketsViaFd (sw_sendOk w family proto) (sw_replies w family proto @ [RecvFailed]) proto m of
        Some r \<Rightarrow> r | None \<Rightarrow> (False, m))"

definition refreshSocketTable :: "SockWorld \<Rightarrow> SockDiagState \<Rightarrow> SockDiagState" where
  "refreshSocketTable w s = s\<lparr>sd_keyToInode :=
     fold (\<lambda>(family, proto) m. snd (dumpProto w family proto m))
       [(AF_INET, 6), (AF_INET6, 6), (AF_INET, 17), (AF_INET6, 17)] []\<rparr>"

text \<open>\<open>strtol\<close> on a directory name that starts with a digit, and the conversion to \<open>qint32\<close>.\<close>

definition pid_of_name :: "string \<Rightarrow> int option" where
  "pid_of_name name =
     (if name \<noteq> [] \<and> list_all is_digit name \<and> 0 < read_nat name 0
      then Some (sint (word_of_int (min (int (read_nat name 0)) (2 ^ 63 - 1)) :: 32 word)) else None)"

definition enroll_fd :: "int \<Rightarrow> quint64 \<Rightarrow> string \<times> string option \<Rightarrow> SockDiagState \<Rightarrow> SockDiagState" where
  "enroll_fd pid startTime fd s =
     (if fst fd \<noteq> [] \<and> hd (fst fd) = CHR ''.'' then s
      else
        (case snd fd of
           None \<Rightarrow> s
         | Some target \<Rightarrow>
             (case parseSocketLink target of
                None \<Rightarrow> s
              | Some inode \<Rightarrow>
                  s\<lparr>sd_inodeToPid := hinsert inode \<lparr>ps_pid = pid, ps_startTime = startTime\<rparr> (sd_inodeToPid s),
                    sd_pidToStartTime := hinsert pid startTime (sd_pidToStartTime s)\<rparr>)))"

definition walk_entry :: "SockWorld \<Rightarrow> string \<times> (string \<times> string option) list option \<Rightarrow> SockDiagState \<Rightarrow> SockDiagState" where
  "walk_entry w e s =
     (case pid_of_name (fst e) of
        None \<Rightarrow> s
      | Some pid \<Rightarrow>
          (case snd e of
             None \<Rightarrow> s
           | Some fds \<Rightarrow>
               (let startTime = (case pidStartTime (sw_files w) pid of Some st \<Rightarrow> st | None \<Rightarrow> 0)
                in fold (enroll_fd pid startTime) fds s)))"

primrec walk_proc :: "SockWorld \<Rightarrow> (string \<times> (string \<times> string option) list option) list \<Rightarrow> SockDiagState \<Rightarrow> SockDiagState" where
  "walk_proc w [] s = s"
| "walk_proc w (e # es) s =
     (if kMaxSocketEntries \<le> hsize (sd_inodeToPid s) then s else walk_proc w es (walk_entry w e s))"

definition refreshProcWalk :: "SockWorld \<Rightarrow> SockDiagState \<Rightarrow> SockDiagState" where
  "refreshProcWalk w s =
     (let s = s\<lparr>sd_inodeToPid := [], sd_pidToStartTime := []\<rparr>
      in case sw_proc w of None \<Rightarrow> s | Some es \<Rightarrow> walk_proc w es s)"

definition maybeRefresh :: "SockWorld \<Rightarrow> int \<Rightarrow> SockDiagState \<Rightarrow> SockDiagState" where
  "maybeRefresh w now s =
     (let s = (if sd_lastDumpMs s < 0 \<or> sd_cacheTtlMs s \<le> now - sd_lastDumpMs s
               then (refreshSocketTable w s)\<lparr>sd_lastDumpMs := now\<rparr> else s)
      in if sd_lastProcWalkMs s < 0 \<or> sd_cacheTtlMs s \<le> now - sd_lastProcWalkMs s
         then (refreshProcWalk w s)\<lparr>sd_lastProcWalkMs := now\<rparr> else s)"

section \<open>The resolver\<close>

definition sd_initialize :: "SockWorld \<Rightarrow> SockDiagState \<Rightarrow> bool \<times> SockDiagState" where
  "sd_initialize w s =
     (if \<not> sw_socketOpens w then (False, s\<lparr>sd_nlFd := False\<rparr>)
      else
        (let s = s\<lparr>sd_nlFd := True\<rparr>; (ok, m) = dumpProto w AF_INET 6 (sd_keyToInode s) in
         if \<not> ok then (False, s\<lparr>sd_keyToInode := m, sd_nlFd := False\<rparr>)
         else (True, s\<lparr>sd_ready := True, sd_keyToInode := []\<rparr>)))"

definition sd_capabilities :: "SockDiagState \<Rightarrow> string list" where
  "sd_capabilities s = (if \<not> sd_ready s then [] else [''process-attribution''])"

definition flow_proto :: "Connection \<Rightarrow> quint8" where
  "flow_proto flow = (if c_proto flow = Tcp then 6 else if c_proto flow = Udp then 17 else 0)"

text \<open>The inode found for a flow: the connected socket, or for UDP the socket bound to the local end alone.\<close>

definition find_socket :: "SocketMap \<Rightarrow> quint8 \<Rightarrow> Connection \<Rightarrow> quint64 option" where
  "find_socket m proto flow =
     (let l = c_local flow; r = c_remote flow in
      case hfind m (makeFlowKey proto (ep_address l) (ep_port l) (ep_address r) (ep_port r)) of
        Some inode \<Rightarrow> Some inode
      | None \<Rightarrow>
          if proto \<noteq> 17 then None
          else
            (let anyAddr = (if isIPv6Address (ep_address l) then HostV6 0 else HostV4 0);
                 wild = hfind m (makeLocalKey proto anyAddr (ep_port l))
             in case hfind m (makeLocalKey proto (ep_address l) (ep_port l)) of
                  Some inode \<Rightarrow>
                    (case wild of
                       Some v \<Rightarrow> if isAmbiguousLocalInode v \<or> v \<noteq> inode then None else Some inode
                     | None \<Rightarrow> Some inode)
                | None \<Rightarrow> wild))"

definition sd_resolvePid :: "SockWorld \<Rightarrow> int \<Rightarrow> Connection \<Rightarrow> SockDiagState \<Rightarrow> int \<times> SockDiagState" where
  "sd_resolvePid w now flow s =
     (if \<not> sd_ready s then (0, s)
      else if flow_proto flow = 0 then (0, s)
      else
        (let s = maybeRefresh w now s in
         case find_socket (sd_keyToInode s) (flow_proto flow) flow of
           None \<Rightarrow> (0, s)
         | Some inode \<Rightarrow>
             if isAmbiguousLocalInode inode then (0, s)
             else
               (case hfind (sd_inodeToPid s) inode of
                  None \<Rightarrow> (0, s)
                | Some stamp \<Rightarrow>
                    if pidStartTime (sw_files w) (ps_pid stamp) = Some (ps_startTime stamp) then (ps_pid stamp, s) else (0, s))))"

definition sd_enrichPid :: "SockWorld \<Rightarrow> int \<Rightarrow> int \<Rightarrow> SockDiagState \<Rightarrow> ProcessInfo option \<times> SockDiagState" where
  "sd_enrichPid w now pid s =
     (if \<not> sd_ready s \<or> pid \<le> 0 then (None, s)
      else
        (let s = maybeRefresh w now s in
         case hfind (sd_pidToStartTime s) pid of
           None \<Rightarrow> (None, s)
         | Some st \<Rightarrow>
             if pidStartTime (sw_files w) pid \<noteq> Some st then (None, s)
             else
               (let (comm, uid) = readProcStatus w pid ([], 0)
                in (Some \<lparr>pi_pid = pid, pi_comm = comm, pi_cmdline = readProcCmdline w pid, pi_exe = sw_exe w pid, pi_uid = uid\<rparr>, s))))"

definition sockdiag_resolver :: "SockWorld \<Rightarrow> int \<Rightarrow> SockDiagState ProcessResolver" where
  "sockdiag_resolver w now = \<lparr>
     rs_initialize = sd_initialize w,
     rs_capabilities = sd_capabilities,
     rs_setTuning = sd_setTuning,
     rs_requestDeepScan = (\<lambda>s. s),
     rs_resolvePid = sd_resolvePid w now,
     rs_enrichPid = sd_enrichPid w now,
     rs_resolveContainerForPid = (\<lambda>_ s. (None, s)),
     rs_resolveContainerChainForPid = default_chain (\<lambda>_ s. (None, s))\<rparr>"

section \<open>What a table was built from\<close>

text \<open>The table is an enrolment of some observed sockets, whatever the kernel sent.\<close>

definition enroll_all :: "(quint8 \<times> DiagMsg) list \<Rightarrow> SocketMap \<Rightarrow> SocketMap" where
  "enroll_all obs m = fold (\<lambda>(proto, d). enroll_socket proto d) obs m"

lemma enroll_all_append: "enroll_all (xs @ ys) m = enroll_all ys (enroll_all xs m)"
  by (simp add: enroll_all_def)

lemma chunk_enrolls:
  "\<exists>r e ds. parseDumpChunk buf proto m = Some (r, e, enroll_all (map (Pair proto) ds) m)"
proof -
  have step: "\<exists>ds. enroll_socket proto d (enroll_all (map (Pair proto) ds0) m) = enroll_all (map (Pair proto) ds) m" for d ds0
    by (rule exI [of _ "ds0 @ [d]"]) (simp add: enroll_all_def)
  have "\<exists>r e m'. parse_from proto buf 0 (int (length buf)) m = Some (r, e, m') \<and> (\<exists>ds. m' = enroll_all (map (Pair proto) ds) m)"
  proof (rule parse_from_total)
    show "\<exists>ds. enroll_socket proto d m' = enroll_all (map (Pair proto) ds) m" if "\<exists>ds. m' = enroll_all (map (Pair proto) ds) m" for d m'
      using that step by blast
    show "\<exists>ds. m = enroll_all (map (Pair proto) ds) m" by (rule exI [of _ "[]"]) (simp add: enroll_all_def)
  qed simp
  then show ?thesis by (auto simp: parseDumpChunk_def)
qed

lemma dump_loop_enrolls:
  "\<exists>ok ds. dump_loop proto (rs @ [RecvFailed]) m = Some (ok, enroll_all (map (Pair proto) ds) m)"
proof (induction rs arbitrary: m)
  case Nil
  show ?case by (auto simp: enroll_all_def intro: exI [of _ "[]"])
next
  case (Cons r rs)
  show ?case
  proof (cases r)
    case (Datagram n buf)
    obtain x e ds where p: "parseDumpChunk (take n buf) proto m = Some (x, e, enroll_all (map (Pair proto) ds) m)"
      using chunk_enrolls by blast
    obtain ok ds' where l: "dump_loop proto (rs @ [RecvFailed]) (enroll_all (map (Pair proto) ds) m) =
        Some (ok, enroll_all (map (Pair proto) ds') (enroll_all (map (Pair proto) ds) m))"
      using Cons.IH by blast
    have none: "enroll_all (map (Pair proto) []) m = m" by (simp add: enroll_all_def)
    have "enroll_all (map (Pair proto) ds') (enroll_all (map (Pair proto) ds) m) = enroll_all (map (Pair proto) (ds @ ds')) m"
      by (simp add: enroll_all_append)
    then show ?thesis
      using none l by (cases x) (auto simp: Datagram p intro: exI [of _ "[] :: DiagMsg list"] exI [of _ "ds @ ds'"])
  qed (use Cons.IH in \<open>auto simp: enroll_all_def intro: exI [of _ "[]"]\<close>)
qed

lemma dumpProto_enrolls: "\<exists>ds. snd (dumpProto w family proto m) = enroll_all (map (Pair proto) ds) m"
proof (cases "sw_sendOk w family proto")
  case True
  obtain ok ds where "dump_loop proto (sw_replies w family proto @ [RecvFailed]) m = Some (ok, enroll_all (map (Pair proto) ds) m)"
    using dump_loop_enrolls by blast
  then show ?thesis using True by (auto simp: dumpProto_def dumpSocketsViaFd_def)
next
  case False
  then show ?thesis by (auto simp: dumpProto_def dumpSocketsViaFd_def enroll_all_def intro: exI [of _ "[]"])
qed

lemma dumps_enroll:
  "\<forall>(family, proto) \<in> set fs. proto \<in> P \<Longrightarrow>
   \<exists>obs. fst ` set obs \<subseteq> P \<and> fold (\<lambda>(family, proto) m. snd (dumpProto w family proto m)) fs m = enroll_all obs m"
proof (induction fs arbitrary: m)
  case Nil
  show ?case by (rule exI [of _ "[]"]) (simp add: enroll_all_def)
next
  case (Cons f fs)
  obtain family proto where f: "f = (family, proto)" by fastforce
  obtain ds where ds: "snd (dumpProto w family proto m) = enroll_all (map (Pair proto) ds) m" using dumpProto_enrolls by blast
  obtain obs where obs: "fst ` set obs \<subseteq> P" "fold (\<lambda>(family, proto) m. snd (dumpProto w family proto m)) fs (enroll_all (map (Pair proto) ds) m) =
      enroll_all obs (enroll_all (map (Pair proto) ds) m)"
    using Cons.IH Cons.prems by (metis list.set_intros(2))
  show ?case
    using obs Cons.prems by (intro exI [of _ "map (Pair proto) ds @ obs"]) (auto simp: f ds enroll_all_append)
qed

lemma refreshed_table_observed:
  "\<exists>obs. fst ` set obs \<subseteq> {6, 17} \<and> sd_keyToInode (refreshSocketTable w s) = enroll_all obs []"
  using dumps_enroll [of "[(AF_INET, 6), (AF_INET6, 6), (AF_INET, 17), (AF_INET6, 17)]" "{6, 17}" w "[]"]
  by (simp add: refreshSocketTable_def)

section \<open>Local keys are ambiguity-aware\<close>

text \<open>The local keys a socket claims: its own and, for a dual-stack socket, the IPv4 one.\<close>

definition local_keys :: "quint8 \<times> DiagMsg \<Rightarrow> quint8 list list" where
  "local_keys x =
     (let (proto, d) = x; local = addrFromDiag (dm_family d) (dm_src d); (l4, lok) = toIPv4Address local
      in makeLocalKey proto local (dm_sport d) #
         (if dm_family d = AF_INET6 \<and> lok then [makeLocalKey proto (HostV4 l4) (dm_sport d)] else []))"

text \<open>The distinct inodes of the observed sockets that claim a key, and what the table must then say.\<close>

definition claimants :: "quint8 list \<Rightarrow> (quint8 \<times> DiagMsg) list \<Rightarrow> quint64 set" where
  "claimants k obs = {ucast (dm_inode (snd x)) |x. x \<in> set obs \<and> dm_inode (snd x) \<noteq> 0 \<and> k \<in> set (local_keys x)}"

definition local_verdict :: "quint8 list \<Rightarrow> (quint8 \<times> DiagMsg) list \<Rightarrow> quint64 option \<Rightarrow> bool" where
  "local_verdict k obs v =
     (case v of None \<Rightarrow> claimants k obs = {}
      | Some i \<Rightarrow> if i = 0 then \<exists>a b. a \<in> claimants k obs \<and> b \<in> claimants k obs \<and> a \<noteq> b else claimants k obs = {i})"

lemma inode_nonzero [simp]: "(ucast (i :: quint32) :: quint64) = 0 \<longleftrightarrow> i = 0"
proof -
  have "unat (ucast i :: quint64) = unat i"
    using unsigned_less [of i, where 'a = nat] by (simp add: unsigned_ucast_eq take_bit_nat_eq_self)
  then show ?thesis by (metis unat_eq_zero)
qed

text \<open>How one more claim changes an entry.\<close>

definition merge_claim :: "quint64 option \<Rightarrow> quint64 \<Rightarrow> quint64 option" where
  "merge_claim v i = (case v of None \<Rightarrow> Some i | Some j \<Rightarrow> if j \<noteq> i then Some 0 else Some j)"

lemma merge_claim_idem: "i \<noteq> 0 \<Longrightarrow> merge_claim (merge_claim v i) i = merge_claim v i"
  by (simp add: merge_claim_def split: option.split)

lemma insertLocalKey_grows: "hsize m \<le> hsize (insertLocalKey k i m)"
  by (simp add: insertLocalKey_def hsize_insert split: option.split)

lemma enroll_v4_grows: "hsize m \<le> hsize (enroll_v4 proto l lp r rp i m)"
  unfolding enroll_v4_def Let_def case_prod_beta
  by (auto simp: hsize_insert intro!: order_trans [OF _ insertLocalKey_grows])

lemma enroll_socket_grows: "hsize m \<le> hsize (enroll_socket proto d m)"
proof -
  have "hsize m \<le> hsize (insertLocalKey k i (hinsert k' i' m))" for k i k' i'
    using insertLocalKey_grows [of "hinsert k' i' m" k i] by (simp add: hsize_insert split: if_splits)
  then show ?thesis
    unfolding enroll_socket_def Let_def by (auto intro: order_trans [OF _ enroll_v4_grows])
qed

lemma insertLocalKey_find:
  assumes "hsize (insertLocalKey k0 i m) < kMaxSocketEntries"
  shows "hfind (insertLocalKey k0 i m) k = (if k = k0 then merge_claim (hfind m k) i else hfind m k)"
  using assms by (auto simp: insertLocalKey_def merge_claim_def kAmbiguousLocalInode_def hfind_insert split: option.splits if_splits)

lemma flow_key_not_local: "proto \<in> {6, 17} \<Longrightarrow> isLocalKey k \<Longrightarrow> k \<noteq> makeFlowKey proto l lp r rp"
  by (auto simp: isLocalKey_def makeFlowKey_def)

lemma enroll_v4_find:
  assumes "proto \<in> {6, 17}" and "isLocalKey k" and "hsize (enroll_v4 proto l lp r rp i m) < kMaxSocketEntries"
  shows "hfind (enroll_v4 proto l lp r rp i m) k =
    (if snd (toIPv4Address l) \<and> k = makeLocalKey proto (HostV4 (fst (toIPv4Address l))) lp then merge_claim (hfind m k) i else hfind m k)"
  using assms(3) flow_key_not_local [OF assms(1,2)]
  by (auto simp: enroll_v4_def Let_def case_prod_beta insertLocalKey_find hfind_insert split: if_splits)

lemma enroll_socket_find:
  assumes "proto \<in> {6, 17}" and "isLocalKey k" and "hsize (enroll_socket proto d m) < kMaxSocketEntries"
  shows "hfind (enroll_socket proto d m) k =
    (if dm_inode d \<noteq> 0 \<and> k \<in> set (local_keys (proto, d)) then merge_claim (hfind m k) (ucast (dm_inode d)) else hfind m k)"
proof (cases "dm_inode d = 0")
  case False
  let ?l = "addrFromDiag (dm_family d) (dm_src d)" and ?r = "addrFromDiag (dm_family d) (dm_dst d)"
  define i :: quint64 where "i = ucast (dm_inode d)"
  have i: "i \<noteq> 0" using False by (simp add: i_def)
  define m1 where "m1 = insertLocalKey (makeLocalKey proto ?l (dm_sport d)) i (hinsert (makeFlowKey proto ?l (dm_sport d) ?r (dm_dport d)) i m)"
  have notfull: "\<not> (kMaxSocketEntries \<le> hsize m \<and> \<not> hcontains m (makeFlowKey proto ?l (dm_sport d) ?r (dm_dport d)))"
    using assms(3) enroll_socket_grows [of m proto d] by linarith
  have e: "enroll_socket proto d m = (if dm_family d = AF_INET6 then enroll_v4 proto ?l (dm_sport d) ?r (dm_dport d) i m1 else m1)"
    unfolding enroll_socket_def Let_def if_not_P [OF False] if_not_P [OF notfull] m1_def i_def by (rule refl)
  have s1: "hsize m1 < kMaxSocketEntries"
    using assms(3) enroll_v4_grows [of m1 proto ?l "dm_sport d" ?r "dm_dport d" i] unfolding e by (simp split: if_splits)
  have f1: "hfind m1 k = (if k = makeLocalKey proto ?l (dm_sport d) then merge_claim (hfind m k) i else hfind m k)"
    using insertLocalKey_find [OF s1 [unfolded m1_def]] flow_key_not_local [OF assms(1,2)] by (simp add: m1_def hfind_insert)
  show ?thesis
  proof (cases "dm_family d = AF_INET6")
    case True
    define k1 where "k1 = makeLocalKey proto ?l (dm_sport d)"
    define k2 where "k2 = makeLocalKey proto (HostV4 (fst (toIPv4Address ?l))) (dm_sport d)"
    define lok where "lok = snd (toIPv4Address ?l)"
    have ks: "set (local_keys (proto, d)) = (if lok then {k1, k2} else {k1})"
      using True by (simp add: local_keys_def case_prod_beta Let_def k1_def k2_def lok_def)
    have "hsize (enroll_v4 proto ?l (dm_sport d) ?r (dm_dport d) i m1) < kMaxSocketEntries" using assms(3) True by (simp add: e)
    note f2 = enroll_v4_find [OF assms(1,2) this, folded k2_def lok_def, unfolded f1 [folded k1_def]]
    show ?thesis
      unfolding e if_P [OF True] f2 ks i_def [symmetric] using False i merge_claim_idem [OF i] by auto
  next
    case v4: False
    then show ?thesis using False f1 by (simp add: e local_keys_def case_prod_beta Let_def i_def)
  qed
qed (simp add: enroll_socket_def)

lemma claimants_snoc: "claimants k (obs @ [x]) =
    (if dm_inode (snd x) \<noteq> 0 \<and> k \<in> set (local_keys x) then insert (ucast (dm_inode (snd x))) (claimants k obs) else claimants k obs)"
  by (cases x) (auto simp: claimants_def)

lemma local_table_verdict:
  assumes "isLocalKey k" and "fst ` set obs \<subseteq> {6, 17}" and "hsize (enroll_all obs []) < kMaxSocketEntries"
  shows "local_verdict k obs (hfind (enroll_all obs []) k)"
  using assms(2,3)
proof (induction obs rule: rev_induct)
  case (snoc x obs)
  obtain proto d where x: "x = (proto, d)" by fastforce
  have e: "enroll_all (obs @ [x]) [] = enroll_socket proto d (enroll_all obs [])" by (simp add: enroll_all_def x)
  have small: "hsize (enroll_all obs []) < kMaxSocketEntries"
    using snoc.prems(2) enroll_socket_grows [of "enroll_all obs []" proto d] unfolding e by linarith
  have IH: "local_verdict k obs (hfind (enroll_all obs []) k)" using snoc.IH snoc.prems(1) small by simp
  have find: "hfind (enroll_all (obs @ [x]) []) k = (if dm_inode d \<noteq> 0 \<and> k \<in> set (local_keys x)
      then merge_claim (hfind (enroll_all obs []) k) (ucast (dm_inode d)) else hfind (enroll_all obs []) k)"
    unfolding e unfolding x using snoc.prems(1) snoc.prems(2) [unfolded e]
    by (intro enroll_socket_find [OF _ assms(1)]) (simp_all add: x)
  show ?case
    using IH unfolding find local_verdict_def claimants_snoc merge_claim_def by (auto simp: x split: option.splits if_splits)
qed (simp add: enroll_all_def local_verdict_def claimants_def)

section \<open>Reachable resolvers\<close>

inductive sd_reachable :: "SockDiagState \<Rightarrow> bool" where
  sd_start: "sd_reachable (mk_SockDiagResolver tuning)"
| sd_probe: "sd_reachable s \<Longrightarrow> sd_reachable (snd (sd_initialize w s))"
| sd_tune: "sd_reachable s \<Longrightarrow> sd_reachable (sd_setTuning tuning s)"
| sd_resolve: "sd_reachable s \<Longrightarrow> sd_reachable (snd (sd_resolvePid w now flow s))"
| sd_enrich: "sd_reachable s \<Longrightarrow> sd_reachable (snd (sd_enrichPid w now pid s))"

definition sd_ok :: "SockDiagState \<Rightarrow> bool" where
  "sd_ok s = (100 \<le> sd_cacheTtlMs s \<and> (\<exists>obs. fst ` set obs \<subseteq> {6, 17} \<and> sd_keyToInode s = enroll_all obs []))"

lemma enroll_all_ok: "socket_map_ok m \<Longrightarrow> socket_map_ok (enroll_all obs m)"
  unfolding enroll_all_def by (induction obs arbitrary: m) (auto simp: enroll_socket_ok)

lemma sd_ok_map: "sd_ok s \<Longrightarrow> socket_map_ok (sd_keyToInode s)"
  using enroll_all_ok [of "[]"] by (auto simp: sd_ok_def socket_map_ok_def)

lemma safeCacheTtlMs_floor: "100 \<le> safeCacheTtlMs raw"
  by (simp add: safeCacheTtlMs_def kDefaultSocketTtlMs_def kMinSocketTtlMs_def)

lemma enroll_fd_sel: "sd_keyToInode (enroll_fd pid st fd s) = sd_keyToInode s" "sd_cacheTtlMs (enroll_fd pid st fd s) = sd_cacheTtlMs s"
  "sd_lastDumpMs (enroll_fd pid st fd s) = sd_lastDumpMs s"
  by (simp_all add: enroll_fd_def split: option.split)

lemma enroll_fds_sel: "sd_keyToInode (fold (enroll_fd pid st) fds s) = sd_keyToInode s"
  "sd_cacheTtlMs (fold (enroll_fd pid st) fds s) = sd_cacheTtlMs s" "sd_lastDumpMs (fold (enroll_fd pid st) fds s) = sd_lastDumpMs s"
  by (induction fds arbitrary: s) (simp_all add: enroll_fd_sel)

lemma walk_proc_sel: "sd_keyToInode (walk_proc w es s) = sd_keyToInode s" "sd_cacheTtlMs (walk_proc w es s) = sd_cacheTtlMs s"
  "sd_lastDumpMs (walk_proc w es s) = sd_lastDumpMs s"
  by (induction es arbitrary: s) (simp_all add: walk_entry_def enroll_fds_sel Let_def split: option.split)

lemma refreshProcWalk_sel: "sd_keyToInode (refreshProcWalk w s) = sd_keyToInode s" "sd_cacheTtlMs (refreshProcWalk w s) = sd_cacheTtlMs s"
  "sd_lastDumpMs (refreshProcWalk w s) = sd_lastDumpMs s"
  by (simp_all add: refreshProcWalk_def walk_proc_sel Let_def split: option.split)

lemma refresh_ok: "sd_ok s \<Longrightarrow> sd_ok (maybeRefresh w now s)"
  using refreshed_table_observed [of w s] by (auto simp: maybeRefresh_def sd_ok_def Let_def refreshProcWalk_sel refreshSocketTable_def)

lemma refresh_fresh: "0 < sd_cacheTtlMs s \<Longrightarrow> now - sd_lastDumpMs (maybeRefresh w now s) < sd_cacheTtlMs (maybeRefresh w now s)"
  by (auto simp: maybeRefresh_def Let_def refreshProcWalk_sel refreshSocketTable_def)

lemma resolve_state: "snd (sd_resolvePid w now flow s) = s \<or> snd (sd_resolvePid w now flow s) = maybeRefresh w now s"
  by (simp add: sd_resolvePid_def Let_def split: option.split)

lemma enrich_state: "snd (sd_enrichPid w now pid s) = s \<or> snd (sd_enrichPid w now pid s) = maybeRefresh w now s"
  by (simp add: sd_enrichPid_def Let_def case_prod_beta split: option.split)

lemma sd_reachable_ok: "sd_reachable s \<Longrightarrow> sd_ok s"
proof (induction rule: sd_reachable.induct)
  case (sd_start tuning)
  show ?case
    by (auto simp: mk_SockDiagResolver_def sd_ok_def safeCacheTtlMs_floor enroll_all_def intro: exI [of _ "[]"])
next
  case (sd_probe s w)
  then obtain obs where obs: "fst ` set obs \<subseteq> {6, 17}" "sd_keyToInode s = enroll_all obs []" by (auto simp: sd_ok_def)
  obtain ds where "snd (dumpProto w AF_INET 6 (sd_keyToInode s)) = enroll_all (map (Pair 6) ds) (enroll_all obs [])"
    using dumpProto_enrolls obs(2) by metis
  then have "\<exists>obs. fst ` set obs \<subseteq> {6, 17} \<and> snd (dumpProto w AF_INET 6 (sd_keyToInode s)) = enroll_all obs []"
    using obs(1) by (intro exI [of _ "obs @ map (Pair 6) ds"]) (auto simp: enroll_all_append)
  moreover have "\<exists>obs. fst ` set obs \<subseteq> {6, 17} \<and> [] = enroll_all obs []" by (rule exI [of _ "[]"]) (simp add: enroll_all_def)
  ultimately show ?case using sd_probe.IH by (simp add: sd_initialize_def sd_ok_def Let_def case_prod_beta)
next
  case (sd_tune s tuning)
  then show ?case by (simp add: sd_setTuning_def sd_ok_def safeCacheTtlMs_floor)
next
  case (sd_resolve s w now flow)
  then show ?case using resolve_state [of w now flow s] refresh_ok [of s w now] by auto
next
  case (sd_enrich s w now pid)
  then show ?case using enrich_state [of w now pid s] refresh_ok [of s w now] by auto
qed

text \<open>The socket table's answer for a flow no connected socket matches: the only claimant of its local end, and
  the wildcard bind does not disagree.\<close>

definition wildcard_key :: "Connection \<Rightarrow> quint8 list" where
  "wildcard_key flow = makeLocalKey 17 (if isIPv6Address (ep_address (c_local flow)) then HostV6 0 else HostV4 0) (ep_port (c_local flow))"

definition local_key :: "Connection \<Rightarrow> quint8 list" where
  "local_key flow = makeLocalKey 17 (ep_address (c_local flow)) (ep_port (c_local flow))"

definition sole_claim :: "(quint8 \<times> DiagMsg) list \<Rightarrow> Connection \<Rightarrow> quint64 \<Rightarrow> bool" where
  "sole_claim obs flow inode =
     (claimants (local_key flow) obs = {inode} \<and> claimants (wildcard_key flow) obs \<subseteq> {inode} \<or>
      claimants (local_key flow) obs = {} \<and> claimants (wildcard_key flow) obs = {inode})"

definition tuple_key :: "Connection \<Rightarrow> quint8 list" where
  "tuple_key flow = makeFlowKey (flow_proto flow) (ep_address (c_local flow)) (ep_port (c_local flow))
     (ep_address (c_remote flow)) (ep_port (c_remote flow))"

lemma fallback_sole:
  assumes "find_socket m (flow_proto flow) flow = Some inode" and "inode \<noteq> 0" and "hfind m (tuple_key flow) = None"
    and "m = enroll_all obs []" and "fst ` set obs \<subseteq> {6, 17}" and "hsize m < kMaxSocketEntries"
  shows "c_proto flow = Udp \<and> sole_claim obs flow inode"
proof -
  have udp: "flow_proto flow = 17" using assms(1,3) by (auto simp: find_socket_def tuple_key_def Let_def split: if_splits option.splits)
  have lv: "local_verdict k obs (hfind m k)" if "isLocalKey k" for k
    using local_table_verdict [OF that assms(5)] assms(4,6) by simp
  have loc: "local_verdict (local_key flow) obs (hfind m (local_key flow))" and wild: "local_verdict (wildcard_key flow) obs (hfind m (wildcard_key flow))"
    by (rule lv; simp add: local_key_def wildcard_key_def makeLocalKey_def isLocalKey_def)+
  have f: "(case hfind m (local_key flow) of
      Some inode \<Rightarrow> (case hfind m (wildcard_key flow) of Some v \<Rightarrow> if isAmbiguousLocalInode v \<or> v \<noteq> inode then None else Some inode | None \<Rightarrow> Some inode)
    | None \<Rightarrow> hfind m (wildcard_key flow)) = Some inode"
    using assms(1,3) udp unfolding local_key_def wildcard_key_def by (simp add: find_socket_def tuple_key_def Let_def)
  have "sole_claim obs flow inode"
    using f loc wild assms(2) unfolding sole_claim_def local_verdict_def isAmbiguousLocalInode_def kAmbiguousLocalInode_def
    by (auto split: option.splits if_splits)
  moreover have "c_proto flow = Udp" using udp by (simp add: flow_proto_def split: if_splits)
  ultimately show ?thesis by blast
qed


definition sample_host :: SockWorld where
  "sample_host = \<lparr>sw_socketOpens = True, sw_sendOk = (\<lambda>_ _. True),
     sw_replies = (\<lambda>family proto. if family = AF_INET \<and> proto = 17
       then [Datagram 108 (diag_message (sample_fill, sample_diag) @ done_message)] else [Datagram 20 done_message]),
     sw_proc = Some [(''7'', Some [(''3'', Some ''socket:[4711]'')])], sw_files = sample_world,
     sw_status = (\<lambda>_. None), sw_cmdline = (\<lambda>_. None), sw_exe = (\<lambda>_. [])\<rparr>"

definition sample_dns_flow :: Connection where
  "sample_dns_flow = no_connection\<lparr>c_proto := Udp, c_local := \<lparr>ep_address = HostV4 0x7F000001, ep_port = 53\<rparr>,
     c_remote := \<lparr>ep_address = HostV4 0x0A000001, ep_port = 999\<rparr>\<rparr>"

lemma sample_lengths: "length (diag_message (sample_fill, sample_diag)) = 88" "length done_message = 20"
  by (simp_all add: diag_message_def diag_body_def sample_fill_def sample_diag_def done_message_def)

lemma sample_dump: "dumpProto sample_host f p m = (True, if f = AF_INET \<and> p = 17 then enroll_socket 17 sample_diag m else m)"
proof -
  have a: "parseDumpChunk (diag_message (sample_fill, sample_diag) @ done_message) 17 m = Some (Done, 0, enroll_socket 17 sample_diag m)"
    using parse_messages [of "[(sample_fill, sample_diag)]" 17 "[]" "[]" m]
    by (simp add: parseDumpChunk_def sample_fill_def sample_diag_def fill_ok_def diag_ok_def)
  have b: "parseDumpChunk done_message p m = Some (Done, 0, m)"
    using parse_messages [of "[]" p "[]" "[]" m] by (simp add: parseDumpChunk_def)
  show ?thesis
    by (simp add: dumpProto_def dumpSocketsViaFd_def sample_host_def a b recv_buffer_def sample_lengths)
qed

lemma be_val_Nil: "be_val [] = 0"
  by (simp add: be_val_def)

lemma replicate_zeros: "be_val (replicate n 0) = 0"
  by (induction n) (simp_all add: be_val_Cons be_val_Nil)

lemma sample_socket: "find_socket (enroll_socket 17 sample_diag []) 17 sample_dns_flow = Some 4711"
proof -
  have l: "addrFromDiag AF_INET (dm_src sample_diag) = HostV4 0x7F000001" and r: "addrFromDiag AF_INET (dm_dst sample_diag) = HostV4 0"
    using replicate_zeros by (simp_all add: addrFromDiag_def sample_diag_def be_val_Cons be_val_Nil)
  have keys: "makeLocalKey 17 (HostV4 a) p = makeLocalKey 17 (HostV4 b) q \<longleftrightarrow> a = b \<and> p = q"
    "makeFlowKey 17 (HostV4 a) p (HostV4 c) u = makeFlowKey 17 (HostV4 b) q (HostV4 d) v \<longleftrightarrow> a = b \<and> p = q \<and> c = d \<and> u = v"
    "makeFlowKey 17 x p y q \<noteq> makeLocalKey 17 z t" for a b c d p q u v x y z t
    using endpoint_bytes_inj [of "HostV4 a" "HostV4 b" p q] endpoint_bytes_inj [of "HostV4 c" "HostV4 d" u v]
    by (auto simp: makeLocalKey_def makeFlowKey_def isIPv6Address_def endpoint_bytes_length)
  have "enroll_socket 17 sample_diag [] = [(makeFlowKey 17 (HostV4 0x7F000001) 53 (HostV4 0) 0, 4711), (makeLocalKey 17 (HostV4 0x7F000001) 53, 4711)]"
    using l r by (simp add: keys(3) keys(3) [THEN not_sym] enroll_socket_def Let_def sample_diag_def AF_INET_def AF_INET6_def insertLocalKey_def kMaxSocketEntries_def)
  then show ?thesis
    by (simp add: find_socket_def sample_dns_flow_def isIPv6Address_def keys keys(3) [THEN not_sym])
qed

lemma sample_link: "parseSocketLink ''socket:[4711]'' = Some 4711"
  by (simp add: parseSocketLink_def starts_with_def ends_with_def toULongLong_def is_digit_def digit_val_def)

definition sample_resolver_state :: SockDiagState where
  "sample_resolver_state = snd (sd_initialize sample_host (mk_SockDiagResolver balancedResolverTuning))"

lemma sample_resolved: "fst (sd_resolvePid sample_host 5 sample_dns_flow sample_resolver_state) = 7"
proof -
  have pid: "pid_of_name ''7'' = Some 7" by code_simp
  have proto: "flow_proto sample_dns_flow = 17" by (simp add: flow_proto_def sample_dns_flow_def)
  have table: "sd_keyToInode (refreshSocketTable sample_host s) = enroll_socket 17 sample_diag []" for s
    by (simp add: refreshSocketTable_def sample_dump AF_INET_def AF_INET6_def)
  have walk: "sd_inodeToPid (refreshProcWalk sample_host s) = [(4711, \<lparr>ps_pid = 7, ps_startTime = 77\<rparr>)]" for s
    by (simp add: refreshProcWalk_def sample_host_def walk_entry_def pid sample_start enroll_fd_def sample_link kMaxSocketEntries_def)
  define s1 where "s1 = maybeRefresh sample_host 5 sample_resolver_state"
  have "sd_keyToInode s1 = enroll_socket 17 sample_diag []" "sd_inodeToPid s1 = [(4711, \<lparr>ps_pid = 7, ps_startTime = 77\<rparr>)]"
    by (simp_all add: s1_def maybeRefresh_def sample_resolver_state_def sd_initialize_def sample_dump mk_SockDiagResolver_def Let_def
      refreshProcWalk_sel table walk AF_INET_def AF_INET6_def refreshSocketTable_def)
  moreover have "sd_ready sample_resolver_state"
    using sample_dump [of AF_INET 6 "[]"]
    by (simp add: sample_resolver_state_def sd_initialize_def mk_SockDiagResolver_def Let_def) (simp add: sample_host_def)
  moreover have "sw_files sample_host = sample_world" by (simp add: sample_host_def)
  ultimately show ?thesis
    unfolding sd_resolvePid_def Let_def s1_def [symmetric]
    by (simp add: proto sample_socket isAmbiguousLocalInode_def kAmbiguousLocalInode_def sample_start)
qed


section \<open>The cap of the descriptor walk\<close>

lemma parseSocketLink_show: "n < 2 ^ 64 \<Longrightarrow> parseSocketLink (''socket:['' @ show_nat n @ '']'') = Some (word_of_nat n)"
  using show_nat_digits by (auto simp: parseSocketLink_def starts_with_def ends_with_def toULongLong_def list_all_iff)

definition socket_fd :: "nat \<Rightarrow> string \<times> string option" where
  "socket_fd i = (show_nat i, Some (''socket:['' @ show_nat i @ '']''))"

lemma enroll_fds_size:
  "n < 2 ^ 64 \<Longrightarrow> hwf (sd_inodeToPid s) \<Longrightarrow> sd_inodeToPid s = [] \<Longrightarrow>
   let s' = fold (enroll_fd pid st) (map socket_fd [0..<n]) s
   in hsize (sd_inodeToPid s') = n \<and> fst ` set (sd_inodeToPid s') = (\<lambda>i. word_of_nat i) ` {0..<n}"
proof (induction n)
  case (Suc n)
  define s' where "s' = fold (enroll_fd pid st) (map socket_fd [0..<n]) s"
  have IH: "hsize (sd_inodeToPid s') = n" "fst ` set (sd_inodeToPid s') = (\<lambda>i. word_of_nat i) ` {0..<n}"
    using Suc by (simp_all add: s'_def Let_def)
  have dot: "hd (show_nat n) \<noteq> CHR ''.''" using show_nat_digits [OF hd_in_set [OF show_nat_nonempty], of n] by (auto simp: is_digit_def)
  have step: "sd_inodeToPid (enroll_fd pid st (socket_fd n) s') = hinsert (word_of_nat n) \<lparr>ps_pid = pid, ps_startTime = st\<rparr> (sd_inodeToPid s')"
    using dot Suc.prems(1) parseSocketLink_show [of n] by (simp add: enroll_fd_def socket_fd_def)
  have "word_of_nat n \<noteq> (word_of_nat i :: quint64)" if "i < n" for i
  proof
    assume "word_of_nat n = (word_of_nat i :: quint64)"
    then have "unat (word_of_nat n :: quint64) = unat (word_of_nat i :: quint64)" by simp
    then show False using that Suc.prems(1) by (simp add: unat_of_nat)
  qed
  then have new: "hfind (sd_inodeToPid s') (word_of_nat n) = None"
    unfolding hfind_None_iff IH(2) by (metis (no_types, lifting) atLeastLessThan_iff imageE)
  have "fold (enroll_fd pid st) (map socket_fd [0..<Suc n]) s = enroll_fd pid st (socket_fd n) s'" by (simp add: s'_def)
  then show ?case
    using IH new unfolding Let_def by (simp add: step hsize_insert_new hinsert_keys atLeast0_lessThan_Suc)
qed simp

text \<open>The walk looks at the cap between processes only: one process with \<open>n\<close> socket descriptors puts all \<open>n\<close> of
  them into the table, however large \<open>n\<close> is.\<close>

lemma walk_overruns_cap:
  assumes "n < 2 ^ 64"
  shows "hsize (sd_inodeToPid (walk_proc w [(''7'', Some (map socket_fd [0..<n]))]
    (mk_SockDiagResolver tuning))) = n"
proof -
  have pid: "pid_of_name ''7'' = Some 7" by (simp add: pid_of_name_def is_digit_def digit_val_def)
  show ?thesis
    using enroll_fds_size [OF assms, of "mk_SockDiagResolver tuning" 7 "case pidStartTime (sw_files w) 7 of Some st \<Rightarrow> st | None \<Rightarrow> 0"]
    by (simp add: walk_entry_def pid mk_SockDiagResolver_def kMaxSocketEntries_def Let_def)
qed

text \<open>Past the cap a further socket on the same local end no longer makes it ambiguous.\<close>

lemma cap_hides_ambiguity:
  assumes "kMaxSocketEntries \<le> hsize m" and "\<not> hcontains m (makeFlowKey proto (addrFromDiag (dm_family d) (dm_src d)) (dm_sport d)
      (addrFromDiag (dm_family d) (dm_dst d)) (dm_dport d))"
  shows "enroll_socket proto d m = m"
  using assms by (simp add: enroll_socket_def Let_def)

end
