(* ===== verification/NetnsScanner.thy ===== *)
theory NetnsScanner
  imports SockDiagResolver
begin

text \<open>
  \<open>backend/linux/NetnsScanner.cpp\<close>: attribution of flows whose socket lives in the network namespace of a
  container. A worker thread walks \<open>/proc\<close>, groups processes by network namespace, enters each foreign namespace in
  turn, dumps its sockets there, and returns to its own. The tables it publishes are read on the data thread.

  The namespace a thread is in is a field of the worker's state, and a dump is answered by the namespace the thread is
  in at that moment. The host is the argument \<open>w\<close>: what \<open>/proc\<close> and each system call return, with the results of
  two looks at the same file kept apart. \<open>qFatal\<close> is the outcome \<open>None\<close>.
\<close>

section \<open>State and world\<close>

record NetnsPid =
  np_pid :: int
  np_startTime :: quint64

record NetnsBucket =
  nb_inode :: quint64
  nb_pids :: "NetnsPid list"

text \<open>\<open>nw_names\<close> is the listing of \<open>/proc\<close>, \<open>nw_stat\<close> the namespace of a process during the walk, \<open>nw_open\<close> the
  namespace its file refers to when it is opened later (no answer: \<open>open\<close> or \<open>fstat\<close> failed). \<open>nw_view\<close> is the
  socket interface as a thread in a namespace has it.\<close>

record NetnsWorld =
  nw_anchorOpens :: bool
  nw_anchorStats :: bool
  nw_selfExists :: bool
  nw_names :: "string list option"
  nw_stat :: "int \<Rightarrow> quint64 option"
  nw_open :: "int \<Rightarrow> quint64 option"
  nw_enter :: "int \<Rightarrow> bool"
  nw_restore :: "int \<Rightarrow> bool"
  nw_view :: "quint64 \<Rightarrow> SockWorld"
  nw_fds :: "int \<Rightarrow> (string \<times> string option) list option"
  nw_files :: ProcWorld
  nw_status :: "int \<Rightarrow> string option"

record NetnsTables =
  nt_keyToInode :: SocketMap
  nt_inodeToPid :: "(quint64, PidStamp) qhash"
  nt_pidToStartTime :: "(int, quint64) qhash"

record NetnsWorker =
  nk_timer :: "int option"
  nk_anchorFd :: "quint64 option"
  nk_anchorInode :: quint64
  nk_warnedNetnsCap :: bool
  nk_warnedMapCap :: bool
  nk_netns :: quint64

datatype WorkerCall = CallStart | CallTick | CallStop

record NetnsScanner =
  nn_refreshIntervalMs :: int
  nn_lastDemandMs :: int
  nn_ready :: bool
  nn_stop :: bool
  nn_tables :: NetnsTables
  nn_worker :: "NetnsWorker option"
  nn_calls :: "WorkerCall list"

definition kRefreshIntervalMs :: int where "kRefreshIntervalMs = 5000"
definition kMinRefreshIntervalMs :: int where "kMinRefreshIntervalMs = 250"
definition kMaxNetnsesPerTick :: nat where "kMaxNetnsesPerTick = 256"

definition safeRefreshIntervalMs :: "int \<Rightarrow> int" where
  "safeRefreshIntervalMs raw =
     (if raw \<le> 0 then kRefreshIntervalMs else if kMinRefreshIntervalMs \<le> raw then raw else kMinRefreshIntervalMs)"

section \<open>Grouping the processes\<close>

text \<open>\<open>strtol\<close> on a name of \<open>/proc\<close>, and the conversion of a \<open>long\<close> to \<open>qint32\<close>.\<close>

definition long_of_name :: "string \<Rightarrow> int option" where
  "long_of_name name =
     (if name \<noteq> [] \<and> list_all is_digit name \<and> 0 < read_nat name 0
      then Some (min (int (read_nat name 0)) (2 ^ 63 - 1)) else None)"

definition qint32_of :: "int \<Rightarrow> int" where
  "qint32_of n = sint (word_of_int n :: 32 word)"

record NetnsWalk =
  wk_netnses :: "NetnsBucket list"
  wk_bucketByInode :: "(quint64, nat) qhash"
  wk_warned :: bool

definition group_pid :: "quint64 \<Rightarrow> NetnsPid \<Rightarrow> NetnsWalk \<Rightarrow> NetnsWalk" where
  "group_pid ino e k =
     (case hfind (wk_bucketByInode k) ino of
        Some i \<Rightarrow> k\<lparr>wk_netnses := (wk_netnses k)[i := (wk_netnses k ! i)\<lparr>nb_pids := nb_pids (wk_netnses k ! i) @ [e]\<rparr>]\<rparr>
      | None \<Rightarrow>
          if kMaxNetnsesPerTick \<le> length (wk_netnses k) then k\<lparr>wk_warned := True\<rparr>
          else
            (let n = length (wk_netnses k);
                 k = k\<lparr>wk_bucketByInode := hinsert ino n (wk_bucketByInode k),
                       wk_netnses := wk_netnses k @ [\<lparr>nb_inode = ino, nb_pids = [e]\<rparr>]\<rparr>
             in if kMaxNetnsesPerTick \<le> length (wk_netnses k) then k\<lparr>wk_warned := True\<rparr> else k))"

definition walk_name :: "NetnsWorld \<Rightarrow> quint64 \<Rightarrow> string \<Rightarrow> NetnsWalk \<Rightarrow> NetnsWalk" where
  "walk_name w anchorInode name k =
     (case long_of_name name of
        None \<Rightarrow> k
      | Some pid \<Rightarrow>
          (case nw_stat w pid of
             None \<Rightarrow> k
           | Some ino \<Rightarrow>
               if ino = anchorInode then k
               else group_pid ino
                      \<lparr>np_pid = pid, np_startTime = (case pidStartTime (nw_files w) (qint32_of pid) of Some st \<Rightarrow> st | None \<Rightarrow> 0)\<rparr> k))"

definition walk_netnses :: "NetnsWorld \<Rightarrow> quint64 \<Rightarrow> bool \<Rightarrow> string list \<Rightarrow> NetnsWalk" where
  "walk_netnses w anchorInode warned names =
     fold (walk_name w anchorInode) names \<lparr>wk_netnses = [], wk_bucketByInode = [], wk_warned = warned\<rparr>"

section \<open>One namespace\<close>

definition netns_fd :: "int \<Rightarrow> quint64 \<Rightarrow> string \<times> string option \<Rightarrow> (quint64, PidStamp) qhash \<Rightarrow> (quint64, PidStamp) qhash" where
  "netns_fd pid startTime fd m =
     (if fst fd \<noteq> [] \<and> hd (fst fd) = CHR ''.'' then m
      else
        (case snd fd of
           None \<Rightarrow> m
         | Some target \<Rightarrow>
             (case parseSocketLink target of
                None \<Rightarrow> m
              | Some inode \<Rightarrow> hinsert inode \<lparr>ps_pid = qint32_of pid, ps_startTime = startTime\<rparr> m)))"

text \<open>The loop over the processes of a namespace, with the flag of the once-only warning.\<close>

primrec netns_pids :: "NetnsWorld \<Rightarrow> NetnsPid list \<Rightarrow> (quint64, PidStamp) qhash \<times> bool \<Rightarrow> (quint64, PidStamp) qhash \<times> bool" where
  "netns_pids w [] x = x"
| "netns_pids w (e # es) x =
     (if kMaxSocketEntries \<le> hsize (fst x) then (fst x, True)
      else if np_pid e \<le> 0 then netns_pids w es x
      else
        (case nw_fds w (np_pid e) of
           None \<Rightarrow> netns_pids w es x
         | Some fds \<Rightarrow> netns_pids w es (fold (netns_fd (np_pid e) (np_startTime e)) fds (fst x), snd x)))"

definition buildInodeToPidForNetns :: "NetnsWorld \<Rightarrow> NetnsBucket \<Rightarrow> bool \<Rightarrow> (quint64, PidStamp) qhash \<times> bool" where
  "buildInodeToPidForNetns w ns warned = netns_pids w (nb_pids ns) ([], warned)"

text \<open>The four dumps, answered by the namespace the thread is in.\<close>

definition netns_dumps :: "SockWorld \<Rightarrow> SocketMap" where
  "netns_dumps v = fold (\<lambda>(family, proto) m. snd (dumpProto v family proto m))
     [(AF_INET, 6), (AF_INET6, 6), (AF_INET, 17), (AF_INET6, 17)] []"

definition merge_key :: "(quint64, PidStamp) qhash \<Rightarrow> quint8 list \<times> quint64 \<Rightarrow> SocketMap \<times> bool \<Rightarrow> SocketMap \<times> bool" where
  "merge_key owners kv x =
     (let (key, inode) = kv; (outKey, warned) = x in
      if kMaxSocketEntries \<le> hsize outKey \<and> \<not> hcontains outKey key then (outKey, True)
      else if isLocalKey key then
        (if isAmbiguousLocalInode inode \<or> hcontains owners inode then (insertLocalKey key inode outKey, warned) else x)
      else if hcontains owners inode then (hinsert key inode outKey, warned)
      else x)"

primrec merge_inodes :: "(quint64, PidStamp) qhash \<Rightarrow> (quint64, PidStamp) qhash \<times> (int, quint64) qhash \<times> bool \<Rightarrow>
    (quint64, PidStamp) qhash \<times> (int, quint64) qhash \<times> bool" where
  "merge_inodes [] x = x"
| "merge_inodes (e # es) x =
     (let (outInode, outPid, warned) = x in
      if kMaxSocketEntries \<le> hsize outInode then (outInode, outPid, True)
      else merge_inodes es (hinsert (fst e) (snd e) outInode, hinsert (ps_pid (snd e)) (ps_startTime (snd e)) outPid, warned))"

text \<open>The work between entering a namespace and the restore guard.\<close>

definition collect_netns :: "NetnsWorld \<Rightarrow> NetnsBucket \<Rightarrow> NetnsWorker \<Rightarrow> NetnsTables \<Rightarrow> NetnsWorker \<times> NetnsTables" where
  "collect_netns w ns k t =
     (if \<not> sw_socketOpens (nw_view w (nk_netns k)) then (k, t)
      else
        (let nsKeyToInode = netns_dumps (nw_view w (nk_netns k));
             (nsInodeToPid, warned) = buildInodeToPidForNetns w ns (nk_warnedMapCap k);
             (outKey, warned) = fold (merge_key nsInodeToPid) nsKeyToInode (nt_keyToInode t, warned);
             (outInode, outPid, warned) = merge_inodes nsInodeToPid (nt_inodeToPid t, nt_pidToStartTime t, warned)
         in (k\<lparr>nk_warnedMapCap := warned\<rparr>,
             \<lparr>nt_keyToInode = outKey, nt_inodeToPid = outInode, nt_pidToStartTime = outPid\<rparr>)))"

text \<open>The restore guard: back to the anchor, or the process is aborted.\<close>

definition restore_guard :: "bool \<Rightarrow> NetnsWorker \<Rightarrow> NetnsWorker option" where
  "restore_guard ok k =
     (case nk_anchorFd k of
        None \<Rightarrow> Some k
      | Some home \<Rightarrow> if \<not> ok then None else Some (k\<lparr>nk_netns := home\<rparr>))"

definition scanOneNetns :: "NetnsWorld \<Rightarrow> NetnsBucket \<Rightarrow> NetnsWorker \<times> NetnsTables \<Rightarrow> (NetnsWorker \<times> NetnsTables) option" where
  "scanOneNetns w ns x =
     (let (k, t) = x in
      case nb_pids ns of
        [] \<Rightarrow> Some x
      | rep # _ \<Rightarrow>
          (case nw_open w (np_pid rep) of
             None \<Rightarrow> Some x
           | Some target \<Rightarrow>
               if target \<noteq> nb_inode ns then Some x
               else if \<not> nw_enter w (np_pid rep) then Some x
               else
                 (let (k, t) = collect_netns w ns (k\<lparr>nk_netns := target\<rparr>) t
                  in case restore_guard (nw_restore w (np_pid rep)) k of None \<Rightarrow> None | Some k \<Rightarrow> Some (k, t))))"

primrec scan_all :: "NetnsWorld \<Rightarrow> NetnsBucket list \<Rightarrow> NetnsWorker \<times> NetnsTables \<Rightarrow> (NetnsWorker \<times> NetnsTables) option" where
  "scan_all w [] x = Some x"
| "scan_all w (ns # nss) x = (case scanOneNetns w ns x of None \<Rightarrow> None | Some y \<Rightarrow> scan_all w nss y)"

section \<open>The worker\<close>

definition no_tables :: NetnsTables where
  "no_tables = \<lparr>nt_keyToInode = [], nt_inodeToPid = [], nt_pidToStartTime = []\<rparr>"

definition worker_start :: "NetnsWorld \<Rightarrow> int \<Rightarrow> NetnsWorker \<Rightarrow> NetnsWorker \<times> WorkerCall list" where
  "worker_start w interval k =
     (if \<not> nw_anchorOpens w then (k\<lparr>nk_anchorFd := None\<rparr>, [])
      else if \<not> nw_anchorStats w then (k\<lparr>nk_anchorFd := None\<rparr>, [])
      else (k\<lparr>nk_anchorFd := Some (nk_netns k), nk_anchorInode := nk_netns k, nk_timer := Some interval\<rparr>, [CallTick]))"

definition worker_stop :: "NetnsWorker \<Rightarrow> NetnsWorker" where
  "worker_stop k = k\<lparr>nk_timer := None, nk_anchorFd := None\<rparr>"

text \<open>A tick: the worker afterwards and the tables it publishes, if any.\<close>

definition worker_tick :: "NetnsWorld \<Rightarrow> bool \<Rightarrow> int \<Rightarrow> NetnsWorker \<Rightarrow> (NetnsWorker \<times> NetnsTables option) option" where
  "worker_tick w stop want k =
     (if stop then Some (k, None)
      else if nk_anchorFd k = None then Some (k, None)
      else
        (let k = (case nk_timer k of Some iv \<Rightarrow> if iv \<noteq> want then k\<lparr>nk_timer := Some want\<rparr> else k | None \<Rightarrow> k) in
         case nw_names w of
           None \<Rightarrow> Some (k, None)
         | Some names \<Rightarrow>
             (let wk = walk_netnses w (nk_anchorInode k) (nk_warnedNetnsCap k) names
              in case scan_all w (wk_netnses wk) (k\<lparr>nk_warnedNetnsCap := wk_warned wk\<rparr>, no_tables) of
                   None \<Rightarrow> None
                 | Some (k, t) \<Rightarrow> Some (k, Some t))))"

section \<open>The scanner\<close>

definition mk_NetnsScanner :: "ResolverTuning \<Rightarrow> NetnsScanner" where
  "mk_NetnsScanner tuning = \<lparr>nn_refreshIntervalMs = safeRefreshIntervalMs (netnsRefreshMs tuning), nn_lastDemandMs = 0,
     nn_ready = False, nn_stop = False, nn_tables = no_tables, nn_worker = None, nn_calls = []\<rparr>"

definition nn_setTuning :: "ResolverTuning \<Rightarrow> NetnsScanner \<Rightarrow> NetnsScanner" where
  "nn_setTuning tuning s = s\<lparr>nn_refreshIntervalMs := safeRefreshIntervalMs (netnsRefreshMs tuning)\<rparr>"

definition nn_requestDeepScan :: "int \<Rightarrow> NetnsScanner \<Rightarrow> NetnsScanner" where
  "nn_requestDeepScan nowMs s =
     (if \<not> nn_ready s \<or> nn_worker s = None then s
      else if nn_lastDemandMs s \<noteq> 0 \<and> nowMs - nn_lastDemandMs s < max 250 (nn_refreshIntervalMs s div 4) then s
      else s\<lparr>nn_lastDemandMs := nowMs, nn_calls := nn_calls s @ [CallTick]\<rparr>)"

text \<open>The worker's thread begins in the namespace of the process that creates it.\<close>

definition new_worker :: "quint64 \<Rightarrow> NetnsWorker" where
  "new_worker home = \<lparr>nk_timer = None, nk_anchorFd = None, nk_anchorInode = 0, nk_warnedNetnsCap = False,
     nk_warnedMapCap = False, nk_netns = home\<rparr>"

definition nn_initialize :: "NetnsWorld \<Rightarrow> quint64 \<Rightarrow> NetnsScanner \<Rightarrow> bool \<times> NetnsScanner" where
  "nn_initialize w home s =
     (if \<not> nw_selfExists w then (False, s)
      else (True, s\<lparr>nn_worker := Some (new_worker home), nn_calls := [CallStart], nn_ready := True\<rparr>))"

definition nn_capabilities :: "NetnsScanner \<Rightarrow> string list" where
  "nn_capabilities s = (if \<not> nn_ready s then [] else [''netns-scan''])"

text \<open>The worker thread runs a tick, and the next call of its queue.\<close>

definition nn_tick :: "NetnsWorld \<Rightarrow> NetnsWorker \<Rightarrow> NetnsScanner \<Rightarrow> NetnsScanner option" where
  "nn_tick w k s =
     (case worker_tick w (nn_stop s) (nn_refreshIntervalMs s) k of
        None \<Rightarrow> None
      | Some (k, t) \<Rightarrow>
          Some (s\<lparr>nn_worker := Some k, nn_tables := (case t of None \<Rightarrow> nn_tables s | Some t \<Rightarrow> t)\<rparr>))"

definition nn_run_call :: "NetnsWorld \<Rightarrow> NetnsScanner \<Rightarrow> NetnsScanner option" where
  "nn_run_call w s =
     (case (nn_worker s, nn_calls s) of
        (Some k, c # cs) \<Rightarrow>
          (let s = s\<lparr>nn_calls := cs\<rparr> in
           case c of
             CallStart \<Rightarrow> (let (k, posted) = worker_start w (nn_refreshIntervalMs s) k
                           in Some (s\<lparr>nn_worker := Some k, nn_calls := cs @ posted\<rparr>))
           | CallTick \<Rightarrow> nn_tick w k s
           | CallStop \<Rightarrow> Some (s\<lparr>nn_worker := Some (worker_stop k)\<rparr>))
      | _ \<Rightarrow> Some s)"

definition nn_timeout :: "NetnsWorld \<Rightarrow> NetnsScanner \<Rightarrow> NetnsScanner option" where
  "nn_timeout w s =
     (case nn_worker s of
        None \<Rightarrow> Some s
      | Some k \<Rightarrow> if nk_timer k = None then Some s else nn_tick w k s)"

text \<open>The destructor posts \<open>stop\<close> behind the calls already queued and waits for it; a tick that is still queued
  finds the stop flag.\<close>

primrec nn_drain :: "NetnsWorld \<Rightarrow> nat \<Rightarrow> NetnsScanner \<Rightarrow> NetnsScanner option" where
  "nn_drain w 0 s = Some s"
| "nn_drain w (Suc n) s = (case nn_run_call w s of None \<Rightarrow> None | Some s \<Rightarrow> nn_drain w n s)"

definition nn_destroy :: "NetnsWorld \<Rightarrow> NetnsScanner \<Rightarrow> NetnsScanner option" where
  "nn_destroy w s =
     (let s = s\<lparr>nn_stop := True\<rparr> in
      if nn_worker s = None then Some s
      else
        (let s = s\<lparr>nn_calls := nn_calls s @ [CallStop]\<rparr> in
         case nn_drain w (length (nn_calls s)) s of
           None \<Rightarrow> None
         | Some s \<Rightarrow> Some (s\<lparr>nn_worker := None, nn_calls := []\<rparr>)))"

definition nn_resolvePid :: "ProcWorld \<Rightarrow> Connection \<Rightarrow> NetnsScanner \<Rightarrow> int" where
  "nn_resolvePid files flow s =
     (if \<not> nn_ready s then 0
      else if flow_proto flow = 0 then 0
      else
        (case find_socket (nt_keyToInode (nn_tables s)) (flow_proto flow) flow of
           None \<Rightarrow> 0
         | Some inode \<Rightarrow>
             if isAmbiguousLocalInode inode then 0
             else
               (case hfind (nt_inodeToPid (nn_tables s)) inode of
                  None \<Rightarrow> 0
                | Some stamp \<Rightarrow>
                    if pidStartTime files (ps_pid stamp) = Some (ps_startTime stamp) then ps_pid stamp else 0)))"

primrec first_name :: "string list \<Rightarrow> string" where
  "first_name [] = []"
| "first_name (line # ls) = (if starts_with ''Name:'' line then trimmed_bytes (drop 5 line) else first_name ls)"

definition nn_enrichPid :: "NetnsWorld \<Rightarrow> int \<Rightarrow> NetnsScanner \<Rightarrow> ProcessInfo option" where
  "nn_enrichPid w pid s =
     (if \<not> nn_ready s \<or> pid \<le> 0 then None
      else
        (case hfind (nt_pidToStartTime (nn_tables s)) pid of
           None \<Rightarrow> None
         | Some st \<Rightarrow>
             if pidStartTime (nw_files w) pid \<noteq> Some st then None
             else Some \<lparr>pi_pid = pid,
               pi_comm = (case nw_status w pid of None \<Rightarrow> [] | Some data \<Rightarrow> first_name (qsplit (CHR 0x0A) (take 4096 data))),
               pi_cmdline = [], pi_exe = [], pi_uid = 0\<rparr>))"

definition netns_resolver :: "NetnsWorld \<Rightarrow> quint64 \<Rightarrow> int \<Rightarrow> NetnsScanner ProcessResolver" where
  "netns_resolver w home now = \<lparr>
     rs_initialize = nn_initialize w home,
     rs_capabilities = nn_capabilities,
     rs_setTuning = nn_setTuning,
     rs_requestDeepScan = nn_requestDeepScan now,
     rs_resolvePid = (\<lambda>flow s. (nn_resolvePid (nw_files w) flow s, s)),
     rs_enrichPid = (\<lambda>pid s. (nn_enrichPid w pid s, s)),
     rs_resolveContainerForPid = (\<lambda>_ s. (None, s)),
     rs_resolveContainerChainForPid = default_chain (\<lambda>_ s. (None, s))\<rparr>"

section \<open>Buckets\<close>

text \<open>What the walk computes: the first 256 foreign namespaces in the order \<open>/proc\<close> lists them, each with all of
  its processes in that order.\<close>

definition foreign_pids :: "NetnsWorld \<Rightarrow> quint64 \<Rightarrow> string list \<Rightarrow> (quint64 \<times> NetnsPid) list" where
  "foreign_pids w home names = concat (map (\<lambda>name.
     case long_of_name name of
       None \<Rightarrow> []
     | Some pid \<Rightarrow>
         (case nw_stat w pid of
            None \<Rightarrow> []
          | Some ino \<Rightarrow> if ino = home then []
              else [(ino, \<lparr>np_pid = pid, np_startTime = (case pidStartTime (nw_files w) (qint32_of pid) of Some st \<Rightarrow> st | None \<Rightarrow> 0)\<rparr>)])) names)"

definition first_seen :: "'a list \<Rightarrow> 'a list" where
  "first_seen xs = rev (remdups (rev xs))"

definition bucket_inodes :: "(quint64 \<times> NetnsPid) list \<Rightarrow> quint64 list" where
  "bucket_inodes ps = take kMaxNetnsesPerTick (first_seen (map fst ps))"

definition buckets_of :: "(quint64 \<times> NetnsPid) list \<Rightarrow> NetnsBucket list" where
  "buckets_of ps = map (\<lambda>ino. \<lparr>nb_inode = ino, nb_pids = map snd (filter (\<lambda>p. fst p = ino) ps)\<rparr>) (bucket_inodes ps)"

lemma first_seen_snoc: "first_seen (xs @ [x]) = (if x \<in> set xs then first_seen xs else first_seen xs @ [x])"
  by (simp add: first_seen_def)

lemma first_seen_distinct [simp]: "distinct (first_seen xs)"
  by (simp add: first_seen_def)

lemma set_first_seen [simp]: "set (first_seen xs) = set xs"
  by (simp add: first_seen_def)

definition walk_ok :: "(quint64 \<times> NetnsPid) list \<Rightarrow> NetnsWalk \<Rightarrow> bool" where
  "walk_ok ps k = (wk_netnses k = buckets_of ps \<and>
     (\<forall>ino i. hfind (wk_bucketByInode k) ino = Some i \<longleftrightarrow> i < length (bucket_inodes ps) \<and> bucket_inodes ps ! i = ino))"

lemma bucket_inodes_snoc:
  "bucket_inodes (ps @ [(ino, e)]) =
    (if ino \<in> set (bucket_inodes ps) \<or> kMaxNetnsesPerTick \<le> length (bucket_inodes ps) then bucket_inodes ps else bucket_inodes ps @ [ino])"
proof (cases "ino \<in> set (map fst ps)")
  case True
  then have same: "bucket_inodes (ps @ [(ino, e)]) = bucket_inodes ps" by (simp add: bucket_inodes_def first_seen_snoc)
  have "ino \<in> set (bucket_inodes ps)" if "length (bucket_inodes ps) < kMaxNetnsesPerTick"
    using True that by (simp add: bucket_inodes_def)
  then show ?thesis using same by fastforce
next
  case False
  then have "ino \<notin> set (bucket_inodes ps)" unfolding bucket_inodes_def by (metis in_set_takeD set_first_seen)
  then show ?thesis using False by (auto simp: bucket_inodes_def first_seen_snoc)
qed

lemma buckets_nth:
  "i < length (bucket_inodes ps) \<Longrightarrow>
   buckets_of ps ! i = \<lparr>nb_inode = bucket_inodes ps ! i, nb_pids = map snd (filter (\<lambda>p. fst p = bucket_inodes ps ! i) ps)\<rparr>"
  by (simp add: buckets_of_def)

lemma buckets_length [simp]: "length (buckets_of ps) = length (bucket_inodes ps)"
  by (simp add: buckets_of_def)

lemma bucket_inodes_distinct [simp]: "distinct (bucket_inodes ps)"
  by (simp add: bucket_inodes_def)

lemma buckets_add_known:
  assumes "i < length (bucket_inodes ps)" and "bucket_inodes ps ! i = ino"
  shows "buckets_of (ps @ [(ino, e)]) = (buckets_of ps)[i := (buckets_of ps ! i)\<lparr>nb_pids := nb_pids (buckets_of ps ! i) @ [e]\<rparr>]"
proof (rule nth_equalityI)
  have same: "bucket_inodes (ps @ [(ino, e)]) = bucket_inodes ps" using assms nth_mem by (fastforce simp: bucket_inodes_snoc)
  show "length (buckets_of (ps @ [(ino, e)])) = length ((buckets_of ps)[i := (buckets_of ps ! i)\<lparr>nb_pids := nb_pids (buckets_of ps ! i) @ [e]\<rparr>])"
    by (simp add: same)
  fix j assume "j < length (buckets_of (ps @ [(ino, e)]))"
  then have j: "j < length (bucket_inodes ps)" by (simp add: same)
  have "bucket_inodes ps ! j = ino \<longleftrightarrow> j = i" using assms j nth_eq_iff_index_eq [OF bucket_inodes_distinct] by metis
  then show "buckets_of (ps @ [(ino, e)]) ! j = (buckets_of ps)[i := (buckets_of ps ! i)\<lparr>nb_pids := nb_pids (buckets_of ps ! i) @ [e]\<rparr>] ! j"
    using assms j by (cases "j = i") (auto simp: buckets_nth same)
qed

lemma buckets_add_new:
  assumes "ino \<notin> set (bucket_inodes ps)" and "length (bucket_inodes ps) < kMaxNetnsesPerTick"
  shows "buckets_of (ps @ [(ino, e)]) = buckets_of ps @ [\<lparr>nb_inode = ino, nb_pids = [e]\<rparr>]"
proof -
  have "ino \<notin> set (map fst ps)" using assms by (simp add: bucket_inodes_def)
  then have none: "filter (\<lambda>p. fst p = ino) ps = []" by (auto simp: filter_empty_conv)
  have new: "bucket_inodes (ps @ [(ino, e)]) = bucket_inodes ps @ [ino]" using assms by (simp add: bucket_inodes_snoc)
  show ?thesis using assms(1) none unfolding buckets_of_def new by auto
qed

lemma buckets_add_full:
  assumes "ino \<notin> set (bucket_inodes ps)" and "kMaxNetnsesPerTick \<le> length (bucket_inodes ps)"
  shows "buckets_of (ps @ [(ino, e)]) = buckets_of ps"
proof -
  have "bucket_inodes (ps @ [(ino, e)]) = bucket_inodes ps" using assms by (simp add: bucket_inodes_snoc)
  then show ?thesis using assms(1) by (auto simp: buckets_of_def)
qed

lemma group_pid_ok:
  assumes "walk_ok ps k"
  shows "walk_ok (ps @ [(ino, e)]) (group_pid ino e k)"
proof -
  have nets: "wk_netnses k = buckets_of ps"
    and idx: "\<And>ino i. hfind (wk_bucketByInode k) ino = Some i \<longleftrightarrow> i < length (bucket_inodes ps) \<and> bucket_inodes ps ! i = ino"
    using assms by (auto simp: walk_ok_def)
  have none: "hfind (wk_bucketByInode k) ino = None \<longleftrightarrow> ino \<notin> set (bucket_inodes ps)"
    using idx [of ino] by (metis in_set_conv_nth not_None_eq)
  show ?thesis
  proof (cases "hfind (wk_bucketByInode k) ino")
    case (Some i)
    then have i: "i < length (bucket_inodes ps)" "bucket_inodes ps ! i = ino" using idx by auto
    then have "bucket_inodes (ps @ [(ino, e)]) = bucket_inodes ps" using nth_mem by (fastforce simp: bucket_inodes_snoc)
    moreover have "group_pid ino e k = k\<lparr>wk_netnses := (wk_netnses k)[i := (wk_netnses k ! i)\<lparr>nb_pids := nb_pids (wk_netnses k ! i) @ [e]\<rparr>]\<rparr>"
      using Some by (simp add: group_pid_def)
    ultimately show ?thesis using nets idx buckets_add_known [OF i] by (simp add: walk_ok_def)
  next
    case None
    then have fresh: "ino \<notin> set (bucket_inodes ps)" using none by blast
    show ?thesis
    proof (cases "kMaxNetnsesPerTick \<le> length (bucket_inodes ps)")
      case True
      then show ?thesis
        using None nets idx buckets_add_full [OF fresh True] by (simp add: group_pid_def walk_ok_def bucket_inodes_snoc)
    next
      case False
      have "hfind (hinsert ino (length (bucket_inodes ps)) (wk_bucketByInode k)) ino' = Some i \<longleftrightarrow>
          i < Suc (length (bucket_inodes ps)) \<and> (bucket_inodes ps @ [ino]) ! i = ino'" for ino' i
        using fresh idx [of ino' i] by (auto simp: hfind_insert nth_append less_Suc_eq)
      then show ?thesis
        using None False nets fresh buckets_add_new [OF fresh] by (simp add: group_pid_def walk_ok_def Let_def bucket_inodes_snoc)
    qed
  qed
qed

lemma walk_name_ok:
  "walk_ok (foreign_pids w home names) k \<Longrightarrow> walk_ok (foreign_pids w home (names @ [name])) (walk_name w home name k)"
  by (auto simp: walk_name_def foreign_pids_def group_pid_ok split: option.split)

lemma walk_netnses_ok: "walk_ok (foreign_pids w home names) (walk_netnses w home warned names)"
proof (induction names rule: rev_induct)
  case Nil
  show ?case by (simp add: walk_netnses_def walk_ok_def foreign_pids_def buckets_of_def bucket_inodes_def first_seen_def)
next
  case (snoc name names)
  then show ?case using walk_name_ok by (simp add: walk_netnses_def)
qed

lemma walk_netnses_eq: "wk_netnses (walk_netnses w home warned names) = buckets_of (foreign_pids w home names)"
  using walk_netnses_ok [of w home names warned] by (simp add: walk_ok_def)

section \<open>What a visit contributes\<close>

text \<open>The socket owners found in a namespace, and what its dump says about a key: an owned socket, or that the
  local end is ambiguous.\<close>

definition netns_owners :: "NetnsWorld \<Rightarrow> NetnsBucket \<Rightarrow> (quint64, PidStamp) qhash" where
  "netns_owners w b = fst (buildInodeToPidForNetns w b False)"

definition contributes :: "NetnsWorld \<Rightarrow> NetnsBucket \<Rightarrow> quint8 list \<Rightarrow> quint64 \<Rightarrow> bool" where
  "contributes w b k v = ((k, v) \<in> set (netns_dumps (nw_view w (nb_inode b))) \<and> (v = 0 \<and> isLocalKey k \<or> hcontains (netns_owners w b) v))"

text \<open>The process has the socket open among its descriptors.\<close>

definition holds_socket :: "NetnsWorld \<Rightarrow> int \<Rightarrow> quint64 \<Rightarrow> bool" where
  "holds_socket w pid inode =
     (\<exists>fds name target. nw_fds w pid = Some fds \<and> (name, Some target) \<in> set fds \<and> parseSocketLink target = Some inode)"

lemma netns_pids_warned: "fst (netns_pids w es (m, a)) = fst (netns_pids w es (m, b))"
  by (induction es arbitrary: m) (auto split: option.split)

lemma owners_any_flag: "fst (buildInodeToPidForNetns w b warned) = netns_owners w b"
  unfolding netns_owners_def buildInodeToPidForNetns_def by (rule netns_pids_warned)

lemma netns_fds_from:
  "x \<in> set (fold (netns_fd pid st) fds m) \<Longrightarrow>
   x \<in> set m \<or> (\<exists>name target. (name, Some target) \<in> set fds \<and> parseSocketLink target = Some (fst x) \<and>
     snd x = \<lparr>ps_pid = qint32_of pid, ps_startTime = st\<rparr>)"
proof (induction fds arbitrary: m)
  case (Cons fd fds)
  obtain name link where fd: "fd = (name, link)" by fastforce
  have one: "x \<in> set m \<or> (\<exists>target. link = Some target \<and> parseSocketLink target = Some (fst x) \<and>
      snd x = \<lparr>ps_pid = qint32_of pid, ps_startTime = st\<rparr>)" if "x \<in> set (netns_fd pid st fd m)"
    using that hinsert_entries by (fastforce simp: netns_fd_def fd split: if_splits option.splits)
  show ?case using Cons.IH [of "netns_fd pid st fd m"] Cons.prems one fd by auto
qed simp

lemma netns_pids_from:
  "x \<in> set (fst (netns_pids w es y)) \<Longrightarrow>
   x \<in> set (fst y) \<or> (\<exists>e \<in> set es. 0 < np_pid e \<and> holds_socket w (np_pid e) (fst x) \<and>
     snd x = \<lparr>ps_pid = qint32_of (np_pid e), ps_startTime = np_startTime e\<rparr>)"
proof (induction es arbitrary: y)
  case (Cons e es)
  show ?case
  proof (cases "kMaxSocketEntries \<le> hsize (fst y) \<or> np_pid e \<le> 0 \<or> nw_fds w (np_pid e) = None")
    case True
    then have "x \<in> set (fst y) \<or> x \<in> set (fst (netns_pids w es y))" using Cons.prems by (auto split: if_splits option.splits)
    then show ?thesis using Cons.IH [of y] by auto
  next
    case False
    then obtain fds where fds: "nw_fds w (np_pid e) = Some fds" by blast
    have "x \<in> set (fst (netns_pids w es (fold (netns_fd (np_pid e) (np_startTime e)) fds (fst y), snd y)))"
      using Cons.prems False fds by simp
    from Cons.IH [OF this] show ?thesis
      using netns_fds_from [of x "np_pid e" "np_startTime e" fds "fst y"] fds False unfolding holds_socket_def by fastforce
  qed
qed simp

lemma owners_from:
  assumes "(inode, stamp) \<in> set (netns_owners w b)"
  obtains e where "e \<in> set (nb_pids b)" and "0 < np_pid e" and "holds_socket w (np_pid e) inode"
    and "stamp = \<lparr>ps_pid = qint32_of (np_pid e), ps_startTime = np_startTime e\<rparr>"
  using netns_pids_from [of "(inode, stamp)" w "nb_pids b" "([], False)"] assms
  by (auto simp: netns_owners_def buildInodeToPidForNetns_def)

section \<open>Merging\<close>

lemma merge_key_fst: "fst (merge_key owners (key, inode) (m, a)) =
    (if kMaxSocketEntries \<le> hsize m \<and> \<not> hcontains m key then m
     else if isLocalKey key then (if inode = 0 \<or> hcontains owners inode then insertLocalKey key inode m else m)
     else if hcontains owners inode then hinsert key inode m else m)"
  by (simp add: merge_key_def isAmbiguousLocalInode_def kAmbiguousLocalInode_def)

lemma merge_key_ok: "socket_map_ok (fst x) \<Longrightarrow> socket_map_ok (fst (merge_key owners kv x))"
proof -
  assume "socket_map_ok (fst x)"
  then show ?thesis
    by (cases x; cases kv) (auto simp: merge_key_fst not_le intro!: insertLocalKey_ok insert_within)
qed

lemma merge_keys_ok: "socket_map_ok (fst x) \<Longrightarrow> socket_map_ok (fst (fold (merge_key owners) es x))"
  by (induction es arbitrary: x) (auto simp: merge_key_ok)

lemma merge_key_grows: "hsize (fst x) \<le> hsize (fst (merge_key owners kv x))"
  by (cases x; cases kv) (auto simp: merge_key_fst hsize_insert insertLocalKey_grows)

lemma merge_keys_grow: "hsize (fst x) \<le> hsize (fst (fold (merge_key owners) es x))"
proof (induction es arbitrary: x)
  case (Cons e es)
  show ?case using order_trans [OF merge_key_grows [of x owners e] Cons.IH] by simp
qed simp

lemma insertLocalKey_from: "hfind (insertLocalKey k0 i m) k = Some v \<Longrightarrow> v = 0 \<or> hfind m k = Some v \<or> k = k0 \<and> v = i"
  by (auto simp: insertLocalKey_def kAmbiguousLocalInode_def hfind_insert split: option.splits if_splits)

lemma merge_keys_from:
  "hfind (fst (fold (merge_key owners) es x)) k = Some v \<Longrightarrow> v \<noteq> 0 \<Longrightarrow>
   hfind (fst x) k = Some v \<or> (k, v) \<in> set es \<and> hcontains owners v"
proof (induction es arbitrary: x)
  case (Cons e es)
  obtain m a key inode where xe: "x = (m, a)" "e = (key, inode)" by (metis surj_pair)
  have one: "hfind m k = Some v \<or> k = key \<and> v = inode \<and> hcontains owners v" if "hfind (fst (merge_key owners e x)) k = Some v"
    using that Cons.prems(2) insertLocalKey_from [of key inode m k v] unfolding xe merge_key_fst
    by (auto simp: hfind_insert split: if_splits)
  have "hfind (fst (fold (merge_key owners) es (merge_key owners e x))) k = Some v" using Cons.prems(1) by simp
  from Cons.IH [OF this Cons.prems(2)] show ?case using one unfolding xe by auto
qed simp

text \<open>Below the cap, a local key keeps every claim made for it, or says that it is ambiguous.\<close>

lemma merge_keys_claims:
  assumes "isLocalKey k" and "hsize (fst (fold (merge_key owners) es x)) < kMaxSocketEntries"
    and "hfind (fst x) k = Some v \<or> (k, v) \<in> set es \<and> (v = 0 \<or> hcontains owners v)"
  shows "hfind (fst (fold (merge_key owners) es x)) k \<in> {Some v, Some 0}"
  using assms(2,3)
proof (induction es arbitrary: x v)
  case (Cons e es)
  obtain m a key inode where xe: "x = (m, a)" "e = (key, inode)" by (metis surj_pair)
  have small: "hsize (fst (merge_key owners e x)) < kMaxSocketEntries"
    using Cons.prems(1) merge_keys_grow [of "merge_key owners e x" owners es] by simp
  then have "hsize m < kMaxSocketEntries" using merge_key_grows [of x owners e] by (simp add: xe)
  then have step: "hfind (fst (merge_key owners e x)) k =
      (if k = key \<and> (inode = 0 \<or> hcontains owners inode) then merge_claim (hfind m k) inode else hfind m k)"
    using small insertLocalKey_find [of key inode m k] assms(1) unfolding xe merge_key_fst by (auto simp: hfind_insert)
  have final: "hfind (fst (fold (merge_key owners) es (merge_key owners e x))) k \<in> {Some u, Some 0}"
    if "hfind (fst (merge_key owners e x)) k = Some u \<or> (k, u) \<in> set es \<and> (u = 0 \<or> hcontains owners u)" for u
    using Cons.IH [OF _ that] Cons.prems(1) by simp
  show ?case
  proof (cases "(k, v) \<in> set es \<and> (v = 0 \<or> hcontains owners v)")
    case True
    then show ?thesis using final by simp
  next
    case False
    then have "hfind (fst (merge_key owners e x)) k \<in> {Some v, Some 0}"
      using Cons.prems(2) unfolding step by (auto simp: xe merge_claim_def split: option.splits)
    then show ?thesis using final [of v] final [of 0] by auto
  qed
qed simp

lemma merge_inodes_cases:
  "merge_inodes es (mi, mp, a) = (mi', mp', a') \<Longrightarrow> set mi' \<subseteq> set mi \<union> set es \<and> (hsize mi \<le> kMaxSocketEntries \<longrightarrow> hsize mi' \<le> kMaxSocketEntries)"
proof (induction es arbitrary: mi mp a)
  case (Cons e es)
  show ?case
  proof (cases "kMaxSocketEntries \<le> hsize mi")
    case False
    have "merge_inodes es (hinsert (fst e) (snd e) mi, hinsert (ps_pid (snd e)) (ps_startTime (snd e)) mp, a) = (mi', mp', a')"
      using Cons.prems False by simp
    from Cons.IH [OF this] show ?thesis
      using False hinsert_entries [of "fst e" "snd e" mi] by (auto simp: hsize_insert split: if_splits)
  qed (use Cons.prems in auto)
qed auto

section \<open>What a table was collected from\<close>

text \<open>The tables collected in the namespaces \<open>vs\<close>: bounded, every entry found in one of them, and no local key
  settled while two of them disagree.\<close>

definition collected_from :: "NetnsWorld \<Rightarrow> NetnsBucket list \<Rightarrow> NetnsTables \<Rightarrow> bool" where
  "collected_from w vs t =
     (socket_map_ok (nt_keyToInode t) \<and> hsize (nt_inodeToPid t) \<le> kMaxSocketEntries \<and>
      (\<forall>k v. hfind (nt_keyToInode t) k = Some v \<longrightarrow> v \<noteq> 0 \<longrightarrow> (\<exists>b \<in> set vs. contributes w b k v)) \<and>
      (hsize (nt_keyToInode t) < kMaxSocketEntries \<longrightarrow>
        (\<forall>b \<in> set vs. \<forall>k v. isLocalKey k \<longrightarrow> contributes w b k v \<longrightarrow> hfind (nt_keyToInode t) k \<in> {Some v, Some 0})) \<and>
      (\<forall>x \<in> set (nt_inodeToPid t). \<exists>b \<in> set vs. x \<in> set (netns_owners w b)))"

lemma collected_none: "collected_from w [] no_tables"
  by (simp add: collected_from_def no_tables_def socket_map_ok_def)

lemma collected_skip: "sw_socketOpens (nw_view w (nk_netns k)) = False \<Longrightarrow> collect_netns w ns k t = (k, t)"
  by (simp add: collect_netns_def)

lemma collect_netns_from:
  assumes "collected_from w vs t" and "nk_netns k = nb_inode b" and "sw_socketOpens (nw_view w (nk_netns k))"
    and "collect_netns w b k t = (k', t')"
  shows "collected_from w (vs @ [b]) t'"
proof -
  define D where "D = netns_dumps (nw_view w (nb_inode b))"
  define x where "x = (nt_keyToInode t, snd (buildInodeToPidForNetns w b (nk_warnedMapCap k)))"
  define y where "y = fold (merge_key (netns_owners w b)) D x"
  define z where "z = merge_inodes (netns_owners w b) (nt_inodeToPid t, nt_pidToStartTime t, snd y)"
  have t': "t' = \<lparr>nt_keyToInode = fst y, nt_inodeToPid = fst z, nt_pidToStartTime = fst (snd z)\<rparr>"
    using assms(2-4) by (simp add: collect_netns_def Let_def case_prod_beta owners_any_flag D_def [symmetric] x_def y_def z_def)
  have x: "fst x = nt_keyToInode t" by (simp add: x_def)
  have c: "contributes w b k v \<longleftrightarrow> (k, v) \<in> set D \<and> (v = 0 \<and> isLocalKey k \<or> hcontains (netns_owners w b) v)" for k v
    by (simp add: contributes_def D_def)
  have "socket_map_ok (fst y)" using merge_keys_ok [of x] assms(1) by (simp add: y_def x collected_from_def)
  moreover have "hsize (fst z) \<le> kMaxSocketEntries \<and> set (fst z) \<subseteq> set (nt_inodeToPid t) \<union> set (netns_owners w b)"
    using merge_inodes_cases [of "netns_owners w b" "nt_inodeToPid t" "nt_pidToStartTime t" "snd y" "fst z" "fst (snd z)" "snd (snd z)"] assms(1)
    by (simp add: z_def collected_from_def)
  moreover have "\<exists>b' \<in> set (vs @ [b]). contributes w b' k v" if "hfind (fst y) k = Some v" "v \<noteq> 0" for k v
    using merge_keys_from [OF that [unfolded y_def]] assms(1) that(2) unfolding x collected_from_def c by (auto simp: c)
  moreover have "hfind (fst y) k \<in> {Some v, Some 0}"
    if "hsize (fst y) < kMaxSocketEntries" "b' \<in> set (vs @ [b])" "isLocalKey k" "contributes w b' k v" for b' k v
  proof -
    note keep = merge_keys_claims [OF that(3) that(1) [unfolded y_def], folded y_def]
    have "hsize (nt_keyToInode t) < kMaxSocketEntries"
      using that(1) merge_keys_grow [of x "netns_owners w b" D] by (simp add: y_def x)
    then have "hfind (nt_keyToInode t) k \<in> {Some v, Some 0}" if "b' \<in> set vs"
      using that \<open>isLocalKey k\<close> \<open>contributes w b' k v\<close> assms(1) unfolding collected_from_def by blast
    moreover have "(k, v) \<in> set D \<and> (v = 0 \<or> hcontains (netns_owners w b) v)" if "b' = b"
      using that \<open>contributes w b' k v\<close> c by auto
    ultimately have "hfind (nt_keyToInode t) k \<in> {Some v, Some 0} \<or> (k, v) \<in> set D \<and> (v = 0 \<or> hcontains (netns_owners w b) v)"
      using that(2) by auto
    then show ?thesis using keep [of v] keep [of 0] x by auto
  qed
  ultimately show ?thesis using assms(1) unfolding t' collected_from_def by auto
qed

text \<open>A worker that is where it belongs: in the agent's namespace, its anchor pointing there.\<close>

definition at_home :: "quint64 \<Rightarrow> NetnsWorker \<Rightarrow> bool" where
  "at_home home k = (nk_netns k = home \<and> (\<forall>a. nk_anchorFd k = Some a \<longrightarrow> a = home \<and> nk_anchorInode k = home))"

lemma collect_netns_worker: "collect_netns w b k t = (k', t') \<Longrightarrow> k' = k\<lparr>nk_warnedMapCap := nk_warnedMapCap k'\<rparr>"
  by (auto simp: collect_netns_def Let_def case_prod_beta split: if_splits)

text \<open>A namespace was entered: the process file still referred to it when it was opened, and \<open>setns\<close> succeeded.\<close>

definition visited :: "NetnsWorld \<Rightarrow> NetnsBucket \<Rightarrow> bool" where
  "visited w b = (\<exists>rep es. nb_pids b = rep # es \<and> nw_open w (np_pid rep) = Some (nb_inode b) \<and> nw_enter w (np_pid rep))"

lemma scanOneNetns_home:
  assumes "scanOneNetns w b (k, t) = Some (k', t')" and "at_home home k" and "nk_anchorFd k = Some home"
  shows "at_home home k' \<and> nk_anchorFd k' = Some home \<and> nk_timer k' = nk_timer k \<and>
    (t' = t \<or> visited w b \<and> sw_socketOpens (nw_view w (nb_inode b)) \<and>
      (\<exists>k1 k2. nk_netns k1 = nb_inode b \<and> collect_netns w b k1 t = (k2, t')))"
proof (cases "visited w b")
  case False
  then show ?thesis
    using assms by (auto simp: scanOneNetns_def visited_def Let_def case_prod_beta split: list.splits option.splits if_splits)
next
  case True
  then obtain rep es where rep: "nb_pids b = rep # es" "nw_open w (np_pid rep) = Some (nb_inode b)" "nw_enter w (np_pid rep)"
    by (auto simp: visited_def)
  define k1 where "k1 = k\<lparr>nk_netns := nb_inode b\<rparr>"
  obtain k2 t2 where c: "collect_netns w b k1 t = (k2, t2)" by fastforce
  have k2: "k2 = k1\<lparr>nk_warnedMapCap := nk_warnedMapCap k2\<rparr>" by (rule collect_netns_worker [OF c])
  have k2sel: "nk_anchorFd k2 = Some home" "nk_anchorInode k2 = nk_anchorInode k" "nk_timer k2 = nk_timer k"
    using assms(3) by (subst k2, simp add: k1_def)+
  have r: "(case restore_guard (nw_restore w (np_pid rep)) k2 of None \<Rightarrow> None | Some k \<Rightarrow> Some (k, t2)) = Some (k', t')"
    using assms(1) rep by (simp add: scanOneNetns_def k1_def [symmetric] c)
  then have t': "t' = t2" and k': "k' = k2\<lparr>nk_netns := home\<rparr>"
    using k2sel(1) by (auto simp: restore_guard_def split: if_splits)
  have "t' = t" if "\<not> sw_socketOpens (nw_view w (nb_inode b))"
    using c that t' by (simp add: collect_netns_def k1_def)
  moreover have "nk_netns k1 = nb_inode b" by (simp add: k1_def)
  moreover have "collect_netns w b k1 t = (k2, t')" using c t' by simp
  moreover have "at_home home k' \<and> nk_anchorFd k' = Some home \<and> nk_timer k' = nk_timer k"
    using k' k2sel assms(2,3) by (simp add: at_home_def)
  ultimately show ?thesis using True by blast
qed

lemma scan_all_home:
  "scan_all w bs (k, t) = Some (k', t') \<Longrightarrow> at_home home k \<Longrightarrow> nk_anchorFd k = Some home \<Longrightarrow> collected_from w vs t \<Longrightarrow>
   at_home home k' \<and> nk_timer k' = nk_timer k \<and> (\<exists>us. set us \<subseteq> set bs \<inter> Collect (visited w) \<and> collected_from w (vs @ us) t')"
proof (induction bs arbitrary: k t vs)
  case Nil
  then show ?case by (auto intro: exI [of _ "[]"])
next
  case (Cons b bs)
  obtain k1 t1 where one: "scanOneNetns w b (k, t) = Some (k1, t1)" and rest: "scan_all w bs (k1, t1) = Some (k', t')"
    using Cons.prems(1) by (auto split: option.splits)
  have h: "at_home home k1 \<and> nk_anchorFd k1 = Some home \<and> nk_timer k1 = nk_timer k"
    and t1: "t1 = t \<or> visited w b \<and> sw_socketOpens (nw_view w (nb_inode b)) \<and>
      (\<exists>k1 k2. nk_netns k1 = nb_inode b \<and> collect_netns w b k1 t = (k2, t1))"
    using scanOneNetns_home [OF one Cons.prems(2,3)] by auto
  obtain us0 where us0: "set us0 \<subseteq> {b} \<inter> Collect (visited w)" "collected_from w (vs @ us0) t1"
  proof (cases "t1 = t")
    case True
    then show ?thesis using that [of "[]"] Cons.prems(4) by simp
  next
    case False
    then have "visited w b" "collected_from w (vs @ [b]) t1" using t1 collect_netns_from [OF Cons.prems(4)] by auto
    then show ?thesis using that [of "[b]"] by simp
  qed
  have "at_home home k1" "nk_anchorFd k1 = Some home" using h by auto
  then obtain us where us: "at_home home k'" "nk_timer k' = nk_timer k1" "set us \<subseteq> set bs \<inter> Collect (visited w)"
    "collected_from w ((vs @ us0) @ us) t'"
    using Cons.IH [OF rest _ _ us0(2)] by blast
  then show ?case using us0(1) h by (intro conjI exI [of _ "us0 @ us"]) auto
qed

section \<open>Reachable scanners\<close>

inductive netns_reachable :: "quint64 \<Rightarrow> NetnsScanner \<Rightarrow> bool" for home :: quint64 where
  netns_new: "netns_reachable home (mk_NetnsScanner tuning)"
| netns_init: "netns_reachable home s \<Longrightarrow> \<not> nn_ready s \<Longrightarrow> netns_reachable home (snd (nn_initialize w home s))"
| netns_tune: "netns_reachable home s \<Longrightarrow> netns_reachable home (nn_setTuning tuning s)"
| netns_demand: "netns_reachable home s \<Longrightarrow> netns_reachable home (nn_requestDeepScan now s)"
| netns_call: "netns_reachable home s \<Longrightarrow> nn_run_call w s = Some s' \<Longrightarrow> netns_reachable home s'"
| netns_timer: "netns_reachable home s \<Longrightarrow> nn_timeout w s = Some s' \<Longrightarrow> netns_reachable home s'"
| netns_destroy: "netns_reachable home s \<Longrightarrow> nn_destroy w s = Some s' \<Longrightarrow> netns_reachable home s'"

text \<open>Tables that a scan from \<open>home\<close> could have published: collected in foreign namespaces that were entered.\<close>

definition published :: "quint64 \<Rightarrow> NetnsWorld \<Rightarrow> NetnsBucket list \<Rightarrow> NetnsTables \<Rightarrow> bool" where
  "published home w vs t =
     (\<exists>names. set vs \<subseteq> set (buckets_of (foreign_pids w home names)) \<inter> Collect (visited w) \<and> collected_from w vs t)"

definition ever_published :: "quint64 \<Rightarrow> NetnsTables \<Rightarrow> bool" where
  "ever_published home t = (\<exists>w vs. published home w vs t)"

definition worker_ok :: "quint64 \<Rightarrow> NetnsWorker \<Rightarrow> bool" where
  "worker_ok home k = (at_home home k \<and> (\<forall>iv. nk_timer k = Some iv \<longrightarrow> 250 \<le> iv))"

definition netns_inv :: "quint64 \<Rightarrow> NetnsScanner \<Rightarrow> bool" where
  "netns_inv home s = (pred_option (worker_ok home) (nn_worker s) \<and> 250 \<le> nn_refreshIntervalMs s \<and> ever_published home (nn_tables s))"

lemma published_none: "ever_published home no_tables"
proof -
  have "published home w [] no_tables" for w by (simp add: published_def collected_none)
  then show ?thesis unfolding ever_published_def by blast
qed

lemma worker_tick_ok:
  assumes "worker_tick w stop want k = Some (k', t)" and "worker_ok home k" and "250 \<le> want"
  shows "worker_ok home k' \<and> (\<forall>t'. t = Some t' \<longrightarrow> ever_published home t')"
proof (cases "stop \<or> nk_anchorFd k = None")
  case True
  then show ?thesis using assms by (auto simp: worker_tick_def split: if_splits)
next
  case False
  define k1 where "k1 = (case nk_timer k of Some iv \<Rightarrow> if iv \<noteq> want then k\<lparr>nk_timer := Some want\<rparr> else k | None \<Rightarrow> k)"
  have anchor: "nk_anchorFd k = Some home" "nk_anchorInode k = home" using False assms(2) by (auto simp: worker_ok_def at_home_def)
  have k1: "worker_ok home k1" "nk_anchorFd k1 = Some home" "nk_anchorInode k1 = home"
    using assms(2,3) anchor by (auto simp: k1_def worker_ok_def at_home_def split: option.split)
  show ?thesis
  proof (cases "nw_names w")
    case None
    then show ?thesis using assms(1) False k1(1) unfolding worker_tick_def k1_def [symmetric] by (auto simp: Let_def)
  next
    case (Some names)
    define wk where "wk = walk_netnses w home (nk_warnedNetnsCap k1) names"
    define k2 where "k2 = k1\<lparr>nk_warnedNetnsCap := wk_warned wk\<rparr>"
    have k2: "at_home home k2" "nk_anchorFd k2 = Some home" "nk_timer k2 = nk_timer k1"
      using k1 by (simp_all add: k2_def worker_ok_def at_home_def)
    have "(case scan_all w (wk_netnses wk) (k2, no_tables) of None \<Rightarrow> None | Some (k, t) \<Rightarrow> Some (k, Some t)) = Some (k', t)"
      using assms(1) False Some anchor(1) unfolding worker_tick_def k1_def [symmetric] by (simp add: wk_def k2_def Let_def k1(3))
    then obtain t' where t': "scan_all w (wk_netnses wk) (k2, no_tables) = Some (k', t')" "t = Some t'"
      by (auto split: option.splits)
    from scan_all_home [OF t'(1) k2(1,2) collected_none] obtain us where
      "at_home home k'" "nk_timer k' = nk_timer k2" "set us \<subseteq> set (wk_netnses wk) \<inter> Collect (visited w)" "collected_from w us t'" by auto
    then show ?thesis
      using t'(2) k2(3) k1(1) by (auto simp: worker_ok_def ever_published_def published_def wk_def walk_netnses_eq)
  qed
qed

lemma nn_tick_ok: "nn_tick w k s = Some s' \<Longrightarrow> worker_ok home k \<Longrightarrow> netns_inv home s \<Longrightarrow> netns_inv home s'"
  using worker_tick_ok [of w "nn_stop s" "nn_refreshIntervalMs s" k]
  by (fastforce simp: nn_tick_def netns_inv_def split: option.splits)

lemma nn_run_call_ok:
  assumes "nn_run_call w s = Some s'" and "netns_inv home s"
  shows "netns_inv home s'"
proof (cases "\<exists>k c cs. nn_worker s = Some k \<and> nn_calls s = c # cs")
  case False
  then have "s' = s" using assms(1) by (auto simp: nn_run_call_def split: option.splits list.splits)
  then show ?thesis using assms(2) by simp
next
  case True
  then obtain k c cs where kc: "nn_worker s = Some k" "nn_calls s = c # cs" by blast
  have k: "worker_ok home k" using assms(2) kc by (simp add: netns_inv_def)
  show ?thesis
  proof (cases c)
    case CallStart
    have "worker_ok home (fst (worker_start w (nn_refreshIntervalMs s) k))"
      using k assms(2) by (auto simp: worker_start_def worker_ok_def at_home_def netns_inv_def)
    then show ?thesis using assms kc CallStart by (auto simp: nn_run_call_def netns_inv_def Let_def case_prod_beta)
  next
    case CallTick
    have i: "netns_inv home (s\<lparr>nn_calls := cs\<rparr>)" using assms(2) by (simp add: netns_inv_def)
    have "nn_tick w k (s\<lparr>nn_calls := cs\<rparr>) = Some s'" using assms(1) kc CallTick by (simp add: nn_run_call_def)
    then show ?thesis using k i by (rule nn_tick_ok)
  next
    case CallStop
    have "worker_ok home (worker_stop k)" using k by (simp add: worker_stop_def worker_ok_def at_home_def)
    then show ?thesis using assms kc CallStop by (auto simp: nn_run_call_def netns_inv_def)
  qed
qed

lemma nn_drain_ok: "nn_drain w n s = Some s' \<Longrightarrow> netns_inv home s \<Longrightarrow> netns_inv home s'"
proof (induction n arbitrary: s)
  case (Suc n)
  then show ?case using nn_run_call_ok by (auto split: option.splits)
qed simp

lemma nn_destroy_ok:
  assumes "nn_destroy w s = Some s'" and "netns_inv home s"
  shows "netns_inv home s'"
proof (cases "nn_worker s = None")
  case True
  then show ?thesis using assms by (auto simp: nn_destroy_def netns_inv_def)
next
  case False
  define s1 where "s1 = s\<lparr>nn_stop := True, nn_calls := nn_calls s @ [CallStop]\<rparr>"
  have i: "netns_inv home s1" using assms(2) by (simp add: s1_def netns_inv_def)
  obtain s2 where s2: "nn_drain w (length (nn_calls s1)) s1 = Some s2" "s' = s2\<lparr>nn_worker := None, nn_calls := []\<rparr>"
    using assms(1) False by (auto simp: nn_destroy_def s1_def Let_def split: option.splits)
  then show ?thesis using nn_drain_ok [OF s2(1) i] by (simp add: netns_inv_def)
qed

lemma safeRefreshIntervalMs_floor: "250 \<le> safeRefreshIntervalMs raw"
  by (simp add: safeRefreshIntervalMs_def kRefreshIntervalMs_def kMinRefreshIntervalMs_def)

lemma netns_reachable_inv: "netns_reachable home s \<Longrightarrow> netns_inv home s"
proof (induction rule: netns_reachable.induct)
  case (netns_new tuning)
  then show ?case using published_none by (simp add: netns_inv_def mk_NetnsScanner_def safeRefreshIntervalMs_floor)
next
  case (netns_init s w)
  then show ?case by (auto simp: nn_initialize_def netns_inv_def new_worker_def worker_ok_def at_home_def)
next
  case (netns_tune s tuning)
  then show ?case by (simp add: nn_setTuning_def netns_inv_def safeRefreshIntervalMs_floor)
next
  case (netns_demand s now)
  then show ?case by (simp add: nn_requestDeepScan_def netns_inv_def)
next
  case (netns_timer s w s')
  then show ?case using nn_tick_ok [of w _ s s' home] by (auto simp: nn_timeout_def netns_inv_def split: option.splits if_splits)
qed (auto intro: nn_run_call_ok nn_destroy_ok)

section \<open>Answers\<close>

lemma bucket_foreign:
  assumes "b \<in> set (buckets_of (foreign_pids w home names))"
  shows "nb_inode b \<noteq> home" and "e \<in> set (nb_pids b) \<Longrightarrow> nw_stat w (np_pid e) = Some (nb_inode b) \<and>
    np_startTime e = (case pidStartTime (nw_files w) (qint32_of (np_pid e)) of Some st \<Rightarrow> st | None \<Rightarrow> 0)"
proof -
  have p: "fst p \<noteq> home \<and> nw_stat w (np_pid (snd p)) = Some (fst p) \<and>
      np_startTime (snd p) = (case pidStartTime (nw_files w) (qint32_of (np_pid (snd p))) of Some st \<Rightarrow> st | None \<Rightarrow> 0)"
    if "p \<in> set (foreign_pids w home names)" for p
    using that by (auto simp: foreign_pids_def split: option.splits if_splits)
  have "nb_inode b \<in> fst ` set (foreign_pids w home names)"
    using assms by (auto simp: buckets_of_def bucket_inodes_def dest!: in_set_takeD)
  then show "nb_inode b \<noteq> home" using p by (metis imageE)
  show "nw_stat w (np_pid e) = Some (nb_inode b) \<and>
    np_startTime e = (case pidStartTime (nw_files w) (qint32_of (np_pid e)) of Some st \<Rightarrow> st | None \<Rightarrow> 0)" if "e \<in> set (nb_pids b)"
  proof -
    have "(nb_inode b, e) \<in> set (foreign_pids w home names)" using assms that by (auto simp: buckets_of_def)
    from p [OF this] show ?thesis by simp
  qed
qed

text \<open>How a flow was found: a dump of one of the namespaces has its exact addresses and ports; or the flow is UDP, one
  has the socket bound to its local end, and no other socket of any namespace is bound there.\<close>

definition netns_match :: "NetnsWorld \<Rightarrow> NetnsBucket list \<Rightarrow> Connection \<Rightarrow> quint64 \<Rightarrow> bool" where
  "netns_match w vs flow inode =
     ((\<exists>b \<in> set vs. contributes w b (tuple_key flow) inode) \<or>
      c_proto flow = Udp \<and> (\<exists>b \<in> set vs. contributes w b (local_key flow) inode \<or> contributes w b (wildcard_key flow) inode) \<and>
      (\<forall>b \<in> set vs. \<forall>v. contributes w b (local_key flow) v \<or> contributes w b (wildcard_key flow) v \<longrightarrow> v = inode))"

lemma netns_lookup:
  assumes "collected_from w vs t" and "find_socket (nt_keyToInode t) (flow_proto flow) flow = Some inode" and "inode \<noteq> 0"
    and "hsize (nt_keyToInode t) < kMaxSocketEntries"
  shows "netns_match w vs flow inode"
proof (cases "hfind (nt_keyToInode t) (tuple_key flow)")
  case (Some i)
  then have "i = inode" using assms(2) by (simp add: find_socket_def tuple_key_def Let_def)
  then show ?thesis using Some assms(1,3) unfolding collected_from_def netns_match_def by blast
next
  case None
  let ?l = "hfind (nt_keyToInode t) (local_key flow)" and ?w = "hfind (nt_keyToInode t) (wildcard_key flow)"
  have udp: "flow_proto flow = 17" using assms(2) None by (auto simp: find_socket_def tuple_key_def Let_def split: if_splits option.splits)
  have f: "(case ?l of Some inode \<Rightarrow> (case ?w of Some v \<Rightarrow> if isAmbiguousLocalInode v \<or> v \<noteq> inode then None else Some inode | None \<Rightarrow> Some inode)
      | None \<Rightarrow> ?w) = Some inode"
    using assms(2) None udp unfolding local_key_def wildcard_key_def by (simp add: find_socket_def tuple_key_def Let_def)
  have settled: "?l \<in> {None, Some inode}" "?w \<in> {None, Some inode}" "?l = Some inode \<or> ?w = Some inode"
    using f by (auto split: option.splits if_splits)
  have loc: "isLocalKey (local_key flow)" "isLocalKey (wildcard_key flow)"
    by (simp_all add: local_key_def wildcard_key_def makeLocalKey_def isLocalKey_def)
  have claim: "hfind (nt_keyToInode t) k \<in> {Some v, Some 0}" if "b \<in> set vs" "isLocalKey k" "contributes w b k v" for b k v
    using assms(1,4) that unfolding collected_from_def by blast
  have sole: "v = inode" if "b \<in> set vs" "contributes w b (local_key flow) v \<or> contributes w b (wildcard_key flow) v" for b v
    using that claim [OF that(1) loc(1), of v] claim [OF that(1) loc(2), of v] settled assms(3) by fastforce
  have "\<exists>b \<in> set vs. contributes w b (local_key flow) inode \<or> contributes w b (wildcard_key flow) inode"
    using settled(3) assms(1,3) unfolding collected_from_def by blast
  moreover have "c_proto flow = Udp" using udp by (simp add: flow_proto_def split: if_splits)
  ultimately show ?thesis using sole unfolding netns_match_def by blast
qed

lemma nn_resolvePid_answer:
  "nn_resolvePid files flow s = pid \<Longrightarrow> pid \<noteq> 0 \<Longrightarrow> \<exists>inode stamp.
    find_socket (nt_keyToInode (nn_tables s)) (flow_proto flow) flow = Some inode \<and> inode \<noteq> 0 \<and>
    hfind (nt_inodeToPid (nn_tables s)) inode = Some stamp \<and> pid = ps_pid stamp \<and> pidStartTime files (ps_pid stamp) = Some (ps_startTime stamp)"
  by (auto simp: nn_resolvePid_def isAmbiguousLocalInode_def kAmbiguousLocalInode_def split: if_splits option.splits)

definition bucket_visited :: "quint64 \<Rightarrow> NetnsWorld \<Rightarrow> NetnsBucket \<Rightarrow> bool" where
  "bucket_visited home w b =
     (nb_inode b \<noteq> home \<and> visited w b \<and> (\<forall>e \<in> set (nb_pids b). nw_stat w (np_pid e) = Some (nb_inode b)))"

lemma published_foreign: "published home w vs t \<Longrightarrow> collected_from w vs t \<and> (\<forall>b \<in> set vs. bucket_visited home w b)"
  using bucket_foreign unfolding published_def bucket_visited_def by blast

text \<open>The evidence for a process \<open>pid\<close> of the bucket \<open>b\<close>, collected in the namespaces \<open>vs\<close>: it was listed in a foreign
  namespace that was entered, has the socket open and still has its start time, and the socket belongs to the flow.\<close>

definition netns_evidence ::
    "quint64 \<Rightarrow> ProcWorld \<Rightarrow> Connection \<Rightarrow> SocketMap \<Rightarrow> int \<Rightarrow> NetnsWorld \<Rightarrow> NetnsBucket list \<Rightarrow> NetnsPid \<Rightarrow> quint64 \<Rightarrow> bool" where
  "netns_evidence home files flow m pid w vs e inode =
     (e \<in> (\<Union>b \<in> set vs. set (nb_pids b)) \<and> pid = qint32_of (np_pid e) \<and> pidStartTime files pid = Some (np_startTime e) \<and>
      holds_socket w (np_pid e) inode \<and>
      (\<forall>b \<in> set vs. bucket_visited home w b) \<and>
      (hsize m = 65536 \<or> netns_match w vs flow inode))"

lemma netns_answer_evidence:
  assumes "netns_inv home s" and nz: "nn_resolvePid files flow s \<noteq> 0"
  shows "\<exists>w vs e inode. netns_evidence home files flow (nt_keyToInode (nn_tables s)) (nn_resolvePid files flow s) w vs e inode"
proof -
  have "ever_published home (nn_tables s)" using assms(1) by (simp add: netns_inv_def)
  then obtain w vs where p: "published home w vs (nn_tables s)" unfolding ever_published_def by blast
  have c: "collected_from w vs (nn_tables s)" and foreign: "\<forall>b \<in> set vs. bucket_visited home w b"
    using published_foreign [OF p] by blast+
  obtain inode stamp where f: "find_socket (nt_keyToInode (nn_tables s)) (flow_proto flow) flow = Some inode" "inode \<noteq> 0"
    "hfind (nt_inodeToPid (nn_tables s)) inode = Some stamp" "nn_resolvePid files flow s = ps_pid stamp"
    "pidStartTime files (ps_pid stamp) = Some (ps_startTime stamp)"
    using nn_resolvePid_answer [OF refl nz] by blast
  have "\<forall>x \<in> set (nt_inodeToPid (nn_tables s)). \<exists>b \<in> set vs. x \<in> set (netns_owners w b)" using c by (simp add: collected_from_def)
  then obtain b where b: "b \<in> set vs" "(inode, stamp) \<in> set (netns_owners w b)" using hfind_in [OF f(3)] by blast
  obtain e where e: "e \<in> set (nb_pids b)" "holds_socket w (np_pid e) inode"
    "stamp = \<lparr>ps_pid = qint32_of (np_pid e), ps_startTime = np_startTime e\<rparr>"
    using owners_from [OF b(2)] .
  have "hsize (nt_keyToInode (nn_tables s)) \<le> 65536"
    using c by (simp add: collected_from_def socket_map_ok_def kMaxSocketEntries_def)
  then have m: "hsize (nt_keyToInode (nn_tables s)) = 65536 \<or> netns_match w vs flow inode"
    using netns_lookup [OF c f(1,2)] by (simp add: kMaxSocketEntries_def le_less) blast
  have u: "e \<in> (\<Union>b \<in> set vs. set (nb_pids b))" using b(1) e(1) by blast
  have pid: "nn_resolvePid files flow s = qint32_of (np_pid e)" "pidStartTime files (nn_resolvePid files flow s) = Some (np_startTime e)"
    using f(4,5) e(3) by simp_all
  show ?thesis unfolding netns_evidence_def using u pid e(2) foreign m by blast
qed


definition sample_netns_world :: NetnsWorld where
  "sample_netns_world = \<lparr>nw_anchorOpens = True, nw_anchorStats = True, nw_selfExists = True, nw_names = Some [''self'', ''7''],
     nw_stat = (\<lambda>_. Some 5), nw_open = (\<lambda>_. Some 5), nw_enter = (\<lambda>_. True), nw_restore = (\<lambda>_. True), nw_view = (\<lambda>_. sample_host),
     nw_fds = (\<lambda>_. Some [(''3'', Some ''socket:[4711]'')]), nw_files = sample_world, nw_status = (\<lambda>_. None)\<rparr>"

lemma sample_netns_dumps: "netns_dumps (nw_view sample_netns_world ns) = enroll_socket 17 sample_diag []"
  by (simp add: netns_dumps_def sample_netns_world_def sample_dump AF_INET_def AF_INET6_def)

lemma sample_enrolled: "\<exists>fk lk. enroll_socket 17 sample_diag [] = [(fk, 4711), (lk, 4711)] \<and> fk \<noteq> lk \<and> \<not> isLocalKey fk \<and> isLocalKey lk"
proof -
  have l: "addrFromDiag AF_INET (dm_src sample_diag) = HostV4 0x7F000001" and r: "addrFromDiag AF_INET (dm_dst sample_diag) = HostV4 0"
    using replicate_zeros by (simp_all add: addrFromDiag_def sample_diag_def be_val_Cons be_val_Nil)
  have k: "makeFlowKey 17 x p y q \<noteq> makeLocalKey 17 z t" "isLocalKey (makeLocalKey 17 z t)" "\<not> isLocalKey (makeFlowKey 17 x p y q)" for p q x y z t
    by (auto simp: makeLocalKey_def makeFlowKey_def isLocalKey_def)
  have "enroll_socket 17 sample_diag [] = [(makeFlowKey 17 (HostV4 0x7F000001) 53 (HostV4 0) 0, 4711), (makeLocalKey 17 (HostV4 0x7F000001) 53, 4711)]"
    using l r by (simp add: k k(1) [THEN not_sym] enroll_socket_def Let_def sample_diag_def AF_INET_def AF_INET6_def insertLocalKey_def kMaxSocketEntries_def)
  then show ?thesis using k by blast
qed

definition sample_bucket :: NetnsBucket where
  "sample_bucket = \<lparr>nb_inode = 5, nb_pids = [\<lparr>np_pid = 7, np_startTime = 77\<rparr>]\<rparr>"

lemma sample_walk: "wk_netnses (walk_netnses sample_netns_world 1 False [''self'', ''7'']) = [sample_bucket]"
proof -
  have n: "long_of_name ''self'' = None" "long_of_name ''7'' = Some 7" by (simp_all add: long_of_name_def is_digit_def digit_val_def)
  have q: "qint32_of 7 = 7" by (simp add: qint32_of_def)
  show ?thesis
    by (simp add: walk_netnses_eq foreign_pids_def n q sample_netns_world_def sample_start buckets_of_def bucket_inodes_def first_seen_def
        kMaxNetnsesPerTick_def sample_bucket_def)
qed

lemma sample_owners: "buildInodeToPidForNetns sample_netns_world sample_bucket a = ([(4711, \<lparr>ps_pid = 7, ps_startTime = 77\<rparr>)], a)"
  by (simp add: buildInodeToPidForNetns_def sample_bucket_def sample_netns_world_def netns_fd_def sample_link kMaxSocketEntries_def qint32_of_def)

lemma sample_scan:
  assumes "nk_anchorFd k = Some 1"
  shows "\<exists>k' m. scan_all sample_netns_world [sample_bucket] (k, no_tables) =
    Some (k', \<lparr>nt_keyToInode = enroll_socket 17 sample_diag [], nt_inodeToPid = [(4711, \<lparr>ps_pid = 7, ps_startTime = 77\<rparr>)], nt_pidToStartTime = m\<rparr>)"
proof -
  obtain fk lk where e: "enroll_socket 17 sample_diag [] = [(fk, 4711), (lk, 4711)]" "fk \<noteq> lk" "\<not> isLocalKey fk" "isLocalKey lk"
    using sample_enrolled by blast
  have open5: "sw_socketOpens (nw_view sample_netns_world 5)" by (simp add: sample_netns_world_def sample_host_def)
  have "collect_netns sample_netns_world sample_bucket (k\<lparr>nk_netns := 5\<rparr>) no_tables =
      (k\<lparr>nk_netns := 5\<rparr>, \<lparr>nt_keyToInode = enroll_socket 17 sample_diag [], nt_inodeToPid = [(4711, \<lparr>ps_pid = 7, ps_startTime = 77\<rparr>)], nt_pidToStartTime = [(7, 77)]\<rparr>)"
    using e(2-4) by (simp add: collect_netns_def open5 sample_netns_dumps sample_owners no_tables_def e(1) merge_key_def
      insertLocalKey_def kMaxSocketEntries_def isAmbiguousLocalInode_def kAmbiguousLocalInode_def)
  moreover have "nw_open sample_netns_world 7 = Some 5" "nw_enter sample_netns_world 7" "nw_restore sample_netns_world 7"
    by (simp_all add: sample_netns_world_def)
  moreover have "nb_pids sample_bucket = [\<lparr>np_pid = 7, np_startTime = 77\<rparr>]" "nb_inode sample_bucket = 5" by (simp_all add: sample_bucket_def)
  ultimately show ?thesis using assms by (simp add: scanOneNetns_def restore_guard_def)
qed

definition sample_scanner :: NetnsScanner where
  "sample_scanner = snd (nn_initialize sample_netns_world 1 (mk_NetnsScanner balancedResolverTuning))"

lemma sample_scanned: "\<exists>s. netns_reachable 1 s \<and> nn_resolvePid sample_world sample_dns_flow s = 7"
proof -
  have r0: "netns_reachable 1 sample_scanner"
    unfolding sample_scanner_def by (rule netns_init [OF netns_new]) (simp add: mk_NetnsScanner_def)
  define k1 where "k1 = (new_worker 1)\<lparr>nk_anchorFd := Some 1, nk_anchorInode := 1, nk_timer := Some (nn_refreshIntervalMs sample_scanner)\<rparr>"
  define s1 where "s1 = sample_scanner\<lparr>nn_worker := Some k1, nn_calls := [CallTick]\<rparr>"
  have "nn_run_call sample_netns_world sample_scanner = Some s1"
    by (simp add: nn_run_call_def sample_scanner_def nn_initialize_def sample_netns_world_def worker_start_def s1_def k1_def new_worker_def)
  then have r1: "netns_reachable 1 s1" using netns_call [OF r0] by blast
  have sel: "nk_anchorFd k1 = Some 1" "nk_anchorInode k1 = 1" "nk_timer k1 = Some (nn_refreshIntervalMs s1)" "\<not> nk_warnedNetnsCap k1"
    "nn_stop s1 = False" "nn_ready s1" "nn_worker s1 = Some k1" "nn_calls s1 = [CallTick]"
    by (simp_all add: k1_def s1_def new_worker_def sample_scanner_def nn_initialize_def sample_netns_world_def mk_NetnsScanner_def)
  have names: "nw_names sample_netns_world = Some [''self'', ''7'']" by (simp add: sample_netns_world_def)
  define t :: "(int, quint64) qhash \<Rightarrow> NetnsTables" where
    "t m = \<lparr>nt_keyToInode = enroll_socket 17 sample_diag [], nt_inodeToPid = [(4711, \<lparr>ps_pid = 7, ps_startTime = 77\<rparr>)], nt_pidToStartTime = m\<rparr>" for m
  define k2 where "k2 = k1\<lparr>nk_warnedNetnsCap := wk_warned (walk_netnses sample_netns_world 1 False [''self'', ''7''])\<rparr>"
  have "nk_anchorFd k2 = Some 1" by (simp add: k2_def sel)
  from sample_scan [OF this] obtain k' m where "scan_all sample_netns_world [sample_bucket] (k2, no_tables) = Some (k', t m)"
    unfolding t_def by blast
  then have "worker_tick sample_netns_world False (nn_refreshIntervalMs s1) k1 = Some (k', Some (t m))"
    by (simp add: worker_tick_def sel names Let_def sample_walk k2_def)
  then have "nn_run_call sample_netns_world s1 = Some (s1\<lparr>nn_calls := [], nn_worker := Some k', nn_tables := t m\<rparr>)"
    by (simp add: nn_run_call_def sel nn_tick_def)
  then have "netns_reachable 1 (s1\<lparr>nn_calls := [], nn_worker := Some k', nn_tables := t m\<rparr>)" using netns_call [OF r1] by blast
  moreover have "nn_resolvePid sample_world sample_dns_flow (s1\<lparr>nn_calls := [], nn_worker := Some k', nn_tables := t m\<rparr>) = 7"
  proof -
    have proto: "flow_proto sample_dns_flow = 17" by (simp add: flow_proto_def sample_dns_flow_def)
    show ?thesis
      by (simp add: nn_resolvePid_def sel t_def proto sample_socket isAmbiguousLocalInode_def kAmbiguousLocalInode_def sample_start)
  qed
  ultimately show ?thesis by blast
qed


end
