(* ===== verification/FlowHeap.thy ===== *)
theory FlowHeap
  imports FlowTypes TopK
begin

text \<open>
  \<open>backend/linux/FlowTopK.h\<close>: a bounded min-heap by total bytes that keeps the loudest \<open>cap\<close> flows of a stream.
  \<open>std::push_heap\<close> and \<open>std::pop_heap\<close> are the binary heap on the index tree; the C++ standard leaves the
  order inside the heap open, and nothing proved here depends on it beyond the heap property.
\<close>

section \<open>The heap algorithms\<close>

definition swap_at :: "nat \<Rightarrow> nat \<Rightarrow> 'a list \<Rightarrow> 'a list" where
  "swap_at i j xs = xs[i := xs ! j, j := xs ! i]"

definition parent :: "nat \<Rightarrow> nat" where
  "parent i = (i - 1) div 2"

lemma parent_less [simp]: "0 < i \<Longrightarrow> parent i < i"
  by (simp add: parent_def)

lemma parent_neq [simp]: "0 < i \<Longrightarrow> parent i \<noteq> i" "0 < i \<Longrightarrow> i \<noteq> parent i"
  by (auto simp: parent_def)

lemma children_iff: "0 < j \<Longrightarrow> parent j = i \<longleftrightarrow> j = 2 * i + 1 \<or> j = 2 * i + 2"
  unfolding parent_def by presburger

text \<open>\<open>cmp a b\<close>: \<open>a\<close> may not be a parent of \<open>b\<close>.\<close>

function sift_up :: "('a \<Rightarrow> 'a \<Rightarrow> bool) \<Rightarrow> nat \<Rightarrow> 'a list \<Rightarrow> 'a list" where
  "sift_up cmp i xs =
     (if 0 < i \<and> cmp (xs ! parent i) (xs ! i) then sift_up cmp (parent i) (swap_at i (parent i) xs) else xs)"
  by pat_completeness auto
termination by (relation "measure (\<lambda>(_, i, _). i)") auto

function sift_down :: "('a \<Rightarrow> 'a \<Rightarrow> bool) \<Rightarrow> nat \<Rightarrow> nat \<Rightarrow> 'a list \<Rightarrow> 'a list" where
  "sift_down cmp n i xs =
     (let l = 2 * i + 1; r = 2 * i + 2; c = (if r < n \<and> cmp (xs ! l) (xs ! r) then r else l)
      in if l < n \<and> cmp (xs ! i) (xs ! c) then sift_down cmp n c (swap_at i c xs) else xs)"
  by pat_completeness auto
termination by (relation "measure (\<lambda>(_, n, i, _). n - i)") (auto simp: Let_def split: if_splits)

declare sift_up.simps [simp del] sift_down.simps [simp del]

definition push_heap :: "('a \<Rightarrow> 'a \<Rightarrow> bool) \<Rightarrow> 'a list \<Rightarrow> 'a list" where
  "push_heap cmp xs = sift_up cmp (length xs - 1) xs"

definition pop_heap :: "('a \<Rightarrow> 'a \<Rightarrow> bool) \<Rightarrow> 'a list \<Rightarrow> 'a list" where
  "pop_heap cmp xs = (let n = length xs - 1 in sift_down cmp n 0 (swap_at 0 n xs))"

section \<open>Top flows by bytes\<close>

definition flowBytesTotal :: "Connection \<Rightarrow> quint64" where
  "flowBytesTotal c = c_rxBytes c + c_txBytes c"

definition FlowMinHeapByBytes :: "Connection \<Rightarrow> Connection \<Rightarrow> bool" where
  "FlowMinHeapByBytes a b = (flowBytesTotal b < flowBytesTotal a)"

definition admitFlowTopK :: "int \<Rightarrow> Connection \<Rightarrow> Connection list \<Rightarrow> Connection list" where
  "admitFlowTopK cap c heap =
     (if cap \<le> 0 then heap @ [c]
      else if int (length heap) < cap then push_heap FlowMinHeapByBytes (heap @ [c])
      else if flowBytesTotal (hd heap) < flowBytesTotal c
      then (let heap = pop_heap FlowMinHeapByBytes heap
            in push_heap FlowMinHeapByBytes (heap[length heap - 1 := c]))
      else heap)"

section \<open>The heap property\<close>

locale min_heap =
  fixes w :: "'a \<Rightarrow> nat" and cmp :: "'a \<Rightarrow> 'a \<Rightarrow> bool"
  assumes cmp_less: "cmp a b \<longleftrightarrow> w b < w a"
begin

definition wt :: "'a list \<Rightarrow> nat \<Rightarrow> nat" where
  "wt xs k = (if k < length xs then w (xs ! k) else 0)"

definition heap_ok :: "nat \<Rightarrow> 'a list \<Rightarrow> bool" where
  "heap_ok n xs = (\<forall>i. 0 < i \<longrightarrow> i < n \<longrightarrow> wt xs (parent i) \<le> wt xs i)"

lemma heap_front: "heap_ok n xs \<Longrightarrow> i < n \<Longrightarrow> wt xs 0 \<le> wt xs i"
proof (induction i rule: less_induct)
  case (less i)
  show ?case
  proof (cases "i = 0")
    case False
    then have "wt xs 0 \<le> wt xs (parent i)" using less.IH [of "parent i"] less.prems less_trans [OF parent_less] by simp
    also have "\<dots> \<le> wt xs i" using less.prems False by (simp add: heap_ok_def)
    finally show ?thesis .
  qed simp
qed

text \<open>Everything is in order but the element at \<open>i\<close>, which may be too light (\<open>up\<close>) or too heavy (\<open>down\<close>).\<close>

definition up_ok :: "nat \<Rightarrow> nat \<Rightarrow> (nat \<Rightarrow> nat) \<Rightarrow> bool" where
  "up_ok n i v = ((\<forall>j. 0 < j \<longrightarrow> j < n \<longrightarrow> j \<noteq> i \<longrightarrow> v (parent j) \<le> v j) \<and>
     (0 < i \<longrightarrow> (\<forall>j. 0 < j \<longrightarrow> j < n \<longrightarrow> parent j = i \<longrightarrow> v (parent i) \<le> v j)))"

definition down_ok :: "nat \<Rightarrow> nat \<Rightarrow> (nat \<Rightarrow> nat) \<Rightarrow> bool" where
  "down_ok n i v = ((\<forall>j. 0 < j \<longrightarrow> j < n \<longrightarrow> parent j \<noteq> i \<longrightarrow> v (parent j) \<le> v j) \<and>
     (0 < i \<longrightarrow> (\<forall>j. 0 < j \<longrightarrow> j < n \<longrightarrow> parent j = i \<longrightarrow> v (parent i) \<le> v j)))"

lemma up_okD: "up_ok n i v \<Longrightarrow> 0 < j \<Longrightarrow> j < n \<Longrightarrow> j \<noteq> i \<Longrightarrow> v (parent j) \<le> v j"
  "up_ok n i v \<Longrightarrow> 0 < i \<Longrightarrow> 0 < j \<Longrightarrow> j < n \<Longrightarrow> parent j = i \<Longrightarrow> v (parent i) \<le> v j"
  by (simp_all add: up_ok_def)

lemma down_okD: "down_ok n i v \<Longrightarrow> 0 < j \<Longrightarrow> j < n \<Longrightarrow> parent j \<noteq> i \<Longrightarrow> v (parent j) \<le> v j"
  "down_ok n i v \<Longrightarrow> 0 < i \<Longrightarrow> 0 < j \<Longrightarrow> j < n \<Longrightarrow> parent j = i \<Longrightarrow> v (parent i) \<le> v j"
  by (simp_all add: down_ok_def)

lemma up_step:
  assumes ok: "up_ok n i v" and i: "0 < i" "i < n" and lt: "v i < v (parent i)"
  shows "up_ok n (parent i) (v(i := v (parent i), parent i := v i))"
proof -
  let ?v = "v(i := v (parent i), parent i := v i)"
  have "?v (parent j) \<le> ?v j" if j: "0 < j" "j < n" "j \<noteq> parent i" for j
    using up_okD [OF ok, of j] lt i j by (cases "j = i"; cases "parent j = i"; cases "parent j = parent i") auto
  moreover have "?v (parent (parent i)) \<le> ?v j" if j: "0 < parent i" "0 < j" "j < n" "parent j = parent i" for j
  proof -
    have lts: "parent i < i" "parent (parent i) < parent i" using i j(1) by simp_all
    have pp: "parent (parent i) \<noteq> parent i" "parent (parent i) \<noteq> i" "parent i < n" "parent i \<noteq> i"
      using lts i(2) by linarith+
    have pj: "j \<noteq> parent i" using j(4) pp(1) by metis
    have up: "v (parent (parent i)) \<le> v (parent i)" by (rule up_okD(1) [OF ok j(1) pp(3,4)])
    show ?thesis
    proof (cases "j = i")
      case False
      have "v (parent i) \<le> v j" using up_okD(1) [OF ok j(2,3) False] unfolding j(4) .
      then show ?thesis using up pp pj False by simp
    qed (use up pp in simp)
  qed
  ultimately show ?thesis by (simp add: up_ok_def)
qed

lemma down_step:
  assumes ok: "down_ok n i v" and c: "0 < c" "c < n" "parent c = i" and lt: "v c < v i"
    and least: "\<And>j. 0 < j \<Longrightarrow> j < n \<Longrightarrow> parent j = i \<Longrightarrow> v c \<le> v j"
  shows "down_ok n c (v(i := v c, c := v i))"
proof -
  let ?v = "v(i := v c, c := v i)"
  have ic: "i < c" using c by auto
  have "?v (parent j) \<le> ?v j" if j: "0 < j" "j < n" "parent j \<noteq> c" for j
  proof (cases "parent j = i")
    case True
    then show ?thesis using least [OF j(1,2)] lt ic j(1) by auto
  next
    case False
    then have "v (parent j) \<le> v j" "j \<noteq> c" using down_okD(1) [OF ok j(1,2)] c(3) by auto
    moreover have "v (parent i) \<le> v c" if "0 < i" using down_okD(2) [OF ok that c] .
    ultimately show ?thesis using j(1,3) False by auto
  qed
  moreover have "?v (parent c) \<le> ?v j" if j: "0 < j" "j < n" "parent j = c" for j
  proof -
    have "c < j" using j by auto
    moreover have "v c \<le> v j" using down_okD(1) [OF ok j(1,2)] j(3) ic by auto
    ultimately show ?thesis using ic c(3) by auto
  qed
  ultimately show ?thesis unfolding down_ok_def by blast
qed

lemma wt_swap: "i < length xs \<Longrightarrow> j < length xs \<Longrightarrow> wt (swap_at i j xs) = (wt xs)(i := wt xs j, j := wt xs i)"
  by (auto simp: fun_eq_iff wt_def swap_at_def nth_list_update)

lemma length_swap [simp]: "length (swap_at i j xs) = length xs"
  by (simp add: swap_at_def)

lemma mset_swap_at: "i < length xs \<Longrightarrow> j < length xs \<Longrightarrow> mset (swap_at i j xs) = mset xs"
  unfolding swap_at_def by (rule mset_swap)

lemma sift_up_heap:
  assumes "up_ok (length xs) i (wt xs)" and "i < length xs"
  shows "heap_ok (length xs) (sift_up cmp i xs) \<and> mset (sift_up cmp i xs) = mset xs"
  using assms
proof (induction i arbitrary: xs rule: less_induct)
  case (less i)
  show ?case
  proof (cases "0 < i \<and> cmp (xs ! parent i) (xs ! i)")
    case True
    have p: "parent i < length xs" using True less.prems(2) less_trans [OF parent_less] by simp
    have "wt xs i < wt xs (parent i)" using True less.prems(2) p by (simp add: wt_def cmp_less)
    then have "up_ok (length xs) (parent i) (wt (swap_at i (parent i) xs))"
      unfolding wt_swap [OF less.prems(2) p] using True less.prems by (intro up_step) simp_all
    then show ?thesis
      using less.IH [of "parent i" "swap_at i (parent i) xs"] True p less.prems(2)
      by (subst (1 2) sift_up.simps) (simp add: mset_swap_at)
  next
    case False
    have "wt xs (parent j) \<le> wt xs j" if j: "0 < j" "j < length xs" for j
    proof (cases "j = i")
      case True
      have "parent i < length xs" using j True less_trans [OF parent_less] by simp
      then show ?thesis using False True j by (simp add: wt_def cmp_less)
    qed (use less.prems(1) j in \<open>simp add: up_ok_def\<close>)
    then show ?thesis using False by (subst (1 2) sift_up.simps) (auto simp: heap_ok_def)
  qed
qed

text \<open>Nothing at or past \<open>n\<close> moves.\<close>

lemma sift_down_heap:
  assumes "down_ok n i (wt xs)" and "n \<le> length xs"
  shows "heap_ok n (sift_down cmp n i xs) \<and> mset (sift_down cmp n i xs) = mset xs \<and> drop n (sift_down cmp n i xs) = drop n xs"
  using assms
proof (induction "n - i" arbitrary: i xs rule: less_induct)
  case less
  define l where "l = 2 * i + 1"
  define c where "c = (if l + 1 < n \<and> cmp (xs ! l) (xs ! (l + 1)) then l + 1 else l)"
  have step: "sift_down cmp n i xs = (if l < n \<and> cmp (xs ! i) (xs ! c) then sift_down cmp n c (swap_at i c xs) else xs)"
    by (subst sift_down.simps) (auto simp: Let_def l_def c_def)
  have wl: "wt xs l = w (xs ! l)" if "l < n" using that less.prems(2) by (simp add: wt_def)
  have child: "j = l \<or> j = l + 1" if "0 < j" "parent j = i" for j
    using that children_iff [of j i] by (simp add: l_def)
  have least: "wt xs c \<le> wt xs j" if "0 < j" "j < n" "parent j = i" for j
    using child [OF that(1,3)] that(2) less.prems(2) by (auto simp: c_def wt_def cmp_less)
  show ?case
  proof (cases "l < n \<and> cmp (xs ! i) (xs ! c)")
    case True
    have c: "0 < c" "c < n" "parent c = i" "i < c"
      using True by (auto simp: c_def l_def children_iff)
    have lens: "i < length xs" "c < length xs" using c less.prems(2) by simp_all
    have "wt xs c < wt xs i" using True lens by (simp add: wt_def cmp_less)
    then have "down_ok n c (wt (swap_at i c xs))"
      unfolding wt_swap [OF lens] using less.prems(1) c least by (intro down_step) simp_all
    moreover have "n - c < n - i" using c by simp
    moreover have "drop n (swap_at i c xs) = drop n xs" using c by (simp add: swap_at_def)
    ultimately show ?thesis
      using less.hyps [of c "swap_at i c xs"] True less.prems(2) lens by (simp add: step mset_swap_at)
  next
    case False
    have "wt xs (parent j) \<le> wt xs j" if j: "0 < j" "j < n" for j
    proof (cases "parent j = i")
      case True
      then have "l < n" "i < length xs" "c < n" using child [OF j(1)] j less.prems(2) parent_less [OF j(1)] by (auto simp: c_def)
      then have "wt xs i \<le> wt xs c" using False less.prems(2) by (simp add: wt_def cmp_less)
      then show ?thesis using least [OF j True] True by simp
    qed (use less.prems(1) j in \<open>simp add: down_ok_def\<close>)
    then show ?thesis unfolding step if_not_P [OF False] by (simp add: heap_ok_def)
  qed
qed

text \<open>What the two standard algorithms promise.\<close>

lemma length_from_mset: "mset xs = mset ys \<Longrightarrow> length xs = length ys"
  by (rule mset_eq_length)

lemma push_ok:
  assumes "heap_ok (length xs) xs"
  shows "heap_ok (Suc (length xs)) (push_heap cmp (xs @ [c])) \<and> mset (push_heap cmp (xs @ [c])) = add_mset c (mset xs)"
proof -
  have "wt (xs @ [c]) (parent j) \<le> wt (xs @ [c]) j" if "0 < j" "j < length xs" for j
    using assms [unfolded heap_ok_def, rule_format, OF that] that less_trans [OF parent_less [OF that(1)] that(2)]
    by (simp add: wt_def nth_append)
  moreover have "parent j \<noteq> length xs" if "0 < j" "j < Suc (length xs)" for j
    using parent_less [OF that(1)] that(2) by linarith
  ultimately have "up_ok (length (xs @ [c])) (length xs) (wt (xs @ [c]))" by (simp add: up_ok_def)
  from sift_up_heap [OF this] show ?thesis by (simp add: push_heap_def)
qed

lemma pop_ok:
  assumes "heap_ok (length xs) xs" and "xs \<noteq> []"
  shows "\<exists>rest. pop_heap cmp xs = rest @ [hd xs] \<and> add_mset (hd xs) (mset rest) = mset xs \<and> heap_ok (length rest) rest"
proof -
  define n where "n = length xs - 1"
  have n: "n < length xs" "length xs = Suc n" using assms(2) by (simp_all add: n_def)
  define ys where "ys = swap_at 0 n xs"
  have pop: "pop_heap cmp xs = sift_down cmp n 0 ys" by (simp add: pop_heap_def n_def ys_def Let_def)
  have wts: "wt ys = (wt xs)(0 := wt xs n, n := wt xs 0)" unfolding ys_def using n assms(2) by (intro wt_swap) simp_all
  have "wt ys (parent j) \<le> wt ys j" if "0 < j" "j < n" "parent j \<noteq> 0" for j
    using assms(1) that n parent_less [OF that(1)] unfolding wts by (simp add: heap_ok_def)
  then have "down_ok n 0 (wt ys)" by (simp add: down_ok_def)
  from sift_down_heap [OF this] have sd: "heap_ok n (pop_heap cmp xs)" "mset (pop_heap cmp xs) = mset ys" "drop n (pop_heap cmp xs) = drop n ys"
    using n(1) pop by (simp_all add: ys_def)
  have ms: "mset ys = mset xs" unfolding ys_def using n assms(2) by (intro mset_swap_at) simp_all
  have "ys ! n = hd xs" using n assms(2) by (simp add: ys_def swap_at_def nth_list_update hd_conv_nth)
  then have "drop n ys = [hd xs]" using n by (simp add: ys_def Cons_nth_drop_Suc [symmetric])
  moreover define rest where "rest = take n (pop_heap cmp xs)"
  ultimately have e: "pop_heap cmp xs = rest @ [hd xs]"
    using append_take_drop_id [of n "pop_heap cmp xs"] sd(3) by simp
  have "length (pop_heap cmp xs) = Suc n" using mset_eq_length [OF sd(2)] n by (simp add: ys_def)
  then have len: "length rest = n" unfolding e by simp
  have "heap_ok n rest"
    unfolding heap_ok_def
  proof (intro allI impI)
    fix i assume i: "0 < i" "i < n"
    have "parent i < n" using parent_less [OF i(1)] i(2) by linarith
    then show "wt rest (parent i) \<le> wt rest i"
      using sd(1) [unfolded heap_ok_def, rule_format, OF i] i len unfolding e by (simp add: wt_def nth_append)
  qed
  moreover have "add_mset (hd xs) (mset rest) = mset xs" using sd(2) ms unfolding e by simp
  ultimately show ?thesis using e len by blast
qed

end

definition flow_weight :: "Connection \<Rightarrow> nat" where
  "flow_weight c = unat (flowBytesTotal c)"

interpretation flows: min_heap flow_weight FlowMinHeapByBytes
  by unfold_locales (simp add: FlowMinHeapByBytes_def flow_weight_def word_less_nat_alt)

section \<open>The stream keeps the loudest\<close>

text \<open>The flow one admission leaves out, if any.\<close>

definition left_out :: "int \<Rightarrow> Connection \<Rightarrow> Connection list \<Rightarrow> Connection list" where
  "left_out cap c heap =
     (if cap \<le> 0 \<or> int (length heap) < cap then []
      else if flowBytesTotal (hd heap) < flowBytesTotal c then [hd heap] else [c])"

definition bounded_ok :: "int \<Rightarrow> Connection list \<Rightarrow> Connection list \<Rightarrow> Connection list \<Rightarrow> bool" where
  "bounded_ok cap seen heap out = (mset heap + mset out = mset seen \<and> int (length heap) = min cap (int (length seen)) \<and>
     flows.heap_ok (length heap) heap \<and> (\<forall>x \<in> set heap. \<forall>y \<in> set out. flow_weight y \<le> flow_weight x))"

lemma heap_front_least: "flows.heap_ok (length heap) heap \<Longrightarrow> x \<in> set heap \<Longrightarrow> flow_weight (hd heap) \<le> flow_weight x"
proof -
  assume ok: "flows.heap_ok (length heap) heap" and "x \<in> set heap"
  then obtain i where "i < length heap" "heap ! i = x" by (auto simp: in_set_conv_nth)
  then show ?thesis using flows.heap_front [OF ok, of i] by (auto simp: flows.wt_def hd_conv_nth split: if_splits)
qed

lemma admit_replace:
  assumes "flows.heap_ok (length heap) heap" and "heap \<noteq> []"
  shows "flows.heap_ok (length heap) (push_heap FlowMinHeapByBytes ((pop_heap FlowMinHeapByBytes heap)[length (pop_heap FlowMinHeapByBytes heap) - 1 := c])) \<and>
    add_mset (hd heap) (mset (push_heap FlowMinHeapByBytes ((pop_heap FlowMinHeapByBytes heap)[length (pop_heap FlowMinHeapByBytes heap) - 1 := c]))) = add_mset c (mset heap)"
proof -
  obtain rest where r: "pop_heap FlowMinHeapByBytes heap = rest @ [hd heap]" "add_mset (hd heap) (mset rest) = mset heap" "flows.heap_ok (length rest) rest"
    using flows.pop_ok [OF assms] by blast
  have "length heap = Suc (length rest)" using arg_cong [OF r(2), of size] by simp
  then show ?thesis using flows.push_ok [OF r(3), of c] r(2) by (simp add: r(1))
qed

lemma admit_step:
  assumes "bounded_ok cap seen heap out" and "0 < cap"
  shows "bounded_ok cap (seen @ [c]) (admitFlowTopK cap c heap) (out @ left_out cap c heap)"
proof -
  have ok: "mset heap + mset out = mset seen" "int (length heap) = min cap (int (length seen))" "flows.heap_ok (length heap) heap"
    "\<And>x y. x \<in> set heap \<Longrightarrow> y \<in> set out \<Longrightarrow> flow_weight y \<le> flow_weight x"
    using assms(1) unfolding bounded_ok_def by blast+
  have sizes: "length heap + length out = length seen" using arg_cong [OF ok(1), of size] by simp
  show ?thesis
  proof (cases "int (length heap) < cap")
    case True
    let ?h = "push_heap FlowMinHeapByBytes (heap @ [c])"
    have p: "flows.heap_ok (Suc (length heap)) ?h" "mset ?h = add_mset c (mset heap)" using flows.push_ok [OF ok(3), of c] by simp_all
    have "out = []" using ok(2) sizes True by simp
    moreover have "length ?h = Suc (length heap)" using arg_cong [OF p(2), of size] by simp
    moreover have "admitFlowTopK cap c heap = ?h" "left_out cap c heap = []"
      using True assms(2) by (simp_all add: admitFlowTopK_def left_out_def)
    ultimately show ?thesis
      using True ok(1,2) p sizes by (simp add: bounded_ok_def)
  next
    case full: False
    have len: "int (length heap) = cap" using full ok(2) by linarith
    then have ne: "heap \<noteq> []" using assms(2) by auto
    show ?thesis
    proof (cases "flowBytesTotal (hd heap) < flowBytesTotal c")
      case True
      let ?h = "push_heap FlowMinHeapByBytes ((pop_heap FlowMinHeapByBytes heap)[length (pop_heap FlowMinHeapByBytes heap) - 1 := c])"
      have h: "flows.heap_ok (length heap) ?h" "add_mset (hd heap) (mset ?h) = add_mset c (mset heap)"
        using admit_replace [OF ok(3) ne, of c] by blast+
      have lh: "length ?h = length heap" using arg_cong [OF h(2), of size] by simp
      have set: "set ?h \<subseteq> insert c (set heap)" using arg_cong [OF h(2), of set_mset] by auto
      have lt: "flow_weight (hd heap) < flow_weight c" using True by (simp add: flow_weight_def word_less_nat_alt)
      have "flow_weight y \<le> flow_weight x" if "x \<in> set ?h" "y \<in> set out \<or> y = hd heap" for x y
      proof -
        have x: "x = c \<or> x \<in> set heap" using that(1) set by blast
        have "hd heap \<in> set heap" using ne by simp
        then have "flow_weight y \<le> flow_weight (hd heap)" using that(2) ok(4) by blast
        then show ?thesis using x lt heap_front_least [OF ok(3), of x] by auto
      qed
      moreover have "mset ?h + mset (out @ [hd heap]) = mset (seen @ [c])" using h(2) ok(1) by (simp flip: ok(1))
      moreover have "admitFlowTopK cap c heap = ?h" "left_out cap c heap = [hd heap]"
        using full True assms(2) by (simp_all add: admitFlowTopK_def left_out_def Let_def)
      ultimately show ?thesis using h(1) lh len ok(2) by (simp add: bounded_ok_def)
    next
      case False
      have le: "flow_weight c \<le> flow_weight (hd heap)" using False by (simp add: flow_weight_def word_less_nat_alt)
      have "flow_weight c \<le> flow_weight x" if "x \<in> set heap" for x
        using le heap_front_least [OF ok(3) that] by simp
      moreover have "admitFlowTopK cap c heap = heap" "left_out cap c heap = [c]"
        using full False assms(2) by (simp_all add: admitFlowTopK_def left_out_def)
      ultimately show ?thesis using ok len by (auto simp: bounded_ok_def)
    qed
  qed
qed

text \<open>The stream as a selection of its loudest flows.\<close>

definition offered :: "int \<Rightarrow> Connection list \<Rightarrow> Connection list \<times> Connection list" where
  "offered cap cs = fold (\<lambda>c (heap, out). (admitFlowTopK cap c heap, out @ left_out cap c heap)) cs ([], [])"

definition kept_flows :: "nat \<Rightarrow> Connection list \<Rightarrow> Connection list" where
  "kept_flows n cs = (if n = 0 then [] else fold (admitFlowTopK (int n)) cs [])"

definition left_flows :: "nat \<Rightarrow> Connection list \<Rightarrow> Connection list" where
  "left_flows n cs = (if n = 0 then cs else snd (offered (int n) cs))"

lemma offered_fst: "fst (offered cap cs) = fold (admitFlowTopK cap) cs []"
proof -
  have "fst (fold (\<lambda>c (heap, out). (admitFlowTopK cap c heap, out @ left_out cap c heap)) cs x) = fold (admitFlowTopK cap) cs (fst x)" for x
    by (induction cs arbitrary: x) (auto simp: case_prod_beta)
  then show ?thesis by (simp add: offered_def)
qed

lemma offered_ok: "0 < cap \<Longrightarrow> bounded_ok cap cs (fst (offered cap cs)) (snd (offered cap cs))"
proof (induction cs rule: rev_induct)
  case Nil
  then show ?case by (simp add: offered_def bounded_ok_def flows.heap_ok_def)
next
  case (snoc c cs)
  from admit_step [OF snoc.IH [OF snoc.prems] snoc.prems, of c] show ?case
    by (simp add: offered_def case_prod_beta)
qed

interpretation heap_cap: top_k flow_weight kept_flows left_flows
proof
  fix n and xs :: "Connection list"
  have ok: "bounded_ok (int n) xs (kept_flows n xs) (left_flows n xs)" if "0 < n"
    using offered_ok [of "int n" xs] that by (simp add: kept_flows_def left_flows_def offered_fst)
  show "mset (kept_flows n xs) + mset (left_flows n xs) = mset xs"
    using ok by (cases "n = 0") (simp_all add: bounded_ok_def kept_flows_def left_flows_def)
  show "length (kept_flows n xs) = min n (length xs)"
    using ok by (cases "n = 0") (auto simp: bounded_ok_def kept_flows_def)
  show "flow_weight y \<le> flow_weight x" if "x \<in> set (kept_flows n xs)" "y \<in> set (left_flows n xs)" for x y
    using ok that by (cases "n = 0") (auto simp: bounded_ok_def kept_flows_def)
qed

end
