(* ===== verification/ConntrackMonitor.thy ===== *)
theory ConntrackMonitor
  imports FlowHeap AgentServices
begin

text \<open>
  \<open>backend/linux/ConntrackMonitor.cpp\<close> and \<open>ConntrackOrient.h\<close>: the in-process monitor. A poll dumps the kernel's
  connection table in two queries, decodes, orients and names the interface of every flow, keeps the loudest 4096,
  and attributes them. Interface names of forwarded flows and interface indices go through two
  least-recently-used caches.

  The kernel table, the routing decision, \<open>if_nametoindex\<close> and the list of interfaces are the environment.
\<close>

section \<open>The LRU cache\<close>

text \<open>\<open>m_recent\<close> is the list of keys, most recent first; the iterator kept in an entry is the position of its key.\<close>

record ('k, 'v) LruCache =
  lru_max :: nat
  lru_recent :: "'k list"
  lru_items :: "('k, 'v) qhash"

definition mk_LruCache :: "nat \<Rightarrow> ('k, 'v) LruCache" where
  "mk_LruCache n = \<lparr>lru_max = n, lru_recent = [], lru_items = []\<rparr>"

definition lru_touch :: "'k \<Rightarrow> ('k, 'v) LruCache \<Rightarrow> ('k, 'v) LruCache" where
  "lru_touch k c = c\<lparr>lru_recent := k # remove1 k (lru_recent c)\<rparr>"

definition lru_find :: "'k \<Rightarrow> ('k, 'v) LruCache \<Rightarrow> 'v option \<times> ('k, 'v) LruCache" where
  "lru_find k c = (case hfind (lru_items c) k of None \<Rightarrow> (None, c) | Some v \<Rightarrow> (Some v, lru_touch k c))"

definition evictLeastRecent :: "('k, 'v) LruCache \<Rightarrow> ('k, 'v) LruCache" where
  "evictLeastRecent c = c\<lparr>lru_items := hremove (last (lru_recent c)) (lru_items c), lru_recent := butlast (lru_recent c)\<rparr>"

definition lru_insert :: "'k \<Rightarrow> 'v \<Rightarrow> ('k, 'v) LruCache \<Rightarrow> ('k, 'v) LruCache" where
  "lru_insert k v c =
     (if hcontains (lru_items c) k then lru_touch k (c\<lparr>lru_items := hinsert k v (lru_items c)\<rparr>)
      else if lru_max c = 0 then c
      else
        (let c = c\<lparr>lru_recent := k # lru_recent c, lru_items := hinsert k v (lru_items c)\<rparr>
         in if lru_max c < hsize (lru_items c) then evictLeastRecent c else c))"

definition kRouteCacheMaxEntries :: nat where "kRouteCacheMaxEntries = 8192"
definition kIfIndexCacheMaxEntries :: nat where "kIfIndexCacheMaxEntries = 256"
definition kMaxInProcessFlows :: int where "kMaxInProcessFlows = 4096"

section \<open>One conntrack entry\<close>

text \<open>The attributes the callback reads, in host byte order; optional ones may be unset.\<close>

record NfConntrack =
  nf_l3 :: quint8
  nf_l4 :: quint8
  nf_src4 :: quint32
  nf_dst4 :: quint32
  nf_src6 :: "128 word option"
  nf_dst6 :: "128 word option"
  nf_sport :: quint16
  nf_dport :: quint16
  nf_origBytes :: "quint64 option"
  nf_replBytes :: "quint64 option"
  nf_origPackets :: "quint64 option"
  nf_replPackets :: "quint64 option"
  nf_tcpState :: "quint8 option"

text \<open>What the worker asks the host: interfaces with their addresses, the source address routing would choose,
  interface indices, and the outcome of the two dump queries: entries delivered and an \<open>errno\<close> on failure.\<close>

record ConntrackHost =
  ch_interfaces :: "(string \<times> QHostAddress list) list"
  ch_routeSource :: "QHostAddress \<Rightarrow> QHostAddress"
  ch_nametoindex :: "string \<Rightarrow> quint32"
  ch_open :: "nat option"
  ch_dump :: "quint8 \<Rightarrow> NfConntrack list \<times> nat option"
  ch_acct :: "string + nat"
  ch_acctWrite :: "bool \<times> bool"

definition buildIfaceMap :: "ConntrackHost \<Rightarrow> (QHostAddress, string) qhash" where
  "buildIfaceMap h = fold (\<lambda>(name, addrs) m. fold (\<lambda>ip. hinsert ip name) addrs m) (ch_interfaces h) []"

definition orientConntrackFlow ::
  "QHostAddress \<Rightarrow> QHostAddress \<Rightarrow> quint16 \<Rightarrow> quint16 \<Rightarrow> L4Proto \<Rightarrow> quint64 \<Rightarrow> quint64 \<Rightarrow> quint64 \<Rightarrow> quint64 \<Rightarrow> QHostAddress set \<Rightarrow> Connection" where
  "orientConntrackFlow src dst sport dport proto origBytes replBytes origPackets replPackets localAddrs =
     (let c = no_connection\<lparr>c_proto := proto\<rparr>;
          srcLocal = (src \<in> localAddrs); dstLocal = (dst \<in> localAddrs)
      in if srcLocal \<or> \<not> dstLocal
         then c\<lparr>c_local := \<lparr>ep_address = src, ep_port = sport\<rparr>, c_remote := \<lparr>ep_address = dst, ep_port = dport\<rparr>,
                c_txBytes := origBytes, c_rxBytes := replBytes, c_txPackets := origPackets, c_rxPackets := replPackets\<rparr>
         else c\<lparr>c_local := \<lparr>ep_address = dst, ep_port = dport\<rparr>, c_remote := \<lparr>ep_address = src, ep_port = sport\<rparr>,
                c_txBytes := replBytes, c_rxBytes := origBytes, c_txPackets := replPackets, c_rxPackets := origPackets\<rparr>)"

record Caches =
  cc_route :: "(QHostAddress, string) LruCache"
  cc_ifIndex :: "(string, quint32) LruCache"

definition cachedIfIndex :: "ConntrackHost \<Rightarrow> string \<Rightarrow> Caches \<Rightarrow> quint32 \<times> Caches" where
  "cachedIfIndex h name x =
     (if name = [] then (0, x)
      else
        (case lru_find name (cc_ifIndex x) of
           (Some idx, c) \<Rightarrow> (idx, x\<lparr>cc_ifIndex := c\<rparr>)
         | (None, c) \<Rightarrow> (let idx = ch_nametoindex h name in (idx, x\<lparr>cc_ifIndex := lru_insert name idx c\<rparr>))))"

definition attributeIface ::
  "ConntrackHost \<Rightarrow> (QHostAddress, string) qhash \<Rightarrow> QHostAddress \<Rightarrow> QHostAddress \<Rightarrow> Caches \<Rightarrow> string \<times> Caches" where
  "attributeIface h ifaceMap local remote x =
     (case hfind ifaceMap local of
        Some name \<Rightarrow> (name, x)
      | None \<Rightarrow>
          if remote = HostNull then ([], x)
          else
            (case lru_find remote (cc_route x) of
               (Some iface, c) \<Rightarrow> (iface, x\<lparr>cc_route := c\<rparr>)
             | (None, c) \<Rightarrow>
                 (let src = ch_routeSource h remote;
                      iface = (if src \<noteq> HostNull then (case hfind ifaceMap src of Some n \<Rightarrow> n | None \<Rightarrow> []) else [])
                  in (iface, x\<lparr>cc_route := lru_insert remote iface c\<rparr>))))"

definition decode_proto :: "quint8 \<Rightarrow> L4Proto option" where
  "decode_proto l4 = (if l4 = 6 then Some Tcp else if l4 = 17 then Some Udp else if l4 = 1 then Some Icmp
     else if l4 = 58 then Some IcmpV6 else None)"

definition decode_addrs :: "NfConntrack \<Rightarrow> (QHostAddress \<times> QHostAddress) option" where
  "decode_addrs ct =
     (if nf_l3 ct = 2 then Some (HostV4 (nf_src4 ct), HostV4 (nf_dst4 ct))
      else if nf_l3 ct = 10
      then (case (nf_src6 ct, nf_dst6 ct) of (Some s, Some d) \<Rightarrow> Some (HostV6 s, HostV6 d) | _ \<Rightarrow> None)
      else None)"

text \<open>The cast of a byte to the enumeration, defined for its values.\<close>

definition TcpState_of :: "quint8 \<Rightarrow> TcpState" where
  "TcpState_of raw =
     (case unat raw of 0 \<Rightarrow> TcpNone | Suc 0 \<Rightarrow> SynSent | Suc (Suc n) \<Rightarrow>
        if n = 0 then SynRecv else if n = 1 then Established else if n = 2 then FinWait else if n = 3 then CloseWait
        else if n = 4 then LastAck else if n = 5 then TimeWait else if n = 6 then Close else SynSent2)"

definition orZero :: "quint64 option \<Rightarrow> quint64" where
  "orZero v = (case v of Some n \<Rightarrow> n | None \<Rightarrow> 0)"

text \<open>The callback up to the heap: the decoded flow, or nothing for an entry that is skipped.\<close>

definition decode_flow ::
  "ConntrackHost \<Rightarrow> (QHostAddress, string) qhash \<Rightarrow> NfConntrack \<Rightarrow> Caches \<Rightarrow> Connection option \<times> Caches" where
  "decode_flow h ifaceMap ct x =
     (case (decode_proto (nf_l4 ct), decode_addrs ct) of
        (Some proto, Some (src, dst)) \<Rightarrow>
          (let ported = (proto = Tcp \<or> proto = Udp);
               c = orientConntrackFlow src dst (if ported then nf_sport ct else 0) (if ported then nf_dport ct else 0) proto
                     (orZero (nf_origBytes ct)) (orZero (nf_replBytes ct)) (orZero (nf_origPackets ct)) (orZero (nf_replPackets ct))
                     (fst ` set ifaceMap);
               (iface, x) = attributeIface h ifaceMap (ep_address (c_local c)) (ep_address (c_remote c)) x;
               (idx, x) = cachedIfIndex h iface x;
               c = c\<lparr>c_iface := iface, c_ifIndex := idx\<rparr>;
               c = (case nf_tcpState ct of
                      Some raw \<Rightarrow> if proto = Tcp then c\<lparr>c_tcpState := if raw \<le> 9 then TcpState_of raw else TcpNone\<rparr> else c
                    | None \<Rightarrow> c)
           in (Some c, x))
      | _ \<Rightarrow> (None, x))"

record PollCtx =
  pc_out :: "Connection list"
  pc_seen :: nat
  pc_caches :: Caches

definition nfctCallback :: "ConntrackHost \<Rightarrow> (QHostAddress, string) qhash \<Rightarrow> int \<Rightarrow> NfConntrack \<Rightarrow> PollCtx \<Rightarrow> PollCtx" where
  "nfctCallback h ifaceMap cap ct ctx =
     (let (r, x) = decode_flow h ifaceMap ct (pc_caches ctx); ctx = ctx\<lparr>pc_caches := x\<rparr> in
      case r of
        None \<Rightarrow> ctx
      | Some c \<Rightarrow> ctx\<lparr>pc_seen := pc_seen ctx + 1, pc_out := admitFlowTopK cap c (pc_out ctx)\<rparr>)"

section \<open>The worker\<close>

datatype acct_problem = SysctlMissing nat | NoPermission | WriteFailed

datatype ct_signal = CtConnections "Connection list" | PermissionDenied nat | AccountingUnavailable acct_problem

record CtWorker =
  cw_timer :: "(int \<times> bool) option"
  cw_warnedOpen :: bool
  cw_warnedDump :: bool
  cw_warnedCap :: bool
  cw_acctChecked :: bool
  cw_wantChain :: bool
  cw_caches :: Caches

definition mk_CtWorker :: CtWorker where
  "mk_CtWorker = \<lparr>cw_timer = None, cw_warnedOpen = False, cw_warnedDump = False, cw_warnedCap = False,
     cw_acctChecked = False, cw_wantChain = False,
     cw_caches = \<lparr>cc_route = mk_LruCache kRouteCacheMaxEntries, cc_ifIndex = mk_LruCache kIfIndexCacheMaxEntries\<rparr>\<rparr>"

definition cw_setResolver :: "'s ProcessResolver option \<Rightarrow> 's \<Rightarrow> CtWorker \<Rightarrow> CtWorker" where
  "cw_setResolver resolver s w = w\<lparr>cw_wantChain :=
     (case resolver of None \<Rightarrow> False
      | Some r \<Rightarrow> ''container-attribution'' \<in> set (rs_capabilities r s) \<and> ''container-chain'' \<in> set (rs_capabilities r s))\<rparr>"

text \<open>\<open>ch_acct\<close>: the trimmed contents of the sysctl, or the \<open>errno\<close> of opening it; \<open>ch_acctWrite\<close>: whether it opens for
  writing and takes the two bytes.\<close>

definition ensureAccountingEnabled :: "ConntrackHost \<Rightarrow> CtWorker \<Rightarrow> ct_signal list \<times> CtWorker" where
  "ensureAccountingEnabled h w =
     (if cw_acctChecked w then ([], w)
      else
        (let w = w\<lparr>cw_acctChecked := True\<rparr> in
         case ch_acct h of
           Inr errno \<Rightarrow> ([AccountingUnavailable (SysctlMissing errno)], w)
         | Inl cur \<Rightarrow>
             if cur = ''1'' then ([], w)
             else if \<not> fst (ch_acctWrite h) then ([AccountingUnavailable NoPermission], w)
             else if \<not> snd (ch_acctWrite h) then ([AccountingUnavailable WriteFailed], w)
             else ([], w)))"

text \<open>\<open>start\<close> also queues the first poll.\<close>

definition cw_start :: "ConntrackHost \<Rightarrow> CtWorker \<Rightarrow> ct_signal list \<times> CtWorker" where
  "cw_start h w = ensureAccountingEnabled h (w\<lparr>cw_timer := Some (1000, True)\<rparr>)"

definition cw_stop :: "CtWorker \<Rightarrow> CtWorker" where
  "cw_stop w = w\<lparr>cw_timer := None\<rparr>"

definition cw_setPollIntervalMs :: "int \<Rightarrow> CtWorker \<Rightarrow> CtWorker" where
  "cw_setPollIntervalMs ms w =
     (case cw_timer w of
        None \<Rightarrow> w
      | Some (interval, _) \<Rightarrow> if ms \<le> 0 then w\<lparr>cw_timer := Some (interval, False)\<rparr> else w\<lparr>cw_timer := Some (ms, True)\<rparr>)"

definition applyAttribution ::
  "'s ProcessResolver option \<Rightarrow> (int \<Rightarrow> 's \<Rightarrow> quint64) \<Rightarrow> bool \<Rightarrow> Connection list \<Rightarrow> 's \<Rightarrow> Connection list \<times> 's" where
  "applyAttribution resolver startTime wantChain flows s =
     attributeFlows flows resolver \<lparr>wantContainerChain = wantChain, startTimeForPid = startTime\<rparr> s"

text \<open>One of the two dump queries; \<open>EPERM\<close> is 1 and \<open>EACCES\<close> is 13.\<close>

definition dump_family ::
  "ConntrackHost \<Rightarrow> (QHostAddress, string) qhash \<Rightarrow> quint8 \<Rightarrow> ct_signal list \<times> CtWorker \<times> PollCtx \<Rightarrow> ct_signal list \<times> CtWorker \<times> PollCtx" where
  "dump_family h ifaceMap family x =
     (let (out, w, ctx) = x; (entries, failed) = ch_dump h family;
          ctx = fold (nfctCallback h ifaceMap kMaxInProcessFlows) entries ctx
      in case failed of
           None \<Rightarrow> (out, w, ctx)
         | Some errno \<Rightarrow>
             if cw_warnedDump w then (out, w, ctx)
             else (out @ (if errno = 1 \<or> errno = 13 then [PermissionDenied errno] else []), w\<lparr>cw_warnedDump := True\<rparr>, ctx))"

definition cw_poll ::
  "ConntrackHost \<Rightarrow> 's ProcessResolver option \<Rightarrow> (int \<Rightarrow> 's \<Rightarrow> quint64) \<Rightarrow> CtWorker \<times> 's \<Rightarrow> ct_signal list \<times> CtWorker \<times> 's" where
  "cw_poll h resolver startTime y =
     (let (w, s) = y; ifaceMap = buildIfaceMap h in
      case ch_open h of
        Some errno \<Rightarrow>
          (let (denied, w) = (if cw_warnedOpen w then ([], w) else ([PermissionDenied errno], w\<lparr>cw_warnedOpen := True\<rparr>));
               (flows, s) = applyAttribution resolver startTime (cw_wantChain w) [] s
           in (denied @ [CtConnections flows], w, s))
      | None \<Rightarrow>
          (let (out, w, ctx) = dump_family h ifaceMap 10 (dump_family h ifaceMap 2
                 ([], w, \<lparr>pc_out = [], pc_seen = 0, pc_caches = cw_caches w\<rparr>));
               w = w\<lparr>cw_caches := pc_caches ctx\<rparr>;
               w = (if kMaxInProcessFlows < int (pc_seen ctx) then w\<lparr>cw_warnedCap := True\<rparr> else w);
               (flows, s) = applyAttribution resolver startTime (cw_wantChain w) (pc_out ctx) s
           in (out @ [CtConnections flows], w, s)))"

definition ct_capabilities :: "string list \<Rightarrow> string list" where
  "ct_capabilities resolverCaps = [''iana-proto'', ''tcp-state''] @ attributionWireTokens resolverCaps"

section \<open>The cache is a recency list\<close>

definition lru_ok :: "('k, 'v) LruCache \<Rightarrow> bool" where
  "lru_ok c = (distinct (lru_recent c) \<and> hwf (lru_items c) \<and> set (lru_recent c) = fst ` set (lru_items c) \<and>
     hsize (lru_items c) \<le> lru_max c)"

text \<open>The abstraction: the entries, most recently used first.\<close>

definition lru_list :: "('k, 'v) LruCache \<Rightarrow> ('k \<times> 'v) list" where
  "lru_list c = map (\<lambda>k. (k, the (hfind (lru_items c) k))) (lru_recent c)"

definition recency_put :: "nat \<Rightarrow> 'k \<Rightarrow> 'v \<Rightarrow> ('k \<times> 'v) list \<Rightarrow> ('k \<times> 'v) list" where
  "recency_put n k v es = take n ((k, v) # filter (\<lambda>e. fst e \<noteq> k) es)"

lemma lru_ok_sizes: "lru_ok c \<Longrightarrow> length (lru_recent c) = hsize (lru_items c)"
  unfolding lru_ok_def hwf_def by (metis distinct_card length_map set_map)

lemma lru_ok_mem: "lru_ok c \<Longrightarrow> k \<in> set (lru_recent c) \<longleftrightarrow> hcontains (lru_items c) k"
  by (auto simp: lru_ok_def map_of_eq_None_iff)

lemma filter_neq_remove1: "distinct ks \<Longrightarrow> filter (\<lambda>x. x \<noteq> k) ks = remove1 k ks"
  by (induction ks) (auto intro!: filter_True)

lemma lru_find_list:
  assumes "lru_ok c"
  shows "hfind (lru_list c) k = hfind (lru_items c) k"
proof (cases "k \<in> set (lru_recent c)")
  case True
  then have "hfind (lru_list c) k = Some (the (hfind (lru_items c) k))"
    by (simp add: lru_list_def map_of_map_restrict)
  then show ?thesis using lru_ok_mem [OF assms, of k] True by auto
next
  case False
  then show ?thesis using lru_ok_mem [OF assms, of k] by (simp add: lru_list_def map_of_map_restrict)
qed

lemma lru_list_filter: "lru_ok c \<Longrightarrow> filter (\<lambda>e. fst e \<noteq> k) (lru_list c) = map (\<lambda>k. (k, the (hfind (lru_items c) k))) (remove1 k (lru_recent c))"
  using filter_neq_remove1 [of "lru_recent c" k] by (simp add: lru_list_def filter_map o_def lru_ok_def)

lemma touch_ok:
  assumes "lru_ok c" and "hcontains (lru_items c) k"
  shows "lru_ok (lru_touch k (c\<lparr>lru_items := hinsert k v (lru_items c)\<rparr>))"
    and "lru_list (lru_touch k (c\<lparr>lru_items := hinsert k v (lru_items c)\<rparr>)) = (k, v) # filter (\<lambda>e. fst e \<noteq> k) (lru_list c)"
proof -
  have k: "k \<in> set (lru_recent c)" using assms lru_ok_mem by metis
  have d: "distinct (lru_recent c)" using assms(1) by (simp add: lru_ok_def)
  show "lru_ok (lru_touch k (c\<lparr>lru_items := hinsert k v (lru_items c)\<rparr>))"
    using assms k d by (auto simp: lru_ok_def lru_touch_def hinsert_keys hsize_insert_old)
  have "map (\<lambda>j. (j, the (hfind (hinsert k v (lru_items c)) j))) (remove1 k (lru_recent c)) =
      map (\<lambda>j. (j, the (hfind (lru_items c) j))) (remove1 k (lru_recent c))"
    using d by (intro map_cong refl) (auto simp: hfind_insert)
  then show "lru_list (lru_touch k (c\<lparr>lru_items := hinsert k v (lru_items c)\<rparr>)) = (k, v) # filter (\<lambda>e. fst e \<noteq> k) (lru_list c)"
    unfolding lru_list_filter [OF assms(1)] by (simp add: lru_list_def lru_touch_def hfind_insert)
qed

lemma evict_ok:
  assumes "distinct (k # ks)" and "hwf m" and "set (k # ks) = fst ` set m" and "hsize m = Suc n"
  shows "lru_ok (evictLeastRecent \<lparr>lru_max = n, lru_recent = k # ks, lru_items = m\<rparr>) \<and>
    lru_list (evictLeastRecent \<lparr>lru_max = n, lru_recent = k # ks, lru_items = m\<rparr>) =
      butlast (map (\<lambda>k. (k, the (hfind m k))) (k # ks))"
proof -
  let ?l = "last (k # ks)" and ?b = "butlast (k # ks)"
  have split: "k # ks = ?b @ [?l]" by simp
  have d: "distinct ?b" "?l \<notin> set ?b" using assms(1) split by (metis distinct_append, metis distinct_append disjoint_insert(1) list.set(2) inf_commute)
  have keys: "set ?b = fst ` set m - {?l}" using assms(3) d(2) split by (metis Diff_insert_absorb Un_insert_right empty_set list.simps(15) set_append sup_bot_right)
  have "hcontains m ?l" using assms(3) by (metis last_in_set list.distinct(1) map_of_eq_None_iff)
  then have size: "hsize (hremove ?l m) = n" using hsize_remove [OF assms(2)] assms(4) by fastforce
  have vals: "map (\<lambda>k. (k, the (hfind (hremove ?l m) k))) ?b = map (\<lambda>k. (k, the (hfind m k))) ?b"
    using d(2) by (intro map_cong refl) (auto simp: hfind_remove)
  show ?thesis
    using d(1) keys size vals assms(2) unfolding evictLeastRecent_def lru_ok_def lru_list_def
    by (simp add: hremove_keys map_butlast del: butlast.simps last.simps)
qed

lemma lru_insert_list:
  assumes "lru_ok c"
  shows "lru_ok (lru_insert k v c) \<and> lru_list (lru_insert k v c) = recency_put (lru_max c) k v (lru_list c) \<and> lru_max (lru_insert k v c) = lru_max c"
proof (cases "hcontains (lru_items c) k")
  case True
  have k: "k \<in> set (lru_recent c)" using True lru_ok_mem [OF assms] by metis
  have "length ((k, v) # filter (\<lambda>e. fst e \<noteq> k) (lru_list c)) \<le> lru_max c"
  proof -
    have "0 < hsize (lru_items c)" using True by (cases "lru_items c") auto
    then show ?thesis
      unfolding lru_list_filter [OF assms] using k lru_ok_sizes [OF assms] assms by (auto simp: length_remove1 lru_ok_def)
  qed
  then show ?thesis using touch_ok [OF assms True, of v] True by (simp add: lru_insert_def recency_put_def lru_touch_def)
next
  case new: False
  have k: "k \<notin> set (lru_recent c)" using new lru_ok_mem [OF assms] by metis
  have id: "filter (\<lambda>e. fst e \<noteq> k) (lru_list c) = lru_list c" unfolding lru_list_filter [OF assms] using k by (simp add: remove1_idem lru_list_def)
  have len: "length (lru_list c) = hsize (lru_items c)" using lru_ok_sizes [OF assms] by (simp add: lru_list_def)
  have fresh: "map (\<lambda>j. (j, the (hfind (hinsert k v (lru_items c)) j))) (k # lru_recent c) = (k, v) # lru_list c"
    using k by (auto simp: lru_list_def hfind_insert)
  show ?thesis
  proof (cases "lru_max c = 0")
    case True
    then show ?thesis using new assms len by (simp add: lru_insert_def recency_put_def lru_ok_def)
  next
    case max: False
    let ?items = "hinsert k v (lru_items c)"
    have size: "hsize ?items = Suc (hsize (lru_items c))" using new by (simp add: hsize_insert_new)
    have d: "distinct (k # lru_recent c)" "hwf ?items" "set (k # lru_recent c) = fst ` set ?items"
      using assms k by (simp_all add: lru_ok_def hinsert_keys)
    show ?thesis
    proof (cases "lru_max c < hsize ?items")
      case True
      have full: "hsize (lru_items c) = lru_max c" using True size assms by (simp add: lru_ok_def)
      let ?c = "\<lparr>lru_max = lru_max c, lru_recent = k # lru_recent c, lru_items = ?items\<rparr>"
      have e: "lru_insert k v c = evictLeastRecent ?c"
        using new max True by (cases c) (simp add: lru_insert_def Let_def)
      have "butlast ((k, v) # lru_list c) = take (lru_max c) ((k, v) # lru_list c)" using len full by (simp add: butlast_conv_take)
      then show ?thesis
        using evict_ok [OF d, of "lru_max c"] size full unfolding e fresh by (simp add: recency_put_def id evictLeastRecent_def)
    next
      case False
      then have e: "lru_insert k v c = c\<lparr>lru_recent := k # lru_recent c, lru_items := ?items\<rparr>"
        using new max by (simp add: lru_insert_def Let_def)
      have l: "lru_list (c\<lparr>lru_recent := k # lru_recent c, lru_items := ?items\<rparr>) = (k, v) # lru_list c" using fresh by (simp add: lru_list_def)
      show ?thesis
        using d False size len unfolding e l by (simp add: lru_ok_def recency_put_def id)
    qed
  qed
qed

lemma hinsert_same: "hfind m k = Some v \<Longrightarrow> hinsert k v m = m"
  by (induction m) (auto split: if_splits)

lemma lru_find_recency:
  assumes "lru_ok c" and "lru_find k c = (r, c')"
  shows "r = hfind (lru_list c) k \<and> lru_ok c' \<and> lru_max c' = lru_max c \<and> lru_items c' = lru_items c \<and>
    lru_list c' = (case r of None \<Rightarrow> lru_list c | Some v \<Rightarrow> (k, v) # filter (\<lambda>e. fst e \<noteq> k) (lru_list c))"
proof (cases "hfind (lru_items c) k")
  case (Some v)
  have "c\<lparr>lru_items := hinsert k v (lru_items c)\<rparr> = c" using hinsert_same [OF Some] by simp
  then show ?thesis
    using touch_ok [OF assms(1), of k v] assms(2) lru_find_list [OF assms(1), of k] Some by (auto simp: lru_find_def lru_touch_def split: option.splits)
qed (use assms lru_find_list [OF assms(1)] in \<open>auto simp: lru_find_def\<close>)

text \<open>The two-structure cache of the monitor is exactly a recency list. Behind its hash table and its list of
  keys there is one list of entries, most recently used first: a lookup answers from that list and moves its entry to
  the front; an insertion puts its entry in front, drops an older one for the same key, and
  cuts the list to the configured size, so what is evicted is always the least recently used.\<close>

theorem lru_refines_recency_list:
  assumes "lru_ok c"
  shows "lru_list (lru_insert k v c) = recency_put (lru_max c) k v (lru_list c) \<and> lru_ok (lru_insert k v c) \<and>
    fst (lru_find k c) = hfind (lru_list c) k \<and> lru_ok (snd (lru_find k c)) \<and>
    lru_list (snd (lru_find k c)) =
      (case hfind (lru_list c) k of None \<Rightarrow> lru_list c | Some u \<Rightarrow> recency_put (lru_max c) k u (lru_list c))"
proof -
  obtain r c' where f: "lru_find k c = (r, c')" by fastforce
  note fr = lru_find_recency [OF assms f]
  have "recency_put (lru_max c) k u (lru_list c) = (k, u) # filter (\<lambda>e. fst e \<noteq> k) (lru_list c)" if "hfind (lru_list c) k = Some u" for u
  proof -
    have "hcontains (lru_items c) k" using that lru_find_list [OF assms, of k] by simp
    then have "lru_list (lru_touch k (c\<lparr>lru_items := hinsert k u (lru_items c)\<rparr>)) = (k, u) # filter (\<lambda>e. fst e \<noteq> k) (lru_list c)"
      "lru_list (lru_insert k u c) = lru_list (lru_touch k (c\<lparr>lru_items := hinsert k u (lru_items c)\<rparr>))"
      by (simp_all add: touch_ok [OF assms] lru_insert_def)
    then show ?thesis using lru_insert_list [OF assms, of k u] by simp
  qed
  then show ?thesis
    using lru_insert_list [OF assms, of k v] fr f by (auto split: option.split)
qed

theorem lru_refines_recency_list_witness:
  "lru_list (lru_insert (3::int) ''c'' (lru_insert 2 ''b'' (lru_insert 1 ''a'' (mk_LruCache 2)))) = [(3, ''c''), (2, ''b'')]"
proof -
  have ok: "lru_ok (mk_LruCache 2 :: (int, string) LruCache)" by (simp add: lru_ok_def mk_LruCache_def)
  have "lru_ok (lru_insert 1 ''a'' (mk_LruCache 2 :: (int, string) LruCache))" by (simp add: lru_refines_recency_list [OF ok])
  moreover from this have "lru_ok (lru_insert 2 ''b'' (lru_insert (1::int) ''a'' (mk_LruCache 2)))" by (simp add: lru_refines_recency_list)
  ultimately show ?thesis
    by (simp add: lru_refines_recency_list ok recency_put_def) (simp add: lru_insert_def mk_LruCache_def lru_list_def)
qed

section \<open>Caches do not change the answers\<close>

text \<open>What decoding answers without caches on a host at rest.\<close>

definition iface_spec :: "ConntrackHost \<Rightarrow> QHostAddress \<Rightarrow> QHostAddress \<Rightarrow> string" where
  "iface_spec h local remote =
     (case hfind (buildIfaceMap h) local of
        Some name \<Rightarrow> name
      | None \<Rightarrow> if remote = HostNull \<or> ch_routeSource h remote = HostNull then []
                else (case hfind (buildIfaceMap h) (ch_routeSource h remote) of Some n \<Rightarrow> n | None \<Rightarrow> []))"

definition route_spec :: "ConntrackHost \<Rightarrow> QHostAddress \<Rightarrow> string" where
  "route_spec h remote = (if ch_routeSource h remote = HostNull then []
     else (case hfind (buildIfaceMap h) (ch_routeSource h remote) of Some n \<Rightarrow> n | None \<Rightarrow> []))"

definition flow_spec :: "ConntrackHost \<Rightarrow> NfConntrack \<Rightarrow> Connection option" where
  "flow_spec h ct =
     (case (decode_proto (nf_l4 ct), decode_addrs ct) of
        (Some proto, Some (src, dst)) \<Rightarrow>
          (let ported = (proto = Tcp \<or> proto = Udp);
               c = orientConntrackFlow src dst (if ported then nf_sport ct else 0) (if ported then nf_dport ct else 0) proto
                     (orZero (nf_origBytes ct)) (orZero (nf_replBytes ct)) (orZero (nf_origPackets ct)) (orZero (nf_replPackets ct))
                     (fst ` set (buildIfaceMap h));
               iface = iface_spec h (ep_address (c_local c)) (ep_address (c_remote c));
               c = c\<lparr>c_iface := iface, c_ifIndex := if iface = [] then 0 else ch_nametoindex h iface\<rparr>
           in Some (case nf_tcpState ct of
                      Some raw \<Rightarrow> if proto = Tcp then c\<lparr>c_tcpState := if raw \<le> 9 then TcpState_of raw else TcpNone\<rparr> else c
                    | None \<Rightarrow> c))
      | _ \<Rightarrow> None)"

definition caches_true :: "ConntrackHost \<Rightarrow> Caches \<Rightarrow> bool" where
  "caches_true h x = (lru_ok (cc_route x) \<and> lru_ok (cc_ifIndex x) \<and>
     lru_max (cc_route x) = kRouteCacheMaxEntries \<and> lru_max (cc_ifIndex x) = kIfIndexCacheMaxEntries \<and>
     (\<forall>(a, n) \<in> set (lru_list (cc_route x)). n = route_spec h a) \<and>
     (\<forall>(n, i) \<in> set (lru_list (cc_ifIndex x)). i = ch_nametoindex h n))"

lemma recency_put_subset: "set (recency_put n k v es) \<subseteq> insert (k, v) (set es)"
  unfolding recency_put_def using set_take_subset by fastforce

text \<open>A cache that only holds true answers keeps doing so, through lookups and through insertions of true answers.\<close>

lemma lru_true_find:
  assumes "lru_ok c" and "\<forall>(k, v) \<in> set (lru_list c). v = f k" and "lru_find k c = (r, c')"
  shows "lru_ok c' \<and> lru_max c' = lru_max c \<and> (\<forall>(k, v) \<in> set (lru_list c'). v = f k) \<and> (case r of None \<Rightarrow> True | Some v \<Rightarrow> v = f k)"
proof -
  note fr = lru_find_recency [OF assms(1,3)]
  have "v = f k" if "r = Some v" for v
    using that fr assms(2) hfind_in [of "lru_list c" k v] by auto
  then show ?thesis using fr assms(2) by (cases r) (auto split: option.split)
qed

lemma lru_true_insert:
  assumes "lru_ok c" and "\<forall>(k, v) \<in> set (lru_list c). v = f k"
  shows "lru_ok (lru_insert k (f k) c) \<and> lru_max (lru_insert k (f k) c) = lru_max c \<and> (\<forall>(k, v) \<in> set (lru_list (lru_insert k (f k) c)). v = f k)"
proof -
  have "set (lru_list (lru_insert k (f k) c)) \<subseteq> insert (k, f k) (set (lru_list c))"
    using lru_insert_list [OF assms(1), of k "f k"] recency_put_subset by metis
  then show ?thesis using lru_insert_list [OF assms(1), of k "f k"] assms(2) by auto
qed

lemma attributeIface_true:
  assumes "caches_true h x" and "attributeIface h (buildIfaceMap h) local remote x = (iface, x')"
  shows "iface = iface_spec h local remote \<and> caches_true h x'"
proof (cases "hfind (buildIfaceMap h) local")
  case None
  have c: "lru_ok (cc_route x)" "\<forall>(k, v) \<in> set (lru_list (cc_route x)). v = route_spec h k" using assms(1) by (simp_all add: caches_true_def)
  obtain r c' where f: "lru_find remote (cc_route x) = (r, c')" by fastforce
  note t = lru_true_find [OF c f]
  show ?thesis
  proof (cases "remote = HostNull")
    case True
    then show ?thesis using assms None by (simp add: attributeIface_def iface_spec_def)
  next
    case False
    have spec: "iface_spec h local remote = route_spec h remote" using None False by (simp add: iface_spec_def route_spec_def)
    show ?thesis
    proof (cases r)
      case miss: None
      have "iface = route_spec h remote \<and> x' = x\<lparr>cc_route := lru_insert remote (route_spec h remote) c'\<rparr>"
        using assms(2) None False f miss by (auto simp: attributeIface_def Let_def route_spec_def)
      then show ?thesis
        using assms(1) t lru_true_insert [of c' "route_spec h" remote] by (simp add: spec caches_true_def)
    next
      case (Some v)
      then show ?thesis using assms None False f t by (auto simp: attributeIface_def spec caches_true_def)
    qed
  qed
next
  case (Some n)
  then show ?thesis using assms by (simp add: attributeIface_def iface_spec_def)
qed

lemma cachedIfIndex_true:
  assumes "caches_true h x" and "cachedIfIndex h name x = (idx, x')"
  shows "idx = (if name = [] then 0 else ch_nametoindex h name) \<and> caches_true h x'"
proof -
  have c: "lru_ok (cc_ifIndex x)" "\<forall>(k, v) \<in> set (lru_list (cc_ifIndex x)). v = ch_nametoindex h k" using assms(1) by (simp_all add: caches_true_def)
  obtain r c' where f: "lru_find name (cc_ifIndex x) = (r, c')" by fastforce
  note t = lru_true_find [OF c f]
  show ?thesis
  proof (cases "name = []")
    case False
    show ?thesis
    proof (cases r)
      case None
      then show ?thesis
        using assms f False t lru_true_insert [of c' "ch_nametoindex h" name] by (auto simp: cachedIfIndex_def Let_def caches_true_def)
    next
      case (Some v)
      then show ?thesis using assms f False t by (auto simp: cachedIfIndex_def caches_true_def)
    qed
  qed (use assms in \<open>simp add: cachedIfIndex_def\<close>)
qed

lemma decode_flow_true:
  assumes "caches_true h x" and "decode_flow h (buildIfaceMap h) ct x = (r, x')"
  shows "r = flow_spec h ct \<and> caches_true h x'"
proof (cases "decode_proto (nf_l4 ct)")
  case proto: (Some proto)
  show ?thesis
  proof (cases "decode_addrs ct")
    case (Some ends)
    obtain src dst where ends: "ends = (src, dst)" by fastforce
    define c where "c = orientConntrackFlow src dst (if proto = Tcp \<or> proto = Udp then nf_sport ct else 0)
      (if proto = Tcp \<or> proto = Udp then nf_dport ct else 0) proto
      (orZero (nf_origBytes ct)) (orZero (nf_replBytes ct)) (orZero (nf_origPackets ct)) (orZero (nf_replPackets ct)) (fst ` set (buildIfaceMap h))"
    obtain iface x1 where i: "attributeIface h (buildIfaceMap h) (ep_address (c_local c)) (ep_address (c_remote c)) x = (iface, x1)" by fastforce
    obtain idx x2 where j: "cachedIfIndex h iface x1 = (idx, x2)" by fastforce
    have t: "iface = iface_spec h (ep_address (c_local c)) (ep_address (c_remote c))" "caches_true h x1"
      using attributeIface_true [OF assms(1) i] by simp_all
    have u: "idx = (if iface = [] then 0 else ch_nametoindex h iface)" "caches_true h x2"
      using cachedIfIndex_true [OF t(2) j] by simp_all
    show ?thesis
      using assms(2) u(2) unfolding decode_flow_def flow_spec_def proto Some ends prod.case option.case Let_def c_def [symmetric] i j t(1) [symmetric] u(1) [symmetric]
      by simp
  qed (use assms proto in \<open>simp add: decode_flow_def flow_spec_def\<close>)
qed (use assms in \<open>simp add: decode_flow_def flow_spec_def\<close>)

lemma callbacks_true:
  assumes "caches_true h (pc_caches ctx)"
  shows "let ctx' = fold (nfctCallback h (buildIfaceMap h) cap) cts ctx in
    caches_true h (pc_caches ctx') \<and> pc_out ctx' = fold (admitFlowTopK cap) (List.map_filter (flow_spec h) cts) (pc_out ctx) \<and>
    pc_seen ctx' = pc_seen ctx + length (List.map_filter (flow_spec h) cts)"
  using assms
proof (induction cts arbitrary: ctx)
  case (Cons ct cts)
  obtain r x where d: "decode_flow h (buildIfaceMap h) ct (pc_caches ctx) = (r, x)" by fastforce
  note t = decode_flow_true [OF Cons.prems d]
  have step: "nfctCallback h (buildIfaceMap h) cap ct ctx = (case r of None \<Rightarrow> ctx\<lparr>pc_caches := x\<rparr>
      | Some c \<Rightarrow> ctx\<lparr>pc_caches := x, pc_seen := pc_seen ctx + 1, pc_out := admitFlowTopK cap c (pc_out ctx)\<rparr>)"
    by (simp add: nfctCallback_def d split: option.split)
  have "caches_true h (pc_caches (nfctCallback h (buildIfaceMap h) cap ct ctx))" using t by (simp add: step split: option.split)
  from Cons.IH [OF this] show ?case
    using t by (cases "flow_spec h ct") (simp_all add: step Let_def map_filter_simps)
qed (simp add: map_filter_simps)

lemma dump_true:
  assumes "caches_true h (pc_caches ctx)" and "dump_family h (buildIfaceMap h) family (out, w, ctx) = (out', w', ctx')"
  shows "caches_true h (pc_caches ctx') \<and>
    pc_out ctx' = fold (admitFlowTopK kMaxInProcessFlows) (List.map_filter (flow_spec h) (fst (ch_dump h family))) (pc_out ctx)"
  using callbacks_true [OF assms(1), of kMaxInProcessFlows "fst (ch_dump h family)"] assms(2)
  by (auto simp: dump_family_def Let_def case_prod_beta split: option.splits if_splits)


definition sample_entry :: "quint64 \<Rightarrow> NfConntrack" where
  "sample_entry n = \<lparr>nf_l3 = 2, nf_l4 = 6, nf_src4 = 16909060, nf_dst4 = 84281096, nf_src6 = None, nf_dst6 = None,
     nf_sport = 40000, nf_dport = 443, nf_origBytes = Some n, nf_replBytes = None, nf_origPackets = None,
     nf_replPackets = None, nf_tcpState = Some 3\<rparr>"

definition sample_router :: ConntrackHost where
  "sample_router = \<lparr>ch_interfaces = [(''eth0'', [HostV4 16909060])], ch_routeSource = (\<lambda>_. HostNull), ch_nametoindex = (\<lambda>_. 2),
     ch_open = None, ch_dump = (\<lambda>f. if f = 2 then ([sample_entry 9], None) else ([], Some 1)), ch_acct = Inl ''1'', ch_acctWrite = (True, True)\<rparr>"

lemma fresh_caches_true: "caches_true h (cw_caches mk_CtWorker)"
  by (simp add: caches_true_def mk_CtWorker_def mk_LruCache_def lru_ok_def lru_list_def)


text \<open>Where this cap and the agent's part ways: the sum of the two counters wraps here.\<close>

lemma in_process_total_wraps:
  "flow_weight (no_connection\<lparr>c_rxBytes := 2 ^ 63, c_txBytes := 2 ^ 63\<rparr>) = 0"
  "total_bytes (no_connection\<lparr>c_rxBytes := 2 ^ 63, c_txBytes := 2 ^ 63\<rparr>) = 2 ^ 64"
  by (simp_all add: flow_weight_def flowBytesTotal_def total_bytes_def no_connection_def)

end
