(* ===== verification/Handoff.thy ===== *)
theory Handoff
  imports FlowTypes
begin

text \<open>
  \<open>util/HandoffServer.cpp\<close> and \<open>util/HandoffClient.cpp\<close>: the socket between the unprivileged window and the
  privileged copy it starts. The parent listens, the child authenticates with a nonce, then both exchange one verb per
  line.

  Sockets are numbers. What the operating system does (directories, files, credentials, random words) is the record
  \<open>HandoffEnv\<close>; Qt's JSON reader and writer are arguments of the definitions that use them. A socket with no unsent
  bytes reports its disconnection at once, one with unsent bytes later.
\<close>

section \<open>Statistics on the wire\<close>

text \<open>The JSON values the code builds and reads; an object is an association list.\<close>

datatype Json = JNull | JBool bool | JNum real | JStr string | JArr "Json list" | JObj "(string \<times> Json) list"

text \<open>\<open>double(quint64)\<close>: 53 significant bits, rounded to nearest, ties to even.\<close>

definition round_half_even :: "nat \<Rightarrow> nat \<Rightarrow> nat" where
  "round_half_even n u =
     (let q = n div u; r = n mod u in if u < 2 * r \<or> 2 * r = u \<and> odd q then (q + 1) * u else q * u)"

fun double_unit :: "nat \<Rightarrow> nat" where
  "double_unit n = (if n < 2 ^ 53 then 1 else 2 * double_unit (n div 2))"

declare double_unit.simps [simp del]

definition to_double :: "quint64 \<Rightarrow> nat" where
  "to_double w = round_half_even (unat w) (double_unit (unat w))"

definition encode_item :: "InterfaceStats \<Rightarrow> Json" where
  "encode_item s = JObj [(''n'', JStr (if_name s)), (''r'', JNum (real (to_double (if_rxBytes s)))), (''t'', JNum (real (to_double (if_txBytes s)))),
     (''l'', JBool (if_isLoopback s)), (''u'', JBool (if_isUp s))]"

definition encodeStats :: "(Json \<Rightarrow> string) \<Rightarrow> InterfaceStats list \<Rightarrow> string" where
  "encodeStats toJson stats = toJson (JObj [(''items'', JArr (map encode_item stats))])"

text \<open>\<open>QJsonValue\<close> conversions: a value of another type gives the default. A number is cut to its integral part.\<close>

definition json_value :: "Json \<Rightarrow> string \<Rightarrow> Json" where
  "json_value j k = (case j of JObj kvs \<Rightarrow> (case map_of kvs k of Some v \<Rightarrow> v | None \<Rightarrow> JNull) | _ \<Rightarrow> JNull)"

definition json_string :: "Json \<Rightarrow> string" where
  "json_string j = (case j of JStr s \<Rightarrow> s | _ \<Rightarrow> [])"

definition json_quint64 :: "Json \<Rightarrow> quint64" where
  "json_quint64 j = (case j of JNum x \<Rightarrow> word_of_int (if 0 \<le> x then \<lfloor>x\<rfloor> else \<lceil>x\<rceil>) | _ \<Rightarrow> 0)"

definition json_bool :: "Json \<Rightarrow> bool" where
  "json_bool j = (case j of JBool b \<Rightarrow> b | _ \<Rightarrow> False)"

definition json_array :: "Json \<Rightarrow> Json list" where
  "json_array j = (case j of JArr xs \<Rightarrow> xs | _ \<Rightarrow> [])"

definition no_interface :: InterfaceStats where
  "no_interface = \<lparr>if_name = [], if_type = [], if_mtu = 0, if_addresses = [], if_rxBytes = 0, if_txBytes = 0, if_rxPackets = 0,
     if_txPackets = 0, if_isUp = False, if_isLoopback = False, if_ifIndex = 0, if_operState = 0, if_rxErrors = 0, if_txErrors = 0,
     if_rxDropped = 0, if_txDropped = 0\<rparr>"

definition decode_item :: "Json \<Rightarrow> InterfaceStats" where
  "decode_item x = no_interface\<lparr>if_name := json_string (json_value x ''n''), if_rxBytes := json_quint64 (json_value x ''r''),
     if_txBytes := json_quint64 (json_value x ''t''), if_isLoopback := json_bool (json_value x ''l''), if_isUp := json_bool (json_value x ''u'')\<rparr>"

definition decodeStats :: "(string \<Rightarrow> Json option) \<Rightarrow> string \<Rightarrow> InterfaceStats list" where
  "decodeStats fromJson payload =
     (case fromJson payload of
        Some (JObj kvs) \<Rightarrow> map decode_item (json_array (json_value (JObj kvs) ''items''))
      | _ \<Rightarrow> [])"

section \<open>The server's state\<close>

record HandoffServer =
  hs_listening :: bool
  hs_client :: "nat option"
  hs_unsent :: bool
  hs_readBuf :: string
  hs_socketPath :: string
  hs_socketDir :: string
  hs_nonce :: string
  hs_nonceFilePath :: string
  hs_lastError :: string
  hs_expectedChildUid :: nat
  hs_authenticated :: bool
  hs_files :: "string list"

datatype HandoffSignal = ChildReady | ChildStats "InterfaceStats list" | ChildPauseState bool | ChildDisconnected

definition mk_HandoffServer :: HandoffServer where
  "mk_HandoffServer = \<lparr>hs_listening = False, hs_client = None, hs_unsent = False, hs_readBuf = [], hs_socketPath = [], hs_socketDir = [],
     hs_nonce = [], hs_nonceFilePath = [], hs_lastError = [], hs_expectedChildUid = 0, hs_authenticated = False, hs_files = []\<rparr>"

record HandoffEnv =
  he_runtimeDir :: string
  he_runtimeExists :: bool
  he_cacheRoot :: string
  he_tempDir :: "string + string"
  he_uuidSocket :: string
  he_uuidNonce :: string
  he_random :: "quint32 list"
  he_nonceOpen :: "string option"
  he_nonceCommit :: "string option"
  he_euid :: nat
  he_listen :: "string option"

section \<open>Listening\<close>

definition hex_char :: "nat \<Rightarrow> char" where
  "hex_char d = ''0123456789abcdef'' ! d"

definition hex8 :: "quint32 \<Rightarrow> string" where
  "hex8 w = map (\<lambda>i. hex_char (unat w div 16 ^ (7 - i) mod 16)) [0..<8]"

definition makeNonce :: "quint32 list \<Rightarrow> string" where
  "makeNonce words = concat (map hex8 words)"

definition filePath :: "string \<Rightarrow> string \<Rightarrow> string" where
  "filePath dir name = (if dir \<noteq> [] \<and> last dir = CHR ''/'' then dir @ name else dir @ ''/'' @ name)"

definition pickRuntimeDir :: "HandoffEnv \<Rightarrow> string + string" where
  "pickRuntimeDir env =
     (if he_runtimeDir env \<noteq> [] \<and> he_runtimeExists env then Inr (he_runtimeDir env)
      else if he_cacheRoot env = [] then Inl ''no writable cache directory''
      else he_tempDir env)"

definition hs_forget :: "HandoffServer \<Rightarrow> HandoffServer" where
  "hs_forget s = s\<lparr>hs_socketPath := [], hs_nonce := [], hs_nonceFilePath := []\<rparr>"

definition hs_listen :: "HandoffEnv \<Rightarrow> HandoffServer \<Rightarrow> string \<times> HandoffServer" where
  "hs_listen env s =
     (if hs_listening s then (hs_socketPath s, s)
      else
        (case pickRuntimeDir env of
           Inl err \<Rightarrow> ([], s\<lparr>hs_lastError := ''handoff: no safe runtime dir: '' @ err\<rparr>)
         | Inr dir \<Rightarrow>
             if dir = [] then ([], s\<lparr>hs_lastError := ''handoff: no safe runtime dir: ''\<rparr>)
             else
               (let s = (if \<not> starts_with (he_runtimeDir env) dir \<or> he_runtimeDir env = [] then s\<lparr>hs_socketDir := dir\<rparr> else s);
                    s = s\<lparr>hs_socketPath := filePath dir (''qiftop-handoff-'' @ he_uuidSocket env @ ''.sock'')\<rparr>;
                    s = s\<lparr>hs_files := removeAll (hs_socketPath s) (hs_files s), hs_nonce := makeNonce (he_random env),
                          hs_nonceFilePath := filePath dir (''qiftop-handoff-'' @ he_uuidNonce env @ ''.nonce'')\<rparr>
                in case he_nonceOpen env of
                     Some err \<Rightarrow> ([], hs_forget (s\<lparr>hs_lastError := ''handoff: cannot write nonce file: '' @ err\<rparr>))
                   | None \<Rightarrow>
                       (case he_nonceCommit env of
                          Some err \<Rightarrow> ([], hs_forget (s\<lparr>hs_lastError := ''handoff: cannot commit nonce file: '' @ err\<rparr>))
                        | None \<Rightarrow>
                            (let s = s\<lparr>hs_files := hs_nonceFilePath s # hs_files s, hs_expectedChildUid := he_euid env\<rparr>
                             in case he_listen env of
                                  Some err \<Rightarrow> ([], hs_forget (s\<lparr>hs_lastError := err, hs_files := removeAll (hs_nonceFilePath s) (hs_files s)\<rparr>))
                                | None \<Rightarrow> (hs_socketPath s, s\<lparr>hs_listening := True, hs_files := hs_socketPath s # hs_files s\<rparr>))))))"

text \<open>The destructor.\<close>

definition hs_destroy :: "HandoffServer \<Rightarrow> HandoffServer" where
  "hs_destroy s =
     (let s = s\<lparr>hs_client := None, hs_listening := False\<rparr>;
          s = (if hs_socketPath s \<noteq> [] then s\<lparr>hs_files := removeAll (hs_socketPath s) (hs_files s)\<rparr> else s)
      in if hs_nonceFilePath s \<noteq> [] then s\<lparr>hs_files := removeAll (hs_nonceFilePath s) (hs_files s)\<rparr> else s)"

section \<open>Receiving\<close>

text \<open>\<open>indexOf('\\n')\<close>, \<open>left\<close> and \<open>remove\<close>.\<close>

fun split_line :: "string \<Rightarrow> (string \<times> string) option" where
  "split_line [] = None"
| "split_line (c # cs) = (if c = CHR 0x0A then Some ([], cs) else map_option (\<lambda>(l, r). (c # l, r)) (split_line cs))"

definition handleClientDisconnected :: "HandoffServer \<Rightarrow> HandoffServer \<times> HandoffSignal list" where
  "handleClientDisconnected s =
     (s\<lparr>hs_client := None, hs_unsent := False, hs_authenticated := False, hs_readBuf := []\<rparr>, [ChildDisconnected])"

definition disconnectFromServer :: "HandoffServer \<Rightarrow> HandoffServer \<times> HandoffSignal list" where
  "disconnectFromServer s =
     (if hs_client s = None \<or> hs_unsent s then (s, []) else handleClientDisconnected s)"

definition rejectClient :: "HandoffServer \<Rightarrow> HandoffServer \<times> HandoffSignal list" where
  "rejectClient s = (let (s, sig) = disconnectFromServer s in (s\<lparr>hs_readBuf := []\<rparr>, sig))"

definition verb_of :: "string \<Rightarrow> string" where
  "verb_of line = takeWhile (\<lambda>c. c \<noteq> CHR 0x09) line"

definition payload_of :: "string \<Rightarrow> string" where
  "payload_of line = drop 1 (dropWhile (\<lambda>c. c \<noteq> CHR 0x09) line)"

definition hs_dispatch :: "(string \<Rightarrow> Json option) \<Rightarrow> string \<Rightarrow> HandoffServer \<Rightarrow> HandoffServer \<times> HandoffSignal list" where
  "hs_dispatch fromJson line s =
     (if line = [] then (s, [])
      else if verb_of line = ''READY'' then (s, [ChildReady])
      else if verb_of line = ''STATS'' then (s, [ChildStats (decodeStats fromJson (payload_of line))])
      else if verb_of line = ''PAUSED'' then (s, [ChildPauseState (trimmed_bytes (payload_of line) = ''1'')])
      else if verb_of line = ''BYE'' then disconnectFromServer s
      else (s, []))"

lemma split_line_shorter: "split_line b = Some (l, r) \<Longrightarrow> length r < length b"
  by (induction b arbitrary: l) (auto split: if_splits)

lemma dispatch_buf: "length (hs_readBuf (fst (hs_dispatch fromJson line s))) \<le> length (hs_readBuf s)"
  by (simp add: hs_dispatch_def disconnectFromServer_def handleClientDisconnected_def)

text \<open>The first line: \<open>HELLO\<close>, a tab and the nonce.\<close>

definition hello_ok :: "string \<Rightarrow> string \<Rightarrow> bool" where
  "hello_ok nonce line = (starts_with (''HELLO'' @ [CHR 0x09]) line \<and> trimmed_bytes (drop 6 line) = nonce)"

function handle_lines :: "(string \<Rightarrow> Json option) \<Rightarrow> HandoffServer \<Rightarrow> HandoffServer \<times> HandoffSignal list" where
  "handle_lines fromJson s =
     (case split_line (hs_readBuf s) of
        None \<Rightarrow> (s, [])
      | Some (line, rest) \<Rightarrow>
          (let s = s\<lparr>hs_readBuf := rest\<rparr> in
           if \<not> hs_authenticated s then
             (if \<not> hello_ok (hs_nonce s) line then rejectClient s
              else handle_lines fromJson (s\<lparr>hs_authenticated := True\<rparr>))
           else
             (let r = hs_dispatch fromJson line s; r' = handle_lines fromJson (fst r)
              in (fst r', snd r @ snd r'))))"
  by pat_completeness auto

termination
proof (relation "measure (\<lambda>(fromJson, s). length (hs_readBuf s))")
  show "wf (measure (\<lambda>(fromJson :: string \<Rightarrow> Json option, s). length (hs_readBuf s)))" by simp
qed (auto dest!: split_line_shorter intro: le_less_trans [OF dispatch_buf])

declare handle_lines.simps [simp del]

definition handleReadyRead :: "(string \<Rightarrow> Json option) \<Rightarrow> string \<Rightarrow> HandoffServer \<Rightarrow> HandoffServer \<times> HandoffSignal list" where
  "handleReadyRead fromJson chunk s =
     (if hs_client s = None then (s, [])
      else
        (let s = s\<lparr>hs_readBuf := hs_readBuf s @ chunk\<rparr> in
         if \<not> hs_authenticated s \<and> 1024 < length (hs_readBuf s) then rejectClient s
         else if hs_authenticated s \<and> 1048576 < length (hs_readBuf s) then rejectClient s
         else handle_lines fromJson s))"

text \<open>A pending connection: the socket, the credentials of its peer, and the bytes already there.\<close>

record PendingPeer =
  pp_sock :: nat
  pp_uid :: "nat option"
  pp_avail :: string

definition accept_peer :: "(string \<Rightarrow> Json option) \<Rightarrow> PendingPeer \<Rightarrow> HandoffServer \<Rightarrow> HandoffServer \<times> HandoffSignal list" where
  "accept_peer fromJson p s =
     (case pp_uid p of
        None \<Rightarrow> (s, [])
      | Some peer \<Rightarrow>
          if peer \<noteq> hs_expectedChildUid s \<and> peer \<noteq> 0 then (s, [])
          else if hs_client s \<noteq> None \<and> hs_authenticated s then (s, [])
          else
            (let s = (if hs_client s \<noteq> None then s\<lparr>hs_client := None, hs_readBuf := []\<rparr> else s);
                 s = s\<lparr>hs_client := Some (pp_sock p), hs_unsent := False, hs_authenticated := False\<rparr>
             in if pp_avail p \<noteq> [] then handleReadyRead fromJson (pp_avail p) s else (s, [])))"

primrec handleNewConnection :: "(string \<Rightarrow> Json option) \<Rightarrow> PendingPeer list \<Rightarrow> HandoffServer \<Rightarrow> HandoffServer \<times> HandoffSignal list" where
  "handleNewConnection fromJson [] s = (s, [])"
| "handleNewConnection fromJson (p # ps) s =
     (let (s, sig) = accept_peer fromJson p s; (s, sig') = handleNewConnection fromJson ps s in (s, sig @ sig'))"

section \<open>Sending\<close>

text \<open>\<open>flushed\<close> says whether the operating system took all bytes at once.\<close>

definition hs_send :: "bool \<Rightarrow> string \<Rightarrow> HandoffServer \<Rightarrow> HandoffServer \<times> string" where
  "hs_send flushed line s =
     (if hs_client s = None \<or> \<not> hs_authenticated s then (s, [])
      else (s\<lparr>hs_unsent := hs_unsent s \<or> \<not> flushed\<rparr>, line @ [CHR 0x0A]))"

datatype ParentCommand = Show | Pause bool | Quit

fun command_line :: "ParentCommand \<Rightarrow> string" where
  "command_line Show = ''SHOW''"
| "command_line (Pause paused) = ''PAUSE'' @ [CHR 0x09] @ (if paused then ''1'' else ''0'')"
| "command_line Quit = ''QUIT''"

definition hs_command :: "bool \<Rightarrow> ParentCommand \<Rightarrow> HandoffServer \<Rightarrow> HandoffServer \<times> string" where
  "hs_command flushed c = hs_send flushed (command_line c)"

section \<open>The client\<close>

record HandoffClient =
  hc_sock :: bool
  hc_connected :: bool
  hc_readBuf :: string

datatype ClientSignal = ShowRequested | PauseCommand bool | QuitCommand | ClientDisconnected

text \<open>The environment variables, the contents of the nonce file if it opens, and whether the connection succeeds.\<close>

record ClientEnv =
  ce_nonceFile :: string
  ce_nonceText :: "string option"
  ce_nonceVar :: string
  ce_connects :: bool

definition client_nonce :: "ClientEnv \<Rightarrow> string" where
  "client_nonce env =
     (let nonce = (if ce_nonceFile env \<noteq> [] then (case ce_nonceText env of Some t \<Rightarrow> trimmed_bytes t | None \<Rightarrow> []) else [])
      in if nonce = [] then ce_nonceVar env else nonce)"

text \<open>The answer, the client and the bytes written; the nonce file is removed once it was read.\<close>

definition connectTo :: "ClientEnv \<Rightarrow> string \<Rightarrow> HandoffClient \<Rightarrow> bool \<times> HandoffClient \<times> string" where
  "connectTo env socketPath c =
     (if socketPath = [] then (False, c, [])
      else if hc_sock c then (hc_connected c, c, [])
      else if client_nonce env = [] then (False, c, [])
      else if \<not> ce_connects env then (False, c\<lparr>hc_sock := False\<rparr>, [])
      else (True, c\<lparr>hc_sock := True, hc_connected := True\<rparr>, ''HELLO'' @ [CHR 0x09] @ client_nonce env @ [CHR 0x0A]))"

definition hc_send :: "string \<Rightarrow> HandoffClient \<Rightarrow> string" where
  "hc_send line c = (if \<not> hc_sock c \<or> \<not> hc_connected c then [] else line @ [CHR 0x0A])"

datatype ChildMessage = Ready | Stats "InterfaceStats list" | PauseState bool | Bye

fun message_line :: "(Json \<Rightarrow> string) \<Rightarrow> ChildMessage \<Rightarrow> string" where
  "message_line toJson Ready = ''READY''"
| "message_line toJson (Stats stats) = ''STATS'' @ [CHR 0x09] @ encodeStats toJson stats"
| "message_line toJson (PauseState paused) = ''PAUSED'' @ [CHR 0x09] @ (if paused then ''1'' else ''0'')"
| "message_line toJson Bye = ''BYE''"

definition hc_message :: "(Json \<Rightarrow> string) \<Rightarrow> ChildMessage \<Rightarrow> HandoffClient \<Rightarrow> string" where
  "hc_message toJson m c = hc_send (message_line toJson m) c"

definition hc_dispatch :: "string \<Rightarrow> ClientSignal list" where
  "hc_dispatch line =
     (if line = [] then []
      else if verb_of line = ''SHOW'' then [ShowRequested]
      else if verb_of line = ''PAUSE'' then [PauseCommand (trimmed_bytes (payload_of line) = ''1'')]
      else if verb_of line = ''QUIT'' then [QuitCommand]
      else [])"

function client_lines :: "HandoffClient \<Rightarrow> HandoffClient \<times> ClientSignal list" where
  "client_lines c =
     (case split_line (hc_readBuf c) of
        None \<Rightarrow> (c, [])
      | Some (line, rest) \<Rightarrow> (let r = client_lines (c\<lparr>hc_readBuf := rest\<rparr>) in (fst r, hc_dispatch line @ snd r)))"
  by pat_completeness auto

termination
  by (relation "measure (\<lambda>c. length (hc_readBuf c))") (auto dest: split_line_shorter)

declare client_lines.simps [simp del]

definition hc_handleReadyRead :: "string \<Rightarrow> HandoffClient \<Rightarrow> HandoffClient \<times> ClientSignal list" where
  "hc_handleReadyRead chunk c =
     (if \<not> hc_sock c then (c, []) else client_lines (c\<lparr>hc_readBuf := hc_readBuf c @ chunk\<rparr>))"

definition hc_handleDisconnected :: "HandoffClient \<Rightarrow> HandoffClient \<times> ClientSignal list" where
  "hc_handleDisconnected c = (c\<lparr>hc_connected := False, hc_readBuf := []\<rparr>, [ClientDisconnected])"

section \<open>Only an authenticated peer is heard\<close>

definition first_line_ok :: "string \<Rightarrow> string \<Rightarrow> bool" where
  "first_line_ok nonce bytes = (case split_line bytes of None \<Rightarrow> False | Some (line, _) \<Rightarrow> hello_ok nonce line)"

text \<open>The state of a connection that has delivered the bytes \<open>B\<close> so far.\<close>

definition conn_ok :: "string \<Rightarrow> HandoffServer \<Rightarrow> bool" where
  "conn_ok B s =
     (case hs_client s of
        None \<Rightarrow> \<not> hs_authenticated s \<and> hs_readBuf s = []
      | Some _ \<Rightarrow>
          if hs_authenticated s then first_line_ok (hs_nonce s) B \<and> length (hs_readBuf s) \<le> 1048576
          else hs_readBuf s = B \<and> length B \<le> 1024 \<and> \<not> hs_unsent s)"

definition same_session :: "HandoffServer \<Rightarrow> HandoffServer \<Rightarrow> bool" where
  "same_session s s' = (hs_nonce s' = hs_nonce s \<and> hs_expectedChildUid s' = hs_expectedChildUid s \<and> hs_client s' \<in> {None, hs_client s})"

lemma same_session_refl [simp]: "same_session s s"
  by (simp add: same_session_def)

lemma same_session_trans: "same_session s t \<Longrightarrow> same_session t u \<Longrightarrow> same_session s u"
  by (auto simp: same_session_def)

lemma reject_ok: "conn_ok B s \<Longrightarrow> conn_ok B (fst (rejectClient s)) \<and> same_session s (fst (rejectClient s)) \<and> set (snd (rejectClient s)) \<subseteq> {ChildDisconnected}"
  by (auto simp: rejectClient_def disconnectFromServer_def handleClientDisconnected_def conn_ok_def same_session_def split: option.splits if_splits)

lemma dispatch_ok:
  assumes "conn_ok B s" and "hs_authenticated s"
  shows "conn_ok B (fst (hs_dispatch J line s)) \<and> same_session s (fst (hs_dispatch J line s)) \<and> first_line_ok (hs_nonce s) B"
  using assms by (auto simp: hs_dispatch_def disconnectFromServer_def handleClientDisconnected_def conn_ok_def same_session_def
    split: option.splits if_splits)

lemma handle_lines_ok:
  "conn_ok B s \<Longrightarrow> conn_ok B (fst (handle_lines J s)) \<and> same_session s (fst (handle_lines J s)) \<and>
   (set (snd (handle_lines J s)) \<subseteq> {ChildDisconnected} \<or> first_line_ok (hs_nonce s) B)"
proof (induction "length (hs_readBuf s)" arbitrary: s rule: less_induct)
  case less
  show ?case
  proof (cases "split_line (hs_readBuf s)")
    case None
    then show ?thesis using less.prems by (subst (1 2 3) handle_lines.simps) simp
  next
    case (Some lr)
    obtain line rest where lr: "split_line (hs_readBuf s) = Some (line, rest)" using Some by (cases lr) simp
    define t where "t = s\<lparr>hs_readBuf := rest\<rparr>"
    have shorter: "length (hs_readBuf t) < length (hs_readBuf s)" using split_line_shorter [OF lr] by (simp add: t_def)
    have client: "hs_client s \<noteq> None" using less.prems lr by (cases "hs_client s") (auto simp: conn_ok_def)
    have st: "same_session s t" by (simp add: t_def same_session_def)
    show ?thesis
    proof (cases "hs_authenticated s")
      case auth: True
      define d where "d = hs_dispatch J line t"
      have ok: "conn_ok B t" using less.prems client auth shorter by (auto simp: conn_ok_def t_def split: option.splits)
      have at: "hs_authenticated t" "hs_nonce t = hs_nonce s" using auth by (simp_all add: t_def)
      have d1: "conn_ok B (fst d)" "same_session t (fst d)" "first_line_ok (hs_nonce s) B"
        using dispatch_ok [OF ok at(1), of J line] at(2) by (simp_all add: d_def)
      have "length (hs_readBuf (fst d)) < length (hs_readBuf s)"
        using shorter le_less_trans [OF dispatch_buf] by (simp add: d_def)
      from less.hyps [OF this d1(1)] have "conn_ok B (fst (handle_lines J (fst d)))" "same_session (fst d) (fst (handle_lines J (fst d)))" by blast+
      moreover have "fst (handle_lines J s) = fst (handle_lines J (fst d))"
        using auth by (subst handle_lines.simps) (simp add: lr d_def t_def Let_def)
      ultimately show ?thesis using d1(2,3) st same_session_trans by metis
    next
      case unauth: False
      have B: "hs_readBuf s = B" and small: "length B \<le> 1024" "\<not> hs_unsent s" using less.prems client unauth by (auto simp: conn_ok_def)
      show ?thesis
      proof (cases "hello_ok (hs_nonce s) line")
        case False
        have "handle_lines J s = rejectClient t" using unauth False by (subst handle_lines.simps) (simp add: lr t_def Let_def)
        moreover have "rejectClient t = (t\<lparr>hs_client := None, hs_unsent := False, hs_authenticated := False, hs_readBuf := []\<rparr>, [ChildDisconnected])"
          using client small by (auto simp: rejectClient_def disconnectFromServer_def handleClientDisconnected_def t_def)
        ultimately show ?thesis by (simp add: conn_ok_def same_session_def t_def)
      next
        case True
        define u where "u = t\<lparr>hs_authenticated := True\<rparr>"
        have fl: "first_line_ok (hs_nonce s) B" using True lr B by (simp add: first_line_ok_def)
        have "conn_ok B u" using fl client shorter small B by (auto simp: conn_ok_def u_def t_def split: option.splits)
        then have "conn_ok B (fst (handle_lines J u)) \<and> same_session u (fst (handle_lines J u))"
          using less.hyps [of u] shorter by (simp add: u_def)
        moreover have "handle_lines J s = handle_lines J u" using unauth True by (subst handle_lines.simps) (simp add: lr t_def u_def Let_def)
        moreover have "same_session s u" by (simp add: u_def t_def same_session_def)
        ultimately show ?thesis using fl same_session_trans by auto
      qed
    qed
  qed
qed

lemma handleReadyRead_ok:
  assumes "conn_ok B s"
  shows "same_session s (fst (handleReadyRead J chunk s)) \<and> conn_ok (B @ chunk) (fst (handleReadyRead J chunk s)) \<and>
    (set (snd (handleReadyRead J chunk s)) \<subseteq> {ChildDisconnected} \<or> first_line_ok (hs_nonce s) (B @ chunk))"
proof (cases "hs_client s = None")
  case True
  then show ?thesis using assms by (simp add: handleReadyRead_def conn_ok_def)
next
  case False
  define t where "t = s\<lparr>hs_readBuf := hs_readBuf s @ chunk\<rparr>"
  have st: "same_session s t" "hs_nonce t = hs_nonce s" by (simp_all add: t_def same_session_def)
  have more: "first_line_ok n (B @ chunk)" if "first_line_ok n B" for n
  proof -
    have "split_line (xs @ ys) = Some (l, r @ ys)" if "split_line xs = Some (l, r)" for xs ys l r
      using that by (induction xs arbitrary: l) (auto split: if_splits)
    then show ?thesis using that by (auto simp: first_line_ok_def split: option.splits)
  qed
  consider (big) "\<not> hs_authenticated t \<and> 1024 < length (hs_readBuf t) \<or> hs_authenticated t \<and> 1048576 < length (hs_readBuf t)"
    | (fits) "conn_ok (B @ chunk) t"
    using assms False more by (cases "hs_authenticated s") (fastforce simp: conn_ok_def t_def not_less)+
  then show ?thesis
  proof cases
    case big
    then have h: "handleReadyRead J chunk s = rejectClient t" using False by (auto simp: handleReadyRead_def t_def Let_def)
    have "same_session t (fst (rejectClient t)) \<and> conn_ok (B @ chunk) (fst (rejectClient t)) \<and> set (snd (rejectClient t)) \<subseteq> {ChildDisconnected}"
      using assms False more by (auto simp: rejectClient_def disconnectFromServer_def handleClientDisconnected_def conn_ok_def same_session_def t_def
        split: option.splits if_splits)
    then show ?thesis using h st same_session_trans by metis
  next
    case fits
    then have small: "\<not> (\<not> hs_authenticated t \<and> 1024 < length (hs_readBuf t))" "\<not> (hs_authenticated t \<and> 1048576 < length (hs_readBuf t))"
      using False by (auto simp: conn_ok_def t_def split: option.splits)
    have "handleReadyRead J chunk s = handle_lines J t"
      unfolding handleReadyRead_def Let_def if_not_P [OF False] t_def [symmetric] if_not_P [OF small(1)] if_not_P [OF small(2)] ..
    then show ?thesis using handle_lines_ok [OF fits, of J] st same_session_trans by metis
  qed
qed

text \<open>What is known of the current client: the uid the kernel reported and the bytes read from it.\<close>

record HandoffPeer =
  hp_uid :: nat
  hp_bytes :: string

definition taken :: "PendingPeer \<Rightarrow> HandoffServer \<Rightarrow> bool" where
  "taken p s = (\<exists>u. pp_uid p = Some u \<and> (u = hs_expectedChildUid s \<or> u = 0) \<and> \<not> (hs_client s \<noteq> None \<and> hs_authenticated s))"

inductive handoff_run :: "(string \<Rightarrow> Json option) \<Rightarrow> HandoffServer \<Rightarrow> HandoffPeer \<Rightarrow> bool" for J where
  run_listen: "hs_listen env mk_HandoffServer = (path, s) \<Longrightarrow> hs_listening s \<Longrightarrow> handoff_run J s g"
| run_refuse: "handoff_run J s g \<Longrightarrow> \<not> taken p s \<Longrightarrow> handoff_run J (fst (accept_peer J p s)) g"
| run_accept: "handoff_run J s g \<Longrightarrow> taken p s \<Longrightarrow>
    handoff_run J (fst (accept_peer J p s)) \<lparr>hp_uid = the (pp_uid p), hp_bytes = pp_avail p\<rparr>"
| run_data: "handoff_run J s g \<Longrightarrow> handoff_run J (fst (handleReadyRead J chunk s)) (g\<lparr>hp_bytes := hp_bytes g @ chunk\<rparr>)"
| run_close: "handoff_run J s g \<Longrightarrow> handoff_run J (fst (handleClientDisconnected s)) g"
| run_command: "handoff_run J s g \<Longrightarrow> handoff_run J (fst (hs_command flushed c s)) g"

lemma listen_fresh:
  "hs_listen env mk_HandoffServer = (path, s) \<Longrightarrow> hs_listening s \<Longrightarrow>
   hs_client s = None \<and> \<not> hs_authenticated s \<and> hs_readBuf s = [] \<and> hs_nonce s = makeNonce (he_random env) \<and> hs_expectedChildUid s = he_euid env"
  by (auto simp: hs_listen_def mk_HandoffServer_def hs_forget_def Let_def split: sum.splits option.splits if_splits)

lemma accept_refused: "\<not> taken p s \<Longrightarrow> accept_peer J p s = (s, [])"
  by (auto simp: accept_peer_def taken_def split: option.split)

definition taken_state :: "PendingPeer \<Rightarrow> HandoffServer \<Rightarrow> HandoffServer" where
  "taken_state p s = (if hs_client s \<noteq> None then s\<lparr>hs_readBuf := []\<rparr> else s)
     \<lparr>hs_client := Some (pp_sock p), hs_unsent := False, hs_authenticated := False\<rparr>"

lemma accept_taken:
  "taken p s \<Longrightarrow> accept_peer J p s = (if pp_avail p \<noteq> [] then handleReadyRead J (pp_avail p) (taken_state p s) else (taken_state p s, []))"
  by (auto simp: accept_peer_def taken_def taken_state_def Let_def)

lemma taken_state_ok: "conn_ok B s \<Longrightarrow> conn_ok [] (taken_state p s)"
  by (auto simp: taken_state_def conn_ok_def split: option.splits)

definition handoff_inv :: "HandoffServer \<Rightarrow> HandoffPeer \<Rightarrow> bool" where
  "handoff_inv s g = (conn_ok (hp_bytes g) s \<and> (hs_client s \<noteq> None \<longrightarrow> hp_uid g = hs_expectedChildUid s \<or> hp_uid g = 0))"

lemma accept_inv:
  assumes "taken p s" and "conn_ok B s"
  shows "handoff_inv (fst (accept_peer J p s)) \<lparr>hp_uid = the (pp_uid p), hp_bytes = pp_avail p\<rparr> \<and>
    (set (snd (accept_peer J p s)) \<subseteq> {ChildDisconnected} \<or> first_line_ok (hs_nonce s) (pp_avail p))"
proof -
  have uid: "the (pp_uid p) = hs_expectedChildUid s \<or> the (pp_uid p) = 0" using assms(1) by (auto simp: taken_def)
  have same: "hs_expectedChildUid (taken_state p s) = hs_expectedChildUid s" "hs_nonce (taken_state p s) = hs_nonce s"
    by (simp_all add: taken_state_def)
  show ?thesis
    using handleReadyRead_ok [OF taken_state_ok [OF assms(2), of p], of J "pp_avail p"] taken_state_ok [OF assms(2), of p] uid same
    by (auto simp: accept_taken [OF assms(1)] handoff_inv_def same_session_def)
qed

lemma handoff_run_inv: "handoff_run J s g \<Longrightarrow> handoff_inv s g"
proof (induction rule: handoff_run.induct)
  case (run_listen env path s g)
  then show ?case using listen_fresh [OF run_listen] by (simp add: handoff_inv_def conn_ok_def)
next
  case (run_refuse s g p)
  then show ?case by (simp add: accept_refused)
next
  case (run_accept s g p)
  then show ?case using accept_inv [of p s "hp_bytes g" J] by (simp add: handoff_inv_def)
next
  case (run_data s g chunk)
  then show ?case using handleReadyRead_ok [of "hp_bytes g" s J chunk] by (auto simp: handoff_inv_def same_session_def)
next
  case (run_close s g)
  then show ?case by (simp add: handleClientDisconnected_def handoff_inv_def conn_ok_def)
next
  case (run_command s g flushed c)
  then show ?case by (auto simp: hs_command_def hs_send_def handoff_inv_def conn_ok_def split: option.splits)
qed

text \<open>C18: only the child the window started is heard. However connections, reads, disconnections and commands interleave, every
  message the window acts on comes from a peer whose uid is the user's or root's and whose first line was \<open>HELLO\<close> with the
  secret nonce of this session, also when it arrives together with the connection; commands are written to such a peer only; while it is connected no
  other connection changes anything; and what is buffered for a peer stays below 1 KiB before and 1 MiB after authentication.\<close>

theorem handoff_hears_child_only:
  assumes "handoff_run J s g"
  shows "(set (snd (handleReadyRead J chunk s)) \<subseteq> {ChildDisconnected} \<or>
      (hp_uid g = hs_expectedChildUid s \<or> hp_uid g = 0) \<and> first_line_ok (hs_nonce s) (hp_bytes g @ chunk)) \<and>
    (set (snd (accept_peer J p s)) \<subseteq> {ChildDisconnected} \<or>
      (pp_uid p = Some (hs_expectedChildUid s) \<or> pp_uid p = Some 0) \<and> first_line_ok (hs_nonce s) (pp_avail p)) \<and>
    (if hs_authenticated s
     then (hp_uid g = hs_expectedChildUid s \<or> hp_uid g = 0) \<and> first_line_ok (hs_nonce s) (hp_bytes g) \<and>
       accept_peer J p s = (s, []) \<and> length (hs_readBuf s) \<le> 1048576
     else snd (hs_command flushed c s) = [] \<and> length (hs_readBuf s) \<le> 1024)"
proof -
  have i: "conn_ok (hp_bytes g) s" and uid: "hs_client s \<noteq> None \<Longrightarrow> hp_uid g = hs_expectedChildUid s \<or> hp_uid g = 0"
    using handoff_run_inv [OF assms] by (auto simp: handoff_inv_def)
  have silent: "hs_client s = None \<Longrightarrow> snd (handleReadyRead J chunk s) = []" by (simp add: handleReadyRead_def)
  have read: "set (snd (handleReadyRead J chunk s)) \<subseteq> {ChildDisconnected} \<or>
      (hp_uid g = hs_expectedChildUid s \<or> hp_uid g = 0) \<and> first_line_ok (hs_nonce s) (hp_bytes g @ chunk)"
    using handleReadyRead_ok [OF i, of J chunk] uid silent by (cases "hs_client s = None") auto
  have new: "set (snd (accept_peer J p s)) \<subseteq> {ChildDisconnected} \<or>
      (pp_uid p = Some (hs_expectedChildUid s) \<or> pp_uid p = Some 0) \<and> first_line_ok (hs_nonce s) (pp_avail p)"
  proof (cases "taken p s")
    case True
    then have "pp_uid p = Some (hs_expectedChildUid s) \<or> pp_uid p = Some 0" by (auto simp: taken_def)
    then show ?thesis using accept_inv [OF True i, of J] by blast
  qed (simp add: accept_refused)
  have "if hs_authenticated s
     then (hp_uid g = hs_expectedChildUid s \<or> hp_uid g = 0) \<and> first_line_ok (hs_nonce s) (hp_bytes g) \<and>
       accept_peer J p s = (s, []) \<and> length (hs_readBuf s) \<le> 1048576
     else snd (hs_command flushed c s) = [] \<and> length (hs_readBuf s) \<le> 1024"
  proof (cases "hs_authenticated s")
    case True
    then have "hs_client s \<noteq> None" using i by (cases "hs_client s") (auto simp: conn_ok_def)
    moreover have "\<not> taken p s" using True \<open>hs_client s \<noteq> None\<close> by (auto simp: taken_def)
    ultimately show ?thesis using True i uid by (auto simp: accept_refused conn_ok_def)
  next
    case False
    then show ?thesis using i by (cases "hs_client s") (auto simp: conn_ok_def hs_command_def hs_send_def)
  qed
  then show ?thesis using read new by blast
qed

section \<open>The child's messages arrive, however they are cut\<close>

text \<open>The complete lines of a byte stream and what is left.\<close>

fun lines_of :: "string \<Rightarrow> string list \<times> string" where
  "lines_of [] = ([], [])"
| "lines_of (c # cs) =
     (let (ls, r) = lines_of cs in
      if c = CHR 0x0A then ([] # ls, r) else (case ls of [] \<Rightarrow> ([], c # r) | l # ls' \<Rightarrow> ((c # l) # ls', r)))"

lemma lines_of_split:
  "lines_of b = (case split_line b of None \<Rightarrow> ([], b) | Some (l, r) \<Rightarrow> (l # fst (lines_of r), snd (lines_of r)))"
  by (induction b) (auto simp: case_prod_beta split: option.splits)

lemma split_line_append:
  "split_line (a @ b) = (case split_line a of Some (l, r) \<Rightarrow> Some (l, r @ b)
    | None \<Rightarrow> map_option (\<lambda>x. (a @ fst x, snd x)) (split_line b))"
  by (induction a) (auto simp: option.map_comp comp_def case_prod_beta option.map_ident split: option.split)

lemma lines_of_append:
  "lines_of (a @ b) = (fst (lines_of a) @ fst (lines_of (snd (lines_of a) @ b)), snd (lines_of (snd (lines_of a) @ b)))"
proof (induction "length a" arbitrary: a rule: less_induct)
  case less
  show ?case
  proof (cases "split_line a")
    case None
    then show ?thesis by (simp add: lines_of_split [of a])
  next
    case (Some lr)
    obtain l r where lr: "split_line a = Some (l, r)" using Some by (cases lr) simp
    have "split_line (a @ b) = Some (l, r @ b)" by (simp add: split_line_append lr)
    then show ?thesis
      using less [OF split_line_shorter [OF lr]] by (simp add: lines_of_split [of "a @ b"] lines_of_split [of a] lr)
  qed
qed

lemma lines_of_terminated: "CHR 0x0A \<notin> set l \<Longrightarrow> lines_of (l @ CHR 0x0A # b) = (l # fst (lines_of b), snd (lines_of b))"
proof -
  assume "CHR 0x0A \<notin> set l"
  then have "split_line (l @ CHR 0x0A # b) = Some (l, b)" by (induction l) auto
  then show ?thesis by (simp add: lines_of_split [of "l @ CHR 0x0A # b"])
qed

lemma lines_of_joined:
  "\<forall>l \<in> set ls. CHR 0x0A \<notin> set l \<Longrightarrow> lines_of (concat (map (\<lambda>l. l @ [CHR 0x0A]) ls)) = (ls, [])"
  by (induction ls) (simp_all add: lines_of_terminated)

text \<open>What one line makes the window do, when the child does not leave.\<close>

definition line_signals :: "(string \<Rightarrow> Json option) \<Rightarrow> string \<Rightarrow> HandoffSignal list" where
  "line_signals J line = snd (hs_dispatch J line mk_HandoffServer)"

lemma dispatch_stays: "verb_of line \<noteq> ''BYE'' \<Longrightarrow> hs_dispatch J line s = (s, line_signals J line)"
  by (simp add: hs_dispatch_def line_signals_def)

lemma handle_lines_auth:
  "hs_authenticated s \<Longrightarrow> \<forall>l \<in> set (fst (lines_of (hs_readBuf s))). verb_of l \<noteq> ''BYE'' \<Longrightarrow>
   handle_lines J s = (s\<lparr>hs_readBuf := snd (lines_of (hs_readBuf s))\<rparr>, concat (map (line_signals J) (fst (lines_of (hs_readBuf s)))))"
proof (induction "length (hs_readBuf s)" arbitrary: s rule: less_induct)
  case less
  show ?case
  proof (cases "split_line (hs_readBuf s)")
    case None
    then show ?thesis using lines_of_split [of "hs_readBuf s"] by (subst handle_lines.simps) simp
  next
    case (Some lr)
    obtain line rest where lr: "split_line (hs_readBuf s) = Some (line, rest)" using Some by (cases lr) simp
    define t where "t = s\<lparr>hs_readBuf := rest\<rparr>"
    have l: "lines_of (hs_readBuf s) = (line # fst (lines_of rest), snd (lines_of rest))"
      using lines_of_split [of "hs_readBuf s"] by (simp add: lr)
    have t: "hs_authenticated t" "hs_readBuf t = rest" using less.prems(1) by (simp_all add: t_def)
    have IH: "handle_lines J t = (t\<lparr>hs_readBuf := snd (lines_of rest)\<rparr>, concat (map (line_signals J) (fst (lines_of rest))))"
      using less.hyps [of t] split_line_shorter [OF lr] less.prems(2) t l by simp
    have d: "hs_dispatch J line t = (t, line_signals J line)" using less.prems(2) l by (intro dispatch_stays) simp
    have "handle_lines J s = (fst (handle_lines J t), line_signals J line @ snd (handle_lines J t))"
      using less.prems(1) d by (subst handle_lines.simps) (simp add: lr t_def Let_def)
    then show ?thesis using IH l by (simp add: t_def)
  qed
qed

text \<open>The server after the bytes \<open>B\<close> of one connection, and everything it has signalled.\<close>

definition session_state :: "HandoffServer \<Rightarrow> string \<Rightarrow> HandoffServer" where
  "session_state s B =
     (case split_line B of
        None \<Rightarrow> s\<lparr>hs_readBuf := B\<rparr>
      | Some (_, rest) \<Rightarrow> s\<lparr>hs_authenticated := True, hs_readBuf := snd (lines_of rest)\<rparr>)"

definition session_signals :: "(string \<Rightarrow> Json option) \<Rightarrow> string \<Rightarrow> HandoffSignal list" where
  "session_signals J B =
     (case split_line B of None \<Rightarrow> [] | Some (_, rest) \<Rightarrow> concat (map (line_signals J) (fst (lines_of rest))))"

text \<open>No read takes the buffer past the caps.\<close>

primrec reads_fit :: "string \<Rightarrow> string list \<Rightarrow> bool" where
  "reads_fit B [] = True"
| "reads_fit B (c # cs) =
     ((case split_line B of None \<Rightarrow> length (B @ c) \<le> 1024 | Some (_, rest) \<Rightarrow> length (snd (lines_of rest) @ c) \<le> 1048576) \<and>
      reads_fit (B @ c) cs)"

primrec feed :: "(string \<Rightarrow> Json option) \<Rightarrow> string list \<Rightarrow> HandoffServer \<Rightarrow> HandoffServer \<times> HandoffSignal list" where
  "feed J [] s = (s, [])"
| "feed J (c # cs) s =
     (let (s, sig) = handleReadyRead J c s; (s, sig') = feed J cs s in (s, sig @ sig'))"

definition session_good :: "string \<Rightarrow> string \<Rightarrow> bool" where
  "session_good nonce B =
     (case split_line B of None \<Rightarrow> True
      | Some (line, rest) \<Rightarrow> hello_ok nonce line \<and> (\<forall>l \<in> set (fst (lines_of rest)). verb_of l \<noteq> ''BYE''))"

lemma session_good_prefix: "session_good n (a @ b) \<Longrightarrow> session_good n a"
proof (cases "split_line a")
  case (Some lr)
  assume good: "session_good n (a @ b)"
  obtain l r where lr: "split_line a = Some (l, r)" using Some by (cases lr) simp
  have "set (fst (lines_of r)) \<subseteq> set (fst (lines_of (r @ b)))" by (subst lines_of_append) simp
  then show "session_good n a" using good lr by (auto simp: session_good_def split_line_append)
qed (simp add: session_good_def)

lemma session_read:
  assumes "hs_client s \<noteq> None" and "\<not> hs_authenticated s" and "session_good (hs_nonce s) (B @ c)" and "reads_fit B [c]"
  shows "fst (handleReadyRead J c (session_state s B)) = session_state s (B @ c) \<and>
    session_signals J B @ snd (handleReadyRead J c (session_state s B)) = session_signals J (B @ c)"
proof (cases "split_line B")
  case None
  define t where "t = s\<lparr>hs_readBuf := B @ c\<rparr>"
  have "length (B @ c) \<le> 1024" using assms(4) None by simp
  then have h: "handleReadyRead J c (session_state s B) = handle_lines J t"
    using assms(1,2) None by (auto simp: handleReadyRead_def session_state_def Let_def t_def)
  show ?thesis
  proof (cases "split_line (B @ c)")
    case None
    then show ?thesis
      using h \<open>split_line B = None\<close> by (subst (asm) handle_lines.simps) (simp add: t_def session_state_def session_signals_def)
  next
    case (Some lr)
    obtain line rest where lr: "split_line (B @ c) = Some (line, rest)" using Some by (cases lr) simp
    define u where "u = s\<lparr>hs_authenticated := True, hs_readBuf := rest\<rparr>"
    have good: "hello_ok (hs_nonce s) line" "\<forall>l \<in> set (fst (lines_of rest)). verb_of l \<noteq> ''BYE''"
      using assms(3) lr by (simp_all add: session_good_def)
    have "s\<lparr>hs_readBuf := rest, hs_authenticated := True\<rparr> = u" by (cases s) (simp add: u_def)
    then have "handle_lines J t = handle_lines J u"
      using assms(2) good(1) by (subst handle_lines.simps) (simp add: lr t_def Let_def)
    also have "\<dots> = (u\<lparr>hs_readBuf := snd (lines_of rest)\<rparr>, concat (map (line_signals J) (fst (lines_of rest))))"
      using handle_lines_auth [of u J] good(2) by (simp add: u_def)
    finally show ?thesis using h None lr by (simp add: session_state_def session_signals_def u_def)
  qed
next
  case (Some lr)
  obtain line rest where lr: "split_line B = Some (line, rest)" using Some by (cases lr) simp
  define t where "t = s\<lparr>hs_authenticated := True, hs_readBuf := snd (lines_of rest) @ c\<rparr>"
  have lr': "split_line (B @ c) = Some (line, rest @ c)" by (simp add: split_line_append lr)
  have "length (snd (lines_of rest) @ c) \<le> 1048576" using assms(4) lr by simp
  then have h: "handleReadyRead J c (session_state s B) = handle_lines J t"
    using assms(1) lr by (auto simp: handleReadyRead_def session_state_def Let_def t_def)
  have "\<forall>l \<in> set (fst (lines_of (snd (lines_of rest) @ c))). verb_of l \<noteq> ''BYE''"
    using assms(3) lr' by (auto simp: session_good_def lines_of_append [of rest c])
  then have "handle_lines J t = (t\<lparr>hs_readBuf := snd (lines_of (snd (lines_of rest) @ c))\<rparr>,
      concat (map (line_signals J) (fst (lines_of (snd (lines_of rest) @ c)))))"
    using handle_lines_auth [of t J] by (simp add: t_def)
  then show ?thesis
    using h lr lr' by (simp add: session_state_def session_signals_def t_def lines_of_append [of rest c])
qed

lemma session_feed:
  "hs_client s \<noteq> None \<Longrightarrow> \<not> hs_authenticated s \<Longrightarrow> session_good (hs_nonce s) (B @ concat cs) \<Longrightarrow> reads_fit B cs \<Longrightarrow>
   fst (feed J cs (session_state s B)) = session_state s (B @ concat cs) \<and>
   session_signals J B @ snd (feed J cs (session_state s B)) = session_signals J (B @ concat cs)"
proof (induction cs arbitrary: B)
  case (Cons c cs)
  have good: "session_good (hs_nonce s) (B @ c)" using session_good_prefix [of "hs_nonce s" "B @ c" "concat cs"] Cons.prems(3) by simp
  note one = session_read [OF Cons.prems(1,2) good, of J]
  have fit: "reads_fit B [c]" "reads_fit (B @ c) cs" using Cons.prems(4) by auto
  have IH: "fst (feed J cs (session_state s (B @ c))) = session_state s ((B @ c) @ concat cs)"
    "session_signals J (B @ c) @ snd (feed J cs (session_state s (B @ c))) = session_signals J ((B @ c) @ concat cs)"
    using Cons.IH [of "B @ c"] Cons.prems fit(2) by auto
  show ?case using one [OF fit(1)] IH by (auto simp: case_prod_beta Let_def) (metis append_assoc)
qed simp

text \<open>The nonce is hexadecimal text: it survives trimming and fits on a line.\<close>

lemma hex_char_in: "d < 16 \<Longrightarrow> hex_char d \<in> set ''0123456789abcdef''"
  unfolding hex_char_def by (rule nth_mem) simp

lemma makeNonce_chars: "c \<in> set (makeNonce ws) \<Longrightarrow> c \<in> set ''0123456789abcdef''"
proof -
  assume "c \<in> set (makeNonce ws)"
  then obtain w i where "c = hex_char (unat (w :: quint32) div 16 ^ (7 - i) mod 16)" by (auto simp: makeNonce_def hex8_def simp del: upt_Suc)
  then show ?thesis using hex_char_in [of "unat w div 16 ^ (7 - i) mod 16"] by simp
qed

lemma makeNonce_length: "length (makeNonce ws) = 8 * length ws"
  by (simp add: makeNonce_def length_concat hex8_def comp_def sum_list_triv)

lemma trimmed_bytes_id: "\<forall>c \<in> set x. \<not> rx_space c \<Longrightarrow> trimmed_bytes x = x"
proof -
  assume a: "\<forall>c \<in> set x. \<not> rx_space c"
  have d: "dropWhile rx_space y = y" if "\<forall>c \<in> set y. \<not> rx_space c" for y using that by (cases y) auto
  have "dropWhile rx_space x = x" "dropWhile rx_space (rev x) = rev x" using d [of x] d [of "rev x"] a by auto
  then show ?thesis by (simp add: trimmed_bytes_def)
qed

lemma nonce_plain: "\<forall>c \<in> set (makeNonce ws). \<not> rx_space c" "CHR 0x0A \<notin> set (makeNonce ws)"
  using makeNonce_chars [of _ ws] by (fastforce simp: rx_space_def)+

text \<open>Counters below \<open>2^53\<close> pass through a \<open>double\<close> unchanged.\<close>

lemma to_double_exact: "unat w < 2 ^ 53 \<Longrightarrow> to_double w = unat w"
  by (simp add: to_double_def double_unit.simps [of "unat w"] round_half_even_def)

lemma json_quint64_num: "json_quint64 (JNum (real n)) = word_of_nat n"
  by (simp add: json_quint64_def)

definition reported :: "InterfaceStats \<Rightarrow> InterfaceStats" where
  "reported i = no_interface\<lparr>if_name := if_name i, if_rxBytes := if_rxBytes i, if_txBytes := if_txBytes i,
     if_isLoopback := if_isLoopback i, if_isUp := if_isUp i\<rparr>"

definition small_counters :: "InterfaceStats \<Rightarrow> bool" where
  "small_counters i = (unat (if_rxBytes i) < 2 ^ 53 \<and> unat (if_txBytes i) < 2 ^ 53)"

lemma item_roundtrip: "small_counters i \<Longrightarrow> decode_item (encode_item i) = reported i"
proof -
  assume "small_counters i"
  then have d: "to_double (if_rxBytes i) = unat (if_rxBytes i)" "to_double (if_txBytes i) = unat (if_txBytes i)"
    by (simp_all add: to_double_exact small_counters_def)
  show ?thesis unfolding decode_item_def encode_item_def d
    by (simp add: json_value_def json_string_def json_bool_def reported_def json_quint64_num del: of_nat_unat) simp
qed

fun heard :: "ChildMessage \<Rightarrow> HandoffSignal" where
  "heard Ready = ChildReady"
| "heard (Stats stats) = ChildStats (map reported stats)"
| "heard (PauseState paused) = ChildPauseState paused"
| "heard Bye = ChildDisconnected"

text \<open>What Qt documents of its JSON writer and reader, for the documents sent: compact output has no line breaks, and reading
  gives back what was written.\<close>

definition json_carries :: "(Json \<Rightarrow> string) \<Rightarrow> (string \<Rightarrow> Json option) \<Rightarrow> ChildMessage \<Rightarrow> bool" where
  "json_carries toJson J m =
     (case m of
        Stats stats \<Rightarrow> CHR 0x0A \<notin> set (encodeStats toJson stats) \<and>
          J (encodeStats toJson stats) = Some (JObj [(''items'', JArr (map encode_item stats))]) \<and> list_all small_counters stats
      | Bye \<Rightarrow> False
      | _ \<Rightarrow> True)"

lemma message_heard:
  assumes "json_carries toJson J m"
  shows "CHR 0x0A \<notin> set (message_line toJson m) \<and> verb_of (message_line toJson m) \<noteq> ''BYE'' \<and>
    line_signals J (message_line toJson m) = [heard m]"
proof (cases m)
  case (Stats stats)
  have "decodeStats J (encodeStats toJson stats) = map reported stats"
    using assms Stats by (auto simp: json_carries_def decodeStats_def json_value_def json_array_def list_all_iff item_roundtrip)
  then show ?thesis
    using assms Stats by (simp add: json_carries_def line_signals_def hs_dispatch_def verb_of_def payload_of_def)
next
  case (PauseState paused)
  have "trimmed_bytes ''1'' = ''1''" "trimmed_bytes ''0'' = ''0''" by (simp_all add: trimmed_bytes_def rx_space_def)
  then show ?thesis using PauseState by (simp add: line_signals_def hs_dispatch_def verb_of_def payload_of_def)
qed (use assms in \<open>simp_all add: json_carries_def line_signals_def hs_dispatch_def verb_of_def\<close>)


section \<open>A concrete session\<close>

definition sample_env :: HandoffEnv where
  "sample_env = \<lparr>he_runtimeDir = ''/run'', he_runtimeExists = True, he_cacheRoot = [], he_tempDir = Inl [], he_uuidSocket = ''a'', he_uuidNonce = ''b'',
     he_random = [1, 2, 3, 4, 5, 6, 7, 8], he_nonceOpen = None, he_nonceCommit = None, he_euid = 1000, he_listen = None\<rparr>"

definition sample_server :: HandoffServer where
  "sample_server = snd (hs_listen sample_env mk_HandoffServer)"

lemma sample_listen: "hs_listen sample_env mk_HandoffServer = (hs_socketPath sample_server, sample_server)" "hs_listening sample_server"
  "hs_socketPath sample_server \<noteq> []" "hs_nonce sample_server = makeNonce [1, 2, 3, 4, 5, 6, 7, 8]" "hs_expectedChildUid sample_server = 1000"
  by (simp_all add: sample_server_def hs_listen_def sample_env_def pickRuntimeDir_def mk_HandoffServer_def starts_with_def filePath_def Let_def)

definition sample_hello :: string where
  "sample_hello = (''HELLO'' @ [CHR 0x09] @ hs_nonce sample_server) @ [CHR 0x0A]"

lemma sample_hello_length: "length sample_hello = 71"
  by (simp add: sample_hello_def sample_listen makeNonce_length)

definition sample_peer :: "string \<Rightarrow> PendingPeer" where
  "sample_peer avail = \<lparr>pp_sock = 5, pp_uid = Some 0, pp_avail = avail\<rparr>"

definition sample_client_env :: ClientEnv where
  "sample_client_env = \<lparr>ce_nonceFile = ''/run/b'', ce_nonceText = Some (hs_nonce sample_server), ce_nonceVar = [], ce_connects = True\<rparr>"

definition sample_client :: HandoffClient where
  "sample_client = \<lparr>hc_sock = False, hc_connected = False, hc_readBuf = []\<rparr>"

definition sample_connected :: HandoffClient where
  "sample_connected = \<lparr>hc_sock = True, hc_connected = True, hc_readBuf = []\<rparr>"

lemma sample_connect: "connectTo sample_client_env (hs_socketPath sample_server) sample_client = (True, sample_connected, sample_hello)"
proof -
  have "makeNonce [1, 2, 3, 4, 5, 6, 7, 8] \<noteq> []" using makeNonce_length [of "[1, 2, 3, 4, 5, 6, 7, 8]"] by auto
  then show ?thesis
    using trimmed_bytes_id [OF nonce_plain(1)]
    by (simp add: connectTo_def client_nonce_def sample_client_env_def sample_client_def sample_connected_def sample_listen sample_hello_def)
qed


lemma sample_heard:
  "snd (accept_peer (\<lambda>_. None) (sample_peer (sample_hello @ ''READY'' @ [CHR 0x0A])) sample_server) = [ChildReady]"
proof -
  let ?B = "sample_hello @ ''READY'' @ [CHR 0x0A]" and ?p = "sample_peer (sample_hello @ ''READY'' @ [CHR 0x0A])"
  have nl: "CHR 0x0A \<notin> set (''HELLO'' @ [CHR 0x09] @ hs_nonce sample_server)" using nonce_plain(2) by (simp add: sample_listen)
  have "split_line (l @ CHR 0x0A # b) = Some (l, b)" if "CHR 0x0A \<notin> set l" for l b using that by (induction l) auto
  from this [OF nl] have split: "split_line ?B = Some (''HELLO'' @ [CHR 0x09] @ hs_nonce sample_server, ''READY'' @ [CHR 0x0A])"
    by (simp add: sample_hello_def)
  have rest: "lines_of (''READY'' @ [CHR 0x0A]) = ([''READY''], [])" by simp
  have hok: "hello_ok (hs_nonce sample_server) (''HELLO'' @ [CHR 0x09] @ hs_nonce sample_server)"
    using trimmed_bytes_id [OF nonce_plain(1)] by (simp add: hello_ok_def starts_with_def sample_listen)
  have fresh: "hs_client sample_server = None" "\<not> hs_authenticated sample_server" "hs_readBuf sample_server = []"
    using listen_fresh [OF sample_listen(1,2)] by auto
  define t where "t = taken_state ?p sample_server"
  have t: "hs_client t \<noteq> None" "\<not> hs_authenticated t" "hs_nonce t = hs_nonce sample_server" "session_state t [] = t"
    using fresh by (simp_all add: t_def taken_state_def session_state_def)
  have "session_good (hs_nonce t) ([] @ ?B)" using split rest hok by (simp add: session_good_def t(3) verb_of_def)
  moreover have "reads_fit [] [?B]" by (simp add: sample_hello_length)
  ultimately have "snd (handleReadyRead (\<lambda>_. None) ?B t) = session_signals (\<lambda>_. None) ?B"
    using session_read [OF t(1,2), of "[]" ?B "\<lambda>_. None"] by (simp add: t(4) session_signals_def)
  also have "\<dots> = [ChildReady]" using split rest by (simp add: session_signals_def line_signals_def hs_dispatch_def verb_of_def)
  finally have r: "snd (handleReadyRead (\<lambda>_. None) ?B t) = [ChildReady]" .
  have "taken ?p sample_server" using fresh by (simp add: taken_def sample_peer_def)
  then show ?thesis using r by (simp add: accept_taken t_def sample_peer_def)
qed

theorem handoff_hears_child_only_witness:
  "ChildReady \<in> set (snd (accept_peer (\<lambda>_. None) (sample_peer (sample_hello @ ''READY'' @ [CHR 0x0A])) sample_server)) \<and>
   first_line_ok (hs_nonce sample_server) (sample_hello @ ''READY'' @ [CHR 0x0A])"
proof -
  have "handoff_run (\<lambda>_. None) sample_server \<lparr>hp_uid = 0, hp_bytes = []\<rparr>" by (rule run_listen [OF sample_listen(1,2)])
  note h = handoff_hears_child_only [OF this, of "[]" "sample_peer (sample_hello @ ''READY'' @ [CHR 0x0A])" True Show]
  have "pp_avail (sample_peer x) = x" for x by (simp add: sample_peer_def)
  then show ?thesis using h unfolding sample_heard by auto
qed

text \<open>A child whose greeting is read together with more than a kilobyte of its later messages is turned away: the limit meant
  for peers that never greet counts the lines behind the greeting too.\<close>

lemma eager_child_rejected:
  assumes "hs_client s \<noteq> None" and "\<not> hs_authenticated s" and "\<not> hs_unsent s" and "hs_readBuf s = []" and "1024 < length chunk"
  shows "snd (handleReadyRead J chunk s) = [ChildDisconnected] \<and> hs_client (fst (handleReadyRead J chunk s)) = None"
  using assms by (auto simp: handleReadyRead_def rejectClient_def disconnectFromServer_def handleClientDisconnected_def Let_def)

lemma hello_with_stats_rejected:
  assumes "954 \<le> length stats"
  shows "first_line_ok (hs_nonce sample_server) (sample_hello @ stats) \<and>
    snd (accept_peer J (sample_peer (sample_hello @ stats)) sample_server) = [ChildDisconnected]"
proof -
  have nl: "CHR 0x0A \<notin> set (''HELLO'' @ [CHR 0x09] @ hs_nonce sample_server)" using nonce_plain(2) by (simp add: sample_listen)
  have "split_line (l @ CHR 0x0A # b) = Some (l, b)" if "CHR 0x0A \<notin> set l" for l b using that by (induction l) auto
  from this [OF nl] have "split_line (sample_hello @ stats) = Some (''HELLO'' @ [CHR 0x09] @ hs_nonce sample_server, stats)"
    by (simp add: sample_hello_def)
  then have "first_line_ok (hs_nonce sample_server) (sample_hello @ stats)"
    using trimmed_bytes_id [OF nonce_plain(1)] by (simp add: first_line_ok_def hello_ok_def starts_with_def sample_listen)
  moreover have "taken (sample_peer (sample_hello @ stats)) sample_server"
    using listen_fresh [OF sample_listen(1,2)] by (simp add: taken_def sample_peer_def)
  moreover have "snd (handleReadyRead J (sample_hello @ stats) (taken_state (sample_peer (sample_hello @ stats)) sample_server)) = [ChildDisconnected]"
    using eager_child_rejected [of "taken_state (sample_peer (sample_hello @ stats)) sample_server" "sample_hello @ stats" J]
      listen_fresh [OF sample_listen(1,2)] assms by (simp add: taken_state_def sample_hello_length)
  moreover have "sample_hello @ stats \<noteq> []" using sample_hello_length by auto
  ultimately show ?thesis by (simp add: accept_taken sample_peer_def)
qed

section \<open>The window's commands arrive\<close>

lemma client_lines_eq:
  "client_lines c = (c\<lparr>hc_readBuf := snd (lines_of (hc_readBuf c))\<rparr>, concat (map hc_dispatch (fst (lines_of (hc_readBuf c)))))"
proof (induction "length (hc_readBuf c)" arbitrary: c rule: less_induct)
  case less
  show ?case
  proof (cases "split_line (hc_readBuf c)")
    case None
    then show ?thesis using lines_of_split [of "hc_readBuf c"] by (subst client_lines.simps) simp
  next
    case (Some lr)
    obtain l r where lr: "split_line (hc_readBuf c) = Some (l, r)" using Some by (cases lr) simp
    have "client_lines (c\<lparr>hc_readBuf := r\<rparr>) = (c\<lparr>hc_readBuf := snd (lines_of r)\<rparr>, concat (map hc_dispatch (fst (lines_of r))))"
      using less [of "c\<lparr>hc_readBuf := r\<rparr>"] split_line_shorter [OF lr] by simp
    then show ?thesis using lines_of_split [of "hc_readBuf c"] by (subst client_lines.simps) (simp add: lr Let_def)
  qed
qed

primrec client_feed :: "string list \<Rightarrow> HandoffClient \<Rightarrow> HandoffClient \<times> ClientSignal list" where
  "client_feed [] c = (c, [])"
| "client_feed (x # xs) c = (let (c, sig) = hc_handleReadyRead x c; (c, sig') = client_feed xs c in (c, sig @ sig'))"

lemma client_feed_eq:
  "hc_sock c \<Longrightarrow> CHR 0x0A \<notin> set (hc_readBuf c) \<Longrightarrow>
   snd (client_feed xs c) = concat (map hc_dispatch (fst (lines_of (hc_readBuf c @ concat xs))))"
proof (induction xs arbitrary: c)
  case Nil
  have "split_line b = None" if "CHR 0x0A \<notin> set b" for b using that by (induction b) auto
  then show ?case using Nil lines_of_split [of "hc_readBuf c"] by simp
next
  case (Cons x xs)
  define c' where "c' = c\<lparr>hc_readBuf := snd (lines_of (hc_readBuf c @ x))\<rparr>"
  have rest: "CHR 0x0A \<notin> set (snd (lines_of b))" for b by (induction b) (auto simp: case_prod_beta Let_def split: list.split)
  have IH: "snd (client_feed xs c') = concat (map hc_dispatch (fst (lines_of (snd (lines_of (hc_readBuf c @ x)) @ concat xs))))"
    using Cons.IH [of c'] Cons.prems(1) rest by (simp add: c'_def)
  have "hc_handleReadyRead x c = (c', concat (map hc_dispatch (fst (lines_of (hc_readBuf c @ x)))))"
    using Cons.prems(1) by (simp add: hc_handleReadyRead_def client_lines_eq c'_def)
  then show ?case using IH lines_of_append [of "hc_readBuf c @ x" "concat xs"] by (simp add: case_prod_beta Let_def)
qed

fun obeyed :: "ParentCommand \<Rightarrow> ClientSignal" where
  "obeyed Show = ShowRequested"
| "obeyed (Pause paused) = PauseCommand paused"
| "obeyed Quit = QuitCommand"

lemma commands_arrive:
  assumes "hc_sock c" and "hc_readBuf c = []" and "concat xs = concat (map (\<lambda>k. command_line k @ [CHR 0x0A]) ks)"
  shows "snd (client_feed xs c) = map obeyed ks"
proof -
  have k: "CHR 0x0A \<notin> set (command_line k) \<and> hc_dispatch (command_line k) = [obeyed k]" for k
    by (cases k) (auto simp: hc_dispatch_def verb_of_def payload_of_def trimmed_bytes_def rx_space_def)
  have "lines_of (concat (map (\<lambda>l. l @ [CHR 0x0A]) (map command_line ks))) = (map command_line ks, [])"
    using k by (intro lines_of_joined) auto
  then have "lines_of (concat xs) = (map command_line ks, [])" using assms(3) by (simp add: comp_def)
  moreover have "concat (map (\<lambda>k. [obeyed k]) ks) = map obeyed ks" by (induction ks) auto
  ultimately show ?thesis using client_feed_eq [of c xs] assms(1,2) k by (simp add: comp_def)
qed

end
