(* ===== verification/Privilege.thy ===== *)
theory Privilege
  imports FlowTypes
begin

text \<open>
  \<open>util/PrivilegeEscalator.cpp\<close>: starting a copy of the program as root through whatever helper the desktop has.
  The environment is an association list; the world says which files are executable and which programs start.
\<close>

section \<open>The environment that is passed on\<close>

type_synonym environment = "(string \<times> string) list"

definition env_value :: "environment \<Rightarrow> string \<Rightarrow> string" where
  "env_value env k = (case map_of env k of Some v \<Rightarrow> v | None \<Rightarrow> [])"

definition envAllowlist :: "string list" where
  "envAllowlist =
     [''DISPLAY'', ''WAYLAND_DISPLAY'', ''XAUTHORITY'', ''XDG_SESSION_TYPE'', ''XDG_RUNTIME_DIR'', ''XDG_CURRENT_DESKTOP'',
      ''DBUS_SESSION_BUS_ADDRESS'', ''LANG'', ''LANGUAGE'', ''LC_ALL'', ''LC_CTYPE'', ''LC_NUMERIC'', ''LC_TIME'', ''LC_COLLATE'',
      ''LC_MONETARY'', ''LC_MESSAGES'', ''LC_PAPER'', ''LC_NAME'', ''LC_ADDRESS'', ''LC_TELEPHONE'', ''LC_MEASUREMENT'',
      ''LC_IDENTIFICATION'', ''HOME'', ''PWD'', ''QT_STYLE_OVERRIDE'', ''QT_QPA_PLATFORMTHEME'', ''QT_SCALE_FACTOR'',
      ''QT_AUTO_SCREEN_SCALE_FACTOR'']"

definition filterEnv :: "environment \<Rightarrow> environment" where
  "filterEnv env = filter (\<lambda>(k, v). k \<in> set envAllowlist \<and> v \<noteq> []) env"

definition safe_path :: string where
  "safe_path = ''/usr/sbin:/usr/bin:/sbin:/bin''"

definition assignment :: "string \<Rightarrow> string \<Rightarrow> string" where
  "assignment k v = k @ ''='' @ v"

definition sessionEnv :: "environment \<Rightarrow> string list" where
  "sessionEnv env =
     map (\<lambda>(k, v). assignment k v) (filterEnv env) @ [assignment ''PATH'' safe_path] @
     (if env_value env ''QIFTOP_HANDOFF_SOCKET'' \<noteq> []
      then [assignment ''QIFTOP_HANDOFF_SOCKET'' (env_value env ''QIFTOP_HANDOFF_SOCKET'')] else []) @
     (if env_value env ''QIFTOP_HANDOFF_NONCE_FILE'' \<noteq> []
      then [assignment ''QIFTOP_HANDOFF_NONCE_FILE'' (env_value env ''QIFTOP_HANDOFF_NONCE_FILE'')] else [])"

definition scrubbedHelperEnv :: "environment \<Rightarrow> environment" where
  "scrubbedHelperEnv env = hinsert ''PATH'' safe_path (filterEnv env)"

section \<open>Helpers\<close>

record Launch =
  la_program :: string
  la_args :: "string list"
  la_env :: environment

record HelperWorld =
  hw_executable :: "string \<Rightarrow> bool"
  hw_starts :: "Launch \<Rightarrow> bool"

definition launchAttached :: "HelperWorld \<Rightarrow> environment \<Rightarrow> string \<Rightarrow> string list \<Rightarrow> bool \<times> Launch list" where
  "launchAttached w env program args =
     (let l = \<lparr>la_program = program, la_args = args, la_env = scrubbedHelperEnv env\<rparr> in (hw_starts w l, [l]))"

definition helperSearchPaths :: "string list" where
  "helperSearchPaths = [''/usr/sbin'', ''/usr/bin'', ''/sbin'', ''/bin'']"

text \<open>\<open>QStandardPaths::findExecutable\<close> with a list of directories; the empty string when nothing is found.\<close>

definition findHelper :: "HelperWorld \<Rightarrow> string \<Rightarrow> string" where
  "findHelper w name =
     (case filter (hw_executable w) (map (\<lambda>d. d @ ''/'' @ name) helperSearchPaths) of [] \<Rightarrow> [] | p # _ \<Rightarrow> p)"

definition runPkexec :: "HelperWorld \<Rightarrow> environment \<Rightarrow> string \<Rightarrow> string list \<Rightarrow> bool \<times> Launch list" where
  "runPkexec w env program args =
     (let path = findHelper w ''pkexec'' in
      if path = [] then (False, []) else launchAttached w env path (''env'' # sessionEnv env @ program # args))"

text \<open>\<open>replace\<close> of a single quote, and the quoting around each word.\<close>

definition escape_quotes :: "string \<Rightarrow> string" where
  "escape_quotes p = concat (map (\<lambda>c. if c = CHR 0x27 then [CHR 0x27, CHR 0x5C, CHR 0x27, CHR 0x27] else [c]) p)"

definition sh_quote :: "string \<Rightarrow> string" where
  "sh_quote p = [CHR 0x27] @ escape_quotes p @ [CHR 0x27]"

definition join_space :: "string list \<Rightarrow> string" where
  "join_space ws = (case ws of [] \<Rightarrow> [] | w # ws \<Rightarrow> w @ concat (map (\<lambda>x. CHR '' '' # x) ws))"

definition runKdesu :: "HelperWorld \<Rightarrow> environment \<Rightarrow> string \<Rightarrow> string list \<Rightarrow> bool \<times> Launch list" where
  "runKdesu w env program args =
     (let path = findHelper w ''kdesu'';
          path = (if path = [] then findHelper w ''kdesudo'' else path) in
      if path = [] then (False, []) else launchAttached w env path [''-c'', join_space (map sh_quote (program # args))])"

definition runGksu :: "string \<Rightarrow> HelperWorld \<Rightarrow> environment \<Rightarrow> string \<Rightarrow> string list \<Rightarrow> bool \<times> Launch list" where
  "runGksu helper w env program args =
     (let path = findHelper w helper in
      if path = [] then (False, []) else launchAttached w env path (program # args))"

definition runTermSudo :: "HelperWorld \<Rightarrow> environment \<Rightarrow> string \<Rightarrow> string list \<Rightarrow> bool \<times> Launch list" where
  "runTermSudo w env program args =
     (let term = findHelper w ''x-terminal-emulator'';
          term = (if term = [] then findHelper w ''xterm'' else term) in
      if term = [] then (False, [])
      else
        (let sudo = findHelper w ''sudo'' in
         if sudo = [] then (False, []) else launchAttached w env term (''-e'' # sudo # program # args)))"

section \<open>Choosing a strategy\<close>

datatype DesktopEnv = UnknownDesktop | KDE | GNOME | XFCE | MATE | Cinnamon | LXQt | OtherDesktop

definition desktopTokens :: "environment \<Rightarrow> string list" where
  "desktopTokens env = qsplit_skip (CHR '':'') (env_value env ''XDG_CURRENT_DESKTOP'')"

text \<open>\<open>toUpper\<close> on ASCII letters. No other letter has an upper case form with a letter of the names looked for.\<close>

definition upper_ascii :: "string \<Rightarrow> string" where
  "upper_ascii s = map (\<lambda>c. let n = (of_char c :: nat) in if 97 \<le> n \<and> n \<le> 122 then char_of (n - 32) else c) s"

definition token_desktop :: "string \<Rightarrow> DesktopEnv option" where
  "token_desktop raw =
     (let t = upper_ascii raw in
      if contains_at ''KDE'' t then Some KDE
      else if contains_at ''GNOME'' t then Some GNOME
      else if contains_at ''XFCE'' t then Some XFCE
      else if contains_at ''MATE'' t then Some MATE
      else if contains_at ''CINNAMON'' t then Some Cinnamon
      else if contains_at ''LXQT'' t then Some LXQt
      else None)"

primrec first_desktop :: "string list \<Rightarrow> DesktopEnv option" where
  "first_desktop [] = None"
| "first_desktop (t # ts) = (case token_desktop t of Some d \<Rightarrow> Some d | None \<Rightarrow> first_desktop ts)"

definition detectDesktop :: "environment \<Rightarrow> DesktopEnv" where
  "detectDesktop env =
     (case first_desktop (desktopTokens env) of
        Some d \<Rightarrow> d
      | None \<Rightarrow> if desktopTokens env \<noteq> [] then OtherDesktop else UnknownDesktop)"

record Strategy =
  st_id :: string
  st_run :: "HelperWorld \<Rightarrow> environment \<Rightarrow> string \<Rightarrow> string list \<Rightarrow> bool \<times> Launch list"

definition orderedStrategies :: "environment \<Rightarrow> Strategy list" where
  "orderedStrategies env =
     (let pkexec = \<lparr>st_id = ''pkexec'', st_run = runPkexec\<rparr>;
          kdesu = \<lparr>st_id = ''kdesu'', st_run = runKdesu\<rparr>;
          gksu = \<lparr>st_id = ''gksudo'', st_run = runGksu ''gksudo''\<rparr>;
          lxqtSu = \<lparr>st_id = ''lxqt-sudo'', st_run = runGksu ''lxqt-sudo''\<rparr>;
          beesu = \<lparr>st_id = ''beesu'', st_run = runGksu ''beesu''\<rparr>;
          termSu = \<lparr>st_id = ''x-terminal+sudo'', st_run = runTermSudo\<rparr>
      in case detectDesktop env of
           KDE \<Rightarrow> [kdesu, pkexec, gksu, lxqtSu, beesu, termSu]
         | LXQt \<Rightarrow> [lxqtSu, pkexec, kdesu, gksu, beesu, termSu]
         | _ \<Rightarrow> [pkexec, gksu, kdesu, lxqtSu, beesu, termSu])"

definition plannedStrategies :: "environment \<Rightarrow> string list" where
  "plannedStrategies env = map st_id (orderedStrategies env)"

text \<open>The strategy that started a helper, if any, and every process start that was tried.\<close>

primrec try_strategies :: "HelperWorld \<Rightarrow> environment \<Rightarrow> string \<Rightarrow> string list \<Rightarrow> Strategy list \<Rightarrow> string option \<times> Launch list" where
  "try_strategies w env program args [] = (None, [])"
| "try_strategies w env program args (s # ss) =
     (let (ok, ls) = st_run s w env program args in
      if ok then (Some (st_id s), ls)
      else (let (used, ls') = try_strategies w env program args ss in (used, ls @ ls')))"

definition relaunch :: "HelperWorld \<Rightarrow> environment \<Rightarrow> string \<Rightarrow> string list \<Rightarrow> string option \<times> Launch list" where
  "relaunch w env program args = try_strategies w env program args (orderedStrategies env)"

section \<open>How the commands are read\<close>

text \<open>Word splitting of the POSIX shell for plain characters, blanks, single quotes and backslashes. The second argument is the
  word begun, the third says whether a quotation is open.\<close>

definition extend :: "string option \<Rightarrow> string \<Rightarrow> string option" where
  "extend cur x = Some ((case cur of None \<Rightarrow> [] | Some w \<Rightarrow> w) @ x)"

fun sh_lex :: "string \<Rightarrow> string option \<Rightarrow> bool \<Rightarrow> string list option" where
  "sh_lex [] cur True = None"
| "sh_lex [] cur False = Some (case cur of None \<Rightarrow> [] | Some w \<Rightarrow> [w])"
| "sh_lex (c # cs) cur True = (if c = CHR 0x27 then sh_lex cs cur False else sh_lex cs (extend cur [c]) True)"
| "sh_lex (c # cs) cur False =
     (if c = CHR 0x27 then sh_lex cs (extend cur []) True
      else if c = CHR 0x5C then (case cs of [] \<Rightarrow> None | d # ds \<Rightarrow> sh_lex ds (extend cur [d]) False)
      else if c = CHR '' '' then
        (case cur of None \<Rightarrow> sh_lex cs None False | Some w \<Rightarrow> map_option (Cons w) (sh_lex cs None False))
      else sh_lex cs (extend cur [c]) False)"

definition sh_words :: "string \<Rightarrow> string list option" where
  "sh_words s = sh_lex s None False"

lemma lex_quoted: "sh_lex (escape_quotes p @ CHR 0x27 # rest) (Some x) True = sh_lex rest (Some (x @ p)) False"
  by (induction p arbitrary: x) (auto simp: escape_quotes_def extend_def)

lemma lex_word: "sh_lex (sh_quote p @ rest) None False = sh_lex rest (Some p) False"
  using lex_quoted [of p rest "[]"] by (simp add: sh_quote_def extend_def)

lemma lex_words: "sh_lex (concat (map (\<lambda>p. CHR '' '' # sh_quote p) ps)) (Some w) False = Some (w # ps)"
proof (induction ps arbitrary: w)
  case (Cons p ps)
  have "sh_lex (sh_quote p @ concat (map (\<lambda>p. CHR '' '' # sh_quote p) ps)) None False = Some (p # ps)"
    using Cons.IH by (simp add: lex_word)
  then show ?case by simp
qed simp

lemma sh_words_quoted: "sh_words (join_space (map sh_quote (p # ps))) = Some (p # ps)"
  using lex_words [of ps p] lex_word [of p "concat (map (\<lambda>p. CHR '' '' # sh_quote p) ps)"]
  by (simp add: sh_words_def join_space_def comp_def)

text \<open>Quoting for the shell. The command string handed to \<open>kdesu -c\<close> is split by a shell into exactly the program and its
  arguments, whatever quotes, backslashes and blanks they contain.\<close>

theorem kdesu_quoting_roundtrip: "sh_words (join_space (map sh_quote (program # args))) = Some (program # args)"
  by (rule sh_words_quoted)

text \<open>\<open>env(1)\<close>: leading arguments with an equals sign are assignments, the rest is the command.\<close>

definition cut_assignment :: "string \<Rightarrow> string \<times> string" where
  "cut_assignment a = (takeWhile (\<lambda>c. c \<noteq> CHR ''='') a, drop 1 (dropWhile (\<lambda>c. c \<noteq> CHR ''='') a))"

definition env_command :: "string list \<Rightarrow> environment \<times> string list" where
  "env_command as = (map cut_assignment (takeWhile (\<lambda>a. CHR ''='' \<in> set a) as), dropWhile (\<lambda>a. CHR ''='' \<in> set a) as)"

lemma cut_assignment_made: "CHR ''='' \<notin> set k \<Longrightarrow> cut_assignment (assignment k v) = (k, v)"
proof -
  assume "CHR ''='' \<notin> set k"
  then have "takeWhile (\<lambda>c. c \<noteq> CHR ''='') (k @ CHR ''='' # v) = k" "dropWhile (\<lambda>c. c \<noteq> CHR ''='') (k @ CHR ''='' # v) = CHR ''='' # v"
    by (induction k) auto
  then show ?thesis by (simp add: cut_assignment_def assignment_def)
qed

definition handoff_vars :: "string list" where
  "handoff_vars = [''QIFTOP_HANDOFF_SOCKET'', ''QIFTOP_HANDOFF_NONCE_FILE'']"

text \<open>The variables a privileged child may get: the fixed search path, permitted ones with the user's value, and where the
  parent listens.\<close>

definition child_var :: "environment \<Rightarrow> string \<times> string \<Rightarrow> bool" where
  "child_var env kv =
     (kv = (''PATH'', safe_path) \<or> fst kv \<in> set envAllowlist \<and> kv \<in> set env \<or>
      fst kv \<in> set handoff_vars \<and> snd kv = env_value env (fst kv))"

definition session_vars :: "environment \<Rightarrow> environment" where
  "session_vars env = filterEnv env @ [(''PATH'', safe_path)] @
     map (\<lambda>k. (k, env_value env k)) (filter (\<lambda>k. env_value env k \<noteq> []) handoff_vars)"

lemma sessionEnv_assigns: "sessionEnv env = map (\<lambda>(k, v). assignment k v) (session_vars env)"
  by (simp add: sessionEnv_def session_vars_def handoff_vars_def)

lemma allow_no_equals: "k \<in> set envAllowlist \<Longrightarrow> CHR ''='' \<notin> set k"
  unfolding envAllowlist_def by fastforce

lemma handoff_no_equals: "k \<in> set handoff_vars \<Longrightarrow> CHR ''='' \<notin> set k"
  unfolding handoff_vars_def by fastforce

lemma session_vars_ok: "kv \<in> set (session_vars env) \<Longrightarrow> child_var env kv \<and> CHR ''='' \<notin> set (fst kv)"
  using allow_no_equals handoff_no_equals by (auto simp: session_vars_def filterEnv_def child_var_def)

lemma env_command_session:
  assumes "CHR ''='' \<notin> set program"
  shows "env_command (sessionEnv env @ program # args) = (session_vars env, program # args)"
proof -
  have eq: "\<forall>a \<in> set (sessionEnv env). CHR ''='' \<in> set a" by (auto simp: sessionEnv_assigns assignment_def)
  have "map cut_assignment (sessionEnv env) = session_vars env"
    using session_vars_ok cut_assignment_made unfolding sessionEnv_assigns by (fastforce intro: map_idI simp: comp_def case_prod_beta)
  then show ?thesis using eq assms by (simp add: env_command_def takeWhile_append dropWhile_append)
qed

section \<open>What is started, and with what\<close>

text \<open>A program from one of the fixed directories.\<close>

definition system_program :: "HelperWorld \<Rightarrow> string \<Rightarrow> bool" where
  "system_program w p = (hw_executable w p \<and> (\<exists>d \<in> set helperSearchPaths. \<exists>name. p = d @ ''/'' @ name))"

text \<open>The helper's command runs the program with its arguments: directly, in a terminal, through a shell, or through \<open>env\<close>.\<close>

definition runs_program :: "HelperWorld \<Rightarrow> environment \<Rightarrow> string \<Rightarrow> string list \<Rightarrow> string list \<Rightarrow> bool" where
  "runs_program w env program args as =
     (as = program # args \<or>
      (\<exists>sudo. as = ''-e'' # sudo # program # args \<and> system_program w sudo) \<or>
      (\<exists>cmd. as = [''-c'', cmd] \<and> sh_words cmd = Some (program # args)) \<or>
      (\<exists>bs. as = ''env'' # bs \<and> snd (env_command bs) = program # args \<and> (\<forall>kv \<in> set (fst (env_command bs)). child_var env kv)))"

definition launch_ok :: "HelperWorld \<Rightarrow> environment \<Rightarrow> string \<Rightarrow> string list \<Rightarrow> Launch \<Rightarrow> bool" where
  "launch_ok w env program args l =
     (system_program w (la_program l) \<and> runs_program w env program args (la_args l) \<and>
      (\<forall>kv \<in> set (la_env l). kv = (''PATH'', safe_path) \<or> fst kv \<in> set envAllowlist \<and> kv \<in> set env) \<and>
      env_value (la_env l) ''PATH'' = safe_path)"

lemma findHelper_system: "findHelper w name \<noteq> [] \<Longrightarrow> system_program w (findHelper w name)"
proof -
  let ?ps = "filter (hw_executable w) (map (\<lambda>d. d @ ''/'' @ name) helperSearchPaths)"
  assume "findHelper w name \<noteq> []"
  then have "findHelper w name \<in> set ?ps" by (cases ?ps) (auto simp: findHelper_def)
  then show ?thesis by (auto simp: system_program_def)
qed

lemma scrubbed_env:
  "\<forall>kv \<in> set (scrubbedHelperEnv env). kv = (''PATH'', safe_path) \<or> fst kv \<in> set envAllowlist \<and> kv \<in> set env"
  "env_value (scrubbedHelperEnv env) ''PATH'' = safe_path"
proof -
  have "set (hinsert k v m) \<subseteq> insert (k, v) (set m)" for k :: string and v :: string and m by (induction m) auto
  then show "\<forall>kv \<in> set (scrubbedHelperEnv env). kv = (''PATH'', safe_path) \<or> fst kv \<in> set envAllowlist \<and> kv \<in> set env"
    unfolding scrubbedHelperEnv_def by (fastforce simp: filterEnv_def)
  show "env_value (scrubbedHelperEnv env) ''PATH'' = safe_path" by (simp add: scrubbedHelperEnv_def env_value_def hfind_insert)
qed

lemma launch_ok_attached:
  "system_program w path \<Longrightarrow> runs_program w env program args as \<Longrightarrow> l \<in> set (snd (launchAttached w env path as)) \<Longrightarrow> launch_ok w env program args l"
  using scrubbed_env by (auto simp: launchAttached_def launch_ok_def Let_def)

lemma strategy_ok:
  assumes "s \<in> set (orderedStrategies env)" and "CHR ''='' \<notin> set program" and "l \<in> set (snd (st_run s w env program args))"
  shows "launch_ok w env program args l"
proof -
  have env: "runs_program w env program args (''env'' # sessionEnv env @ program # args)"
    using env_command_session [OF assms(2)] session_vars_ok by (auto simp: runs_program_def)
  have sh: "runs_program w env program args [''-c'', join_space (map sh_quote (program # args))]"
    using sh_words_quoted unfolding runs_program_def by blast
  have plain: "runs_program w env program args (program # args)" by (simp add: runs_program_def)
  have tm: "runs_program w env program args (''-e'' # sudo # program # args)" if "system_program w sudo" for sudo
    using that by (simp add: runs_program_def)
  have run: "st_run s \<in> {runPkexec, runKdesu, runGksu ''gksudo'', runGksu ''lxqt-sudo'', runGksu ''beesu'', runTermSudo}"
    using assms(1) by (auto simp: orderedStrategies_def Let_def split: DesktopEnv.splits)
  have "launch_ok w env program args l" if "l \<in> set (snd (runPkexec w env program args))"
    using that launch_ok_attached [OF findHelper_system env] by (auto simp: runPkexec_def Let_def split: if_splits)
  moreover have "launch_ok w env program args l" if "l \<in> set (snd (runKdesu w env program args))"
    using that launch_ok_attached [OF findHelper_system sh] by (auto simp: runKdesu_def Let_def split: if_splits)
  moreover have "launch_ok w env program args l" if "l \<in> set (snd (runGksu h w env program args))" for h
    using that launch_ok_attached [OF findHelper_system plain] by (auto simp: runGksu_def Let_def split: if_splits)
  moreover have "launch_ok w env program args l" if "l \<in> set (snd (runTermSudo w env program args))"
    using that launch_ok_attached [OF findHelper_system tm [OF findHelper_system]] by (auto simp: runTermSudo_def Let_def split: if_splits)
  ultimately show ?thesis using run assms(3) by fastforce
qed

lemma try_strategies_ok:
  "\<forall>s \<in> set ss. \<forall>l \<in> set (snd (st_run s w env program args)). P l \<Longrightarrow> \<forall>l \<in> set (snd (try_strategies w env program args ss)). P l"
  by (induction ss) (auto simp: case_prod_beta Let_def split: if_splits)


definition sample_helpers :: HelperWorld where
  "sample_helpers = \<lparr>hw_executable = (\<lambda>p. p = ''/usr/bin/pkexec''), hw_starts = (\<lambda>_. True)\<rparr>"

lemma sample_relaunch:
  "map la_program (snd (relaunch sample_helpers [(''LD_PRELOAD'', ''x''), (''HOME'', ''/h'')] ''/q'' [])) = [''/usr/bin/pkexec'']"
  by code_simp


section \<open>Limits\<close>

text \<open>A program whose path contains an equals sign is taken by \<open>env\<close> for an assignment.\<close>

lemma env_eats_program:
  assumes "CHR ''='' \<in> set program"
  shows "snd (env_command (sessionEnv env @ [program])) = []"
proof -
  have "\<forall>a \<in> set (sessionEnv env @ [program]). CHR ''='' \<in> set a" using assms by (auto simp: sessionEnv_assigns assignment_def)
  then show ?thesis by (simp add: env_command_def dropWhile_eq_Nil_conv)
qed

text \<open>Every helper but \<open>pkexec\<close> starts the child without the variables that tell it where the parent listens.\<close>

lemma handoff_variables_lost:
  assumes "l \<in> set (snd (launchAttached w env path as))" and "k \<in> set handoff_vars"
  shows "map_of (la_env l) k = None"
proof -
  have no: "k \<notin> set envAllowlist" "k \<noteq> ''PATH''" using assms(2) by (auto simp: handoff_vars_def envAllowlist_def)
  have "l = \<lparr>la_program = path, la_args = as, la_env = scrubbedHelperEnv env\<rparr>" using assms(1) by (simp add: launchAttached_def Let_def)
  moreover have "map_of (scrubbedHelperEnv env) k = None"
    using no by (auto simp: scrubbedHelperEnv_def hfind_insert map_of_eq_None_iff filterEnv_def)
  ultimately show ?thesis by simp
qed

end
