(* ===== verification/QtText.thy ===== *)
theory QtText
  imports Prelude Complex_Main
begin

text \<open>
  Text the user interfaces share: \<open>QString::arg\<close> in its chained and its simultaneous form, printed integers, and the byte
  units of \<open>util/Units.h\<close>. How a fraction is printed with a number of decimals (\<open>QString::number(x, 'f', n)\<close>) is a
  parameter. Symbols outside ASCII are written as their UTF-8 bytes.
\<close>

section \<open>Place markers\<close>

text \<open>\<open>QString::arg\<close>: the place markers with the lowest number are replaced. A marker is a percent sign, an optional
  \<open>L\<close> and one or two digits.\<close>

datatype piece = Lit char | Mark nat string

fun pieces :: "string \<Rightarrow> piece list" where
  "pieces [] = []"
| "pieces (c # cs) =
     (if c \<noteq> CHR 0x25 then Lit c # pieces cs
      else
        (case cs of
           d # e # ds \<Rightarrow>
             if is_digit d \<and> is_digit e then Mark (10 * digit_val d + digit_val e) [c, d, e] # pieces ds
             else if is_digit d then Mark (digit_val d) [c, d] # pieces (e # ds)
             else if d = CHR ''L'' \<and> is_digit e then
               (case ds of
                  f # fs \<Rightarrow> if is_digit f then Mark (10 * digit_val e + digit_val f) [c, d, e, f] # pieces fs
                            else Mark (digit_val e) [c, d, e] # pieces ds
                | [] \<Rightarrow> [Mark (digit_val e) [c, d, e]])
             else Lit c # pieces cs
         | [d] \<Rightarrow> if is_digit d then [Mark (digit_val d) [c, d]] else [Lit c, Lit d]
         | [] \<Rightarrow> [Lit c]))"

definition piece_marks :: "piece list \<Rightarrow> nat list" where
  "piece_marks ps = concat (map (\<lambda>p. case p of Lit _ \<Rightarrow> [] | Mark n _ \<Rightarrow> [n]) ps)"

definition qarg :: "string \<Rightarrow> string \<Rightarrow> string" where
  "qarg s x =
     (let ps = pieces s; ns = piece_marks ps in
      if ns = [] then s
      else concat (map (\<lambda>p. case p of Lit c \<Rightarrow> [c] | Mark n t \<Rightarrow> if n = fold min ns (hd ns) then x else t) ps))"

definition show_int :: "int \<Rightarrow> string" where
  "show_int n = (if n < 0 then ''-'' @ show_nat (nat (- n)) else show_nat (nat n))"

text \<open>\<open>arg(a, b, ...)\<close> replaces the markers at once: the lowest number by the first argument, and so on.\<close>

primrec nth_arg :: "nat list \<Rightarrow> string list \<Rightarrow> nat \<Rightarrow> string option" where
  "nth_arg [] xs n = None"
| "nth_arg (m # ms) xs n = (case xs of [] \<Rightarrow> None | x # xs' \<Rightarrow> if m = n then Some x else nth_arg ms xs' n)"

definition qargs :: "string \<Rightarrow> string list \<Rightarrow> string" where
  "qargs s xs =
     (let ps = pieces s; ns = remdups (sort (piece_marks ps)) in
      concat (map (\<lambda>p. case p of Lit c \<Rightarrow> [c] | Mark n t \<Rightarrow> (case nth_arg ns xs n of Some x \<Rightarrow> x | None \<Rightarrow> t)) ps))"

definition em_dash :: string where "em_dash = [CHR 0xE2, CHR 0x80, CHR 0x94]"
definition right_arrow :: string where "right_arrow = [CHR 0xE2, CHR 0x86, CHR 0x92]"
definition right_triangle :: string where "right_triangle = [CHR 0xE2, CHR 0x96, CHR 0xB8]"
definition down_triangle :: string where "down_triangle = [CHR 0xE2, CHR 0x96, CHR 0xBC]"
definition up_triangle :: string where "up_triangle = [CHR 0xE2, CHR 0x96, CHR 0xB2]"

section \<open>Byte units\<close>

definition truncate_real :: "real \<Rightarrow> int" where
  "truncate_real x = (if x < 0 then - \<lfloor>- x\<rfloor> else \<lfloor>x\<rfloor>)"

definition formatByteRate :: "(real \<Rightarrow> nat \<Rightarrow> string) \<Rightarrow> real \<Rightarrow> string" where
  "formatByteRate num bytesPerSec =
     (let kKiB = 1024; kMiB = kKiB * 1024; kGiB = kMiB * 1024 in
      if kGiB \<le> bytesPerSec then num (bytesPerSec / kGiB) 2 @ '' GiB/s''
      else if kMiB \<le> bytesPerSec then num (bytesPerSec / kMiB) 2 @ '' MiB/s''
      else if kKiB \<le> bytesPerSec then num (bytesPerSec / kKiB) 1 @ '' KiB/s''
      else show_int (truncate_real bytesPerSec) @ '' B/s'')"

definition formatBytes :: "(real \<Rightarrow> nat \<Rightarrow> string) \<Rightarrow> quint64 \<Rightarrow> string" where
  "formatBytes num bytes =
     (let kKiB = 1024; kMiB = kKiB * 1024; kGiB = kMiB * 1024; kTiB = kGiB * 1024; b = real (unat bytes) in
      if kTiB \<le> b then num (b / kTiB) 2 @ '' TiB''
      else if kGiB \<le> b then num (b / kGiB) 2 @ '' GiB''
      else if kMiB \<le> b then num (b / kMiB) 2 @ '' MiB''
      else if kKiB \<le> b then num (b / kKiB) 1 @ '' KiB''
      else show_nat (unat bytes) @ '' B'')"

section \<open>Facts\<close>

lemma pieces_lits: "CHR 0x25 \<notin> set d \<Longrightarrow> pieces (d @ rest) = map Lit d @ pieces rest"
  by (induction d) auto

lemma concat_lits: "concat (map (\<lambda>p. case p of Lit c \<Rightarrow> [c] | Mark n t \<Rightarrow> f n t) (map Lit d)) = d"
  by (induction d) auto

lemma pieces_pair:
  assumes "c \<noteq> CHR 0x25" and "\<not> is_digit c"
  shows "pieces (''%1'' @ c # ''%2'') = [Mark 1 ''%1'', Lit c, Mark 2 ''%2'']"
proof -
  have "is_digit (CHR ''1'')" "is_digit (CHR ''2'')" by (simp_all add: is_digit_def)
  then show ?thesis using assms by (simp add: digit_val_def)
qed

lemma qarg_pair:
  assumes "c \<noteq> CHR 0x25" and "\<not> is_digit c" and "CHR 0x25 \<notin> set d"
  shows "qarg (qarg (''%1'' @ c # ''%2'') d) x = d @ c # x"
proof -
  have first: "qarg (''%1'' @ c # ''%2'') d = d @ c # ''%2''"
    using pieces_pair [OF assms(1,2)] by (simp add: qarg_def piece_marks_def)
  have "pieces (d @ c # ''%2'') = map Lit d @ [Lit c, Mark 2 ''%2'']"
    using assms by (simp add: pieces_lits is_digit_def digit_val_def)
  moreover have "piece_marks (map Lit d @ [Lit c, Mark 2 ''%2'']) = [2]" by (simp add: piece_marks_def)
  ultimately have "qarg (d @ c # ''%2'') x = d @ c # x" by (simp add: qarg_def concat_lits del: map_map)
  then show ?thesis unfolding first .
qed

lemma qargs_pair:
  assumes "c \<noteq> CHR 0x25" and "\<not> is_digit c"
  shows "qargs (''%1'' @ c # ''%2'') [x, y] = x @ c # y"
  using pieces_pair [OF assms] by (simp add: qargs_def piece_marks_def)

lemma show_int_no_percent: "CHR 0x25 \<notin> set (show_int n)"
  by (auto simp: show_int_def dest!: show_nat_digits simp: is_digit_def)

lemma append_sep_eq: "(c :: char) \<notin> set a \<Longrightarrow> c \<notin> set a' \<Longrightarrow> a @ c # b = a' @ c # b' \<longleftrightarrow> a = a' \<and> b = b'"
proof
  assume c: "c \<notin> set a" "c \<notin> set a'" and e: "a @ c # b = a' @ c # b'"
  have "a # qsplit c b = a' # qsplit c b'" using arg_cong [OF e, of "qsplit c"] by (simp add: qsplit_append_sep c)
  then show "a = a' \<and> b = b'" using e by simp
qed simp

lemma show_int_inj: "show_int m = show_int n \<longleftrightarrow> m = n"
proof -
  have minus: "show_nat a \<noteq> CHR ''-'' # s" for a s using show_nat_digits [of "CHR ''-''" a] by (auto simp: is_digit_def)
  show ?thesis by (cases "m < 0"; cases "n < 0") (auto simp: show_int_def minus minus [symmetric])
qed

end
