(* ===== verification/GroupProxy.thy ===== *)
theory GroupProxy
  imports AgentServices QtText
begin

text \<open>
  \<open>ui/ConnectionGroupProxy.cpp\<close>: the tree of groups over the flat table of connections. Groups hold row numbers of the
  source, a reverse index finds the group of a row, and the view's persistent indexes are remapped when the order changes.

  The source model is the list of its rows; what its own sorting does to it is an argument of the operations that call
  it. Model indexes have natural rows and columns, and the internal id of a child is its group's number. What
  \<open>QAbstractItemModel\<close> does to persistent indexes when rows are inserted and removed is written out. The
  notifications themselves, display texts of numbers, fonts, and the removal span that is stored and cleared again are not
  part of the model.
\<close>

section \<open>Data\<close>

datatype Column = ColIface | ColFlow | ColRxRate | ColTxRate | ColRxTotal | ColTxTotal | ColRxMax | ColTxMax | ColProcess | ColContainer

datatype ViewMode = Flat | ByInterface | ByContainer | ByProcess

datatype SortKey = KNum real | KStr string

record SrcRow =
  sr_conn :: Connection
  sr_rxRate :: real
  sr_txRate :: real
  sr_sort :: "Column \<Rightarrow> SortKey"

record Group =
  gr_key :: string
  gr_label :: string
  gr_srcRows :: "nat list"

text \<open>No id is \<open>kTopLevelId\<close>.\<close>

record ModelIndex =
  mi_row :: nat
  mi_col :: nat
  mi_id :: "nat option"

record GroupProxy =
  gp_src :: "SrcRow list option"
  gp_mode :: ViewMode
  gp_groups :: "Group list"
  gp_srcIndex :: "(nat, nat \<times> nat) qhash"
  gp_sortColumn :: "Column option"
  gp_ascending :: bool
  gp_sortWithinGroups :: bool
  gp_showGroupDetails :: bool
  gp_persistent :: "ModelIndex option list"

definition mk_GroupProxy :: GroupProxy where
  "mk_GroupProxy = \<lparr>gp_src = None, gp_mode = Flat, gp_groups = [], gp_srcIndex = [], gp_sortColumn = None, gp_ascending = True,
     gp_sortWithinGroups = True, gp_showGroupDetails = True, gp_persistent = []\<rparr>"

section \<open>Keys and labels\<close>

definition groupKeyFor :: "ViewMode \<Rightarrow> Connection \<Rightarrow> string" where
  "groupKeyFor mode c =
     (case mode of
        Flat \<Rightarrow> []
      | ByInterface \<Rightarrow> if c_iface c = [] then ''(unattributed)'' else c_iface c
      | ByContainer \<Rightarrow>
          if ct_id (c_container c) \<noteq> [] then ct_runtime (c_container c) @ ''/'' @ ct_id (c_container c)
          else if ct_name (c_container c) \<noteq> [] then ct_runtime (c_container c) @ ''/'' @ ct_name (c_container c)
          else ''(host)''
      | ByProcess \<Rightarrow>
          if 0 < pi_pid (c_process c) then qarg (qarg ''%1/%2'' (show_int (pi_pid (c_process c)))) (pi_comm (c_process c))
          else ''(unattributed)'')"

definition groupLabelFor :: "ViewMode \<Rightarrow> Connection \<Rightarrow> string" where
  "groupLabelFor mode c =
     (case mode of
        Flat \<Rightarrow> []
      | ByInterface \<Rightarrow> if c_iface c = [] then ''(unattributed)'' else c_iface c
      | ByContainer \<Rightarrow>
          if ct_id (c_container c) = [] \<and> ct_name (c_container c) = [] then ''(host)''
          else
            (let display = (if ct_name (c_container c) \<noteq> [] then ct_name (c_container c) else take 12 (ct_id (c_container c)))
             in if ct_runtime (c_container c) = [] then display else ct_runtime (c_container c) @ '': '' @ display)
      | ByProcess \<Rightarrow>
          if 0 < pi_pid (c_process c) then
            (let name = (if pi_comm (c_process c) = [] then ''pid '' @ show_int (pi_pid (c_process c)) else pi_comm (c_process c))
             in qarg (qarg ''%1  [pid %2]'' name) (show_int (pi_pid (c_process c))))
          else ''(unattributed)'')"

section \<open>Sorting\<close>

text \<open>\<open>QVariant::compare\<close>: numbers by value, strings by their characters, mixed operands are unordered.\<close>

fun key_less :: "SortKey \<Rightarrow> SortKey \<Rightarrow> bool" where
  "key_less (KNum a) (KNum b) = (a < b)"
| "key_less (KStr a) (KStr b) = str_less a b"
| "key_less _ _ = False"

definition cmpVariant :: "bool \<Rightarrow> SortKey \<Rightarrow> SortKey \<Rightarrow> bool" where
  "cmpVariant ascending a b = (if a = b then False else if ascending then key_less a b else \<not> key_less a b)"

text \<open>\<open>std::sort\<close> leaves the order of equal elements open; the model keeps it (\<open>sort_by\<close>).\<close>

definition sum_rate :: "(SrcRow \<Rightarrow> real) \<Rightarrow> SrcRow list \<Rightarrow> Group \<Rightarrow> real" where
  "sum_rate f src g = sum_list (map (\<lambda>r. f (src ! r)) (gr_srcRows g))"

definition sum_bytes :: "(Connection \<Rightarrow> quint64) \<Rightarrow> SrcRow list \<Rightarrow> Group \<Rightarrow> quint64" where
  "sum_bytes f src g = sum_list (map (\<lambda>r. f (sr_conn (src ! r))) (gr_srcRows g))"

definition key_number :: "SortKey \<Rightarrow> real" where
  "key_number k = (case k of KNum x \<Rightarrow> x | KStr _ \<Rightarrow> 0)"

text \<open>\<open>aggregateData\<close> for the sort role.\<close>

definition aggregate_sort :: "SrcRow list \<Rightarrow> Group \<Rightarrow> Column \<Rightarrow> SortKey" where
  "aggregate_sort src g col =
     (case col of
        ColIface \<Rightarrow> KStr (gr_label g)
      | ColFlow \<Rightarrow> KNum (real (length (gr_srcRows g)))
      | ColRxRate \<Rightarrow> KNum (sum_rate sr_rxRate src g)
      | ColTxRate \<Rightarrow> KNum (sum_rate sr_txRate src g)
      | ColRxTotal \<Rightarrow> KNum (real (unat (sum_bytes c_rxBytes src g)))
      | ColTxTotal \<Rightarrow> KNum (real (unat (sum_bytes c_txBytes src g)))
      | ColRxMax \<Rightarrow> KNum (sum_rate (\<lambda>r. key_number (sr_sort r ColRxMax)) src g)
      | ColTxMax \<Rightarrow> KNum (sum_rate (\<lambda>r. key_number (sr_sort r ColTxMax)) src g)
      | ColProcess \<Rightarrow> KStr []
      | ColContainer \<Rightarrow> KStr [])"

definition sortGroups :: "SrcRow list \<Rightarrow> Column \<Rightarrow> GroupProxy \<Rightarrow> Group list \<Rightarrow> Group list" where
  "sortGroups src col s groups =
     (let groups = map (\<lambda>g. g\<lparr>gr_srcRows := sort_by (\<lambda>l r. cmpVariant (gp_ascending s) (sr_sort (src ! l) col) (sr_sort (src ! r) col)) (gr_srcRows g)\<rparr>) groups
      in if gp_sortWithinGroups s then groups
         else sort_by (\<lambda>l r. cmpVariant (gp_ascending s) (aggregate_sort src l col) (aggregate_sort src r col)) groups)"

section \<open>The reverse index and the groups\<close>

definition refreshSrcIndex :: "GroupProxy \<Rightarrow> GroupProxy" where
  "refreshSrcIndex s = s\<lparr>gp_srcIndex :=
     (if gp_mode s = Flat then []
      else fold (\<lambda>(gi, g) m. fold (\<lambda>(childRow, r) m. hinsert r (gi, childRow) m) (enumerate 0 (gr_srcRows g)) m) (enumerate 0 (gp_groups s)) [])\<rparr>"

definition applyCurrentSort :: "GroupProxy \<Rightarrow> GroupProxy" where
  "applyCurrentSort s =
     (case (gp_sortColumn s, gp_src s) of
        (Some col, Some src) \<Rightarrow>
          if gp_mode s = Flat \<or> gp_groups s = [] then s else s\<lparr>gp_groups := sortGroups src col s (gp_groups s)\<rparr>
      | _ \<Rightarrow> s)"

definition append_row :: "nat \<Rightarrow> nat \<Rightarrow> Group list \<Rightarrow> Group list" where
  "append_row i r groups = groups[i := (groups ! i)\<lparr>gr_srcRows := gr_srcRows (groups ! i) @ [r]\<rparr>]"

definition rebuild_row :: "ViewMode \<Rightarrow> SrcRow list \<Rightarrow> nat \<Rightarrow> Group list \<times> (string, nat) qhash \<Rightarrow> Group list \<times> (string, nat) qhash" where
  "rebuild_row mode src r x =
     (let (groups, keyToIdx) = x; c = sr_conn (src ! r); key = groupKeyFor mode c in
      case hfind keyToIdx key of
        Some idx \<Rightarrow> (append_row idx r groups, keyToIdx)
      | None \<Rightarrow>
          (append_row (length groups) r (groups @ [\<lparr>gr_key = key, gr_label = groupLabelFor mode c, gr_srcRows = []\<rparr>]),
           hinsert key (length groups) keyToIdx))"

definition rebuild :: "GroupProxy \<Rightarrow> GroupProxy" where
  "rebuild s =
     (let s = s\<lparr>gp_groups := [], gp_srcIndex := []\<rparr> in
      case gp_src s of
        None \<Rightarrow> s
      | Some src \<Rightarrow>
          if gp_mode s = Flat then s
          else
            (let (groups, _) = fold (rebuild_row (gp_mode s) src) [0..<length src] ([], [])
             in refreshSrcIndex (applyCurrentSort (s\<lparr>gp_groups := groups\<rparr>))))"

text \<open>A model reset invalidates all persistent indexes.\<close>

definition onSourceReset :: "SrcRow list \<Rightarrow> GroupProxy \<Rightarrow> GroupProxy" where
  "onSourceReset src s = (rebuild (s\<lparr>gp_src := Some src\<rparr>))\<lparr>gp_persistent := map (\<lambda>_. None) (gp_persistent s)\<rparr>"

text \<open>The source changed its layout on its own: forwarded in flat mode, a reset otherwise.\<close>

definition onSourceLayoutChanged :: "SrcRow list \<Rightarrow> GroupProxy \<Rightarrow> GroupProxy" where
  "onSourceLayoutChanged src s = (if gp_mode s = Flat then s\<lparr>gp_src := Some src\<rparr> else onSourceReset src s)"

definition setSourceModel :: "SrcRow list option \<Rightarrow> GroupProxy \<Rightarrow> GroupProxy" where
  "setSourceModel src s = (rebuild (s\<lparr>gp_src := src\<rparr>))\<lparr>gp_persistent := map (\<lambda>_. None) (gp_persistent s)\<rparr>"

text \<open>\<open>src'\<close> is the source after it was told to sort by our column, or not to sort.\<close>

definition setViewMode :: "ViewMode \<Rightarrow> SrcRow list option \<Rightarrow> GroupProxy \<Rightarrow> GroupProxy" where
  "setViewMode mode src' s =
     (if mode = gp_mode s then s
      else (rebuild (s\<lparr>gp_mode := mode, gp_src := src'\<rparr>))\<lparr>gp_persistent := map (\<lambda>_. None) (gp_persistent s)\<rparr>)"

section \<open>Persistent indexes\<close>

text \<open>\<open>endInsertRows\<close> and \<open>endRemoveRows\<close> for one row below the group \<open>gi\<close>, and for one group. A child
  of another group keeps its internal id.\<close>

definition map_persistent :: "(ModelIndex \<Rightarrow> ModelIndex option) \<Rightarrow> GroupProxy \<Rightarrow> GroupProxy" where
  "map_persistent f s = s\<lparr>gp_persistent := map (\<lambda>p. case p of None \<Rightarrow> None | Some i \<Rightarrow> f i) (gp_persistent s)\<rparr>"

definition qt_child_inserted :: "nat \<Rightarrow> nat \<Rightarrow> GroupProxy \<Rightarrow> GroupProxy" where
  "qt_child_inserted gi row =
     map_persistent (\<lambda>i. Some (if mi_id i = Some gi \<and> row \<le> mi_row i then i\<lparr>mi_row := mi_row i + 1\<rparr> else i))"

definition qt_group_inserted :: "nat \<Rightarrow> GroupProxy \<Rightarrow> GroupProxy" where
  "qt_group_inserted row =
     map_persistent (\<lambda>i. Some (if mi_id i = None \<and> row \<le> mi_row i then i\<lparr>mi_row := mi_row i + 1\<rparr> else i))"

definition qt_child_removed :: "nat \<Rightarrow> nat \<Rightarrow> GroupProxy \<Rightarrow> GroupProxy" where
  "qt_child_removed gi row =
     map_persistent (\<lambda>i. if mi_id i \<noteq> Some gi then Some i
       else if mi_row i = row then None else if row < mi_row i then Some (i\<lparr>mi_row := mi_row i - 1\<rparr>) else Some i)"

definition qt_group_removed :: "nat \<Rightarrow> GroupProxy \<Rightarrow> GroupProxy" where
  "qt_group_removed row =
     map_persistent (\<lambda>i. if mi_id i = None
       then (if mi_row i = row then None else if row < mi_row i then Some (i\<lparr>mi_row := mi_row i - 1\<rparr>) else Some i)
       else if mi_id i = Some row then None else Some i)"

text \<open>What a persistent index stands for, taken before the groups are reordered, and where that is afterwards.\<close>

record Identity =
  id_key :: string
  id_srcRow :: "nat option"
  id_col :: nat

definition identity_of :: "Group list \<Rightarrow> ModelIndex \<Rightarrow> Identity" where
  "identity_of groups p =
     (case mi_id p of
        None \<Rightarrow> if mi_row p < length groups then \<lparr>id_key = gr_key (groups ! mi_row p), id_srcRow = None, id_col = mi_col p\<rparr>
                else \<lparr>id_key = [], id_srcRow = None, id_col = mi_col p\<rparr>
      | Some gi \<Rightarrow>
          if gi < length groups \<and> mi_row p < length (gr_srcRows (groups ! gi))
          then \<lparr>id_key = gr_key (groups ! gi), id_srcRow = Some (gr_srcRows (groups ! gi) ! mi_row p), id_col = mi_col p\<rparr>
          else \<lparr>id_key = [], id_srcRow = None, id_col = mi_col p\<rparr>)"

definition key_index :: "Group list \<Rightarrow> (string, nat) qhash" where
  "key_index groups = fold (\<lambda>(gi, g) m. hinsert (gr_key g) gi m) (enumerate 0 groups) []"

definition locate :: "(string, nat) qhash \<Rightarrow> (nat, nat \<times> nat) qhash \<Rightarrow> Identity \<Rightarrow> ModelIndex option" where
  "locate keyToIdx srcIndex ident =
     (if id_key ident = [] then None
      else
        (case hfind keyToIdx (id_key ident) of
           None \<Rightarrow> None
         | Some gi \<Rightarrow>
             (case id_srcRow ident of
                None \<Rightarrow> Some \<lparr>mi_row = gi, mi_col = id_col ident, mi_id = None\<rparr>
              | Some r \<Rightarrow>
                  (case hfind srcIndex r of
                     Some (g, childRow) \<Rightarrow> Some \<lparr>mi_row = childRow, mi_col = id_col ident, mi_id = Some g\<rparr>
                   | None \<Rightarrow> None))))"

definition resortGroupsPreservingIndexes :: "GroupProxy \<Rightarrow> GroupProxy" where
  "resortGroupsPreservingIndexes s =
     (case (gp_sortColumn s, gp_src s) of
        (Some col, Some src) \<Rightarrow>
          if gp_mode s = Flat \<or> gp_groups s = [] then s
          else
            (let sorted = sortGroups src col s (gp_groups s) in
             if list_all2 (\<lambda>a b. gr_key a = gr_key b \<and> gr_srcRows a = gr_srcRows b) sorted (gp_groups s) then s
             else
               (let idents = map (map_option (identity_of (gp_groups s))) (gp_persistent s);
                    s = refreshSrcIndex (s\<lparr>gp_groups := sorted\<rparr>);
                    keyToIdx = key_index (gp_groups s)
                in s\<lparr>gp_persistent := map (\<lambda>x. case x of None \<Rightarrow> None | Some ident \<Rightarrow> locate keyToIdx (gp_srcIndex s) ident) idents\<rparr>))
      | _ \<Rightarrow> s)"

section \<open>Changes of the source\<close>

primrec find_group :: "string \<Rightarrow> Group list \<Rightarrow> nat option" where
  "find_group key [] = None"
| "find_group key (g # gs) = (if gr_key g = key then Some 0 else map_option Suc (find_group key gs))"

text \<open>A row joins the group of its key, which is created at the end when it is missing.\<close>

definition join_group :: "SrcRow list \<Rightarrow> nat \<Rightarrow> GroupProxy \<Rightarrow> GroupProxy" where
  "join_group src srcRow s =
     (let c = sr_conn (src ! srcRow); key = groupKeyFor (gp_mode s) c in
      case find_group key (gp_groups s) of
        Some gi \<Rightarrow> qt_child_inserted gi (length (gr_srcRows (gp_groups s ! gi))) (s\<lparr>gp_groups := append_row gi srcRow (gp_groups s)\<rparr>)
      | None \<Rightarrow> qt_group_inserted (length (gp_groups s))
          (s\<lparr>gp_groups := gp_groups s @ [\<lparr>gr_key = key, gr_label = groupLabelFor (gp_mode s) c, gr_srcRows = [srcRow]\<rparr>]\<rparr>))"

definition shift_rows :: "(nat \<Rightarrow> nat) \<Rightarrow> Group list \<Rightarrow> Group list" where
  "shift_rows f groups = map (\<lambda>g. g\<lparr>gr_srcRows := map f (gr_srcRows g)\<rparr>) groups"

text \<open>\<open>src\<close> is the source with the rows \<open>first\<close> to \<open>lastRow\<close> inserted. In flat mode Qt moves the indexes itself.\<close>

definition qt_flat_inserted :: "nat \<Rightarrow> nat \<Rightarrow> GroupProxy \<Rightarrow> GroupProxy" where
  "qt_flat_inserted first n = map_persistent (\<lambda>i. Some (if first \<le> mi_row i then i\<lparr>mi_row := mi_row i + n\<rparr> else i))"

definition onSourceRowsInserted :: "SrcRow list \<Rightarrow> nat \<Rightarrow> nat \<Rightarrow> GroupProxy \<Rightarrow> GroupProxy" where
  "onSourceRowsInserted src first lastRow s =
     (let s = s\<lparr>gp_src := Some src\<rparr> in
      if gp_mode s = Flat then qt_flat_inserted first (lastRow + 1 - first) s
      else
        (let s = s\<lparr>gp_groups := shift_rows (\<lambda>r. if first \<le> r then r + (lastRow + 1 - first) else r) (gp_groups s)\<rparr>;
             s = fold (join_group src) [first..<lastRow + 1] s
         in resortGroupsPreservingIndexes (refreshSrcIndex s)))"

primrec index_of_row :: "nat \<Rightarrow> nat list \<Rightarrow> nat option" where
  "index_of_row r [] = None"
| "index_of_row r (x # xs) = (if x = r then Some 0 else map_option Suc (index_of_row r xs))"

primrec find_row :: "nat \<Rightarrow> Group list \<Rightarrow> (nat \<times> nat) option" where
  "find_row r [] = None"
| "find_row r (g # gs) =
     (case index_of_row r (gr_srcRows g) of
        Some childRow \<Rightarrow> Some (0, childRow)
      | None \<Rightarrow> map_option (\<lambda>(gi, childRow). (Suc gi, childRow)) (find_row r gs))"

definition drop_child :: "nat \<Rightarrow> nat \<Rightarrow> GroupProxy \<Rightarrow> GroupProxy" where
  "drop_child gi childRow s = qt_child_removed gi childRow
     (s\<lparr>gp_groups := (gp_groups s)[gi := (gp_groups s ! gi)\<lparr>gr_srcRows := remove_at childRow (gr_srcRows (gp_groups s ! gi))\<rparr>]\<rparr>)"

definition drop_group :: "nat \<Rightarrow> GroupProxy \<Rightarrow> GroupProxy" where
  "drop_group gi s = qt_group_removed gi (s\<lparr>gp_groups := remove_at gi (gp_groups s)\<rparr>)"

definition removed_row :: "nat \<Rightarrow> GroupProxy \<times> nat list \<Rightarrow> GroupProxy \<times> nat list" where
  "removed_row srcRow x =
     (let (s, emptied) = x in
      case find_row srcRow (gp_groups s) of
        None \<Rightarrow> x
      | Some (gi, childRow) \<Rightarrow>
          (let s = drop_child gi childRow s
           in (s, if gr_srcRows (gp_groups s ! gi) = [] \<and> gi \<notin> set emptied then emptied @ [gi] else emptied)))"

definition qt_flat_removed :: "nat \<Rightarrow> nat \<Rightarrow> GroupProxy \<Rightarrow> GroupProxy" where
  "qt_flat_removed first n = map_persistent (\<lambda>i. if mi_row i < first then Some i
     else if mi_row i < first + n then None else Some (i\<lparr>mi_row := mi_row i - n\<rparr>))"

definition onSourceRowsRemoved :: "SrcRow list \<Rightarrow> nat \<Rightarrow> nat \<Rightarrow> GroupProxy \<Rightarrow> GroupProxy" where
  "onSourceRowsRemoved src first lastRow s =
     (let s = s\<lparr>gp_src := Some src\<rparr> in
      if gp_mode s = Flat then qt_flat_removed first (lastRow + 1 - first) s
      else
        (let (s, emptied) = fold removed_row [first..<lastRow + 1] (s, []);
             s = s\<lparr>gp_groups := shift_rows (\<lambda>r. if lastRow < r then r - (lastRow + 1 - first) else r) (gp_groups s)\<rparr>;
             s = fold drop_group (rev (sort emptied)) s
         in resortGroupsPreservingIndexes (refreshSrcIndex s)))"

text \<open>Whether the row moved, and the state.\<close>

definition regroupSourceRow :: "SrcRow list \<Rightarrow> nat \<Rightarrow> GroupProxy \<Rightarrow> bool \<times> GroupProxy" where
  "regroupSourceRow src srcRow s =
     (let c = sr_conn (src ! srcRow); newKey = groupKeyFor (gp_mode s) c;
          cur = (case hfind (gp_srcIndex s) srcRow of
                   Some (gi, childRow) \<Rightarrow> if gi < length (gp_groups s) then Some (gi, childRow) else None
                 | None \<Rightarrow> None)
      in case cur of
           Some (curGi, childRow) \<Rightarrow>
             if gr_key (gp_groups s ! curGi) = newKey then
               (False, s\<lparr>gp_groups := (gp_groups s)[curGi := (gp_groups s ! curGi)\<lparr>gr_label := groupLabelFor (gp_mode s) c\<rparr>]\<rparr>)
             else
               (let s = drop_child curGi childRow s;
                    s = (if gr_srcRows (gp_groups s ! curGi) = [] then drop_group curGi s else s)
                in (True, refreshSrcIndex (join_group src srcRow s)))
         | None \<Rightarrow> (True, refreshSrcIndex (join_group src srcRow s)))"

definition regroup_rows :: "SrcRow list \<Rightarrow> nat list \<Rightarrow> bool \<times> GroupProxy \<Rightarrow> bool \<times> GroupProxy" where
  "regroup_rows src rows x = fold (\<lambda>row (moved, s). let (m, s) = regroupSourceRow src row s in (m \<or> moved, s)) rows x"

text \<open>\<open>keyRole\<close>: the changed roles are unspecified or include the connection itself.\<close>

definition onSourceDataChanged :: "SrcRow list \<Rightarrow> nat \<Rightarrow> nat \<Rightarrow> bool \<Rightarrow> GroupProxy \<Rightarrow> GroupProxy" where
  "onSourceDataChanged src firstRow lastRow keyRole s =
     (let s = s\<lparr>gp_src := Some src\<rparr> in
      if gp_mode s = Flat \<or> \<not> keyRole then s
      else
        (let (moved, s) = regroup_rows src [firstRow..<lastRow + 1] (False, s)
         in if moved then resortGroupsPreservingIndexes s else s))"

section \<open>The view's side\<close>

text \<open>In flat mode the source sorts: \<open>perm\<close> says where each of its rows went.\<close>

definition gp_sort :: "Column option \<Rightarrow> bool \<Rightarrow> SrcRow list \<Rightarrow> (nat \<Rightarrow> nat option) \<Rightarrow> GroupProxy \<Rightarrow> GroupProxy" where
  "gp_sort column ascending src' perm s =
     (let s = s\<lparr>gp_sortColumn := column, gp_ascending := ascending\<rparr> in
      if gp_src s = None then s
      else if gp_mode s = Flat then
        map_persistent (\<lambda>i. map_option (\<lambda>r. \<lparr>mi_row = r, mi_col = mi_col i, mi_id = None\<rparr>) (perm (mi_row i))) (s\<lparr>gp_src := Some src'\<rparr>)
      else resortGroupsPreservingIndexes s)"

definition setSortWithinGroups :: "bool \<Rightarrow> GroupProxy \<Rightarrow> GroupProxy" where
  "setSortWithinGroups on s =
     (if gp_sortWithinGroups s = on then s else resortGroupsPreservingIndexes (s\<lparr>gp_sortWithinGroups := on\<rparr>))"

definition setShowGroupDetails :: "bool \<Rightarrow> GroupProxy \<Rightarrow> GroupProxy" where
  "setShowGroupDetails on s = s\<lparr>gp_showGroupDetails := on\<rparr>"

definition isGroupIndex :: "GroupProxy \<Rightarrow> ModelIndex option \<Rightarrow> bool" where
  "isGroupIndex s idx = (case idx of None \<Rightarrow> False | Some i \<Rightarrow> gp_mode s \<noteq> Flat \<and> mi_id i = None)"

text \<open>Row and column in the source.\<close>

definition src_index :: "GroupProxy \<Rightarrow> nat \<Rightarrow> nat \<Rightarrow> (nat \<times> nat) option" where
  "src_index s row col = (case gp_src s of None \<Rightarrow> None | Some src \<Rightarrow> if row < length src then Some (row, col) else None)"

definition mapToSource :: "GroupProxy \<Rightarrow> ModelIndex option \<Rightarrow> (nat \<times> nat) option" where
  "mapToSource s proxy =
     (case (proxy, gp_src s) of
        (Some p, Some src) \<Rightarrow>
          if gp_mode s = Flat then src_index s (mi_row p) (mi_col p)
          else
            (case mi_id p of
               None \<Rightarrow> None
             | Some gi \<Rightarrow>
                 if gi < length (gp_groups s) \<and> mi_row p < length (gr_srcRows (gp_groups s ! gi))
                 then src_index s (gr_srcRows (gp_groups s ! gi) ! mi_row p) (mi_col p) else None)
      | _ \<Rightarrow> None)"

definition gp_index :: "GroupProxy \<Rightarrow> nat \<Rightarrow> nat \<Rightarrow> ModelIndex option \<Rightarrow> ModelIndex option" where
  "gp_index s row col parent =
     (if gp_mode s = Flat then
        (case (parent, gp_src s) of
           (None, Some src) \<Rightarrow> if row < length src then Some \<lparr>mi_row = row, mi_col = col, mi_id = None\<rparr> else None
         | _ \<Rightarrow> None)
      else
        (case parent of
           None \<Rightarrow> if row < length (gp_groups s) then Some \<lparr>mi_row = row, mi_col = col, mi_id = None\<rparr> else None
         | Some p \<Rightarrow>
             if mi_id p \<noteq> None then None
             else if mi_row p < length (gp_groups s) \<and> row < length (gr_srcRows (gp_groups s ! mi_row p))
             then Some \<lparr>mi_row = row, mi_col = col, mi_id = Some (mi_row p)\<rparr> else None))"

definition mapFromSource :: "GroupProxy \<Rightarrow> nat \<Rightarrow> nat \<Rightarrow> ModelIndex option" where
  "mapFromSource s row col =
     (if gp_mode s = Flat then gp_index s row col None
      else
        (case hfind (gp_srcIndex s) row of
           None \<Rightarrow> None
         | Some (gi, childRow) \<Rightarrow> Some \<lparr>mi_row = childRow, mi_col = col, mi_id = Some gi\<rparr>))"

definition gp_parent :: "GroupProxy \<Rightarrow> ModelIndex option \<Rightarrow> ModelIndex option" where
  "gp_parent s child =
     (case child of
        None \<Rightarrow> None
      | Some c \<Rightarrow> if gp_mode s = Flat then None else map_option (\<lambda>gi. \<lparr>mi_row = gi, mi_col = 0, mi_id = None\<rparr>) (mi_id c))"

definition gp_rowCount :: "GroupProxy \<Rightarrow> ModelIndex option \<Rightarrow> nat" where
  "gp_rowCount s parent =
     (if gp_mode s = Flat then
        (case (parent, gp_src s) of (None, Some src) \<Rightarrow> length src | _ \<Rightarrow> 0)
      else
        (case parent of
           None \<Rightarrow> length (gp_groups s)
         | Some p \<Rightarrow>
             if mi_id p \<noteq> None then 0
             else if mi_row p < length (gp_groups s) then length (gr_srcRows (gp_groups s ! mi_row p)) else 0))"

definition representativePid :: "GroupProxy \<Rightarrow> ModelIndex option \<Rightarrow> int" where
  "representativePid s groupIdx =
     (case (groupIdx, gp_src s) of
        (Some p, Some src) \<Rightarrow>
          if gp_mode s \<noteq> ByProcess \<or> mi_id p \<noteq> None \<or> \<not> mi_row p < length (gp_groups s) then 0
          else (case gr_srcRows (gp_groups s ! mi_row p) of [] \<Rightarrow> 0 | r # _ \<Rightarrow> pi_pid (c_process (sr_conn (src ! r))))
      | _ \<Rightarrow> 0)"

end
