(* ===== verification/GroupProxyFacts.thy ===== *)
theory GroupProxyFacts
  imports GroupProxy
begin

text \<open>
  The tree of groups is exact: whatever the source does, every row of it is in one group, the one of its key, and the
  reverse index finds it. Sorting moves the view's persistent indexes along; removing a group leaves some of them stale.
\<close>

section \<open>Partition of the rows\<close>

text \<open>The groups split the rows \<open>R\<close> by their keys. Groups may be empty in between.\<close>

definition part_weak :: "nat set \<Rightarrow> (nat \<Rightarrow> string) \<Rightarrow> Group list \<Rightarrow> bool" where
  "part_weak R keyf gs =
     (distinct (map gr_key gs) \<and>
      (\<forall>g \<in> set gs. distinct (gr_srcRows g) \<and> set (gr_srcRows g) = {r \<in> R. keyf r = gr_key g}) \<and>
      keyf ` R \<subseteq> gr_key ` set gs)"

definition no_empty :: "Group list \<Rightarrow> bool" where
  "no_empty gs = (\<forall>g \<in> set gs. gr_srcRows g \<noteq> [])"

definition index_ok :: "Group list \<Rightarrow> (nat, nat \<times> nat) qhash \<Rightarrow> bool" where
  "index_ok gs m = (\<forall>r gi ci. hfind m r = Some (gi, ci) \<longleftrightarrow> gi < length gs \<and> ci < length (gr_srcRows (gs ! gi)) \<and> gr_srcRows (gs ! gi) ! ci = r)"

text \<open>What matters of a group for the partition.\<close>

definition shape :: "Group \<Rightarrow> string \<times> nat multiset" where
  "shape g = (gr_key g, mset (gr_srcRows g))"

lemma part_weak_shape:
  assumes "mset (map shape gs') = mset (map shape gs)" and "part_weak R keyf gs"
  shows "part_weak R keyf gs'"
proof -
  have keys: "mset (map gr_key gs') = mset (map gr_key gs)"
    using arg_cong [OF assms(1), of "image_mset fst"] by (simp add: image_mset.compositionality comp_def) (simp add: shape_def)
  have set: "shape ` set gs' = shape ` set gs" using arg_cong [OF assms(1), of set_mset] by simp
  have "distinct (gr_srcRows g) \<and> set (gr_srcRows g) = {r \<in> R. keyf r = gr_key g}" if "g \<in> set gs'" for g
  proof -
    have "shape g \<in> shape ` set gs" using that set by blast
    then obtain h where "h \<in> set gs" "shape g = shape h" by blast
    then have h: "h \<in> set gs" "gr_key h = gr_key g" "mset (gr_srcRows h) = mset (gr_srcRows g)" by (simp_all add: shape_def)
    have "distinct (gr_srcRows h)" "set (gr_srcRows h) = {r \<in> R. keyf r = gr_key h}" using assms(2) h(1) by (auto simp: part_weak_def)
    then show ?thesis using mset_eq_imp_distinct_iff [OF h(3)] mset_eq_setD [OF h(3)] h(2) by simp
  qed
  moreover have "gr_key ` set gs' = gr_key ` set gs" using arg_cong [OF keys, of set_mset] by simp
  moreover have "distinct (map gr_key gs')" using assms(2) mset_eq_imp_distinct_iff [OF keys] by (simp add: part_weak_def)
  ultimately show ?thesis using assms(2) by (simp add: part_weak_def)
qed

lemma no_empty_shape:
  assumes "mset (map shape gs') = mset (map shape gs)" and "no_empty gs"
  shows "no_empty gs'"
proof -
  have set: "shape ` set gs' = shape ` set gs" using arg_cong [OF assms(1), of set_mset] by simp
  have e: "no_empty xs \<longleftrightarrow> {#} \<notin> snd ` shape ` set xs" for xs by (auto simp: no_empty_def shape_def image_iff)
  show ?thesis using assms(2) unfolding e set .
qed

lemma part_weak_rows_inj:
  assumes "part_weak R keyf gs" and "i < length gs" and "j < length gs" and "r \<in> set (gr_srcRows (gs ! i))" and "r \<in> set (gr_srcRows (gs ! j))"
  shows "i = j"
proof -
  have "gr_key (gs ! i) = gr_key (gs ! j)" using assms by (auto simp: part_weak_def)
  then show ?thesis using assms(1-3) by (auto simp: part_weak_def distinct_conv_nth)
qed

section \<open>Sorting and indexing\<close>

lemma sortGroups_shape: "mset (map shape (sortGroups src col s gs)) = mset (map shape gs)"
proof -
  have m: "mset (map f (sort_by lt xs)) = mset (map f xs)" for f :: "Group \<Rightarrow> string \<times> nat multiset" and lt xs
    by (simp only: mset_map mset_sort_by)
  have "map shape (map (\<lambda>g. g\<lparr>gr_srcRows := sort_by lt (gr_srcRows g)\<rparr>) gs) = map shape gs" for lt
    by (simp add: shape_def)
  then show ?thesis unfolding sortGroups_def Let_def by (simp only: m if_distrib [of "map shape"] split: if_split) auto
qed

lemma fold_hinsert_find:
  "distinct (map fst L) \<Longrightarrow> hfind (fold (\<lambda>(k, v). hinsert k v) L []) k = Some v \<longleftrightarrow> (k, v) \<in> set L"
proof (induction L rule: rev_induct)
  case (snoc x L)
  obtain a b where x: "x = (a, b)" by fastforce
  have "(a, v) \<notin> set L" for v using snoc.prems by (force simp: x)
  then show ?case using snoc by (auto simp: x hfind_insert)
qed simp

definition all_rows :: "Group list \<Rightarrow> (nat \<times> nat \<times> nat) list" where
  "all_rows gs = concat (map (\<lambda>(gi, g). map (\<lambda>(ci, r). (r, gi, ci)) (enumerate 0 (gr_srcRows g))) (enumerate 0 gs))"

lemma refresh_fold:
  fixes xs :: "('a \<times> Group) list"
  shows "fold (\<lambda>(gi, g) m. fold (\<lambda>(ci, r) m. hinsert r (gi, ci) m) (enumerate 0 (gr_srcRows g)) m) xs m =
   fold (\<lambda>(k, v). hinsert k v) (concat (map (\<lambda>(gi, g). map (\<lambda>(ci, r). (r, gi, ci)) (enumerate 0 (gr_srcRows g))) xs)) m"
proof (induction xs arbitrary: m)
  case (Cons x xs)
  have inner: "fold (\<lambda>(ci, r) m. hinsert r (gi, ci) m) ys m = fold (\<lambda>(k, v). hinsert k v) (map (\<lambda>(ci, r). (r, gi, ci)) ys) m"
    for gi :: 'a and ys :: "(nat \<times> nat) list" and m by (induction ys arbitrary: m) auto
  obtain gi g where x: "x = (gi, g)" by fastforce
  show ?case unfolding x list.map concat.simps fold_append fold_simps comp_apply prod.case Cons unfolding inner ..
qed simp

lemma all_rows_mem: "(r, gi, ci) \<in> set (all_rows gs) \<longleftrightarrow> gi < length gs \<and> ci < length (gr_srcRows (gs ! gi)) \<and> gr_srcRows (gs ! gi) ! ci = r"
proof
  assume "gi < length gs \<and> ci < length (gr_srcRows (gs ! gi)) \<and> gr_srcRows (gs ! gi) ! ci = r"
  then have "(gi, gs ! gi) \<in> set (enumerate 0 gs)" "(ci, r) \<in> set (enumerate 0 (gr_srcRows (gs ! gi)))"
    by (auto simp: in_set_enumerate_eq)
  then show "(r, gi, ci) \<in> set (all_rows gs)" unfolding all_rows_def by fastforce
qed (auto simp: all_rows_def in_set_enumerate_eq)

lemma all_rows_keys: "map fst (all_rows gs) = concat (map gr_srcRows gs)"
proof -
  have "map fst (concat (map (\<lambda>(gi, g). map (\<lambda>(ci, r). (r, gi, ci)) (enumerate 0 (gr_srcRows g))) (enumerate n gs))) = concat (map gr_srcRows gs)" for n
  proof (induction gs arbitrary: n)
    case (Cons g gs)
    have "map fst (map (\<lambda>(ci, r). (r, n, ci)) (enumerate 0 rs)) = rs" for rs :: "nat list"
      by (simp add: comp_def case_prod_beta)
    then show ?case using Cons by simp
  qed simp
  then show ?thesis by (simp add: all_rows_def)
qed

lemma part_weak_distinct_rows:
  assumes "part_weak R keyf gs"
  shows "distinct (concat (map gr_srcRows gs))"
proof -
  have d: "distinct (map gr_key hs) \<Longrightarrow> \<forall>g \<in> set hs. distinct (gr_srcRows g) \<and> set (gr_srcRows g) = {r \<in> R. keyf r = gr_key g} \<Longrightarrow>
      distinct (concat (map gr_srcRows hs))" for hs
  proof (induction hs)
    case (Cons g hs)
    have "set (gr_srcRows g) \<inter> set (concat (map gr_srcRows hs)) = {}"
    proof (rule ccontr)
      assume "set (gr_srcRows g) \<inter> set (concat (map gr_srcRows hs)) \<noteq> {}"
      then obtain r h where "r \<in> set (gr_srcRows g)" "h \<in> set hs" "r \<in> set (gr_srcRows h)" by auto
      then have "gr_key h = gr_key g" using Cons.prems(2) by auto
      then show False using Cons.prems(1) \<open>h \<in> set hs\<close> by (auto simp: image_iff)
    qed
    then show ?case using Cons by auto
  qed simp
  show ?thesis using assms d [of gs] unfolding part_weak_def by blast
qed

lemma refresh_index_ok: "part_weak R keyf (gp_groups s) \<Longrightarrow> gp_mode s \<noteq> Flat \<Longrightarrow> index_ok (gp_groups s) (gp_srcIndex (refreshSrcIndex s))"
proof -
  assume a: "part_weak R keyf (gp_groups s)" "gp_mode s \<noteq> Flat"
  have "gp_srcIndex (refreshSrcIndex s) = fold (\<lambda>(k, v). hinsert k v) (all_rows (gp_groups s)) []"
    using a(2) by (simp add: refreshSrcIndex_def refresh_fold all_rows_def)
  moreover have "distinct (map fst (all_rows (gp_groups s)))" using part_weak_distinct_rows [OF a(1)] by (simp add: all_rows_keys)
  ultimately show ?thesis by (simp add: index_ok_def fold_hinsert_find all_rows_mem)
qed

section \<open>Elementary moves\<close>

lemma map_persistent_sel [simp]:
  "gp_groups (map_persistent f s) = gp_groups s" "gp_mode (map_persistent f s) = gp_mode s" "gp_src (map_persistent f s) = gp_src s"
  "gp_srcIndex (map_persistent f s) = gp_srcIndex s" "gp_sortColumn (map_persistent f s) = gp_sortColumn s"
  by (simp_all add: map_persistent_def)

lemma qt_sel [simp]:
  "gp_groups (qt_child_inserted gi r s) = gp_groups s" "gp_mode (qt_child_inserted gi r s) = gp_mode s" "gp_src (qt_child_inserted gi r s) = gp_src s"
  "gp_groups (qt_group_inserted r s) = gp_groups s" "gp_mode (qt_group_inserted r s) = gp_mode s" "gp_src (qt_group_inserted r s) = gp_src s"
  "gp_groups (qt_child_removed gi r s) = gp_groups s" "gp_mode (qt_child_removed gi r s) = gp_mode s" "gp_src (qt_child_removed gi r s) = gp_src s"
  "gp_groups (qt_group_removed r s) = gp_groups s" "gp_mode (qt_group_removed r s) = gp_mode s" "gp_src (qt_group_removed r s) = gp_src s"
  by (simp_all add: qt_child_inserted_def qt_group_inserted_def qt_child_removed_def qt_group_removed_def)

lemma refresh_sel [simp]:
  "gp_groups (refreshSrcIndex s) = gp_groups s" "gp_mode (refreshSrcIndex s) = gp_mode s" "gp_src (refreshSrcIndex s) = gp_src s"
  "gp_sortColumn (refreshSrcIndex s) = gp_sortColumn s"
  by (simp_all add: refreshSrcIndex_def)

lemma moves_sel [simp]:
  "gp_mode (join_group src r s) = gp_mode s" "gp_src (join_group src r s) = gp_src s"
  "gp_mode (drop_child gi ci s) = gp_mode s" "gp_src (drop_child gi ci s) = gp_src s"
  "gp_mode (drop_group gi s) = gp_mode s" "gp_src (drop_group gi s) = gp_src s" "gp_groups (drop_group gi s) = remove_at gi (gp_groups s)"
  "length (gp_groups (drop_child gi ci s)) = length (gp_groups s)"
  by (simp_all add: join_group_def drop_child_def drop_group_def Let_def split: option.split)

lemma drop_child_groups: "gp_groups (drop_child gi ci s) =
    (gp_groups s)[gi := (gp_groups s ! gi)\<lparr>gr_srcRows := remove_at ci (gr_srcRows (gp_groups s ! gi))\<rparr>]"
  by (simp add: drop_child_def)

lemma find_group_Some: "find_group key gs = Some i \<Longrightarrow> i < length gs \<and> gr_key (gs ! i) = key"
  by (induction gs arbitrary: i) (auto split: if_splits)

lemma find_group_None: "find_group key gs = None \<longleftrightarrow> key \<notin> gr_key ` set gs"
  by (induction gs) auto

lemma append_row_keys [simp]: "i < length gs \<Longrightarrow> map gr_key (append_row i r gs) = map gr_key gs" "length (append_row i r gs) = length gs"
  by (simp_all add: append_row_def map_update)
    (metis list_update_id map_update nth_map)

lemma append_row_set:
  "i < length gs \<Longrightarrow> distinct (map gr_key gs) \<Longrightarrow> g \<in> set (append_row i r gs) \<Longrightarrow>
   (g = (gs ! i)\<lparr>gr_srcRows := gr_srcRows (gs ! i) @ [r]\<rparr>) \<or> g \<in> set gs \<and> gr_key g \<noteq> gr_key (gs ! i)"
proof -
  assume a: "i < length gs" "distinct (map gr_key gs)" "g \<in> set (append_row i r gs)"
  then obtain j where j: "j < length gs" "g = append_row i r gs ! j" by (auto simp: in_set_conv_nth)
  show ?thesis
  proof (cases "j = i")
    case False
    then have "g = gs ! j" "gr_key (gs ! j) \<noteq> gr_key (gs ! i)" using a j by (auto simp: append_row_def distinct_conv_nth)
    then show ?thesis using j(1) by simp
  qed (use a(1) j in \<open>simp add: append_row_def\<close>)
qed

lemma append_row_part:
  assumes "part_weak R keyf gs" and "i < length gs" and "gr_key (gs ! i) = keyf r" and "r \<notin> R"
  shows "part_weak (insert r R) keyf (append_row i r gs)"
proof -
  have d: "distinct (map gr_key gs)" and rows: "\<And>g. g \<in> set gs \<Longrightarrow> distinct (gr_srcRows g) \<and> set (gr_srcRows g) = {r \<in> R. keyf r = gr_key g}"
    using assms(1) by (auto simp: part_weak_def)
  have "distinct (gr_srcRows g) \<and> set (gr_srcRows g) = {x \<in> insert r R. keyf x = gr_key g}" if "g \<in> set (append_row i r gs)" for g
  proof (cases "g \<in> set gs \<and> gr_key g \<noteq> gr_key (gs ! i)")
    case True
    then have "distinct (gr_srcRows g)" "set (gr_srcRows g) = {x \<in> R. keyf x = gr_key g}" "keyf r \<noteq> gr_key g" using rows assms(3) by auto
    then show ?thesis by auto
  next
    case False
    then have g: "g = (gs ! i)\<lparr>gr_srcRows := gr_srcRows (gs ! i) @ [r]\<rparr>" using append_row_set [OF assms(2) d that] by blast
    have "distinct (gr_srcRows (gs ! i))" "set (gr_srcRows (gs ! i)) = {x \<in> R. keyf x = gr_key (gs ! i)}" using rows [OF nth_mem [OF assms(2)]] by auto
    then show ?thesis using assms(3,4) unfolding g by auto
  qed
  moreover have "gr_key ` set (append_row i r gs) = gr_key ` set gs"
    using arg_cong [OF append_row_keys(1) [OF assms(2), of r], of set] by simp
  moreover have "keyf r \<in> gr_key ` set gs" using assms(2,3) nth_mem by (metis image_eqI)
  ultimately show ?thesis using assms(1,2) d by (simp add: part_weak_def)
qed

lemma new_group_part:
  assumes "part_weak R keyf gs" and "keyf r \<notin> gr_key ` set gs" and "r \<notin> R"
  shows "part_weak (insert r R) keyf (gs @ [\<lparr>gr_key = keyf r, gr_label = l, gr_srcRows = [r]\<rparr>])"
proof -
  have "keyf x \<noteq> keyf r" if "x \<in> R" for x
  proof -
    have "keyf x \<in> gr_key ` set gs" using assms(1) that unfolding part_weak_def by blast
    then show ?thesis using assms(2) by metis
  qed
  then show ?thesis using assms by (auto simp: part_weak_def)
qed

definition row_key :: "ViewMode \<Rightarrow> SrcRow list \<Rightarrow> nat \<Rightarrow> string" where
  "row_key mode src r = groupKeyFor mode (sr_conn (src ! r))"

lemma join_group_part:
  assumes "part_weak R keyf (gp_groups s)" and "r \<notin> R" and "row_key (gp_mode s) src r = keyf r"
  shows "part_weak (insert r R) keyf (gp_groups (join_group src r s))"
proof (cases "find_group (keyf r) (gp_groups s)")
  case None
  then have "keyf r \<notin> gr_key ` set (gp_groups s)" by (simp only: find_group_None not_False_eq_True)
  then show ?thesis
    using new_group_part [OF assms(1) _ assms(2)] assms(3) None by (simp add: join_group_def row_key_def Let_def)
next
  case (Some i)
  then show ?thesis
    using append_row_part [OF assms(1) _ _ assms(2)] find_group_Some [OF Some] assms(3) by (simp add: join_group_def row_key_def Let_def)
qed

lemma append_row_no_empty: "no_empty gs \<Longrightarrow> no_empty (append_row i r gs)"
  using set_update_subset_insert [of gs i "(gs ! i)\<lparr>gr_srcRows := gr_srcRows (gs ! i) @ [r]\<rparr>"]
  by (fastforce simp: no_empty_def append_row_def)

lemma join_group_no_empty: "no_empty (gp_groups s) \<Longrightarrow> no_empty (gp_groups (join_group src r s))"
  by (auto simp: join_group_def append_row_no_empty Let_def split: option.split) (auto simp: no_empty_def)

lemma shift_part:
  assumes "part_weak R keyf gs" and "inj_on f R" and "\<And>r. r \<in> R \<Longrightarrow> keyf' (f r) = keyf r"
  shows "part_weak (f ` R) keyf' (shift_rows f gs)"
proof -
  have "distinct (map f (gr_srcRows g)) \<and> f ` set (gr_srcRows g) = {x \<in> f ` R. keyf' x = gr_key g}" if "g \<in> set gs" for g
  proof -
    have g: "distinct (gr_srcRows g)" "set (gr_srcRows g) = {r \<in> R. keyf r = gr_key g}" using assms(1) that by (auto simp: part_weak_def)
    have "inj_on f (set (gr_srcRows g))" using assms(2) unfolding g(2) by (rule inj_on_subset) auto
    then show ?thesis using g assms(3) by (auto simp: distinct_map)
  qed
  then show ?thesis using assms(1,3) by (auto simp: part_weak_def shift_rows_def comp_def image_image)
qed

lemma shift_no_empty [simp]: "no_empty (shift_rows f gs) \<longleftrightarrow> no_empty gs"
  by (auto simp: no_empty_def shift_rows_def)

lemma remove_at_set: "distinct xs \<Longrightarrow> i < length xs \<Longrightarrow> distinct (remove_at i xs) \<and> set (remove_at i xs) = set xs - {xs ! i}"
proof -
  assume a: "distinct xs" "i < length xs"
  have xs: "xs = take i xs @ xs ! i # drop (Suc i) xs" using a(2) by (rule id_take_nth_drop)
  then have d: "distinct (take i xs @ xs ! i # drop (Suc i) xs)" using a(1) by simp
  have "set xs = set (take i xs) \<union> {xs ! i} \<union> set (drop (Suc i) xs)" by (subst xs) auto
  then show ?thesis using d by (auto simp: remove_at_def)
qed

lemma drop_child_part:
  assumes "part_weak R keyf (gp_groups s)" and "gi < length (gp_groups s)" and "ci < length (gr_srcRows (gp_groups s ! gi))"
    and "gr_srcRows (gp_groups s ! gi) ! ci = r"
  shows "part_weak (R - {r}) keyf (gp_groups (drop_child gi ci s))"
proof -
  let ?gs = "gp_groups s" and ?g = "(gp_groups s ! gi)\<lparr>gr_srcRows := remove_at ci (gr_srcRows (gp_groups s ! gi))\<rparr>"
  have d: "distinct (map gr_key ?gs)" and rows: "\<And>g. g \<in> set ?gs \<Longrightarrow> distinct (gr_srcRows g) \<and> set (gr_srcRows g) = {r \<in> R. keyf r = gr_key g}"
    using assms(1) by (auto simp: part_weak_def)
  have old: "distinct (gr_srcRows (?gs ! gi))" "set (gr_srcRows (?gs ! gi)) = {r \<in> R. keyf r = gr_key (?gs ! gi)}"
    using rows [OF nth_mem [OF assms(2)]] by auto
  have r: "r \<in> R" "keyf r = gr_key (?gs ! gi)" using old(2) nth_mem [OF assms(3)] assms(4) by auto
  have new: "distinct (gr_srcRows ?g)" "set (gr_srcRows ?g) = {x \<in> R - {r}. keyf x = gr_key ?g}"
    using remove_at_set [OF old(1) assms(3)] old(2) assms(4) by auto
  have keys: "map gr_key (?gs[gi := ?g]) = map gr_key ?gs" by (simp add: map_update) (metis assms(2) list_update_id nth_map)
  have "distinct (gr_srcRows g) \<and> set (gr_srcRows g) = {x \<in> R - {r}. keyf x = gr_key g}" if "g \<in> set (?gs[gi := ?g])" for g
  proof -
    obtain j where j: "j < length ?gs" "g = ?gs[gi := ?g] ! j" using \<open>g \<in> set (?gs[gi := ?g])\<close> by (auto simp: in_set_conv_nth)
    show ?thesis
    proof (cases "j = gi")
      case False
      then have "g = ?gs ! j" "gr_key (?gs ! j) \<noteq> gr_key (?gs ! gi)" using j d assms(2) by (auto simp: distinct_conv_nth)
      then show ?thesis using rows [OF nth_mem [OF j(1)]] r by auto
    qed (use j new assms(2) in simp)
  qed
  moreover have "gr_key ` set (?gs[gi := ?g]) = gr_key ` set ?gs" using arg_cong [OF keys, of set] by simp
  ultimately show ?thesis using assms(1) d keys unfolding drop_child_groups by (auto simp: part_weak_def)
qed

lemma index_of_row_Some: "index_of_row r xs = Some i \<Longrightarrow> i < length xs \<and> xs ! i = r"
  by (induction xs arbitrary: i) (auto split: if_splits)

lemma index_of_row_None: "index_of_row r xs = None \<longleftrightarrow> r \<notin> set xs"
  by (induction xs) auto

lemma find_row_Some: "find_row r gs = Some (gi, ci) \<Longrightarrow> gi < length gs \<and> ci < length (gr_srcRows (gs ! gi)) \<and> gr_srcRows (gs ! gi) ! ci = r"
  by (induction gs arbitrary: gi) (auto dest: index_of_row_Some split: option.splits)

lemma find_row_None: "find_row r gs = None \<longleftrightarrow> (\<forall>g \<in> set gs. r \<notin> set (gr_srcRows g))"
  by (induction gs) (auto simp: index_of_row_None [symmetric] split: option.splits)

section \<open>Whole operations\<close>

definition tree_ok :: "nat set \<Rightarrow> (nat \<Rightarrow> string) \<Rightarrow> GroupProxy \<Rightarrow> bool" where
  "tree_ok R keyf s = (part_weak R keyf (gp_groups s) \<and> no_empty (gp_groups s) \<and> index_ok (gp_groups s) (gp_srcIndex s))"

lemma refresh_tree: "part_weak R keyf (gp_groups s) \<Longrightarrow> no_empty (gp_groups s) \<Longrightarrow> gp_mode s \<noteq> Flat \<Longrightarrow> tree_ok R keyf (refreshSrcIndex s)"
  using refresh_index_ok by (simp add: tree_ok_def)

lemma resort_sel [simp]:
  "gp_mode (resortGroupsPreservingIndexes s) = gp_mode s" "gp_src (resortGroupsPreservingIndexes s) = gp_src s"
  by (simp_all add: resortGroupsPreservingIndexes_def Let_def split: option.split)

lemma resort_cases:
  obtains "resortGroupsPreservingIndexes s = s"
  | col src where "gp_sortColumn s = Some col" and "gp_src s = Some src" and "gp_mode s \<noteq> Flat"
    and "gp_groups (resortGroupsPreservingIndexes s) = sortGroups src col s (gp_groups s)"
    and "gp_srcIndex (resortGroupsPreservingIndexes s) = gp_srcIndex (refreshSrcIndex (s\<lparr>gp_groups := sortGroups src col s (gp_groups s)\<rparr>))"
proof (cases "\<exists>col src. gp_sortColumn s = Some col \<and> gp_src s = Some src \<and> gp_mode s \<noteq> Flat \<and> gp_groups s \<noteq> [] \<and>
    \<not> list_all2 (\<lambda>a b. gr_key a = gr_key b \<and> gr_srcRows a = gr_srcRows b) (sortGroups src col s (gp_groups s)) (gp_groups s)")
  case True
  then obtain col src where c: "gp_sortColumn s = Some col" "gp_src s = Some src" "gp_mode s \<noteq> Flat" "gp_groups s \<noteq> []"
    "\<not> list_all2 (\<lambda>a b. gr_key a = gr_key b \<and> gr_srcRows a = gr_srcRows b) (sortGroups src col s (gp_groups s)) (gp_groups s)" by blast
  show thesis by (rule that(2) [OF c(1-3)]) (simp_all add: resortGroupsPreservingIndexes_def c Let_def)
next
  case False
  then have "resortGroupsPreservingIndexes s = s"
    by (simp add: resortGroupsPreservingIndexes_def Let_def split: option.split) blast
  then show thesis by (rule that(1))
qed

lemma resort_tree: "tree_ok R keyf s \<Longrightarrow> tree_ok R keyf (resortGroupsPreservingIndexes s)"
proof (cases rule: resort_cases [of s])
  case 1
  then show "tree_ok R keyf s \<Longrightarrow> ?thesis" by simp
next
  case (2 col src)
  assume t: "tree_ok R keyf s"
  define gs where "gs = sortGroups src col s (gp_groups s)"
  have "part_weak R keyf gs" "no_empty gs"
    using t part_weak_shape [OF sortGroups_shape] no_empty_shape [OF sortGroups_shape] by (auto simp: tree_ok_def gs_def)
  then show ?thesis using refresh_index_ok [of R keyf "s\<lparr>gp_groups := gs\<rparr>"] 2(3-5) by (simp add: tree_ok_def gs_def)
qed

text \<open>Rebuilding.\<close>

lemma rebuild_rows:
  "fold (rebuild_row mode src) [0..<k] ([], []) = (gs', m') \<Longrightarrow>
   part_weak {..<k} (row_key mode src) gs' \<and> no_empty gs' \<and> (\<forall>key i. hfind m' key = Some i \<longleftrightarrow> i < length gs' \<and> gr_key (gs' ! i) = key)"
proof (induction k arbitrary: gs' m')
  case 0
  then show ?case by (auto simp: part_weak_def no_empty_def)
next
  case (Suc k)
  obtain gs m where gm: "fold (rebuild_row mode src) [0..<k] ([], []) = (gs, m)" by fastforce
  have IH: "part_weak {..<k} (row_key mode src) gs" "no_empty gs" "\<And>key i. hfind m key = Some i \<longleftrightarrow> i < length gs \<and> gr_key (gs ! i) = key"
    using Suc.IH [OF gm] by blast+
  have last: "rebuild_row mode src k (gs, m) = (gs', m')" using Suc.prems gm by simp
  have k: "insert k {..<k} = {..<Suc k}" by auto
  show ?case
  proof (cases "hfind m (row_key mode src k)")
    case (Some i)
    then have i: "i < length gs" "gr_key (gs ! i) = row_key mode src k" using IH(3) by auto
    have "rebuild_row mode src k (gs, m) = (append_row i k gs, m)" using Some by (simp add: rebuild_row_def row_key_def)
    then have "gs' = append_row i k gs" "m' = m" using last by simp_all
    moreover have "part_weak {..<Suc k} (row_key mode src) (append_row i k gs)" using append_row_part [OF IH(1) i] by (simp add: k)
    moreover have "no_empty (append_row i k gs)"
      using IH(2) by (rule append_row_no_empty)
    moreover have "gr_key (append_row i k gs ! j) = gr_key (gs ! j)" if "j < length gs" for j
      using that i(1) by (simp add: append_row_def nth_list_update)
    ultimately show ?thesis using IH(3) by auto
  next
    case None
    have new: "row_key mode src k \<notin> gr_key ` set gs"
    proof
      assume "row_key mode src k \<in> gr_key ` set gs"
      then obtain i where "i < length gs" "gr_key (gs ! i) = row_key mode src k" by (auto simp: in_set_conv_nth)
      then show False using IH(3) [of "row_key mode src k" i] None by simp
    qed
    define g where "g = \<lparr>gr_key = row_key mode src k, gr_label = groupLabelFor mode (sr_conn (src ! k)), gr_srcRows = [k]\<rparr>"
    have "rebuild_row mode src k (gs, m) = (gs @ [g], hinsert (row_key mode src k) (length gs) m)"
      using None by (simp add: rebuild_row_def row_key_def append_row_def g_def Let_def)
    then have "gs' = gs @ [g]" "m' = hinsert (row_key mode src k) (length gs) m" using last by simp_all
    moreover have "part_weak {..<Suc k} (row_key mode src) (gs @ [g])" using new_group_part [OF IH(1) new] by (simp add: k g_def)
    moreover have "no_empty (gs @ [g])" using IH(2) by (simp add: no_empty_def g_def)
    moreover have "hfind (hinsert (row_key mode src k) (length gs) m) key = Some i \<longleftrightarrow> i < Suc (length gs) \<and> gr_key ((gs @ [g]) ! i) = key" for key i
      using IH(3) [of key i] new by (auto simp: hfind_insert nth_append less_Suc_eq g_def image_iff) (metis nth_mem)
    ultimately show ?thesis by simp
  qed
qed

lemma rebuild_sel [simp]: "gp_mode (rebuild s) = gp_mode s" "gp_src (rebuild s) = gp_src s"
  by (auto simp: rebuild_def applyCurrentSort_def Let_def case_prod_beta split: option.split)

lemma rebuild_tree:
  assumes "gp_src s = Some src" and "gp_mode s \<noteq> Flat"
  shows "tree_ok {..<length src} (row_key (gp_mode s) src) (rebuild s)"
proof -
  obtain gs m where gm: "fold (rebuild_row (gp_mode s) src) [0..<length src] ([], []) = (gs, m)" by fastforce
  have p: "part_weak {..<length src} (row_key (gp_mode s) src) gs" "no_empty gs" using rebuild_rows [OF gm] by blast+
  define t where "t = s\<lparr>gp_srcIndex := [], gp_groups := gs\<rparr>"
  have r: "rebuild s = refreshSrcIndex (applyCurrentSort t)" using assms gm by (simp add: rebuild_def t_def Let_def)
  have "gp_groups (applyCurrentSort t) = gs \<or> (\<exists>col. gp_groups (applyCurrentSort t) = sortGroups src col t gs)"
    using assms by (auto simp: applyCurrentSort_def t_def split: option.split)
  then have "part_weak {..<length src} (row_key (gp_mode s) src) (gp_groups (applyCurrentSort t)) \<and> no_empty (gp_groups (applyCurrentSort t))"
    using p part_weak_shape [OF sortGroups_shape] no_empty_shape [OF sortGroups_shape] by metis
  moreover have "gp_mode (applyCurrentSort t) \<noteq> Flat" using assms(2) by (auto simp: applyCurrentSort_def t_def split: option.split)
  ultimately show ?thesis unfolding r using refresh_tree by blast
qed

text \<open>Insertion.\<close>

lemma join_rows:
  "part_weak R (row_key (gp_mode s) src) (gp_groups s) \<Longrightarrow> no_empty (gp_groups s) \<Longrightarrow> distinct rows \<Longrightarrow> set rows \<inter> R = {} \<Longrightarrow>
   part_weak (set rows \<union> R) (row_key (gp_mode s) src) (gp_groups (fold (join_group src) rows s)) \<and>
   no_empty (gp_groups (fold (join_group src) rows s)) \<and> gp_mode (fold (join_group src) rows s) = gp_mode s \<and> gp_src (fold (join_group src) rows s) = gp_src s"
proof (induction rows arbitrary: R s)
  case (Cons r rows)
  have "part_weak (insert r R) (row_key (gp_mode s) src) (gp_groups (join_group src r s))"
    using Cons.prems by (intro join_group_part) auto
  moreover have "no_empty (gp_groups (join_group src r s))" using Cons.prems(2) by (rule join_group_no_empty)
  ultimately show ?case using Cons.IH [of "insert r R" "join_group src r s"] Cons.prems by auto
qed simp

lemma inserted_tree:
  assumes "tree_ok {..<length old} (row_key (gp_mode s) old) s" and "gp_mode s \<noteq> Flat"
    and "first \<le> length old" and "src = take first old @ ins @ drop first old" and "length ins = lastRow + 1 - first" and "first \<le> lastRow"
  shows "tree_ok {..<length src} (row_key (gp_mode s) src) (onSourceRowsInserted src first lastRow s)"
proof -
  define n where "n = lastRow + 1 - first"
  define f where "f r = (if first \<le> r then r + n else r)" for r :: nat
  define R where "R = f ` {..<length old}"
  have len: "length src = length old + n" using assms(3-5) by (simp add: n_def)
  have inj: "inj_on f {..<length old}" by (auto simp: inj_on_def f_def split: if_splits)
  have key: "row_key (gp_mode s) src (f r) = row_key (gp_mode s) old r" if "r \<in> {..<length old}" for r
    using that assms(3-5) by (auto simp: row_key_def f_def nth_append min_def n_def)
  define s1 where "s1 = s\<lparr>gp_src := Some src, gp_groups := shift_rows f (gp_groups s)\<rparr>"
  have "part_weak R (row_key (gp_mode s) src) (gp_groups s1)"
    using shift_part [of "{..<length old}" "row_key (gp_mode s) old" "gp_groups s" f "row_key (gp_mode s) src"] inj key assms(1)
    by (simp add: s1_def R_def tree_ok_def)
  moreover have "no_empty (gp_groups s1)" using assms(1) by (simp add: s1_def tree_ok_def)
  moreover have "set [first..<lastRow + 1] \<inter> R = {}" by (auto simp: R_def f_def n_def split: if_splits)
  ultimately have j: "part_weak (set [first..<lastRow + 1] \<union> R) (row_key (gp_mode s) src) (gp_groups (fold (join_group src) [first..<lastRow + 1] s1))"
    "no_empty (gp_groups (fold (join_group src) [first..<lastRow + 1] s1))" "gp_mode (fold (join_group src) [first..<lastRow + 1] s1) = gp_mode s"
    using join_rows [of R s1 src "[first..<lastRow + 1]"] by (simp_all add: s1_def)
  have all: "set [first..<lastRow + 1] \<union> R = {..<length src}"
  proof
    show "set [first..<lastRow + 1] \<union> R \<subseteq> {..<length src}" using assms(3,6) len by (auto simp: R_def f_def n_def split: if_splits)
    show "{..<length src} \<subseteq> set [first..<lastRow + 1] \<union> R"
    proof
      fix x assume x: "x \<in> {..<length src}"
      consider "x < first" | "first \<le> x" "x \<le> lastRow" | "lastRow < x" by linarith
      then show "x \<in> set [first..<lastRow + 1] \<union> R"
      proof cases
        case 1
        then have "x = f x" "x < length old" using assms(3) by (auto simp: f_def)
        then show ?thesis unfolding R_def by blast
      next
        case 3
        then have "x = f (x - n)" "x - n < length old" using x len assms(6) by (auto simp: f_def n_def)
        then show ?thesis unfolding R_def by blast
      qed auto
    qed
  qed
  have e: "onSourceRowsInserted src first lastRow s = resortGroupsPreservingIndexes (refreshSrcIndex (fold (join_group src) [first..<lastRow + 1] s1))"
    unfolding onSourceRowsInserted_def s1_def f_def [abs_def] n_def Let_def using assms(2) by simp
  show ?thesis unfolding e using j assms(2) unfolding all by (intro resort_tree refresh_tree) simp_all
qed

text \<open>Removal.\<close>

definition empties :: "Group list \<Rightarrow> nat set" where
  "empties gs = {i. i < length gs \<and> gr_srcRows (gs ! i) = []}"

lemma empties_none: "empties gs = {} \<longleftrightarrow> no_empty gs"
  using nth_mem by (fastforce simp: empties_def no_empty_def in_set_conv_nth)

lemma remove_at_nth: "i < length xs \<Longrightarrow> j < length xs - 1 \<Longrightarrow> remove_at i xs ! j = (if j < i then xs ! j else xs ! Suc j)"
  by (auto simp: remove_at_def nth_append)

lemma remove_at_length: "i < length xs \<Longrightarrow> length (remove_at i xs) = length xs - 1"
  by (simp add: remove_at_def)

lemma drop_empty_part:
  assumes "part_weak R keyf gs" and "i < length gs" and "gr_srcRows (gs ! i) = []"
  shows "part_weak R keyf (remove_at i gs)"
proof -
  have gs: "gs = take i gs @ gs ! i # drop (Suc i) gs" using assms(2) by (rule id_take_nth_drop)
  have set: "set gs = insert (gs ! i) (set (remove_at i gs))" by (subst gs) (auto simp: remove_at_def)
  have "distinct (map gr_key (take i gs @ gs ! i # drop (Suc i) gs))" using assms(1) gs by (simp add: part_weak_def)
  then have d: "distinct (map gr_key (remove_at i gs))" by (auto simp: remove_at_def)
  have none: "keyf r \<noteq> gr_key (gs ! i)" if "r \<in> R" for r
  proof -
    have "set (gr_srcRows (gs ! i)) = {r \<in> R. keyf r = gr_key (gs ! i)}" using assms(1) nth_mem [OF assms(2)] by (simp add: part_weak_def)
    then show ?thesis using that assms(3) by auto
  qed
  have "\<forall>g \<in> set (remove_at i gs). distinct (gr_srcRows g) \<and> set (gr_srcRows g) = {r \<in> R. keyf r = gr_key g}"
    using assms(1) unfolding part_weak_def set by blast
  moreover have "keyf ` R \<subseteq> gr_key ` set (remove_at i gs)"
    using assms(1) none unfolding part_weak_def set by blast
  ultimately show ?thesis using d by (simp add: part_weak_def)
qed

lemma empties_remove_last:
  assumes "i \<in> empties gs" and "\<forall>j \<in> empties gs. j \<le> i"
  shows "empties (remove_at i gs) = empties gs - {i}"
proof (rule set_eqI)
  fix j
  have i: "i < length gs" using assms(1) by (simp add: empties_def)
  have beyond: "gr_srcRows (gs ! j) \<noteq> []" if "i < j" "j < length gs" for j using assms(2) that by (auto simp: empties_def)
  show "j \<in> empties (remove_at i gs) \<longleftrightarrow> j \<in> empties gs - {i}"
  proof (cases "j < i")
    case True
    then show ?thesis using i by (auto simp: empties_def remove_at_nth remove_at_length)
  next
    case False
    then show ?thesis using i beyond [of "Suc j"] beyond [of j] by (auto simp: empties_def remove_at_nth remove_at_length)
  qed
qed

lemma drop_groups:
  "sorted (rev is) \<Longrightarrow> distinct is \<Longrightarrow> set is = empties (gp_groups s) \<Longrightarrow> part_weak R keyf (gp_groups s) \<Longrightarrow>
   part_weak R keyf (gp_groups (fold drop_group is s)) \<and> no_empty (gp_groups (fold drop_group is s)) \<and>
   gp_mode (fold drop_group is s) = gp_mode s \<and> gp_src (fold drop_group is s) = gp_src s"
proof (induction "is" arbitrary: s)
  case Nil
  then show ?case using empties_none [of "gp_groups s"] by simp
next
  case (Cons i "is")
  have i: "i \<in> empties (gp_groups s)" using Cons.prems(3) by auto
  have top: "\<forall>j \<in> empties (gp_groups s). j \<le> i" using Cons.prems(1,3) by (auto simp: sorted_append)
  have "set is = empties (gp_groups (drop_group i s))"
    using empties_remove_last [OF i top] Cons.prems(2,3) by auto
  moreover have "part_weak R keyf (gp_groups (drop_group i s))"
    using drop_empty_part [OF Cons.prems(4)] i by (simp add: empties_def)
  moreover have "sorted (rev is)" using Cons.prems(1) by (simp add: sorted_append)
  ultimately show ?case using Cons.IH [of "drop_group i s"] Cons.prems(2) by simp
qed

lemma empties_drop_child:
  assumes "gi < length (gp_groups s) \<and> ci < length (gr_srcRows (gp_groups s ! gi)) \<and> gr_srcRows (gp_groups s ! gi) ! ci = r"
  shows "empties (gp_groups (drop_child gi ci s)) =
    (if gr_srcRows (gp_groups (drop_child gi ci s) ! gi) = [] then insert gi (empties (gp_groups s)) else empties (gp_groups s))"
proof -
  have other: "gp_groups (drop_child gi ci s) ! j = gp_groups s ! j" if "j \<noteq> gi" for j using that by (simp add: drop_child_groups)
  have len: "length (gp_groups (drop_child gi ci s)) = length (gp_groups s)" by simp
  have "gi \<notin> empties (gp_groups s)" using assms by (auto simp: empties_def)
  moreover have "j \<in> empties (gp_groups (drop_child gi ci s)) \<longleftrightarrow> j \<in> empties (gp_groups s)" if "j \<noteq> gi" for j
    unfolding empties_def mem_Collect_eq len other [OF that] ..
  moreover have "gi \<in> empties (gp_groups (drop_child gi ci s)) \<longleftrightarrow> gr_srcRows (gp_groups (drop_child gi ci s) ! gi) = []"
    unfolding empties_def mem_Collect_eq len using assms by blast
  ultimately show ?thesis by (intro set_eqI) (metis insert_iff)
qed

lemma removed_rows:
  "part_weak R keyf (gp_groups s) \<Longrightarrow> distinct emptied \<Longrightarrow> set emptied = empties (gp_groups s) \<Longrightarrow> distinct rows \<Longrightarrow> set rows \<subseteq> R \<Longrightarrow>
   fold removed_row rows (s, emptied) = (s', emptied') \<Longrightarrow>
   part_weak (R - set rows) keyf (gp_groups s') \<and> distinct emptied' \<and> set emptied' = empties (gp_groups s') \<and> gp_mode s' = gp_mode s \<and> gp_src s' = gp_src s"
proof (induction rows arbitrary: R s emptied)
  case (Cons r rows)
  have "r \<in> R" using Cons.prems(5) by simp
  then have "keyf r \<in> gr_key ` set (gp_groups s)" using Cons.prems(1) unfolding part_weak_def by blast
  then obtain g where "g \<in> set (gp_groups s)" "keyf r = gr_key g" by blast
  then have "r \<in> set (gr_srcRows g)" using Cons.prems(1) \<open>r \<in> R\<close> by (simp add: part_weak_def)
  then have "find_row r (gp_groups s) \<noteq> None" using \<open>g \<in> set (gp_groups s)\<close> find_row_None by blast
  then obtain gi ci where f: "find_row r (gp_groups s) = Some (gi, ci)" by fastforce
  note at = find_row_Some [OF f]
  define t where "t = drop_child gi ci s"
  define e where "e = (if gr_srcRows (gp_groups t ! gi) = [] \<and> gi \<notin> set emptied then emptied @ [gi] else emptied)"
  have step: "removed_row r (s, emptied) = (t, e)" by (simp add: removed_row_def f t_def e_def Let_def)
  have part: "part_weak (R - {r}) keyf (gp_groups t)" using drop_child_part [OF Cons.prems(1)] at by (simp add: t_def)
  have notin: "gi \<notin> set emptied" unfolding Cons.prems(3) empties_def using at by auto
  have "empties (gp_groups t) = (if gr_srcRows (gp_groups t ! gi) = [] then insert gi (empties (gp_groups s)) else empties (gp_groups s))"
    unfolding t_def by (rule empties_drop_child [OF at])
  then have e: "set e = empties (gp_groups t)" "distinct e" unfolding e_def using Cons.prems(2,3) notin by simp_all
  have rows: "distinct rows" "set rows \<subseteq> R - {r}" using Cons.prems(4,5) by auto
  have "fold removed_row rows (t, e) = (s', emptied')" using Cons.prems(6) step by simp
  note IH = Cons.IH [OF part e(2,1) rows this]
  have R: "R - {r} - set rows = R - set (r # rows)" by auto
  have t: "gp_mode t = gp_mode s" "gp_src t = gp_src s" by (simp_all add: t_def)
  show ?case using IH unfolding R t .
qed simp

lemma removed_tree:
  assumes "tree_ok {..<length old} (row_key (gp_mode s) old) s" and "gp_mode s \<noteq> Flat"
    and "first \<le> lastRow" and "lastRow < length old" and "src = take first old @ drop (lastRow + 1) old"
  shows "tree_ok {..<length src} (row_key (gp_mode s) src) (onSourceRowsRemoved src first lastRow s)"
proof -
  define n where "n = lastRow + 1 - first"
  define f where "f r = (if lastRow < r then r - n else r)" for r :: nat
  define s0 where "s0 = s\<lparr>gp_src := Some src\<rparr>"
  obtain s1 em where s1: "fold removed_row [first..<lastRow + 1] (s0, []) = (s1, em)" by fastforce
  have pre: "part_weak {..<length old} (row_key (gp_mode s) old) (gp_groups s0)" "empties (gp_groups s0) = {}"
    using assms(1) by (simp_all add: s0_def tree_ok_def empties_none)
  have sub: "set [first..<lastRow + 1] \<subseteq> {..<length old}" using assms(4) by auto
  define R where "R = {..<length old} - set [first..<lastRow + 1]"
  have r: "part_weak R (row_key (gp_mode s) old) (gp_groups s1)" "distinct em" "set em = empties (gp_groups s1)" "gp_mode s1 = gp_mode s"
  proof -
    have "distinct []" "set [] = empties (gp_groups s0)" "distinct [first..<lastRow + 1]" using pre(2) by simp_all
    from removed_rows [OF pre(1) this sub s1]
    show "part_weak R (row_key (gp_mode s) old) (gp_groups s1)" "distinct em" "set em = empties (gp_groups s1)" "gp_mode s1 = gp_mode s"
      unfolding R_def by (simp_all add: s0_def)
  qed
  have len: "length src = length old - n" using assms(3-5) by (simp add: n_def)
  have R: "x \<in> R \<longleftrightarrow> x < first \<or> lastRow < x \<and> x < length old" for x using assms(3,4) by (auto simp: R_def)
  have inj: "inj_on f R" using assms(3) by (auto simp: inj_on_def R f_def n_def split: if_splits)
  have key: "row_key (gp_mode s) src (f x) = row_key (gp_mode s) old x" if "x \<in> R" for x
    using that assms(3-5) by (auto simp: R row_key_def f_def n_def nth_append min_def)
  have img: "f ` R = {..<length src}"
  proof (rule set_eqI)
    fix y
    have "y \<in> f ` R \<longleftrightarrow> y < length src" 
    proof
      assume "y \<in> f ` R"
      then show "y < length src" using assms(3,4) len by (auto simp: R f_def n_def split: if_splits)
    next
      assume y: "y < length src"
      show "y \<in> f ` R"
      proof (cases "y < first")
        case True
        then have "y = f y" "y \<in> R" using assms(3) by (auto simp: R f_def)
        then show ?thesis by blast
      next
        case False
        then have "y = f (y + n)" "y + n \<in> R" using y len assms(3,4) by (auto simp: R f_def n_def)
        then show ?thesis by blast
      qed
    qed
    then show "y \<in> f ` R \<longleftrightarrow> y \<in> {..<length src}" by simp
  qed
  define s2 where "s2 = s1\<lparr>gp_groups := shift_rows f (gp_groups s1)\<rparr>"
  have p2: "part_weak {..<length src} (row_key (gp_mode s) src) (gp_groups s2)"
    using shift_part [of R "row_key (gp_mode s) old" "gp_groups s1" f "row_key (gp_mode s) src"] r(1) inj key by (simp add: s2_def img)
  have "empties (shift_rows f gs) = empties gs" for gs unfolding empties_def shift_rows_def by (intro Collect_cong) auto
  then have e2: "set (rev (sort em)) = empties (gp_groups s2)" using r(3) by (simp add: s2_def)
  define s3 where "s3 = fold drop_group (rev (sort em)) s2"
  have s3: "part_weak {..<length src} (row_key (gp_mode s) src) (gp_groups s3)" "no_empty (gp_groups s3)" "gp_mode s3 = gp_mode s"
  proof -
    have "sorted (rev (rev (sort em)))" "distinct (rev (sort em))" using r(2) by simp_all
    from drop_groups [OF this e2 p2]
    show "part_weak {..<length src} (row_key (gp_mode s) src) (gp_groups s3)" "no_empty (gp_groups s3)" "gp_mode s3 = gp_mode s"
      unfolding s3_def by (simp_all add: s2_def r(4))
  qed
  have e: "onSourceRowsRemoved src first lastRow s = resortGroupsPreservingIndexes (refreshSrcIndex s3)"
    unfolding onSourceRowsRemoved_def s3_def s2_def f_def [abs_def] n_def Let_def s0_def [symmetric] s1 prod.case using assms(2) by (simp add: s0_def)
  show ?thesis unfolding e using s3 assms(2) by (intro resort_tree refresh_tree) simp_all
qed

text \<open>A row whose key changed.\<close>

lemma part_weak_cong: "(\<And>r. r \<in> R \<Longrightarrow> keyf r = keyf' r) \<Longrightarrow> part_weak R keyf gs \<longleftrightarrow> part_weak R keyf' gs"
proof -
  assume a: "\<And>r. r \<in> R \<Longrightarrow> keyf r = keyf' r"
  then have "{r \<in> R. keyf r = k} = {r \<in> R. keyf' r = k}" for k by auto
  moreover have "keyf ` R = keyf' ` R" using a by auto
  ultimately show ?thesis by (simp add: part_weak_def)
qed

lemma label_update_tree:
  assumes "tree_ok R keyf s" and "gi < length (gp_groups s)"
  shows "tree_ok R keyf (s\<lparr>gp_groups := (gp_groups s)[gi := (gp_groups s ! gi)\<lparr>gr_label := l\<rparr>]\<rparr>)"
proof -
  define gs where "gs = (gp_groups s)[gi := (gp_groups s ! gi)\<lparr>gr_label := l\<rparr>]"
  have sh: "map shape gs = map shape (gp_groups s)" using assms(2) by (simp add: gs_def map_update shape_def) (metis list_update_id nth_map shape_def)
  have rows: "gr_srcRows (gs ! j) = gr_srcRows (gp_groups s ! j)" for j by (cases "j = gi") (use assms(2) in \<open>simp_all add: gs_def\<close>)
  have len: "length gs = length (gp_groups s)" by (simp add: gs_def)
  have m: "mset (map shape gs) = mset (map shape (gp_groups s))" by (simp only: sh)
  have i: "index_ok gs (gp_srcIndex s)" using assms(1) unfolding tree_ok_def index_ok_def rows len by blast
  have "part_weak R keyf gs" "no_empty gs" using assms(1) part_weak_shape [OF m] no_empty_shape [OF m] by (auto simp: tree_ok_def)
  then show ?thesis using i by (simp add: tree_ok_def gs_def)
qed

lemma move_row:
  assumes "tree_ok R keyf s" and "gp_mode s \<noteq> Flat" and "r \<in> R" and "hfind (gp_srcIndex s) r = Some (gi, ci)"
  defines "t \<equiv> drop_child gi ci s"
  defines "u \<equiv> if gr_srcRows (gp_groups t ! gi) = [] then drop_group gi t else t"
  shows "tree_ok R (keyf(r := row_key (gp_mode s) src r)) (refreshSrcIndex (join_group src r u))"
proof -
  have at: "gi < length (gp_groups s) \<and> ci < length (gr_srcRows (gp_groups s ! gi)) \<and> gr_srcRows (gp_groups s ! gi) ! ci = r"
    using assms(1,4) by (simp add: tree_ok_def index_ok_def)
  have pt: "part_weak (R - {r}) keyf (gp_groups t)" using drop_child_part [of R keyf s gi ci r] assms(1) at by (simp add: t_def tree_ok_def)
  have et: "empties (gp_groups t) = (if gr_srcRows (gp_groups t ! gi) = [] then {gi} else {})"
    using empties_drop_child [OF at] assms(1) empties_none [of "gp_groups s"] by (simp add: t_def tree_ok_def)
  have gi: "gi < length (gp_groups t)" using at by (simp add: t_def)
  have u: "part_weak (R - {r}) keyf (gp_groups u) \<and> no_empty (gp_groups u)"
  proof (cases "gr_srcRows (gp_groups t ! gi) = []")
    case True
    then have e: "empties (gp_groups t) = {gi}" using et by simp
    have "empties (remove_at gi (gp_groups t)) = {}" using empties_remove_last [of gi "gp_groups t"] e by simp
    then show ?thesis using drop_empty_part [OF pt gi True] True by (simp add: u_def empties_none)
  next
    case False
    then show ?thesis using pt et by (simp add: u_def empties_none [symmetric])
  qed
  have mode: "gp_mode u = gp_mode s" by (simp add: u_def t_def)
  define keyf' where "keyf' = keyf(r := row_key (gp_mode s) src r)"
  have "part_weak (R - {r}) keyf' (gp_groups u)" using u part_weak_cong [of "R - {r}" keyf keyf'] by (auto simp: keyf'_def)
  then have "part_weak (insert r (R - {r})) keyf' (gp_groups (join_group src r u))"
    by (rule join_group_part) (simp_all add: keyf'_def mode)
  then have "part_weak R keyf' (gp_groups (join_group src r u))" using assms(3) by (simp add: insert_absorb)
  moreover have "no_empty (gp_groups (join_group src r u))" using u by (simp add: join_group_no_empty)
  ultimately show ?thesis unfolding keyf'_def [symmetric] using assms(2) mode by (intro refresh_tree) simp_all
qed

lemma regroup_tree:
  assumes "tree_ok R keyf s" and "gp_mode s \<noteq> Flat" and "r \<in> R"
  shows "tree_ok R (keyf(r := row_key (gp_mode s) src r)) (snd (regroupSourceRow src r s)) \<and>
    gp_mode (snd (regroupSourceRow src r s)) = gp_mode s \<and> gp_src (snd (regroupSourceRow src r s)) = gp_src s"
proof -
  have "keyf r \<in> gr_key ` set (gp_groups s)" using assms(1,3) unfolding tree_ok_def part_weak_def by blast
  then obtain g where g: "g \<in> set (gp_groups s)" "keyf r = gr_key g" by blast
  have rows: "\<And>g. g \<in> set (gp_groups s) \<Longrightarrow> set (gr_srcRows g) = {r \<in> R. keyf r = gr_key g}" using assms(1) by (simp add: tree_ok_def part_weak_def)
  have "r \<in> set (gr_srcRows g)" using rows [OF g(1)] g(2) assms(3) by simp
  then obtain gi ci where at: "gi < length (gp_groups s)" "ci < length (gr_srcRows (gp_groups s ! gi))" "gr_srcRows (gp_groups s ! gi) ! ci = r"
    using g(1) by (metis in_set_conv_nth)
  then have ix: "hfind (gp_srcIndex s) r = Some (gi, ci)" using assms(1) by (simp add: tree_ok_def index_ok_def)
  have old: "keyf r = gr_key (gp_groups s ! gi)" using rows [OF nth_mem [OF at(1)]] at(2,3) nth_mem by fastforce
  show ?thesis
  proof (cases "gr_key (gp_groups s ! gi) = row_key (gp_mode s) src r")
    case True
    then have same: "keyf(r := row_key (gp_mode s) src r) = keyf" using old by (metis fun_upd_triv)
    have e: "snd (regroupSourceRow src r s) =
        s\<lparr>gp_groups := (gp_groups s)[gi := (gp_groups s ! gi)\<lparr>gr_label := groupLabelFor (gp_mode s) (sr_conn (src ! r))\<rparr>]\<rparr>"
      using True at(1) by (simp add: regroupSourceRow_def ix row_key_def Let_def)
    show ?thesis unfolding e same using label_update_tree [OF assms(1) at(1)] by simp
  next
    case False
    define t where "t = drop_child gi ci s"
    define u where "u = (if gr_srcRows (gp_groups t ! gi) = [] then drop_group gi t else t)"
    have e: "snd (regroupSourceRow src r s) = refreshSrcIndex (join_group src r u)"
      unfolding regroupSourceRow_def Let_def ix u_def t_def using False at(1) by (simp add: row_key_def)
    have "gp_mode u = gp_mode s" "gp_src u = gp_src s" by (simp_all add: u_def t_def)
    moreover have "tree_ok R (keyf(r := row_key (gp_mode s) src r)) (refreshSrcIndex (join_group src r u))"
      unfolding u_def t_def by (rule move_row [OF assms ix])
    ultimately show ?thesis unfolding e by simp
  qed
qed

lemma regroup_rows_tree:
  "tree_ok R keyf s \<Longrightarrow> gp_mode s \<noteq> Flat \<Longrightarrow> set rows \<subseteq> R \<Longrightarrow>
   tree_ok R (\<lambda>r. if r \<in> set rows then row_key (gp_mode s) src r else keyf r) (snd (regroup_rows src rows (moved, s))) \<and>
   gp_mode (snd (regroup_rows src rows (moved, s))) = gp_mode s \<and> gp_src (snd (regroup_rows src rows (moved, s))) = gp_src s"
proof (induction rows arbitrary: s keyf moved)
  case Nil
  then show ?case by (simp add: regroup_rows_def)
next
  case (Cons r rows)
  define t where "t = snd (regroupSourceRow src r s)"
  have t: "tree_ok R (keyf(r := row_key (gp_mode s) src r)) t" "gp_mode t = gp_mode s" "gp_src t = gp_src s"
    using regroup_tree [of R keyf s r src] Cons.prems by (simp_all add: t_def)
  obtain moved' where m: "regroup_rows src (r # rows) (moved, s) = regroup_rows src rows (moved', t)"
    by (simp add: regroup_rows_def t_def case_prod_beta Let_def)
  have k: "(\<lambda>x. if x \<in> set rows then row_key (gp_mode s) src x else (keyf(r := row_key (gp_mode s) src r)) x) =
      (\<lambda>x. if x \<in> set (r # rows) then row_key (gp_mode s) src x else keyf x)"
    by auto
  have "gp_mode t \<noteq> Flat" "set rows \<subseteq> R" using Cons.prems t(2) by auto
  from Cons.IH [OF t(1) this, of moved'] show ?case unfolding m t(2,3) k .
qed

text \<open>\<open>src\<close> differs from \<open>old\<close> in the announced rows only, and in no connection when the roles exclude it.\<close>

lemma changed_tree:
  assumes "tree_ok {..<length old} (row_key (gp_mode s) old) s" and "gp_mode s \<noteq> Flat"
    and "lastRow < length old" and "length src = length old"
    and "\<And>r. r < length old \<Longrightarrow> \<not> (keyRole \<and> firstRow \<le> r \<and> r \<le> lastRow) \<Longrightarrow> sr_conn (src ! r) = sr_conn (old ! r)"
  shows "tree_ok {..<length src} (row_key (gp_mode s) src) (onSourceDataChanged src firstRow lastRow keyRole s)"
proof (cases keyRole)
  case False
  have "row_key (gp_mode s) old r = row_key (gp_mode s) src r" if "r \<in> {..<length old}" for r
    using that assms(5) [of r] False by (simp add: row_key_def)
  then have "part_weak {..<length src} (row_key (gp_mode s) src) (gp_groups s)"
    using assms(1,4) part_weak_cong [of "{..<length old}" "row_key (gp_mode s) old" "row_key (gp_mode s) src"] by (simp add: tree_ok_def)
  then show ?thesis using assms(1) False by (simp add: onSourceDataChanged_def tree_ok_def Let_def)
next
  case True
  define s0 where "s0 = s\<lparr>gp_src := Some src\<rparr>"
  define rows where "rows = [firstRow..<lastRow + 1]"
  obtain moved t where mt: "regroup_rows src rows (False, s0) = (moved, t)" by fastforce
  define keyf where "keyf r = (if r \<in> set rows then row_key (gp_mode s0) src r else row_key (gp_mode s) old r)" for r
  have "tree_ok {..<length old} (row_key (gp_mode s) old) s0" using assms(1) by (simp add: s0_def tree_ok_def)
  moreover have "gp_mode s0 \<noteq> Flat" "set rows \<subseteq> {..<length old}" using assms(2,3) by (auto simp: s0_def rows_def)
  ultimately have t: "tree_ok {..<length old} keyf t"
    using regroup_rows_tree [of "{..<length old}" "row_key (gp_mode s) old" s0 rows src False] mt by (simp add: keyf_def [abs_def])
  have "keyf r = row_key (gp_mode s) src r" if "r \<in> {..<length old}" for r
    using that assms(5) [of r] by (auto simp: keyf_def rows_def s0_def row_key_def)
  then have "part_weak {..<length src} (row_key (gp_mode s) src) (gp_groups t)"
    using t part_weak_cong [of "{..<length old}" keyf "row_key (gp_mode s) src"] assms(4) by (simp add: tree_ok_def)
  then have t': "tree_ok {..<length src} (row_key (gp_mode s) src) t" using t by (simp add: tree_ok_def)
  have "onSourceDataChanged src firstRow lastRow keyRole s = (if moved then resortGroupsPreservingIndexes t else t)"
    unfolding onSourceDataChanged_def Let_def s0_def [symmetric] rows_def [symmetric] mt using True assms(2) by (simp add: s0_def)
  then show ?thesis using t' resort_tree [OF t'] by simp
qed

section \<open>Reachable trees\<close>

inductive gp_reachable :: "GroupProxy \<Rightarrow> bool" where
  gp_new: "gp_reachable mk_GroupProxy"
| gp_source: "gp_reachable s \<Longrightarrow> gp_reachable (setSourceModel src s)"
| gp_view: "gp_reachable s \<Longrightarrow> src' = None \<longleftrightarrow> gp_src s = None \<Longrightarrow> gp_reachable (setViewMode mode src' s)"
| gp_reset: "gp_reachable s \<Longrightarrow> gp_src s \<noteq> None \<Longrightarrow> gp_reachable (onSourceReset src s)"
| gp_layout: "gp_reachable s \<Longrightarrow> gp_src s \<noteq> None \<Longrightarrow> gp_reachable (onSourceLayoutChanged src s)"
| gp_insert: "gp_reachable s \<Longrightarrow> gp_src s = Some old \<Longrightarrow> first \<le> length old \<Longrightarrow> first \<le> lastRow \<Longrightarrow> length ins = lastRow + 1 - first \<Longrightarrow>
    gp_reachable (onSourceRowsInserted (take first old @ ins @ drop first old) first lastRow s)"
| gp_remove: "gp_reachable s \<Longrightarrow> gp_src s = Some old \<Longrightarrow> first \<le> lastRow \<Longrightarrow> lastRow < length old \<Longrightarrow>
    gp_reachable (onSourceRowsRemoved (take first old @ drop (lastRow + 1) old) first lastRow s)"
| gp_change: "gp_reachable s \<Longrightarrow> gp_src s = Some old \<Longrightarrow> lastRow < length old \<Longrightarrow> length src = length old \<Longrightarrow>
    (\<And>r. r < length old \<Longrightarrow> \<not> (keyRole \<and> firstRow \<le> r \<and> r \<le> lastRow) \<Longrightarrow> sr_conn (src ! r) = sr_conn (old ! r)) \<Longrightarrow>
    gp_reachable (onSourceDataChanged src firstRow lastRow keyRole s)"
| gp_sorted: "gp_reachable s \<Longrightarrow> gp_reachable (gp_sort column ascending src' perm s)"
| gp_within: "gp_reachable s \<Longrightarrow> gp_reachable (setSortWithinGroups on s)"
| gp_details: "gp_reachable s \<Longrightarrow> gp_reachable (setShowGroupDetails on s)"
| gp_hold: "gp_reachable s \<Longrightarrow> gp_reachable (s\<lparr>gp_persistent := p # gp_persistent s\<rparr>)"

definition gp_inv :: "GroupProxy \<Rightarrow> bool" where
  "gp_inv s = (gp_mode s \<noteq> Flat \<longrightarrow> (\<forall>src. gp_src s = Some src \<longrightarrow> tree_ok {..<length src} (row_key (gp_mode s) src) s))"

lemma gp_invI: "(\<And>src. gp_mode s \<noteq> Flat \<Longrightarrow> gp_src s = Some src \<Longrightarrow> tree_ok {..<length src} (row_key (gp_mode s) src) s) \<Longrightarrow> gp_inv s"
  by (simp add: gp_inv_def)

lemma tree_ok_persistent [simp]: "tree_ok R keyf (s\<lparr>gp_persistent := p\<rparr>) \<longleftrightarrow> tree_ok R keyf s"
  by (simp add: tree_ok_def)

lemma rebuilt_inv: "gp_inv ((rebuild s)\<lparr>gp_persistent := p\<rparr>)"
  using rebuild_tree [of s] by (intro gp_invI) simp

lemma resort_inv: "gp_inv s \<Longrightarrow> gp_inv (resortGroupsPreservingIndexes s)"
  using resort_tree by (simp add: gp_inv_def)

lemma source_ops_sel [simp]:
  "gp_mode (onSourceRowsInserted src first lastRow s) = gp_mode s" "gp_src (onSourceRowsInserted src first lastRow s) = Some src"
  "gp_mode (onSourceRowsRemoved src first lastRow s) = gp_mode s" "gp_src (onSourceRowsRemoved src first lastRow s) = Some src"
proof -
  have j: "gp_mode (fold (join_group src) rows t) = gp_mode t \<and> gp_src (fold (join_group src) rows t) = gp_src t" for rows t
    by (induction rows arbitrary: t) simp_all
  have d: "gp_mode (fold drop_group is t) = gp_mode t \<and> gp_src (fold drop_group is t) = gp_src t" for "is" t
    by (induction "is" arbitrary: t) simp_all
  have r: "gp_mode (fst (fold removed_row rows x)) = gp_mode (fst x) \<and> gp_src (fst (fold removed_row rows x)) = gp_src (fst x)" for rows x
  proof (induction rows arbitrary: x)
    case (Cons a rows)
    have "gp_mode (fst (removed_row a x)) = gp_mode (fst x) \<and> gp_src (fst (removed_row a x)) = gp_src (fst x)"
      by (cases x) (simp add: removed_row_def case_prod_beta Let_def split: option.split)
    then show ?case using Cons [of "removed_row a x"] by simp
  qed simp
  show "gp_mode (onSourceRowsInserted src first lastRow s) = gp_mode s" "gp_src (onSourceRowsInserted src first lastRow s) = Some src"
    unfolding onSourceRowsInserted_def Let_def using j by (simp_all add: qt_flat_inserted_def)
  show "gp_mode (onSourceRowsRemoved src first lastRow s) = gp_mode s" "gp_src (onSourceRowsRemoved src first lastRow s) = Some src"
    unfolding onSourceRowsRemoved_def Let_def case_prod_beta using d r by (simp_all add: qt_flat_removed_def)
qed

lemma changed_sel [simp]:
  "gp_mode (onSourceDataChanged src a b k s) = gp_mode s" "gp_src (onSourceDataChanged src a b k s) = Some src"
proof -
  have one: "gp_mode (snd (regroupSourceRow src r t)) = gp_mode t \<and> gp_src (snd (regroupSourceRow src r t)) = gp_src t" for r t
    unfolding regroupSourceRow_def Let_def by (auto split: option.split prod.split)
  have "gp_mode (snd (regroup_rows src rows x)) = gp_mode (snd x) \<and> gp_src (snd (regroup_rows src rows x)) = gp_src (snd x)" for rows x
    unfolding regroup_rows_def
  proof (induction rows arbitrary: x)
    case (Cons r rows)
    show ?case using Cons one by (simp add: case_prod_beta Let_def)
  qed simp
  then show "gp_mode (onSourceDataChanged src a b k s) = gp_mode s" "gp_src (onSourceDataChanged src a b k s) = Some src"
    unfolding onSourceDataChanged_def Let_def case_prod_beta by simp_all
qed

lemma gp_reachable_inv: "gp_reachable s \<Longrightarrow> gp_inv s"
proof (induction rule: gp_reachable.induct)
  case gp_new
  show ?case by (simp add: gp_inv_def mk_GroupProxy_def)
next
  case (gp_source s src)
  show ?case unfolding setSourceModel_def by (rule rebuilt_inv)
next
  case (gp_view s src' mode)
  then show ?case using rebuilt_inv by (simp add: setViewMode_def)
next
  case (gp_reset s src)
  show ?case unfolding onSourceReset_def by (rule rebuilt_inv)
next
  case (gp_layout s src)
  show ?case
  proof (cases "gp_mode s = Flat")
    case True
    then show ?thesis by (simp add: onSourceLayoutChanged_def gp_inv_def)
  next
    case False
    then show ?thesis unfolding onSourceLayoutChanged_def onSourceReset_def if_not_P [OF False] by (intro rebuilt_inv)
  qed
next
  case (gp_insert s old first lastRow ins)
  show ?case
    by (rule gp_invI) (use gp_insert inserted_tree [of old s first _ ins lastRow] in \<open>simp add: gp_inv_def\<close>)
next
  case (gp_remove s old first lastRow)
  show ?case
    by (rule gp_invI) (use gp_remove removed_tree [of old s first lastRow] in \<open>simp add: gp_inv_def\<close>)
next
  case (gp_change s old lastRow src keyRole firstRow)
  show ?case
  proof (rule gp_invI)
    fix src' assume m: "gp_mode (onSourceDataChanged src firstRow lastRow keyRole s) \<noteq> Flat"
      and s': "gp_src (onSourceDataChanged src firstRow lastRow keyRole s) = Some src'"
    have "tree_ok {..<length old} (row_key (gp_mode s) old) s" using gp_change.IH gp_change.hyps(2) m by (simp add: gp_inv_def)
    from changed_tree [OF this _ gp_change.hyps(3,4,5)] show
      "tree_ok {..<length src'} (row_key (gp_mode (onSourceDataChanged src firstRow lastRow keyRole s)) src') (onSourceDataChanged src firstRow lastRow keyRole s)"
      using m s' by simp
  qed
next
  case (gp_sorted s column ascending src' perm)
  have i: "gp_inv (s\<lparr>gp_sortColumn := column, gp_ascending := ascending\<rparr>)" using gp_sorted.IH by (simp add: gp_inv_def tree_ok_def)
  show ?case unfolding gp_sort_def Let_def using i resort_inv [OF i] by (auto simp: gp_inv_def)
next
  case (gp_within s on)
  have "gp_inv (s\<lparr>gp_sortWithinGroups := on\<rparr>)" using gp_within.IH by (simp add: gp_inv_def tree_ok_def)
  then show ?case using gp_within.IH resort_inv by (simp add: setSortWithinGroups_def)
qed (simp_all add: gp_inv_def tree_ok_def setShowGroupDetails_def)


section \<open>Keys\<close>

lemma process_key: "groupKeyFor ByProcess c =
    (if 0 < pi_pid (c_process c) then show_int (pi_pid (c_process c)) @ ''/'' @ pi_comm (c_process c) else ''(unattributed)'')"
  using qarg_pair [of "CHR ''/''" "show_int (pi_pid (c_process c))"] by (simp add: groupKeyFor_def show_int_no_percent is_digit_def)

lemma groupKeyFor_nonempty: "mode \<noteq> Flat \<Longrightarrow> groupKeyFor mode c \<noteq> []"
  by (cases mode) (simp_all add: process_key, simp_all add: groupKeyFor_def)

section \<open>Exactness of the tree\<close>

lemma key_index_find:
  assumes "distinct (map gr_key gs)"
  shows "hfind (key_index gs) k = Some i \<longleftrightarrow> i < length gs \<and> gr_key (gs ! i) = k"
proof -
  have f: "fold (\<lambda>(gi, g) m. hinsert (gr_key g) gi m) xs m = fold (\<lambda>(k, v). hinsert k v) (map (\<lambda>(gi, g). (gr_key g, gi)) xs) m"
    for xs :: "(nat \<times> Group) list" and m by (induction xs arbitrary: m) auto
  have keys: "map fst (map (\<lambda>(gi, g). (gr_key g, gi)) (enumerate 0 gs)) = map gr_key gs"
    by (rule nth_equalityI) (simp_all add: nth_enumerate_eq)
  have "hfind (key_index gs) k = Some i \<longleftrightarrow> (k, i) \<in> set (map (\<lambda>(gi, g). (gr_key g, gi)) (enumerate 0 gs))"
    unfolding key_index_def f by (rule fold_hinsert_find) (use assms keys in simp)
  then show ?thesis by (force simp: in_set_enumerate_eq)
qed

lemma resort_keys: "gr_key ` set (gp_groups (resortGroupsPreservingIndexes s)) = gr_key ` set (gp_groups s)"
proof (cases rule: resort_cases [of s])
  case (2 col src)
  have k: "gr_key ` set gs = fst ` set_mset (mset (map shape gs))" for gs by (force simp: shape_def)
  show ?thesis unfolding 2(4) k sortGroups_shape ..
qed simp

definition proxy_valid :: "GroupProxy \<Rightarrow> ModelIndex \<Rightarrow> bool" where
  "proxy_valid s i = (gp_index s (mi_row i) (mi_col i) (gp_parent s (Some i)) = Some i)"

lemma tree_okD:
  assumes "tree_ok {..<length src} (row_key mode src) s" and "g \<in> set (gp_groups s)"
  shows "gr_srcRows g \<noteq> []" and "distinct (gr_srcRows g)" and "set (gr_srcRows g) = {r. r < length src \<and> groupKeyFor mode (sr_conn (src ! r)) = gr_key g}"
  using assms by (auto simp: tree_ok_def part_weak_def no_empty_def row_key_def)

lemma group_key_nonempty:
  assumes "tree_ok {..<length src} (row_key mode src) s" and "mode \<noteq> Flat" and "g \<in> set (gp_groups s)"
  shows "gr_key g \<noteq> []"
proof -
  obtain r where "r \<in> set (gr_srcRows g)" using tree_okD(1) [OF assms(1,3)] by (cases "gr_srcRows g") auto
  then have "groupKeyFor mode (sr_conn (src ! r)) = gr_key g" using tree_okD(3) [OF assms(1,3)] by auto
  then show ?thesis using groupKeyFor_nonempty [OF assms(2)] by metis
qed

lemma row_located:
  assumes "tree_ok {..<length src} (row_key (gp_mode s) src) s" and "r < length src"
  obtains gi ci where "gi < length (gp_groups s)" and "ci < length (gr_srcRows (gp_groups s ! gi))" and "gr_srcRows (gp_groups s ! gi) ! ci = r"
    and "hfind (gp_srcIndex s) r = Some (gi, ci)" and "gr_key (gp_groups s ! gi) = groupKeyFor (gp_mode s) (sr_conn (src ! r))"
proof -
  have "row_key (gp_mode s) src r \<in> gr_key ` set (gp_groups s)" using assms by (auto simp: tree_ok_def part_weak_def)
  then obtain gi where gi: "gi < length (gp_groups s)" "gr_key (gp_groups s ! gi) = row_key (gp_mode s) src r" by (metis imageE in_set_conv_nth)
  have "r \<in> set (gr_srcRows (gp_groups s ! gi))" using tree_okD(3) [OF assms(1) nth_mem [OF gi(1)]] gi(2) assms(2) by (simp add: row_key_def)
  then obtain ci where ci: "ci < length (gr_srcRows (gp_groups s ! gi))" "gr_srcRows (gp_groups s ! gi) ! ci = r" by (metis in_set_conv_nth)
  have "hfind (gp_srcIndex s) r = Some (gi, ci)" using assms(1) gi(1) ci by (simp add: tree_ok_def index_ok_def)
  with gi ci that show ?thesis by (simp add: row_key_def)
qed

text \<open>C33: in a grouped view, after any sequence of source changes, sorts and mode changes, the groups have different keys,
  each group has at least one row and its rows are exactly the source rows with its key, every source row has one valid
  place in the tree, and the two index mappings are inverse to each other.\<close>

theorem grouped_tree_exact:
  assumes "gp_reachable s" and "gp_mode s \<noteq> Flat" and "gp_src s = Some src"
  shows "distinct (map gr_key (gp_groups s)) \<and>
    (\<forall>g \<in> set (gp_groups s). gr_srcRows g \<noteq> [] \<and> distinct (gr_srcRows g) \<and>
       set (gr_srcRows g) = {r. r < length src \<and> groupKeyFor (gp_mode s) (sr_conn (src ! r)) = gr_key g}) \<and>
    (\<forall>r < length src. \<exists>i. mapFromSource s r col = Some i \<and> mapToSource s (Some i) = Some (r, col) \<and> proxy_valid s i \<and> mi_col i = col) \<and>
    (\<forall>i. mi_id i \<noteq> None \<longrightarrow> proxy_valid s i \<longrightarrow> (\<exists>r. mapToSource s (Some i) = Some (r, mi_col i) \<and> mapFromSource s r (mi_col i) = Some i))"
proof -
  have t: "tree_ok {..<length src} (row_key (gp_mode s) src) s" using gp_reachable_inv [OF assms(1)] assms(2,3) by (simp add: gp_inv_def)
  have from_src: "\<exists>i. mapFromSource s r col = Some i \<and> mapToSource s (Some i) = Some (r, col) \<and> proxy_valid s i \<and> mi_col i = col"
    if r: "r < length src" for r
  proof -
    obtain gi ci where "gi < length (gp_groups s)" "ci < length (gr_srcRows (gp_groups s ! gi))" "gr_srcRows (gp_groups s ! gi) ! ci = r"
      "hfind (gp_srcIndex s) r = Some (gi, ci)" using row_located [OF t r] by metis
    then show ?thesis using assms(2,3) r by (simp add: mapFromSource_def mapToSource_def proxy_valid_def gp_index_def gp_parent_def src_index_def)
  qed
  have from_proxy: "\<exists>r. mapToSource s (Some i) = Some (r, mi_col i) \<and> mapFromSource s r (mi_col i) = Some i"
    if i: "mi_id i \<noteq> None" "proxy_valid s i" for i
  proof -
    obtain gi where gi: "mi_id i = Some gi" using i(1) by blast
    then have b: "gi < length (gp_groups s)" "mi_row i < length (gr_srcRows (gp_groups s ! gi))"
      using i(2) assms(2) by (auto simp: proxy_valid_def gp_index_def gp_parent_def split: if_splits)
    define r where "r = gr_srcRows (gp_groups s ! gi) ! mi_row i"
    have "r < length src" using tree_okD(3) [OF t nth_mem [OF b(1)]] nth_mem [OF b(2)] by (auto simp: r_def)
    moreover have "hfind (gp_srcIndex s) r = Some (gi, mi_row i)" using t b by (simp add: tree_ok_def index_ok_def r_def)
    ultimately show ?thesis using gi b assms(2,3) by (intro exI [of _ r]) (simp add: mapToSource_def mapFromSource_def src_index_def r_def)
  qed
  show ?thesis using t tree_okD [OF t] from_src from_proxy by (auto simp: tree_ok_def part_weak_def)
qed

definition sample_tree :: GroupProxy where
  "sample_tree = setViewMode ByInterface
     (Some [\<lparr>sr_conn = no_connection, sr_rxRate = 1, sr_txRate = 0, sr_sort = (\<lambda>_. KNum 1)\<rparr>,
            \<lparr>sr_conn = no_connection\<lparr>c_iface := ''eth0''\<rparr>, sr_rxRate = 2, sr_txRate = 0, sr_sort = (\<lambda>_. KNum 2)\<rparr>])
     (setSourceModel (Some []) mk_GroupProxy)"

lemma sample_tree_reachable: "gp_reachable sample_tree"
  unfolding sample_tree_def by (intro gp_view gp_source gp_new) (simp add: setSourceModel_def)

theorem grouped_tree_exact_witness:
  "length (gp_groups sample_tree) = 2 \<and> (\<exists>i. mapFromSource sample_tree 1 0 = Some i \<and> mapToSource sample_tree (Some i) = Some (1, 0))"
proof -
  have m: "gp_mode sample_tree \<noteq> Flat" "gp_src sample_tree \<noteq> None"
    "length (the (gp_src sample_tree)) = 2" "length (gp_groups sample_tree) = 2"
    by (code_simp, code_simp, code_simp, code_simp)
  then obtain src where src: "gp_src sample_tree = Some src" "length src = 2" by auto
  then have "1 < length src" by simp
  with grouped_tree_exact [OF sample_tree_reachable m(1) src(1), of 0] m(4) show ?thesis by blast
qed

text \<open>Re-sorting the groups keeps what each persistent index of the view stands for: the same group or the same source
  row, in the same column, at its new and valid place.\<close>

theorem resort_keeps_identity:
  assumes "gp_reachable s" and "gp_mode s \<noteq> Flat" and "gp_src s = Some src"
    and "k < length (gp_persistent s)" and "gp_persistent s ! k = Some i" and "proxy_valid s i"
  shows "\<exists>j. gp_persistent (resortGroupsPreservingIndexes s) ! k = Some j \<and> proxy_valid (resortGroupsPreservingIndexes s) j \<and>
    identity_of (gp_groups (resortGroupsPreservingIndexes s)) j = identity_of (gp_groups s) i"
proof -
  define t where "t = resortGroupsPreservingIndexes s"
  have ok: "tree_ok {..<length src} (row_key (gp_mode s) src) s" using gp_reachable_inv [OF assms(1)] assms(2,3) by (simp add: gp_inv_def)
  have okt: "tree_ok {..<length src} (row_key (gp_mode s) src) t" unfolding t_def by (rule resort_tree [OF ok])
  have mode: "gp_mode t = gp_mode s" by (simp add: t_def)
  show ?thesis
  proof (cases "t = s")
    case True
    then show ?thesis using assms(5,6) unfolding t_def [symmetric] by auto
  next
    case False
    have p: "gp_persistent t ! k = locate (key_index (gp_groups t)) (gp_srcIndex t) (identity_of (gp_groups s) i)"
      using False assms(4,5) unfolding t_def
      by (auto simp: resortGroupsPreservingIndexes_def Let_def split: option.splits if_splits)
    have keyset: "gr_key ` set (gp_groups t) = gr_key ` set (gp_groups s)" unfolding t_def by (rule resort_keys)
    have dt: "distinct (map gr_key (gp_groups t))" using okt by (simp add: tree_ok_def part_weak_def)
    show ?thesis
    proof (cases "mi_id i")
      case None
      then have r: "mi_row i < length (gp_groups s)" using assms(2,6) by (auto simp: proxy_valid_def gp_index_def gp_parent_def split: if_splits)
      define key where "key = gr_key (gp_groups s ! mi_row i)"
      have "key \<noteq> []" unfolding key_def by (rule group_key_nonempty [OF ok assms(2) nth_mem [OF r]])
      moreover have "key \<in> gr_key ` set (gp_groups t)" unfolding keyset key_def using r by simp
      then obtain gi where gi: "gi < length (gp_groups t)" "gr_key (gp_groups t ! gi) = key" by (metis imageE in_set_conv_nth)
      moreover have "hfind (key_index (gp_groups t)) key = Some gi" using key_index_find [OF dt] gi by blast
      ultimately show ?thesis using p None r assms(2) unfolding t_def [symmetric]
        by (simp add: locate_def identity_of_def key_def [symmetric] proxy_valid_def gp_index_def gp_parent_def mode)
    next
      case (Some gi)
      then have b: "gi < length (gp_groups s)" "mi_row i < length (gr_srcRows (gp_groups s ! gi))"
        using assms(2,6) by (auto simp: proxy_valid_def gp_index_def gp_parent_def split: if_splits)
      define r where "r = gr_srcRows (gp_groups s ! gi) ! mi_row i"
      define key where "key = gr_key (gp_groups s ! gi)"
      have nz: "key \<noteq> []" unfolding key_def by (rule group_key_nonempty [OF ok assms(2) nth_mem [OF b(1)]])
      have r: "r < length src" "groupKeyFor (gp_mode s) (sr_conn (src ! r)) = key"
        using tree_okD(3) [OF ok nth_mem [OF b(1)]] nth_mem [OF b(2)] by (auto simp: r_def key_def)
      obtain hi ci where h: "hi < length (gp_groups t)" "ci < length (gr_srcRows (gp_groups t ! hi))" "gr_srcRows (gp_groups t ! hi) ! ci = r"
        "hfind (gp_srcIndex t) r = Some (hi, ci)" "gr_key (gp_groups t ! hi) = key"
        using row_located [of src t r] okt mode r by metis
      have "hfind (key_index (gp_groups t)) key = Some hi" using key_index_find [OF dt] h(1,5) by blast
      then show ?thesis using p Some b nz h assms(2) unfolding t_def [symmetric]
        by (simp add: locate_def identity_of_def key_def [symmetric] r_def [symmetric] proxy_valid_def gp_index_def gp_parent_def mode)
    qed
  qed
qed

definition sample_selected :: GroupProxy where
  "sample_selected = sample_tree\<lparr>gp_persistent := [Some \<lparr>mi_row = 0, mi_col = 0, mi_id = Some 0\<rparr>]\<rparr>"

theorem resort_keeps_identity_witness:
  "\<exists>j. gp_persistent (resortGroupsPreservingIndexes sample_selected) ! 0 = Some j \<and> proxy_valid (resortGroupsPreservingIndexes sample_selected) j"
proof -
  have "gp_persistent sample_tree = []" by code_simp
  then have r: "gp_reachable sample_selected" using gp_hold [OF sample_tree_reachable] by (simp add: sample_selected_def)
  have m: "gp_mode sample_selected \<noteq> Flat" "gp_src sample_selected \<noteq> None" "proxy_valid sample_selected \<lparr>mi_row = 0, mi_col = 0, mi_id = Some 0\<rparr>"
    by (code_simp, code_simp, code_simp)
  have p: "0 < length (gp_persistent sample_selected)" "gp_persistent sample_selected ! 0 = Some \<lparr>mi_row = 0, mi_col = 0, mi_id = Some 0\<rparr>"
    by (simp_all add: sample_selected_def)
  obtain src where "gp_src sample_selected = Some src" using m(2) by blast
  from resort_keeps_identity [OF r m(1) this p m(3)] show ?thesis by blast
qed

section \<open>Divergences\<close>

text \<open>\<open>QString::arg\<close> is applied twice to one template: a process name that contains a place marker is expanded again by
  the second call and the pid lands inside the name.\<close>

lemma marker_in_name_expands: "qarg (qarg ''%1  [pid %2]'' ''a%1b'') ''42'' = ''a42b  [pid %2]''"
  by code_simp

text \<open>Removing a group shifts the later groups down, and a persistent index to one of their children keeps the number of
  its old group: here the only remaining child, of group 0, is still addressed as a child of group 1 and is not valid any more.\<close>

definition sample_expanded :: GroupProxy where
  "sample_expanded = sample_tree\<lparr>gp_persistent := [Some \<lparr>mi_row = 0, mi_col = 0, mi_id = Some 1\<rparr>]\<rparr>"

lemma removed_group_strands_children:
  "(let s = onSourceRowsRemoved (drop 1 (the (gp_src sample_expanded))) 0 0 sample_expanded in
    proxy_valid sample_expanded \<lparr>mi_row = 0, mi_col = 0, mi_id = Some 1\<rparr> \<and>
    gp_persistent s = [Some \<lparr>mi_row = 0, mi_col = 0, mi_id = Some 1\<rparr>] \<and>
    \<not> proxy_valid s \<lparr>mi_row = 0, mi_col = 0, mi_id = Some 1\<rparr> \<and> mapToSource s (Some \<lparr>mi_row = 0, mi_col = 0, mi_id = Some 1\<rparr>) = None)"
  by code_simp

text \<open>A layout change of the source in flat mode is forwarded without remapping: the index stays on its row number.\<close>

lemma flat_layout_not_remapped: "gp_mode s = Flat \<Longrightarrow> gp_persistent (onSourceLayoutChanged src s) = gp_persistent s"
  by (simp add: onSourceLayoutChanged_def)

end
