(* ===== verification/TuiFormat.thy ===== *)
theory TuiFormat
  imports InterfaceAggregator AgentServices QtText
begin

text \<open>
  \<open>tui/TuiTheme.h\<close> and \<open>tui/TuiFormat.h\<close>: colour themes, columns and their cells, detail rows, sorting, grouping keys,
  the order of groups, word wrapping and the field list of the terminal front end. \<open>toStr\<close> prints an address,
  \<open>dns\<close> is the resolver's cache and \<open>num\<close> prints a fraction.
\<close>

section \<open>Themes\<close>

datatype Role = Normal | Header | TabActive | TabInactive | Footer | SortIndicator | RoleOutbound | RoleInbound | RoleForwarded
  | Stale | Accent | TitleBar | GroupHeader | MenuKey | Cursor | Detail

record ThemeColor =
  thc_fg :: int
  thc_bg :: int
  thc_attr :: nat

record Theme =
  th_name :: string
  th_roles :: "Role \<Rightarrow> ThemeColor"
  th_gaugeBg :: int

definition Default :: int where "Default = - 1"
definition Black :: int where "Black = 0"
definition Red :: int where "Red = 1"
definition Green :: int where "Green = 2"
definition Yellow :: int where "Yellow = 3"
definition Blue :: int where "Blue = 4"
definition Magenta :: int where "Magenta = 5"
definition Cyan :: int where "Cyan = 6"
definition White :: int where "White = 7"

definition attr_None :: nat where "attr_None = 0"
definition Bold :: nat where "Bold = 1"
definition Dim :: nat where "Dim = 2"
definition Reverse :: nat where "Reverse = 4"
definition Underline :: nat where "Underline = 8"

lemmas color_defs = Default_def Black_def Red_def Green_def Yellow_def Blue_def Magenta_def Cyan_def White_def
  attr_None_def Bold_def Dim_def Reverse_def Underline_def

text \<open>Attribute bits are joined with \<open>or\<close>; the bits are different, so the sum is the same.\<close>

definition makeTheme :: "string \<Rightarrow> (Role \<times> int \<times> int \<times> nat) list \<Rightarrow> Theme" where
  "makeTheme name entries =
     \<lparr>th_name = name,
      th_roles = fold (\<lambda>(r, fg, bg, a) m. m(r := \<lparr>thc_fg = fg, thc_bg = bg, thc_attr = a\<rparr>)) entries
        (\<lambda>_. \<lparr>thc_fg = Default, thc_bg = Default, thc_attr = attr_None\<rparr>),
      th_gaugeBg = - 1\<rparr>"

definition darkTheme :: Theme where
  "darkTheme = makeTheme ''dark''
     [(Header, Black, Yellow, Bold), (TabActive, Default, Default, Reverse + Bold), (TabInactive, Default, Default, Dim),
      (Footer, Default, Default, Reverse), (SortIndicator, Yellow, Default, Bold), (RoleOutbound, Green, Default, attr_None),
      (RoleInbound, Red, Default, attr_None), (RoleForwarded, Yellow, Default, attr_None), (Stale, Default, Default, Dim),
      (Accent, Blue, Default, Bold), (TitleBar, White, Blue, Bold), (GroupHeader, Cyan, Default, Bold),
      (MenuKey, Default, Default, Reverse + Bold), (Cursor, Black, Cyan, Bold), (Detail, Cyan, Default, Dim)]"

definition lightTheme :: Theme where
  "lightTheme = makeTheme ''light''
     [(Header, Black, Yellow, Bold), (TabActive, Default, Default, Reverse + Bold), (TabInactive, Default, Default, Dim),
      (Footer, Default, Default, Reverse), (SortIndicator, Magenta, Default, Bold), (RoleOutbound, Green, Default, Bold),
      (RoleInbound, Red, Default, Bold), (RoleForwarded, Magenta, Default, attr_None), (Stale, Default, Default, Dim),
      (Accent, Blue, Default, Bold), (TitleBar, White, Blue, Bold), (GroupHeader, Blue, Default, Bold),
      (MenuKey, Default, Default, Reverse + Bold), (Cursor, Black, Cyan, Bold), (Detail, Blue, Default, Dim)]"

definition colorblindTheme :: Theme where
  "colorblindTheme = makeTheme ''colorblind''
     [(Header, Black, Yellow, Bold), (TabActive, Default, Default, Reverse + Bold), (TabInactive, Default, Default, Dim),
      (Footer, Default, Default, Reverse), (SortIndicator, White, Default, Bold), (RoleOutbound, Cyan, Default, attr_None),
      (RoleInbound, Magenta, Default, attr_None), (RoleForwarded, Yellow, Default, attr_None), (Stale, Default, Default, Dim),
      (Accent, Cyan, Default, Bold), (TitleBar, White, Blue, Bold), (GroupHeader, Cyan, Default, Bold),
      (MenuKey, Default, Default, Reverse + Bold), (Cursor, Black, Cyan, Bold), (Detail, Cyan, Default, Dim)]"

definition monoTheme :: Theme where
  "monoTheme = makeTheme ''mono''
     [(Header, Default, Default, Reverse), (TabActive, Default, Default, Reverse + Bold), (TabInactive, Default, Default, Dim),
      (Footer, Default, Default, Reverse), (SortIndicator, Default, Default, Bold), (RoleOutbound, Default, Default, attr_None),
      (RoleInbound, Default, Default, Bold), (RoleForwarded, Default, Default, Underline), (Stale, Default, Default, Dim),
      (Accent, Default, Default, Bold), (TitleBar, Default, Default, Reverse + Bold), (GroupHeader, Default, Default, Bold + Underline),
      (MenuKey, Default, Default, Reverse + Bold), (Cursor, Default, Default, Reverse + Bold), (Detail, Default, Default, Dim)]"

definition builtinThemes :: "Theme list" where
  "builtinThemes = [darkTheme\<lparr>th_gaugeBg := 240\<rparr>, lightTheme\<lparr>th_gaugeBg := 252\<rparr>, colorblindTheme\<lparr>th_gaugeBg := 240\<rparr>,
     monoTheme\<lparr>th_gaugeBg := - 1\<rparr>]"

definition themeNames :: "string list" where
  "themeNames = map th_name builtinThemes"

text \<open>The theme and whether it was found.\<close>

definition themeByName :: "string \<Rightarrow> Theme \<times> bool" where
  "themeByName name =
     (case find (\<lambda>t. eqCI (th_name t) name) builtinThemes of
        Some t \<Rightarrow> (t, True)
      | None \<Rightarrow> (hd builtinThemes, False))"

section \<open>Columns\<close>

datatype View = Interfaces | Connections

datatype ColumnId = CFlow | CRxRate | CTxRate | CRxTotal | CTxTotal | CProcess | CContainer | CInterface | CMtu | CState | CErrDrop

record TuiColumn =
  tc_id :: ColumnId
  tc_title :: string
  tc_rightAlign :: bool
  tc_fixedWidth :: int
  tc_hideable :: bool
  tc_available :: bool
  tc_visible :: bool

record OptionalColumns =
  oc_process :: bool
  oc_container :: bool

datatype GroupBy = GNone | GInterface | GProcess | GContainer | GCount

definition fixed_column :: "ColumnId \<Rightarrow> string \<Rightarrow> bool \<Rightarrow> int \<Rightarrow> TuiColumn" where
  "fixed_column c title rightAlign width =
     \<lparr>tc_id = c, tc_title = title, tc_rightAlign = rightAlign, tc_fixedWidth = width, tc_hideable = False, tc_available = True, tc_visible = True\<rparr>"

definition kRateW :: int where "kRateW = 11"
definition kTotalW :: int where "kTotalW = 11"
definition kStateW :: int where "kStateW = 9"
definition kMtuW :: int where "kMtuW = 6"
definition kErrW :: int where "kErrW = 11"
definition kIfaceNameW :: nat where "kIfaceNameW = 16"
definition kProcessW :: int where "kProcessW = 18"
definition kContainerW :: int where "kContainerW = 22"

definition columnsFor :: "View \<Rightarrow> OptionalColumns \<Rightarrow> GroupBy \<Rightarrow> TuiColumn list" where
  "columnsFor v optional groupBy =
     (if v = Interfaces then
        [fixed_column CInterface ''Interface'' False 0, fixed_column CRxRate ''RX rate'' True kRateW,
         fixed_column CTxRate ''TX rate'' True kRateW, fixed_column CRxTotal ''RX total'' True kTotalW,
         fixed_column CTxTotal ''TX total'' True kTotalW, fixed_column CMtu ''MTU'' True kMtuW,
         fixed_column CState ''State'' False kStateW, fixed_column CErrDrop ''Err/Drop'' True kErrW]
      else
        [fixed_column CFlow ''Flow'' False 0, fixed_column CRxRate ''RX rate'' True kRateW,
         fixed_column CTxRate ''TX rate'' True kRateW, fixed_column CRxTotal ''RX total'' True kTotalW,
         fixed_column CTxTotal ''TX total'' True kTotalW] @
        (if oc_process optional \<and> groupBy \<noteq> GProcess
         then [(fixed_column CProcess ''Process'' False kProcessW)\<lparr>tc_hideable := True\<rparr>] else []) @
        (if oc_container optional \<and> groupBy \<noteq> GContainer
         then [(fixed_column CContainer ''Container'' False kContainerW)\<lparr>tc_hideable := True\<rparr>] else []))"

definition overlayColumnsFor :: "View \<Rightarrow> TuiColumn list" where
  "overlayColumnsFor v =
     (if v = Interfaces then columnsFor v \<lparr>oc_process = False, oc_container = False\<rparr> GNone
      else columnsFor v \<lparr>oc_process = True, oc_container = True\<rparr> GNone)"

fun columnIdToken :: "ColumnId \<Rightarrow> string" where
  "columnIdToken CFlow = ''flow''"
| "columnIdToken CRxRate = ''rxRate''"
| "columnIdToken CTxRate = ''txRate''"
| "columnIdToken CRxTotal = ''rxTotal''"
| "columnIdToken CTxTotal = ''txTotal''"
| "columnIdToken CProcess = ''process''"
| "columnIdToken CContainer = ''container''"
| "columnIdToken CInterface = ''interface''"
| "columnIdToken CMtu = ''mtu''"
| "columnIdToken CState = ''state''"
| "columnIdToken CErrDrop = ''errDrop''"

definition columnIdFromToken :: "string \<Rightarrow> ColumnId \<Rightarrow> ColumnId" where
  "columnIdFromToken token fallback =
     (case map_of [(''flow'', CFlow), (''rxRate'', CRxRate), (''txRate'', CTxRate), (''rxTotal'', CRxTotal), (''txTotal'', CTxTotal),
        (''process'', CProcess), (''container'', CContainer), (''interface'', CInterface), (''mtu'', CMtu), (''state'', CState),
        (''errDrop'', CErrDrop)] token of
        Some c \<Rightarrow> c
      | None \<Rightarrow> fallback)"

definition columnIdForLegacyIndex :: "View \<Rightarrow> int \<Rightarrow> ColumnId" where
  "columnIdForLegacyIndex v idx =
     (if v = Interfaces then
        (case map_of [(0, CInterface), (1, CRxRate), (2, CTxRate), (3, CRxTotal), (4, CTxTotal), (5, CMtu), (6, CState), (7, CErrDrop)] idx of
           Some c \<Rightarrow> c | None \<Rightarrow> CInterface)
      else
        (case map_of [(0, CFlow), (1, CRxRate), (2, CTxRate), (3, CRxTotal), (4, CTxTotal)] idx of
           Some c \<Rightarrow> c | None \<Rightarrow> CRxRate))"

text \<open>None is the result -1.\<close>

primrec visualIndexForColumn :: "TuiColumn list \<Rightarrow> ColumnId \<Rightarrow> nat option" where
  "visualIndexForColumn [] fld = None"
| "visualIndexForColumn (c # cs) fld = (if tc_id c = fld then Some 0 else map_option Suc (visualIndexForColumn cs fld))"

definition operStateText :: "quint8 \<Rightarrow> bool \<Rightarrow> string" where
  "operStateText operState isUp =
     (case map_of [(1, ''absent''), (2, ''down''), (3, ''lower-dn''), (4, ''testing''), (5, ''dormant''), (6, ''up'')] operState of
        Some t \<Rightarrow> t
      | None \<Rightarrow> if isUp then ''up'' else ''down'')"

section \<open>Cells\<close>

definition joined :: "string \<Rightarrow> string list \<Rightarrow> string" where
  "joined sep xs = (case xs of [] \<Rightarrow> [] | x # ys \<Rightarrow> x @ concat (map (\<lambda>y. sep @ y) ys))"

definition leftJustified :: "nat \<Rightarrow> string \<Rightarrow> string" where
  "leftJustified w s = s @ replicate (w - length s) (CHR '' '')"

definition combinedIfaceRate :: "IfaceRow \<Rightarrow> real" where
  "combinedIfaceRate r = ir_rxRate r + ir_txRate r"

definition combinedRate :: "ConnRow \<Rightarrow> real" where
  "combinedRate r = cr_rxRate r + cr_txRate r"

definition cellsForInterface :: "(real \<Rightarrow> nat \<Rightarrow> string) \<Rightarrow> IfaceRow \<Rightarrow> string list" where
  "cellsForInterface num r =
     (let s = ir_current r;
          detail = (if if_isLoopback s then [''loopback''] else if if_type s \<noteq> [] then [if_type s] else []) @
            (if if_addresses s \<noteq> [] then [joined '', '' (if_addresses s)] else []);
          name = (if detail \<noteq> [] then leftJustified kIfaceNameW (if_name s) @ em_dash @ '' '' @ joined ''  '' detail else if_name s);
          errs = if_rxErrors s + if_txErrors s;
          drops = if_rxDropped s + if_txDropped s
      in [name, formatByteRate num (ir_rxRate r), formatByteRate num (ir_txRate r), formatBytes num (if_rxBytes s), formatBytes num (if_txBytes s),
          if 0 < if_mtu s then show_nat (unat (if_mtu s)) else em_dash,
          operStateText (if_operState s) (if_isUp s),
          qarg (qarg ''%1/%2'' (show_nat (unat errs))) (show_nat (unat drops))])"

definition processCellText :: "Connection \<Rightarrow> string" where
  "processCellText c =
     (if pi_valid (c_process c) then
        (let name = (if pi_comm (c_process c) = [] then ''pid '' @ show_int (pi_pid (c_process c)) else pi_comm (c_process c))
         in qarg (qarg ''%1 [%2]'' name) (show_int (pi_pid (c_process c))))
      else
        (case c_reason c of
           Forwarded \<Rightarrow> em_dash @ '' forwarded '' @ em_dash
         | Orphaned \<Rightarrow> em_dash @ '' orphaned '' @ em_dash
         | NoLocalSocket \<Rightarrow> em_dash @ '' no socket '' @ em_dash
         | Resolved \<Rightarrow> em_dash))"

definition containerCellText :: "Connection \<Rightarrow> string" where
  "containerCellText c =
     (let ci = c_container c in
      if ct_runtime ci = [] \<and> ct_name ci = [] \<and> ct_id ci = [] then ''(host)''
      else
        (let display = (if ct_name ci \<noteq> [] then ct_name ci else take 12 (ct_id ci));
             primary = (if ct_runtime ci = [] then display else qargs ''%1:%2'' [ct_runtime ci, display])
         in if 2 \<le> length (c_chain c) then qarg (''%1 '' @ right_triangle) primary else primary))"

definition connectionFlowText ::
  "(QHostAddress \<Rightarrow> string) \<Rightarrow> (QHostAddress \<Rightarrow> string) \<Rightarrow> ConnectionAggregator \<Rightarrow> Connection \<Rightarrow> string" where
  "connectionFlowText toStr dns agg c =
     qargs (''%1  %2 '' @ right_arrow @ '' %3'')
       [ca_protoLabel agg c, ca_endpointText toStr dns agg (c_local c), ca_endpointText toStr dns agg (c_remote c)]"

definition cellsForConnection ::
  "(real \<Rightarrow> nat \<Rightarrow> string) \<Rightarrow> (QHostAddress \<Rightarrow> string) \<Rightarrow> (QHostAddress \<Rightarrow> string) \<Rightarrow> ConnectionAggregator \<Rightarrow> ConnRow \<Rightarrow>
   TuiColumn list \<Rightarrow> string list" where
  "cellsForConnection num toStr dns agg r columns =
     map (\<lambda>col. case tc_id col of
        CFlow \<Rightarrow> connectionFlowText toStr dns agg (cr_current r)
      | CRxRate \<Rightarrow> formatByteRate num (cr_rxRate r)
      | CTxRate \<Rightarrow> formatByteRate num (cr_txRate r)
      | CRxTotal \<Rightarrow> formatBytes num (c_rxBytes (cr_current r))
      | CTxTotal \<Rightarrow> formatBytes num (c_txBytes (cr_current r))
      | CProcess \<Rightarrow> processCellText (cr_current r)
      | CContainer \<Rightarrow> containerCellText (cr_current r)
      | _ \<Rightarrow> []) columns"

definition groupHeaderCells ::
  "(real \<Rightarrow> nat \<Rightarrow> string) \<Rightarrow> TuiColumn list \<Rightarrow> string \<Rightarrow> real \<Rightarrow> real \<Rightarrow> quint64 \<Rightarrow> quint64 \<Rightarrow> string list" where
  "groupHeaderCells num columns labelCell rxRate txRate rxBytes txBytes =
     map (\<lambda>col. case tc_id col of
        CFlow \<Rightarrow> labelCell
      | CRxRate \<Rightarrow> formatByteRate num rxRate
      | CTxRate \<Rightarrow> formatByteRate num txRate
      | CRxTotal \<Rightarrow> formatBytes num rxBytes
      | CTxTotal \<Rightarrow> formatBytes num txBytes
      | _ \<Rightarrow> []) columns"

definition interfaceKey :: "IfaceRow \<Rightarrow> string" where
  "interfaceKey r = if_name (ir_current r)"

definition connectionKey :: "(QHostAddress \<Rightarrow> string) \<Rightarrow> ConnRow \<Rightarrow> string" where
  "connectionKey toStr r = conn_key toStr (cr_current r)"


section \<open>Detail rows\<close>

record SettingRow =
  sr_label :: string
  sr_value :: string
  sr_help :: string

abbreviation detail_row :: "string \<Rightarrow> string \<Rightarrow> SettingRow" where
  "detail_row label value \<equiv> \<lparr>sr_label = label, sr_value = value, sr_help = []\<rparr>"

definition rx_tx :: "quint64 \<Rightarrow> quint64 \<Rightarrow> string" where
  "rx_tx rx tx = qarg (qarg ''rx %1  tx %2'' (show_nat (unat rx))) (show_nat (unat tx))"

definition interfaceDetailRows :: "(real \<Rightarrow> nat \<Rightarrow> string) \<Rightarrow> IfaceRow \<Rightarrow> SettingRow list" where
  "interfaceDetailRows num r =
     (let s = ir_current r in
      [detail_row ''Type'' (if if_isLoopback s then ''loopback'' else if if_type s = [] then em_dash else if_type s),
       detail_row ''Addresses'' (if if_addresses s = [] then em_dash else joined '', '' (if_addresses s)),
       detail_row ''MTU'' (if if_mtu s \<noteq> 0 then show_nat (unat (if_mtu s)) else em_dash),
       detail_row ''ifindex'' (show_nat (unat (if_ifIndex s))),
       detail_row ''State'' (qarg (qarg ''%1 (oper %2)'' (operStateText (if_operState s) (if_isUp s))) (show_nat (unat (if_operState s)))),
       detail_row ''RX rate'' (formatByteRate num (ir_rxRate r)),
       detail_row ''TX rate'' (formatByteRate num (ir_txRate r)),
       detail_row ''RX total'' (formatBytes num (if_rxBytes s)),
       detail_row ''TX total'' (formatBytes num (if_txBytes s)),
       detail_row ''Packets'' (rx_tx (if_rxPackets s) (if_txPackets s)),
       detail_row ''Errors'' (rx_tx (if_rxErrors s) (if_txErrors s)),
       detail_row ''Dropped'' (rx_tx (if_rxDropped s) (if_txDropped s))])"

fun unattributedLabel :: "AttributionReason \<Rightarrow> string" where
  "unattributedLabel Forwarded = ''(forwarded '' @ em_dash @ '' no local process)''"
| "unattributedLabel Orphaned = ''(orphaned '' @ em_dash @ '' socket gone)''"
| "unattributedLabel NoLocalSocket = ''(no local socket)''"
| "unattributedLabel Resolved = ''(unattributed)''"

definition appendProcessDetailRows :: "ProcessDetails option \<Rightarrow> SettingRow list" where
  "appendProcessDetailRows pd =
     (case pd of
        None \<Rightarrow> []
      | Some d \<Rightarrow>
          if \<not> det_valid d then []
          else (if det_exe d \<noteq> [] then [detail_row ''Exe'' (det_exe d)] else []) @
               (if det_cmdline d \<noteq> [] then [detail_row ''Cmdline'' (det_cmdline d)] else []) @
               (if det_cwd d \<noteq> [] then [detail_row ''Cwd'' (det_cwd d)] else []))"

definition directionText :: "Direction \<Rightarrow> string" where
  "directionText d = (if d = Outbound then ''outbound'' else if d = Inbound then ''inbound'' else ''unknown'')"

definition connectionDetailRows ::
  "(real \<Rightarrow> nat \<Rightarrow> string) \<Rightarrow> (QHostAddress \<Rightarrow> string) \<Rightarrow> (QHostAddress \<Rightarrow> string) \<Rightarrow> ConnectionAggregator \<Rightarrow> ConnRow \<Rightarrow>
   ProcessDetails option \<Rightarrow> SettingRow list" where
  "connectionDetailRows num toStr dns agg r pd =
     (let c = cr_current r; tcp = tcpStateToString (c_tcpState c); p = c_process c; ci = c_container c in
      [detail_row ''Protocol'' (ca_protoLabel agg c),
       detail_row ''Local'' (ca_endpointText toStr dns agg (c_local c)),
       detail_row ''Remote'' (ca_endpointText toStr dns agg (c_remote c)),
       detail_row ''Direction'' (directionText (c_direction c)),
       detail_row ''Interface'' (qarg (qarg ''%1 (ifindex %2)'' (if c_iface c = [] then em_dash else c_iface c)) (show_nat (unat (c_ifIndex c))))] @
      (if tcp \<noteq> [] then [detail_row ''TCP state'' tcp] else []) @
      [detail_row ''Process''
        (if pi_valid p
         then qarg (qarg (qarg ''%1 [%2] uid %3'' (if pi_comm p = [] then ''?'' else pi_comm p)) (show_int (pi_pid p))) (show_nat (unat (pi_uid p)))
         else unattributedLabel (c_reason c))] @
      appendProcessDetailRows pd @
      (if ct_valid ci
       then [detail_row ''Container'' (qargs ''%1 %2 (%3)'' [ct_runtime ci, if ct_name ci = [] then ct_id ci else ct_name ci, ct_id ci])] else []) @
      [detail_row ''RX rate'' (formatByteRate num (cr_rxRate r)),
       detail_row ''TX rate'' (formatByteRate num (cr_txRate r)),
       detail_row ''RX total'' (formatBytes num (c_rxBytes c)),
       detail_row ''TX total'' (formatBytes num (c_txBytes c)),
       detail_row ''Packets'' (rx_tx (c_rxPackets c) (c_txPackets c))])"

definition rowRoleForInterface :: "IfaceRow \<Rightarrow> Role" where
  "rowRoleForInterface r =
     (let s = ir_current r in
      if if_isLoopback s then Stale
      else if \<not> if_isUp s \<or> if_operState s = 2 \<or> if_operState s = 1 then Stale
      else if 0 < ir_rxRate r + ir_txRate r then RoleOutbound
      else Normal)"

definition rowRoleForConnection :: "ConnectionAggregator \<Rightarrow> ConnRow \<Rightarrow> Role" where
  "rowRoleForConnection agg r =
     (if cr_stale r then Stale
      else if ca_isForwardedFlow agg (cr_current r) then RoleForwarded
      else if c_direction (cr_current r) = Outbound then RoleOutbound
      else if c_direction (cr_current r) = Inbound then RoleInbound
      else Normal)"

section \<open>Sorting\<close>

definition containerSortKey :: "Connection \<Rightarrow> string" where
  "containerSortKey c =
     (if ct_name (c_container c) \<noteq> [] then ct_name (c_container c)
      else if ct_id (c_container c) \<noteq> [] then ct_id (c_container c)
      else CHR 0x01 # ''(host)'')"

definition iface_number :: "ColumnId \<Rightarrow> IfaceRow \<Rightarrow> real" where
  "iface_number fld r =
     (case fld of
        CRxRate \<Rightarrow> ir_rxRate r
      | CTxRate \<Rightarrow> ir_txRate r
      | CRxTotal \<Rightarrow> real (unat (if_rxBytes (ir_current r)))
      | CTxTotal \<Rightarrow> real (unat (if_txBytes (ir_current r)))
      | CMtu \<Rightarrow> real (unat (if_mtu (ir_current r)))
      | CState \<Rightarrow> real (unat (if_operState (ir_current r)))
      | CErrDrop \<Rightarrow> real (unat (if_rxErrors (ir_current r) + if_txErrors (ir_current r) + if_rxDropped (ir_current r) + if_txDropped (ir_current r)))
      | _ \<Rightarrow> 0)"

definition iface_less :: "ColumnId \<Rightarrow> IfaceRow \<Rightarrow> IfaceRow \<Rightarrow> bool" where
  "iface_less fld a b =
     (if fld = CInterface then if_name (ir_current a) < if_name (ir_current b) else iface_number fld a < iface_number fld b)"

definition sortedInterfaceIndices :: "IfaceRow list \<Rightarrow> ColumnId \<Rightarrow> bool \<Rightarrow> nat list" where
  "sortedInterfaceIndices rows fld descending =
     (let idx = sort_by (\<lambda>a b. iface_less fld (rows ! a) (rows ! b)) [0..<length rows]
      in if descending then rev idx else idx)"

definition conn_number :: "ColumnId \<Rightarrow> ConnRow \<Rightarrow> real" where
  "conn_number fld r =
     (case fld of
        CRxRate \<Rightarrow> cr_rxRate r
      | CTxRate \<Rightarrow> cr_txRate r
      | CRxTotal \<Rightarrow> real (unat (c_rxBytes (cr_current r)))
      | CTxTotal \<Rightarrow> real (unat (c_txBytes (cr_current r)))
      | CProcess \<Rightarrow> real_of_int (pi_pid (c_process (cr_current r)))
      | _ \<Rightarrow> 0)"

definition conn_less :: "(QHostAddress \<Rightarrow> string) \<Rightarrow> ColumnId \<Rightarrow> ConnRow \<Rightarrow> ConnRow \<Rightarrow> bool" where
  "conn_less toStr fld a b =
     (if fld = CFlow then toStr (ep_address (c_remote (cr_current a))) < toStr (ep_address (c_remote (cr_current b)))
      else if fld = CContainer then containerSortKey (cr_current a) < containerSortKey (cr_current b)
      else conn_number fld a < conn_number fld b)"

definition sortedConnectionIndices :: "(QHostAddress \<Rightarrow> string) \<Rightarrow> ConnRow list \<Rightarrow> ColumnId \<Rightarrow> bool \<Rightarrow> nat list" where
  "sortedConnectionIndices toStr rows fld descending =
     (let idx = sort_by (\<lambda>a b. conn_less toStr fld (rows ! a) (rows ! b)) [0..<length rows]
      in if descending then rev idx else idx)"

section \<open>Grouping\<close>

fun groupByName :: "GroupBy \<Rightarrow> string" where
  "groupByName GInterface = ''interface''"
| "groupByName GProcess = ''process''"
| "groupByName GContainer = ''container''"
| "groupByName GNone = ''off''"
| "groupByName GCount = ''off''"

definition groupByFromName :: "string \<Rightarrow> GroupBy" where
  "groupByFromName name =
     (let n = toLower (trimmed name) in
      if n = ''off'' \<or> n = ''none'' \<or> n = ''flat'' then GNone
      else if n = ''interface'' \<or> n = ''iface'' \<or> n = ''if'' then GInterface
      else if n = ''process'' \<or> n = ''proc'' then GProcess
      else if n = ''container'' \<or> n = ''ctr'' then GContainer
      else GCount)"

definition tui_groupKeyFor :: "GroupBy \<Rightarrow> Connection \<Rightarrow> string" where
  "tui_groupKeyFor g c =
     (case g of
        GInterface \<Rightarrow> c_iface c
      | GProcess \<Rightarrow>
          if pi_valid (c_process c)
          then qarg (qarg (''%1'' @ [CHR 0x01] @ ''%2'') (show_int (pi_pid (c_process c)))) (pi_comm (c_process c)) else []
      | GContainer \<Rightarrow>
          if ct_valid (c_container c)
          then qargs (''%1'' @ [CHR 0x01] @ ''%2'') [ct_runtime (c_container c), ct_id (c_container c)] else []
      | GNone \<Rightarrow> []
      | GCount \<Rightarrow> [])"

definition tui_groupLabelFor :: "GroupBy \<Rightarrow> Connection \<Rightarrow> string" where
  "tui_groupLabelFor g c =
     (case g of
        GInterface \<Rightarrow> if c_iface c = [] then ''(unattributed)'' else c_iface c
      | GProcess \<Rightarrow>
          if \<not> pi_valid (c_process c) then ''(unattributed)''
          else qarg (qarg ''%1 [%2]'' (if pi_comm (c_process c) = [] then ''?'' else pi_comm (c_process c))) (show_int (pi_pid (c_process c)))
      | GContainer \<Rightarrow>
          if \<not> ct_valid (c_container c) then ''(no container)''
          else qargs ''%1 (%2)'' [if ct_name (c_container c) = [] then ct_id (c_container c) else ct_name (c_container c), ct_runtime (c_container c)]
      | GNone \<Rightarrow> []
      | GCount \<Rightarrow> [])"

definition groupDetailRows ::
  "(real \<Rightarrow> nat \<Rightarrow> string) \<Rightarrow> GroupBy \<Rightarrow> Connection \<Rightarrow> real \<Rightarrow> real \<Rightarrow> quint64 \<Rightarrow> quint64 \<Rightarrow> nat \<Rightarrow> ProcessDetails option \<Rightarrow> SettingRow list" where
  "groupDetailRows num mode rep rxRate txRate rxBytes txBytes flowCount pd =
     (let p = c_process rep; ci = c_container rep; ctName = (if ct_name ci = [] then ct_id ci else ct_name ci) in
      [detail_row ''Grouping'' (groupByName mode)] @
      (case mode of
         GInterface \<Rightarrow>
           [detail_row ''Interface'' (qarg (qarg ''%1 (ifindex %2)'' (if c_iface rep = [] then ''(unattributed)'' else c_iface rep)) (show_nat (unat (c_ifIndex rep))))]
       | GProcess \<Rightarrow>
           if pi_valid p
           then [detail_row ''Process'' (if pi_comm p = [] then ''?'' else pi_comm p),
                 detail_row ''PID'' (show_int (pi_pid p)),
                 detail_row ''UID'' (show_nat (unat (pi_uid p)))] @ appendProcessDetailRows pd
           else [detail_row ''Process'' ''(unattributed)'']
       | GContainer \<Rightarrow>
           if ct_valid ci
           then [detail_row ''Runtime'' (ct_runtime ci), detail_row ''Container'' ctName, detail_row ''Id'' (ct_id ci)]
           else [detail_row ''Container'' ''(no container)'']
       | GNone \<Rightarrow> []
       | GCount \<Rightarrow> []) @
      (if mode = GProcess \<and> ct_valid ci then [detail_row ''Container'' (qargs ''%1 %2'' [ct_runtime ci, ctName])] else []) @
      [detail_row ''Flows'' (show_nat flowCount),
       detail_row ''RX rate'' (formatByteRate num rxRate),
       detail_row ''TX rate'' (formatByteRate num txRate),
       detail_row ''RX total'' (formatBytes num rxBytes),
       detail_row ''TX total'' (formatBytes num txBytes)])"

section \<open>Word wrapping\<close>

text \<open>The pieces broken off an over-long word, and what is left of it.\<close>

function hard_break :: "nat \<Rightarrow> string \<Rightarrow> string list \<times> string" where
  "hard_break width word =
     (if 0 < width \<and> width < length word
      then (let (out, rest) = hard_break width (drop width word) in (take width word # out, rest))
      else ([], word))"
  by pat_completeness auto
termination by (relation "measure (\<lambda>(width, word). length word)") auto

declare hard_break.simps [simp del]

definition wrap_word :: "nat \<Rightarrow> string \<Rightarrow> string list \<times> string \<Rightarrow> string list \<times> string" where
  "wrap_word width w x =
     (let (out, line) = x;
          (chunks, word) = hard_break width w;
          (out, line) = (if chunks = [] then (out, line) else (out @ (if line = [] then [] else [line]) @ chunks, []))
      in if line = [] then (out, word)
         else if length line + 1 + length word \<le> width then (out, line @ '' '' @ word)
         else (out @ [line], word))"

definition wrapToWidth :: "string \<Rightarrow> int \<Rightarrow> string list" where
  "wrapToWidth text width =
     (let width = nat (max 1 width) in
      if text = [] then [[]]
      else (let (out, line) = fold (wrap_word width) (qsplit (CHR '' '') text) ([], []) in out @ [line]))"

section \<open>Order of groups\<close>

record GroupSummary =
  gs_rxRate :: real
  gs_txRate :: real
  gs_rxBytes :: quint64
  gs_txBytes :: quint64
  gs_minSrc :: nat
  gs_label :: string

definition group_number :: "ColumnId \<Rightarrow> GroupSummary \<Rightarrow> real" where
  "group_number fld g =
     (case fld of
        CRxRate \<Rightarrow> gs_rxRate g
      | CTxRate \<Rightarrow> gs_txRate g
      | CRxTotal \<Rightarrow> real (unat (gs_rxBytes g))
      | CTxTotal \<Rightarrow> real (unat (gs_txBytes g))
      | _ \<Rightarrow> 0)"

definition group_less :: "ColumnId \<Rightarrow> bool \<Rightarrow> GroupSummary \<Rightarrow> GroupSummary \<Rightarrow> bool" where
  "group_less sortField sortDesc a b =
     (if sortField = CFlow \<or> sortField = CProcess \<or> sortField = CContainer then
        (let la = toLower (gs_label a); lb = toLower (gs_label b) in
         if la \<noteq> lb then (if sortDesc then lb < la else la < lb) else gs_minSrc a < gs_minSrc b)
      else
        (let va = group_number sortField a; vb = group_number sortField b in
         if va = vb then gs_minSrc a < gs_minSrc b else if sortDesc then vb < va else va < vb))"

definition orderedGroupIndices :: "GroupSummary list \<Rightarrow> ColumnId \<Rightarrow> bool \<Rightarrow> bool \<Rightarrow> nat list" where
  "orderedGroupIndices g sortField sortDesc sortWithinGroups =
     (if sortWithinGroups then sort_by (\<lambda>a b. gs_minSrc (g ! a) < gs_minSrc (g ! b)) [0..<length g]
      else sort_by (\<lambda>a b. group_less sortField sortDesc (g ! a) (g ! b)) [0..<length g])"

section \<open>The field list\<close>

definition onOff :: "bool \<Rightarrow> string" where
  "onOff v = (if v then ''on'' else ''off'')"

definition fieldRow :: "ColumnId \<Rightarrow> bool \<Rightarrow> TuiColumn \<Rightarrow> SettingRow" where
  "fieldRow sortField sortDesc c =
     (let marker = (if tc_id c = sortField then (if sortDesc then ''  '' @ down_triangle @ '' desc'' else ''  '' @ up_triangle @ '' asc'') else []) in
      if \<not> tc_hideable c then
        \<lparr>sr_label = tc_title c, sr_value = ''fixed'' @ marker, sr_help = qarg ''Sort by %1. Enter sorts; r reverses.'' (tc_title c)\<rparr>
      else if \<not> tc_available c then
        \<lparr>sr_label = tc_title c, sr_value = ''unavailable'',
         sr_help = qarg ''Requires the agent's %1 capability.''
           (if tc_id c = CContainer then ''container-attribution-wire'' else ''process-attribution-wire'')\<rparr>
      else
        \<lparr>sr_label = tc_title c, sr_value = (if tc_visible c then ''[x]'' else ''[ ]'') @ marker,
         sr_help = qarg ''Space shows/hides %1; Enter sorts; r reverses.'' (tc_title c)\<rparr>)"

definition fieldRows :: "TuiColumn list \<Rightarrow> ColumnId \<Rightarrow> bool \<Rightarrow> SettingRow list" where
  "fieldRows cols sortField sortDesc = map (fieldRow sortField sortDesc) cols"


section \<open>Wrapping keeps the text and the width\<close>

lemma hard_break_spec:
  "0 < width \<Longrightarrow> hard_break width word = (out, rest) \<Longrightarrow>
   concat out @ rest = word \<and> (\<forall>l \<in> set out. length l = width) \<and> length rest \<le> width \<and> (length word \<le> width \<longrightarrow> out = [])"
proof (induction width word arbitrary: out rest rule: hard_break.induct)
  case (1 width word)
  show ?case
  proof (cases "width < length word")
    case True
    obtain out' rest' where o: "hard_break width (drop width word) = (out', rest')" by fastforce
    have e: "hard_break width word = (take width word # out', rest')" by (subst hard_break.simps) (simp add: True 1(2) o)
    then have e': "out = take width word # out'" "rest = rest'" using 1(3) by simp_all
    have "concat out' @ rest' = drop width word \<and> (\<forall>l \<in> set out'. length l = width) \<and> length rest' \<le> width"
      using 1(1) [OF conjI [OF 1(2) True] 1(2) o] by blast
    then show ?thesis using e' True by simp
  next
    case False
    then have "hard_break width word = ([], word)" by (subst hard_break.simps) simp
    then have "out = []" "rest = word" using 1(3) by simp_all
    then show ?thesis using False by simp
  qed
qed

definition inked :: "string \<Rightarrow> string" where
  "inked = filter (\<lambda>c. c \<noteq> CHR '' '')"

lemma inked_append [simp]: "inked (a @ b) = inked a @ inked b"
  by (simp add: inked_def)

lemma inked_simps [simp]: "inked [] = []" "inked (CHR '' '' # s) = inked s"
  by (simp_all add: inked_def)

definition wrap_ok :: "nat \<Rightarrow> string \<Rightarrow> string list \<times> string \<Rightarrow> bool" where
  "wrap_ok width ink x = ((\<forall>l \<in> set (fst x). length l \<le> width) \<and> length (snd x) \<le> width \<and> inked (concat (fst x) @ snd x) = ink)"

lemma wrap_word_ok: "0 < width \<Longrightarrow> wrap_ok width ink x \<Longrightarrow> wrap_ok width (ink @ inked w) (wrap_word width w x)"
proof -
  assume w: "0 < width" and x: "wrap_ok width ink x"
  obtain out line where x': "x = (out, line)" by fastforce
  obtain chunks word where h: "hard_break width w = (chunks, word)" by fastforce
  have hb: "concat chunks @ word = w" "\<forall>l \<in> set chunks. length l \<le> width" "length word \<le> width" using hard_break_spec [OF w h] by auto
  then have ink: "inked w = inked (concat chunks) @ inked word" by (metis inked_append)
  show ?thesis
  proof (cases "chunks = []")
    case True
    then show ?thesis using x hb ink by (auto simp: wrap_word_def x' h wrap_ok_def)
  next
    case False
    then show ?thesis using x hb ink by (auto simp: wrap_word_def x' h wrap_ok_def)
  qed
qed

lemma wrap_fold_ok: "0 < width \<Longrightarrow> wrap_ok width ink x \<Longrightarrow> wrap_ok width (ink @ inked (concat ws)) (fold (wrap_word width) ws x)"
proof (induction ws arbitrary: ink x)
  case (Cons w ws)
  from Cons.IH [OF Cons.prems(1) wrap_word_ok [OF Cons.prems]] show ?case by simp
qed simp

lemma inked_split: "inked (concat (qsplit (CHR '' '') t)) = inked t"
proof (induction t)
  case (Cons c t)
  show ?case
  proof (cases "c = CHR '' ''")
    case True
    then show ?thesis using Cons by simp
  next
    case False
    obtain u us where s: "qsplit (CHR '' '') t = u # us" by (cases "qsplit (CHR '' '') t") auto
    then show ?thesis using Cons False by (simp add: inked_def)
  qed
qed simp

text \<open>A line that fits is kept whole.\<close>

lemma wrap_joins:
  "line \<noteq> [] \<Longrightarrow> length line + length (concat (map (\<lambda>w. CHR '' '' # w) ws)) \<le> width \<Longrightarrow> 0 < width \<Longrightarrow>
   fold (wrap_word width) ws ([], line) = ([], line @ concat (map (\<lambda>w. CHR '' '' # w) ws))"
proof (induction ws arbitrary: line)
  case (Cons w ws)
  have "hard_break width w = ([], w)" using Cons.prems by (subst hard_break.simps) simp
  then have "wrap_word width w ([], line) = ([], line @ '' '' @ w)" using Cons.prems by (simp add: wrap_word_def)
  then show ?case using Cons.IH [of "line @ '' '' @ w"] Cons.prems by simp
qed simp

lemma split_join: "qsplit (CHR '' '') t = u # us \<Longrightarrow> t = u @ concat (map (\<lambda>w. CHR '' '' # w) us)"
proof (induction t arbitrary: u us)
  case (Cons c t)
  obtain v vs where s: "qsplit (CHR '' '') t = v # vs" by (cases "qsplit (CHR '' '') t") auto
  have "u # us = (if c = CHR '' '' then [] # v # vs else (c # v) # vs)" using Cons.prems s by (simp split: if_splits)
  then show ?case using Cons.IH [OF s] by (cases "c = CHR '' ''") simp_all
qed simp

text \<open>Wrapping yields at least one line, no line is wider than the width, nothing but spaces is lost or moved, and a text
  that fits and does not start with a space stays as it is.\<close>

theorem wrap_keeps_text:
  "wrapToWidth t w \<noteq> [] \<and> (\<forall>l \<in> set (wrapToWidth t w). int (length l) \<le> max 1 w) \<and>
   inked (concat (wrapToWidth t w)) = inked t \<and>
   (t \<noteq> [] \<longrightarrow> hd t \<noteq> CHR '' '' \<longrightarrow> int (length t) \<le> max 1 w \<longrightarrow> wrapToWidth t w = [t])"
proof -
  define width where "width = nat (max 1 w)"
  have w: "0 < width" "int width = max 1 w" by (auto simp: width_def)
  define x where "x = fold (wrap_word width) (qsplit (CHR '' '') t) ([], [])"
  have wr: "wrapToWidth t w = (if t = [] then [[]] else fst x @ [snd x])" by (simp add: wrapToWidth_def x_def width_def case_prod_beta Let_def)
  have "wrap_ok width ([] @ inked (concat (qsplit (CHR '' '') t))) x"
    unfolding x_def by (rule wrap_fold_ok [OF w(1)]) (simp add: wrap_ok_def)
  then have ok: "\<forall>l \<in> set (fst x). length l \<le> width" "length (snd x) \<le> width" "inked (concat (fst x) @ snd x) = inked t"
    by (simp_all add: wrap_ok_def inked_split)
  have whole: "wrapToWidth t w = [t]" if t: "t \<noteq> []" "hd t \<noteq> CHR '' ''" "int (length t) \<le> max 1 w"
  proof -
    obtain u us where s: "qsplit (CHR '' '') t = u # us" by (cases "qsplit (CHR '' '') t") auto
    have j: "t = u @ concat (map (\<lambda>w. CHR '' '' # w) us)" by (rule split_join [OF s])
    have u: "u \<noteq> []"
    proof
      assume "u = []"
      then have "us \<noteq> []" using j t(1) by auto
      then show False using j t(2) \<open>u = []\<close> by (cases us) auto
    qed
    have len: "length t \<le> width" using t(3) w(2) by simp
    have "length u \<le> width" using len j by (metis le_trans length_append le_add1)
    then have "hard_break width u = ([], u)" by (subst hard_break.simps) simp
    then have "wrap_word width u ([], []) = ([], u)" by (simp add: wrap_word_def)
    moreover have "length u + length (concat (map (\<lambda>w. CHR '' '' # w) us)) \<le> width" using len arg_cong [OF j, of length] by simp
    ultimately have "x = ([], u @ concat (map (\<lambda>w. CHR '' '' # w) us))" using wrap_joins [OF u _ w(1), of us] unfolding x_def s by simp
    then have "x = ([], t)" unfolding j [symmetric] .
    then show ?thesis using wr t(1) by simp
  qed
  have b: "\<forall>l \<in> set (wrapToWidth t w). int (length l) \<le> max 1 w" unfolding wr w(2) [symmetric] using ok by (auto split: if_splits)
  have c: "inked (concat (wrapToWidth t w)) = inked t" unfolding wr using ok(3) by simp
  have "wrapToWidth t w \<noteq> []" unfolding wr by simp
  then show ?thesis using whole b c by blast
qed

theorem wrap_keeps_text_witness: "wrapToWidth ''eth0 up'' 10 = [''eth0 up'']"
proof -
  have "(''eth0 up'' :: string) \<noteq> []" "hd ''eth0 up'' \<noteq> CHR '' ''" "int (length (''eth0 up'' :: string)) \<le> max 1 10" by simp_all
  then show ?thesis using wrap_keeps_text [of "''eth0 up''" 10] by blast
qed

section \<open>Orders\<close>

lemma iface_less_weak: "weak_order (iface_less fld)"
proof -
  consider "fld = CInterface" | "fld \<noteq> CInterface" by blast
  then show ?thesis
  proof cases
    case 1
    then have "iface_less fld = (\<lambda>a b. if_name (ir_current a) < if_name (ir_current b))" by (intro ext) (simp add: iface_less_def)
    then show ?thesis using weak_order_key(1) by metis
  next
    case 2
    then have "iface_less fld = (\<lambda>a b. iface_number fld a < iface_number fld b)" by (intro ext) (simp add: iface_less_def)
    then show ?thesis using weak_order_key(1) by metis
  qed
qed

lemma conn_less_weak: "weak_order (conn_less toStr fld)"
proof -
  consider "fld = CFlow" | "fld = CContainer" | "fld \<noteq> CFlow" "fld \<noteq> CContainer" by blast
  then show ?thesis
  proof cases
    case 1
    then have "conn_less toStr fld = (\<lambda>a b. toStr (ep_address (c_remote (cr_current a))) < toStr (ep_address (c_remote (cr_current b))))"
      by (intro ext) (simp add: conn_less_def)
    then show ?thesis using weak_order_key(1) by metis
  next
    case 2
    then have "conn_less toStr fld = (\<lambda>a b. containerSortKey (cr_current a) < containerSortKey (cr_current b))"
      by (intro ext) (simp add: conn_less_def)
    then show ?thesis using weak_order_key(1) by metis
  next
    case 3
    then have "conn_less toStr fld = (\<lambda>a b. conn_number fld a < conn_number fld b)" by (intro ext) (simp add: conn_less_def)
    then show ?thesis using weak_order_key(1) by metis
  qed
qed

lemma weak_order_via: "weak_order lt \<Longrightarrow> weak_order (\<lambda>a b. lt (f a) (f b))"
  unfolding weak_order_def by blast

lemma weak_order_lex:
  fixes f :: "'a \<Rightarrow> 'k :: linorder" and g :: "'a \<Rightarrow> nat"
  shows "weak_order (\<lambda>a b. f a < f b \<or> f a = f b \<and> g a < g b)" and "weak_order (\<lambda>a b. f b < f a \<or> f a = f b \<and> g a < g b)"
proof -
  have a: "\<not> (f x < f y \<or> f x = f y \<and> g x < g y) \<longleftrightarrow> f y < f x \<or> f x = f y \<and> g y \<le> g x"
    and b: "\<not> (f y < f x \<or> f x = f y \<and> g x < g y) \<longleftrightarrow> f x < f y \<or> f x = f y \<and> g y \<le> g x" for x y by auto
  show "weak_order (\<lambda>a b. f a < f b \<or> f a = f b \<and> g a < g b)" unfolding weak_order_def a by auto
  show "weak_order (\<lambda>a b. f b < f a \<or> f a = f b \<and> g a < g b)" unfolding weak_order_def b by auto
qed

lemma weak_order_dir:
  fixes f :: "'a \<Rightarrow> 'k :: linorder" and g :: "'a \<Rightarrow> nat"
  shows "weak_order (\<lambda>a b. (if desc then f b < f a else f a < f b) \<or> f a = f b \<and> g a < g b)"
  using weak_order_lex [of f g] by (cases desc) simp_all

lemma group_less_weak: "weak_order (group_less fld desc)"
proof -
  have lab: "fld = CFlow \<or> fld = CProcess \<or> fld = CContainer \<Longrightarrow> group_less fld desc = (\<lambda>a b.
      (if desc then toLower (gs_label b) < toLower (gs_label a) else toLower (gs_label a) < toLower (gs_label b)) \<or>
      toLower (gs_label a) = toLower (gs_label b) \<and> gs_minSrc a < gs_minSrc b)"
    by (intro ext) (auto simp: group_less_def Let_def)
  have num: "\<not> (fld = CFlow \<or> fld = CProcess \<or> fld = CContainer) \<Longrightarrow> group_less fld desc = (\<lambda>a b.
      (if desc then group_number fld b < group_number fld a else group_number fld a < group_number fld b) \<or>
      group_number fld a = group_number fld b \<and> gs_minSrc a < gs_minSrc b)"
    by (intro ext) (auto simp: group_less_def Let_def)
  show ?thesis
  proof (cases "fld = CFlow \<or> fld = CProcess \<or> fld = CContainer")
    case True
    show ?thesis unfolding lab [OF True] by (rule weak_order_dir)
  next
    case False
    show ?thesis unfolding num [OF False] by (rule weak_order_dir)
  qed
qed


text \<open>The displayed order of flows and of interfaces lists every row once, in the order of the chosen column, from
  the largest down or from the smallest up; groups are listed once each, by first appearance or by their aggregate with
  the first appearance breaking ties.\<close>

theorem displayed_order_sorted:
  "mset (sortedConnectionIndices toStr rows fld desc) = mset [0..<length rows] \<and>
   sorted_wrt (\<lambda>a b. \<not> (if desc then conn_less toStr fld (rows ! a) (rows ! b) else conn_less toStr fld (rows ! b) (rows ! a)))
     (sortedConnectionIndices toStr rows fld desc) \<and>
   mset (sortedInterfaceIndices ifs fld desc) = mset [0..<length ifs] \<and>
   sorted_wrt (\<lambda>a b. \<not> (if desc then iface_less fld (ifs ! a) (ifs ! b) else iface_less fld (ifs ! b) (ifs ! a)))
     (sortedInterfaceIndices ifs fld desc) \<and>
   mset (orderedGroupIndices g fld desc frozen) = mset [0..<length g] \<and>
   sorted_wrt (\<lambda>a b. \<not> (if frozen then gs_minSrc (g ! b) < gs_minSrc (g ! a) else group_less fld desc (g ! b) (g ! a)))
     (orderedGroupIndices g fld desc frozen)"
proof -
  have conn: "sorted_wrt (\<lambda>a b. \<not> conn_less toStr fld (rows ! b) (rows ! a)) (sort_by (\<lambda>a b. conn_less toStr fld (rows ! a) (rows ! b)) xs)" for xs
    by (rule sort_by_sorted [OF weak_order_via [OF conn_less_weak]])
  have iface: "sorted_wrt (\<lambda>a b. \<not> iface_less fld (ifs ! b) (ifs ! a)) (sort_by (\<lambda>a b. iface_less fld (ifs ! a) (ifs ! b)) xs)" for xs
    by (rule sort_by_sorted [OF weak_order_via [OF iface_less_weak]])
  have grp: "sorted_wrt (\<lambda>a b. \<not> group_less fld desc (g ! b) (g ! a)) (sort_by (\<lambda>a b. group_less fld desc (g ! a) (g ! b)) xs)"
    "sorted_wrt (\<lambda>a b. \<not> gs_minSrc (g ! b) < gs_minSrc (g ! a)) (sort_by (\<lambda>a b. gs_minSrc (g ! a) < gs_minSrc (g ! b)) xs)" for xs
    by (rule sort_by_sorted [OF weak_order_via [OF group_less_weak]], rule sort_by_sorted [OF weak_order_key(1)])
  have a: "mset (sortedConnectionIndices toStr rows fld desc) = mset [0..<length rows]"
    "mset (sortedInterfaceIndices ifs fld desc) = mset [0..<length ifs]"
    "mset (orderedGroupIndices g fld desc frozen) = mset [0..<length g]"
    by (simp_all add: sortedConnectionIndices_def sortedInterfaceIndices_def orderedGroupIndices_def Let_def)
  have b: "sorted_wrt (\<lambda>a b. \<not> (if desc then conn_less toStr fld (rows ! a) (rows ! b) else conn_less toStr fld (rows ! b) (rows ! a)))
     (sortedConnectionIndices toStr rows fld desc)"
    using conn by (cases desc) (simp_all add: sortedConnectionIndices_def Let_def sorted_wrt_rev)
  have c: "sorted_wrt (\<lambda>a b. \<not> (if desc then iface_less fld (ifs ! a) (ifs ! b) else iface_less fld (ifs ! b) (ifs ! a)))
     (sortedInterfaceIndices ifs fld desc)"
    using iface by (cases desc) (simp_all add: sortedInterfaceIndices_def Let_def sorted_wrt_rev)
  have d: "sorted_wrt (\<lambda>a b. \<not> (if frozen then gs_minSrc (g ! b) < gs_minSrc (g ! a) else group_less fld desc (g ! b) (g ! a)))
     (orderedGroupIndices g fld desc frozen)"
    using grp by (cases frozen) (simp_all add: orderedGroupIndices_def)
  show ?thesis using a b c d by blast
qed

section \<open>Names and keys\<close>

lemma columnId_roundtrip: "columnIdFromToken (columnIdToken c) fallback = c"
  by (cases c) (simp_all add: columnIdFromToken_def)

lemma groupBy_roundtrip: "g \<noteq> GCount \<Longrightarrow> groupByFromName (groupByName g) = g"
  by (cases g) (simp_all, code_simp+)

lemma theme_roundtrip: "t \<in> set builtinThemes \<Longrightarrow> themeByName (th_name t) = (t, True)"
proof -
  assume t: "t \<in> set builtinThemes"
  have names: "map th_name builtinThemes = [''dark'', ''light'', ''colorblind'', ''mono'']" by code_simp
  have "\<not> eqCI ''dark'' ''light''" "\<not> eqCI ''dark'' ''colorblind''" "\<not> eqCI ''dark'' ''mono''"
    "\<not> eqCI ''light'' ''colorblind''" "\<not> eqCI ''light'' ''mono''" "\<not> eqCI ''colorblind'' ''mono''" by code_simp+
  moreover have "eqCI x x" for x by (simp add: eqCI_def)
  moreover have "th_name darkTheme = ''dark''" "th_name lightTheme = ''light''" "th_name colorblindTheme = ''colorblind''" "th_name monoTheme = ''mono''"
    by (simp_all add: darkTheme_def lightTheme_def colorblindTheme_def monoTheme_def makeTheme_def)
  ultimately show ?thesis using t by (auto simp: themeByName_def builtinThemes_def)
qed

lemma theme_directions_distinct:
  "t \<in> set builtinThemes \<Longrightarrow> distinct [th_roles t RoleOutbound, th_roles t RoleInbound, th_roles t RoleForwarded]"
  by (auto simp: builtinThemes_def darkTheme_def lightTheme_def colorblindTheme_def monoTheme_def makeTheme_def color_defs)


text \<open>Two flows are in one group of processes exactly if both have no process or pid and name agree, and in one group of
  containers exactly if both have none or runtime and id agree.\<close>

lemma process_group_exact:
  "tui_groupKeyFor GProcess c = tui_groupKeyFor GProcess d \<longleftrightarrow>
   (if pi_valid (c_process c) then pi_valid (c_process d) \<and> pi_pid (c_process c) = pi_pid (c_process d) \<and> pi_comm (c_process c) = pi_comm (c_process d)
    else \<not> pi_valid (c_process d))"
proof -
  have nd: "CHR 0x01 \<notin> set (show_int n)" for n by (auto simp: show_int_def dest!: show_nat_digits simp: is_digit_def)
  have k: "tui_groupKeyFor GProcess e = (if pi_valid (c_process e) then show_int (pi_pid (c_process e)) @ CHR 0x01 # pi_comm (c_process e) else [])" for e
    using qarg_pair [of "CHR 0x01" "show_int (pi_pid (c_process e))"] by (simp add: tui_groupKeyFor_def show_int_no_percent is_digit_def)
  have "show_int m @ CHR 0x01 # x = show_int n @ CHR 0x01 # y \<longleftrightarrow> m = n \<and> x = y" for m n x y
    by (simp add: append_sep_eq nd show_int_inj)
  then show ?thesis unfolding k by auto
qed

lemma container_group_exact:
  assumes "CHR 0x01 \<notin> set (ct_runtime (c_container c))" and "CHR 0x01 \<notin> set (ct_runtime (c_container d))"
  shows "tui_groupKeyFor GContainer c = tui_groupKeyFor GContainer d \<longleftrightarrow>
   (if ct_valid (c_container c) then ct_valid (c_container d) \<and> ct_runtime (c_container c) = ct_runtime (c_container d) \<and>
      ct_id (c_container c) = ct_id (c_container d)
    else \<not> ct_valid (c_container d))"
proof -
  have k: "tui_groupKeyFor GContainer e = (if ct_valid (c_container e) then ct_runtime (c_container e) @ CHR 0x01 # ct_id (c_container e) else [])" for e
    using qargs_pair [of "CHR 0x01"] by (simp add: tui_groupKeyFor_def is_digit_def)
  show ?thesis unfolding k using assms by (simp add: append_sep_eq)
qed

text \<open>The interface and the terminal order groups by the flow column differently: the window by the number of rows, the
  terminal by label.\<close>

lemma flow_column_orders_by_label:
  "toLower (gs_label a) < toLower (gs_label b) \<Longrightarrow> group_less CFlow False a b"
  by (auto simp: group_less_def Let_def)

end
