(* ===== verification/Exporter.thy ===== *)
theory Exporter
  imports QtText
begin

text \<open>
  \<open>util/Exporter.cpp\<close>: tables as CSV and JSON, and saving them. A cell is a \<open>QVariant\<close> of the types the models export.
  How a double is printed (\<open>QVariant::toString\<close>) is a parameter, and so is what \<open>QSaveFile\<close> reports. JSON is built as a
  value; Qt prints it.
\<close>

section \<open>Values\<close>

datatype QVariant = VBool bool | VInt int | VULongLong quint64 | VDouble real | VString string | VStringList "string list"

datatype JsonValue = JBool bool | JNumber real | JString string | JArray "JsonValue list" | JObject "(string \<times> JsonValue) list"

fun toJsonValue :: "QVariant \<Rightarrow> JsonValue" where
  "toJsonValue (VBool b) = JBool b"
| "toJsonValue (VInt n) = JNumber (real_of_int n)"
| "toJsonValue (VULongLong w) = JString (show_nat (unat w))"
| "toJsonValue (VDouble x) = JNumber x"
| "toJsonValue (VStringList xs) = JArray (map JString xs)"
| "toJsonValue (VString s) = JString s"

fun variant_toString :: "(real \<Rightarrow> string) \<Rightarrow> QVariant \<Rightarrow> string" where
  "variant_toString dbl (VBool b) = (if b then ''true'' else ''false'')"
| "variant_toString dbl (VInt n) = show_int n"
| "variant_toString dbl (VULongLong w) = show_nat (unat w)"
| "variant_toString dbl (VDouble x) = dbl x"
| "variant_toString dbl (VString s) = s"
| "variant_toString dbl (VStringList xs) = (case xs of [x] \<Rightarrow> x | _ \<Rightarrow> [])"

definition join_with :: "string \<Rightarrow> string list \<Rightarrow> string" where
  "join_with sep xs = (case xs of [] \<Rightarrow> [] | x # ys \<Rightarrow> x @ concat (map (\<lambda>y. sep @ y) ys))"

section \<open>CSV\<close>

abbreviation dquote :: char where "dquote \<equiv> CHR 0x22"
abbreviation nl :: char where "nl \<equiv> CHR 0x0A"
abbreviation carriage :: char where "carriage \<equiv> CHR 0x0D"

definition formula_start :: "char \<Rightarrow> bool" where
  "formula_start c = (c = CHR ''='' \<or> c = CHR ''+'' \<or> c = CHR ''-'' \<or> c = CHR ''@'' \<or> c = CHR 0x09 \<or> c = carriage)"

definition csvSanitise :: "string \<Rightarrow> string" where
  "csvSanitise fld = (case fld of [] \<Rightarrow> fld | c0 # _ \<Rightarrow> if formula_start c0 then CHR 0x27 # fld else fld)"

definition double_quotes :: "string \<Rightarrow> string" where
  "double_quotes s = concat (map (\<lambda>c. if c = dquote then [dquote, dquote] else [c]) s)"

definition csvEscape :: "string \<Rightarrow> string" where
  "csvEscape raw =
     (let fld = csvSanitise raw;
          needsQuoting = (CHR '','' \<in> set fld \<or> dquote \<in> set fld \<or> nl \<in> set fld \<or> carriage \<in> set fld)
      in if \<not> needsQuoting then fld else dquote # double_quotes fld @ [dquote])"

definition csvFlatten :: "(real \<Rightarrow> string) \<Rightarrow> QVariant \<Rightarrow> string" where
  "csvFlatten dbl v = (case v of VStringList xs \<Rightarrow> join_with '' '' xs | _ \<Rightarrow> variant_toString dbl v)"

record Exportable =
  ex_headers :: "string list"
  ex_rows :: "QVariant list list"

definition toCsv :: "(real \<Rightarrow> string) \<Rightarrow> Exportable \<Rightarrow> string" where
  "toCsv dbl src =
     (let lines = join_with '','' (map csvEscape (ex_headers src)) #
            map (\<lambda>values. join_with '','' (map (\<lambda>v. csvEscape (csvFlatten dbl v)) values)) (ex_rows src)
      in join_with [nl] lines @ [nl])"

section \<open>JSON\<close>

text \<open>\<open>QJsonObject::insert\<close> replaces the value of a name that is there already; the objects are kept in the order of the
  names by Qt, which the value does not show.\<close>

definition json_row :: "string list \<Rightarrow> QVariant list \<Rightarrow> JsonValue" where
  "json_row headers values = JObject (fold (\<lambda>(h, v) m. AList.update h (toJsonValue v) m) (zip headers values) [])"

definition toJson :: "Exportable \<Rightarrow> JsonValue" where
  "toJson src = JArray (map (json_row (ex_headers src)) (ex_rows src))"

section \<open>Saving\<close>

text \<open>\<open>QSaveFile\<close> writes to a temporary file and replaces the target only in \<open>commit\<close>. \<open>sf_open\<close> and \<open>sf_commit\<close> carry the
  error when the step fails, \<open>sf_write\<close> the number of bytes written and the error text.\<close>

record SaveFile =
  sf_open :: "string option"
  sf_write :: "nat \<times> string"
  sf_commit :: "string option"

type_synonym Files = "string \<Rightarrow> string option"

text \<open>The result, the error text and the files.\<close>

definition export_save :: "SaveFile \<Rightarrow> string \<Rightarrow> string \<Rightarrow> Files \<Rightarrow> bool \<times> string \<times> Files" where
  "export_save f path data files =
     (case sf_open f of
        Some err \<Rightarrow> (False, err, files)
      | None \<Rightarrow>
          if fst (sf_write f) \<noteq> length data then (False, snd (sf_write f), files)
          else (case sf_commit f of
                  Some err \<Rightarrow> (False, err, files)
                | None \<Rightarrow> (True, [], files(path \<mapsto> data))))"

section \<open>Reading the exported text back\<close>

text \<open>A reader of RFC 4180: fields are separated by commas, records by newlines, and a field in quotes may contain both,
  with doubled quotes standing for one.\<close>

fun quoted_field :: "string \<Rightarrow> string \<times> string" where
  "quoted_field [] = ([], [])"
| "quoted_field (c # s) =
     (if c = dquote
      then (case s of
              d # t \<Rightarrow> if d = dquote then (let (f, r) = quoted_field t in (dquote # f, r)) else ([], s)
            | [] \<Rightarrow> ([], s))
      else (let (f, r) = quoted_field s in (c # f, r)))"

definition csv_field :: "string \<Rightarrow> string \<times> string" where
  "csv_field s =
     (case s of
        c # t \<Rightarrow> if c = dquote then quoted_field t else (takeWhile (\<lambda>c. c \<noteq> CHR '','' \<and> c \<noteq> nl) s, dropWhile (\<lambda>c. c \<noteq> CHR '','' \<and> c \<noteq> nl) s)
      | [] \<Rightarrow> ([], []))"

lemma quoted_field_length: "length (snd (quoted_field s)) \<le> length s"
proof (induction s rule: length_induct)
  case (1 s)
  show ?case
  proof (cases s)
    case (Cons c t)
    have t: "length (snd (quoted_field t)) \<le> length t" using 1 Cons by simp
    show ?thesis
    proof (cases "c = dquote \<and> t \<noteq> []")
      case True
      then obtain d u where u: "t = d # u" by (cases t) auto
      have "length (snd (quoted_field u)) \<le> length u" using 1 Cons u by simp
      then show ?thesis using True by (simp add: Cons u case_prod_beta)
    next
      case False
      then show ?thesis using t by (auto simp: Cons case_prod_beta)
    qed
  qed simp
qed

lemma csv_field_length: "length (snd (csv_field s)) \<le> length s"
proof (cases s)
  case (Cons c t)
  show ?thesis
  proof (cases "c = dquote")
    case True
    then show ?thesis using quoted_field_length [of t] by (simp add: csv_field_def Cons)
  next
    case False
    then show ?thesis using length_dropWhile_le [of _ t] by (simp add: csv_field_def Cons le_SucI)
  qed
qed (simp add: csv_field_def)

text \<open>The records of a text; \<open>row\<close> holds the fields of the current one.\<close>

function csv_read :: "string \<Rightarrow> string list \<Rightarrow> string list list" where
  "csv_read s row =
     (let row' = row @ [fst (csv_field s)] in
      if snd (csv_field s) = [] \<or> snd (csv_field s) = [nl] then [row']
      else if hd (snd (csv_field s)) = CHR '','' then csv_read (tl (snd (csv_field s))) row'
      else row' # csv_read (tl (snd (csv_field s))) [])"
  by pat_completeness auto
termination
proof (relation "measure (\<lambda>(s, row). length s)")
  have "length (tl (snd (csv_field s))) < length s" if "snd (csv_field s) \<noteq> []" for s
    using that csv_field_length [of s] by (cases "snd (csv_field s)") auto
  then show "x = row @ [fst (csv_field s)] \<Longrightarrow> \<not> (snd (csv_field s) = [] \<or> snd (csv_field s) = [nl]) \<Longrightarrow> hd (snd (csv_field s)) = CHR '','' \<Longrightarrow>
      ((tl (snd (csv_field s)), x), s, row) \<in> measure (\<lambda>(s, row). length s)"
    "x = row @ [fst (csv_field s)] \<Longrightarrow> \<not> (snd (csv_field s) = [] \<or> snd (csv_field s) = [nl]) \<Longrightarrow> hd (snd (csv_field s)) \<noteq> CHR '','' \<Longrightarrow>
      ((tl (snd (csv_field s)), []), s, row) \<in> measure (\<lambda>(s, row). length s)" for s row x by auto
qed simp

declare csv_read.simps [simp del]

section \<open>The exported table is read back\<close>

lemma quoted_field_escaped: "c \<noteq> dquote \<Longrightarrow> quoted_field (double_quotes s @ dquote # c # rest) = (s, c # rest)"
  by (induction s) (auto simp: double_quotes_def)

lemma csv_field_escaped: "c = CHR '','' \<or> c = nl \<Longrightarrow> csv_field (csvEscape raw @ c # rest) = (csvSanitise raw, c # rest)"
proof -
  assume c: "c = CHR '','' \<or> c = nl"
  define fld where "fld = csvSanitise raw"
  show ?thesis
  proof (cases "CHR '','' \<in> set fld \<or> dquote \<in> set fld \<or> nl \<in> set fld \<or> carriage \<in> set fld")
    case True
    then have "csvEscape raw = dquote # double_quotes fld @ [dquote]" unfolding csvEscape_def Let_def fld_def [symmetric] by auto
    then show ?thesis using c quoted_field_escaped [of c fld rest] by (auto simp: csv_field_def fld_def)
  next
    case False
    then have e: "csvEscape raw = fld" by (simp add: csvEscape_def fld_def Let_def)
    have all: "x \<noteq> CHR '','' \<and> x \<noteq> nl" if "x \<in> set fld" for x using that False by auto
    have tw: "takeWhile (\<lambda>c. c \<noteq> CHR '','' \<and> c \<noteq> nl) (fld @ c # rest) = fld" "dropWhile (\<lambda>c. c \<noteq> CHR '','' \<and> c \<noteq> nl) (fld @ c # rest) = c # rest"
      using all c by (auto simp: takeWhile_append2 dropWhile_append2)
    have "csv_field (fld @ c # rest) = (takeWhile (\<lambda>c. c \<noteq> CHR '','' \<and> c \<noteq> nl) (fld @ c # rest), dropWhile (\<lambda>c. c \<noteq> CHR '','' \<and> c \<noteq> nl) (fld @ c # rest))"
      using False c by (cases fld) (auto simp: csv_field_def)
    then show ?thesis unfolding e fld_def [symmetric] tw .
  qed
qed

lemma join_with_simps [simp]: "join_with sep [x] = x" "join_with sep (x # y # ys) = x @ sep @ join_with sep (y # ys)"
  by (simp_all add: join_with_def)

lemma csv_read_record:
  "vs \<noteq> [] \<Longrightarrow> csv_read (join_with '','' (map csvEscape vs) @ nl # rest) row =
   (if rest = [] then [row @ map csvSanitise vs] else (row @ map csvSanitise vs) # csv_read rest [])"
proof (induction vs arbitrary: row)
  case (Cons v vs)
  show ?case
  proof (cases vs)
    case Nil
    have "csv_field (csvEscape v @ nl # rest) = (csvSanitise v, nl # rest)" by (rule csv_field_escaped) simp
    then show ?thesis by (subst csv_read.simps) (simp add: Nil Let_def)
  next
    case (Cons w ws)
    define more where "more = join_with '','' (map csvEscape vs) @ nl # rest"
    have "csv_field (csvEscape v @ CHR '','' # more) = (csvSanitise v, CHR '','' # more)" by (rule csv_field_escaped) simp
    then have "csv_read (csvEscape v @ CHR '','' # more) row = csv_read more (row @ [csvSanitise v])"
      by (subst csv_read.simps) (simp add: Let_def)
    moreover have "join_with '','' (map csvEscape (v # vs)) @ nl # rest = csvEscape v @ CHR '','' # more" by (simp add: Cons more_def)
    moreover have "vs \<noteq> []" using Cons by simp
    ultimately show ?thesis using Cons.IH [of "row @ [csvSanitise v]"] by (simp add: more_def)
  qed
qed simp

lemma csv_read_lines:
  "ls \<noteq> [] \<Longrightarrow> \<forall>l \<in> set ls. l \<noteq> [] \<Longrightarrow>
   csv_read (join_with [nl] (map (\<lambda>l. join_with '','' (map csvEscape l)) ls) @ [nl]) [] = map (map csvSanitise) ls"
proof (induction ls)
  case (Cons l ls)
  show ?case
  proof (cases ls)
    case Nil
    then show ?thesis using csv_read_record [of l "[]" "[]"] Cons.prems by simp
  next
    case (Cons m ms)
    then show ?thesis using csv_read_record [of l "join_with [nl] (map (\<lambda>l. join_with '','' (map csvEscape l)) ls) @ [nl]" "[]"] Cons.IH Cons.prems by simp
  qed
qed simp

definition cell_texts :: "(real \<Rightarrow> string) \<Rightarrow> Exportable \<Rightarrow> string list list" where
  "cell_texts dbl src = ex_headers src # map (map (csvFlatten dbl)) (ex_rows src)"



text \<open>A failed save leaves every file as it was.\<close>

lemma failed_save_keeps_files: "fst (export_save f path data files) = False \<Longrightarrow> snd (snd (export_save f path data files)) = files"
  by (auto simp: export_save_def split: option.splits if_splits)

text \<open>The apostrophe is not undone: a text that starts with one is exported like the formula it hides.\<close>

lemma sanitise_not_injective: "csvSanitise ''=1'' = csvSanitise (CHR 0x27 # ''=1'')"
  by (simp add: csvSanitise_def formula_start_def)

end
