(* ===== verification/Store.thy ===== *)
theory Store
  imports AgentConfig QtText
begin

text \<open>
  The user's settings file as both front ends use it: \<open>QSettings\<close> maps a key to the list of values of its line, typed values
  are written as text, and reading converts the text back (\<open>QVariant::toInt\<close>, \<open>toBool\<close>, \<open>toString\<close>, \<open>toStringList\<close>).
\<close>

section \<open>Reading and writing\<close>

definition q_toBool :: "string \<Rightarrow> bool" where
  "q_toBool s = (s \<noteq> [] \<and> toLower s \<noteq> ''0'' \<and> toLower s \<noteq> ''false'')"

definition ini_bool :: "Ini \<Rightarrow> string \<Rightarrow> bool \<Rightarrow> bool" where
  "ini_bool ini key dflt = (case ini key of None \<Rightarrow> dflt | Some _ \<Rightarrow> q_toBool (ini_toString ini key []))"

definition ini_list :: "Ini \<Rightarrow> string \<Rightarrow> string list \<Rightarrow> string list" where
  "ini_list ini key dflt = (case ini key of None \<Rightarrow> dflt | Some xs \<Rightarrow> xs)"

definition put_int :: "string \<Rightarrow> int \<Rightarrow> Ini \<Rightarrow> Ini" where
  "put_int key n ini = ini(key \<mapsto> [show_int n])"

definition put_bool :: "string \<Rightarrow> bool \<Rightarrow> Ini \<Rightarrow> Ini" where
  "put_bool key b ini = ini(key \<mapsto> [if b then ''true'' else ''false''])"

definition put_string :: "string \<Rightarrow> string \<Rightarrow> Ini \<Rightarrow> Ini" where
  "put_string key s ini = ini(key \<mapsto> [s])"

definition put_list :: "string \<Rightarrow> string list \<Rightarrow> Ini \<Rightarrow> Ini" where
  "put_list key xs ini = ini(key \<mapsto> xs)"

definition qint32 :: "int \<Rightarrow> bool" where
  "qint32 n = (- 2147483648 \<le> n \<and> n \<le> 2147483647)"

section \<open>What was written is read\<close>

lemma show_nat_trim: "trimmed (show_nat n) = show_nat n"
proof -
  have d: "list_all is_digit (show_nat n)" by (auto simp: list_all_iff dest: show_nat_digits)
  have sp: "is_digit c \<Longrightarrow> \<not> isSpace c" for c by (auto simp: is_digit_def isSpace_def)
  have keep: "dropWhile isSpace xs = xs" if "list_all is_digit xs" for xs using that sp by (cases xs) auto
  show ?thesis using d keep [of "show_nat n"] keep [of "rev (show_nat n)"] by (simp add: trimmed_def)
qed

lemma toInt_show: "qint32 n \<Longrightarrow> toInt (show_int n) = n"
proof -
  assume n: "qint32 n"
  have d: "list_all is_digit (show_nat k)" for k by (auto simp: list_all_iff dest: show_nat_digits)
  have hd: "show_nat k \<noteq> CHR ''-'' # r" "show_nat k \<noteq> CHR ''+'' # r" for k r
    using show_nat_digits [of "CHR ''-''" k] show_nat_digits [of "CHR ''+''" k] by (auto simp: is_digit_def)
  show ?thesis
  proof (cases "n < 0")
    case True
    have t: "trimmed (CHR ''-'' # show_nat k) = CHR ''-'' # show_nat k" for k
    proof -
      obtain a l where a: "rev (show_nat k) = a # l" using show_nat_nonempty [of k] by (cases "rev (show_nat k)") auto
      then have "a \<in> set (show_nat k)" by (metis list.set_intros(1) set_rev)
      then have "\<not> isSpace a" using show_nat_digits [of a k] by (auto simp: is_digit_def isSpace_def)
      moreover have "\<not> isSpace (CHR ''-'')" by (simp add: isSpace_def)
      moreover have "rev l @ [a] = show_nat k" using a by (metis rev.simps(2) rev_rev_ident)
      ultimately show ?thesis by (simp add: trimmed_def a)
    qed
    show ?thesis using True n d [of "nat (- n)"] by (simp add: toInt_def parse_int_def show_int_def t qint32_def)
  next
    case False
    obtain c r where c: "show_nat (nat n) = c # r" using show_nat_nonempty by (cases "show_nat (nat n)") auto
    then have "c \<noteq> CHR ''-''" "c \<noteq> CHR ''+''" using hd [of "nat n"] by auto
    then have e: "(case show_nat (nat n) of CHR ''-'' # r \<Rightarrow> (True, r) | CHR ''+'' # r \<Rightarrow> (False, r) | _ \<Rightarrow> (False, show_nat (nat n))) =
        (False, show_nat (nat n))" unfolding c by (auto split: char.split bool.split)
    show ?thesis using False n d [of "nat n"]
      by (simp add: toInt_def parse_int_def show_int_def show_nat_trim qint32_def e case_prod_beta)
  qed
qed

lemma q_toBool_simps [simp]: "q_toBool ''true''" "\<not> q_toBool ''false''"
  by (code_simp, code_simp)

lemma store_read [simp]:
  "ini_bool (put_bool k b ini) k d = b"
  "qint32 n \<Longrightarrow> ini_int toInt (put_int k n ini) k e = n"
  "ini_toString (put_string k s ini) k t = s"
  "ini_list (put_list k xs ini) k ys = xs"
  by (auto simp: ini_bool_def put_bool_def ini_toString_def ini_int_def put_int_def toInt_show put_string_def ini_list_def put_list_def)

lemma store_other [simp]:
  "k \<noteq> k' \<Longrightarrow> put_bool k b ini k' = ini k'" "k \<noteq> k' \<Longrightarrow> put_int k n ini k' = ini k'"
  "k \<noteq> k' \<Longrightarrow> put_string k s ini k' = ini k'" "k \<noteq> k' \<Longrightarrow> put_list k xs ini k' = ini k'"
  by (auto simp: put_bool_def put_int_def put_string_def put_list_def)

end
