(* ===== verification/TuiApp.thy ===== *)
theory TuiApp
  imports TuiFormat FilterEval Exporter Store
begin

text \<open>
  \<open>tui/TuiApp.cpp\<close>: the controller of the terminal front end. One record holds the view, sort, cursor, grouping, overlay,
  filter and export state together with the two aggregators it reads; every key is a step, and \<open>buildFrame\<close> computes what
  the screen shows. Calls out of the program are appended to \<open>ta_out\<close>.

  Keys are characters or the function keys of curses. The environment of a step gives the printing functions, the height
  of the body, which callbacks are installed, the time stamp, the files of the working directory and what saving a file
  reports. Help texts, the source label, the key hints of the footer, the timers' intervals and the signals that the
  aggregator's setters emit are not part of the model.
\<close>

section \<open>State\<close>

datatype Key = Ch char | KEY_UP | KEY_DOWN | KEY_LEFT | KEY_RIGHT | KEY_HOME | KEY_END | KEY_PPAGE | KEY_NPAGE | KEY_ENTER
  | KEY_BTAB | KEY_BACKSPACE | KEY_RESIZE | KEY_F nat

datatype Overlay = NoOverlay | SettingsOverlay | FieldsOverlay | HelpOverlay | AboutOverlay | DetailOverlay

datatype tui_out = Quit | AskDetails int | AskEagerness string | ApplyPoll int | FileWritten string string

record RowRef =
  rr_selectable :: bool
  rr_header :: bool
  rr_key :: string
  rr_groupKey :: string

record TuiEnv =
  te_num :: "real \<Rightarrow> nat \<Rightarrow> string"
  te_dbl :: "real \<Rightarrow> string"
  te_toStr :: "QHostAddress \<Rightarrow> string"
  te_dns :: "QHostAddress \<Rightarrow> string"
  te_filter :: FilterEnv
  te_bodyHeight :: "int option"
  te_askDetails :: bool
  te_askEagerness :: bool
  te_applyPoll :: bool
  te_escalate :: bool
  te_stampMs :: string
  te_stamp :: string
  te_files :: "string list"
  te_absolute :: "string \<Rightarrow> string"
  te_save :: SaveFile
  te_appName :: string

record TuiApp =
  ta_ifaceAgg :: InterfaceAggregator
  ta_connAgg :: ConnectionAggregator
  ta_themeIdx :: nat
  ta_view :: View
  ta_ifaceSortField :: ColumnId
  ta_ifaceSortDesc :: bool
  ta_connSortField :: ColumnId
  ta_connSortDesc :: bool
  ta_ifaceScroll :: int
  ta_connScroll :: int
  ta_ifaceCursor :: int
  ta_connCursor :: int
  ta_rowRefs :: "RowRef list"
  ta_collapsedGroups :: "string set"
  ta_cursorTarget :: "string option"
  ta_detailKey :: string
  ta_detailView :: View
  ta_detailGroupKey :: string
  ta_detailGroupBy :: GroupBy
  ta_overlay :: Overlay
  ta_settingsSel :: int
  ta_fieldsSel :: int
  ta_gaugeEnabled :: bool
  ta_dnsEnabled :: bool
  ta_udpAggregate :: bool
  ta_smoothing :: bool
  ta_groupBy :: GroupBy
  ta_directionColors :: bool
  ta_sortWithinGroups :: bool
  ta_showProcessColumn :: bool
  ta_showContainerColumn :: bool
  ta_backendCaps :: "string list"
  ta_procWire :: bool
  ta_contWire :: bool
  ta_pollMs :: int
  ta_attributionEagerness :: string
  ta_procDetails :: "(int, ProcessDetails) qhash"
  ta_detailsRequested :: "int set"
  ta_paused :: bool
  ta_frozenIfaceRows :: "IfaceRow list"
  ta_frozenConnRows :: "ConnRow list"
  ta_flashMsg :: string
  ta_filterEditing :: bool
  ta_filterDraft :: string
  ta_exportPrompt :: bool
  ta_exportDraft :: string
  ta_filterText :: string
  ta_filterExpr :: "Expr option"
  ta_filterError :: string
  ta_redrawPending :: bool
  ta_store :: Ini
  ta_out :: "tui_out list"

definition mk_TuiApp :: "InterfaceAggregator \<Rightarrow> ConnectionAggregator \<Rightarrow> Ini \<Rightarrow> TuiApp" where
  "mk_TuiApp ifaceAgg connAgg store =
     \<lparr>ta_ifaceAgg = ifaceAgg, ta_connAgg = connAgg, ta_themeIdx = 0, ta_view = Connections, ta_ifaceSortField = CInterface,
      ta_ifaceSortDesc = False, ta_connSortField = CRxRate, ta_connSortDesc = True, ta_ifaceScroll = 0, ta_connScroll = 0,
      ta_ifaceCursor = 0, ta_connCursor = 0, ta_rowRefs = [], ta_collapsedGroups = {}, ta_cursorTarget = None, ta_detailKey = [],
      ta_detailView = Connections, ta_detailGroupKey = [], ta_detailGroupBy = GNone, ta_overlay = NoOverlay, ta_settingsSel = 0,
      ta_fieldsSel = 0, ta_gaugeEnabled = True, ta_dnsEnabled = False, ta_udpAggregate = True, ta_smoothing = True, ta_groupBy = GNone,
      ta_directionColors = True, ta_sortWithinGroups = True, ta_showProcessColumn = True, ta_showContainerColumn = True,
      ta_backendCaps = [], ta_procWire = False, ta_contWire = False, ta_pollMs = 1000, ta_attributionEagerness = [],
      ta_procDetails = [], ta_detailsRequested = {}, ta_paused = False, ta_frozenIfaceRows = [], ta_frozenConnRows = [],
      ta_flashMsg = [], ta_filterEditing = False, ta_filterDraft = [], ta_exportPrompt = False, ta_exportDraft = [],
      ta_filterText = [], ta_filterExpr = None, ta_filterError = [], ta_redrawPending = False, ta_store = store, ta_out = []\<rparr>"

definition emit :: "tui_out \<Rightarrow> TuiApp \<Rightarrow> TuiApp" where
  "emit ev s = s\<lparr>ta_out := ta_out s @ [ev]\<rparr>"

definition requestRedraw :: "TuiApp \<Rightarrow> TuiApp" where
  "requestRedraw s = s\<lparr>ta_redrawPending := True\<rparr>"

definition onDataChanged :: "TuiApp \<Rightarrow> TuiApp" where
  "onDataChanged s = (if ta_paused s then s else requestRedraw s)"

definition flashMessage :: "string \<Rightarrow> TuiApp \<Rightarrow> TuiApp" where
  "flashMessage msg s = requestRedraw (s\<lparr>ta_flashMsg := msg\<rparr>)"

definition clamp :: "int \<Rightarrow> int \<Rightarrow> int \<Rightarrow> int" where
  "clamp x lo hi = (if x < lo then lo else if hi < x then hi else x)"

definition currentSortField :: "TuiApp \<Rightarrow> ColumnId" where
  "currentSortField s = (if ta_view s = Interfaces then ta_ifaceSortField s else ta_connSortField s)"

definition setCurrentSortField :: "ColumnId \<Rightarrow> TuiApp \<Rightarrow> TuiApp" where
  "setCurrentSortField c s = (if ta_view s = Interfaces then s\<lparr>ta_ifaceSortField := c\<rparr> else s\<lparr>ta_connSortField := c\<rparr>)"

definition currentSortDesc :: "TuiApp \<Rightarrow> bool" where
  "currentSortDesc s = (if ta_view s = Interfaces then ta_ifaceSortDesc s else ta_connSortDesc s)"

definition flipSortDesc :: "TuiApp \<Rightarrow> TuiApp" where
  "flipSortDesc s = (if ta_view s = Interfaces then s\<lparr>ta_ifaceSortDesc := \<not> ta_ifaceSortDesc s\<rparr> else s\<lparr>ta_connSortDesc := \<not> ta_connSortDesc s\<rparr>)"

definition currentCursor :: "TuiApp \<Rightarrow> int" where
  "currentCursor s = (if ta_view s = Interfaces then ta_ifaceCursor s else ta_connCursor s)"

definition setCurrentCursor :: "int \<Rightarrow> TuiApp \<Rightarrow> TuiApp" where
  "setCurrentCursor c s = (if ta_view s = Interfaces then s\<lparr>ta_ifaceCursor := c\<rparr> else s\<lparr>ta_connCursor := c\<rparr>)"

definition iface_rows :: "TuiApp \<Rightarrow> IfaceRow list" where
  "iface_rows s = (if ta_paused s then ta_frozenIfaceRows s else ia_rows (ta_ifaceAgg s))"

definition conn_rows :: "TuiApp \<Rightarrow> ConnRow list" where
  "conn_rows s = (if ta_paused s then ta_frozenConnRows s else ca_rows (ta_connAgg s))"

section \<open>Columns and preferences\<close>

definition effectiveOptionalColumns :: "TuiApp \<Rightarrow> OptionalColumns" where
  "effectiveOptionalColumns s =
     (if ta_view s \<noteq> Connections then \<lparr>oc_process = False, oc_container = False\<rparr>
      else \<lparr>oc_process = (ta_procWire s \<and> ta_showProcessColumn s \<and> ta_groupBy s \<noteq> GProcess),
            oc_container = (ta_contWire s \<and> ta_showContainerColumn s \<and> ta_groupBy s \<noteq> GContainer)\<rparr>)"

definition activeColumns :: "TuiApp \<Rightarrow> TuiColumn list" where
  "activeColumns s = columnsFor (ta_view s) (effectiveOptionalColumns s) (ta_groupBy s)"

definition overlayColumns :: "TuiApp \<Rightarrow> TuiColumn list" where
  "overlayColumns s =
     map (\<lambda>c. if tc_id c = CProcess then c\<lparr>tc_available := ta_procWire s, tc_visible := ta_showProcessColumn s\<rparr>
              else if tc_id c = CContainer then c\<lparr>tc_available := ta_contWire s, tc_visible := ta_showContainerColumn s\<rparr>
              else c) (overlayColumnsFor (ta_view s))"

definition cycleSortField :: "TuiApp \<Rightarrow> TuiApp" where
  "cycleSortField s =
     (let cols = activeColumns s in
      if cols = [] then s
      else
        (let idx = (case visualIndexForColumn cols (currentSortField s) of None \<Rightarrow> 0 | Some i \<Rightarrow> (i + 1) mod length cols)
         in setCurrentSortField (tc_id (cols ! idx)) s))"

definition toggleOptionalColumn :: "ColumnId \<Rightarrow> TuiApp \<Rightarrow> TuiApp" where
  "toggleOptionalColumn c s =
     (if c = CProcess then s\<lparr>ta_showProcessColumn := \<not> ta_showProcessColumn s\<rparr>
      else if c = CContainer then s\<lparr>ta_showContainerColumn := \<not> ta_showContainerColumn s\<rparr>
      else s)"

definition tui_setBackendInfo :: "string list \<Rightarrow> TuiApp \<Rightarrow> TuiApp" where
  "tui_setBackendInfo caps s =
     requestRedraw (s\<lparr>ta_backendCaps := caps, ta_procWire := ''process-attribution-wire'' \<in> set caps,
       ta_contWire := ''container-attribution-wire'' \<in> set caps\<rparr>)"

definition applyAggregatorSettings :: "TuiApp \<Rightarrow> TuiApp" where
  "applyAggregatorSettings s =
     s\<lparr>ta_connAgg := snd (ca_setHostnameResolutionEnabled (ta_dnsEnabled s)
        (ca_setRateSmoothingMs (if ta_smoothing s then 300 else 0)
          (ca_setUdpAggregateByPeer (ta_udpAggregate s) (ta_connAgg s))))\<rparr>"

definition applyPollInterval :: "TuiEnv \<Rightarrow> TuiApp \<Rightarrow> TuiApp" where
  "applyPollInterval env s =
     (let s = s\<lparr>ta_connAgg := ca_setPollIntervalMs (ta_pollMs s) (ta_connAgg s)\<rparr>
      in if te_applyPoll env then emit (ApplyPoll (ta_pollMs s)) s else s)"

section \<open>Persisted settings\<close>

fun View_num :: "View \<Rightarrow> int" where
  "View_num Interfaces = 0"
| "View_num Connections = 1"

fun GroupBy_num :: "GroupBy \<Rightarrow> int" where
  "GroupBy_num GNone = 0"
| "GroupBy_num GInterface = 1"
| "GroupBy_num GProcess = 2"
| "GroupBy_num GContainer = 3"
| "GroupBy_num GCount = 4"

definition GroupBy_of :: "int \<Rightarrow> GroupBy" where
  "GroupBy_of n = (if n = 0 then GNone else if n = 1 then GInterface else if n = 2 then GProcess else if n = 3 then GContainer else GCount)"

primrec find_theme :: "string \<Rightarrow> Theme list \<Rightarrow> nat option" where
  "find_theme name [] = None"
| "find_theme name (t # ts) = (if eqCI (th_name t) name then Some 0 else map_option Suc (find_theme name ts))"

definition select_theme :: "string \<Rightarrow> TuiApp \<Rightarrow> TuiApp" where
  "select_theme name s =
     (if name = [] then s
      else (case find_theme name builtinThemes of None \<Rightarrow> s | Some i \<Rightarrow> s\<lparr>ta_themeIdx := i\<rparr>))"

definition loaded_sort :: "Ini \<Rightarrow> View \<Rightarrow> string \<Rightarrow> string \<Rightarrow> ColumnId \<Rightarrow> ColumnId" where
  "loaded_sort ini v legacyKey tokenKey fld =
     (let legacy = ini_int toInt ini legacyKey (- 1);
          fld = (if 0 \<le> legacy then columnIdForLegacyIndex v legacy else fld)
      in columnIdFromToken (ini_toString ini tokenKey []) fld)"

definition loadSettings :: "TuiApp \<Rightarrow> TuiApp" where
  "loadSettings s =
     (let ini = ta_store s;
          g = ini_int toInt ini ''nqiftop/groupBy'' (GroupBy_num (ta_groupBy s));
          ifaceSort = loaded_sort ini Interfaces ''nqiftop/ifaceSortCol'' ''nqiftop/ifaceSortField'' (ta_ifaceSortField s);
          connSort = loaded_sort ini Connections ''nqiftop/connSortCol'' ''nqiftop/connSortField'' (ta_connSortField s);
          s = s\<lparr>
            ta_view := (if ini_int toInt ini ''nqiftop/view'' (View_num (ta_view s)) = View_num Interfaces then Interfaces else Connections),
            ta_ifaceSortField := ifaceSort, ta_connSortField := connSort,
            ta_ifaceSortDesc := ini_bool ini ''nqiftop/ifaceSortDesc'' (ta_ifaceSortDesc s),
            ta_connSortDesc := ini_bool ini ''nqiftop/connSortDesc'' (ta_connSortDesc s),
            ta_gaugeEnabled := ini_bool ini ''nqiftop/gauge'' (ta_gaugeEnabled s),
            ta_dnsEnabled := ini_bool ini ''nqiftop/dns'' (ta_dnsEnabled s),
            ta_udpAggregate := ini_bool ini ''nqiftop/udpAggregate'' (ta_udpAggregate s),
            ta_smoothing := ini_bool ini ''nqiftop/smoothing'' (ta_smoothing s),
            ta_directionColors := ini_bool ini ''nqiftop/directionColors'' (ta_directionColors s),
            ta_sortWithinGroups := ini_bool ini ''nqiftop/sortWithinGroups'' (ta_sortWithinGroups s),
            ta_showProcessColumn := ini_bool ini ''nqiftop/showProcessColumn'' (ta_showProcessColumn s),
            ta_showContainerColumn := ini_bool ini ''nqiftop/showContainerColumn'' (ta_showContainerColumn s),
            ta_pollMs := clamp (ini_int toInt ini ''nqiftop/pollMs'' (ta_pollMs s)) 100 10000,
            ta_attributionEagerness := ini_toString ini ''nqiftop/attributionEagerness'' (ta_attributionEagerness s),
            ta_groupBy := (if 0 \<le> g \<and> g < GroupBy_num GCount then GroupBy_of g else GNone)\<rparr>;
          s = select_theme (ini_toString ini ''nqiftop/theme'' []) s;
          s = (if visualIndexForColumn (overlayColumnsFor Interfaces) (ta_ifaceSortField s) = None then s\<lparr>ta_ifaceSortField := CInterface\<rparr> else s)
      in if visualIndexForColumn (overlayColumnsFor Connections) (ta_connSortField s) = None then s\<lparr>ta_connSortField := CRxRate\<rparr> else s)"

definition saveSettings :: "TuiEnv \<Rightarrow> TuiApp \<Rightarrow> TuiApp" where
  "saveSettings env s =
     (if te_escalate env then s
      else s\<lparr>ta_store :=
        put_string ''nqiftop/theme'' (th_name (builtinThemes ! ta_themeIdx s))
        (put_int ''nqiftop/groupBy'' (GroupBy_num (ta_groupBy s))
        (put_string ''nqiftop/attributionEagerness'' (ta_attributionEagerness s)
        (put_int ''nqiftop/pollMs'' (ta_pollMs s)
        (put_bool ''nqiftop/showContainerColumn'' (ta_showContainerColumn s)
        (put_bool ''nqiftop/showProcessColumn'' (ta_showProcessColumn s)
        (put_bool ''nqiftop/sortWithinGroups'' (ta_sortWithinGroups s)
        (put_bool ''nqiftop/directionColors'' (ta_directionColors s)
        (put_bool ''nqiftop/smoothing'' (ta_smoothing s)
        (put_bool ''nqiftop/udpAggregate'' (ta_udpAggregate s)
        (put_bool ''nqiftop/dns'' (ta_dnsEnabled s)
        (put_bool ''nqiftop/gauge'' (ta_gaugeEnabled s)
        (put_bool ''nqiftop/connSortDesc'' (ta_connSortDesc s)
        (put_string ''nqiftop/connSortField'' (columnIdToken (ta_connSortField s))
        (put_bool ''nqiftop/ifaceSortDesc'' (ta_ifaceSortDesc s)
        (put_string ''nqiftop/ifaceSortField'' (columnIdToken (ta_ifaceSortField s))
        (put_int ''nqiftop/view'' (View_num (ta_view s)) (ta_store s)))))))))))))))))\<rparr>)"

text \<open>The constructor with its command-line overrides; an empty string or 0 stands for an option that is not given.\<close>

definition tui_start :: "InterfaceAggregator \<Rightarrow> ConnectionAggregator \<Rightarrow> Ini \<Rightarrow> string \<Rightarrow> int \<Rightarrow> string \<Rightarrow> string \<Rightarrow> TuiApp" where
  "tui_start ifaceAgg connAgg store themeName pollMs viewName groupName =
     (let s = loadSettings (mk_TuiApp ifaceAgg connAgg store);
          s = select_theme themeName s;
          s = (if 0 < pollMs then s\<lparr>ta_pollMs := clamp pollMs 100 10000\<rparr> else s);
          v = toLower (trimmed viewName);
          s = (if viewName = [] then s
               else if starts_with ''i'' v then s\<lparr>ta_view := Interfaces\<rparr>
               else if starts_with ''c'' v then s\<lparr>ta_view := Connections\<rparr> else s);
          g = groupByFromName groupName;
          s = (if groupName \<noteq> [] \<and> g \<noteq> GCount then s\<lparr>ta_groupBy := g\<rparr> else s)
      in requestRedraw (applyAggregatorSettings s))"

definition cycleAttributionEagerness :: "TuiEnv \<Rightarrow> TuiApp \<Rightarrow> TuiApp" where
  "cycleAttributionEagerness env s =
     (if ''attribution-eagerness-hints'' \<notin> set (ta_backendCaps s)
      then flashMessage ''Attribution eagerness needs an agent that advertises it'' s
      else
        (let e = ta_attributionEagerness s;
             next = (if e = ''off'' then ''balanced'' else if e = ''balanced'' then ''eager'' else if e = ''eager'' then [] else ''off'');
             wire = (if next = [] then ''default'' else next);
             s = s\<lparr>ta_attributionEagerness := next\<rparr>;
             s = (if te_askEagerness env then emit (AskEagerness wire) s else s);
             s = flashMessage (qarg ''Attribution eagerness: %1'' wire) s
         in requestRedraw (saveSettings env s)))"


section \<open>The displayed rows\<close>

definition displayedConnectionIndices :: "TuiEnv \<Rightarrow> ConnRow list \<Rightarrow> ConnectionAggregator \<Rightarrow> ColumnId \<Rightarrow> bool \<Rightarrow> Expr option \<Rightarrow> nat list" where
  "displayedConnectionIndices env rows agg sortField sortDesc filterExpr =
     filter (\<lambda>i. filterExpr = None \<or>
       matches (te_filter env) filterExpr
         \<lparr>ctx_c = cr_current (rows ! i), ctx_rxRate = cr_rxRate (rows ! i), ctx_txRate = cr_txRate (rows ! i),
          ctx_hostnameLocal = ca_cachedHostname (te_dns env) agg (ep_address (c_local (cr_current (rows ! i)))),
          ctx_hostnameRemote = ca_cachedHostname (te_dns env) agg (ep_address (c_remote (cr_current (rows ! i))))\<rparr>)
       (sortedConnectionIndices (te_toStr env) rows sortField sortDesc)"

text \<open>A planned row: the source row, or none for a group header with its cells. The four lists grow together.\<close>

record PlannedRow =
  pl_src :: "nat option"
  pl_indent :: bool
  pl_groupCells :: "string list"

record Plan =
  pn_plan :: "PlannedRow list"
  pn_roles :: "Role list"
  pn_rates :: "real list"
  pn_refs :: "RowRef list"

definition add_row :: "PlannedRow \<Rightarrow> Role \<Rightarrow> real \<Rightarrow> RowRef \<Rightarrow> Plan \<Rightarrow> Plan" where
  "add_row p role rate ref pn =
     \<lparr>pn_plan = pn_plan pn @ [p], pn_roles = pn_roles pn @ [role], pn_rates = pn_rates pn @ [rate], pn_refs = pn_refs pn @ [ref]\<rparr>"

definition empty_plan :: Plan where
  "empty_plan = \<lparr>pn_plan = [], pn_roles = [], pn_rates = [], pn_refs = []\<rparr>"

definition plan_interfaces :: "TuiApp \<Rightarrow> Plan" where
  "plan_interfaces s =
     (let rows = iface_rows s in
      fold (\<lambda>i. add_row \<lparr>pl_src = Some i, pl_indent = False, pl_groupCells = []\<rparr> (rowRoleForInterface (rows ! i)) (combinedIfaceRate (rows ! i))
                 \<lparr>rr_selectable = True, rr_header = False, rr_key = interfaceKey (rows ! i), rr_groupKey = []\<rparr>)
        (sortedInterfaceIndices rows (ta_ifaceSortField s) (ta_ifaceSortDesc s)) empty_plan)"

definition connRole :: "TuiApp \<Rightarrow> ConnRow \<Rightarrow> Role" where
  "connRole s r = (if ta_directionColors s then rowRoleForConnection (ta_connAgg s) r else if cr_stale r then Stale else Normal)"

definition add_flow :: "TuiEnv \<Rightarrow> TuiApp \<Rightarrow> bool \<Rightarrow> string \<Rightarrow> nat \<Rightarrow> Plan \<Rightarrow> Plan" where
  "add_flow env s indent groupKey i =
     (let r = conn_rows s ! i in
      add_row \<lparr>pl_src = Some i, pl_indent = indent, pl_groupCells = []\<rparr> (connRole s r) (combinedRate r)
        \<lparr>rr_selectable = True, rr_header = False, rr_key = connectionKey (te_toStr env) r, rr_groupKey = groupKey\<rparr>)"

text \<open>Buckets in the order in which their keys appear.\<close>

definition bucket_row :: "TuiApp \<Rightarrow> nat \<Rightarrow> string list \<times> (string, nat list) qhash \<Rightarrow> string list \<times> (string, nat list) qhash" where
  "bucket_row s i x =
     (let (firstSeen, buckets) = x; k = tui_groupKeyFor (ta_groupBy s) (cr_current (conn_rows s ! i)) in
      case hfind buckets k of
        None \<Rightarrow> (firstSeen @ [k], hinsert k [i] buckets)
      | Some members \<Rightarrow> (firstSeen, hinsert k (members @ [i]) buckets))"

definition bucket_members :: "(string, nat list) qhash \<Rightarrow> string \<Rightarrow> nat list" where
  "bucket_members buckets k = (case hfind buckets k of None \<Rightarrow> [] | Some xs \<Rightarrow> xs)"

definition group_summary :: "TuiApp \<Rightarrow> nat list \<Rightarrow> GroupSummary" where
  "group_summary s members =
     (let rows = conn_rows s in
      \<lparr>gs_rxRate = sum_list (map (\<lambda>i. cr_rxRate (rows ! i)) members), gs_txRate = sum_list (map (\<lambda>i. cr_txRate (rows ! i)) members),
       gs_rxBytes = sum_list (map (\<lambda>i. c_rxBytes (cr_current (rows ! i))) members),
       gs_txBytes = sum_list (map (\<lambda>i. c_txBytes (cr_current (rows ! i))) members),
       gs_minSrc = fold min members (hd members),
       gs_label = tui_groupLabelFor (ta_groupBy s) (cr_current (rows ! hd members))\<rparr>)"

definition down_small :: string where "down_small = [CHR 0xE2, CHR 0x96, CHR 0xBE]"

definition frame_columns :: "TuiApp \<Rightarrow> TuiColumn list" where
  "frame_columns s =
     (case activeColumns s of
        [] \<Rightarrow> []
      | c # cs \<Rightarrow>
          (if ta_view s = Connections \<and> ta_groupBy s \<noteq> GNone
           then c\<lparr>tc_title := qarg (''Flow '' @ [CHR 0xC2, CHR 0xB7] @ '' by %1'') (groupByName (ta_groupBy s))\<rparr> else c) # cs)"

definition add_group :: "TuiEnv \<Rightarrow> TuiApp \<Rightarrow> string \<times> nat list \<times> GroupSummary \<Rightarrow> Plan \<Rightarrow> Plan" where
  "add_group env s x pn =
     (let (k, members, gs) = x;
          collapsed = (k \<in> ta_collapsedGroups s);
          label = qarg (qargs ''%1 %2  (%3)'' [if collapsed then right_triangle else down_small, gs_label gs]) (show_nat (length members));
          cells = groupHeaderCells (te_num env) (frame_columns s) label (gs_rxRate gs) (gs_txRate gs) (gs_rxBytes gs) (gs_txBytes gs);
          pn = add_row \<lparr>pl_src = None, pl_indent = False, pl_groupCells = cells\<rparr> GroupHeader (gs_rxRate gs + gs_txRate gs)
            \<lparr>rr_selectable = True, rr_header = True, rr_key = [], rr_groupKey = k\<rparr> pn
      in if collapsed then pn else fold (add_flow env s True k) members pn)"

definition matched_rows :: "TuiEnv \<Rightarrow> TuiApp \<Rightarrow> nat list" where
  "matched_rows env s = displayedConnectionIndices env (conn_rows s) (ta_connAgg s) (ta_connSortField s) (ta_connSortDesc s) (ta_filterExpr s)"

definition grouped_rows :: "TuiEnv \<Rightarrow> TuiApp \<Rightarrow> (string \<times> nat list \<times> GroupSummary) list" where
  "grouped_rows env s =
     (let (firstSeen, buckets) = fold (bucket_row s) (matched_rows env s) ([], []);
          summaries = map (\<lambda>k. group_summary s (bucket_members buckets k)) firstSeen
      in map (\<lambda>oi. (firstSeen ! oi, bucket_members buckets (firstSeen ! oi), summaries ! oi))
           (orderedGroupIndices summaries (ta_connSortField s) (ta_connSortDesc s) (ta_sortWithinGroups s)))"

definition plan_connections :: "TuiEnv \<Rightarrow> TuiApp \<Rightarrow> Plan" where
  "plan_connections env s =
     (if ta_groupBy s = GNone then fold (add_flow env s False []) (matched_rows env s) empty_plan
      else fold (add_group env s) (grouped_rows env s) empty_plan)"

definition frame_plan :: "TuiEnv \<Rightarrow> TuiApp \<Rightarrow> Plan" where
  "frame_plan env s = (if ta_view s = Interfaces then plan_interfaces s else plan_connections env s)"

section \<open>Cursor and scrolling\<close>

text \<open>The first selectable row from a position on, upwards or downwards; a position outside of the rows when there is none.\<close>

definition seek :: "RowRef list \<Rightarrow> bool \<Rightarrow> int \<Rightarrow> int" where
  "seek refs down pos =
     (if down then pos + int (length (takeWhile (\<lambda>r. \<not> rr_selectable r) (drop (nat pos) refs)))
      else pos - int (length (takeWhile (\<lambda>r. \<not> rr_selectable r) (rev (take (nat (pos + 1)) refs)))))"

definition in_rows :: "RowRef list \<Rightarrow> int \<Rightarrow> bool" where
  "in_rows refs pos = (0 \<le> pos \<and> pos < int (length refs))"

primrec move_loop :: "RowRef list \<Rightarrow> bool \<Rightarrow> nat \<Rightarrow> int \<Rightarrow> int" where
  "move_loop refs down 0 pos = pos"
| "move_loop refs down (Suc n) pos =
     (let next = seek refs down (if down then pos + 1 else pos - 1)
      in if in_rows refs next then move_loop refs down n next else pos)"

definition moveCursor :: "int \<Rightarrow> TuiApp \<Rightarrow> TuiApp" where
  "moveCursor delta s =
     (let refs = ta_rowRefs s in
      if refs = [] then requestRedraw (setCurrentCursor 0 s)
      else
        (let down = (0 \<le> delta);
             pos = move_loop refs down (nat \<bar>delta\<bar>) (clamp (currentCursor s) 0 (int (length refs) - 1));
             pos = (if rr_selectable (refs ! nat pos) then pos
                    else
                      (let p = seek refs down pos;
                           p = (if in_rows refs p then p else seek refs (\<not> down) pos)
                       in if in_rows refs p then p else pos))
         in requestRedraw (setCurrentCursor pos s)))"

primrec find_header :: "string \<Rightarrow> RowRef list \<Rightarrow> nat option" where
  "find_header k [] = None"
| "find_header k (r # rs) = (if rr_header r \<and> rr_groupKey r = k then Some 0 else map_option Suc (find_header k rs))"

text \<open>The cursor and the scroll offset for the planned rows; \<open>body\<close> is the height of the screen, 0 without one.\<close>

definition snap_cursor :: "RowRef list \<Rightarrow> int \<Rightarrow> int" where
  "snap_cursor refs cursor =
     (if cursor < int (length refs) \<and> \<not> rr_selectable (refs ! nat cursor)
      then (let dn = seek refs True cursor; up = seek refs False cursor in if dn < int (length refs) then dn else if 0 \<le> up then up else cursor)
      else cursor)"

definition follow_scroll :: "int \<Rightarrow> int \<Rightarrow> int \<Rightarrow> int \<Rightarrow> int" where
  "follow_scroll body rowTotal cursor scroll =
     (let scroll = (if cursor < scroll then cursor else if scroll + body \<le> cursor then cursor - body + 1 else scroll);
          scroll = clamp scroll 0 (max 0 (rowTotal - body))
      in if 1 < body \<and> scroll + body < rowTotal \<and> scroll + body - 1 \<le> cursor then clamp (cursor - body + 2) 0 (max 0 (rowTotal - body)) else scroll)"

definition body_height :: "TuiEnv \<Rightarrow> int" where
  "body_height env = (case te_bodyHeight env of None \<Rightarrow> 0 | Some h \<Rightarrow> h)"

text \<open>The frame's cursor, -1 without rows, and the new cursor and scroll offset of the view.\<close>

definition place_cursor :: "TuiEnv \<Rightarrow> RowRef list \<Rightarrow> string option \<Rightarrow> int \<Rightarrow> int \<Rightarrow> int \<times> int \<times> int" where
  "place_cursor env refs target cursor scroll =
     (let cursor = (case target of None \<Rightarrow> cursor | Some k \<Rightarrow> (case find_header k refs of None \<Rightarrow> cursor | Some i \<Rightarrow> int i)) in
      if refs = [] then (- 1, 0, 0)
      else
        (let rowTotal = int (length refs);
             cursor = snap_cursor refs (clamp cursor 0 (rowTotal - 1))
         in (cursor, cursor, if 0 < body_height env then follow_scroll (body_height env) rowTotal cursor scroll else scroll)))"

section \<open>The frame\<close>

record Modal =
  mo_visible :: bool
  mo_title :: string
  mo_items :: "(string \<times> string) list"
  mo_selected :: int

record Frame =
  fr_columns :: "TuiColumn list"
  fr_sortCol :: "nat option"
  fr_sortDesc :: bool
  fr_rows :: "string list list"
  fr_rowRoles :: "Role list"
  fr_rowGauge :: "real list"
  fr_cursor :: int
  fr_scrollOffset :: int
  fr_modal :: Modal

definition format_row :: "TuiEnv \<Rightarrow> TuiApp \<Rightarrow> PlannedRow \<Rightarrow> string list" where
  "format_row env s p =
     (case pl_src p of
        None \<Rightarrow> pl_groupCells p
      | Some i \<Rightarrow>
          (let cells = (if ta_view s = Interfaces then cellsForInterface (te_num env) (iface_rows s ! i)
                        else cellsForConnection (te_num env) (te_toStr env) (te_dns env) (ta_connAgg s) (conn_rows s ! i) (frame_columns s))
           in if pl_indent p then (case cells of [] \<Rightarrow> [] | c # cs \<Rightarrow> (''  '' @ c) # cs) else cells))"

text \<open>Only the rows in the window are formatted; the others are placeholders.\<close>

definition format_rows :: "TuiEnv \<Rightarrow> TuiApp \<Rightarrow> int \<Rightarrow> PlannedRow list \<Rightarrow> string list list" where
  "format_rows env s scroll plan =
     (let body = body_height env; rowTotal = int (length plan);
          fmtBegin = (if 0 < body then max 0 scroll else 0);
          fmtEnd = (if 0 < body then min rowTotal (scroll + body) else rowTotal)
      in map (\<lambda>(i, p). if int i < fmtBegin \<or> fmtEnd \<le> int i then [] else format_row env s p) (enumerate 0 plan))"

definition find_conn :: "TuiEnv \<Rightarrow> string \<Rightarrow> ConnRow list \<Rightarrow> ConnRow option" where
  "find_conn env key rows = find (\<lambda>r. connectionKey (te_toStr env) r = key) rows"

definition cached_details :: "TuiApp \<Rightarrow> ProcessInfo \<Rightarrow> ProcessDetails option" where
  "cached_details s p = (if pi_valid p then hfind (ta_procDetails s) (pi_pid p) else None)"

definition group_modal :: "TuiEnv \<Rightarrow> TuiApp \<Rightarrow> string \<times> SettingRow list" where
  "group_modal env s =
     (let members = filter (\<lambda>r. tui_groupKeyFor (ta_detailGroupBy s) (cr_current r) = ta_detailGroupKey s) (conn_rows s) in
      case members of
        [] \<Rightarrow> (''Group'', [detail_row ''(no longer present)'' []])
      | r # _ \<Rightarrow>
          (let rep = cr_current r;
               pd = (if ta_detailGroupBy s = GProcess then cached_details s (c_process rep) else None)
           in (qarg (''Group '' @ em_dash @ '' %1'') (tui_groupLabelFor (ta_detailGroupBy s) rep),
               groupDetailRows (te_num env) (ta_detailGroupBy s) rep (sum_list (map cr_rxRate members)) (sum_list (map cr_txRate members))
                 (sum_list (map (\<lambda>r. c_rxBytes (cr_current r)) members)) (sum_list (map (\<lambda>r. c_txBytes (cr_current r)) members)) (length members) pd)))"

definition detail_modal :: "TuiEnv \<Rightarrow> TuiApp \<Rightarrow> string \<times> SettingRow list" where
  "detail_modal env s =
     (if ta_detailGroupKey s \<noteq> [] then group_modal env s
      else if ta_detailView s = Interfaces then
        (case find (\<lambda>r. interfaceKey r = ta_detailKey s) (iface_rows s) of
           Some r \<Rightarrow> (qarg (''Interface '' @ em_dash @ '' %1'') (if_name (ir_current r)), interfaceDetailRows (te_num env) r)
         | None \<Rightarrow> (''Detail'', [detail_row ''(no longer present)'' []]))
      else
        (case find_conn env (ta_detailKey s) (conn_rows s) of
           Some r \<Rightarrow> (qarg (''Connection '' @ em_dash @ '' %1'') (ca_protoLabel (ta_connAgg s) (cr_current r)),
                      connectionDetailRows (te_num env) (te_toStr env) (te_dns env) (ta_connAgg s) r (cached_details s (c_process (cr_current r))))
         | None \<Rightarrow> (''Detail'', [detail_row ''(no longer present)'' []])))"


section \<open>The settings list\<close>

datatype SettingItem = SetTheme | SetGroup | SetPoll | SetGauge | SetDirectionColors | SetDns | SetUdp | SetSmoothing | SetSortWithin
  | SetProcessColumn | SetContainerColumn

definition settingItems :: "SettingItem list" where
  "settingItems = [SetTheme, SetGroup, SetPoll, SetGauge, SetDirectionColors, SetDns, SetUdp, SetSmoothing, SetSortWithin, SetProcessColumn,
     SetContainerColumn]"

fun setting_label :: "SettingItem \<Rightarrow> string" where
  "setting_label SetTheme = ''Theme''"
| "setting_label SetGroup = ''Group connections''"
| "setting_label SetPoll = ''Poll interval''"
| "setting_label SetGauge = ''Bandwidth gauge''"
| "setting_label SetDirectionColors = ''Direction colours''"
| "setting_label SetDns = ''Resolve hostnames''"
| "setting_label SetUdp = ''Aggregate UDP by peer''"
| "setting_label SetSmoothing = ''Rate smoothing''"
| "setting_label SetSortWithin = ''Sort within groups''"
| "setting_label SetProcessColumn = ''Process column''"
| "setting_label SetContainerColumn = ''Container column''"

fun setting_value :: "TuiApp \<Rightarrow> SettingItem \<Rightarrow> string" where
  "setting_value s SetTheme = th_name (builtinThemes ! ta_themeIdx s)"
| "setting_value s SetGroup = groupByName (ta_groupBy s)"
| "setting_value s SetPoll = qarg ''%1 ms'' (show_int (ta_pollMs s))"
| "setting_value s SetGauge = onOff (ta_gaugeEnabled s)"
| "setting_value s SetDirectionColors = onOff (ta_directionColors s)"
| "setting_value s SetDns = onOff (ta_dnsEnabled s)"
| "setting_value s SetUdp = onOff (ta_udpAggregate s)"
| "setting_value s SetSmoothing = onOff (ta_smoothing s)"
| "setting_value s SetSortWithin = onOff (ta_sortWithinGroups s)"
| "setting_value s SetProcessColumn = (if ta_procWire s then onOff (ta_showProcessColumn s) else ''unavailable'')"
| "setting_value s SetContainerColumn = (if ta_contWire s then onOff (ta_showContainerColumn s) else ''unavailable'')"

text \<open>\<open>up\<close> is the direction: right or activate, against left.\<close>

fun setting_adjust :: "TuiEnv \<Rightarrow> bool \<Rightarrow> SettingItem \<Rightarrow> TuiApp \<Rightarrow> TuiApp" where
  "setting_adjust env up SetTheme s =
     (let n = length builtinThemes in s\<lparr>ta_themeIdx := (ta_themeIdx s + (if up then 1 else n - 1)) mod n\<rparr>)"
| "setting_adjust env up SetGroup s =
     (let n = GroupBy_num GCount
      in s\<lparr>ta_groupBy := GroupBy_of ((GroupBy_num (ta_groupBy s) + (if up then 1 else n - 1)) mod n), ta_connScroll := 0\<rparr>)"
| "setting_adjust env up SetPoll s = applyPollInterval env (s\<lparr>ta_pollMs := clamp (ta_pollMs s + (if up then 250 else - 250)) 100 10000\<rparr>)"
| "setting_adjust env up SetGauge s = s\<lparr>ta_gaugeEnabled := \<not> ta_gaugeEnabled s\<rparr>"
| "setting_adjust env up SetDirectionColors s = s\<lparr>ta_directionColors := \<not> ta_directionColors s\<rparr>"
| "setting_adjust env up SetDns s = s\<lparr>ta_dnsEnabled := \<not> ta_dnsEnabled s\<rparr>"
| "setting_adjust env up SetUdp s = s\<lparr>ta_udpAggregate := \<not> ta_udpAggregate s\<rparr>"
| "setting_adjust env up SetSmoothing s = s\<lparr>ta_smoothing := \<not> ta_smoothing s\<rparr>"
| "setting_adjust env up SetSortWithin s = requestRedraw (s\<lparr>ta_sortWithinGroups := \<not> ta_sortWithinGroups s\<rparr>)"
| "setting_adjust env up SetProcessColumn s = requestRedraw (toggleOptionalColumn CProcess s)"
| "setting_adjust env up SetContainerColumn s = requestRedraw (toggleOptionalColumn CContainer s)"

definition modal_items :: "SettingRow list \<Rightarrow> (string \<times> string) list" where
  "modal_items rows = map (\<lambda>r. (sr_label r, sr_value r)) rows"

text \<open>The overlay; the texts of the help and the about panel are not modelled.\<close>

definition buildModal :: "TuiEnv \<Rightarrow> TuiApp \<Rightarrow> Modal" where
  "buildModal env s =
     (case ta_overlay s of
        DetailOverlay \<Rightarrow>
          (let (title, rows) = detail_modal env s in \<lparr>mo_visible = True, mo_title = title, mo_items = modal_items rows, mo_selected = 0\<rparr>)
      | SettingsOverlay \<Rightarrow>
          \<lparr>mo_visible = True, mo_title = ''Settings'', mo_items = map (\<lambda>it. (setting_label it, setting_value s it)) settingItems,
           mo_selected = ta_settingsSel s\<rparr>
      | FieldsOverlay \<Rightarrow>
          \<lparr>mo_visible = True, mo_title = ''Fields'', mo_items = modal_items (fieldRows (overlayColumns s) (currentSortField s) (currentSortDesc s)),
           mo_selected = ta_fieldsSel s\<rparr>
      | HelpOverlay \<Rightarrow> \<lparr>mo_visible = True, mo_title = ''Help '' @ em_dash @ '' key bindings'', mo_items = [], mo_selected = 0\<rparr>
      | AboutOverlay \<Rightarrow> \<lparr>mo_visible = True, mo_title = qarg ''About %1'' (te_appName env), mo_items = [], mo_selected = 0\<rparr>
      | NoOverlay \<Rightarrow> \<lparr>mo_visible = False, mo_title = [], mo_items = [], mo_selected = 0\<rparr>)"

definition buildFrame :: "TuiEnv \<Rightarrow> TuiApp \<Rightarrow> Frame \<times> TuiApp" where
  "buildFrame env s =
     (let pn = frame_plan env s; refs = pn_refs pn;
          (frameCursor, cursor, scroll) = place_cursor env refs (ta_cursorTarget s) (currentCursor s)
            (if ta_view s = Interfaces then ta_ifaceScroll s else ta_connScroll s);
          scale = niceScale (fold max (pn_rates pn) 0);
          frame = \<lparr>fr_columns = frame_columns s,
                   fr_sortCol = visualIndexForColumn (frame_columns s) (currentSortField s), fr_sortDesc = currentSortDesc s,
                   fr_rows = format_rows env s scroll (pn_plan pn), fr_rowRoles = pn_roles pn,
                   fr_rowGauge = (if ta_gaugeEnabled s then map (\<lambda>cr. gaugeFraction cr scale) (pn_rates pn) else []),
                   fr_cursor = frameCursor, fr_scrollOffset = scroll, fr_modal = buildModal env s\<rparr>;
          s = s\<lparr>ta_rowRefs := refs, ta_cursorTarget := None\<rparr>
      in (frame, if ta_view s = Interfaces then s\<lparr>ta_ifaceCursor := cursor, ta_ifaceScroll := scroll\<rparr>
                 else s\<lparr>ta_connCursor := cursor, ta_connScroll := scroll\<rparr>))"

definition doRedraw :: "TuiEnv \<Rightarrow> TuiApp \<Rightarrow> Frame option \<times> TuiApp" where
  "doRedraw env s =
     (let s = s\<lparr>ta_redrawPending := False\<rparr> in
      if te_bodyHeight env = None then (None, s) else (let (f, s) = buildFrame env s in (Some f, s)))"

section \<open>Details and groups\<close>

definition ensureProcessDetails :: "TuiEnv \<Rightarrow> int \<Rightarrow> TuiApp \<Rightarrow> TuiApp" where
  "ensureProcessDetails env pid s =
     (if pid \<le> 0 \<or> \<not> te_askDetails env then s
      else if hcontains (ta_procDetails s) pid \<or> pid \<in> ta_detailsRequested s then s
      else emit (AskDetails pid) (s\<lparr>ta_detailsRequested := insert pid (ta_detailsRequested s)\<rparr>))"

definition onProcessDetails :: "ProcessDetails \<Rightarrow> TuiApp \<Rightarrow> TuiApp" where
  "onProcessDetails d s =
     (if det_pid d \<le> 0 then s
      else
        (let s = s\<lparr>ta_procDetails := hinsert (det_pid d) d (ta_procDetails s), ta_detailsRequested := ta_detailsRequested s - {det_pid d}\<rparr>
         in if ta_overlay s = DetailOverlay then requestRedraw s else s))"

definition cursor_ref :: "TuiApp \<Rightarrow> RowRef option" where
  "cursor_ref s = (if in_rows (ta_rowRefs s) (currentCursor s) then Some (ta_rowRefs s ! nat (currentCursor s)) else None)"

definition openDetail :: "TuiEnv \<Rightarrow> TuiApp \<Rightarrow> TuiApp" where
  "openDetail env s =
     (case cursor_ref s of
        None \<Rightarrow> s
      | Some ref \<Rightarrow>
          if \<not> rr_selectable ref \<or> rr_key ref = [] then s
          else
            (let s = s\<lparr>ta_detailKey := rr_key ref, ta_detailView := ta_view s, ta_detailGroupKey := [], ta_detailGroupBy := GNone,
                       ta_overlay := DetailOverlay\<rparr>;
                 s = (if ta_view s = Connections
                      then (case find_conn env (ta_detailKey s) (conn_rows s) of
                              Some r \<Rightarrow> if pi_valid (c_process (cr_current r)) then ensureProcessDetails env (pi_pid (c_process (cr_current r))) s else s
                            | None \<Rightarrow> s)
                      else s)
             in requestRedraw s))"

definition openGroupDetail :: "TuiEnv \<Rightarrow> TuiApp \<Rightarrow> TuiApp" where
  "openGroupDetail env s =
     (if ta_view s \<noteq> Connections \<or> ta_groupBy s = GNone then s
      else
        (case cursor_ref s of
           None \<Rightarrow> s
         | Some ref \<Rightarrow>
             if \<not> rr_header ref then s
             else
               (let s = s\<lparr>ta_detailGroupKey := rr_groupKey ref, ta_detailGroupBy := ta_groupBy s, ta_detailView := Connections,
                          ta_overlay := DetailOverlay\<rparr>;
                    s = (if ta_groupBy s = GProcess
                         then (case find (\<lambda>r. tui_groupKeyFor (ta_groupBy s) (cr_current r) = ta_detailGroupKey s \<and> pi_valid (c_process (cr_current r))) (conn_rows s) of
                                 Some r \<Rightarrow> ensureProcessDetails env (pi_pid (c_process (cr_current r))) s
                               | None \<Rightarrow> s)
                         else s)
                in requestRedraw s)))"

definition cursorOnHeader :: "TuiApp \<Rightarrow> bool" where
  "cursorOnHeader s = (case cursor_ref s of None \<Rightarrow> False | Some ref \<Rightarrow> rr_header ref)"

definition collapseAtCursor :: "TuiApp \<Rightarrow> TuiApp" where
  "collapseAtCursor s =
     (if ta_view s \<noteq> Connections \<or> ta_groupBy s = GNone then s
      else
        (case cursor_ref s of
           None \<Rightarrow> s
         | Some ref \<Rightarrow>
             (let gk = rr_groupKey ref in
              if gk \<in> ta_collapsedGroups s then s
              else requestRedraw (s\<lparr>ta_collapsedGroups := insert gk (ta_collapsedGroups s), ta_cursorTarget := Some gk\<rparr>))))"

definition expandAtCursor :: "TuiApp \<Rightarrow> TuiApp" where
  "expandAtCursor s =
     (if ta_view s \<noteq> Connections \<or> ta_groupBy s = GNone then s
      else
        (case cursor_ref s of
           None \<Rightarrow> s
         | Some ref \<Rightarrow>
             if rr_header ref \<and> rr_groupKey ref \<in> ta_collapsedGroups s
             then requestRedraw (s\<lparr>ta_collapsedGroups := ta_collapsedGroups s - {rr_groupKey ref}\<rparr>) else s))"

definition toggleCollapseAtCursor :: "TuiApp \<Rightarrow> TuiApp" where
  "toggleCollapseAtCursor s =
     (if ta_view s \<noteq> Connections \<or> ta_groupBy s = GNone then s
      else
        (case cursor_ref s of
           None \<Rightarrow> s
         | Some ref \<Rightarrow>
             if \<not> rr_header ref then s
             else
               (let gk = rr_groupKey ref in
                requestRedraw (if gk \<in> ta_collapsedGroups s then s\<lparr>ta_collapsedGroups := ta_collapsedGroups s - {gk}\<rparr>
                  else s\<lparr>ta_collapsedGroups := insert gk (ta_collapsedGroups s), ta_cursorTarget := Some gk\<rparr>))))"

section \<open>Export\<close>

definition tui_endpointText :: "(QHostAddress \<Rightarrow> string) \<Rightarrow> Endpoint \<Rightarrow> string" where
  "tui_endpointText toStr e =
     qarg (qarg (if isIPv6 e then ''[%1]:%2'' else ''%1:%2'') (toStr (ep_address e))) (show_nat (unat (ep_port e)))"

definition connExportRow :: "(QHostAddress \<Rightarrow> string) \<Rightarrow> ConnRow \<Rightarrow> QVariant list" where
  "connExportRow toStr r =
     (let c = cr_current r; p = c_process c; ci = c_container c;
          container = (if ct_valid ci then (if ct_name ci = [] then ct_id ci else ct_name ci) else [])
      in [VString (l4ProtoToString (c_proto c)), VString (tui_endpointText toStr (c_local c)), VString (tui_endpointText toStr (c_remote c)),
          VString (c_iface c), VDouble (cr_rxRaw r), VDouble (cr_txRaw r), VULongLong (c_rxBytes c), VULongLong (c_txBytes c),
          VString (if pi_valid p then pi_comm p else []), VInt (if pi_valid p then pi_pid p else 0), VInt (if pi_valid p then uint (pi_uid p) else 0),
          VString (ct_runtime ci), VString container])"

definition connExportable :: "(QHostAddress \<Rightarrow> string) \<Rightarrow> ConnRow list \<Rightarrow> Exportable" where
  "connExportable toStr rows =
     \<lparr>ex_headers = [''proto'', ''local'', ''remote'', ''iface'', ''rx_rate'', ''tx_rate'', ''rx_bytes'', ''tx_bytes'', ''comm'', ''pid'', ''uid'',
        ''container_runtime'', ''container''],
      ex_rows = map (connExportRow toStr) rows\<rparr>"

definition ifaceExportable :: "IfaceRow list \<Rightarrow> Exportable" where
  "ifaceExportable rows =
     \<lparr>ex_headers = [''iface'', ''up'', ''rx_rate'', ''tx_rate'', ''rx_bytes'', ''tx_bytes''],
      ex_rows = map (\<lambda>r. [VString (if_name (ir_current r)), VInt (if if_isUp (ir_current r) then 1 else 0), VDouble (ir_rxRate r), VDouble (ir_txRate r),
        VULongLong (if_rxBytes (ir_current r)), VULongLong (if_txBytes (ir_current r))]) rows\<rparr>"

text \<open>The numbered names are tried in turn. There are as many tries as files and one more, so one of them is free.\<close>

definition export_name :: "string \<Rightarrow> string \<Rightarrow> nat \<Rightarrow> string" where
  "export_name baseName stamp n =
     (if n = 0 then baseName @ ''-'' @ stamp @ ''.csv'' else baseName @ ''-'' @ stamp @ ''-'' @ show_nat n @ ''.csv'')"

primrec first_free :: "string list \<Rightarrow> (nat \<Rightarrow> string) \<Rightarrow> nat \<Rightarrow> nat \<Rightarrow> string option" where
  "first_free files name 0 n = None"
| "first_free files name (Suc fuel) n = (if name n \<notin> set files then Some (name n) else first_free files name fuel (Suc n))"

definition uniqueExportPath :: "TuiEnv \<Rightarrow> string \<Rightarrow> string \<Rightarrow> string option" where
  "uniqueExportPath env baseName stamp =
     map_option (te_absolute env) (first_free (te_files env) (export_name baseName stamp) (length (te_files env) + 1) 0)"

definition file_name :: "string \<Rightarrow> string" where
  "file_name path = rev (takeWhile (\<lambda>c. c \<noteq> CHR ''/'') (rev path))"

definition exportCurrentView :: "TuiEnv \<Rightarrow> string \<Rightarrow> TuiApp \<Rightarrow> TuiApp" where
  "exportCurrentView env explicitPath s =
     (let ex = (if ta_view s = Interfaces then ifaceExportable (iface_rows s)
                else connExportable (te_toStr env) (map (\<lambda>i. conn_rows s ! i) (matched_rows env s)));
          data = toCsv (te_dbl env) ex;
          path = (if explicitPath = []
                  then the (uniqueExportPath env (if ta_view s = Interfaces then ''qiftop-interfaces'' else ''qiftop-connections'') (te_stampMs env))
                  else if CHR ''.'' \<in> set (file_name explicitPath) then explicitPath else explicitPath @ ''.csv'');
          (ok, err, _) = export_save (te_save env) path data (\<lambda>_. None)
      in if ok then flashMessage (qarg (qarg ''Exported %1 rows to %2'' (show_nat (length (ex_rows ex)))) path) (emit (FileWritten path data) s)
         else flashMessage (qarg ''Export failed: %1'' err) s)"

definition promptExportFilename :: "TuiEnv \<Rightarrow> TuiApp \<Rightarrow> TuiApp" where
  "promptExportFilename env s =
     requestRedraw (s\<lparr>ta_exportDraft := (if ta_view s = Interfaces then ''qiftop-interfaces'' else ''qiftop-connections'') @ ''-'' @ te_stamp env @ ''.csv'',
       ta_exportPrompt := True\<rparr>)"


section \<open>Keys\<close>

abbreviation Esc :: Key where "Esc \<equiv> Ch (CHR 0x1B)"

definition is_enter :: "Key \<Rightarrow> bool" where
  "is_enter k = (k = Ch (CHR 0x0A) \<or> k = Ch (CHR 0x0D) \<or> k = KEY_ENTER)"

definition is_backspace :: "Key \<Rightarrow> bool" where
  "is_backspace k = (k = KEY_BACKSPACE \<or> k = Ch (CHR 0x7F) \<or> k = Ch (CHR 0x08))"

text \<open>Printable ASCII.\<close>

fun typed :: "Key \<Rightarrow> char option" where
  "typed (Ch c) = (if 0x20 \<le> (of_char c :: nat) \<and> (of_char c :: nat) < 0x7F then Some c else None)"
| "typed _ = None"

definition handleExportKey :: "TuiEnv \<Rightarrow> Key \<Rightarrow> TuiApp \<Rightarrow> TuiApp" where
  "handleExportKey env k s =
     (if k = Esc then requestRedraw (s\<lparr>ta_exportPrompt := False, ta_exportDraft := []\<rparr>)
      else if is_enter k then
        (let s = s\<lparr>ta_exportPrompt := False\<rparr>;
             s = (if trimmed (ta_exportDraft s) \<noteq> [] then exportCurrentView env (trimmed (ta_exportDraft s)) s else s)
         in requestRedraw (s\<lparr>ta_exportDraft := []\<rparr>))
      else if is_backspace k then requestRedraw (s\<lparr>ta_exportDraft := butlast (ta_exportDraft s)\<rparr>)
      else if k = KEY_RESIZE then requestRedraw s
      else (case typed k of Some c \<Rightarrow> requestRedraw (s\<lparr>ta_exportDraft := ta_exportDraft s @ [c]\<rparr>) | None \<Rightarrow> s))"

definition commitFilter :: "TuiEnv \<Rightarrow> TuiApp \<Rightarrow> TuiApp" where
  "commitFilter env s =
     (let res = parse (te_filter env) (trimmed (ta_filterDraft s));
          s = s\<lparr>ta_filterError := pr_error res\<rparr>
      in if ta_filterError s \<noteq> [] then s
         else s\<lparr>ta_filterExpr := pr_expr res, ta_filterText := trimmed (ta_filterDraft s), ta_filterEditing := False, ta_connScroll := 0\<rparr>)"

definition handleFilterKey :: "TuiEnv \<Rightarrow> Key \<Rightarrow> TuiApp \<Rightarrow> TuiApp" where
  "handleFilterKey env k s =
     (if k = Esc then requestRedraw (s\<lparr>ta_filterEditing := False, ta_filterError := [], ta_filterDraft := ta_filterText s\<rparr>)
      else if is_enter k then requestRedraw (commitFilter env s)
      else if is_backspace k then requestRedraw (s\<lparr>ta_filterDraft := butlast (ta_filterDraft s), ta_filterError := []\<rparr>)
      else if k = KEY_RESIZE then requestRedraw s
      else (case typed k of
              Some c \<Rightarrow> requestRedraw (s\<lparr>ta_filterDraft := ta_filterDraft s @ [c], ta_filterError := []\<rparr>)
            | None \<Rightarrow> s))"

definition handleDetailKey :: "Key \<Rightarrow> TuiApp \<Rightarrow> TuiApp" where
  "handleDetailKey k s =
     (if k = Ch (CHR ''j'') \<or> k = KEY_DOWN \<or> k = Ch (CHR ''k'') \<or> k = KEY_UP then
        (let s = moveCursor (if k = Ch (CHR ''j'') \<or> k = KEY_DOWN then 1 else - 1) s;
             s = (case cursor_ref s of
                    None \<Rightarrow> s
                  | Some ref \<Rightarrow>
                      if \<not> rr_selectable ref then s
                      else if rr_header ref then s\<lparr>ta_detailGroupKey := rr_groupKey ref, ta_detailGroupBy := ta_groupBy s, ta_detailKey := []\<rparr>
                      else s\<lparr>ta_detailKey := rr_key ref, ta_detailGroupKey := [], ta_detailGroupBy := GNone\<rparr>)
         in requestRedraw s)
      else if k = KEY_RESIZE then requestRedraw s
      else requestRedraw (s\<lparr>ta_overlay := NoOverlay, ta_detailGroupKey := [], ta_detailGroupBy := GNone\<rparr>))"

definition handleInfoKey :: "Key \<Rightarrow> TuiApp \<Rightarrow> TuiApp" where
  "handleInfoKey k s = (if k = KEY_RESIZE then requestRedraw s else requestRedraw (s\<lparr>ta_overlay := NoOverlay\<rparr>))"

definition activate :: "TuiEnv \<Rightarrow> bool \<Rightarrow> TuiApp \<Rightarrow> TuiApp" where
  "activate env up s =
     applyAggregatorSettings
       (if 0 \<le> ta_settingsSel s \<and> ta_settingsSel s < int (length settingItems) then setting_adjust env up (settingItems ! nat (ta_settingsSel s)) s else s)"

definition handleSettingsKey :: "TuiEnv \<Rightarrow> Key \<Rightarrow> TuiApp \<Rightarrow> TuiApp" where
  "handleSettingsKey env k s =
     (let n = int (length settingItems) in
      if k \<in> {Ch (CHR ''S''), Ch (CHR ''q''), Ch (CHR ''Q''), Esc} then requestRedraw (s\<lparr>ta_overlay := NoOverlay\<rparr>)
      else if k \<in> {KEY_UP, Ch (CHR ''k'')} then requestRedraw (s\<lparr>ta_settingsSel := (ta_settingsSel s - 1 + n) mod n\<rparr>)
      else if k \<in> {KEY_DOWN, Ch (CHR ''j'')} then requestRedraw (s\<lparr>ta_settingsSel := (ta_settingsSel s + 1) mod n\<rparr>)
      else if k \<in> {KEY_LEFT, Ch (CHR ''h'')} then requestRedraw (activate env False s)
      else if k \<in> {KEY_RIGHT, Ch (CHR ''l''), Ch (CHR '' '')} \<or> is_enter k then requestRedraw (activate env True s)
      else if k = KEY_RESIZE then requestRedraw s
      else s)"

definition handleFieldsKey :: "Key \<Rightarrow> TuiApp \<Rightarrow> TuiApp" where
  "handleFieldsKey k s =
     (let cols = overlayColumns s; n = int (length cols) in
      if cols = [] then requestRedraw (s\<lparr>ta_overlay := NoOverlay\<rparr>)
      else
        (let s = s\<lparr>ta_fieldsSel := clamp (ta_fieldsSel s) 0 (n - 1)\<rparr>; sel = cols ! nat (ta_fieldsSel s) in
         if k \<in> {Ch (CHR ''f''), Ch (CHR ''F''), Ch (CHR ''q''), Ch (CHR ''Q''), Esc} then requestRedraw (s\<lparr>ta_overlay := NoOverlay\<rparr>)
         else if k \<in> {KEY_UP, Ch (CHR ''k'')} then requestRedraw (s\<lparr>ta_fieldsSel := (ta_fieldsSel s - 1 + n) mod n\<rparr>)
         else if k \<in> {KEY_DOWN, Ch (CHR ''j'')} then requestRedraw (s\<lparr>ta_fieldsSel := (ta_fieldsSel s + 1) mod n\<rparr>)
         else if k = Ch (CHR '' '') then
           requestRedraw
             (if tc_hideable sel \<and> tc_available sel then toggleOptionalColumn (tc_id sel) s
              else if tc_hideable sel then
                flashMessage (qargs ''%1 needs the backend's %2 capability''
                  [tc_title sel, if tc_id sel = CContainer then ''container-attribution-wire'' else ''process-attribution-wire'']) s
              else s)
         else if is_enter k then
           requestRedraw (if currentSortField s = tc_id sel then flipSortDesc s else setCurrentSortField (tc_id sel) s)
         else if k \<in> {Ch (CHR ''r''), Ch (CHR ''R''), KEY_LEFT, KEY_RIGHT} then requestRedraw (flipSortDesc s)
         else if k = KEY_RESIZE then requestRedraw s
         else s))"

text \<open>\<open>std::numeric_limits<int>::max() / 2\<close>.\<close>

definition far :: int where "far = 1073741823"

definition togglePause :: "TuiApp \<Rightarrow> TuiApp" where
  "togglePause s =
     (if \<not> ta_paused s
      then s\<lparr>ta_paused := True, ta_frozenIfaceRows := ia_rows (ta_ifaceAgg s), ta_frozenConnRows := ca_rows (ta_connAgg s)\<rparr>
      else s\<lparr>ta_paused := False, ta_frozenIfaceRows := [], ta_frozenConnRows := []\<rparr>)"

text \<open>The main view; None when the key is unknown and nothing is repainted.\<close>

definition main_key :: "TuiEnv \<Rightarrow> Key \<Rightarrow> TuiApp \<Rightarrow> TuiApp option" where
  "main_key env k s =
     (let bodyH = max 1 (case te_bodyHeight env of None \<Rightarrow> 1 | Some h \<Rightarrow> h) in
      if k \<in> {Ch (CHR ''S''), KEY_F 2} then Some (s\<lparr>ta_overlay := SettingsOverlay\<rparr>)
      else if k \<in> {Ch (CHR ''f''), Ch (CHR ''F'')} then
        Some (s\<lparr>ta_fieldsSel := (case visualIndexForColumn (overlayColumns s) (currentSortField s) of None \<Rightarrow> 0 | Some i \<Rightarrow> int i),
                ta_overlay := FieldsOverlay\<rparr>)
      else if k \<in> {Ch (CHR ''?''), KEY_F 1} then Some (s\<lparr>ta_overlay := HelpOverlay\<rparr>)
      else if k \<in> {Ch (CHR ''a''), Ch (CHR ''A'')} then Some (s\<lparr>ta_overlay := AboutOverlay\<rparr>)
      else if k \<in> {Ch (CHR ''e''), Ch (CHR ''E'')} then Some (cycleAttributionEagerness env s)
      else if k \<in> {Ch (CHR ''p''), Ch (CHR ''P'')} then Some (togglePause s)
      else if k = Ch (CHR ''w'') then Some (exportCurrentView env [] s)
      else if k = Ch (CHR ''W'') then Some (promptExportFilename env s)
      else if k = Ch (CHR ''/'') then Some (s\<lparr>ta_filterEditing := True, ta_filterDraft := ta_filterText s\<rparr>)
      else if k = Esc then
        (if ta_filterText s \<noteq> [] then Some (s\<lparr>ta_filterText := [], ta_filterExpr := None, ta_connCursor := 0\<rparr>) else None)
      else if k \<in> {Ch (CHR 0x09), KEY_BTAB} then Some (s\<lparr>ta_view := if ta_view s = Interfaces then Connections else Interfaces\<rparr>)
      else if k = Ch (CHR ''1'') then Some (s\<lparr>ta_view := Interfaces\<rparr>)
      else if k = Ch (CHR ''2'') then Some (s\<lparr>ta_view := Connections\<rparr>)
      else if k = Ch (CHR ''s'') then Some (cycleSortField s)
      else if k \<in> {Ch (CHR ''r''), Ch (CHR ''R'')} then Some (flipSortDesc s)
      else if k \<in> {Ch (CHR ''z''), Ch (CHR ''Z'')} then Some (s\<lparr>ta_themeIdx := (ta_themeIdx s + 1) mod length builtinThemes\<rparr>)
      else if k = Ch (CHR ''g'') then
        Some (s\<lparr>ta_groupBy := GroupBy_of ((GroupBy_num (ta_groupBy s) + 1) mod GroupBy_num GCount), ta_connCursor := 0, ta_collapsedGroups := {}\<rparr>)
      else if k \<in> {Ch (CHR ''k''), KEY_UP} then Some (moveCursor (- 1) s)
      else if k \<in> {Ch (CHR ''j''), KEY_DOWN} then Some (moveCursor 1 s)
      else if k \<in> {Ch (CHR ''G''), KEY_END} then Some (moveCursor far s)
      else if k = Ch (CHR 0x04) then Some (moveCursor (bodyH div 2) s)
      else if k = Ch (CHR 0x15) then Some (moveCursor (- (bodyH div 2)) s)
      else if k \<in> {KEY_PPAGE, Ch (CHR 0x02)} then Some (moveCursor (- bodyH) s)
      else if k \<in> {KEY_NPAGE, Ch (CHR 0x06)} then Some (moveCursor bodyH s)
      else if k = KEY_HOME then Some (moveCursor (- far) s)
      else if is_enter k then Some (if cursorOnHeader s then openGroupDetail env s else openDetail env s)
      else if k = Ch (CHR '' '') then Some (if cursorOnHeader s then toggleCollapseAtCursor s else openDetail env s)
      else if k \<in> {Ch (CHR ''l''), KEY_RIGHT} then Some (if cursorOnHeader s then expandAtCursor s else openDetail env s)
      else if k \<in> {Ch (CHR ''h''), KEY_LEFT} then Some (collapseAtCursor s)
      else if k = KEY_RESIZE then Some s
      else None)"

definition handleKey :: "TuiEnv \<Rightarrow> Key \<Rightarrow> TuiApp \<Rightarrow> TuiApp" where
  "handleKey env k s =
     (if ta_overlay s = SettingsOverlay then handleSettingsKey env k s
      else if ta_overlay s = FieldsOverlay then handleFieldsKey k s
      else if ta_overlay s = HelpOverlay \<or> ta_overlay s = AboutOverlay then handleInfoKey k s
      else if ta_overlay s = DetailOverlay then handleDetailKey k s
      else if ta_filterEditing s then handleFilterKey env k s
      else if ta_exportPrompt s then handleExportKey env k s
      else if k \<in> {Ch (CHR ''q''), Ch (CHR ''Q'')} then emit Quit (saveSettings env s)
      else (case main_key env k s of None \<Rightarrow> s | Some s' \<Rightarrow> requestRedraw s'))"

end
