(* ===== verification/TuiAppFacts.thy ===== *)
theory TuiAppFacts
  imports TuiApp
begin

text \<open>
  What the terminal controller guarantees: the frame shows the cursor and formats every visible row as if all were formatted,
  grouped rows are a partition of the matching flows, every reachable state is well formed, the settings survive a restart,
  and an automatic export never takes the name of a file that is there.
\<close>

section \<open>The frame\<close>

definition plan_ok :: "Plan \<Rightarrow> bool" where
  "plan_ok pn = (length (pn_roles pn) = length (pn_plan pn) \<and> length (pn_rates pn) = length (pn_plan pn) \<and>
     length (pn_refs pn) = length (pn_plan pn) \<and> (\<forall>r \<in> set (pn_refs pn). rr_selectable r))"

lemma add_row_ok: "plan_ok pn \<Longrightarrow> rr_selectable ref \<Longrightarrow> plan_ok (add_row p role rate ref pn)"
  by (auto simp: plan_ok_def add_row_def)

lemma add_flow_ok: "plan_ok pn \<Longrightarrow> plan_ok (add_flow env s indent k i pn)"
  by (simp add: add_flow_def Let_def add_row_ok)

lemma fold_ok: "(\<And>x pn. plan_ok pn \<Longrightarrow> plan_ok (f x pn)) \<Longrightarrow> plan_ok pn \<Longrightarrow> plan_ok (fold f xs pn)"
  by (induction xs arbitrary: pn) auto

lemma add_group_ok: "plan_ok pn \<Longrightarrow> plan_ok (add_group env s x pn)"
  by (auto simp: add_group_def Let_def case_prod_beta intro!: fold_ok add_flow_ok add_row_ok)

lemma empty_plan_ok: "plan_ok empty_plan"
  by (simp add: plan_ok_def empty_plan_def)

lemma frame_plan_ok: "plan_ok (frame_plan env s)"
  by (auto simp: frame_plan_def plan_interfaces_def plan_connections_def Let_def
      intro!: fold_ok empty_plan_ok add_row_ok add_flow_ok add_group_ok)

lemma clamp_bounds: "lo \<le> hi \<Longrightarrow> lo \<le> clamp x lo hi \<and> clamp x lo hi \<le> hi"
  by (auto simp: clamp_def)

lemma follow_scroll_visible:
  assumes "0 < body" and "0 \<le> cursor" and "cursor < n"
  shows "0 \<le> follow_scroll body n cursor scroll \<and> follow_scroll body n cursor scroll \<le> cursor \<and> cursor < follow_scroll body n cursor scroll + body"
    and "1 < body \<Longrightarrow> cursor + 1 < n \<Longrightarrow> cursor + 1 < follow_scroll body n cursor scroll + body"
  using assms by (auto simp: follow_scroll_def clamp_def Let_def split: if_splits)

lemma snap_selectable: "\<forall>r \<in> set refs. rr_selectable r \<Longrightarrow> 0 \<le> c \<Longrightarrow> snap_cursor refs c = c"
  by (auto simp: snap_cursor_def nat_less_iff)

definition frame_env :: "int option \<Rightarrow> TuiEnv" where
  "frame_env h = \<lparr>te_num = (\<lambda>_ _. ''0''), te_dbl = (\<lambda>_. ''0''), te_toStr = plain_addr, te_dns = (\<lambda>_. []),
     te_filter = \<lparr>rx_valid = (\<lambda>_. True), rx_error = (\<lambda>_. []), rx_match = (\<lambda>_ _. False), toDouble = (\<lambda>_. None), addr_text = plain_addr\<rparr>,
     te_bodyHeight = h, te_askDetails = True, te_askEagerness = True, te_applyPoll = True, te_escalate = False, te_stampMs = ''1'', te_stamp = ''1'',
     te_files = [], te_absolute = (\<lambda>p. ''/'' @ p), te_save = \<lparr>sf_open = None, sf_write = (0, []), sf_commit = None\<rparr>, te_appName = ''nqiftop''\<rparr>"

definition sample_view :: "GroupBy \<Rightarrow> TuiApp" where
  "sample_view g = (mk_TuiApp mk_InterfaceAggregator (mk_ConnectionAggregator (32768, 60999)) (\<lambda>_. None))\<lparr>ta_paused := True,
     ta_frozenConnRows := [new_row no_connection 0, new_row (no_connection\<lparr>c_iface := ''eth0''\<rparr>) 0], ta_groupBy := g, ta_connCursor := 5\<rparr>"

lemma add_flows_length: "length (pn_plan (fold (add_flow env s indent k) xs pn)) = length (pn_plan pn) + length xs"
  by (induction xs arbitrary: pn) (simp_all add: add_flow_def Let_def add_row_def)

lemma sample_view_length: "length (pn_plan (frame_plan env (sample_view GNone))) = 2"
proof -
  have "length (sortedConnectionIndices toStr rows fld d) = length rows" for toStr rows fld d
    by (simp add: sortedConnectionIndices_def Let_def flip: size_mset)
  then have "length (matched_rows env (sample_view GNone)) = 2"
    by (simp add: matched_rows_def displayedConnectionIndices_def sample_view_def mk_TuiApp_def conn_rows_def)
  moreover have "ta_view (sample_view GNone) = Connections" "ta_groupBy (sample_view GNone) = GNone" by (simp_all add: sample_view_def mk_TuiApp_def)
  ultimately show ?thesis by (simp add: frame_plan_def plan_connections_def add_flows_length) (simp add: empty_plan_def)
qed

lemma frame_rows_length: "buildFrame env s = (f, s') \<Longrightarrow> length (fr_rows f) = length (pn_plan (frame_plan env s))"
  by (auto simp: buildFrame_def Let_def format_rows_def split: prod.splits)

text \<open>C24: in every frame with rows the cursor is on a row, the window contains it and, when there is room and a next row, also
  the next row; without rows there is no cursor.\<close>

theorem frame_cursor_visible:
  assumes "buildFrame env s = (f, s')"
  shows "(if fr_rows f = [] then fr_cursor f = - 1 else
      0 \<le> fr_cursor f \<and> fr_cursor f < int (length (fr_rows f)) \<and> currentCursor s' = fr_cursor f \<and>
      (0 < body_height env \<longrightarrow> 0 \<le> fr_scrollOffset f \<and> fr_scrollOffset f \<le> fr_cursor f \<and> fr_cursor f < fr_scrollOffset f + body_height env) \<and>
      (1 < body_height env \<and> fr_cursor f + 1 < int (length (fr_rows f)) \<longrightarrow> fr_cursor f + 1 < fr_scrollOffset f + body_height env))"
proof -
  define pn where "pn = frame_plan env s"
  define start where "start = (case ta_cursorTarget s of None \<Rightarrow> currentCursor s
    | Some k \<Rightarrow> (case find_header k (pn_refs pn) of None \<Rightarrow> currentCursor s | Some i \<Rightarrow> int i))"
  define scroll where "scroll = (if ta_view s = Interfaces then ta_ifaceScroll s else ta_connScroll s)"
  have ok: "plan_ok pn" unfolding pn_def by (rule frame_plan_ok)
  have rows: "length (fr_rows f) = length (pn_refs pn)"
    using assms ok by (auto simp: buildFrame_def Let_def case_prod_beta format_rows_def pn_def [symmetric] plan_ok_def)
  show ?thesis
  proof (cases "pn_refs pn = []")
    case True
    then have "fr_cursor f = - 1" using assms by (auto simp: buildFrame_def Let_def case_prod_beta place_cursor_def pn_def [symmetric])
    then show ?thesis using True rows by simp
  next
    case False
    define n where "n = int (length (pn_refs pn))"
    define c where "c = clamp start 0 (n - 1)"
    have n: "0 < n" using False by (simp add: n_def)
    have c: "0 \<le> c" "c < n" using clamp_bounds [of 0 "n - 1" start] n by (auto simp: c_def)
    have snap: "snap_cursor (pn_refs pn) c = c" using ok c(1) by (intro snap_selectable) (simp_all add: plan_ok_def)
    have p: "place_cursor env (pn_refs pn) (ta_cursorTarget s) (currentCursor s) scroll =
        (c, c, if 0 < body_height env then follow_scroll (body_height env) n c scroll else scroll)"
      unfolding place_cursor_def Let_def start_def [symmetric] n_def [symmetric] c_def [symmetric] snap using False by simp
    then have f: "fr_cursor f = c" "fr_scrollOffset f = (if 0 < body_height env then follow_scroll (body_height env) n c scroll else scroll)"
      "currentCursor s' = c"
      using assms unfolding buildFrame_def Let_def pn_def [symmetric] scroll_def [symmetric] by (auto simp: currentCursor_def)
    have "fr_rows f \<noteq> []" "int (length (fr_rows f)) = n" using rows False by (auto simp: n_def)
    then show ?thesis using f c follow_scroll_visible [of "body_height env" c n scroll] by simp
  qed
qed

theorem frame_cursor_visible_witness:
  "\<exists>f s'. buildFrame (frame_env (Some 1)) (sample_view GNone) = (f, s') \<and> length (fr_rows f) = 2 \<and> 0 \<le> fr_cursor f \<and> fr_cursor f < 2 \<and>
     fr_scrollOffset f = fr_cursor f"
proof -
  obtain f s' where f: "buildFrame (frame_env (Some 1)) (sample_view GNone) = (f, s')" by fastforce
  have "length (fr_rows f) = 2" using frame_rows_length [OF f] sample_view_length by simp
  moreover from this have "fr_rows f \<noteq> []" by auto
  ultimately show ?thesis using frame_cursor_visible [OF f] f by (auto simp: body_height_def frame_env_def)
qed

text \<open>Every row the screen can read is what formatting all rows gives, and the lists of the frame are aligned with the
  planned rows.\<close>

theorem deferred_formatting_exact:
  assumes "buildFrame env s = (f, s')" and "pn = frame_plan env s"
  shows "length (fr_rows f) = length (pn_plan pn) \<and> length (fr_rowRoles f) = length (pn_plan pn) \<and> length (ta_rowRefs s') = length (pn_plan pn) \<and>
    (ta_gaugeEnabled s \<longrightarrow> length (fr_rowGauge f) = length (pn_plan pn)) \<and>
    (\<forall>i < length (pn_plan pn). body_height env \<le> 0 \<or> fr_scrollOffset f \<le> int i \<and> int i < fr_scrollOffset f + body_height env \<longrightarrow>
       fr_rows f ! i = map (format_row env s) (pn_plan pn) ! i)"
proof -
  have ok: "plan_ok pn" unfolding assms(2) by (rule frame_plan_ok)
  define sc where "sc = fr_scrollOffset f"
  have f: "fr_rows f = format_rows env s sc (pn_plan pn)" "fr_rowRoles f = pn_roles pn" "ta_rowRefs s' = pn_refs pn"
    "fr_rowGauge f = (if ta_gaugeEnabled s then map (\<lambda>cr. gaugeFraction cr (niceScale (fold max (pn_rates pn) 0))) (pn_rates pn) else [])"
    using assms(1) unfolding buildFrame_def Let_def assms(2) [symmetric] sc_def by (auto split: prod.splits)
  have "fr_rows f ! i = map (format_row env s) (pn_plan pn) ! i"
    if i: "i < length (pn_plan pn)" "body_height env \<le> 0 \<or> sc \<le> int i \<and> int i < sc + body_height env" for i
    using i by (auto simp: f(1) format_rows_def Let_def nth_enumerate_eq)
  then show ?thesis unfolding sc_def [symmetric] using ok f(2-4) by (simp add: plan_ok_def f(1) format_rows_def Let_def)
qed

theorem deferred_formatting_exact_witness:
  "\<exists>f s'. buildFrame (frame_env None) (sample_view GNone) = (f, s') \<and> length (fr_rows f) = 2 \<and>
     fr_rows f ! 1 = map (format_row (frame_env None) (sample_view GNone)) (pn_plan (frame_plan (frame_env None) (sample_view GNone))) ! 1"
proof -
  obtain f s' where f: "buildFrame (frame_env None) (sample_view GNone) = (f, s')" by fastforce
  have "body_height (frame_env None) \<le> 0" by (simp add: body_height_def frame_env_def)
  then show ?thesis using deferred_formatting_exact [OF f refl] f sample_view_length by (metis one_less_numeral_iff semiring_norm(76))
qed

section \<open>Groups\<close>

definition row_group :: "TuiApp \<Rightarrow> nat \<Rightarrow> string" where
  "row_group s i = tui_groupKeyFor (ta_groupBy s) (cr_current (conn_rows s ! i))"

lemma bucket_fold:
  "fold (bucket_row s) xs ([], []) = (seen, buckets) \<Longrightarrow>
   distinct seen \<and> set seen = row_group s ` set xs \<and>
   (\<forall>k. hfind buckets k = (if k \<in> set seen then Some (filter (\<lambda>i. row_group s i = k) xs) else None))"
proof (induction xs arbitrary: seen buckets rule: rev_induct)
  case (snoc x xs)
  obtain seen' buckets' where b: "fold (bucket_row s) xs ([], []) = (seen', buckets')" by fastforce
  note IH = snoc.IH [OF b]
  have e: "bucket_row s x (seen', buckets') = (seen, buckets)" using snoc.prems b by simp
  show ?case
  proof (cases "row_group s x \<in> set seen'")
    case True
    then have "seen = seen'" "buckets = hinsert (row_group s x) (filter (\<lambda>i. row_group s i = row_group s x) xs @ [x]) buckets'"
      using e IH by (simp_all add: bucket_row_def row_group_def Let_def)
    then show ?thesis using IH True by (auto simp: hfind_insert)
  next
    case False
    then have s: "seen = seen' @ [row_group s x]" "buckets = hinsert (row_group s x) [x] buckets'"
      using e IH by (simp_all add: bucket_row_def row_group_def Let_def)
    have "filter (\<lambda>i. row_group s i = row_group s x) xs = []" using False IH by (metis (mono_tags, lifting) filter_False image_eqI)
    then show ?thesis using IH False unfolding s by (auto simp: hfind_insert)
  qed
qed simp

lemma grouped_rows_partition:
  "distinct (map fst (grouped_rows env s)) \<and> set (map fst (grouped_rows env s)) = row_group s ` set (matched_rows env s) \<and>
   (\<forall>(k, members, gs) \<in> set (grouped_rows env s). members = filter (\<lambda>i. row_group s i = k) (matched_rows env s) \<and> gs = group_summary s members)"
proof -
  obtain seen buckets where b: "fold (bucket_row s) (matched_rows env s) ([], []) = (seen, buckets)" by fastforce
  note B = bucket_fold [OF b]
  define summaries where "summaries = map (\<lambda>k. group_summary s (bucket_members buckets k)) seen"
  define order where "order = orderedGroupIndices summaries (ta_connSortField s) (ta_connSortDesc s) (ta_sortWithinGroups s)"
  have o: "mset order = mset [0..<length seen]" by (simp add: order_def summaries_def orderedGroupIndices_def)
  then have set_o: "set order = {0..<length seen}" "distinct order" by (metis atLeast_upt mset_eq_setD lessThan_atLeast0 set_upt, metis distinct_upt mset_eq_imp_distinct_iff)
  have g: "grouped_rows env s = map (\<lambda>oi. (seen ! oi, bucket_members buckets (seen ! oi), summaries ! oi)) order"
    by (simp add: grouped_rows_def b Let_def summaries_def order_def)
  have keys: "map fst (grouped_rows env s) = map (\<lambda>oi. seen ! oi) order" by (simp add: g)
  have "distinct (map (\<lambda>oi. seen ! oi) order)" using B set_o by (auto simp: distinct_map inj_on_def nth_eq_iff_index_eq)
  moreover have "set (map (\<lambda>oi. seen ! oi) order) = set seen" using set_o(1) by (auto simp: set_conv_nth [of seen])
  moreover have "bucket_members buckets (seen ! oi) = filter (\<lambda>i. row_group s i = seen ! oi) (matched_rows env s)" if "oi < length seen" for oi
    using B nth_mem [OF that] by (simp add: bucket_members_def del: nth_mem)
  ultimately show ?thesis unfolding keys using B set_o by (auto simp: g summaries_def)
qed

definition plan_sources :: "Plan \<Rightarrow> nat list" where
  "plan_sources pn = concat (map (\<lambda>p. case pl_src p of None \<Rightarrow> [] | Some i \<Rightarrow> [i]) (pn_plan pn))"

lemma add_row_sources: "plan_sources (add_row p role rate ref pn) = plan_sources pn @ (case pl_src p of None \<Rightarrow> [] | Some i \<Rightarrow> [i])"
  by (simp add: plan_sources_def add_row_def)

lemma add_flows_sources: "plan_sources (fold (add_flow env s indent k) xs pn) = plan_sources pn @ xs"
  by (induction xs arbitrary: pn) (simp_all add: add_flow_def Let_def add_row_sources)

lemma add_groups_sources:
  "plan_sources (fold (add_group env s) gs pn) = plan_sources pn @ concat (map (\<lambda>(k, members, _). if k \<in> ta_collapsedGroups s then [] else members) gs)"
proof (induction gs arbitrary: pn)
  case (Cons g gs)
  obtain k members sm where g: "g = (k, members, sm)" by (cases g) auto
  have "plan_sources (add_group env s g pn) = plan_sources pn @ (if k \<in> ta_collapsedGroups s then [] else members)"
    by (simp add: add_group_def g Let_def add_flows_sources add_row_sources)
  then show ?case using Cons by (simp add: g)
qed simp

lemma mset_filter_disjoint:
  "(\<And>x. \<not> (P x \<and> Q x)) \<Longrightarrow> mset (filter P xs) + mset (filter Q xs) = mset (filter (\<lambda>x. P x \<or> Q x) xs)"
  by (induction xs) auto

lemma mset_by_keys:
  "distinct ks \<Longrightarrow> mset (concat (map (\<lambda>k. if k \<in> C then [] else filter (\<lambda>i. f i = k) xs) ks)) = mset (filter (\<lambda>i. f i \<in> set ks \<and> f i \<notin> C) xs)"
proof (induction ks)
  case (Cons k ks)
  have "mset (filter (\<lambda>i. f i = k \<and> k \<notin> C) xs) + mset (filter (\<lambda>i. f i \<in> set ks \<and> f i \<notin> C) xs) =
      mset (filter (\<lambda>i. f i = k \<and> k \<notin> C \<or> f i \<in> set ks \<and> f i \<notin> C) xs)"
    by (rule mset_filter_disjoint) (use Cons.prems in auto)
  moreover have "(\<lambda>i. f i = k \<and> k \<notin> C \<or> f i \<in> set ks \<and> f i \<notin> C) = (\<lambda>i. f i \<in> set (k # ks) \<and> f i \<notin> C)" by auto
  ultimately show ?case using Cons by (cases "k \<in> C") auto
qed simp

text \<open>C19: in a grouped view the groups split the matching flows by their keys, each group's summary is that of its members, and
  the planned rows are exactly the flows of the groups that are not collapsed, each once.\<close>

theorem grouped_view_complete:
  assumes "ta_view s = Connections" and "ta_groupBy s \<noteq> GNone"
  shows "mset (plan_sources (frame_plan env s)) = mset (filter (\<lambda>i. row_group s i \<notin> ta_collapsedGroups s) (matched_rows env s)) \<and>
    distinct (map fst (grouped_rows env s)) \<and> set (map fst (grouped_rows env s)) = row_group s ` set (matched_rows env s) \<and>
    (\<forall>(k, members, gs) \<in> set (grouped_rows env s). members = filter (\<lambda>i. row_group s i = k) (matched_rows env s) \<and> gs = group_summary s members)"
proof -
  note G = grouped_rows_partition [of env s]
  define ks where "ks = map fst (grouped_rows env s)"
  have "map (\<lambda>(k, members, _). if k \<in> ta_collapsedGroups s then [] else members) (grouped_rows env s) =
      map (\<lambda>k. if k \<in> ta_collapsedGroups s then [] else filter (\<lambda>i. row_group s i = k) (matched_rows env s)) ks"
    unfolding ks_def map_map by (rule map_cong [OF refl]) (use G in \<open>auto split: prod.splits\<close>)
  then have "plan_sources (frame_plan env s) =
      concat (map (\<lambda>k. if k \<in> ta_collapsedGroups s then [] else filter (\<lambda>i. row_group s i = k) (matched_rows env s)) ks)"
    using assms by (simp add: frame_plan_def plan_connections_def add_groups_sources) (simp add: plan_sources_def empty_plan_def)
  moreover have "filter (\<lambda>i. row_group s i \<in> set ks \<and> row_group s i \<notin> ta_collapsedGroups s) (matched_rows env s) =
      filter (\<lambda>i. row_group s i \<notin> ta_collapsedGroups s) (matched_rows env s)"
    by (rule filter_cong [OF refl]) (use G in \<open>auto simp: ks_def\<close>)
  ultimately show ?thesis using mset_by_keys [of ks "ta_collapsedGroups s" "row_group s" "matched_rows env s"] G by (simp add: ks_def)
qed

theorem grouped_view_complete_witness:
  "mset (plan_sources (frame_plan (frame_env (Some 10)) (sample_view GInterface))) = mset (matched_rows (frame_env (Some 10)) (sample_view GInterface)) \<and>
   set (map fst (grouped_rows (frame_env (Some 10)) (sample_view GInterface))) = {[], ''eth0''}"
proof -
  have s: "ta_view (sample_view GInterface) = Connections" "ta_groupBy (sample_view GInterface) \<noteq> GNone" "ta_collapsedGroups (sample_view GInterface) = {}"
    by (simp_all add: sample_view_def mk_TuiApp_def)
  have "set (sortedConnectionIndices toStr rows fld d) = {0..<length rows}" for toStr rows fld d
    by (simp add: sortedConnectionIndices_def Let_def flip: set_mset_mset)
  then have "set (matched_rows env (sample_view GInterface)) = {0, 1}" for env
    by (auto simp: matched_rows_def displayedConnectionIndices_def sample_view_def mk_TuiApp_def conn_rows_def)
  then have "row_group (sample_view GInterface) ` set (matched_rows env (sample_view GInterface)) = {[], ''eth0''}" for env
    by (simp add: row_group_def sample_view_def mk_TuiApp_def conn_rows_def tui_groupKeyFor_def new_row_def no_connection_def)
  then show ?thesis using grouped_view_complete [OF s(1,2), of "frame_env (Some 10)"] s(3) by simp
qed

section \<open>Reachable states\<close>

text \<open>Everything that happens to the controller: keys, repaints, new rows in the aggregators, replies and backend changes.\<close>

inductive tui_reachable :: "TuiApp \<Rightarrow> bool" where
  tui_new: "tui_reachable (tui_start ifaceAgg connAgg store themeName pollMs viewName groupName)"
| tui_key: "tui_reachable s \<Longrightarrow> tui_reachable (handleKey env k s)"
| tui_frame: "tui_reachable s \<Longrightarrow> tui_reachable (snd (doRedraw env s))"
| tui_data: "tui_reachable s \<Longrightarrow> tui_reachable (onDataChanged (s\<lparr>ta_ifaceAgg := ia, ta_connAgg := ca\<rparr>))"
| tui_details: "tui_reachable s \<Longrightarrow> tui_reachable (onProcessDetails d s)"
| tui_backend: "tui_reachable s \<Longrightarrow> tui_reachable (tui_setBackendInfo caps s)"
| tui_poll: "tui_reachable s \<Longrightarrow> tui_reachable (applyPollInterval env s)"
| tui_flash_over: "tui_reachable s \<Longrightarrow> tui_reachable (requestRedraw (s\<lparr>ta_flashMsg := []\<rparr>))"

definition sort_fields_ok :: "TuiApp \<Rightarrow> bool" where
  "sort_fields_ok s = (ta_ifaceSortField s \<in> tc_id ` set (overlayColumnsFor Interfaces) \<and> ta_connSortField s \<in> tc_id ` set (overlayColumnsFor Connections))"

definition tui_ok :: "TuiApp \<Rightarrow> bool" where
  "tui_ok s = (ta_themeIdx s < length builtinThemes \<and> 100 \<le> ta_pollMs s \<and> ta_pollMs s \<le> 10000 \<and> ta_groupBy s \<noteq> GCount \<and>
     0 \<le> ta_settingsSel s \<and> ta_settingsSel s < int (length settingItems) \<and> sort_fields_ok s)"

lemma visualIndex_None: "visualIndexForColumn cols c = None \<longleftrightarrow> c \<notin> tc_id ` set cols"
  by (induction cols) auto

lemma overlay_ids [simp]: "tc_id ` set (overlayColumns s) = tc_id ` set (overlayColumnsFor (ta_view s))"
proof -
  have "map tc_id (overlayColumns s) = map tc_id (overlayColumnsFor (ta_view s))" by (simp add: overlayColumns_def)
  then show ?thesis by (metis set_map)
qed

lemma GroupBy_of_ok: "0 \<le> n \<Longrightarrow> n < 4 \<Longrightarrow> GroupBy_of n \<noteq> GCount"
  by (auto simp: GroupBy_of_def)

lemma find_theme_less: "find_theme name ts = Some i \<Longrightarrow> i < length ts"
  by (induction ts arbitrary: i) (auto split: if_splits)

text \<open>What the invariant looks at is the same before and after most operations.\<close>

definition same_prefs :: "TuiApp \<Rightarrow> TuiApp \<Rightarrow> bool" where
  "same_prefs s t = (ta_themeIdx t = ta_themeIdx s \<and> ta_pollMs t = ta_pollMs s \<and> ta_groupBy t = ta_groupBy s \<and> ta_settingsSel t = ta_settingsSel s \<and>
     ta_ifaceSortField t = ta_ifaceSortField s \<and> ta_connSortField t = ta_connSortField s)"

lemma same_prefs_ok: "same_prefs s t \<Longrightarrow> tui_ok t = tui_ok s"
  by (simp add: same_prefs_def tui_ok_def sort_fields_ok_def)

lemmas small_ops = requestRedraw_def emit_def flashMessage_def onDataChanged_def setCurrentCursor_def toggleOptionalColumn_def flipSortDesc_def
  togglePause_def tui_setBackendInfo_def onProcessDetails_def ensureProcessDetails_def applyAggregatorSettings_def applyPollInterval_def
  saveSettings_def

lemma small_same [simp]:
  "same_prefs s (requestRedraw t) = same_prefs s t" "same_prefs s (emit ev t) = same_prefs s t" "same_prefs s (flashMessage m t) = same_prefs s t"
  "same_prefs s (onDataChanged t) = same_prefs s t" "same_prefs s (setCurrentCursor c t) = same_prefs s t"
  "same_prefs s (toggleOptionalColumn col t) = same_prefs s t" "same_prefs s (flipSortDesc t) = same_prefs s t" "same_prefs s (togglePause t) = same_prefs s t"
  "same_prefs s (tui_setBackendInfo caps t) = same_prefs s t" "same_prefs s (onProcessDetails d t) = same_prefs s t"
  "same_prefs s (ensureProcessDetails env pid t) = same_prefs s t" "same_prefs s (applyAggregatorSettings t) = same_prefs s t"
  "same_prefs s (applyPollInterval env t) = same_prefs s t" "same_prefs s (saveSettings env t) = same_prefs s t"
  by (simp_all add: same_prefs_def small_ops Let_def)

lemma same_refl [simp]: "same_prefs s s"
  by (simp add: same_prefs_def)

lemma tui_ok_requestRedraw [simp]: "tui_ok (requestRedraw t) = tui_ok t"
  by (rule same_prefs_ok) (simp add: same_prefs_def requestRedraw_def)

lemma tui_ok_agg [simp]: "tui_ok (applyAggregatorSettings t) = tui_ok t"
  by (rule same_prefs_ok) simp

lemma tui_if: "tui_ok a \<Longrightarrow> tui_ok b \<Longrightarrow> tui_ok (if c then a else b)"
  by simp

lemma same_larger [simp]:
  "same_prefs s (moveCursor d s)" "same_prefs s (openDetail env s)" "same_prefs s (openGroupDetail env s)" "same_prefs s (collapseAtCursor s)"
  "same_prefs s (expandAtCursor s)" "same_prefs s (toggleCollapseAtCursor s)" "same_prefs s (exportCurrentView env p s)"
  "same_prefs s (promptExportFilename env s)" "same_prefs s (commitFilter env s)" "same_prefs s (handleInfoKey k s)"
  "same_prefs s (cycleAttributionEagerness env s)"
  by (simp_all add: moveCursor_def openDetail_def openGroupDetail_def collapseAtCursor_def expandAtCursor_def toggleCollapseAtCursor_def
      exportCurrentView_def promptExportFilename_def commitFilter_def handleInfoKey_def cycleAttributionEagerness_def Let_def case_prod_beta
      split: option.split) (auto simp: same_prefs_def)

lemma handler_same [simp]:
  "same_prefs s (handleExportKey env k s)" "same_prefs s (handleFilterKey env k s)" "same_prefs s (handleDetailKey k s)"
proof -
  have a: "same_prefs s (exportCurrentView env p (s\<lparr>ta_exportPrompt := False\<rparr>))" for p
    using same_larger(7) [of "s\<lparr>ta_exportPrompt := False\<rparr>" env p] by (simp add: same_prefs_def)
  show "same_prefs s (handleExportKey env k s)" using a
    by (simp add: handleExportKey_def Let_def split: option.split) (simp add: same_prefs_def)
  show "same_prefs s (handleFilterKey env k s)" by (simp add: handleFilterKey_def split: option.split) (simp add: same_prefs_def)
  note m = same_larger(1) [of s, unfolded same_prefs_def]
  show "same_prefs s (handleDetailKey k s)" unfolding same_prefs_def handleDetailKey_def Let_def requestRedraw_def
    by (simp add: m split: option.split)
qed

lemma columnsFor_ids: "tc_id ` set (columnsFor v opt g) \<subseteq> tc_id ` set (overlayColumnsFor v)"
  by (auto simp: columnsFor_def overlayColumnsFor_def fixed_column_def)

lemma setSort_ok: "tui_ok s \<Longrightarrow> c \<in> tc_id ` set (overlayColumnsFor (ta_view s)) \<Longrightarrow> tui_ok (setCurrentSortField c s)"
  by (cases "ta_view s") (simp_all add: tui_ok_def sort_fields_ok_def setCurrentSortField_def)

lemma cycleSort_ok: "tui_ok s \<Longrightarrow> tui_ok (cycleSortField s)"
proof -
  assume s: "tui_ok s"
  define cols where "cols = activeColumns s"
  define idx where "idx = (case visualIndexForColumn cols (currentSortField s) of None \<Rightarrow> 0 | Some i \<Rightarrow> (i + 1) mod length cols)"
  have "tui_ok (setCurrentSortField (tc_id (cols ! idx)) s)" if "cols \<noteq> []"
  proof (rule setSort_ok [OF s])
    have "idx < length cols" using that by (simp add: idx_def split: option.split)
    then have "tc_id (cols ! idx) \<in> tc_id ` set cols" by simp
    then show "tc_id (cols ! idx) \<in> tc_id ` set (overlayColumnsFor (ta_view s))" using columnsFor_ids unfolding cols_def activeColumns_def by blast
  qed
  then show ?thesis using s unfolding cycleSortField_def Let_def cols_def [symmetric] idx_def [symmetric] by simp
qed

lemma setting_ok: "tui_ok s \<Longrightarrow> tui_ok (setting_adjust env up it s)"
proof (cases it)
  case SetPoll
  assume s: "tui_ok s"
  have "same_prefs (s\<lparr>ta_pollMs := clamp (ta_pollMs s + (if up then 250 else - 250)) 100 10000\<rparr>)
      (applyPollInterval env (s\<lparr>ta_pollMs := clamp (ta_pollMs s + (if up then 250 else - 250)) 100 10000\<rparr>))" by simp
  from same_prefs_ok [OF this] show ?thesis using s clamp_bounds [of 100 10000] by (simp add: SetPoll tui_ok_def sort_fields_ok_def)
next
  case SetTheme
  assume s: "tui_ok s"
  have "0 < length builtinThemes" by (simp add: builtinThemes_def)
  then show ?thesis using s by (simp add: SetTheme tui_ok_def sort_fields_ok_def Let_def)
next
  case SetGroup
  assume s: "tui_ok s"
  have "GroupBy_of (n mod 4) \<noteq> GCount" for n by (rule GroupBy_of_ok) simp_all
  then show ?thesis using s by (simp add: SetGroup tui_ok_def sort_fields_ok_def Let_def)
qed (simp_all add: tui_ok_def sort_fields_ok_def toggleOptionalColumn_def requestRedraw_def)

lemma settings_key_ok: "tui_ok s \<Longrightarrow> tui_ok (handleSettingsKey env k s)"
proof -
  assume s: "tui_ok s"
  have n: "0 < int (length settingItems)" by (simp add: settingItems_def)
  have act: "tui_ok (activate env up s)" for up
    using setting_ok [OF s] s unfolding activate_def by simp
  have ov: "tui_ok (s\<lparr>ta_overlay := NoOverlay\<rparr>)" using s by (simp add: tui_ok_def sort_fields_ok_def)
  have sel: "tui_ok (s\<lparr>ta_settingsSel := m mod int (length settingItems)\<rparr>)" for m using s n by (simp add: tui_ok_def sort_fields_ok_def)
  show ?thesis unfolding handleSettingsKey_def Let_def by (intro tui_if) (simp_all add: s act ov sel)
qed

lemma fields_key_ok: "tui_ok s \<Longrightarrow> tui_ok (handleFieldsKey k s)"
proof -
  assume s: "tui_ok s"
  define t where "t = s\<lparr>ta_fieldsSel := clamp (ta_fieldsSel s) 0 (int (length (overlayColumns s)) - 1)\<rparr>"
  have t: "tui_ok t" "ta_view t = ta_view s" using s by (simp_all add: t_def tui_ok_def sort_fields_ok_def)
  have same: "tui_ok (flashMessage m t)" "tui_ok (toggleOptionalColumn c t)" "tui_ok (flipSortDesc t)" "tui_ok (t\<lparr>ta_fieldsSel := n\<rparr>)"
    "tui_ok (t\<lparr>ta_overlay := ov\<rparr>)" "tui_ok (s\<lparr>ta_overlay := ov\<rparr>)" for m c n ov
    by (simp_all add: same_prefs_ok [of t, THEN iffD2, OF _ t(1)] same_prefs_ok [of s, THEN iffD2, OF _ s])
       (simp_all add: same_prefs_ok [of t, THEN iffD2, OF _ t(1)] same_prefs_ok [of s, THEN iffD2, OF _ s] same_prefs_def)
  have sel: "tui_ok (setCurrentSortField (tc_id (overlayColumns s ! nat (ta_fieldsSel t))) t)" if "overlayColumns s \<noteq> []"
  proof (rule setSort_ok [OF t(1)])
    have "nat (ta_fieldsSel t) < length (overlayColumns s)"
      using that clamp_bounds [of 0 "int (length (overlayColumns s)) - 1" "ta_fieldsSel s"] by (simp add: t_def nat_less_iff)
    then have "tc_id (overlayColumns s ! nat (ta_fieldsSel t)) \<in> tc_id ` set (overlayColumns s)" by (intro imageI nth_mem)
    then show "tc_id (overlayColumns s ! nat (ta_fieldsSel t)) \<in> tc_id ` set (overlayColumnsFor (ta_view t))" unfolding t(2) overlay_ids .
  qed
  show ?thesis unfolding handleFieldsKey_def Let_def t_def [symmetric]
    by (cases "overlayColumns s = []") (simp_all only: if_True if_False simp_thms, simp_all add: same t(1) sel)
qed

definition key_change :: "TuiApp \<Rightarrow> TuiApp \<Rightarrow> bool" where
  "key_change s t = (same_prefs s t \<or> t = cycleSortField s \<or> t = s\<lparr>ta_themeIdx := (ta_themeIdx s + 1) mod length builtinThemes\<rparr> \<or>
      t = s\<lparr>ta_groupBy := GroupBy_of ((GroupBy_num (ta_groupBy s) + 1) mod GroupBy_num GCount), ta_connCursor := 0, ta_collapsedGroups := {}\<rparr>)"

lemma key_change_if:
  "pred_option (key_change s) a \<Longrightarrow> pred_option (key_change s) b \<Longrightarrow> pred_option (key_change s) (if c then a else b)"
  "same_prefs s x \<Longrightarrow> same_prefs s y \<Longrightarrow> same_prefs s (if c then x else y)"
  by simp_all

lemma key_changeI: "same_prefs s t \<Longrightarrow> pred_option (key_change s) (Some t)"
  by (simp add: key_change_def)

lemma main_key_change: "pred_option (key_change s) (main_key env k s)"
  unfolding main_key_def Let_def
  by (intro key_change_if) (simp_all add: key_change_def key_change_if, simp_all add: same_prefs_def)

lemma main_key_ok: "tui_ok s \<Longrightarrow> main_key env k s = Some t \<Longrightarrow> tui_ok t"
proof -
  assume s: "tui_ok s" and t: "main_key env k s = Some t"
  have th: "0 < length builtinThemes" by (simp add: builtinThemes_def)
  have grp: "GroupBy_of (n mod 4) \<noteq> GCount" for n by (rule GroupBy_of_ok) simp_all
  have "key_change s t" using main_key_change [of s env k] t by simp
  then consider "same_prefs s t" | "t = cycleSortField s" | "t = s\<lparr>ta_themeIdx := (ta_themeIdx s + 1) mod length builtinThemes\<rparr>"
    | "t = s\<lparr>ta_groupBy := GroupBy_of ((GroupBy_num (ta_groupBy s) + 1) mod GroupBy_num GCount), ta_connCursor := 0, ta_collapsedGroups := {}\<rparr>"
    unfolding key_change_def by blast
  then show ?thesis
  proof cases
    case 1
    then show ?thesis using same_prefs_ok s by blast
  next
    case 2
    then show ?thesis using cycleSort_ok [OF s] by simp
  qed (use s th grp in \<open>simp_all add: tui_ok_def sort_fields_ok_def\<close>)
qed

lemma load_ok: "tui_ok s \<Longrightarrow> tui_ok (loadSettings s)"
proof -
  assume s: "tui_ok s"
  define store where "store = ta_store s"
  have valid: "CInterface \<in> tc_id ` set (overlayColumnsFor Interfaces)" "CRxRate \<in> tc_id ` set (overlayColumnsFor Connections)"
    by (simp_all add: overlayColumnsFor_def columnsFor_def fixed_column_def)
  have th: "ta_themeIdx (select_theme name t) < length builtinThemes" if "ta_themeIdx t < length builtinThemes" for name t
    using that find_theme_less by (auto simp: select_theme_def split: option.splits)
  have sel: "ta_pollMs (select_theme name t) = ta_pollMs t" "ta_groupBy (select_theme name t) = ta_groupBy t" "ta_settingsSel (select_theme name t) = ta_settingsSel t"
    "ta_ifaceSortField (select_theme name t) = ta_ifaceSortField t" "ta_connSortField (select_theme name t) = ta_connSortField t" for name t
    by (simp_all add: select_theme_def split: option.split)
  define g where "g = ini_int toInt store ''nqiftop/groupBy'' (GroupBy_num (ta_groupBy s))"
  define u where "u = select_theme (ini_toString store ''nqiftop/theme'' []) (s\<lparr>
            ta_view := (if ini_int toInt store ''nqiftop/view'' (View_num (ta_view s)) = View_num Interfaces then Interfaces else Connections),
            ta_ifaceSortField := loaded_sort store Interfaces ''nqiftop/ifaceSortCol'' ''nqiftop/ifaceSortField'' (ta_ifaceSortField s),
            ta_connSortField := loaded_sort store Connections ''nqiftop/connSortCol'' ''nqiftop/connSortField'' (ta_connSortField s),
            ta_ifaceSortDesc := ini_bool store ''nqiftop/ifaceSortDesc'' (ta_ifaceSortDesc s),
            ta_connSortDesc := ini_bool store ''nqiftop/connSortDesc'' (ta_connSortDesc s),
            ta_gaugeEnabled := ini_bool store ''nqiftop/gauge'' (ta_gaugeEnabled s),
            ta_dnsEnabled := ini_bool store ''nqiftop/dns'' (ta_dnsEnabled s),
            ta_udpAggregate := ini_bool store ''nqiftop/udpAggregate'' (ta_udpAggregate s),
            ta_smoothing := ini_bool store ''nqiftop/smoothing'' (ta_smoothing s),
            ta_directionColors := ini_bool store ''nqiftop/directionColors'' (ta_directionColors s),
            ta_sortWithinGroups := ini_bool store ''nqiftop/sortWithinGroups'' (ta_sortWithinGroups s),
            ta_showProcessColumn := ini_bool store ''nqiftop/showProcessColumn'' (ta_showProcessColumn s),
            ta_showContainerColumn := ini_bool store ''nqiftop/showContainerColumn'' (ta_showContainerColumn s),
            ta_pollMs := clamp (ini_int toInt store ''nqiftop/pollMs'' (ta_pollMs s)) 100 10000,
            ta_attributionEagerness := ini_toString store ''nqiftop/attributionEagerness'' (ta_attributionEagerness s),
            ta_groupBy := (if 0 \<le> g \<and> g < GroupBy_num GCount then GroupBy_of g else GNone)\<rparr>)"
  have u: "ta_themeIdx u < length builtinThemes" "100 \<le> ta_pollMs u" "ta_pollMs u \<le> 10000" "ta_groupBy u \<noteq> GCount" "ta_settingsSel u = ta_settingsSel s"
    unfolding u_def using s by (simp_all add: th sel clamp_def GroupBy_of_def tui_ok_def)
  define u1 where "u1 = (if visualIndexForColumn (overlayColumnsFor Interfaces) (ta_ifaceSortField u) = None then u\<lparr>ta_ifaceSortField := CInterface\<rparr> else u)"
  define u2 where "u2 = (if visualIndexForColumn (overlayColumnsFor Connections) (ta_connSortField u1) = None then u1\<lparr>ta_connSortField := CRxRate\<rparr> else u1)"
  have u1: "ta_themeIdx u1 = ta_themeIdx u" "ta_pollMs u1 = ta_pollMs u" "ta_groupBy u1 = ta_groupBy u" "ta_settingsSel u1 = ta_settingsSel u"
    "ta_ifaceSortField u1 \<in> tc_id ` set (overlayColumnsFor Interfaces)"
    using valid by (simp_all add: u1_def visualIndex_None)
  have u2: "ta_themeIdx u2 = ta_themeIdx u1" "ta_pollMs u2 = ta_pollMs u1" "ta_groupBy u2 = ta_groupBy u1" "ta_settingsSel u2 = ta_settingsSel u1"
    "ta_ifaceSortField u2 = ta_ifaceSortField u1" "ta_connSortField u2 \<in> tc_id ` set (overlayColumnsFor Connections)"
    using valid by (simp_all add: u2_def visualIndex_None)
  have "loadSettings s = u2"
    unfolding loadSettings_def Let_def u2_def u1_def u_def g_def store_def by (rule refl)
  then show ?thesis using s u u1 u2 by (simp add: tui_ok_def sort_fields_ok_def)
qed

lemma mk_ok: "tui_ok (mk_TuiApp ia ca store)"
  by (simp add: tui_ok_def mk_TuiApp_def sort_fields_ok_def builtinThemes_def settingItems_def overlayColumnsFor_def columnsFor_def fixed_column_def)

lemma start_ok: "tui_ok (tui_start ia ca store themeName pollMs viewName groupName)"
proof -
  define s0 where "s0 = loadSettings (mk_TuiApp ia ca store)"
  have s0: "tui_ok s0" unfolding s0_def by (rule load_ok [OF mk_ok])
  define s1 where "s1 = select_theme themeName s0"
  have s1: "tui_ok s1" using s0 find_theme_less by (auto simp: s1_def select_theme_def tui_ok_def sort_fields_ok_def split: option.splits)
  define s2 where "s2 = (if 0 < pollMs then s1\<lparr>ta_pollMs := clamp pollMs 100 10000\<rparr> else s1)"
  have s2: "tui_ok s2" using s1 by (auto simp: s2_def tui_ok_def sort_fields_ok_def clamp_def)
  define s3 where "s3 = (if viewName = [] then s2 else if starts_with ''i'' (toLower (trimmed viewName)) then s2\<lparr>ta_view := Interfaces\<rparr>
    else if starts_with ''c'' (toLower (trimmed viewName)) then s2\<lparr>ta_view := Connections\<rparr> else s2)"
  have s3: "tui_ok s3" unfolding s3_def by (intro tui_if) (use s2 in \<open>simp_all add: tui_ok_def sort_fields_ok_def\<close>)
  define s4 where "s4 = (if groupName \<noteq> [] \<and> groupByFromName groupName \<noteq> GCount then s3\<lparr>ta_groupBy := groupByFromName groupName\<rparr> else s3)"
  have s4: "tui_ok s4" using s3 by (auto simp: s4_def tui_ok_def sort_fields_ok_def)
  show ?thesis unfolding tui_start_def Let_def s0_def [symmetric] s1_def [symmetric] s2_def [symmetric] s3_def [symmetric] s4_def [symmetric]
    using s4 by simp
qed

lemma frame_same: "same_prefs s (snd (doRedraw env s))"
  by (simp add: doRedraw_def buildFrame_def Let_def case_prod_beta same_prefs_def)

lemma handleKey_ok: "tui_ok s \<Longrightarrow> tui_ok (handleKey env k s)"
proof -
  assume s: "tui_ok s"
  have same: "same_prefs s t \<Longrightarrow> tui_ok t" for t using same_prefs_ok s by blast
  have m: "tui_ok (case main_key env k s of None \<Rightarrow> s | Some s' \<Rightarrow> requestRedraw s')"
    using s main_key_ok [OF s] by (auto split: option.split)
  show ?thesis unfolding handleKey_def
    by (intro tui_if settings_key_ok [OF s] fields_key_ok [OF s] m) (rule same, simp)+
qed

lemma reachable_ok: "tui_reachable s \<Longrightarrow> tui_ok s"
proof (induction rule: tui_reachable.induct)
  case (tui_key s env k)
  from tui_key.IH show ?case by (rule handleKey_ok)
next
  case (tui_frame s env)
  then show ?case using same_prefs_ok [OF frame_same] by blast
next
  case (tui_data s ca ia)
  have "same_prefs s (onDataChanged (s\<lparr>ta_ifaceAgg := ia, ta_connAgg := ca\<rparr>))" by (simp add: same_prefs_def onDataChanged_def requestRedraw_def)
  then show ?case using same_prefs_ok tui_data by blast
next
  case (tui_flash_over s)
  then show ?case by (simp add: tui_ok_def sort_fields_ok_def requestRedraw_def)
next
  case (tui_details s d)
  then show ?case using same_prefs_ok [of s "onProcessDetails d s"] by simp
next
  case (tui_backend s caps)
  then show ?case using same_prefs_ok [of s "tui_setBackendInfo caps s"] by simp
next
  case (tui_poll s env)
  then show ?case using same_prefs_ok [of s "applyPollInterval env s"] by simp
qed (rule start_ok)

text \<open>C20: in every reachable state of the controller the theme and the selected setting are in range, the poll interval is between
  100 ms and 10 s, the grouping is a real mode and each view is sorted by one of its own columns.\<close>

theorem tui_state_ok:
  assumes "tui_reachable s"
  shows "ta_themeIdx s < length builtinThemes \<and> 100 \<le> ta_pollMs s \<and> ta_pollMs s \<le> 10000 \<and> ta_groupBy s \<noteq> GCount \<and>
    0 \<le> ta_settingsSel s \<and> ta_settingsSel s < int (length settingItems) \<and>
    ta_ifaceSortField s \<in> tc_id ` set (overlayColumnsFor Interfaces) \<and> ta_connSortField s \<in> tc_id ` set (overlayColumnsFor Connections)"
  using reachable_ok [OF assms] by (simp add: tui_ok_def sort_fields_ok_def)

theorem tui_state_ok_witness:
  "let s = handleKey (frame_env (Some 10)) (Ch (CHR ''g''))
        (tui_start mk_InterfaceAggregator (mk_ConnectionAggregator (32768, 60999)) (\<lambda>_. None) [] 0 [] [])
   in ta_themeIdx s < length builtinThemes \<and> 100 \<le> ta_pollMs s \<and> ta_pollMs s \<le> 10000 \<and> ta_groupBy s \<noteq> GCount"
  using tui_state_ok [OF tui_key [OF tui_new]] unfolding Let_def by blast

section \<open>Settings survive a restart\<close>

lemma saved_values:
  assumes "\<not> te_escalate env"
  shows "ta_store (saveSettings env s) ''nqiftop/view'' = Some [show_int (View_num (ta_view s))]"
    "ta_store (saveSettings env s) ''nqiftop/ifaceSortField'' = Some [columnIdToken (ta_ifaceSortField s)]"
    "ta_store (saveSettings env s) ''nqiftop/ifaceSortDesc'' = Some [if ta_ifaceSortDesc s then ''true'' else ''false'']"
    "ta_store (saveSettings env s) ''nqiftop/connSortField'' = Some [columnIdToken (ta_connSortField s)]"
    "ta_store (saveSettings env s) ''nqiftop/connSortDesc'' = Some [if ta_connSortDesc s then ''true'' else ''false'']"
    "ta_store (saveSettings env s) ''nqiftop/gauge'' = Some [if ta_gaugeEnabled s then ''true'' else ''false'']"
    "ta_store (saveSettings env s) ''nqiftop/dns'' = Some [if ta_dnsEnabled s then ''true'' else ''false'']"
    "ta_store (saveSettings env s) ''nqiftop/udpAggregate'' = Some [if ta_udpAggregate s then ''true'' else ''false'']"
    "ta_store (saveSettings env s) ''nqiftop/smoothing'' = Some [if ta_smoothing s then ''true'' else ''false'']"
    "ta_store (saveSettings env s) ''nqiftop/directionColors'' = Some [if ta_directionColors s then ''true'' else ''false'']"
    "ta_store (saveSettings env s) ''nqiftop/sortWithinGroups'' = Some [if ta_sortWithinGroups s then ''true'' else ''false'']"
    "ta_store (saveSettings env s) ''nqiftop/showProcessColumn'' = Some [if ta_showProcessColumn s then ''true'' else ''false'']"
    "ta_store (saveSettings env s) ''nqiftop/showContainerColumn'' = Some [if ta_showContainerColumn s then ''true'' else ''false'']"
    "ta_store (saveSettings env s) ''nqiftop/pollMs'' = Some [show_int (ta_pollMs s)]"
    "ta_store (saveSettings env s) ''nqiftop/attributionEagerness'' = Some [ta_attributionEagerness s]"
    "ta_store (saveSettings env s) ''nqiftop/groupBy'' = Some [show_int (GroupBy_num (ta_groupBy s))]"
    "ta_store (saveSettings env s) ''nqiftop/theme'' = Some [th_name (builtinThemes ! ta_themeIdx s)]"
  using assms by (simp_all add: saveSettings_def) (simp_all add: put_string_def put_int_def put_bool_def)

lemma read_bool: "ini k = Some [if b then ''true'' else ''false''] \<Longrightarrow> ini_bool ini k d = b"
  by (cases b) (simp_all add: ini_bool_def ini_toString_def)

lemma read_int: "ini k = Some [show_int n] \<Longrightarrow> qint32 n \<Longrightarrow> ini_int toInt ini k d = n"
  by (simp add: ini_int_def ini_toString_def toInt_show)

lemma read_string: "ini k = Some [x] \<Longrightarrow> ini_toString ini k d = x"
  by (simp add: ini_toString_def)

lemma select_theme_keeps [simp]:
  "ta_view (select_theme n t) = ta_view t" "ta_ifaceSortField (select_theme n t) = ta_ifaceSortField t" "ta_connSortField (select_theme n t) = ta_connSortField t"
  "ta_ifaceSortDesc (select_theme n t) = ta_ifaceSortDesc t" "ta_connSortDesc (select_theme n t) = ta_connSortDesc t"
  "ta_gaugeEnabled (select_theme n t) = ta_gaugeEnabled t" "ta_dnsEnabled (select_theme n t) = ta_dnsEnabled t"
  "ta_udpAggregate (select_theme n t) = ta_udpAggregate t" "ta_smoothing (select_theme n t) = ta_smoothing t"
  "ta_directionColors (select_theme n t) = ta_directionColors t" "ta_sortWithinGroups (select_theme n t) = ta_sortWithinGroups t"
  "ta_showProcessColumn (select_theme n t) = ta_showProcessColumn t" "ta_showContainerColumn (select_theme n t) = ta_showContainerColumn t"
  "ta_pollMs (select_theme n t) = ta_pollMs t" "ta_attributionEagerness (select_theme n t) = ta_attributionEagerness t"
  "ta_groupBy (select_theme n t) = ta_groupBy t"
  by (simp_all add: select_theme_def split: option.split)

lemma find_own_theme: "i < length builtinThemes \<Longrightarrow> th_name (builtinThemes ! i) \<noteq> [] \<and> find_theme (th_name (builtinThemes ! i)) builtinThemes = Some i"
proof -
  have "list_all (\<lambda>i. th_name (builtinThemes ! i) \<noteq> [] \<and> find_theme (th_name (builtinThemes ! i)) builtinThemes = Some i) [0..<length builtinThemes]"
    by code_simp
  then show "i < length builtinThemes \<Longrightarrow> th_name (builtinThemes ! i) \<noteq> [] \<and> find_theme (th_name (builtinThemes ! i)) builtinThemes = Some i"
    by (simp add: list_all_iff)
qed

lemma GroupBy_back: "g \<noteq> GCount \<Longrightarrow> 0 \<le> GroupBy_num g \<and> GroupBy_num g < 4 \<and> GroupBy_of (GroupBy_num g) = g"
  by (cases g) (simp_all add: GroupBy_of_def)

definition same_settings :: "TuiApp \<Rightarrow> TuiApp \<Rightarrow> bool" where
  "same_settings s t = (ta_view t = ta_view s \<and> ta_ifaceSortField t = ta_ifaceSortField s \<and> ta_ifaceSortDesc t = ta_ifaceSortDesc s \<and>
     ta_connSortField t = ta_connSortField s \<and> ta_connSortDesc t = ta_connSortDesc s \<and> ta_gaugeEnabled t = ta_gaugeEnabled s \<and>
     ta_dnsEnabled t = ta_dnsEnabled s \<and> ta_udpAggregate t = ta_udpAggregate s \<and> ta_smoothing t = ta_smoothing s \<and>
     ta_directionColors t = ta_directionColors s \<and> ta_sortWithinGroups t = ta_sortWithinGroups s \<and>
     ta_showProcessColumn t = ta_showProcessColumn s \<and> ta_showContainerColumn t = ta_showContainerColumn s \<and> ta_pollMs t = ta_pollMs s \<and>
     ta_attributionEagerness t = ta_attributionEagerness s \<and> ta_groupBy t = ta_groupBy s \<and> ta_themeIdx t = ta_themeIdx s)"

lemma load_saved:
  assumes ok: "tui_ok s" and priv: "\<not> te_escalate env" and u: "ta_store u = ta_store (saveSettings env s)"
  shows "same_settings s (loadSettings u)"
proof -
  note sv = saved_values [OF priv, of s, folded u]
  have n: "qint32 (ta_pollMs s)" "qint32 (GroupBy_num (ta_groupBy s))" "qint32 (View_num (ta_view s))"
    using ok by (cases "ta_groupBy s"; simp add: qint32_def tui_ok_def; fail)+ (cases "ta_view s"; simp add: qint32_def)
  have v: "(if View_num (ta_view s) = View_num Interfaces then Interfaces else Connections) = ta_view s" by (cases "ta_view s") simp_all
  have p: "clamp (ta_pollMs s) 100 10000 = ta_pollMs s" using ok by (simp add: clamp_def tui_ok_def)
  have g: "ta_groupBy s \<noteq> GCount" "ta_themeIdx s < length builtinThemes" using ok by (simp_all add: tui_ok_def)
  obtain i j where fld: "visualIndexForColumn (overlayColumnsFor Interfaces) (ta_ifaceSortField s) = Some i"
    "visualIndexForColumn (overlayColumnsFor Connections) (ta_connSortField s) = Some j"
    using ok visualIndex_None unfolding tui_ok_def sort_fields_ok_def by (metis option.exhaust)
  have srt: "loaded_sort (ta_store u) Interfaces k ''nqiftop/ifaceSortField'' d = ta_ifaceSortField s" "loaded_sort (ta_store u) Connections k ''nqiftop/connSortField'' d = ta_connSortField s" for k d
    unfolding loaded_sort_def Let_def read_string [of "ta_store u", OF sv(2)] read_string [of "ta_store u", OF sv(4)] by (rule columnId_roundtrip)+
  note reads = sv(3,5-13) [THEN read_bool [of "ta_store u"]] sv(15,17) [THEN read_string [of "ta_store u"]] read_int [of "ta_store u", OF sv(1) n(3)] read_int [of "ta_store u", OF sv(14) n(1)] read_int [of "ta_store u", OF sv(16) n(2)]
  show ?thesis unfolding same_settings_def loadSettings_def Let_def reads srt v p
    using fld GroupBy_back [OF g(1)] find_own_theme [OF g(2)] by (simp add: select_theme_def)
qed

text \<open>C21: quitting and starting again with the same settings file restores the view, both sort orders, all toggles, the poll
  interval, the eagerness, the grouping and the theme of every reachable state; when writing would create root-owned files in
  another user's home, the file is left as it is.\<close>

theorem tui_settings_roundtrip:
  assumes "tui_reachable s"
  shows "if te_escalate env then ta_store (saveSettings env s) = ta_store s
    else same_settings s (loadSettings (mk_TuiApp ia ca (ta_store (saveSettings env s))))"
proof (cases "te_escalate env")
  case False
  have "ta_store (mk_TuiApp ia ca ini) = ini" for ini by (simp add: mk_TuiApp_def)
  then show ?thesis using load_saved [OF reachable_ok [OF assms] False] False by simp
qed (simp add: saveSettings_def)

theorem tui_settings_roundtrip_witness:
  "let s = handleKey (frame_env (Some 10)) (Ch (CHR ''g''))
        (tui_start mk_InterfaceAggregator (mk_ConnectionAggregator (32768, 60999)) (\<lambda>_. None) [] 0 [] [])
   in same_settings s (loadSettings (mk_TuiApp mk_InterfaceAggregator (mk_ConnectionAggregator (32768, 60999)) (ta_store (saveSettings (frame_env (Some 10)) s))))"
proof -
  have "\<not> te_escalate (frame_env (Some 10))" by (simp add: frame_env_def)
  then show ?thesis
    using tui_settings_roundtrip [OF tui_key [OF tui_new], where env1 = "frame_env (Some 10)"]
    unfolding Let_def by metis
qed

section \<open>Exports\<close>

lemma export_name_inj: "export_name b st m = export_name b st n \<Longrightarrow> m = n"
proof -
  have hd: "CHR ''-'' # show_nat k @ r \<noteq> ''.csv''" for k r by simp
  have "show_nat m @ ''.csv'' = show_nat n @ ''.csv'' \<Longrightarrow> m = n" by simp
  then show "export_name b st m = export_name b st n \<Longrightarrow> m = n" by (auto simp: export_name_def split: if_splits)
qed

lemma first_free_Some:
  assumes "inj name" and "card (set files \<inter> name ` {n..}) < fuel" 
  shows "\<exists>k. first_free files name fuel n = Some (name k) \<and> name k \<notin> set files"
  using assms(2)
proof (induction fuel arbitrary: n)
  case (Suc fuel)
  show ?case
  proof (cases "name n \<in> set files")
    case True
    have "{n..} = insert n {Suc n..}" by auto
    then have "name ` {n..} = insert (name n) (name ` {Suc n..})" by simp
    moreover have "name n \<notin> name ` {Suc n..}" using assms(1) by (auto dest: injD)
    ultimately have "card (set files \<inter> name ` {n..}) = Suc (card (set files \<inter> name ` {Suc n..}))" using True by simp
    then show ?thesis using Suc True by simp
  qed (auto)
qed simp

text \<open>An export without a given name always finds a name, in the series base-stamp, base-stamp-1, ..., that no file of the
  directory has.\<close>

theorem export_never_overwrites:
  "\<exists>n. uniqueExportPath env baseName stamp = Some (te_absolute env (export_name baseName stamp n)) \<and> export_name baseName stamp n \<notin> set (te_files env)"
proof -
  have "card (set (te_files env) \<inter> export_name baseName stamp ` {0..}) \<le> length (te_files env)"
    by (meson Int_lower1 List.finite_set card_length card_mono le_trans)
  then obtain k where "first_free (te_files env) (export_name baseName stamp) (length (te_files env) + 1) 0 = Some (export_name baseName stamp k)"
      "export_name baseName stamp k \<notin> set (te_files env)"
    using first_free_Some [of "export_name baseName stamp" "te_files env" 0 "length (te_files env) + 1"] export_name_inj by (fastforce intro: injI)
  then show ?thesis by (auto simp: uniqueExportPath_def)
qed

section \<open>Behaviour at the edges\<close>

text \<open>The bucket of flows without interface, process or container has the empty key, which the overlay reads as "not a group":
  its detail opens, but shows whatever flow was looked at before.\<close>

lemma unnamed_group_detail:
  assumes "ta_view s = Connections" and "ta_groupBy s \<noteq> GNone" and "cursor_ref s = Some ref" and "rr_header ref" and "rr_groupKey ref = []"
  shows "ta_overlay (openGroupDetail env s) = DetailOverlay \<and>
    detail_modal env (openGroupDetail env s) =
      (case find_conn env (ta_detailKey s) (conn_rows s) of
         Some r \<Rightarrow> (qarg (''Connection '' @ em_dash @ '' %1'') (ca_protoLabel (ta_connAgg s) (cr_current r)),
                      connectionDetailRows (te_num env) (te_toStr env) (te_dns env) (ta_connAgg s) r (cached_details s (c_process (cr_current r))))
       | None \<Rightarrow> (''Detail'', [detail_row ''(no longer present)'' []]))"
proof -
  define t where "t = openGroupDetail env s"
  have key: "ta_detailGroupKey t = []" "ta_detailView t = Connections" "ta_overlay t = DetailOverlay" "ta_detailKey t = ta_detailKey s"
    "conn_rows t = conn_rows s" "ta_connAgg t = ta_connAgg s" "ta_procDetails t = ta_procDetails s"
    using assms by (simp_all add: t_def openGroupDetail_def Let_def ensureProcessDetails_def requestRedraw_def emit_def conn_rows_def split: option.split)
  show ?thesis unfolding t_def [symmetric] using key by (simp add: detail_modal_def cached_details_def split: option.split)
qed

text \<open>Changing the grouping in the settings keeps the collapsed keys of the previous mode and the cursor, unlike the \<open>g\<close> key.\<close>

lemma settings_group_keeps_collapsed:
  "ta_collapsedGroups (setting_adjust env up SetGroup s) = ta_collapsedGroups s \<and> ta_connCursor (setting_adjust env up SetGroup s) = ta_connCursor s"
  by (simp add: Let_def)

text \<open>A committed filter keeps the cursor; the next frame scrolls to it again.\<close>

lemma commitFilter_keeps_cursor: "ta_connCursor (commitFilter env s) = ta_connCursor s"
  by (simp add: commitFilter_def Let_def)

text \<open>A filter that does not parse changes nothing but the message: the old filter stays in force.\<close>

lemma bad_filter_keeps_old:
  "pr_error (parse (te_filter env) (trimmed (ta_filterDraft s))) \<noteq> [] \<Longrightarrow>
   commitFilter env s = s\<lparr>ta_filterError := pr_error (parse (te_filter env) (trimmed (ta_filterDraft s)))\<rparr>"
  by (simp add: commitFilter_def Let_def)

text \<open>A paused view is not affected by new data.\<close>

lemma paused_rows_fixed:
  "ta_paused s \<Longrightarrow> conn_rows (s\<lparr>ta_ifaceAgg := ia, ta_connAgg := ca\<rparr>) = conn_rows s \<and> iface_rows (s\<lparr>ta_ifaceAgg := ia, ta_connAgg := ca\<rparr>) = iface_rows s"
  by (simp add: conn_rows_def iface_rows_def)

text \<open>A process's details are asked for once.\<close>

lemma details_asked_once: "ta_out (ensureProcessDetails env pid (ensureProcessDetails env pid s)) = ta_out (ensureProcessDetails env pid s)"
  by (simp add: ensureProcessDetails_def emit_def)

end
