(* ===== verification/BsdCapture.thy ===== *)
theory BsdCapture
  imports SockDiag Heuristics TopK
begin

text \<open>
  The BSD backend: packets seen by libpcap are parsed and accounted to flows (\<open>backend/bsd/BsdConnectionWorker.cpp\<close>), flows are
  attributed from the kernel's socket lists (\<open>BsdSocketResolver.cpp\<close>), and interfaces are read from \<open>getifaddrs\<close>
  (\<open>BsdNetworkWorker.cpp\<close>).

  A packet is the list of its captured bytes; every access goes through \<open>byte_at\<close>, so a parser that answers \<open>Some\<close> has
  not read past the captured length. Kernel lists arrive as lists of records; the size of their C structures is not modelled.
\<close>

section \<open>Flow keys\<close>

text \<open>The addresses have no scope id, so their text has no percent sign and \<open>QString::arg\<close> is plain substitution.\<close>

definition endpoint_key :: "(QHostAddress \<Rightarrow> string) \<Rightarrow> Endpoint \<Rightarrow> string" where
  "endpoint_key toStr e = toStr (ep_address e) @ ''.'' @ show_nat (unat (ep_port e))"

definition flowKeyLocal :: "(QHostAddress \<Rightarrow> string) \<Rightarrow> L4Proto \<Rightarrow> Endpoint \<Rightarrow> string" where
  "flowKeyLocal toStr proto loc = show_nat (L4Proto_num proto) @ ''|'' @ endpoint_key toStr loc"

definition flowKeyExact :: "(QHostAddress \<Rightarrow> string) \<Rightarrow> L4Proto \<Rightarrow> Endpoint \<Rightarrow> Endpoint \<Rightarrow> string" where
  "flowKeyExact toStr proto loc rem =
     show_nat (L4Proto_num proto) @ ''|'' @ endpoint_key toStr loc @ ''|'' @ endpoint_key toStr rem"

section \<open>Packets\<close>

definition DLT_NULL :: nat where "DLT_NULL = 0"
definition DLT_EN10MB :: nat where "DLT_EN10MB = 1"
definition DLT_LOOP :: nat where "DLT_LOOP = 108"

record Packet =
  pk_src :: Endpoint
  pk_dst :: Endpoint
  pk_proto :: L4Proto
  pk_syn :: bool

text \<open>Where the IP header starts: no offset for a frame that is ignored.\<close>

definition l3_offset :: "nat \<Rightarrow> quint8 list \<Rightarrow> nat option option" where
  "l3_offset datalink data =
     (if datalink = DLT_EN10MB
      then
        (if length data < 14 then Some None
         else do {
           outer \<leftarrow> bytes_at data 12 2;
           if be_val outer = 0x8100
           then
             (if length data < 18 then Some None
              else do { inner \<leftarrow> bytes_at data 16 2; Some (if be_val inner \<in> {0x0800, 0x86DD} then Some 18 else None) })
           else Some (if be_val outer \<in> {0x0800, 0x86DD} then Some 14 else None) })
      else Some (Some (if datalink = DLT_NULL \<or> datalink = DLT_LOOP then 4 else 0)))"

text \<open>Source, destination, protocol number and the offset of the transport header.\<close>

definition ip_header :: "quint8 list \<Rightarrow> nat \<Rightarrow> (QHostAddress \<times> QHostAddress \<times> quint8 \<times> nat) option option" where
  "ip_header data off =
     (if length data \<le> off then Some None
      else do {
        first \<leftarrow> byte_at data off;
        let avail = length data - off;
        let version = unat first div 16;
        let ihl = unat first mod 16 * 4;
        if version = 4
        then
          (if avail < 20 \<or> ihl < 20 \<or> avail < ihl then Some None
           else do {
             proto \<leftarrow> byte_at data (off + 9);
             src \<leftarrow> bytes_at data (off + 12) 4;
             dst \<leftarrow> bytes_at data (off + 16) 4;
             Some (Some (HostV4 (word_of_nat (be_val src)), HostV4 (word_of_nat (be_val dst)), proto, off + ihl)) })
        else if version = 6
        then
          (if avail < 40 then Some None
           else do {
             proto \<leftarrow> byte_at data (off + 6);
             src \<leftarrow> bytes_at data (off + 8) 16;
             dst \<leftarrow> bytes_at data (off + 24) 16;
             Some (Some (HostV6 (word_of_nat (be_val src)), HostV6 (word_of_nat (be_val dst)), proto, off + 40)) })
        else Some None })"

definition readPorts :: "quint8 list \<Rightarrow> nat \<Rightarrow> (quint16 \<times> quint16) option option" where
  "readPorts data p =
     (if length data - p < 4 then Some None
      else do { s \<leftarrow> bytes_at data p 2; d \<leftarrow> bytes_at data (p + 2) 2; Some (Some (word_of_nat (be_val s), word_of_nat (be_val d))) })"

definition l4_ports :: "L4Proto \<Rightarrow> quint8 list \<Rightarrow> nat \<Rightarrow> (quint16 \<times> quint16) option" where
  "l4_ports proto data l4off =
     (if (proto = Tcp \<or> proto = Udp) \<and> l4off < length data
      then map_option (\<lambda>ports. case ports of None \<Rightarrow> (0, 0) | Some x \<Rightarrow> x) (readPorts data l4off)
      else Some (0, 0))"

text \<open>SYN without ACK.\<close>

definition pure_syn :: "L4Proto \<Rightarrow> quint8 list \<Rightarrow> nat \<Rightarrow> bool option" where
  "pure_syn proto data l4off =
     (if proto = Tcp \<and> l4off + 14 \<le> length data
      then map_option (\<lambda>flags. bit flags 1 \<and> \<not> bit flags 4) (byte_at data (l4off + 13))
      else Some False)"

definition parse_packet :: "nat \<Rightarrow> quint8 list \<Rightarrow> Packet option option" where
  "parse_packet datalink data = do {
     l3 \<leftarrow> l3_offset datalink data;
     case l3 of
       None \<Rightarrow> Some None
     | Some off \<Rightarrow> do {
         ip \<leftarrow> ip_header data off;
         case ip of
           None \<Rightarrow> Some None
         | Some (src, dst, ipproto, l4off) \<Rightarrow> do {
             let proto = fromIanaProto ipproto;
             ports \<leftarrow> l4_ports proto data l4off;
             syn \<leftarrow> pure_syn proto data l4off;
             Some (Some \<lparr>pk_src = \<lparr>ep_address = src, ep_port = fst ports\<rparr>, pk_dst = \<lparr>ep_address = dst, ep_port = snd ports\<rparr>,
                         pk_proto = proto, pk_syn = syn\<rparr>) } } }"

section \<open>Accounting\<close>

record FlowAcc =
  fa_local :: Endpoint
  fa_remote :: Endpoint
  fa_proto :: L4Proto
  fa_rxBytes :: quint64
  fa_txBytes :: quint64
  fa_rxPackets :: quint64
  fa_txPackets :: quint64
  fa_iface :: string
  fa_ifIndex :: quint32
  fa_lastSeenMs :: int
  fa_observedDir :: Direction

record CaptureHandle =
  ch_fd :: int
  ch_datalink :: nat
  ch_iface :: string
  ch_ifIndex :: quint32

record Attribution =
  at_process :: ProcessInfo
  at_container :: ContainerInfo

record BsdSocketResolver =
  br_exact :: "(string, Attribution) qhash"
  br_local :: "(string, Attribution) qhash"

record BsdWorker =
  bw_handles :: "CaptureHandle list"
  bw_flows :: "(string, FlowAcc) qhash"
  bw_localAddrs :: "QHostAddress set"
  bw_loopbackAddrs :: "QHostAddress set"
  bw_ephLow :: quint16
  bw_ephHigh :: quint16
  bw_timer :: "(int \<times> bool) option"
  bw_warned :: bool
  bw_flowCapWarned :: bool
  bw_resolver :: BsdSocketResolver

datatype bsd_signal = ConnectionsUpdated "Connection list" | AccountingUnavailable string

definition mk_BsdWorker :: BsdWorker where
  "mk_BsdWorker = \<lparr>bw_handles = [], bw_flows = [], bw_localAddrs = {}, bw_loopbackAddrs = {}, bw_ephLow = 49152, bw_ephHigh = 65535,
     bw_timer = None, bw_warned = False, bw_flowCapWarned = False, bw_resolver = \<lparr>br_exact = [], br_local = []\<rparr>\<rparr>"

definition kFlowTtlMs :: int where "kFlowTtlMs = 30000"
definition kMaxFlows :: nat where "kMaxFlows = 16384"
definition kSnapshotCap :: nat where "kSnapshotCap = 4096"

definition endpointGreater :: "(QHostAddress \<Rightarrow> string) \<Rightarrow> Endpoint \<Rightarrow> Endpoint \<Rightarrow> bool" where
  "endpointGreater toStr a b =
     (if ep_port a \<noteq> ep_port b then ep_port b < ep_port a else str_less (toStr (ep_address b)) (toStr (ep_address a)))"

definition bw_isLocal :: "BsdWorker \<Rightarrow> QHostAddress \<Rightarrow> bool" where
  "bw_isLocal w a = (a \<in> bw_localAddrs w \<or> a \<in> bw_loopbackAddrs w)"

text \<open>The local end, the remote end, and whether the packet was sent by the local end.\<close>

definition orient :: "(QHostAddress \<Rightarrow> string) \<Rightarrow> BsdWorker \<Rightarrow> Packet \<Rightarrow> Endpoint \<times> Endpoint \<times> bool" where
  "orient toStr w p =
     (let src = pk_src p; dst = pk_dst p; ls = bw_isLocal w (ep_address src); ld = bw_isLocal w (ep_address dst) in
      if ls \<and> \<not> ld then (src, dst, True)
      else if ld \<and> \<not> ls then (dst, src, False)
      else if endpointGreater toStr src dst then (src, dst, True) else (dst, src, False))"

definition new_acc :: "CaptureHandle \<Rightarrow> L4Proto \<Rightarrow> Endpoint \<Rightarrow> Endpoint \<Rightarrow> FlowAcc" where
  "new_acc h proto loc rem =
     \<lparr>fa_local = loc, fa_remote = rem, fa_proto = proto, fa_rxBytes = 0, fa_txBytes = 0, fa_rxPackets = 0, fa_txPackets = 0,
      fa_iface = ch_iface h, fa_ifIndex = ch_ifIndex h, fa_lastSeenMs = 0, fa_observedDir = DirUnknown\<rparr>"

definition add_packet :: "bool \<Rightarrow> quint32 \<Rightarrow> int \<Rightarrow> Direction option \<Rightarrow> FlowAcc \<Rightarrow> FlowAcc" where
  "add_packet isTx wireLen now dir a =
     (let a = (if isTx then a\<lparr>fa_txBytes := fa_txBytes a + ucast wireLen, fa_txPackets := fa_txPackets a + 1\<rparr>
               else a\<lparr>fa_rxBytes := fa_rxBytes a + ucast wireLen, fa_rxPackets := fa_rxPackets a + 1\<rparr>);
          a = a\<lparr>fa_lastSeenMs := now\<rparr>
      in case dir of None \<Rightarrow> a | Some d \<Rightarrow> a\<lparr>fa_observedDir := d\<rparr>)"

definition account_packet :: "(QHostAddress \<Rightarrow> string) \<Rightarrow> CaptureHandle \<Rightarrow> Packet \<Rightarrow> quint32 \<Rightarrow> int \<Rightarrow> BsdWorker \<Rightarrow> BsdWorker" where
  "account_packet toStr h p wireLen now w =
     (let (loc, rem, isTx) = orient toStr w p;
          ls = bw_isLocal w (ep_address (pk_src p)); ld = bw_isLocal w (ep_address (pk_dst p));
          key = flowKeyExact toStr (pk_proto p) loc rem;
          dir = (if pk_syn p \<and> ls \<noteq> ld then Some (if ls then Outbound else Inbound) else None)
      in case hfind (bw_flows w) key of
           None \<Rightarrow>
             if kMaxFlows \<le> hsize (bw_flows w) then w\<lparr>bw_flowCapWarned := True\<rparr>
             else w\<lparr>bw_flows := hinsert key (add_packet isTx wireLen now dir (new_acc h (pk_proto p) loc rem)) (bw_flows w)\<rparr>
         | Some acc \<Rightarrow> w\<lparr>bw_flows := hinsert key (add_packet isTx wireLen now dir acc) (bw_flows w)\<rparr>)"

text \<open>None: a read past the captured bytes.\<close>

definition handlePacket :: "(QHostAddress \<Rightarrow> string) \<Rightarrow> CaptureHandle \<Rightarrow> quint8 list \<Rightarrow> quint32 \<Rightarrow> int \<Rightarrow> BsdWorker \<Rightarrow> BsdWorker option" where
  "handlePacket toStr h data wireLen now w =
     map_option (\<lambda>pkt. case pkt of None \<Rightarrow> w | Some p \<Rightarrow> account_packet toStr h p wireLen now w) (parse_packet (ch_datalink h) data)"

primrec dispatch_packets :: "(QHostAddress \<Rightarrow> string) \<Rightarrow> CaptureHandle \<Rightarrow> (quint8 list \<times> quint32 \<times> int) list \<Rightarrow> BsdWorker \<Rightarrow> BsdWorker option" where
  "dispatch_packets toStr h [] w = Some w"
| "dispatch_packets toStr h (x # xs) w =
     (let (data, wireLen, now) = x in Option.bind (handlePacket toStr h data wireLen now w) (dispatch_packets toStr h xs))"

definition onReadable :: "(QHostAddress \<Rightarrow> string) \<Rightarrow> int \<Rightarrow> (quint8 list \<times> quint32 \<times> int) list \<Rightarrow> BsdWorker \<Rightarrow> BsdWorker option" where
  "onReadable toStr fd packets w =
     (case find (\<lambda>h. ch_fd h = fd) (bw_handles w) of None \<Rightarrow> Some w | Some h \<Rightarrow> dispatch_packets toStr h packets w)"

section \<open>Local addresses and captures\<close>

datatype SockAddr = InetAddr quint32 quint16 | Inet6Addr "128 word" quint16 | LinkAddr | OtherAddr

record IfData =
  ifd_type :: nat
  ifd_mtu :: quint32
  ifd_ibytes :: quint64
  ifd_obytes :: quint64
  ifd_ipackets :: quint64
  ifd_opackets :: quint64
  ifd_ierrors :: quint64
  ifd_oerrors :: quint64
  ifd_iqdrops :: quint64
  ifd_linkState :: int

text \<open>The mask is read as an address of the family of the address, whatever its own family says: both readings are given.\<close>

record IfAddrs =
  ifa_name :: "string option"
  ifa_addr :: "SockAddr option"
  ifa_netmask :: "(quint32 \<times> 128 word) option"
  ifa_flags :: quint32
  ifa_data :: "IfData option"

definition IFF_UP :: nat where "IFF_UP = 0"
definition IFF_LOOPBACK :: nat where "IFF_LOOPBACK = 3"

text \<open>What the host answers: \<open>getifaddrs\<close>, the two port sysctls, opening a capture on an interface (descriptor and link type
  when every step succeeds), \<open>if_nametoindex\<close>, and the contents of the resolver's tables.\<close>

record BsdHost =
  bh_ifaddrs :: "IfAddrs list option"
  bh_portFirst :: "int option"
  bh_portLast :: "int option"
  bh_open :: "string \<Rightarrow> (int \<times> nat) option"
  bh_ifIndex :: "string \<Rightarrow> quint32"
  bh_sockets :: BsdSocketResolver

definition host_list :: "BsdHost \<Rightarrow> IfAddrs list" where
  "host_list h = (case bh_ifaddrs h of None \<Rightarrow> [] | Some xs \<Rightarrow> xs)"

definition sockaddr_host :: "SockAddr option \<Rightarrow> QHostAddress option" where
  "sockaddr_host sa = (case sa of Some (InetAddr v _) \<Rightarrow> Some (HostV4 v) | Some (Inet6Addr v _) \<Rightarrow> Some (HostV6 v) | _ \<Rightarrow> None)"

definition refreshLocalState :: "BsdHost \<Rightarrow> BsdWorker \<Rightarrow> BsdWorker" where
  "refreshLocalState h w =
     (let addrs = (\<lambda>loop. set (List.map_filter (\<lambda>i. sockaddr_host (ifa_addr i)) (filter (\<lambda>i. bit (ifa_flags i) IFF_LOOPBACK = loop) (host_list h))));
          port = (\<lambda>v old. case v of Some n \<Rightarrow> if 0 < n then word_of_int n else old | None \<Rightarrow> old)
      in w\<lparr>bw_loopbackAddrs := addrs True, bw_localAddrs := addrs False,
           bw_ephLow := port (bh_portFirst h) (bw_ephLow w), bw_ephHigh := port (bh_portLast h) (bw_ephHigh w)\<rparr>)"

definition open_one :: "BsdHost \<Rightarrow> IfAddrs \<Rightarrow> string set \<times> CaptureHandle list \<Rightarrow> string set \<times> CaptureHandle list" where
  "open_one h i acc =
     (let (seen, handles) = acc in
      case ifa_name i of
        None \<Rightarrow> acc
      | Some name \<Rightarrow>
          if ifa_addr i \<noteq> Some LinkAddr \<or> \<not> bit (ifa_flags i) IFF_UP \<or> name \<in> seen then acc
          else (insert name seen,
                case bh_open h name of
                  None \<Rightarrow> handles
                | Some (fd, dl) \<Rightarrow> handles @ [\<lparr>ch_fd = fd, ch_datalink = dl, ch_iface = name, ch_ifIndex = bh_ifIndex h name\<rparr>]))"

definition openCaptures :: "BsdHost \<Rightarrow> BsdWorker \<Rightarrow> BsdWorker" where
  "openCaptures h w = w\<lparr>bw_handles := bw_handles w @ snd (fold (open_one h) (host_list h) ({}, []))\<rparr>"

definition closeCaptures :: "BsdWorker \<Rightarrow> BsdWorker" where
  "closeCaptures w = w\<lparr>bw_handles := []\<rparr>"

section \<open>Attribution from the socket lists\<close>

definition endpointFromSockaddr :: "SockAddr option \<Rightarrow> Endpoint" where
  "endpointFromSockaddr sa =
     (case sa of
        Some (InetAddr v p) \<Rightarrow> \<lparr>ep_address = HostV4 v, ep_port = p\<rparr>
      | Some (Inet6Addr v p) \<Rightarrow> \<lparr>ep_address = HostV6 v, ep_port = p\<rparr>
      | _ \<Rightarrow> no_endpoint)"

definition no_attribution :: Attribution where
  "no_attribution = \<lparr>at_process = no_process, at_container = no_container\<rparr>"

definition bsd_lookup :: "(QHostAddress \<Rightarrow> string) \<Rightarrow> BsdSocketResolver \<Rightarrow> L4Proto \<Rightarrow> Endpoint \<Rightarrow> Endpoint \<Rightarrow> Attribution" where
  "bsd_lookup toStr r proto loc rem =
     (case hfind (br_exact r) (flowKeyExact toStr proto loc rem) of
        Some a \<Rightarrow> a
      | None \<Rightarrow> (case hfind (br_local r) (flowKeyLocal toStr proto loc) of Some a \<Rightarrow> a | None \<Rightarrow> no_attribution))"

text \<open>The step shared by both systems: one socket with its owner.\<close>

definition enter_socket :: "(QHostAddress \<Rightarrow> string) \<Rightarrow> L4Proto \<Rightarrow> SockAddr option \<Rightarrow> SockAddr option \<Rightarrow> Attribution \<Rightarrow> BsdSocketResolver \<Rightarrow> BsdSocketResolver" where
  "enter_socket toStr proto src dst attr r =
     (let loc = endpointFromSockaddr src; rem = endpointFromSockaddr dst in
      if ep_address loc = HostNull then r
      else
        (let r = (if ep_address rem \<noteq> HostNull \<and> ep_port rem \<noteq> 0
                  then r\<lparr>br_exact := hinsert (flowKeyExact toStr proto loc rem) attr (br_exact r)\<rparr> else r);
             lk = flowKeyLocal toStr proto loc
         in if hcontains (br_local r) lk then r else r\<lparr>br_local := hinsert lk attr (br_local r)\<rparr>))"

definition empty_resolver :: BsdSocketResolver where
  "empty_resolver = \<lparr>br_exact = [], br_local = []\<rparr>"

text \<open>NetBSD: processes, open files (type, kernel address of the socket, pid) and the four protocol lists.\<close>

record KinfoProc =
  kp_pid :: int
  kp_uid :: quint32
  kp_comm :: string
  kp_jid :: int

record KinfoFile =
  kf_isSocket :: bool
  kf_data :: quint64
  kf_pid :: int

record KinfoPcb =
  kb_sockaddr :: quint64
  kb_src :: "SockAddr option"
  kb_dst :: "SockAddr option"

definition buildPidInfo :: "KinfoProc list \<Rightarrow> (int, ProcessInfo) qhash" where
  "buildPidInfo procs =
     fold (\<lambda>p out. hinsert (kp_pid p) (no_process\<lparr>pi_pid := kp_pid p, pi_uid := kp_uid p, pi_comm := kp_comm p\<rparr>) out) procs []"

definition buildSocketPid :: "KinfoFile list \<Rightarrow> (quint64, int) qhash" where
  "buildSocketPid files =
     fold (\<lambda>f out. if \<not> kf_isSocket f \<or> kf_data f = 0 \<or> kf_pid f = 0 then out else hinsert (kf_data f) (kf_pid f) out) files []"

definition enter_pcb ::
  "(QHostAddress \<Rightarrow> string) \<Rightarrow> (int, ProcessInfo) qhash \<Rightarrow> (quint64, int) qhash \<Rightarrow> L4Proto \<Rightarrow> KinfoPcb \<Rightarrow> BsdSocketResolver \<Rightarrow> BsdSocketResolver" where
  "enter_pcb toStr pidInfo socketPid proto pcb r =
     (case hfind socketPid (kb_sockaddr pcb) of
        None \<Rightarrow> r
      | Some pid \<Rightarrow>
          (case hfind pidInfo pid of
             None \<Rightarrow> r
           | Some info \<Rightarrow> enter_socket toStr proto (kb_src pcb) (kb_dst pcb) \<lparr>at_process = info, at_container = no_container\<rparr> r))"

definition refresh_netbsd ::
  "(QHostAddress \<Rightarrow> string) \<Rightarrow> KinfoProc list \<Rightarrow> KinfoFile list \<Rightarrow> (L4Proto \<times> KinfoPcb list option) list \<Rightarrow> BsdSocketResolver" where
  "refresh_netbsd toStr procs files tables =
     (let pidInfo = buildPidInfo procs; socketPid = buildSocketPid files in
      fold (\<lambda>(proto, pcbs) r. case pcbs of None \<Rightarrow> r | Some xs \<Rightarrow> fold (enter_pcb toStr pidInfo socketPid proto) xs r) tables empty_resolver)"

text \<open>FreeBSD: the files of each process carry the addresses of their sockets; jails are the containers.\<close>

record KinfoFd =
  fd_isSocket :: bool
  fd_inet :: bool
  fd_protocol :: quint8
  fd_local :: "SockAddr option"
  fd_peer :: "SockAddr option"

definition jail_names :: "(int \<times> string) list \<Rightarrow> (int, string) qhash" where
  "jail_names jails = fold (\<lambda>(jid, name) m. hinsert jid name m) jails []"

definition proc_attribution :: "(int, string) qhash \<Rightarrow> KinfoProc \<Rightarrow> Attribution" where
  "proc_attribution jails p =
     \<lparr>at_process = no_process\<lparr>pi_pid := kp_pid p, pi_uid := kp_uid p, pi_comm := kp_comm p\<rparr>,
      at_container = (if 0 < kp_jid p
        then \<lparr>ct_runtime = ''jail'', ct_id = show_nat (nat (kp_jid p)), ct_name = (case hfind jails (kp_jid p) of None \<Rightarrow> [] | Some n \<Rightarrow> n)\<rparr>
        else no_container)\<rparr>"

definition enter_fd :: "(QHostAddress \<Rightarrow> string) \<Rightarrow> Attribution \<Rightarrow> KinfoFd \<Rightarrow> BsdSocketResolver \<Rightarrow> BsdSocketResolver" where
  "enter_fd toStr attr f r =
     (if \<not> fd_isSocket f \<or> \<not> fd_inet f then r
      else if fd_protocol f = 6 then enter_socket toStr Tcp (fd_local f) (fd_peer f) attr r
      else if fd_protocol f = 17 then enter_socket toStr Udp (fd_local f) (fd_peer f) attr r
      else r)"

definition refresh_freebsd ::
  "(QHostAddress \<Rightarrow> string) \<Rightarrow> (int \<times> string) list \<Rightarrow> KinfoProc list \<Rightarrow> (int \<Rightarrow> KinfoFd list) \<Rightarrow> BsdSocketResolver" where
  "refresh_freebsd toStr jails procs fds =
     (let names = jail_names jails;
          pidAttr = fold (\<lambda>p m. hinsert (kp_pid p) (proc_attribution names p) m) procs []
      in fold (\<lambda>(pid, attr) r. fold (enter_fd toStr attr) (fds pid) r) pidAttr empty_resolver)"

section \<open>Snapshots\<close>

definition flow_connection :: "(QHostAddress \<Rightarrow> string) \<Rightarrow> BsdWorker \<Rightarrow> FlowAcc \<Rightarrow> Connection" where
  "flow_connection toStr w a =
     (let c = no_connection\<lparr>c_local := fa_local a, c_remote := fa_remote a, c_proto := fa_proto a, c_rxBytes := fa_rxBytes a,
                c_txBytes := fa_txBytes a, c_rxPackets := fa_rxPackets a, c_txPackets := fa_txPackets a, c_iface := fa_iface a,
                c_ifIndex := fa_ifIndex a\<rparr>;
          c = c\<lparr>c_direction := (if fa_observedDir a \<noteq> DirUnknown then fa_observedDir a
                  else inferDirection c (bw_localAddrs w) (bw_loopbackAddrs w) (bw_ephLow w) (bw_ephHigh w))\<rparr>;
          attr = bsd_lookup toStr (bw_resolver w) (c_proto c) (c_local c) (c_remote c)
      in c\<lparr>c_process := at_process attr, c_container := at_container attr\<rparr>)"

text \<open>The sum wraps around at 64 bits, as in the comparison of the source.\<close>

definition bsd_louder :: "Connection \<Rightarrow> Connection \<Rightarrow> bool" where
  "bsd_louder a b = (c_rxBytes b + c_txBytes b < c_rxBytes a + c_txBytes a)"

definition emitSnapshot :: "(QHostAddress \<Rightarrow> string) \<Rightarrow> BsdHost \<Rightarrow> int \<Rightarrow> BsdWorker \<Rightarrow> bsd_signal list \<times> BsdWorker" where
  "emitSnapshot toStr h now w =
     (let w = (refreshLocalState h w)\<lparr>bw_resolver := bh_sockets h\<rparr>;
          w = w\<lparr>bw_flows := hretain (\<lambda>_ a. now - fa_lastSeenMs a \<le> kFlowTtlMs) (bw_flows w)\<rparr>;
          out = map (\<lambda>(_, a). flow_connection toStr w a) (bw_flows w);
          w = (if bw_flowCapWarned w \<and> hsize (bw_flows w) < kMaxFlows then w\<lparr>bw_flowCapWarned := False\<rparr> else w);
          out = (if kSnapshotCap < length out then partial_sort bsd_louder kSnapshotCap out else out)
      in ([ConnectionsUpdated out], w))"

definition bw_start :: "(QHostAddress \<Rightarrow> string) \<Rightarrow> BsdHost \<Rightarrow> int \<Rightarrow> BsdWorker \<Rightarrow> bsd_signal list \<times> BsdWorker" where
  "bw_start toStr h now w =
     (let w = openCaptures h (refreshLocalState h w) in
      if bw_handles w = [] \<and> \<not> bw_warned w
      then ([AccountingUnavailable
               ''Per-flow capture could not start (need read access to /dev/bpf*; run with elevated privileges).'', ConnectionsUpdated []],
            w\<lparr>bw_warned := True\<rparr>)
      else emitSnapshot toStr h now (w\<lparr>bw_timer := Some (1000, True)\<rparr>))"

definition bw_stop :: "BsdWorker \<Rightarrow> BsdWorker" where
  "bw_stop w = (closeCaptures (w\<lparr>bw_timer := None\<rparr>))\<lparr>bw_flows := []\<rparr>"

definition bw_setPollIntervalMs :: "int \<Rightarrow> BsdWorker \<Rightarrow> BsdWorker" where
  "bw_setPollIntervalMs ms w =
     (case bw_timer w of
        None \<Rightarrow> w
      | Some (interval, _) \<Rightarrow> if ms \<le> 0 then w\<lparr>bw_timer := Some (interval, False)\<rparr> else w\<lparr>bw_timer := Some (ms, True)\<rparr>)"

definition bsd_capabilities :: "bool \<Rightarrow> string list" where
  "bsd_capabilities freebsd =
     [''iana-proto'', ''direction-on-wire'', ''process-attribution-wire''] @ (if freebsd then [''container-attribution-wire''] else [])"

section \<open>Interfaces\<close>

fun bsd_type_name :: "nat \<Rightarrow> string" where
  "bsd_type_name n =
     (if n = 6 then ''ethernet'' else if n = 24 then ''loopback'' else if n = 135 then ''vlan'' else if n = 209 then ''bridge''
      else if n = 240 then ''gif'' else if n = 131 then ''tunnel'' else if n = 71 then ''wifi'' else if n = 23 then ''ppp'' else ''other'')"

definition classifyType :: "nat \<Rightarrow> bool \<Rightarrow> string" where
  "classifyType ifiType isLoopback = (if isLoopback then ''loopback'' else bsd_type_name ifiType)"

text \<open>LINK_STATE_UP is 2 and LINK_STATE_DOWN is 1.\<close>

definition operStateFromLink :: "int \<Rightarrow> quint8" where
  "operStateFromLink linkState = (if linkState = 2 then 6 else if linkState = 1 then 2 else 0)"

text \<open>\<open>while (m & top) \<dots> m <<= 1\<close>: each turn drops the top bit, so a word of \<open>n\<close> bits allows at most \<open>n\<close> turns.\<close>

primrec leading_ones :: "nat \<Rightarrow> 'a::len word \<Rightarrow> nat" where
  "leading_ones 0 m = 0"
| "leading_ones (Suc n) m = (if bit m (LENGTH('a) - 1) then Suc (leading_ones n (push_bit 1 m)) else 0)"

definition mask6_prefix :: "128 word \<Rightarrow> nat" where
  "mask6_prefix m = sum_list (map (\<lambda>i. leading_ones 8 (ucast (drop_bit (120 - 8 * i) m) :: 8 word)) [0..<16])"

definition cidrFromSockaddr :: "(QHostAddress \<Rightarrow> string) \<Rightarrow> SockAddr option \<Rightarrow> (quint32 \<times> 128 word) option \<Rightarrow> string" where
  "cidrFromSockaddr ntop addr netmask =
     (case addr of
        Some (InetAddr v _) \<Rightarrow>
          ntop (HostV4 v) @ (case netmask of Some (m, _) \<Rightarrow> ''/'' @ show_nat (leading_ones 32 m) | None \<Rightarrow> [])
      | Some (Inet6Addr v _) \<Rightarrow>
          if drop_bit 118 v = 0x3FA then []
          else ntop (HostV6 v) @ (case netmask of Some (_, m) \<Rightarrow> ''/'' @ show_nat (mask6_prefix m) | None \<Rightarrow> [])
      | _ \<Rightarrow> [])"

definition addrs_by_name :: "(QHostAddress \<Rightarrow> string) \<Rightarrow> IfAddrs list \<Rightarrow> string \<Rightarrow> string list" where
  "addrs_by_name ntop ifs name =
     filter (\<lambda>s. s \<noteq> []) (map (\<lambda>i. cidrFromSockaddr ntop (ifa_addr i) (ifa_netmask i)) (filter (\<lambda>i. ifa_name i = Some name) ifs))"

definition bsd_interface :: "(QHostAddress \<Rightarrow> string) \<Rightarrow> BsdHost \<Rightarrow> IfAddrs \<Rightarrow> InterfaceStats option" where
  "bsd_interface ntop h i =
     (case (ifa_name i, ifa_addr i, ifa_data i) of
        (Some name, Some LinkAddr, Some d) \<Rightarrow>
          (let loop = bit (ifa_flags i) IFF_LOOPBACK in
           Some \<lparr>if_name = name, if_type = classifyType (ifd_type d) loop, if_mtu = ifd_mtu d, if_addresses = addrs_by_name ntop (host_list h) name,
             if_rxBytes = ifd_ibytes d, if_txBytes = ifd_obytes d, if_rxPackets = ifd_ipackets d, if_txPackets = ifd_opackets d,
             if_isUp = bit (ifa_flags i) IFF_UP, if_isLoopback = loop, if_ifIndex = bh_ifIndex h name,
             if_operState = operStateFromLink (ifd_linkState d), if_rxErrors = ifd_ierrors d, if_txErrors = ifd_oerrors d,
             if_rxDropped = ifd_iqdrops d, if_txDropped = 0\<rparr>)
      | _ \<Rightarrow> None)"

text \<open>The statistics signal of one poll; none when \<open>getifaddrs\<close> gives no list.\<close>

definition bsd_poll :: "(QHostAddress \<Rightarrow> string) \<Rightarrow> BsdHost \<Rightarrow> InterfaceStats list option" where
  "bsd_poll ntop h =
     (case bh_ifaddrs h of
        None \<Rightarrow> None
      | Some [] \<Rightarrow> None
      | Some ifs \<Rightarrow> Some (concat (map (\<lambda>i. case bsd_interface ntop h i of None \<Rightarrow> [] | Some s \<Rightarrow> [s]) ifs)))"

end
