(* ===== verification/BsdCaptureFacts.thy ===== *)
theory BsdCaptureFacts
  imports BsdCapture
begin

text \<open>
  Packets are read within their captured length and a frame gives back the endpoints it was built from; each packet is added
  to one direction of one flow, the same flow for both directions of a conversation; snapshots hold the loudest flows that are
  not expired.
\<close>

section \<open>Parsing\<close>

lemma byte_at_Some: "i < length data \<Longrightarrow> byte_at data i = Some (data ! i)"
  by (simp add: byte_at_def)

lemma packet_bytes_at_Some: "i + n \<le> length data \<Longrightarrow> bytes_at data i n = Some (take n (drop i data))"
  by (simp add: bytes_at_def)

lemma l3_offset_total: "l3_offset datalink data \<noteq> None"
  by (auto simp: l3_offset_def packet_bytes_at_Some)

lemma ip_header_total: "ip_header data off \<noteq> None"
  by (auto simp: ip_header_def Let_def byte_at_Some packet_bytes_at_Some)

lemma l4_total: "l4_ports proto data l4off \<noteq> None" "pure_syn proto data l4off \<noteq> None"
  by (auto simp: l4_ports_def readPorts_def packet_bytes_at_Some pure_syn_def byte_at_Some)

lemma parse_packet_total: "parse_packet datalink data \<noteq> None"
proof (cases "l3_offset datalink data")
  case (Some l3)
  show ?thesis
  proof (cases l3)
    case l3: (Some off)
    obtain ip where ip: "ip_header data off = Some ip" using ip_header_total by blast
    show ?thesis
    proof (cases ip)
      case (Some x)
      obtain src dst ipproto l4off where x: "x = (src, dst, ipproto, l4off)" by (cases x) auto
      obtain ports syn where "l4_ports (fromIanaProto ipproto) data l4off = Some ports" "pure_syn (fromIanaProto ipproto) data l4off = Some syn"
        using l4_total by (meson not_None_eq)
      then show ?thesis using \<open>l3_offset datalink data = Some l3\<close> l3 ip Some x by (simp add: parse_packet_def Let_def)
    qed (use \<open>l3_offset datalink data = Some l3\<close> l3 ip in \<open>simp add: parse_packet_def\<close>)
  qed (use Some in \<open>simp add: parse_packet_def\<close>)
qed (use l3_offset_total in blast)

text \<open>An Ethernet frame with an IPv4 header of \<open>20 + length options\<close> bytes, and the first bytes of a TCP or UDP header.\<close>

definition frame4 :: "quint8 list \<Rightarrow> quint8 list \<Rightarrow> quint8 list \<Rightarrow> quint8 list \<Rightarrow> quint8 \<Rightarrow> quint32 \<Rightarrow> quint32 \<Rightarrow> quint16 \<Rightarrow> quint16 \<Rightarrow> quint8 list \<Rightarrow> quint8 list" where
  "frame4 macs pre chk opts proto src dst sport dport rest =
     macs @ [0x08, 0x00] @ [0x40 + word_of_nat (5 + length opts div 4)] @ pre @ [proto] @ chk @ be_bytes 4 src @ be_bytes 4 dst @ opts @
       be_bytes 2 sport @ be_bytes 2 dport @ rest"

lemma frame4_parts:
  assumes "length macs = 12" and "length pre = 8" and "length chk = 2" and "length opts = 4 * k" and "k \<le> 10"
    and data_def: "data = frame4 macs pre chk opts proto src dst sport dport rest"
  shows "l3_offset DLT_EN10MB data = Some (Some 14)"
    and "ip_header data 14 = Some (Some (HostV4 src, HostV4 dst, proto, 34 + 4 * k))"
    and "length data = 38 + 4 * k + length rest"
    and "readPorts data (34 + 4 * k) = Some (Some (sport, dport))"
    and "10 \<le> length rest \<Longrightarrow> byte_at data (47 + 4 * k) = Some (rest ! 9)"
proof -
  have len: "length data = 38 + 4 * k + length rest" using assms by (simp add: frame4_def)
  have first: "unat (69 + word_of_nat k :: quint8) = 69 + k"
    using assms(5) by (simp add: unat_word_ariths unat_of_nat)
  have nibbles: "(69 + k) div 16 = 4" "(69 + k) mod 16 = 5 + k" using assms(5) by presburger+
  have at12: "bytes_at data 12 2 = Some [8, 0]" using assms(1) by (simp add: bytes_at_def data_def frame4_def)
  show "l3_offset DLT_EN10MB data = Some (Some 14)" using len by (simp add: l3_offset_def at12 be_val_def DLT_EN10MB_def)
  have "byte_at data 14 = Some (0x40 + word_of_nat (5 + k))" "byte_at data 23 = Some proto"
    "bytes_at data 26 4 = Some (be_bytes 4 src)" "bytes_at data 30 4 = Some (be_bytes 4 dst)"
    using assms(1-4) by (simp_all add: byte_at_def bytes_at_def data_def frame4_def nth_append)
  then show "ip_header data 14 = Some (Some (HostV4 src, HostV4 dst, proto, 34 + 4 * k))"
    using len assms(5) by (simp add: ip_header_def Let_def first nibbles word_of_be)
  show "length data = 38 + 4 * k + length rest" by (rule len)
  define hd where "hd = macs @ [0x08, 0x00] @ [0x40 + word_of_nat (5 + length opts div 4)] @ pre @ [proto] @ chk @ be_bytes 4 src @ be_bytes 4 dst @ opts"
  have hd: "length hd = 34 + 4 * k" "data = hd @ be_bytes 2 sport @ be_bytes 2 dport @ rest" using assms(1-4) by (simp_all add: hd_def data_def frame4_def)
  have "drop (34 + 4 * k) data = be_bytes 2 sport @ be_bytes 2 dport @ rest" "drop (36 + 4 * k) data = be_bytes 2 dport @ rest"
    unfolding hd(2) using hd(1) by simp_all
  then have "bytes_at data (34 + 4 * k) 2 = Some (be_bytes 2 sport)" "bytes_at data (36 + 4 * k) 2 = Some (be_bytes 2 dport)"
    using len by (simp_all add: bytes_at_def)
  then show "readPorts data (34 + 4 * k) = Some (Some (sport, dport))" using len by (simp add: readPorts_def word_of_be)
  show "10 \<le> length rest \<Longrightarrow> byte_at data (47 + 4 * k) = Some (rest ! 9)"
    using hd(1) len by (simp add: byte_at_def hd(2) nth_append)
qed

lemma frame_parse:
  assumes "length macs = 12" and "length pre = 8" and "length chk = 2" and "length opts = 4 * k" and "k \<le> 10"
  shows "parse_packet DLT_EN10MB (frame4 macs pre chk opts proto src dst sport dport rest) =
      Some (Some (let ported = fromIanaProto proto \<in> {Tcp, Udp} in
        \<lparr>pk_src = \<lparr>ep_address = HostV4 src, ep_port = if ported then sport else 0\<rparr>,
         pk_dst = \<lparr>ep_address = HostV4 dst, ep_port = if ported then dport else 0\<rparr>, pk_proto = fromIanaProto proto,
         pk_syn = (fromIanaProto proto = Tcp \<and> 10 \<le> length rest \<and> bit (rest ! 9) 1 \<and> \<not> bit (rest ! 9) 4)\<rparr>))"
proof -
  note F = frame4_parts [OF assms refl]
  let ?data = "frame4 macs pre chk opts proto src dst sport dport rest"
  have "l4_ports (fromIanaProto proto) ?data (34 + 4 * k) = Some (if fromIanaProto proto \<in> {Tcp, Udp} then (sport, dport) else (0, 0))"
    by (simp add: l4_ports_def F)
  moreover have "pure_syn (fromIanaProto proto) ?data (34 + 4 * k) =
      Some (fromIanaProto proto = Tcp \<and> 10 \<le> length rest \<and> bit (rest ! 9) 1 \<and> \<not> bit (rest ! 9) 4)"
    by (cases "10 \<le> length rest") (simp_all add: pure_syn_def F)
  ultimately show ?thesis by (simp add: parse_packet_def F Let_def)
qed

text \<open>C30: parsing a packet never reads past its captured bytes, and from an Ethernet frame with an IPv4 header of any legal length it
  recovers the addresses, the protocol, the ports of TCP and UDP, and whether the packet opens a connection.\<close>

theorem packet_parse_exact:
  assumes "length macs = 12" and "length pre = 8" and "length chk = 2" and "length opts = 4 * k" and "k \<le> 10"
  shows "parse_packet datalink data \<noteq> None \<and>
    parse_packet DLT_EN10MB (frame4 macs pre chk opts proto src dst sport dport rest) =
      Some (Some (let ported = fromIanaProto proto \<in> {Tcp, Udp} in
        \<lparr>pk_src = \<lparr>ep_address = HostV4 src, ep_port = if ported then sport else 0\<rparr>,
         pk_dst = \<lparr>ep_address = HostV4 dst, ep_port = if ported then dport else 0\<rparr>, pk_proto = fromIanaProto proto,
         pk_syn = (fromIanaProto proto = Tcp \<and> 10 \<le> length rest \<and> bit (rest ! 9) 1 \<and> \<not> bit (rest ! 9) 4)\<rparr>))"
  using parse_packet_total frame_parse [OF assms] by blast

theorem packet_parse_exact_witness:
  "parse_packet DLT_NULL [] \<noteq> None \<and>
   parse_packet DLT_EN10MB (frame4 (replicate 12 0) (replicate 8 0) [0, 0] [] 6 0x0A000001 0x0A000002 40000 443 [0, 0, 0, 0, 0, 0, 0, 0, 0x50, 0x02]) =
     Some (Some \<lparr>pk_src = \<lparr>ep_address = HostV4 0x0A000001, ep_port = 40000\<rparr>, pk_dst = \<lparr>ep_address = HostV4 0x0A000002, ep_port = 443\<rparr>,
       pk_proto = Tcp, pk_syn = True\<rparr>)"
proof -
  have "fromIanaProto 6 = Tcp" "bit (2 :: quint8) 1" "\<not> bit (2 :: quint8) 4" by (simp_all add: fromIanaProto_def) (code_simp+)?
  then show ?thesis
    using packet_parse_exact [of "replicate 12 0" "replicate 8 0" "[0, 0]" "[]" 0 DLT_NULL "[]" 6 "0x0A000001" "0x0A000002" 40000 443
        "[0, 0, 0, 0, 0, 0, 0, 0, 0x50, 0x02]"] by (simp add: Let_def)
qed

section \<open>Accounting\<close>

definition packet_flow :: "(QHostAddress \<Rightarrow> string) \<Rightarrow> BsdWorker \<Rightarrow> Packet \<Rightarrow> string" where
  "packet_flow toStr w p = (let (loc, rem, _) = orient toStr w p in flowKeyExact toStr (pk_proto p) loc rem)"

definition packet_sent :: "(QHostAddress \<Rightarrow> string) \<Rightarrow> BsdWorker \<Rightarrow> Packet \<Rightarrow> bool" where
  "packet_sent toStr w p = snd (snd (orient toStr w p))"

definition reply :: "Packet \<Rightarrow> Packet" where
  "reply p = p\<lparr>pk_src := pk_dst p, pk_dst := pk_src p\<rparr>"

lemma endpointGreater_swap: "inj toStr \<Longrightarrow> a \<noteq> b \<Longrightarrow> endpointGreater toStr a b \<longleftrightarrow> \<not> endpointGreater toStr b a"
proof -
  assume inj: "inj toStr" and ab: "(a :: Endpoint) \<noteq> b"
  show ?thesis
  proof (cases "ep_port a = ep_port b")
    case True
    then have "toStr (ep_address a) \<noteq> toStr (ep_address b)" using inj ab by (auto dest: injD)
    then show ?thesis using True str_less_total str_less_asym unfolding endpointGreater_def by metis
  qed (auto simp: endpointGreater_def)
qed

lemma reply_same_flow:
  assumes "inj toStr" and "pk_src p \<noteq> pk_dst p"
  shows "packet_flow toStr w (reply p) = packet_flow toStr w p \<and> packet_sent toStr w (reply p) = (\<not> packet_sent toStr w p)"
  using endpointGreater_swap [OF assms] by (auto simp: packet_flow_def packet_sent_def reply_def orient_def Let_def)

definition capture_all :: "(QHostAddress \<Rightarrow> string) \<Rightarrow> (CaptureHandle \<times> Packet \<times> quint32 \<times> int) list \<Rightarrow> BsdWorker \<Rightarrow> BsdWorker" where
  "capture_all toStr ps w = fold (\<lambda>(h, p, len, now). account_packet toStr h p len now) ps w"

lemma account_keeps: "bw_localAddrs (account_packet toStr h p len now w) = bw_localAddrs w" "bw_loopbackAddrs (account_packet toStr h p len now w) = bw_loopbackAddrs w"
  by (simp_all add: account_packet_def Let_def case_prod_beta split: option.split)

lemma flow_of_locals:
  "bw_localAddrs v = bw_localAddrs w \<Longrightarrow> bw_loopbackAddrs v = bw_loopbackAddrs w \<Longrightarrow>
   orient toStr v p = orient toStr w p \<and> packet_flow toStr v p = packet_flow toStr w p \<and> packet_sent toStr v p = packet_sent toStr w p"
  by (simp add: packet_flow_def packet_sent_def orient_def bw_isLocal_def Let_def)

lemma capture_keeps: "bw_localAddrs (capture_all toStr ps w) = bw_localAddrs w \<and> bw_loopbackAddrs (capture_all toStr ps w) = bw_loopbackAddrs w"
  unfolding capture_all_def by (induction ps arbitrary: w) (auto simp: account_keeps)

definition flow_packets :: "(QHostAddress \<Rightarrow> string) \<Rightarrow> BsdWorker \<Rightarrow> string \<Rightarrow> bool \<Rightarrow> (CaptureHandle \<times> Packet \<times> quint32 \<times> int) list \<Rightarrow> quint32 list" where
  "flow_packets toStr w k sent ps = map (\<lambda>(h, p, len, now). len) (filter (\<lambda>(h, p, len, now). packet_flow toStr w p = k \<and> packet_sent toStr w p = sent) ps)"

text \<open>What an accumulator holds after a list of packets.\<close>

definition acc_exact :: "(QHostAddress \<Rightarrow> string) \<Rightarrow> BsdWorker \<Rightarrow> string \<Rightarrow> (CaptureHandle \<times> Packet \<times> quint32 \<times> int) list \<Rightarrow> FlowAcc \<Rightarrow> bool" where
  "acc_exact toStr w k ps a =
     (flowKeyExact toStr (fa_proto a) (fa_local a) (fa_remote a) = k \<and>
      fa_txBytes a = sum_list (map ucast (flow_packets toStr w k True ps)) \<and> fa_rxBytes a = sum_list (map ucast (flow_packets toStr w k False ps)) \<and>
      fa_txPackets a = word_of_nat (length (flow_packets toStr w k True ps)) \<and> fa_rxPackets a = word_of_nat (length (flow_packets toStr w k False ps)))"

definition table_exact :: "(QHostAddress \<Rightarrow> string) \<Rightarrow> BsdWorker \<Rightarrow> (CaptureHandle \<times> Packet \<times> quint32 \<times> int) list \<Rightarrow> (string, FlowAcc) qhash \<Rightarrow> bool" where
  "table_exact toStr w ps m = (hwf m \<and> fst ` set m = (\<lambda>(h, p, len, now). packet_flow toStr w p) ` set ps \<and> (\<forall>(k, a) \<in> set m. acc_exact toStr w k ps a))"

lemma hinsert_cases: "hwf m \<Longrightarrow> (k', v') \<in> set (hinsert k v m) \<Longrightarrow> k' = k \<and> v' = v \<or> k' \<noteq> k \<and> (k', v') \<in> set m"
  by (metis hfind_in hfind_insert hwf_find hwf_insert option.inject)

lemma acc_other:
  "packet_flow toStr w p \<noteq> k \<Longrightarrow> acc_exact toStr w k (ps @ [(h, p, len, now)]) a = acc_exact toStr w k ps a"
  by (simp add: acc_exact_def flow_packets_def)

lemma acc_step:
  assumes "acc_exact toStr w (packet_flow toStr w p) ps a"
  shows "acc_exact toStr w (packet_flow toStr w p) (ps @ [(h, p, len, now)]) (add_packet (packet_sent toStr w p) len now dir a)"
  using assms by (cases dir) (simp_all add: acc_exact_def flow_packets_def add_packet_def Let_def add.commute)

lemma acc_new:
  assumes "packet_flow toStr w p \<notin> (\<lambda>(h, p, len, now). packet_flow toStr w p) ` set ps"
  shows "acc_exact toStr w (packet_flow toStr w p) ps (new_acc h (pk_proto p) (fst (orient toStr w p)) (fst (snd (orient toStr w p))))"
proof -
  have "flow_packets toStr w (packet_flow toStr w p) b ps = []" for b
    unfolding flow_packets_def using assms by (auto simp: filter_empty_conv image_iff)
  then show ?thesis by (simp add: acc_exact_def new_acc_def packet_flow_def case_prod_beta Let_def)
qed

lemma account_step:
  assumes t: "table_exact toStr w ps (bw_flows v)" and locs: "bw_localAddrs v = bw_localAddrs w" "bw_loopbackAddrs v = bw_loopbackAddrs w"
    and cap: "card ((\<lambda>(h, p, len, now). packet_flow toStr w p) ` set (ps @ [(h, p, len, now)])) \<le> kMaxFlows"
  shows "table_exact toStr w (ps @ [(h, p, len, now)]) (bw_flows (account_packet toStr h p len now v))"
proof -
  define m where "m = bw_flows v"
  define k where "k = packet_flow toStr w p"
  let ?keys = "(\<lambda>(h, p, len, now). packet_flow toStr w p) ` set ps"
  note O = flow_of_locals [OF locs, of toStr p]
  have m: "hwf m" "fst ` set m = ?keys" "\<And>k a. (k, a) \<in> set m \<Longrightarrow> acc_exact toStr w k ps a" using t by (auto simp: table_exact_def m_def)
  have key: "flowKeyExact toStr (pk_proto p) (fst (orient toStr w p)) (fst (snd (orient toStr w p))) = k"
    by (simp add: k_def packet_flow_def case_prod_beta Let_def)
  define dir where "dir = (if pk_syn p \<and> bw_isLocal v (ep_address (pk_src p)) \<noteq> bw_isLocal v (ep_address (pk_dst p))
    then Some (if bw_isLocal v (ep_address (pk_src p)) then Outbound else Inbound) else None)"
  define a0 where "a0 = (case hfind m k of None \<Rightarrow> new_acc h (pk_proto p) (fst (orient toStr w p)) (fst (snd (orient toStr w p))) | Some a \<Rightarrow> a)"
  have "acc_exact toStr w (packet_flow toStr w p) ps a0 \<and> \<not> (hfind m k = None \<and> kMaxFlows \<le> hsize m)"
  proof (cases "hfind m k")
    case None
    then have fresh: "k \<notin> ?keys" using m(2) hfind_None_iff by metis
    have "hsize m = card (fst ` set m)" using m(1) by (metis distinct_card hwf_def length_map set_map)
    moreover have "card (insert k ?keys) \<le> kMaxFlows" using cap by (simp add: k_def)
    ultimately have "\<not> kMaxFlows \<le> hsize m" using fresh m(2) by simp
    then show ?thesis using None acc_new [of toStr w p ps h] fresh by (simp add: a0_def k_def)
  qed (use m(3) hfind_in in \<open>fastforce simp: a0_def k_def\<close>)
  moreover have "bw_flows (account_packet toStr h p len now v) = hinsert k (add_packet (packet_sent toStr w p) len now dir a0) m"
    if "\<not> (hfind m k = None \<and> kMaxFlows \<le> hsize m)"
    using that unfolding account_packet_def Let_def case_prod_beta dir_def [symmetric]
    by (cases "hfind m k") (simp_all add: O key m_def [symmetric] packet_sent_def [symmetric] a0_def)
  ultimately have "\<exists>a. acc_exact toStr w k (ps @ [(h, p, len, now)]) a \<and> bw_flows (account_packet toStr h p len now v) = hinsert k a m"
    using acc_step [of toStr w p ps a0 h len now dir] k_def by blast
  then obtain a where a: "acc_exact toStr w k (ps @ [(h, p, len, now)]) a" "bw_flows (account_packet toStr h p len now v) = hinsert k a m" by blast
  have "acc_exact toStr w k' (ps @ [(h, p, len, now)]) a'" if "(k', a') \<in> set (hinsert k a m)" for k' a'
    using hinsert_cases [OF m(1) that] a(1) m(3) acc_other [of toStr w p k'] k_def by auto
  then show ?thesis unfolding table_exact_def a(2) using m(1,2) by (auto simp: hinsert_keys k_def)
qed

lemma capture_exact:
  assumes "bw_flows w = []" and "card ((\<lambda>(h, p, len, now). packet_flow toStr w p) ` set ps) \<le> kMaxFlows"
  shows "table_exact toStr w ps (bw_flows (capture_all toStr ps w))"
  using assms(2)
proof (induction ps rule: rev_induct)
  case Nil
  then show ?case by (simp add: table_exact_def capture_all_def assms(1))
next
  case (snoc x ps)
  obtain h p len now where x: "x = (h, p, len, now)" by (cases x) auto
  have "card ((\<lambda>(h, p, len, now). packet_flow toStr w p) ` set ps) \<le> card ((\<lambda>(h, p, len, now). packet_flow toStr w p) ` set (ps @ [x]))"
    by (intro card_mono image_mono) auto
  then have "card ((\<lambda>(h, p, len, now). packet_flow toStr w p) ` set ps) \<le> kMaxFlows" using snoc.prems by linarith
  note IH = snoc.IH [OF this]
  have "capture_all toStr (ps @ [x]) w = account_packet toStr h p len now (capture_all toStr ps w)" by (simp add: capture_all_def x)
  then show ?case using account_step [OF IH, of h p len now] capture_keeps [of toStr ps w] snoc.prems unfolding x by metis
qed


definition sample_packet :: Packet where
  "sample_packet = \<lparr>pk_src = \<lparr>ep_address = HostV4 1, ep_port = 40000\<rparr>, pk_dst = \<lparr>ep_address = HostV4 2, ep_port = 443\<rparr>, pk_proto = Tcp, pk_syn = True\<rparr>"


text \<open>The table never outgrows its cap, whatever arrives.\<close>

lemma capture_bounded: "hsize (bw_flows w) \<le> kMaxFlows \<Longrightarrow> hsize (bw_flows (account_packet toStr h p len now w)) \<le> kMaxFlows"
  by (auto simp: account_packet_def Let_def case_prod_beta hsize_insert split: option.split)

text \<open>Bytes 6 and 7 of the IPv4 header, which hold the fragment offset, are not looked at: the payload of a later fragment is read as
  ports.\<close>

lemma fragment_offset_ignored:
  assumes "length macs = 12" and "length pre = 8" and "length chk = 2" and "pre' = pre[5 := hi, 6 := lo]"
  shows "parse_packet DLT_EN10MB (frame4 macs pre' chk [] proto src dst sport dport rest) =
    parse_packet DLT_EN10MB (frame4 macs pre chk [] proto src dst sport dport rest)"
proof -
  have l: "length ([] :: quint8 list) = 4 * 0" "0 \<le> (10 :: nat)" "length pre' = 8" using assms by simp_all
  have e: "parse_packet DLT_EN10MB data = Some (Some (let ported = fromIanaProto proto \<in> {Tcp, Udp} in
        \<lparr>pk_src = \<lparr>ep_address = HostV4 src, ep_port = if ported then sport else 0\<rparr>,
         pk_dst = \<lparr>ep_address = HostV4 dst, ep_port = if ported then dport else 0\<rparr>, pk_proto = fromIanaProto proto,
         pk_syn = (fromIanaProto proto = Tcp \<and> 10 \<le> length rest \<and> bit (rest ! 9) 1 \<and> \<not> bit (rest ! 9) 4)\<rparr>))"
    if "length p = 8" "data = frame4 macs p chk [] proto src dst sport dport rest" for p data
    using frame_parse [OF assms(1) that(1) assms(3) l(1,2)] that(2) by blast
  show ?thesis using e [OF l(3) refl] e [OF assms(2) refl] by simp
qed

section \<open>Snapshots\<close>

definition bsd_total :: "Connection \<Rightarrow> nat" where
  "bsd_total c = unat (c_rxBytes c + c_txBytes c)"

interpretation bsd_cap: top_k bsd_total "partial_sort bsd_louder" "\<lambda>n cs. drop n (sort_by bsd_louder cs)"
  by (rule sort_by_top_k) (simp add: bsd_louder_def bsd_total_def word_less_nat_alt)

lemma flow_cap_warned: "flow_connection toStr (v\<lparr>bw_flowCapWarned := x\<rparr>) a = flow_connection toStr v a"
  by (simp add: flow_connection_def Let_def)

text \<open>A snapshot holds at most 4096 flows, each one a tracked flow seen within the last 30 seconds with its counters; when
  some are left out, none of them is louder than one that is kept.\<close>

theorem bsd_snapshot_loudest:
  assumes "emitSnapshot toStr h now w = ([ConnectionsUpdated out], w')"
  shows "length out \<le> kSnapshotCap \<and> set out \<subseteq> (\<lambda>(k, a). flow_connection toStr w' a) ` set (bw_flows w') \<and>
    bw_flows w' = hretain (\<lambda>_ a. now - fa_lastSeenMs a \<le> kFlowTtlMs) (bw_flows w) \<and>
    (\<forall>c \<in> set out. \<forall>(k, a) \<in> set (bw_flows w'). flow_connection toStr w' a \<in> set out \<or> bsd_total (flow_connection toStr w' a) \<le> bsd_total c)"
proof -
  define v where "v = (refreshLocalState h w)\<lparr>bw_resolver := bh_sockets h\<rparr>"
  define live where "live = hretain (\<lambda>_ a. now - fa_lastSeenMs a \<le> kFlowTtlMs) (bw_flows w)"
  have v: "bw_flows v = bw_flows w" by (simp add: v_def refreshLocalState_def Let_def)
  define all where "all = map (\<lambda>(_, a). flow_connection toStr (v\<lparr>bw_flows := live\<rparr>) a) live"
  have w': "bw_flows w' = live" "\<And>a. flow_connection toStr w' a = flow_connection toStr (v\<lparr>bw_flows := live\<rparr>) a"
    and out: "out = (if kSnapshotCap < length all then partial_sort bsd_louder kSnapshotCap all else all)"
    using assms unfolding emitSnapshot_def v_def [symmetric] Let_def v live_def [symmetric]
    by (auto simp: flow_cap_warned all_def split: if_splits)
  have all: "set all = (\<lambda>(k, a). flow_connection toStr w' a) ` set live" by (auto simp: all_def w'(2))
  have split: "set all = set (partial_sort bsd_louder kSnapshotCap all) \<union> set (drop kSnapshotCap (sort_by bsd_louder all))"
    using bsd_cap.split_mset [of kSnapshotCap all] by (metis set_mset_mset set_mset_union)
  have loud: "d \<in> set out \<or> bsd_total d \<le> bsd_total c" if "c \<in> set out" "d \<in> set all" for c d
    using that split bsd_cap.kept_heavier [of c kSnapshotCap all d] unfolding out by (cases "kSnapshotCap < length all") auto
  have "length out \<le> kSnapshotCap" "set out \<subseteq> set all"
    using bsd_cap.kept_length [of kSnapshotCap all] bsd_cap.kept_subset [of kSnapshotCap all] unfolding out by auto
  moreover have "\<forall>c \<in> set out. \<forall>(k, a) \<in> set live. flow_connection toStr w' a \<in> set out \<or> bsd_total (flow_connection toStr w' a) \<le> bsd_total c"
    using loud all by blast
  ultimately show ?thesis using all unfolding w'(1) live_def [symmetric] by simp
qed

definition sample_host :: BsdHost where
  "sample_host = \<lparr>bh_ifaddrs = Some [\<lparr>ifa_name = Some ''em0'', ifa_addr = Some (InetAddr 1 0), ifa_netmask = None, ifa_flags = 1, ifa_data = None\<rparr>],
     bh_portFirst = Some 49152, bh_portLast = None, bh_open = (\<lambda>_. Some (3, 1)), bh_ifIndex = (\<lambda>_. 1), bh_sockets = empty_resolver\<rparr>"

theorem bsd_snapshot_loudest_witness:
  "\<exists>out w'. emitSnapshot plain_addr sample_host 1000 (capture_all plain_addr
       [(\<lparr>ch_fd = 3, ch_datalink = 1, ch_iface = ''em0'', ch_ifIndex = 1\<rparr>, sample_packet, 60, 5)] mk_BsdWorker) = ([ConnectionsUpdated out], w') \<and>
     length out \<le> kSnapshotCap \<and> hsize (bw_flows w') = 1"
proof -
  define w where "w = capture_all plain_addr [(\<lparr>ch_fd = 3, ch_datalink = 1, ch_iface = ''em0'', ch_ifIndex = 1\<rparr>, sample_packet, 60, 5)] mk_BsdWorker"
  obtain out w' where e: "emitSnapshot plain_addr sample_host 1000 w = ([ConnectionsUpdated out], w')"
    by (simp add: emitSnapshot_def Let_def)
  have "\<exists>k a. bw_flows w = [(k, a)] \<and> fa_lastSeenMs a = 5"
    by (simp add: w_def capture_all_def account_packet_def mk_BsdWorker_def kMaxFlows_def Let_def case_prod_beta add_packet_def new_acc_def split: option.split)
  then have "hsize (hretain (\<lambda>_ a. 1000 - fa_lastSeenMs a \<le> kFlowTtlMs) (bw_flows w)) = 1" by (auto simp: kFlowTtlMs_def)
  then show ?thesis using bsd_snapshot_loudest [OF e] e unfolding w_def by auto
qed

section \<open>Attribution\<close>

text \<open>Every answer of the tables is an attribution that was entered for that key.\<close>

lemma enter_socket_origin:
  "hfind (br_exact (enter_socket toStr proto src dst attr r)) k = Some a \<Longrightarrow>
   a = attr \<and> k = flowKeyExact toStr proto (endpointFromSockaddr src) (endpointFromSockaddr dst) \<or> hfind (br_exact r) k = Some a"
  by (auto simp: enter_socket_def Let_def hfind_insert split: if_splits)

text \<open>The owner of the first socket with a local endpoint stays, also when another process has a socket there: unlike the Linux
  resolver the table has no mark for an ambiguous endpoint.\<close>

lemma local_fallback_first_owner:
  "hfind (br_local r) lk = Some a \<Longrightarrow> hfind (br_local (enter_socket toStr proto src dst attr r)) lk = Some a"
  by (auto simp: enter_socket_def Let_def hfind_insert)

lemma linux_marks_ambiguous:
  "hfind m lk = Some i \<Longrightarrow> i \<noteq> j \<Longrightarrow> hfind (insertLocalKey lk j m) lk = Some kAmbiguousLocalInode"
  by (simp add: insertLocalKey_def hfind_insert)

text \<open>Prefix lengths count the leading ones of the mask: at most the width of the address.\<close>

lemma leading_ones_le: "leading_ones n m \<le> n"
  by (induction n arbitrary: m) auto

lemma prefix_bounds: "leading_ones 32 (m :: 32 word) \<le> 32" "mask6_prefix m' \<le> 128"
proof -
  show "leading_ones 32 (m :: 32 word) \<le> 32" by (rule leading_ones_le)
  have "sum_list (map (\<lambda>i. leading_ones 8 (f i :: 8 word)) xs) \<le> 8 * length xs" for f :: "nat \<Rightarrow> 8 word" and xs
    using leading_ones_le [of 8] by (induction xs) (auto intro: add_mono)
  from this [of _ "[0..<16]"] show "mask6_prefix m' \<le> 128" by (simp add: mask6_prefix_def)
qed

text \<open>Every interface of a poll has its addresses from the same list, link-local ones left out.\<close>

lemma bsd_interface_addresses:
  "bsd_interface ntop h i = Some s \<Longrightarrow> if_addresses s = addrs_by_name ntop (host_list h) (if_name s)"
  by (auto simp: bsd_interface_def Let_def split: option.splits SockAddr.splits)

lemma bsd_poll_addresses:
  assumes "bsd_poll ntop h = Some out" and "s \<in> set out"
  shows "if_addresses s = addrs_by_name ntop (host_list h) (if_name s) \<and> [] \<notin> set (if_addresses s)"
proof -
  obtain x xs where "out = concat (map (\<lambda>i. case bsd_interface ntop h i of None \<Rightarrow> [] | Some s \<Rightarrow> [s]) (x # xs))"
    using assms(1) unfolding bsd_poll_def
    by (simp split: option.splits list.splits del: concat.simps list.map) (metis (no_types))
  then obtain i where "bsd_interface ntop h i = Some s" using assms(2) by (auto split: option.splits)
  then have "if_addresses s = addrs_by_name ntop (host_list h) (if_name s)" by (rule bsd_interface_addresses)
  then show ?thesis by (simp add: addrs_by_name_def)
qed

end
