(* ===== verification/DnsCache.thy ===== *)
theory DnsCache
  imports FlowTypes
begin

text \<open>
  \<open>dns/QtDnsResolver.cpp\<close>: reverse lookups with a bounded cache. \<open>QHostInfo\<close> is outside: starting a lookup gives an id that is
  not in use, and the answer arrives later with that id.
\<close>

section \<open>The resolver\<close>

record DnsEntry =
  de_name :: string
  de_ageMs :: int
  de_negative :: bool

record QtDnsResolver =
  dr_cache :: "(QHostAddress, DnsEntry) qhash"
  dr_order :: "QHostAddress list"
  dr_pendingById :: "(int, QHostAddress) qhash"
  dr_pendingAddrs :: "QHostAddress set"

definition dns_kMaxEntries :: nat where "dns_kMaxEntries = 4096"
definition kNegativeTtlMs :: int where "kNegativeTtlMs = 5 * 60 * 1000"

definition mk_QtDnsResolver :: QtDnsResolver where
  "mk_QtDnsResolver = \<lparr>dr_cache = [], dr_order = [], dr_pendingById = [], dr_pendingAddrs = {}\<rparr>"

definition cachedName :: "QtDnsResolver \<Rightarrow> QHostAddress \<Rightarrow> string" where
  "cachedName r addr = (case hfind (dr_cache r) addr of None \<Rightarrow> [] | Some e \<Rightarrow> de_name e)"

definition needs_lookup :: "int \<Rightarrow> QHostAddress \<Rightarrow> QtDnsResolver \<Rightarrow> bool" where
  "needs_lookup now addr r =
     (addr \<noteq> HostNull \<and> addr \<notin> dr_pendingAddrs r \<and>
      (case hfind (dr_cache r) addr of None \<Rightarrow> True | Some e \<Rightarrow> de_negative e \<and> \<not> now - de_ageMs e < kNegativeTtlMs))"

text \<open>The text that is looked up, if any; \<open>lookupId\<close> is what \<open>lookupHost\<close> returns then.\<close>

definition dns_resolve :: "(QHostAddress \<Rightarrow> string) \<Rightarrow> int \<Rightarrow> int \<Rightarrow> QHostAddress \<Rightarrow> QtDnsResolver \<Rightarrow> string option \<times> QtDnsResolver" where
  "dns_resolve toStr now lookupId addr r =
     (if needs_lookup now addr r
      then (Some (toStr addr), r\<lparr>dr_pendingAddrs := insert addr (dr_pendingAddrs r), dr_pendingById := hinsert lookupId addr (dr_pendingById r)\<rparr>)
      else (None, r))"

definition clearCache :: "QtDnsResolver \<Rightarrow> QtDnsResolver" where
  "clearCache r = r\<lparr>dr_cache := [], dr_order := []\<rparr>"

primrec drop_oldest :: "nat \<Rightarrow> QtDnsResolver \<Rightarrow> QtDnsResolver" where
  "drop_oldest 0 r = r"
| "drop_oldest (Suc n) r =
     (case dr_order r of [] \<Rightarrow> r | a # rest \<Rightarrow> drop_oldest n (r\<lparr>dr_cache := hremove a (dr_cache r), dr_order := rest\<rparr>))"

definition dns_store :: "int \<Rightarrow> QHostAddress \<Rightarrow> string \<Rightarrow> bool \<Rightarrow> QtDnsResolver \<Rightarrow> QtDnsResolver" where
  "dns_store now addr name negative r =
     (let r = (if hcontains (dr_cache r) addr then r else r\<lparr>dr_order := dr_order r @ [addr]\<rparr>);
          r = r\<lparr>dr_cache := hinsert addr \<lparr>de_name = name, de_ageMs = now, de_negative = negative\<rparr> (dr_cache r)\<rparr>
      in if dns_kMaxEntries < hsize (dr_cache r) then drop_oldest (max 1 (dns_kMaxEntries div 32)) r else r)"

record HostInfo =
  hi_lookupId :: int
  hi_hostName :: string
  hi_error :: bool

definition onLookupFinished :: "(QHostAddress \<Rightarrow> string) \<Rightarrow> int \<Rightarrow> HostInfo \<Rightarrow> QtDnsResolver \<Rightarrow> (QHostAddress \<times> string) option \<times> QtDnsResolver" where
  "onLookupFinished toStr now info r =
     (case hfind (dr_pendingById r) (hi_lookupId info) of
        None \<Rightarrow> (None, r)
      | Some addr \<Rightarrow>
          (let r = r\<lparr>dr_pendingById := hremove (hi_lookupId info) (dr_pendingById r), dr_pendingAddrs := dr_pendingAddrs r - {addr}\<rparr>;
               failed = (hi_error info \<or> hi_hostName info = [] \<or> hi_hostName info = toStr addr);
               name = (if failed then toStr addr else hi_hostName info)
           in (Some (addr, name), dns_store now addr name failed r)))"

section \<open>Histories\<close>

inductive dns_reachable :: "(QHostAddress \<Rightarrow> string) \<Rightarrow> QtDnsResolver \<Rightarrow> bool" for toStr where
  dns_new: "dns_reachable toStr mk_QtDnsResolver"
| dns_ask: "dns_reachable toStr r \<Longrightarrow> hfind (dr_pendingById r) lookupId = None \<Longrightarrow> dns_reachable toStr (snd (dns_resolve toStr now lookupId addr r))"
| dns_answer: "dns_reachable toStr r \<Longrightarrow> dns_reachable toStr (snd (onLookupFinished toStr now info r))"
| dns_clear: "dns_reachable toStr r \<Longrightarrow> dns_reachable toStr (clearCache r)"

definition cache_ok :: "QtDnsResolver \<Rightarrow> bool" where
  "cache_ok r = (hwf (dr_cache r) \<and> distinct (dr_order r) \<and> set (dr_order r) = fst ` set (dr_cache r) \<and> hsize (dr_cache r) = length (dr_order r))"

definition pending_ok :: "QtDnsResolver \<Rightarrow> bool" where
  "pending_ok r = (hwf (dr_pendingById r) \<and> distinct (map snd (dr_pendingById r)) \<and> dr_pendingAddrs r = snd ` set (dr_pendingById r) \<and>
     HostNull \<notin> dr_pendingAddrs r)"

lemma drop_oldest_ok:
  "cache_ok r \<Longrightarrow> cache_ok (drop_oldest n r) \<and> dr_order (drop_oldest n r) = drop n (dr_order r) \<and>
   dr_pendingById (drop_oldest n r) = dr_pendingById r \<and> dr_pendingAddrs (drop_oldest n r) = dr_pendingAddrs r"
proof (induction n arbitrary: r)
  case (Suc n)
  show ?case
  proof (cases "dr_order r")
    case (Cons a rest)
    let ?r = "r\<lparr>dr_cache := hremove a (dr_cache r), dr_order := rest\<rparr>"
    have "hcontains (dr_cache r) a" using Suc.prems Cons by (auto simp: cache_ok_def hfind_None_iff)
    moreover have "hwf (dr_cache r)" using Suc.prems by (simp add: cache_ok_def)
    ultimately have "Suc (hsize (hremove a (dr_cache r))) = hsize (dr_cache r)" by (intro hsize_remove)
    then have "cache_ok ?r" using Suc.prems Cons by (auto simp: cache_ok_def hremove_keys)
    from Suc.IH [OF this] show ?thesis by (simp add: Cons)
  qed (use Suc.prems in simp)
qed simp

lemma store_ok:
  assumes "cache_ok r" and "hsize (dr_cache r) \<le> dns_kMaxEntries"
  shows "cache_ok (dns_store now addr name neg r) \<and> hsize (dr_cache (dns_store now addr name neg r)) \<le> dns_kMaxEntries \<and>
    dr_pendingById (dns_store now addr name neg r) = dr_pendingById r \<and> dr_pendingAddrs (dns_store now addr name neg r) = dr_pendingAddrs r"
proof -
  define s where "s = (if hcontains (dr_cache r) addr then r else r\<lparr>dr_order := dr_order r @ [addr]\<rparr>)"
  define t where "t = s\<lparr>dr_cache := hinsert addr \<lparr>de_name = name, de_ageMs = now, de_negative = neg\<rparr> (dr_cache s)\<rparr>"
  have t: "cache_ok t" "dr_pendingById t = dr_pendingById r" "dr_pendingAddrs t = dr_pendingAddrs r"
    using assms(1) by (auto simp: t_def s_def cache_ok_def hinsert_keys hsize_insert hfind_None_iff)
  note D = drop_oldest_ok [OF t(1), of "max 1 (dns_kMaxEntries div 32)"]
  have "hsize (dr_cache t) \<le> Suc dns_kMaxEntries" using assms(2) by (simp add: t_def s_def hsize_insert)
  then have "hsize (dr_cache (drop_oldest (max 1 (dns_kMaxEntries div 32)) t)) \<le> dns_kMaxEntries"
    using D t(1) by (simp add: cache_ok_def dns_kMaxEntries_def)
  moreover have "dns_store now addr name neg r = (if dns_kMaxEntries < hsize (dr_cache t) then drop_oldest (max 1 (dns_kMaxEntries div 32)) t else t)"
    by (simp add: dns_store_def Let_def t_def s_def)
  ultimately show ?thesis using D t by auto
qed

lemma hremove_values: "hwf m \<Longrightarrow> distinct (map snd m) \<Longrightarrow> hfind m k = Some a \<Longrightarrow>
  snd ` set (hremove k m) = snd ` set m - {a} \<and> distinct (map snd (hremove k m))"
proof (induction m)
  case (Cons e m)
  show ?case
  proof (cases "fst e = k")
    case True
    then have "hremove k m = m" using Cons.prems(1) by (intro hremove_absent) (auto simp: hwf_def map_of_eq_None_iff)
    then show ?thesis using Cons.prems True by (cases e) auto
  next
    case False
    then have "hfind m k = Some a" using Cons.prems(3) by (cases e) auto
    moreover from this have "a \<in> snd ` set m" by (force dest: map_of_SomeD)
    ultimately show ?thesis using Cons False by (cases e) (auto simp: hwf_def)
  qed
qed simp

lemma hinsert_fresh: "hfind m k = None \<Longrightarrow> hinsert k v m = m @ [(k, v)]"
  by (induction m) (auto split: if_splits)

lemma dns_ok: "dns_reachable toStr r \<Longrightarrow> cache_ok r \<and> hsize (dr_cache r) \<le> dns_kMaxEntries \<and> pending_ok r"
proof (induction rule: dns_reachable.induct)
  case dns_new
  then show ?case by (simp add: mk_QtDnsResolver_def cache_ok_def pending_ok_def)
next
  case (dns_ask r lookupId now addr)
  then show ?case by (auto simp: dns_resolve_def needs_lookup_def cache_ok_def pending_ok_def hinsert_fresh hwf_def hfind_None_iff)
next
  case (dns_answer r now info)
  show ?case
  proof (cases "hfind (dr_pendingById r) (hi_lookupId info)")
    case (Some addr)
    let ?r = "r\<lparr>dr_pendingById := hremove (hi_lookupId info) (dr_pendingById r), dr_pendingAddrs := dr_pendingAddrs r - {addr}\<rparr>"
    have c: "cache_ok ?r" "hsize (dr_cache ?r) \<le> dns_kMaxEntries" using dns_answer.IH by (simp_all add: cache_ok_def)
    have "pending_ok ?r" using dns_answer.IH hremove_values [OF _ _ Some] by (auto simp: pending_ok_def)
    moreover have "pending_ok (dns_store now addr name failed ?r) = pending_ok ?r" for name failed
      using store_ok [OF c, of now addr name failed] by (simp add: pending_ok_def)
    ultimately show ?thesis using store_ok [OF c] Some by (simp add: onLookupFinished_def Let_def)
  qed (use dns_answer.IH in \<open>simp add: onLookupFinished_def\<close>)
next
  case (dns_clear r)
  then show ?case by (auto simp: clearCache_def cache_ok_def pending_ok_def)
qed

text \<open>After any sequence of requests, answers and clears the cache has at most 4096 names, the eviction order lists exactly the
  cached addresses, each once, and every address has at most one lookup under way; a new lookup is started exactly for an address
  that is neither under way nor cached, or whose failure is older than five minutes.\<close>

theorem dns_resolver_bounded:
  assumes "dns_reachable toStr r"
  shows "hsize (dr_cache r) \<le> 4096 \<and> distinct (dr_order r) \<and> set (dr_order r) = fst ` set (dr_cache r) \<and>
    distinct (map snd (dr_pendingById r)) \<and>
    (fst (dns_resolve toStr now lookupId addr r) \<noteq> None \<longleftrightarrow>
       addr \<noteq> HostNull \<and> addr \<notin> snd ` set (dr_pendingById r) \<and>
       (\<forall>e. hfind (dr_cache r) addr = Some e \<longrightarrow> de_negative e \<and> kNegativeTtlMs \<le> now - de_ageMs e))"
  using dns_ok [OF assms] by (auto simp: cache_ok_def pending_ok_def dns_kMaxEntries_def dns_resolve_def needs_lookup_def split: option.splits)

theorem dns_resolver_bounded_witness:
  "let r = snd (dns_resolve plain_addr 0 7 (HostV4 1) mk_QtDnsResolver)
   in hsize (dr_cache r) \<le> 4096 \<and> distinct (map snd (dr_pendingById r)) \<and> fst (dns_resolve plain_addr 0 8 (HostV4 1) r) = None"
proof -
  have f: "hfind (dr_pendingById mk_QtDnsResolver) 7 = None" by (simp add: mk_QtDnsResolver_def)
  have p: "HostV4 1 \<in> snd ` set (dr_pendingById (snd (dns_resolve plain_addr 0 7 (HostV4 1) mk_QtDnsResolver)))"
    by (simp add: dns_resolve_def needs_lookup_def mk_QtDnsResolver_def)
  show ?thesis unfolding Let_def using dns_resolver_bounded [OF dns_ask [OF dns_new f], of plain_addr 0 "HostV4 1" 0 8 "HostV4 1"] p by blast
qed

text \<open>An address whose failure is looked up again keeps its place in the eviction order.\<close>

lemma restore_keeps_order:
  "hcontains (dr_cache r) addr \<Longrightarrow> hsize (dr_cache r) \<le> dns_kMaxEntries \<Longrightarrow> dr_order (dns_store now addr name neg r) = dr_order r"
  by (auto simp: dns_store_def Let_def hsize_insert)

text \<open>A name that was answered is served until it is evicted or cleared, and answers of other addresses do not change it.\<close>

lemma answered_name_served:
  assumes "cache_ok r" and "hsize (dr_cache r) < dns_kMaxEntries"
  shows "cachedName (dns_store now addr name neg r) a = (if a = addr then name else cachedName r a)"
proof -
  have "\<not> dns_kMaxEntries < hsize (hinsert addr e (dr_cache r))" for e using assms(2) by (simp add: hsize_insert)
  then show ?thesis by (simp add: dns_store_def Let_def cachedName_def hfind_insert)
qed

end
