(* ===== verification/UserSettings.thy ===== *)
theory UserSettings
  imports Store GroupProxy Aggregator
begin

text \<open>
  \<open>config/Settings.cpp\<close>: the preferences of the window, each setter writing through to the settings file, and
  \<open>util/Autostart.cpp\<close>, the desktop entry that starts the program at login.

  The preferences are one record; the object also has the file and whether it may be written. A setter returns whether it
  emitted \<open>changed\<close>.
\<close>

section \<open>Preferences\<close>

record Prefs =
  up_pollIntervalMs :: int
  up_showLoopback :: bool
  up_showDown :: bool
  up_ipv6Enabled :: bool
  up_resolveHostnames :: bool
  up_closeToTray :: bool
  up_trayInterfaces :: "string list"
  up_connVisibleIfaces :: "string list"
  up_connStaleRetentionSecs :: int
  up_connStaleRetentionSecsUdp :: int
  up_udpAggregateByPeer :: bool
  up_resolveIfaceAddrsAsLocalhost :: bool
  up_colorCodeConnectionFlow :: bool
  up_tintRowByDirection :: bool
  up_showTcp :: bool
  up_showUdp :: bool
  up_throughputGaugeEnabled :: bool
  up_interfaceGaugeEnabled :: bool
  up_throughputMaxMode :: int
  up_throughputWindowSecs :: int
  up_rateSmoothingMs :: int
  up_showStatusInTitle :: bool
  up_connFilterExpr :: string
  up_guiThemeName :: string
  up_attributionEagerness :: string
  up_connViewMode :: ViewMode
  up_showProcessColumn :: bool
  up_showContainerColumn :: bool
  up_showContainerChainInTooltip :: bool
  up_showGroupHeaderDetails :: bool
  up_sortWithinGroups :: bool
  up_chipColorPrimary :: string
  up_chipColorUser :: string
  up_chipColorId :: string
  up_chipColorDetail :: string

record Settings =
  us_prefs :: Prefs
  us_ini :: Ini
  us_persist :: bool

definition default_prefs :: Prefs where
  "default_prefs =
     \<lparr>up_pollIntervalMs = 1000,
      up_showLoopback = False,
      up_showDown = True,
      up_ipv6Enabled = True,
      up_resolveHostnames = False,
      up_closeToTray = True,
      up_trayInterfaces = [],
      up_connVisibleIfaces = [],
      up_connStaleRetentionSecs = 15,
      up_connStaleRetentionSecsUdp = 60,
      up_udpAggregateByPeer = True,
      up_resolveIfaceAddrsAsLocalhost = True,
      up_colorCodeConnectionFlow = True,
      up_tintRowByDirection = False,
      up_showTcp = True,
      up_showUdp = True,
      up_throughputGaugeEnabled = False,
      up_interfaceGaugeEnabled = True,
      up_throughputMaxMode = 0,
      up_throughputWindowSecs = 30,
      up_rateSmoothingMs = 0,
      up_showStatusInTitle = False,
      up_connFilterExpr = [],
      up_guiThemeName = ''System'',
      up_attributionEagerness = [],
      up_connViewMode = Flat,
      up_showProcessColumn = True,
      up_showContainerColumn = True,
      up_showContainerChainInTooltip = True,
      up_showGroupHeaderDetails = True,
      up_sortWithinGroups = True,
      up_chipColorPrimary = ''#b58bff'',
      up_chipColorUser = ''#5fd0c5'',
      up_chipColorId = ''#e08ab8'',
      up_chipColorDetail = ''#9aa0a6''\<rparr>"

fun ViewMode_num :: "ViewMode \<Rightarrow> int" where
  "ViewMode_num Flat = 0"
| "ViewMode_num ByInterface = 1"
| "ViewMode_num ByContainer = 2"
| "ViewMode_num ByProcess = 3"

definition ViewMode_of :: "int \<Rightarrow> ViewMode" where
  "ViewMode_of n = (if n = 0 then Flat else if n = 1 then ByInterface else if n = 2 then ByContainer else ByProcess)"

fun MaxMode_num :: "ThroughputMaxMode \<Rightarrow> int" where
  "MaxMode_num Windowed = 0"
| "MaxMode_num CumulativeAverage = 1"

definition rx_hex :: "char \<Rightarrow> bool" where
  "rx_hex c = (is_digit c \<or> c \<in> set ''abcdefABCDEF'')"

text \<open>The dollar sign of a regular expression also matches before a final newline.\<close>

definition isHexColor :: "string \<Rightarrow> bool" where
  "isHexColor s =
     (case s of
        [] \<Rightarrow> False
      | c # cs \<Rightarrow>
          (let ds = (if cs \<noteq> [] \<and> last cs = CHR 0x0A then butlast cs else cs)
           in c = CHR ''#'' \<and> length ds \<in> {3, 6, 8} \<and> list_all rx_hex ds))"

text \<open>An \<open>int\<close> product, as two's complement hardware computes it.\<close>

definition times1000 :: "int \<Rightarrow> int" where
  "times1000 n = sint (word_of_int (n * 1000) :: 32 word)"

definition kRateSmoothingMs :: string where "kRateSmoothingMs = ''display/rateSmoothingMs''"
definition kRateSmoothingSecsLegacy :: string where "kRateSmoothingSecsLegacy = ''display/rateSmoothingSecs''"

definition read_smoothing :: "Ini \<Rightarrow> int" where
  "read_smoothing ini =
     (let ms = ini_int toInt ini kRateSmoothingMs (up_rateSmoothingMs default_prefs);
          legacy = toInt (ini_toString ini kRateSmoothingSecsLegacy [])
      in if ms = 0 \<and> ini kRateSmoothingSecsLegacy \<noteq> None \<and> 0 < legacy then times1000 legacy else ms)"

definition read_viewMode :: "Ini \<Rightarrow> ViewMode" where
  "read_viewMode ini =
     (let mode = ini_int toInt ini ''connections/viewMode'' (ViewMode_num Flat)
      in if 0 \<le> mode \<and> mode \<le> ViewMode_num ByProcess then ViewMode_of mode else Flat)"

definition loadColor :: "Ini \<Rightarrow> string \<Rightarrow> string \<Rightarrow> string" where
  "loadColor ini key dflt = (let s = ini_toString ini key dflt in if isHexColor s then s else dflt)"

definition read_prefs :: "Ini \<Rightarrow> Prefs" where
  "read_prefs ini =
     \<lparr>up_pollIntervalMs = ini_int toInt ini ''monitor/pollIntervalMs'' (up_pollIntervalMs default_prefs),
      up_showLoopback = ini_bool ini ''display/showLoopback'' (up_showLoopback default_prefs),
      up_showDown = ini_bool ini ''display/showDown'' (up_showDown default_prefs),
      up_ipv6Enabled = ini_bool ini ''network/ipv6Enabled'' (up_ipv6Enabled default_prefs),
      up_resolveHostnames = ini_bool ini ''dns/resolveHostnames'' (up_resolveHostnames default_prefs),
      up_closeToTray = ini_bool ini ''tray/closeToTray'' (up_closeToTray default_prefs),
      up_trayInterfaces = ini_list ini ''tray/interfaces'' (up_trayInterfaces default_prefs),
      up_connVisibleIfaces = ini_list ini ''connections/visibleIfaces'' (up_connVisibleIfaces default_prefs),
      up_connStaleRetentionSecs = ini_int toInt ini ''connections/staleRetentionSecs'' (up_connStaleRetentionSecs default_prefs),
      up_connStaleRetentionSecsUdp = ini_int toInt ini ''connections/staleRetentionSecsUdp'' (up_connStaleRetentionSecsUdp default_prefs),
      up_udpAggregateByPeer = ini_bool ini ''connections/udpAggregateByPeer'' (up_udpAggregateByPeer default_prefs),
      up_resolveIfaceAddrsAsLocalhost = ini_bool ini ''dns/resolveIfaceAddrsAsLocalhost'' (up_resolveIfaceAddrsAsLocalhost default_prefs),
      up_colorCodeConnectionFlow = ini_bool ini ''display/colorCodeConnectionFlow'' (up_colorCodeConnectionFlow default_prefs),
      up_tintRowByDirection = ini_bool ini ''display/tintRowByDirection'' (up_tintRowByDirection default_prefs),
      up_showTcp = ini_bool ini ''display/showTcp'' (up_showTcp default_prefs),
      up_showUdp = ini_bool ini ''display/showUdp'' (up_showUdp default_prefs),
      up_throughputGaugeEnabled = ini_bool ini ''display/throughputGaugeEnabled'' (up_throughputGaugeEnabled default_prefs),
      up_interfaceGaugeEnabled = ini_bool ini ''display/interfaceGaugeEnabled'' (up_interfaceGaugeEnabled default_prefs),
      up_throughputMaxMode = ini_int toInt ini ''display/throughputMaxMode'' (up_throughputMaxMode default_prefs),
      up_throughputWindowSecs = ini_int toInt ini ''display/throughputWindowSecs'' (up_throughputWindowSecs default_prefs),
      up_rateSmoothingMs = read_smoothing ini,
      up_showStatusInTitle = ini_bool ini ''display/showStatusInTitle'' (up_showStatusInTitle default_prefs),
      up_connFilterExpr = ini_toString ini ''connections/filterExpr'' (up_connFilterExpr default_prefs),
      up_guiThemeName = ini_toString ini ''display/guiTheme'' (up_guiThemeName default_prefs),
      up_attributionEagerness = ini_toString ini ''monitoring/attributionEagerness'' (up_attributionEagerness default_prefs),
      up_connViewMode = read_viewMode ini,
      up_showProcessColumn = ini_bool ini ''connections/showProcessColumn'' (up_showProcessColumn default_prefs),
      up_showContainerColumn = ini_bool ini ''connections/showContainerColumn'' (up_showContainerColumn default_prefs),
      up_showContainerChainInTooltip = ini_bool ini ''connections/showContainerChainInTooltip'' (up_showContainerChainInTooltip default_prefs),
      up_showGroupHeaderDetails = ini_bool ini ''connections/showGroupHeaderDetails'' (up_showGroupHeaderDetails default_prefs),
      up_sortWithinGroups = ini_bool ini ''connections/sortWithinGroups'' (up_sortWithinGroups default_prefs),
      up_chipColorPrimary = loadColor ini ''connections/chipColorPrimary'' (up_chipColorPrimary default_prefs),
      up_chipColorUser = loadColor ini ''connections/chipColorUser'' (up_chipColorUser default_prefs),
      up_chipColorId = loadColor ini ''connections/chipColorId'' (up_chipColorId default_prefs),
      up_chipColorDetail = loadColor ini ''connections/chipColorDetail'' (up_chipColorDetail default_prefs)\<rparr>"

text \<open>The migration of the old key rewrites the file only when that is allowed.\<close>

definition migrate :: "Ini \<Rightarrow> Ini" where
  "migrate ini =
     (if ini_int toInt ini kRateSmoothingMs (up_rateSmoothingMs default_prefs) = 0 \<and> ini kRateSmoothingSecsLegacy \<noteq> None
      then (if 0 < toInt (ini_toString ini kRateSmoothingSecsLegacy []) then put_int kRateSmoothingMs (read_smoothing ini) ini else ini)
        (kRateSmoothingSecsLegacy := None)
      else ini)"

definition load_Settings :: "bool \<Rightarrow> Ini \<Rightarrow> Settings" where
  "load_Settings wouldEscalate ini =
     \<lparr>us_prefs = read_prefs ini, us_ini = (if wouldEscalate then ini else migrate ini), us_persist = (\<not> wouldEscalate)\<rparr>"

section \<open>Setters\<close>

definition us_store :: "(Ini \<Rightarrow> Ini) \<Rightarrow> Settings \<Rightarrow> Settings" where
  "us_store put s = (if us_persist s then s\<lparr>us_ini := put (us_ini s)\<rparr> else s)"

definition write_through :: "bool \<Rightarrow> (Prefs \<Rightarrow> Prefs) \<Rightarrow> (Ini \<Rightarrow> Ini) \<Rightarrow> Settings \<Rightarrow> bool \<times> Settings" where
  "write_through unchanged upd put s =
     (if unchanged then (False, s) else (True, us_store put (s\<lparr>us_prefs := upd (us_prefs s)\<rparr>)))"

definition qBound :: "int \<Rightarrow> int \<Rightarrow> int \<Rightarrow> int" where
  "qBound lo v hi = max lo (min hi v)"

definition setPollIntervalMs :: "int \<Rightarrow> Settings \<Rightarrow> bool \<times> Settings" where
  "setPollIntervalMs v s =
     (let v = qBound 100 v 60000
      in write_through (v = up_pollIntervalMs (us_prefs s)) (\<lambda>p. p\<lparr>up_pollIntervalMs := v\<rparr>) (put_int ''monitor/pollIntervalMs'' v) s)"

definition setShowLoopback :: "bool \<Rightarrow> Settings \<Rightarrow> bool \<times> Settings" where
  "setShowLoopback v s = write_through (v = up_showLoopback (us_prefs s)) (\<lambda>p. p\<lparr>up_showLoopback := v\<rparr>) (put_bool ''display/showLoopback'' v) s"

definition setShowDown :: "bool \<Rightarrow> Settings \<Rightarrow> bool \<times> Settings" where
  "setShowDown v s = write_through (v = up_showDown (us_prefs s)) (\<lambda>p. p\<lparr>up_showDown := v\<rparr>) (put_bool ''display/showDown'' v) s"

definition setIpv6Enabled :: "bool \<Rightarrow> Settings \<Rightarrow> bool \<times> Settings" where
  "setIpv6Enabled v s = write_through (v = up_ipv6Enabled (us_prefs s)) (\<lambda>p. p\<lparr>up_ipv6Enabled := v\<rparr>) (put_bool ''network/ipv6Enabled'' v) s"

definition setResolveHostnames :: "bool \<Rightarrow> Settings \<Rightarrow> bool \<times> Settings" where
  "setResolveHostnames v s = write_through (v = up_resolveHostnames (us_prefs s)) (\<lambda>p. p\<lparr>up_resolveHostnames := v\<rparr>) (put_bool ''dns/resolveHostnames'' v) s"

definition setCloseToTray :: "bool \<Rightarrow> Settings \<Rightarrow> bool \<times> Settings" where
  "setCloseToTray v s = write_through (v = up_closeToTray (us_prefs s)) (\<lambda>p. p\<lparr>up_closeToTray := v\<rparr>) (put_bool ''tray/closeToTray'' v) s"

definition setTrayInterfaces :: "string list \<Rightarrow> Settings \<Rightarrow> bool \<times> Settings" where
  "setTrayInterfaces v s = write_through (v = up_trayInterfaces (us_prefs s)) (\<lambda>p. p\<lparr>up_trayInterfaces := v\<rparr>) (put_list ''tray/interfaces'' v) s"

definition setConnectionVisibleIfaces :: "string list \<Rightarrow> Settings \<Rightarrow> bool \<times> Settings" where
  "setConnectionVisibleIfaces v s = write_through (v = up_connVisibleIfaces (us_prefs s)) (\<lambda>p. p\<lparr>up_connVisibleIfaces := v\<rparr>) (put_list ''connections/visibleIfaces'' v) s"

definition setConnectionVisibleIfacesTransient :: "string list \<Rightarrow> Settings \<Rightarrow> bool \<times> Settings" where
  "setConnectionVisibleIfacesTransient v s =
     (if v = up_connVisibleIfaces (us_prefs s) then (False, s) else (True, s\<lparr>us_prefs := (us_prefs s)\<lparr>up_connVisibleIfaces := v\<rparr>\<rparr>))"

definition setConnectionStaleRetentionSecs :: "int \<Rightarrow> Settings \<Rightarrow> bool \<times> Settings" where
  "setConnectionStaleRetentionSecs v s =
     (let v = qBound 0 v 600
      in write_through (v = up_connStaleRetentionSecs (us_prefs s)) (\<lambda>p. p\<lparr>up_connStaleRetentionSecs := v\<rparr>) (put_int ''connections/staleRetentionSecs'' v) s)"

definition setConnectionStaleRetentionSecsUdp :: "int \<Rightarrow> Settings \<Rightarrow> bool \<times> Settings" where
  "setConnectionStaleRetentionSecsUdp v s =
     (let v = qBound 0 v 600
      in write_through (v = up_connStaleRetentionSecsUdp (us_prefs s)) (\<lambda>p. p\<lparr>up_connStaleRetentionSecsUdp := v\<rparr>) (put_int ''connections/staleRetentionSecsUdp'' v) s)"

definition setUdpAggregateByPeer :: "bool \<Rightarrow> Settings \<Rightarrow> bool \<times> Settings" where
  "setUdpAggregateByPeer v s = write_through (v = up_udpAggregateByPeer (us_prefs s)) (\<lambda>p. p\<lparr>up_udpAggregateByPeer := v\<rparr>) (put_bool ''connections/udpAggregateByPeer'' v) s"

definition setResolveIfaceAddrsAsLocalhost :: "bool \<Rightarrow> Settings \<Rightarrow> bool \<times> Settings" where
  "setResolveIfaceAddrsAsLocalhost v s = write_through (v = up_resolveIfaceAddrsAsLocalhost (us_prefs s)) (\<lambda>p. p\<lparr>up_resolveIfaceAddrsAsLocalhost := v\<rparr>) (put_bool ''dns/resolveIfaceAddrsAsLocalhost'' v) s"

definition setColorCodeConnectionFlow :: "bool \<Rightarrow> Settings \<Rightarrow> bool \<times> Settings" where
  "setColorCodeConnectionFlow v s = write_through (v = up_colorCodeConnectionFlow (us_prefs s)) (\<lambda>p. p\<lparr>up_colorCodeConnectionFlow := v\<rparr>) (put_bool ''display/colorCodeConnectionFlow'' v) s"

definition setTintRowByDirection :: "bool \<Rightarrow> Settings \<Rightarrow> bool \<times> Settings" where
  "setTintRowByDirection v s = write_through (v = up_tintRowByDirection (us_prefs s)) (\<lambda>p. p\<lparr>up_tintRowByDirection := v\<rparr>) (put_bool ''display/tintRowByDirection'' v) s"

definition setShowTcp :: "bool \<Rightarrow> Settings \<Rightarrow> bool \<times> Settings" where
  "setShowTcp v s = write_through (v = up_showTcp (us_prefs s)) (\<lambda>p. p\<lparr>up_showTcp := v\<rparr>) (put_bool ''display/showTcp'' v) s"

definition setShowUdp :: "bool \<Rightarrow> Settings \<Rightarrow> bool \<times> Settings" where
  "setShowUdp v s = write_through (v = up_showUdp (us_prefs s)) (\<lambda>p. p\<lparr>up_showUdp := v\<rparr>) (put_bool ''display/showUdp'' v) s"

definition setThroughputGaugeEnabled :: "bool \<Rightarrow> Settings \<Rightarrow> bool \<times> Settings" where
  "setThroughputGaugeEnabled v s = write_through (v = up_throughputGaugeEnabled (us_prefs s)) (\<lambda>p. p\<lparr>up_throughputGaugeEnabled := v\<rparr>) (put_bool ''display/throughputGaugeEnabled'' v) s"

definition setInterfaceGaugeEnabled :: "bool \<Rightarrow> Settings \<Rightarrow> bool \<times> Settings" where
  "setInterfaceGaugeEnabled v s = write_through (v = up_interfaceGaugeEnabled (us_prefs s)) (\<lambda>p. p\<lparr>up_interfaceGaugeEnabled := v\<rparr>) (put_bool ''display/interfaceGaugeEnabled'' v) s"

definition setThroughputMaxMode :: "ThroughputMaxMode \<Rightarrow> Settings \<Rightarrow> bool \<times> Settings" where
  "setThroughputMaxMode m s =
     (let v = MaxMode_num m
      in write_through (v = up_throughputMaxMode (us_prefs s)) (\<lambda>p. p\<lparr>up_throughputMaxMode := v\<rparr>) (put_int ''display/throughputMaxMode'' v) s)"

definition setThroughputWindowSecs :: "int \<Rightarrow> Settings \<Rightarrow> bool \<times> Settings" where
  "setThroughputWindowSecs v s =
     (let v = qBound 2 v 3600
      in write_through (v = up_throughputWindowSecs (us_prefs s)) (\<lambda>p. p\<lparr>up_throughputWindowSecs := v\<rparr>) (put_int ''display/throughputWindowSecs'' v) s)"

definition setRateSmoothingMs :: "int \<Rightarrow> Settings \<Rightarrow> bool \<times> Settings" where
  "setRateSmoothingMs v s =
     (let v = qBound 0 v 60000
      in write_through (v = up_rateSmoothingMs (us_prefs s)) (\<lambda>p. p\<lparr>up_rateSmoothingMs := v\<rparr>) (put_int ''display/rateSmoothingMs'' v) s)"

definition setShowStatusInTitle :: "bool \<Rightarrow> Settings \<Rightarrow> bool \<times> Settings" where
  "setShowStatusInTitle v s = write_through (v = up_showStatusInTitle (us_prefs s)) (\<lambda>p. p\<lparr>up_showStatusInTitle := v\<rparr>) (put_bool ''display/showStatusInTitle'' v) s"

definition setConnectionFilterExpr :: "string \<Rightarrow> Settings \<Rightarrow> bool \<times> Settings" where
  "setConnectionFilterExpr v s = write_through (v = up_connFilterExpr (us_prefs s)) (\<lambda>p. p\<lparr>up_connFilterExpr := v\<rparr>) (put_string ''connections/filterExpr'' v) s"

definition setGuiThemeName :: "string \<Rightarrow> Settings \<Rightarrow> bool \<times> Settings" where
  "setGuiThemeName v s = write_through (v = up_guiThemeName (us_prefs s)) (\<lambda>p. p\<lparr>up_guiThemeName := v\<rparr>) (put_string ''display/guiTheme'' v) s"

definition setAttributionEagerness :: "string \<Rightarrow> Settings \<Rightarrow> bool \<times> Settings" where
  "setAttributionEagerness v s = write_through (v = up_attributionEagerness (us_prefs s)) (\<lambda>p. p\<lparr>up_attributionEagerness := v\<rparr>) (put_string ''monitoring/attributionEagerness'' v) s"

definition setConnectionViewMode :: "ViewMode \<Rightarrow> Settings \<Rightarrow> bool \<times> Settings" where
  "setConnectionViewMode v s = write_through (v = up_connViewMode (us_prefs s)) (\<lambda>p. p\<lparr>up_connViewMode := v\<rparr>) (put_int ''connections/viewMode'' (ViewMode_num v)) s"

definition setShowProcessColumn :: "bool \<Rightarrow> Settings \<Rightarrow> bool \<times> Settings" where
  "setShowProcessColumn v s = write_through (v = up_showProcessColumn (us_prefs s)) (\<lambda>p. p\<lparr>up_showProcessColumn := v\<rparr>) (put_bool ''connections/showProcessColumn'' v) s"

definition setShowContainerColumn :: "bool \<Rightarrow> Settings \<Rightarrow> bool \<times> Settings" where
  "setShowContainerColumn v s = write_through (v = up_showContainerColumn (us_prefs s)) (\<lambda>p. p\<lparr>up_showContainerColumn := v\<rparr>) (put_bool ''connections/showContainerColumn'' v) s"

definition setShowContainerChainInTooltip :: "bool \<Rightarrow> Settings \<Rightarrow> bool \<times> Settings" where
  "setShowContainerChainInTooltip v s = write_through (v = up_showContainerChainInTooltip (us_prefs s)) (\<lambda>p. p\<lparr>up_showContainerChainInTooltip := v\<rparr>) (put_bool ''connections/showContainerChainInTooltip'' v) s"

definition setShowGroupHeaderDetails :: "bool \<Rightarrow> Settings \<Rightarrow> bool \<times> Settings" where
  "setShowGroupHeaderDetails v s = write_through (v = up_showGroupHeaderDetails (us_prefs s)) (\<lambda>p. p\<lparr>up_showGroupHeaderDetails := v\<rparr>) (put_bool ''connections/showGroupHeaderDetails'' v) s"

definition setSortWithinGroups_pref :: "bool \<Rightarrow> Settings \<Rightarrow> bool \<times> Settings" where
  "setSortWithinGroups_pref v s = write_through (v = up_sortWithinGroups (us_prefs s)) (\<lambda>p. p\<lparr>up_sortWithinGroups := v\<rparr>) (put_bool ''connections/sortWithinGroups'' v) s"

definition setChipColorPrimary :: "string \<Rightarrow> Settings \<Rightarrow> bool \<times> Settings" where
  "setChipColorPrimary hex s =
     write_through (\<not> isHexColor hex \<or> hex = up_chipColorPrimary (us_prefs s)) (\<lambda>p. p\<lparr>up_chipColorPrimary := hex\<rparr>) (put_string ''connections/chipColorPrimary'' hex) s"

definition setChipColorUser :: "string \<Rightarrow> Settings \<Rightarrow> bool \<times> Settings" where
  "setChipColorUser hex s =
     write_through (\<not> isHexColor hex \<or> hex = up_chipColorUser (us_prefs s)) (\<lambda>p. p\<lparr>up_chipColorUser := hex\<rparr>) (put_string ''connections/chipColorUser'' hex) s"

definition setChipColorId :: "string \<Rightarrow> Settings \<Rightarrow> bool \<times> Settings" where
  "setChipColorId hex s =
     write_through (\<not> isHexColor hex \<or> hex = up_chipColorId (us_prefs s)) (\<lambda>p. p\<lparr>up_chipColorId := hex\<rparr>) (put_string ''connections/chipColorId'' hex) s"

definition setChipColorDetail :: "string \<Rightarrow> Settings \<Rightarrow> bool \<times> Settings" where
  "setChipColorDetail hex s =
     write_through (\<not> isHexColor hex \<or> hex = up_chipColorDetail (us_prefs s)) (\<lambda>p. p\<lparr>up_chipColorDetail := hex\<rparr>) (put_string ''connections/chipColorDetail'' hex) s"

definition resetChipColors :: "Settings \<Rightarrow> bool \<times> Settings" where
  "resetChipColors s =
     (let d = default_prefs;
          s = s\<lparr>us_prefs := (us_prefs s)\<lparr>up_chipColorPrimary := up_chipColorPrimary d, up_chipColorUser := up_chipColorUser d,
                 up_chipColorId := up_chipColorId d, up_chipColorDetail := up_chipColorDetail d\<rparr>\<rparr>
      in (True, us_store (put_string ''connections/chipColorDetail'' (up_chipColorDetail d))
           (us_store (put_string ''connections/chipColorId'' (up_chipColorId d))
             (us_store (put_string ''connections/chipColorUser'' (up_chipColorUser d))
               (us_store (put_string ''connections/chipColorPrimary'' (up_chipColorPrimary d)) s)))))"

section \<open>Start at login\<close>

text \<open>The desktop entry as the keys and values of its group, if the file exists. The host says whether removing the file,
  creating the directory and opening the file succeed, and where the program is.\<close>

record AutoHost =
  au_remove :: bool
  au_mkpath :: bool
  au_open :: bool
  au_exec :: string

definition entry_value :: "(string \<times> string) list \<Rightarrow> string \<Rightarrow> bool \<Rightarrow> bool" where
  "entry_value entry key dflt = (case map_of entry key of None \<Rightarrow> dflt | Some v \<Rightarrow> q_toBool v)"

definition autostart_isEnabled :: "(string \<times> string) list option \<Rightarrow> bool" where
  "autostart_isEnabled file =
     (case file of
        None \<Rightarrow> False
      | Some entry \<Rightarrow> \<not> entry_value entry ''Hidden'' False \<and> entry_value entry ''X-GNOME-Autostart-enabled'' True)"

definition desktop_entry :: "string \<Rightarrow> (string \<times> string) list" where
  "desktop_entry exec =
     [(''Type'', ''Application''), (''Name'', ''qiftop''), (''Comment'', ''Qt6 iftop-style network monitor''), (''Exec'', exec @ '' --tray''),
      (''Icon'', ''qiftop''), (''Terminal'', ''false''), (''Categories'', ''Network;Monitor;''), (''X-GNOME-Autostart-enabled'', ''true''),
      (''Hidden'', ''false'')]"

definition autostart_setEnabled :: "AutoHost \<Rightarrow> bool \<Rightarrow> (string \<times> string) list option \<Rightarrow> bool \<times> (string \<times> string) list option" where
  "autostart_setEnabled h enabled file =
     (if \<not> enabled then (if file = None then (True, file) else if au_remove h then (True, None) else (False, file))
      else if \<not> au_mkpath h \<or> \<not> au_open h then (False, file)
      else (True, Some (desktop_entry (au_exec h))))"

definition setStartOnLogin :: "AutoHost \<Rightarrow> bool \<Rightarrow> (string \<times> string) list option \<Rightarrow> bool \<times> (string \<times> string) list option" where
  "setStartOnLogin h v file =
     (if autostart_isEnabled file = v then (False, file) else autostart_setEnabled h v file)"

lemma startOnLogin_takes_effect:
  "autostart_setEnabled h v file = (True, file') \<Longrightarrow> autostart_isEnabled file' = v"
  "autostart_setEnabled h v file = (False, file') \<Longrightarrow> file' = file"
  by (auto simp: autostart_setEnabled_def autostart_isEnabled_def desktop_entry_def entry_value_def split: if_splits)

section \<open>The file mirrors the preferences\<close>

text \<open>Reading a key depends on its line only.\<close>

lemma read_other [simp]:
  "k \<noteq> k' \<Longrightarrow> ini_bool (put_bool k b ini) k' d = ini_bool ini k' d" "k \<noteq> k' \<Longrightarrow> ini_bool (put_int k n ini) k' d = ini_bool ini k' d"
  "k \<noteq> k' \<Longrightarrow> ini_bool (put_string k s ini) k' d = ini_bool ini k' d" "k \<noteq> k' \<Longrightarrow> ini_bool (put_list k l ini) k' d = ini_bool ini k' d"
  "k \<noteq> k' \<Longrightarrow> ini_int toInt (put_bool k b ini) k' e = ini_int toInt ini k' e" "k \<noteq> k' \<Longrightarrow> ini_int toInt (put_int k n ini) k' e = ini_int toInt ini k' e"
  "k \<noteq> k' \<Longrightarrow> ini_int toInt (put_string k s ini) k' e = ini_int toInt ini k' e" "k \<noteq> k' \<Longrightarrow> ini_int toInt (put_list k l ini) k' e = ini_int toInt ini k' e"
  "k \<noteq> k' \<Longrightarrow> ini_toString (put_bool k b ini) k' f = ini_toString ini k' f" "k \<noteq> k' \<Longrightarrow> ini_toString (put_int k n ini) k' f = ini_toString ini k' f"
  "k \<noteq> k' \<Longrightarrow> ini_toString (put_string k s ini) k' f = ini_toString ini k' f" "k \<noteq> k' \<Longrightarrow> ini_toString (put_list k l ini) k' f = ini_toString ini k' f"
  "k \<noteq> k' \<Longrightarrow> ini_list (put_bool k b ini) k' g = ini_list ini k' g" "k \<noteq> k' \<Longrightarrow> ini_list (put_int k n ini) k' g = ini_list ini k' g"
  "k \<noteq> k' \<Longrightarrow> ini_list (put_string k s ini) k' g = ini_list ini k' g" "k \<noteq> k' \<Longrightarrow> ini_list (put_list k l ini) k' g = ini_list ini k' g"
  by (simp_all add: ini_bool_def ini_int_def ini_toString_def ini_list_def split: option.split)

lemmas read_defs = read_prefs_def read_smoothing_def read_viewMode_def loadColor_def kRateSmoothingMs_def kRateSmoothingSecsLegacy_def Let_def

lemma read_put_bool:
  "read_prefs (put_bool ''display/showLoopback'' b ini) = (read_prefs ini)\<lparr>up_showLoopback := b\<rparr>"
  "read_prefs (put_bool ''display/showDown'' b ini) = (read_prefs ini)\<lparr>up_showDown := b\<rparr>"
  "read_prefs (put_bool ''network/ipv6Enabled'' b ini) = (read_prefs ini)\<lparr>up_ipv6Enabled := b\<rparr>"
  "read_prefs (put_bool ''dns/resolveHostnames'' b ini) = (read_prefs ini)\<lparr>up_resolveHostnames := b\<rparr>"
  "read_prefs (put_bool ''tray/closeToTray'' b ini) = (read_prefs ini)\<lparr>up_closeToTray := b\<rparr>"
  "read_prefs (put_bool ''connections/udpAggregateByPeer'' b ini) = (read_prefs ini)\<lparr>up_udpAggregateByPeer := b\<rparr>"
  "read_prefs (put_bool ''dns/resolveIfaceAddrsAsLocalhost'' b ini) = (read_prefs ini)\<lparr>up_resolveIfaceAddrsAsLocalhost := b\<rparr>"
  "read_prefs (put_bool ''display/colorCodeConnectionFlow'' b ini) = (read_prefs ini)\<lparr>up_colorCodeConnectionFlow := b\<rparr>"
  "read_prefs (put_bool ''display/tintRowByDirection'' b ini) = (read_prefs ini)\<lparr>up_tintRowByDirection := b\<rparr>"
  "read_prefs (put_bool ''display/showTcp'' b ini) = (read_prefs ini)\<lparr>up_showTcp := b\<rparr>"
  "read_prefs (put_bool ''display/showUdp'' b ini) = (read_prefs ini)\<lparr>up_showUdp := b\<rparr>"
  "read_prefs (put_bool ''display/throughputGaugeEnabled'' b ini) = (read_prefs ini)\<lparr>up_throughputGaugeEnabled := b\<rparr>"
  "read_prefs (put_bool ''display/interfaceGaugeEnabled'' b ini) = (read_prefs ini)\<lparr>up_interfaceGaugeEnabled := b\<rparr>"
  "read_prefs (put_bool ''display/showStatusInTitle'' b ini) = (read_prefs ini)\<lparr>up_showStatusInTitle := b\<rparr>"
  "read_prefs (put_bool ''connections/showProcessColumn'' b ini) = (read_prefs ini)\<lparr>up_showProcessColumn := b\<rparr>"
  "read_prefs (put_bool ''connections/showContainerColumn'' b ini) = (read_prefs ini)\<lparr>up_showContainerColumn := b\<rparr>"
  "read_prefs (put_bool ''connections/showContainerChainInTooltip'' b ini) = (read_prefs ini)\<lparr>up_showContainerChainInTooltip := b\<rparr>"
  "read_prefs (put_bool ''connections/showGroupHeaderDetails'' b ini) = (read_prefs ini)\<lparr>up_showGroupHeaderDetails := b\<rparr>"
  "read_prefs (put_bool ''connections/sortWithinGroups'' b ini) = (read_prefs ini)\<lparr>up_sortWithinGroups := b\<rparr>"
  by (simp_all add: read_defs)

lemma read_put_list:
  "read_prefs (put_list ''tray/interfaces'' v ini) = (read_prefs ini)\<lparr>up_trayInterfaces := v\<rparr>"
  "read_prefs (put_list ''connections/visibleIfaces'' v ini) = (read_prefs ini)\<lparr>up_connVisibleIfaces := v\<rparr>"
  by (simp_all add: read_defs)

lemma read_put_string:
  "read_prefs (put_string ''connections/filterExpr'' v ini) = (read_prefs ini)\<lparr>up_connFilterExpr := v\<rparr>"
  "read_prefs (put_string ''display/guiTheme'' v ini) = (read_prefs ini)\<lparr>up_guiThemeName := v\<rparr>"
  "read_prefs (put_string ''monitoring/attributionEagerness'' v ini) = (read_prefs ini)\<lparr>up_attributionEagerness := v\<rparr>"
  by (simp_all add: read_defs)

lemma read_put_color:
  assumes "isHexColor v"
  shows "read_prefs (put_string ''connections/chipColorPrimary'' v ini) = (read_prefs ini)\<lparr>up_chipColorPrimary := v\<rparr>"
    "read_prefs (put_string ''connections/chipColorUser'' v ini) = (read_prefs ini)\<lparr>up_chipColorUser := v\<rparr>"
    "read_prefs (put_string ''connections/chipColorId'' v ini) = (read_prefs ini)\<lparr>up_chipColorId := v\<rparr>"
    "read_prefs (put_string ''connections/chipColorDetail'' v ini) = (read_prefs ini)\<lparr>up_chipColorDetail := v\<rparr>"
  using assms by (simp_all add: read_defs)

lemma read_put_int:
  assumes "qint32 n"
  shows "read_prefs (put_int ''monitor/pollIntervalMs'' n ini) = (read_prefs ini)\<lparr>up_pollIntervalMs := n\<rparr>"
    "read_prefs (put_int ''connections/staleRetentionSecs'' n ini) = (read_prefs ini)\<lparr>up_connStaleRetentionSecs := n\<rparr>"
    "read_prefs (put_int ''connections/staleRetentionSecsUdp'' n ini) = (read_prefs ini)\<lparr>up_connStaleRetentionSecsUdp := n\<rparr>"
    "read_prefs (put_int ''display/throughputMaxMode'' n ini) = (read_prefs ini)\<lparr>up_throughputMaxMode := n\<rparr>"
    "read_prefs (put_int ''display/throughputWindowSecs'' n ini) = (read_prefs ini)\<lparr>up_throughputWindowSecs := n\<rparr>"
  using assms by (simp_all add: read_defs)

lemma read_put_view: "read_prefs (put_int ''connections/viewMode'' (ViewMode_num v) ini) = (read_prefs ini)\<lparr>up_connViewMode := v\<rparr>"
proof -
  have "qint32 (ViewMode_num v)" "0 \<le> ViewMode_num v" "ViewMode_num v \<le> 3" "ViewMode_of (ViewMode_num v) = v"
    by (cases v; simp add: qint32_def ViewMode_of_def)+
  then show ?thesis by (simp add: read_defs)
qed

lemma read_put_smoothing:
  "qint32 n \<Longrightarrow> ini kRateSmoothingSecsLegacy = None \<Longrightarrow> read_prefs (put_int ''display/rateSmoothingMs'' n ini) = (read_prefs ini)\<lparr>up_rateSmoothingMs := n\<rparr>"
  by (simp add: read_defs)

lemmas read_put = read_put_bool read_put_list read_put_string read_put_color read_put_int read_put_view read_put_smoothing

lemma small_bounds [simp]: "qint32 (qBound 100 v 60000)" "qint32 (qBound 0 v 600)" "qint32 (qBound 2 v 3600)" "qint32 (qBound 0 v 60000)"
  by (auto simp: qint32_def qBound_def)

lemma mode32 [simp]: "qint32 (MaxMode_num m)"
  by (cases m) (simp_all add: qint32_def)

text \<open>Everything that changes a preference for good.\<close>

inductive setter :: "(Settings \<Rightarrow> bool \<times> Settings) \<Rightarrow> bool" where
  "setter (setPollIntervalMs v)"
| "setter (setShowLoopback v)"
| "setter (setShowDown v)"
| "setter (setIpv6Enabled v)"
| "setter (setResolveHostnames v)"
| "setter (setCloseToTray v)"
| "setter (setTrayInterfaces v)"
| "setter (setConnectionVisibleIfaces v)"
| "setter (setConnectionStaleRetentionSecs v)"
| "setter (setConnectionStaleRetentionSecsUdp v)"
| "setter (setUdpAggregateByPeer v)"
| "setter (setResolveIfaceAddrsAsLocalhost v)"
| "setter (setColorCodeConnectionFlow v)"
| "setter (setTintRowByDirection v)"
| "setter (setShowTcp v)"
| "setter (setShowUdp v)"
| "setter (setThroughputGaugeEnabled v)"
| "setter (setInterfaceGaugeEnabled v)"
| "setter (setThroughputMaxMode v)"
| "setter (setThroughputWindowSecs v)"
| "setter (setRateSmoothingMs v)"
| "setter (setShowStatusInTitle v)"
| "setter (setConnectionFilterExpr v)"
| "setter (setGuiThemeName v)"
| "setter (setAttributionEagerness v)"
| "setter (setConnectionViewMode v)"
| "setter (setShowProcessColumn v)"
| "setter (setShowContainerColumn v)"
| "setter (setShowContainerChainInTooltip v)"
| "setter (setShowGroupHeaderDetails v)"
| "setter (setSortWithinGroups_pref v)"
| "setter (setChipColorPrimary v)"
| "setter (setChipColorUser v)"
| "setter (setChipColorId v)"
| "setter (setChipColorDetail v)"
| "setter resetChipColors"

definition mirrors :: "Settings \<Rightarrow> bool" where
  "mirrors s = (us_persist s \<and> us_ini s kRateSmoothingSecsLegacy = None \<and> read_prefs (us_ini s) = us_prefs s)"

lemma write_through_mirrors:
  assumes "mirrors s" and "\<not> same \<Longrightarrow> read_prefs (put (us_ini s)) = upd (read_prefs (us_ini s))" and "put (us_ini s) kRateSmoothingSecsLegacy = us_ini s kRateSmoothingSecsLegacy"
  shows "mirrors (snd (write_through same upd put s))"
  using assms by (auto simp: mirrors_def write_through_def us_store_def)

lemma write_through_locked: "\<not> us_persist s \<Longrightarrow> us_ini (snd (write_through same upd put s)) = us_ini s \<and> \<not> us_persist (snd (write_through same upd put s))"
  by (simp add: write_through_def us_store_def)

lemmas setter_defs =
  setPollIntervalMs_def setShowLoopback_def setShowDown_def setIpv6Enabled_def setResolveHostnames_def setCloseToTray_def setTrayInterfaces_def setConnectionVisibleIfaces_def setConnectionStaleRetentionSecs_def setConnectionStaleRetentionSecsUdp_def setUdpAggregateByPeer_def setResolveIfaceAddrsAsLocalhost_def setColorCodeConnectionFlow_def setTintRowByDirection_def setShowTcp_def setShowUdp_def setThroughputGaugeEnabled_def setInterfaceGaugeEnabled_def setThroughputMaxMode_def setThroughputWindowSecs_def setRateSmoothingMs_def setShowStatusInTitle_def setConnectionFilterExpr_def setGuiThemeName_def setAttributionEagerness_def setConnectionViewMode_def setShowProcessColumn_def setShowContainerColumn_def setShowContainerChainInTooltip_def setShowGroupHeaderDetails_def setSortWithinGroups_pref_def setChipColorPrimary_def setChipColorUser_def setChipColorId_def setChipColorDetail_def

lemma setter_locked: "setter f \<Longrightarrow> \<not> us_persist s \<Longrightarrow> us_ini (snd (f s)) = us_ini s \<and> \<not> us_persist (snd (f s))"
  by (erule setter.cases) (simp_all add: setter_defs Let_def write_through_locked, simp_all add: resetChipColors_def us_store_def Let_def)

lemma default_colors: "isHexColor (up_chipColorPrimary default_prefs)" "isHexColor (up_chipColorUser default_prefs)"
  "isHexColor (up_chipColorId default_prefs)" "isHexColor (up_chipColorDetail default_prefs)"
  by (code_simp+)

lemma reset_mirrors: "mirrors s \<Longrightarrow> mirrors (snd (resetChipColors s))"
  by (simp add: mirrors_def resetChipColors_def us_store_def Let_def read_put_color default_colors kRateSmoothingSecsLegacy_def)

lemma setter_mirrors: "setter f \<Longrightarrow> mirrors s \<Longrightarrow> mirrors (snd (f s))"
proof (erule setter.cases)
  assume s: "mirrors s"
  then have legacy: "us_ini s ''display/rateSmoothingSecs'' = None" by (simp add: mirrors_def kRateSmoothingSecsLegacy_def)
  show "mirrors (snd (f s))" if "f = setPollIntervalMs v" for v
    unfolding that setPollIntervalMs_def Let_def by (rule write_through_mirrors [OF s]) (simp_all add: read_put legacy kRateSmoothingSecsLegacy_def)
  show "mirrors (snd (f s))" if "f = setShowLoopback v" for v
    unfolding that setShowLoopback_def Let_def by (rule write_through_mirrors [OF s]) (simp_all add: read_put legacy kRateSmoothingSecsLegacy_def)
  show "mirrors (snd (f s))" if "f = setShowDown v" for v
    unfolding that setShowDown_def Let_def by (rule write_through_mirrors [OF s]) (simp_all add: read_put legacy kRateSmoothingSecsLegacy_def)
  show "mirrors (snd (f s))" if "f = setIpv6Enabled v" for v
    unfolding that setIpv6Enabled_def Let_def by (rule write_through_mirrors [OF s]) (simp_all add: read_put legacy kRateSmoothingSecsLegacy_def)
  show "mirrors (snd (f s))" if "f = setResolveHostnames v" for v
    unfolding that setResolveHostnames_def Let_def by (rule write_through_mirrors [OF s]) (simp_all add: read_put legacy kRateSmoothingSecsLegacy_def)
  show "mirrors (snd (f s))" if "f = setCloseToTray v" for v
    unfolding that setCloseToTray_def Let_def by (rule write_through_mirrors [OF s]) (simp_all add: read_put legacy kRateSmoothingSecsLegacy_def)
  show "mirrors (snd (f s))" if "f = setTrayInterfaces v" for v
    unfolding that setTrayInterfaces_def Let_def by (rule write_through_mirrors [OF s]) (simp_all add: read_put legacy kRateSmoothingSecsLegacy_def)
  show "mirrors (snd (f s))" if "f = setConnectionVisibleIfaces v" for v
    unfolding that setConnectionVisibleIfaces_def Let_def by (rule write_through_mirrors [OF s]) (simp_all add: read_put legacy kRateSmoothingSecsLegacy_def)
  show "mirrors (snd (f s))" if "f = setConnectionStaleRetentionSecs v" for v
    unfolding that setConnectionStaleRetentionSecs_def Let_def by (rule write_through_mirrors [OF s]) (simp_all add: read_put legacy kRateSmoothingSecsLegacy_def)
  show "mirrors (snd (f s))" if "f = setConnectionStaleRetentionSecsUdp v" for v
    unfolding that setConnectionStaleRetentionSecsUdp_def Let_def by (rule write_through_mirrors [OF s]) (simp_all add: read_put legacy kRateSmoothingSecsLegacy_def)
  show "mirrors (snd (f s))" if "f = setUdpAggregateByPeer v" for v
    unfolding that setUdpAggregateByPeer_def Let_def by (rule write_through_mirrors [OF s]) (simp_all add: read_put legacy kRateSmoothingSecsLegacy_def)
  show "mirrors (snd (f s))" if "f = setResolveIfaceAddrsAsLocalhost v" for v
    unfolding that setResolveIfaceAddrsAsLocalhost_def Let_def by (rule write_through_mirrors [OF s]) (simp_all add: read_put legacy kRateSmoothingSecsLegacy_def)
  show "mirrors (snd (f s))" if "f = setColorCodeConnectionFlow v" for v
    unfolding that setColorCodeConnectionFlow_def Let_def by (rule write_through_mirrors [OF s]) (simp_all add: read_put legacy kRateSmoothingSecsLegacy_def)
  show "mirrors (snd (f s))" if "f = setTintRowByDirection v" for v
    unfolding that setTintRowByDirection_def Let_def by (rule write_through_mirrors [OF s]) (simp_all add: read_put legacy kRateSmoothingSecsLegacy_def)
  show "mirrors (snd (f s))" if "f = setShowTcp v" for v
    unfolding that setShowTcp_def Let_def by (rule write_through_mirrors [OF s]) (simp_all add: read_put legacy kRateSmoothingSecsLegacy_def)
  show "mirrors (snd (f s))" if "f = setShowUdp v" for v
    unfolding that setShowUdp_def Let_def by (rule write_through_mirrors [OF s]) (simp_all add: read_put legacy kRateSmoothingSecsLegacy_def)
  show "mirrors (snd (f s))" if "f = setThroughputGaugeEnabled v" for v
    unfolding that setThroughputGaugeEnabled_def Let_def by (rule write_through_mirrors [OF s]) (simp_all add: read_put legacy kRateSmoothingSecsLegacy_def)
  show "mirrors (snd (f s))" if "f = setInterfaceGaugeEnabled v" for v
    unfolding that setInterfaceGaugeEnabled_def Let_def by (rule write_through_mirrors [OF s]) (simp_all add: read_put legacy kRateSmoothingSecsLegacy_def)
  show "mirrors (snd (f s))" if "f = setThroughputMaxMode v" for v
    unfolding that setThroughputMaxMode_def Let_def by (rule write_through_mirrors [OF s]) (simp_all add: read_put legacy kRateSmoothingSecsLegacy_def)
  show "mirrors (snd (f s))" if "f = setThroughputWindowSecs v" for v
    unfolding that setThroughputWindowSecs_def Let_def by (rule write_through_mirrors [OF s]) (simp_all add: read_put legacy kRateSmoothingSecsLegacy_def)
  show "mirrors (snd (f s))" if "f = setRateSmoothingMs v" for v
    unfolding that setRateSmoothingMs_def Let_def by (rule write_through_mirrors [OF s]) (simp_all add: read_put legacy kRateSmoothingSecsLegacy_def)
  show "mirrors (snd (f s))" if "f = setShowStatusInTitle v" for v
    unfolding that setShowStatusInTitle_def Let_def by (rule write_through_mirrors [OF s]) (simp_all add: read_put legacy kRateSmoothingSecsLegacy_def)
  show "mirrors (snd (f s))" if "f = setConnectionFilterExpr v" for v
    unfolding that setConnectionFilterExpr_def Let_def by (rule write_through_mirrors [OF s]) (simp_all add: read_put legacy kRateSmoothingSecsLegacy_def)
  show "mirrors (snd (f s))" if "f = setGuiThemeName v" for v
    unfolding that setGuiThemeName_def Let_def by (rule write_through_mirrors [OF s]) (simp_all add: read_put legacy kRateSmoothingSecsLegacy_def)
  show "mirrors (snd (f s))" if "f = setAttributionEagerness v" for v
    unfolding that setAttributionEagerness_def Let_def by (rule write_through_mirrors [OF s]) (simp_all add: read_put legacy kRateSmoothingSecsLegacy_def)
  show "mirrors (snd (f s))" if "f = setConnectionViewMode v" for v
    unfolding that setConnectionViewMode_def Let_def by (rule write_through_mirrors [OF s]) (simp_all add: read_put legacy kRateSmoothingSecsLegacy_def)
  show "mirrors (snd (f s))" if "f = setShowProcessColumn v" for v
    unfolding that setShowProcessColumn_def Let_def by (rule write_through_mirrors [OF s]) (simp_all add: read_put legacy kRateSmoothingSecsLegacy_def)
  show "mirrors (snd (f s))" if "f = setShowContainerColumn v" for v
    unfolding that setShowContainerColumn_def Let_def by (rule write_through_mirrors [OF s]) (simp_all add: read_put legacy kRateSmoothingSecsLegacy_def)
  show "mirrors (snd (f s))" if "f = setShowContainerChainInTooltip v" for v
    unfolding that setShowContainerChainInTooltip_def Let_def by (rule write_through_mirrors [OF s]) (simp_all add: read_put legacy kRateSmoothingSecsLegacy_def)
  show "mirrors (snd (f s))" if "f = setShowGroupHeaderDetails v" for v
    unfolding that setShowGroupHeaderDetails_def Let_def by (rule write_through_mirrors [OF s]) (simp_all add: read_put legacy kRateSmoothingSecsLegacy_def)
  show "mirrors (snd (f s))" if "f = setSortWithinGroups_pref v" for v
    unfolding that setSortWithinGroups_pref_def Let_def by (rule write_through_mirrors [OF s]) (simp_all add: read_put legacy kRateSmoothingSecsLegacy_def)
  show "mirrors (snd (f s))" if "f = setChipColorPrimary v" for v
    unfolding that setChipColorPrimary_def Let_def by (rule write_through_mirrors [OF s]) (simp_all add: read_put legacy kRateSmoothingSecsLegacy_def)
  show "mirrors (snd (f s))" if "f = setChipColorUser v" for v
    unfolding that setChipColorUser_def Let_def by (rule write_through_mirrors [OF s]) (simp_all add: read_put legacy kRateSmoothingSecsLegacy_def)
  show "mirrors (snd (f s))" if "f = setChipColorId v" for v
    unfolding that setChipColorId_def Let_def by (rule write_through_mirrors [OF s]) (simp_all add: read_put legacy kRateSmoothingSecsLegacy_def)
  show "mirrors (snd (f s))" if "f = setChipColorDetail v" for v
    unfolding that setChipColorDetail_def Let_def by (rule write_through_mirrors [OF s]) (simp_all add: read_put legacy kRateSmoothingSecsLegacy_def)
  show "mirrors (snd (f s))" if "f = resetChipColors" using that reset_mirrors [OF s] by simp
qed

section \<open>Restarts\<close>

lemma times1000_int32: "qint32 (times1000 n)"
  using sint_range_size [of "word_of_int (n * 1000) :: 32 word"] by (simp add: times1000_def qint32_def word_size)

lemma read_without [simp]:
  "k \<noteq> k' \<Longrightarrow> ini_bool (ini(k' := x)) k d = ini_bool ini k d" "k \<noteq> k' \<Longrightarrow> ini_int toInt (ini(k' := x)) k e = ini_int toInt ini k e"
  "k \<noteq> k' \<Longrightarrow> ini_toString (ini(k' := x)) k f = ini_toString ini k f" "k \<noteq> k' \<Longrightarrow> ini_list (ini(k' := x)) k g = ini_list ini k g"
  by (simp_all add: ini_bool_def ini_int_def ini_toString_def ini_list_def split: option.split)

lemma read_without_legacy:
  "read_prefs (ini(''display/rateSmoothingSecs'' := None)) = (read_prefs ini)\<lparr>up_rateSmoothingMs := read_smoothing (ini(''display/rateSmoothingSecs'' := None))\<rparr>"
  by (simp add: read_prefs_def read_viewMode_def loadColor_def Let_def)

lemma migrate_reads: "read_prefs (migrate ini) = read_prefs ini"
proof -
  note drop = read_without_legacy [folded kRateSmoothingSecsLegacy_def]
  have same: "(read_prefs ini)\<lparr>up_rateSmoothingMs := read_smoothing ini\<rparr> = read_prefs ini" by (simp add: read_prefs_def)
  show ?thesis
  proof (cases "ini_int toInt ini kRateSmoothingMs (up_rateSmoothingMs default_prefs) = 0 \<and> ini kRateSmoothingSecsLegacy \<noteq> None")
    case True
    define legacy where "legacy = toInt (ini_toString ini kRateSmoothingSecsLegacy [])"
    show ?thesis
    proof (cases "0 < legacy")
      case pos: True
      have sm: "read_smoothing ini = times1000 legacy" using True pos by (simp add: read_smoothing_def Let_def legacy_def)
      have "read_smoothing ((put_int kRateSmoothingMs (times1000 legacy) ini)(kRateSmoothingSecsLegacy := None)) = times1000 legacy"
        using times1000_int32 by (simp add: read_smoothing_def Let_def kRateSmoothingMs_def kRateSmoothingSecsLegacy_def)
      moreover have "read_prefs (put_int kRateSmoothingMs (times1000 legacy) ini) = (read_prefs ini)\<lparr>up_rateSmoothingMs := read_smoothing (put_int kRateSmoothingMs (times1000 legacy) ini)\<rparr>"
        by (simp add: read_prefs_def read_viewMode_def loadColor_def Let_def kRateSmoothingMs_def)
      ultimately show ?thesis using True pos sm same by (simp add: migrate_def drop legacy_def [symmetric])
    next
      case neg: False
      then have "read_smoothing ini = 0" "read_smoothing (ini(kRateSmoothingSecsLegacy := None)) = 0"
        using True by (simp_all add: read_smoothing_def Let_def legacy_def kRateSmoothingMs_def kRateSmoothingSecsLegacy_def)
      then show ?thesis using True neg same by (simp add: migrate_def drop legacy_def [symmetric])
    qed
  qed (auto simp: migrate_def)
qed

inductive us_reachable :: "bool \<Rightarrow> Ini \<Rightarrow> Settings \<Rightarrow> bool" for esc ini where
  us_load: "us_reachable esc ini (load_Settings esc ini)"
| us_set: "us_reachable esc ini s \<Longrightarrow> setter f \<Longrightarrow> us_reachable esc ini (snd (f s))"



text \<open>The setter keeps the interval at 100 ms or more; a value from the file is taken as it is.\<close>

lemma load_does_not_clamp:
  "up_pollIntervalMs (us_prefs (load_Settings False ((\<lambda>_. None)(''monitor/pollIntervalMs'' \<mapsto> [''-5''])))) = - 5 \<and>
   100 \<le> up_pollIntervalMs (us_prefs (snd (setPollIntervalMs v s)))"
proof -
  have "toInt ''-5'' = - 5" by code_simp
  then have "up_pollIntervalMs (us_prefs (load_Settings False ((\<lambda>_. None)(''monitor/pollIntervalMs'' \<mapsto> [''-5''])))) = - 5"
    by (simp add: load_Settings_def read_prefs_def ini_int_def ini_toString_def)
  then show ?thesis by (auto simp: setPollIntervalMs_def write_through_def us_store_def qBound_def Let_def)
qed

text \<open>With both smoothing keys in the file, turning smoothing off does not survive a restart.\<close>

lemma legacy_smoothing_returns:
  "us_prefs (load_Settings False (us_ini (snd (setRateSmoothingMs 0
      (load_Settings False ((\<lambda>_. None)(kRateSmoothingMs \<mapsto> [''500''], kRateSmoothingSecsLegacy \<mapsto> [''1'']))))))) \<noteq>
   us_prefs (snd (setRateSmoothingMs 0 (load_Settings False ((\<lambda>_. None)(kRateSmoothingMs \<mapsto> [''500''], kRateSmoothingSecsLegacy \<mapsto> [''1''])))))"
proof -
  define ini :: Ini where "ini = (\<lambda>_. None)(kRateSmoothingMs \<mapsto> [''500''], kRateSmoothingSecsLegacy \<mapsto> [''1''])"
  have n: "toInt ''500'' = 500" "toInt ''1'' = 1" "toInt ''0'' = 0" "show_int 0 = ''0''" "times1000 1 = 1000" by code_simp+
  have ne: "kRateSmoothingMs \<noteq> kRateSmoothingSecsLegacy" by (simp add: kRateSmoothingMs_def kRateSmoothingSecsLegacy_def)
  have i: "ini_int toInt ini kRateSmoothingMs 0 = 500" using ne by (simp add: ini_def ini_int_def ini_toString_def n)
  then have m: "migrate ini = ini" "read_smoothing ini = 500" by (simp_all add: migrate_def read_smoothing_def default_prefs_def Let_def)
  define s where "s = snd (setRateSmoothingMs 0 (load_Settings False ini))"
  have s: "up_rateSmoothingMs (us_prefs s) = 0" "us_ini s = put_int kRateSmoothingMs 0 ini"
    using m by (simp_all add: s_def setRateSmoothingMs_def load_Settings_def write_through_def us_store_def read_prefs_def qBound_def Let_def kRateSmoothingMs_def)
  have "read_smoothing (put_int kRateSmoothingMs 0 ini) = 1000"
    using ne by (simp add: read_smoothing_def default_prefs_def Let_def put_int_def ini_int_def ini_toString_def ini_def n)
  then have "up_rateSmoothingMs (us_prefs (load_Settings False (us_ini s))) = 1000" by (simp add: load_Settings_def read_prefs_def s(2))
  then show ?thesis unfolding ini_def [symmetric] s_def [symmetric] using s(1) by auto
qed

text \<open>A list that was set for the session is not written when the user then chooses the same list.\<close>

lemma transient_choice_not_saved:
  "us_ini (snd (setConnectionVisibleIfaces v (snd (setConnectionVisibleIfacesTransient v s)))) = us_ini s"
  by (simp add: setConnectionVisibleIfaces_def setConnectionVisibleIfacesTransient_def write_through_def us_store_def)

end
