(* ===== verification/ProcDetails.thy ===== *)
theory ProcDetails
  imports CgroupCache AgentServices SockDiagResolver
begin

text \<open>
  The reader behind \<open>GetProcessDetails\<close> (\<open>backend/linux/ProcDetails.cpp\<close>). A call reads five files of one pid, the start time
  twice; the process that owns the pid may change between any two reads, so the files are an argument of the number of
  the read. The theory shows that a valid answer describes one process, and that the start time is found in
  every line the kernel can print, whatever the name of the process.
\<close>

section \<open>Text\<close>

text \<open>\<open>QByteArray::simplified\<close>: white space at the ends goes, runs of it become one blank.\<close>

definition words_of :: "string \<Rightarrow> string list" where
  "words_of s = qsplit_skip (CHR '' '') (map (\<lambda>c. if rx_space c then CHR '' '' else c) s)"

fun join_blank :: "string list \<Rightarrow> string" where
  "join_blank [] = []"
| "join_blank [w] = w"
| "join_blank (w # v # ws) = w @ CHR '' '' # join_blank (v # ws)"

definition simplified_bytes :: "string \<Rightarrow> string" where
  "simplified_bytes s = join_blank (words_of s)"

section \<open>The readers\<close>

text \<open>What the files of one pid show at one moment: \<open>None\<close> for a file that cannot be opened, the empty string for a
  link without a target.\<close>

record PidFiles =
  pf_stat :: "string option"
  pf_status :: "string option"
  pf_cmdline :: "string option"
  pf_exe :: string
  pf_cwd :: string

definition details_status_line :: "string \<Rightarrow> string \<times> quint32 \<Rightarrow> string \<times> quint32" where
  "details_status_line line x =
     (if starts_with ''Name:'' line then (trimmed_bytes (drop 5 line), snd x)
      else if starts_with ''Uid:'' line then (fst x, toUInt (hd (qsplit (CHR '' '') (simplified_bytes (drop 4 line)))))
      else x)"

definition readStatusComm :: "PidFiles \<Rightarrow> string \<times> quint32" where
  "readStatusComm f =
     (case pf_status f of None \<Rightarrow> ([], 0)
      | Some data \<Rightarrow> fold details_status_line (qsplit (CHR 0x0A) (take 8192 data)) ([], 0))"

definition readCmdline :: "PidFiles \<Rightarrow> string" where
  "readCmdline f =
     (case pf_cmdline f of None \<Rightarrow> []
      | Some data \<Rightarrow> trimmed (map (\<lambda>b. if b = CHR 0x00 then CHR '' '' else b) (take 8192 data)))"

definition readStartTimeJiffies :: "PidFiles \<Rightarrow> quint64" where
  "readStartTimeJiffies f =
     (case pf_stat f of None \<Rightarrow> 0
      | Some content \<Rightarrow>
          (case after_last_paren (take 4096 content) of None \<Rightarrow> 0
           | Some r \<Rightarrow>
               if length r \<le> 1 then 0
               else
                 (let rest = qsplit (CHR '' '') (simplified_bytes (tl r)) in
                  if length rest \<le> 19 then 0
                  else (case toULongLong (rest ! 19) of None \<Rightarrow> 0 | Some t \<Rightarrow> t))))"

definition invalid_details :: ProcessDetails where
  "invalid_details = \<lparr>det_pid = 0, det_uid = 0, det_comm = [], det_exe = [], det_cmdline = [], det_cwd = [],
     det_startTimeJiffies = 0, det_valid = False\<rparr>"

definition readProcessDetails :: "int \<Rightarrow> (nat \<Rightarrow> PidFiles) \<Rightarrow> ProcessDetails" where
  "readProcessDetails pid fs =
     (if pid \<le> 0 then invalid_details
      else
        (let startBefore = readStartTimeJiffies (fs 0) in
         if startBefore = 0 then invalid_details
         else
           (let (comm, uid) = readStatusComm (fs 1) in
            if comm = [] then invalid_details
            else
              (let cmdline = readCmdline (fs 2);
                   exe = pf_exe (fs 3);
                   cwd = pf_cwd (fs 4) in
               if readStartTimeJiffies (fs 5) \<noteq> startBefore then invalid_details
               else \<lparr>det_pid = pid, det_uid = uid, det_comm = comm, det_exe = exe, det_cmdline = cmdline, det_cwd = cwd,
                      det_startTimeJiffies = startBefore, det_valid = True\<rparr>))))"

section \<open>The start time in a line of the kernel\<close>

text \<open>A line of \<open>stat\<close>: pid, name in parentheses, the other fields, a line feed. The name is up to the process.\<close>

definition kernel_stat :: "nat \<Rightarrow> string \<Rightarrow> string list \<Rightarrow> string" where
  "kernel_stat pid comm flds = show_nat pid @ '' ('' @ comm @ '') '' @ join_blank flds @ [CHR 0x0A]"

definition plain_field :: "string \<Rightarrow> bool" where
  "plain_field w = (w \<noteq> [] \<and> list_all (\<lambda>c. \<not> rx_space c \<and> c \<noteq> CHR '')'') w)"

lemma after_last_paren_found: "CHR '')'' \<notin> set y \<Longrightarrow> after_last_paren (x @ CHR '')'' # y) = Some y"
proof (induction x)
  case Nil
  have "after_last_paren z = None" if "CHR '')'' \<notin> set z" for z using that by (induction z) auto
  with Nil show ?case by simp
qed simp

lemma rx_space_blank [simp]: "rx_space (CHR '' '')" "rx_space (CHR 0x0A)"
  by (simp_all add: rx_space_def)

lemma plain_field_facts:
  assumes "plain_field w"
  shows "w \<noteq> []" "CHR '' '' \<notin> set w" "CHR 0x0A \<notin> set w" "CHR '')'' \<notin> set w"
    "map (\<lambda>c. if rx_space c then CHR '' '' else c) w = w"
proof -
  have ns: "\<not> rx_space c" "c \<noteq> CHR '')''" if "c \<in> set w" for c
    using assms that by (simp_all add: plain_field_def list_all_iff)
  show "w \<noteq> []" using assms by (simp add: plain_field_def)
  show "CHR '' '' \<notin> set w" "CHR 0x0A \<notin> set w" "CHR '')'' \<notin> set w" using ns rx_space_blank by blast+
  show "map (\<lambda>c. if rx_space c then CHR '' '' else c) w = w" using ns(1) by (simp add: map_idI)
qed

lemma set_join_blank: "set (join_blank ws) \<subseteq> insert (CHR '' '') (\<Union> (set ` set ws))"
  by (induction ws rule: join_blank.induct) auto

lemma map_join_blank:
  "list_all plain_field ws \<Longrightarrow> map (\<lambda>c. if rx_space c then CHR '' '' else c) (join_blank ws) = join_blank ws"
  by (induction ws rule: join_blank.induct) (simp_all add: plain_field_facts)

lemma qsplit_join_blank:
  "list_all plain_field ws \<Longrightarrow> ws \<noteq> [] \<Longrightarrow> qsplit (CHR '' '') (join_blank ws) = ws"
  by (induction ws rule: join_blank.induct) (simp_all add: plain_field_facts qsplit_simps)

lemma qsplit_join_blank_end:
  "list_all plain_field ws \<Longrightarrow> ws \<noteq> [] \<Longrightarrow> qsplit (CHR '' '') (join_blank ws @ [CHR '' '']) = ws @ [[]]"
  by (induction ws rule: join_blank.induct) (simp_all add: plain_field_facts qsplit_simps)

lemma simplified_join_blank:
  assumes "list_all plain_field ws" "ws \<noteq> []"
  shows "qsplit (CHR '' '') (simplified_bytes (join_blank ws @ [CHR 0x0A])) = ws"
proof -
  have "filter (\<lambda>w. w \<noteq> []) ws = ws"
    using assms(1) by (auto simp: filter_id_conv list_all_iff plain_field_facts)
  then have "words_of (join_blank ws @ [CHR 0x0A]) = ws"
    by (simp add: words_of_def qsplit_skip_def map_join_blank qsplit_join_blank_end assms)
  then show ?thesis by (simp add: simplified_bytes_def qsplit_join_blank assms)
qed

lemma skip_fields_join_blank:
  assumes "list_all plain_field ws" "Suc n < length ws"
  shows "\<exists>t. skip_fields n (join_blank ws @ e) = Some (ws ! n @ CHR '' '' # t)"
  using assms
proof (induction n arbitrary: ws)
  case 0
  then obtain w v vs where "ws = w # v # vs" by (cases ws rule: join_blank.cases) auto
  then show ?case by simp
next
  case (Suc n)
  then obtain w v vs where ws: "ws = w # v # vs" by (cases ws rule: join_blank.cases) auto
  then have "plain_field w" using Suc.prems by simp
  then have "dropWhile (\<lambda>c. c \<noteq> CHR '' '') (join_blank ws @ e) = CHR '' '' # join_blank (v # vs) @ e"
    unfolding ws using plain_field_facts(2) by (simp add: dropWhile_append3) (metis (mono_tags, lifting))
  then show ?case using Suc.IH [of "v # vs"] Suc.prems unfolding ws by simp
qed

lemma toULongLong_show: "n < 2 ^ 64 \<Longrightarrow> toULongLong (show_nat n) = Some (word_of_nat n)"
  using show_nat_digits by (auto simp: toULongLong_def list_all_iff)

lemma kernel_stat_after:
  assumes "list_all plain_field flds"
  shows "after_last_paren (kernel_stat pid comm flds) = Some (CHR '' '' # join_blank flds @ [CHR 0x0A])"
proof -
  have "CHR '')'' \<notin> set (join_blank flds)"
    using set_join_blank [of flds] assms plain_field_facts(4) by (fastforce simp: list_all_iff)
  then show ?thesis
    using after_last_paren_found [of "CHR '' '' # join_blank flds @ [CHR 0x0A]" "show_nat pid @ '' ('' @ comm"]
    by (simp add: kernel_stat_def)
qed

lemma readStartTimeJiffies_kernel:
  assumes "list_all plain_field flds" "20 < length flds" "flds ! 19 = show_nat n" "n < 2 ^ 64"
    and "length (kernel_stat pid comm flds) \<le> 4096" and "pf_stat f = Some (kernel_stat pid comm flds)"
  shows "readStartTimeJiffies f = word_of_nat n"
proof -
  have ne: "flds \<noteq> []" using assms(2) by auto
  show ?thesis
    using assms by (simp add: readStartTimeJiffies_def kernel_stat_after simplified_join_blank [OF assms(1) ne] toULongLong_show Let_def)
qed

text \<open>The two readers of \<open>stat\<close>, one walking over blanks (\<open>CgroupClassifier\<close>, \<open>ProcSnapshot\<close>) and one splitting the simplified
  rest, both find the 22nd field of every line the kernel prints, for every process name, parentheses and blanks included.\<close>

theorem stat_readers_agree:
  assumes "list_all plain_field flds" "20 < length flds" "flds ! 19 = show_nat n" "n < 2 ^ 64"
    and "length (kernel_stat pid comm flds) \<le> 4096" and "pf_stat f = Some (kernel_stat pid comm flds)"
  shows "readStartTimeJiffies f = word_of_nat n \<and> parseStartTime (kernel_stat pid comm flds) = Some (word_of_nat n)"
proof
  show "readStartTimeJiffies f = word_of_nat n" by (rule readStartTimeJiffies_kernel [OF assms])
  obtain t where t: "skip_fields 19 (join_blank flds @ [CHR 0x0A]) = Some (flds ! 19 @ CHR '' '' # t)"
    using skip_fields_join_blank [OF assms(1), of 19] assms(2) by auto
  have "plain_field (flds ! 19)" using assms(1,2) by (simp add: list_all_length)
  then have "takeWhile (\<lambda>c. c \<noteq> CHR '' '') (flds ! 19 @ CHR '' '' # t) = flds ! 19"
    using plain_field_facts(2) by (subst takeWhile_append2) auto
  then show "parseStartTime (kernel_stat pid comm flds) = Some (word_of_nat n)"
    unfolding parseStartTime_def kernel_stat_after [OF assms(1)] using t assms(3,4)
    by (simp add: toULongLong_show)
qed

definition sample_flds :: "nat \<Rightarrow> string list" where
  "sample_flds n = ''S'' # map show_nat [1..<19] @ [show_nat n, ''0'']"

lemma sample_flds_ok:
  assumes "n < 100"
  shows "list_all plain_field (sample_flds n)" "length (sample_flds n) = 21" "sample_flds n ! 19 = show_nat n"
proof -
  have "\<not> (is_digit c \<and> (rx_space c \<or> c = CHR '')''))" for c
    by (auto simp: is_digit_def rx_space_def)
  then have "plain_field (show_nat k)" for k
    using show_nat_digits by (auto simp: plain_field_def list_all_iff)
  then show "list_all plain_field (sample_flds n)"
    by (auto simp: sample_flds_def list_all_iff plain_field_def rx_space_def)
  show "length (sample_flds n) = 21" "sample_flds n ! 19 = show_nat n" by (simp_all add: sample_flds_def nth_append)
qed

definition sample_pid :: "nat \<Rightarrow> PidFiles" where
  "sample_pid t = \<lparr>pf_stat = Some (kernel_stat 7 ''a) b'' (sample_flds t)),
     pf_status = Some (''Name:'' @ [CHR 0x09] @ ''a) b''),
     pf_cmdline = Some (''a'' @ [CHR 0x00] @ ''x'' @ [CHR 0x00]), pf_exe = ''/bin/a'', pf_cwd = ''/''\<rparr>"

lemma sample_stat_short: "length (kernel_stat 7 ''a) b'' (sample_flds 77)) \<le> 4096" "length (kernel_stat 7 ''a) b'' (sample_flds 99)) \<le> 4096"
  by code_simp+

theorem stat_readers_agree_witness: "readStartTimeJiffies (sample_pid 77) = word_of_nat 77 \<and> parseStartTime (kernel_stat 7 ''a) b'' (sample_flds 77)) = Some (word_of_nat 77)"
  by (rule stat_readers_agree) (simp_all add: sample_flds_ok sample_stat_short sample_pid_def)

section \<open>A valid answer describes one process\<close>

lemma readProcessDetails_valid:
  "det_valid (readProcessDetails pid fs) \<longleftrightarrow>
     0 < pid \<and> readStartTimeJiffies (fs 0) \<noteq> 0 \<and> fst (readStatusComm (fs 1)) \<noteq> []
     \<and> readStartTimeJiffies (fs 5) = readStartTimeJiffies (fs 0)"
  by (auto simp: readProcessDetails_def invalid_details_def Let_def split: prod.split)

lemma readProcessDetails_eq:
  "det_valid (readProcessDetails pid fs) \<Longrightarrow>
     readProcessDetails pid fs =
       \<lparr>det_pid = pid, det_uid = snd (readStatusComm (fs 1)), det_comm = fst (readStatusComm (fs 1)), det_exe = pf_exe (fs 3),
        det_cmdline = readCmdline (fs 2), det_cwd = pf_cwd (fs 4), det_startTimeJiffies = readStartTimeJiffies (fs 0), det_valid = True\<rparr>"
  unfolding readProcessDetails_valid by (auto simp: readProcessDetails_def Let_def split: prod.split)

lemma readProcessDetails_invalid: "\<not> det_valid (readProcessDetails pid fs) \<Longrightarrow> readProcessDetails pid fs = invalid_details"
  by (auto simp: readProcessDetails_def Let_def split: prod.splits if_splits)

text \<open>C15: Let \<open>occupant k\<close> be the process that owns the pid at the \<open>k\<close>-th read, \<open>born\<close> its start time. If start times
  of successive owners do not fall and tell them apart, and a readable \<open>stat\<close> shows the owner's, then a valid answer
  comes from reads of one and the same process, with its start time; any other answer carries nothing.\<close>

theorem details_one_process:
  assumes later: "\<And>i j. i \<le> j \<Longrightarrow> born (occupant i) \<le> born (occupant j)"
    and distinct: "\<And>i j. born (occupant i) = born (occupant j) \<Longrightarrow> occupant i = occupant j"
    and stat: "\<And>k. readStartTimeJiffies (fs k) \<in> {0, born (occupant k)}"
  shows "if det_valid (readProcessDetails pid fs)
    then (\<forall>k \<le> 5. occupant k = occupant 0) \<and> readProcessDetails pid fs =
       \<lparr>det_pid = pid, det_uid = snd (readStatusComm (fs 1)), det_comm = fst (readStatusComm (fs 1)), det_exe = pf_exe (fs 3),
        det_cmdline = readCmdline (fs 2), det_cwd = pf_cwd (fs 4), det_startTimeJiffies = born (occupant 0), det_valid = True\<rparr>
    else readProcessDetails pid fs = invalid_details"
proof (cases "det_valid (readProcessDetails pid fs)")
  case True
  then have start: "readStartTimeJiffies (fs 0) \<noteq> 0" "readStartTimeJiffies (fs 5) = readStartTimeJiffies (fs 0)"
    by (auto simp: readProcessDetails_valid)
  have b0: "readStartTimeJiffies (fs 0) = born (occupant 0)" using stat [of 0] start by auto
  have b5: "born (occupant 5) = born (occupant 0)" using stat [of 5] start b0 by auto
  have "occupant k = occupant 0" if "k \<le> 5" for k
  proof (rule distinct)
    show "born (occupant k) = born (occupant 0)"
      using later [of 0 k] later [OF that] unfolding b5 by (rule antisym [rotated]) simp
  qed
  then have "\<forall>k \<le> 5. occupant k = occupant 0" by blast
  then show ?thesis unfolding if_P [OF True] b0 [symmetric] by (rule conjI) (rule readProcessDetails_eq [OF True])
next
  case False
  then show ?thesis using readProcessDetails_invalid [OF False] by simp
qed

lemma details_one_process_witness:
  "readProcessDetails 7 (\<lambda>k. if k \<le> 3 then sample_pid 77 else sample_pid 99) = invalid_details
   \<and> det_comm (readProcessDetails 7 (\<lambda>k. sample_pid 77)) = ''a) b''"
proof -
  have start: "readStartTimeJiffies (sample_pid 77) = 77" "readStartTimeJiffies (sample_pid 99) = 99"
    using readStartTimeJiffies_kernel [OF sample_flds_ok(1) _ sample_flds_ok(3) _ sample_stat_short(1), of "sample_pid 77"]
      readStartTimeJiffies_kernel [OF sample_flds_ok(1) _ sample_flds_ok(3) _ sample_stat_short(2), of "sample_pid 99"]
    by (simp_all add: sample_flds_ok sample_pid_def)
  have a: "\<not> det_valid (readProcessDetails 7 (\<lambda>k. if k \<le> 3 then sample_pid 77 else sample_pid 99))"
    unfolding readProcessDetails_valid by (simp add: start)
  have c: "fst (readStatusComm (sample_pid 77)) = ''a) b''"
    by (simp add: readStatusComm_def sample_pid_def details_status_line_def starts_with_def trimmed_bytes_def rx_space_def)
  have b: "det_valid (readProcessDetails 7 (\<lambda>k. sample_pid 77))"
    unfolding readProcessDetails_valid by (simp add: start c)
  show ?thesis
    using details_one_process [where born = "\<lambda>x. x" and occupant = "\<lambda>k. if k \<le> 3 then 77 else 99" and pid = 7
        and fs = "\<lambda>k. if k \<le> 3 then sample_pid 77 else sample_pid 99"]
      details_one_process [where born = "\<lambda>x. x" and occupant = "\<lambda>k. 77" and pid = 7 and fs = "\<lambda>k. sample_pid 77"]
    by (simp add: a b c start)
qed

text \<open>A process that gives itself a blank name is reported as unreachable, although its files can be read.\<close>

lemma blank_name_unreachable:
  "pf_status (fs 1) = Some (''Name:'' @ CHR 0x09 # replicate n (CHR '' '') @ [CHR 0x0A]) \<Longrightarrow> \<not> det_valid (readProcessDetails pid fs)"
proof -
  assume s: "pf_status (fs 1) = Some (''Name:'' @ CHR 0x09 # replicate n (CHR '' '') @ [CHR 0x0A])"
  define w where "w = ''Name:'' @ CHR 0x09 # replicate (min n 8186) (CHR '' '')"
  have nl: "CHR 0x0A \<notin> set w" by (auto simp: w_def)
  have blank: "trimmed_bytes (drop 5 w) = []"
    by (auto simp: w_def trimmed_bytes_def rx_space_def)
  have line: "details_status_line w x = ([], snd x)" for x :: "string \<times> quint32"
    using blank by (simp add: details_status_line_def starts_with_def w_def)
  have "take 8192 (''Name:'' @ CHR 0x09 # replicate n (CHR '' '') @ [CHR 0x0A]) = (if n < 8186 then w @ [CHR 0x0A] else w)"
    by (auto simp: w_def min_def)
  moreover have "details_status_line [] x = x" for x :: "string \<times> quint32"
    by (simp add: details_status_line_def starts_with_def)
  ultimately have "fst (readStatusComm (fs 1)) = []"
    using nl unfolding readStatusComm_def s by (simp add: qsplit_append_sep qsplit_id line)
  then show ?thesis by (simp add: readProcessDetails_valid)
qed

end
