(* ===== verification/LinkMonitor.thy ===== *)
theory LinkMonitor
  imports FlowTypes
begin

text \<open>
  The Linux interface monitor (\<open>backend/linux/NetlinkWorker.cpp\<close>, \<open>NetlinkMonitor.cpp\<close>). What libnl returns is an argument: the outcome of
  each allocation and, for a poll, the links and addresses of the refilled caches. The worker is followed through its
  life in the monitor's thread: it holds either all of its resources or none.
\<close>

section \<open>What libnl reports\<close>

record NlAddr =
  na_scope :: int
  na_local :: "string option"
  na_prefixlen :: nat
  na_ifindex :: int

record NlLink =
  nl_name :: string
  nl_kind :: "string option"
  nl_arptype :: nat
  nl_flags :: "32 word"
  nl_mtu :: quint32
  nl_ifindex :: int
  nl_operstate :: quint8
  nl_rxBytes :: quint64
  nl_txBytes :: quint64
  nl_rxPackets :: quint64
  nl_txPackets :: quint64
  nl_rxErrors :: quint64
  nl_txErrors :: quint64
  nl_rxDropped :: quint64
  nl_txDropped :: quint64

definition RT_SCOPE_LINK :: int where "RT_SCOPE_LINK = 253"
definition IFF_UP_bit :: nat where "IFF_UP_bit = 0"
definition IFF_LOOPBACK_bit :: nat where "IFF_LOOPBACK_bit = 3"

definition classifyLink :: "NlLink \<Rightarrow> bool \<Rightarrow> string" where
  "classifyLink l isLoopback =
     (if isLoopback then ''loopback''
      else
        (case nl_kind l of
           Some (c # cs) \<Rightarrow> c # cs
         | _ \<Rightarrow>
             (if nl_arptype l = 1 then ''ethernet''
              else if nl_arptype l = 512 then ''ppp''
              else if nl_arptype l = 768 then ''ipip''
              else if nl_arptype l = 769 then ''ip6tnl''
              else if nl_arptype l = 776 then ''sit''
              else if nl_arptype l = 801 then ''wifi''
              else if nl_arptype l = 65534 then ''tun''
              else ''other'')))"

text \<open>The text of an address is cut to the 46 bytes that \<open>nl_addr2str\<close> has room for.\<close>

definition formatAddrCidr :: "NlAddr \<Rightarrow> string" where
  "formatAddrCidr a =
     (case na_local a of
        None \<Rightarrow> []
      | Some text \<Rightarrow>
          (let s = take 46 text in
           if CHR ''/'' \<notin> set s then s @ ''/'' @ show_nat (na_prefixlen a) else s))"

section \<open>Polling\<close>

definition addr_step :: "NlAddr \<Rightarrow> (int, string list) qhash \<Rightarrow> (int, string list) qhash" where
  "addr_step a m =
     (if RT_SCOPE_LINK \<le> na_scope a then m
      else
        (let cidr = formatAddrCidr a in
         if cidr \<noteq> []
         then hinsert (na_ifindex a) ((case hfind m (na_ifindex a) of None \<Rightarrow> [] | Some l \<Rightarrow> l) @ [cidr]) m
         else m))"

definition addrs_by_index :: "NlAddr list \<Rightarrow> (int, string list) qhash" where
  "addrs_by_index addrs = fold addr_step addrs []"

definition link_stats :: "(int, string list) qhash \<Rightarrow> NlLink \<Rightarrow> InterfaceStats" where
  "link_stats byIndex l =
     (let isLoopback = bit (nl_flags l) IFF_LOOPBACK_bit in
      \<lparr>if_name = nl_name l, if_type = classifyLink l isLoopback, if_mtu = nl_mtu l,
       if_addresses = (case hfind byIndex (nl_ifindex l) of None \<Rightarrow> [] | Some as \<Rightarrow> as),
       if_rxBytes = nl_rxBytes l, if_txBytes = nl_txBytes l, if_rxPackets = nl_rxPackets l, if_txPackets = nl_txPackets l,
       if_isUp = bit (nl_flags l) IFF_UP_bit, if_isLoopback = isLoopback, if_ifIndex = word_of_int (nl_ifindex l),
       if_operState = nl_operstate l, if_rxErrors = nl_rxErrors l, if_txErrors = nl_txErrors l,
       if_rxDropped = nl_rxDropped l, if_txDropped = nl_txDropped l\<rparr>)"

record NetlinkWorker =
  nw_sock :: bool
  nw_linkCache :: bool
  nw_addrCache :: bool
  nw_timer :: "(bool \<times> int) option"

definition mk_NetlinkWorker :: NetlinkWorker where
  "mk_NetlinkWorker = \<lparr>nw_sock = False, nw_linkCache = False, nw_addrCache = False, nw_timer = None\<rparr>"

text \<open>A poll emits one list of statistics, or nothing without the resources.\<close>

definition nw_poll :: "NlLink list \<Rightarrow> NlAddr list \<Rightarrow> NetlinkWorker \<Rightarrow> InterfaceStats list option" where
  "nw_poll links addrs w =
     (if \<not> nw_sock w \<or> \<not> nw_linkCache w \<or> \<not> nw_addrCache w then None
      else Some (map (link_stats (addrs_by_index addrs)) links))"

section \<open>The life of the worker\<close>

definition nw_stop :: "NetlinkWorker \<Rightarrow> NetlinkWorker" where
  "nw_stop w = w\<lparr>nw_timer := None, nw_addrCache := False, nw_linkCache := False, nw_sock := False\<rparr>"

record NlReplies =
  nr_alloc :: bool
  nr_connect :: bool
  nr_linkCache :: bool
  nr_addrCache :: bool
  nr_links :: "NlLink list"
  nr_addrs :: "NlAddr list"

definition nw_start :: "NlReplies \<Rightarrow> NetlinkWorker \<Rightarrow> InterfaceStats list option \<times> NetlinkWorker" where
  "nw_start r w =
     (if \<not> nr_alloc r then (None, w\<lparr>nw_sock := False\<rparr>)
      else if \<not> nr_connect r then (None, w\<lparr>nw_sock := False\<rparr>)
      else
        (let w = w\<lparr>nw_sock := True\<rparr> in
         if \<not> nr_linkCache r then (None, nw_stop w)
         else
           (let w = w\<lparr>nw_linkCache := True\<rparr> in
            if \<not> nr_addrCache r then (None, nw_stop w)
            else
              (let w = w\<lparr>nw_addrCache := True, nw_timer := Some (True, 1000)\<rparr>
               in (nw_poll (nr_links r) (nr_addrs r) w, w)))))"

definition nw_setPollIntervalMs :: "int \<Rightarrow> NetlinkWorker \<Rightarrow> NetlinkWorker" where
  "nw_setPollIntervalMs ms w =
     (case nw_timer w of
        None \<Rightarrow> w
      | Some (active, interval) \<Rightarrow>
          if ms \<le> 0 then w\<lparr>nw_timer := Some (False, interval)\<rparr>
          else w\<lparr>nw_timer := Some (True, ms)\<rparr>)"

text \<open>The monitor: its thread runs or not, and the worker exists until the thread has finished for the first time. A
  request to a worker that is gone is undefined behaviour, the value \<open>None\<close>.\<close>

record NetlinkMonitor =
  nm_running :: bool
  nm_worker :: "NetlinkWorker option"

definition mk_NetlinkMonitor :: NetlinkMonitor where
  "mk_NetlinkMonitor = \<lparr>nm_running = False, nm_worker = Some mk_NetlinkWorker\<rparr>"

definition nm_start :: "NlReplies \<Rightarrow> NetlinkMonitor \<Rightarrow> InterfaceStats list option \<times> NetlinkMonitor" where
  "nm_start r m =
     (if nm_running m then (None, m)
      else
        (case nm_worker m of
           None \<Rightarrow> (None, m\<lparr>nm_running := True\<rparr>)
         | Some w \<Rightarrow> (let (out, w) = nw_start r w in (out, m\<lparr>nm_running := True, nm_worker := Some w\<rparr>))))"

definition nm_stop :: "NetlinkMonitor \<Rightarrow> NetlinkMonitor option" where
  "nm_stop m =
     (if \<not> nm_running m then Some m
      else (case nm_worker m of None \<Rightarrow> None | Some w \<Rightarrow> Some (m\<lparr>nm_running := False, nm_worker := None\<rparr>)))"

definition nm_setPollIntervalMs :: "int \<Rightarrow> NetlinkMonitor \<Rightarrow> NetlinkMonitor option" where
  "nm_setPollIntervalMs ms m =
     (if \<not> nm_running m then Some m
      else (case nm_worker m of None \<Rightarrow> None | Some w \<Rightarrow> Some (m\<lparr>nm_worker := Some (nw_setPollIntervalMs ms w)\<rparr>)))"

definition nm_tick :: "NlLink list \<Rightarrow> NlAddr list \<Rightarrow> NetlinkMonitor \<Rightarrow> InterfaceStats list option" where
  "nm_tick links addrs m =
     (case nm_worker m of
        Some w \<Rightarrow> (case nw_timer w of Some (True, _) \<Rightarrow> nw_poll links addrs w | _ \<Rightarrow> None)
      | None \<Rightarrow> None)"

definition nm_capabilities :: "string list" where
  "nm_capabilities = [''ifindex'', ''oper-state'', ''link-errors'']"

section \<open>Facts\<close>

text \<open>The addresses a poll shows for a link: those of its index below link scope, in the order of the cache, each with a
  prefix length.\<close>

definition shown_addrs :: "int \<Rightarrow> NlAddr list \<Rightarrow> string list" where
  "shown_addrs ix addrs =
     filter (\<lambda>s. s \<noteq> []) (map formatAddrCidr (filter (\<lambda>a. na_ifindex a = ix \<and> na_scope a < RT_SCOPE_LINK) addrs))"

lemma addr_fold:
  "(case hfind (fold addr_step addrs m) ix of None \<Rightarrow> [] | Some l \<Rightarrow> l) =
   (case hfind m ix of None \<Rightarrow> [] | Some l \<Rightarrow> l) @ shown_addrs ix addrs"
proof (induction addrs arbitrary: m)
  case (Cons a addrs)
  have "(case hfind (addr_step a m) ix of None \<Rightarrow> [] | Some l \<Rightarrow> l) =
     (case hfind m ix of None \<Rightarrow> [] | Some l \<Rightarrow> l) @ shown_addrs ix [a]"
    by (simp add: addr_step_def Let_def hfind_insert shown_addrs_def split: option.split)
  then show ?case using Cons.IH [of "addr_step a m"] by (simp add: shown_addrs_def)
qed (simp add: shown_addrs_def)

lemma formatAddrCidr_slash: "formatAddrCidr a \<noteq> [] \<Longrightarrow> CHR ''/'' \<in> set (formatAddrCidr a)"
  by (cases "na_local a") (auto simp: formatAddrCidr_def Let_def split: if_splits)

definition nw_whole :: "NetlinkWorker \<Rightarrow> bool" where
  "nw_whole w = ((nw_sock w \<longleftrightarrow> nw_timer w \<noteq> None) \<and> (nw_linkCache w \<longleftrightarrow> nw_sock w) \<and> (nw_addrCache w \<longleftrightarrow> nw_sock w))"

inductive nm_reachable :: "NetlinkMonitor \<Rightarrow> bool" where
  fresh: "nm_reachable mk_NetlinkMonitor"
| start: "nm_reachable m \<Longrightarrow> nm_reachable (snd (nm_start r m))"
| stop: "nm_reachable m \<Longrightarrow> nm_stop m = Some m' \<Longrightarrow> nm_reachable m'"
| interval: "nm_reachable m \<Longrightarrow> nm_setPollIntervalMs ms m = Some m' \<Longrightarrow> nm_reachable m'"

lemma nw_start_whole: "w = mk_NetlinkWorker \<Longrightarrow> nw_whole (snd (nw_start r w))"
  by (auto simp: nw_start_def nw_whole_def mk_NetlinkWorker_def nw_stop_def Let_def)

lemma nw_interval_whole: "nw_whole w \<Longrightarrow> nw_whole (nw_setPollIntervalMs ms w)"
  by (auto simp: nw_setPollIntervalMs_def nw_whole_def split: option.split)

lemma nm_invariant:
  "nm_reachable m \<Longrightarrow> (\<forall>w. nm_worker m = Some w \<longrightarrow> nw_whole w \<and> (\<not> nm_running m \<longrightarrow> w = mk_NetlinkWorker))"
proof (induction rule: nm_reachable.induct)
  case fresh
  show ?case by (simp add: mk_NetlinkMonitor_def mk_NetlinkWorker_def nw_whole_def)
next
  case (start m r)
  then show ?case
    by (cases "nm_running m"; cases "nm_worker m") (auto simp: nm_start_def Let_def nw_start_whole split: prod.splits, metis nw_start_whole snd_conv)
next
  case (stop m m')
  then show ?case by (auto simp: nm_stop_def split: if_splits option.splits)
next
  case (interval m ms m')
  then show ?case by (auto simp: nm_setPollIntervalMs_def nw_interval_whole split: if_splits option.splits)
qed

text \<open>In every reachable state of the interface monitor the worker holds socket, caches and timer together or not at all, so
  every tick of an active timer reports every link of the cache in order, with the cache's counters and exactly the
  addresses of its index below link scope, each with a prefix length.\<close>

theorem link_poll_exact:
  assumes "nm_reachable m" "nm_worker m = Some w" "nw_timer w = Some (True, ms)"
  shows "\<exists>stats. nm_tick links addrs m = Some stats \<and> map if_name stats = map nl_name links \<and>
    map if_addresses stats = map (\<lambda>l. shown_addrs (nl_ifindex l) addrs) links \<and>
    map (\<lambda>s. (if_rxBytes s, if_txBytes s)) stats = map (\<lambda>l. (nl_rxBytes l, nl_txBytes l)) links \<and>
    (\<forall>s \<in> set stats. \<forall>x \<in> set (if_addresses s). CHR ''/'' \<in> set x)"
proof -
  have "nw_whole w" using nm_invariant [OF assms(1)] assms(2) by blast
  then have poll: "nm_tick links addrs m = Some (map (link_stats (addrs_by_index addrs)) links)"
    using assms by (simp add: nm_tick_def nw_poll_def nw_whole_def)
  have "if_addresses (link_stats (addrs_by_index addrs) l) = shown_addrs (nl_ifindex l) addrs" for l
    using addr_fold [of addrs "[]" "nl_ifindex l"] by (simp add: link_stats_def addrs_by_index_def Let_def)
  moreover have "CHR ''/'' \<in> set x" if "x \<in> set (shown_addrs ix addrs)" for x ix
    using that formatAddrCidr_slash by (auto simp: shown_addrs_def)
  moreover have "if_name (link_stats b l) = nl_name l" "if_rxBytes (link_stats b l) = nl_rxBytes l"
    "if_txBytes (link_stats b l) = nl_txBytes l" for b l by (simp_all add: link_stats_def Let_def)
  ultimately show ?thesis unfolding poll by (intro exI conjI) (auto simp: o_def)
qed

definition sample_link :: NlLink where
  "sample_link = \<lparr>nl_name = ''eth0'', nl_kind = None, nl_arptype = 1, nl_flags = 1, nl_mtu = 1500, nl_ifindex = 2, nl_operstate = 6,
     nl_rxBytes = 10, nl_txBytes = 20, nl_rxPackets = 1, nl_txPackets = 2, nl_rxErrors = 0, nl_txErrors = 0, nl_rxDropped = 0,
     nl_txDropped = 0\<rparr>"

definition sample_addr :: NlAddr where
  "sample_addr = \<lparr>na_scope = 0, na_local = Some ''192.0.2.1'', na_prefixlen = 8, na_ifindex = 2\<rparr>"

theorem link_poll_exact_witness:
  "\<exists>stats. nm_tick [sample_link] [sample_addr, sample_addr\<lparr>na_scope := 253\<rparr>]
      (snd (nm_start \<lparr>nr_alloc = True, nr_connect = True, nr_linkCache = True, nr_addrCache = True, nr_links = [], nr_addrs = []\<rparr> mk_NetlinkMonitor))
    = Some stats \<and> map if_addresses stats = [[''192.0.2.1/8'']]"
proof -
  define m where "m = snd (nm_start \<lparr>nr_alloc = True, nr_connect = True, nr_linkCache = True, nr_addrCache = True, nr_links = [], nr_addrs = []\<rparr> mk_NetlinkMonitor)"
  have r: "nm_reachable m" unfolding m_def by (intro nm_reachable.intros)
  have w: "nm_worker m = Some \<lparr>nw_sock = True, nw_linkCache = True, nw_addrCache = True, nw_timer = Some (True, 1000)\<rparr>"
    by (simp add: m_def nm_start_def mk_NetlinkMonitor_def mk_NetlinkWorker_def nw_start_def Let_def)
  have "shown_addrs (nl_ifindex sample_link) [sample_addr, sample_addr\<lparr>na_scope := 253\<rparr>] = [''192.0.2.1/8'']"
    by (simp add: shown_addrs_def sample_link_def sample_addr_def formatAddrCidr_def RT_SCOPE_LINK_def Let_def show_nat.simps digit_char_def)
  then show ?thesis unfolding m_def [symmetric]
    using link_poll_exact [OF r w, of 1000 "[sample_link]" "[sample_addr, sample_addr\<lparr>na_scope := 253\<rparr>]"] by auto
qed

text \<open>After a stop the worker is gone: a monitor that is started again reports nothing, and the next request to it reaches a
  deleted object.\<close>

lemma restart_uses_deleted_worker:
  assumes "nm_start r mk_NetlinkMonitor = (out, m)" "nm_stop m = Some m'"
  shows "nm_start r' m' = (None, m'\<lparr>nm_running := True\<rparr>) \<and> nm_setPollIntervalMs ms (m'\<lparr>nm_running := True\<rparr>) = None \<and>
    nm_stop (m'\<lparr>nm_running := True\<rparr>) = None"
proof -
  have "nm_running m" using assms(1) by (auto simp: nm_start_def mk_NetlinkMonitor_def Let_def split: prod.splits)
  then have "nm_worker m' = None" "\<not> nm_running m'" using assms(2) by (auto simp: nm_stop_def split: option.splits)
  then show ?thesis by (simp add: nm_start_def nm_setPollIntervalMs_def nm_stop_def)
qed

end
