(* ===== verification/BusClient.thy ===== *)
theory BusClient
  imports AgentRun
begin

text \<open>
  The client side of the bus: \<open>backend/dbus/DBusConnectionMonitor\<close> and \<open>DBusNetworkMonitor\<close>, which the front ends use in place of a
  backend of their own. Calls are the messages sent to the agent, in order; replies and signals of the agent are lists
  of bus values. A handler gives \<open>None\<close> when the argument is not a list of the structures it reads (what Qt's demarshaller
  then stores is not modelled). The theory composes the client with the agent: what the agent publishes is what the client
  hands to its front end.
\<close>

section \<open>Messages\<close>

datatype bus_call = BusCall string "dbus_value list"

datatype client_signal = connectionsUpdated "Connection list"
  | connectionsAttributionRefined "Connection list"
  | permissionDenied string
  | attributionEagernessChanged string
  | processDetailsReady BackendProcessDetails
  | statsUpdated "InterfaceStats list"
  | agentCadenceChanged int
and BackendProcessDetails = BackendProcessDetails (bd_pid: int) (bd_uid: quint32) (bd_comm: string) (bd_exe: string)
    (bd_cmdline: string) (bd_cwd: string) (bd_startTimeJiffies: quint64)

definition bd_valid :: "BackendProcessDetails \<Rightarrow> bool" where
  "bd_valid d = (0 < bd_pid d)"

text \<open>How a signal of the agent travels: the path of its object, its member and its arguments.\<close>

fun bus_signal :: "agent_signal \<Rightarrow> string \<times> string \<times> dbus_value list" where
  "bus_signal (ConnectionsChanged t ds) = (kConnsPath, ''ConnectionsChanged'', [UInt64V t, enc_list put_ConnectionDto ds])"
| "bus_signal (AttributionChanged t ds) = (kConnsPath, ''AttributionChanged'', [UInt64V t, enc_list put_ConnectionDto ds])"
| "bus_signal (PermissionDenied detail) = (kConnsPath, ''PermissionDenied'', [StringV detail])"
| "bus_signal (AccountingChanged b) = (kConnsPath, ''AccountingChanged'', [BoolV b])"
| "bus_signal (AttributionEagernessChanged m) = (kConnsPath, ''AttributionEagernessChanged'', [StringV m])"
| "bus_signal (StatsChanged t ds) = (kIfacesPath, ''StatsChanged'', [UInt64V t, enc_list put_InterfaceStatsDto ds])"
| "bus_signal (CadenceChanged ms) = (kIfacesPath, ''CadenceChanged'', [UInt32V ms])"

section \<open>\<open>DBusConnectionMonitor\<close>\<close>

record DBusConnectionMonitor =
  dcm_started :: bool
  dcm_desiredMs :: int
  dcm_desiredEagerness :: string
  dcm_slots :: "string list"

definition mk_DBusConnectionMonitor :: DBusConnectionMonitor where
  "mk_DBusConnectionMonitor = \<lparr>dcm_started = False, dcm_desiredMs = 0, dcm_desiredEagerness = [], dcm_slots = []\<rparr>"

definition sendDesiredIntervalAsync :: "int \<Rightarrow> bus_call" where
  "sendDesiredIntervalAsync ms = BusCall ''SetDesiredIntervalMs'' [UInt32V (word_of_int ms)]"

definition dcm_setDesiredIntervalMs :: "int \<Rightarrow> DBusConnectionMonitor \<Rightarrow> bus_call list \<times> DBusConnectionMonitor" where
  "dcm_setDesiredIntervalMs ms m =
     (let ms = max ms 0; m = m\<lparr>dcm_desiredMs := ms\<rparr> in
      (if dcm_started m then [sendDesiredIntervalAsync ms] else [], m))"

definition dcm_setDesiredAttributionEagerness :: "string \<Rightarrow> DBusConnectionMonitor \<Rightarrow> bus_call list \<times> DBusConnectionMonitor" where
  "dcm_setDesiredAttributionEagerness mode m =
     (let m = m\<lparr>dcm_desiredEagerness := mode\<rparr> in
      (if \<not> dcm_started m then [] else [BusCall ''SetDesiredAttributionEagerness'' [StringV mode]], m))"

definition dcm_requestInitialSnapshot :: bus_call where
  "dcm_requestInitialSnapshot = BusCall ''GetConnections'' []"

definition dcm_start :: "DBusConnectionMonitor \<Rightarrow> bus_call list \<times> DBusConnectionMonitor" where
  "dcm_start m =
     (if dcm_started m then ([], m)
      else
        (let m = m\<lparr>dcm_started := True,
                   dcm_slots := dcm_slots m @ [''ConnectionsChanged'', ''PermissionDenied'', ''AttributionEagernessChanged'', ''AttributionChanged'']\<rparr>;
             out = [dcm_requestInitialSnapshot] @ (if 0 < dcm_desiredMs m then [sendDesiredIntervalAsync (dcm_desiredMs m)] else []);
             (more, m) = (if dcm_desiredEagerness m \<noteq> [] then dcm_setDesiredAttributionEagerness (dcm_desiredEagerness m) m else ([], m))
         in (out @ more, m)))"

definition dcm_stop :: "DBusConnectionMonitor \<Rightarrow> DBusConnectionMonitor" where
  "dcm_stop m =
     (if \<not> dcm_started m then m
      else m\<lparr>dcm_started := False,
             dcm_slots := filter (\<lambda>s. s \<notin> set [''ConnectionsChanged'', ''PermissionDenied'', ''AttributionEagernessChanged'', ''AttributionChanged''])
               (dcm_slots m)\<rparr>)"

definition dcm_requestProcessDetails :: "int \<Rightarrow> bus_call list" where
  "dcm_requestProcessDetails pid = (if pid \<le> 0 then [] else [BusCall ''GetProcessDetails'' [UInt32V (word_of_int pid)]])"

text \<open>The typed reply: Qt rejects a reply whose signature is not the registered one, before any field is read.\<close>

definition dcm_detailsReply :: "string + dbus_value list \<Rightarrow> client_signal list" where
  "dcm_detailsReply reply =
     (case reply of
        Inl err \<Rightarrow> []
      | Inr args \<Rightarrow>
          (case args of
             [v] \<Rightarrow>
               (if signature v \<noteq> ''(uusssst)'' then []
                else
                  (case get_ProcessDetailsDto v of
                     None \<Rightarrow> []
                   | Some d \<Rightarrow>
                       [processDetailsReady (BackendProcessDetails (if uint (pdd_pid d) \<le> qint32_max then uint (pdd_pid d) else 0)
                          (pdd_uid d) (pdd_comm d) (pdd_exe d) (pdd_cmdline d) (pdd_cwd d) (pdd_startTimeJiffies d))]))
           | _ \<Rightarrow> []))"

definition read_rows :: "(string \<Rightarrow> QHostAddress) \<Rightarrow> dbus_value \<Rightarrow> Connection list option" where
  "read_rows ofStr v = map_option (fromDtos ofStr) (dec_list get_ConnectionDto v)"

definition dcm_snapshotReply :: "(string \<Rightarrow> QHostAddress) \<Rightarrow> string + dbus_value list \<Rightarrow> client_signal list option" where
  "dcm_snapshotReply ofStr reply =
     (case reply of
        Inl err \<Rightarrow> Some []
      | Inr [] \<Rightarrow> Some []
      | Inr (v # _) \<Rightarrow> map_option (\<lambda>rows. [connectionsUpdated rows]) (read_rows ofStr v))"

text \<open>The second argument of the current layout, the only one of the layout before version 0.3.\<close>

definition payload :: "dbus_value list \<Rightarrow> dbus_value option" where
  "payload args = (if 2 \<le> length args then Some (args ! 1) else if length args = 1 then Some (args ! 0) else None)"

definition dcm_onConnectionsChanged :: "(string \<Rightarrow> QHostAddress) \<Rightarrow> dbus_value list \<Rightarrow> client_signal list option" where
  "dcm_onConnectionsChanged ofStr args =
     (case payload args of None \<Rightarrow> Some [] | Some v \<Rightarrow> map_option (\<lambda>rows. [connectionsUpdated rows]) (read_rows ofStr v))"

definition dcm_onAttributionChanged :: "(string \<Rightarrow> QHostAddress) \<Rightarrow> dbus_value list \<Rightarrow> client_signal list option" where
  "dcm_onAttributionChanged ofStr args =
     (case payload args of None \<Rightarrow> Some []
      | Some v \<Rightarrow> map_option (\<lambda>rows. if rows \<noteq> [] then [connectionsAttributionRefined rows] else []) (read_rows ofStr v))"

definition dcm_onPermissionDenied :: "string \<Rightarrow> client_signal list" where
  "dcm_onPermissionDenied detail = [permissionDenied detail]"

definition dcm_onAttributionEagernessChanged :: "string \<Rightarrow> client_signal list" where
  "dcm_onAttributionEagernessChanged mode = [attributionEagernessChanged mode]"

text \<open>The dispatch of a bus signal to the connected slots; slots that take a text see only messages that carry one.\<close>

definition text_slot :: "(string \<Rightarrow> client_signal list) \<Rightarrow> dbus_value list \<Rightarrow> client_signal list option" where
  "text_slot f args = (case args of StringV s # _ \<Rightarrow> Some (f s) | _ \<Rightarrow> Some [])"

definition dcm_deliver ::
  "(string \<Rightarrow> QHostAddress) \<Rightarrow> DBusConnectionMonitor \<Rightarrow> string \<times> string \<times> dbus_value list \<Rightarrow> client_signal list option" where
  "dcm_deliver ofStr m msg =
     (let (path, member, args) = msg in
      if path \<noteq> kConnsPath \<or> member \<notin> set (dcm_slots m) then Some []
      else if member = ''ConnectionsChanged'' then dcm_onConnectionsChanged ofStr args
      else if member = ''AttributionChanged'' then dcm_onAttributionChanged ofStr args
      else if member = ''PermissionDenied'' then text_slot dcm_onPermissionDenied args
      else if member = ''AttributionEagernessChanged'' then text_slot dcm_onAttributionEagernessChanged args
      else Some [])"

section \<open>\<open>DBusNetworkMonitor\<close>\<close>

record DBusNetworkMonitor =
  dnm_started :: bool
  dnm_desiredMs :: int
  dnm_caps :: "string list"
  dnm_slots :: "string list"

definition mk_DBusNetworkMonitor :: DBusNetworkMonitor where
  "mk_DBusNetworkMonitor = \<lparr>dnm_started = False, dnm_desiredMs = 0, dnm_caps = [], dnm_slots = []\<rparr>"

definition dnm_setAgentCapabilities :: "string list \<Rightarrow> DBusNetworkMonitor \<Rightarrow> DBusNetworkMonitor" where
  "dnm_setAgentCapabilities caps m = m\<lparr>dnm_caps := caps\<rparr>"

definition dnm_capabilities :: "DBusNetworkMonitor \<Rightarrow> string list" where
  "dnm_capabilities m = dnm_caps m"

definition dnm_setDesiredIntervalMs :: "int \<Rightarrow> DBusNetworkMonitor \<Rightarrow> bus_call list \<times> DBusNetworkMonitor" where
  "dnm_setDesiredIntervalMs ms m =
     (let ms = max ms 0; m = m\<lparr>dnm_desiredMs := ms\<rparr> in
      (if dnm_started m then [sendDesiredIntervalAsync ms] else [], m))"

definition dnm_requestInitialSnapshot :: bus_call where
  "dnm_requestInitialSnapshot = BusCall ''GetInterfaces'' []"

text \<open>The two subscriptions may fail on their own; the monitor goes on without them.\<close>

definition dnm_start :: "bool \<Rightarrow> bool \<Rightarrow> DBusNetworkMonitor \<Rightarrow> bus_call list \<times> DBusNetworkMonitor" where
  "dnm_start ok okCad m =
     (if dnm_started m then ([], m)
      else
        (let m = m\<lparr>dnm_started := True,
                   dnm_slots := dnm_slots m @ (if ok then [''StatsChanged''] else []) @ (if okCad then [''CadenceChanged''] else [])\<rparr>
         in ([dnm_requestInitialSnapshot] @ (if 0 < dnm_desiredMs m then [sendDesiredIntervalAsync (dnm_desiredMs m)] else []), m)))"

definition dnm_stop :: "DBusNetworkMonitor \<Rightarrow> DBusNetworkMonitor" where
  "dnm_stop m =
     (if \<not> dnm_started m then m
      else m\<lparr>dnm_started := False, dnm_slots := filter (\<lambda>s. s \<notin> set [''StatsChanged'', ''CadenceChanged'']) (dnm_slots m)\<rparr>)"

definition read_stats :: "dbus_value \<Rightarrow> InterfaceStats list option" where
  "read_stats v = map_option if_fromDtos (dec_list get_InterfaceStatsDto v)"

definition dnm_snapshotReply :: "string + dbus_value list \<Rightarrow> client_signal list option" where
  "dnm_snapshotReply reply =
     (case reply of
        Inl err \<Rightarrow> Some []
      | Inr [] \<Rightarrow> Some []
      | Inr (v # _) \<Rightarrow> map_option (\<lambda>s. [statsUpdated s]) (read_stats v))"

definition dnm_onStatsChanged :: "dbus_value list \<Rightarrow> client_signal list option" where
  "dnm_onStatsChanged args =
     (case payload args of None \<Rightarrow> Some [] | Some v \<Rightarrow> map_option (\<lambda>s. [statsUpdated s]) (read_stats v))"

text \<open>\<open>QVariant::toUInt\<close> of the values a bus message can hold; the conversion of a text is Qt's. The cast to \<open>int\<close> wraps.\<close>

definition variant_toUInt :: "(string \<Rightarrow> quint32 option) \<Rightarrow> dbus_value \<Rightarrow> quint32 option" where
  "variant_toUInt ofText v =
     (case v of ByteV b \<Rightarrow> Some (ucast b) | UInt16V w \<Rightarrow> Some (ucast w) | UInt32V w \<Rightarrow> Some w | UInt64V w \<Rightarrow> Some (ucast w)
      | BoolV b \<Rightarrow> Some (if b then 1 else 0) | StringV s \<Rightarrow> ofText s | _ \<Rightarrow> None)"

definition dnm_onAgentCadenceChanged :: "(string \<Rightarrow> quint32 option) \<Rightarrow> dbus_value list \<Rightarrow> client_signal list" where
  "dnm_onAgentCadenceChanged ofText args =
     (case args of [] \<Rightarrow> []
      | v # _ \<Rightarrow> (case variant_toUInt ofText v of None \<Rightarrow> [] | Some ms \<Rightarrow> [agentCadenceChanged (sint ms)]))"

definition dnm_deliver ::
  "(string \<Rightarrow> quint32 option) \<Rightarrow> DBusNetworkMonitor \<Rightarrow> string \<times> string \<times> dbus_value list \<Rightarrow> client_signal list option" where
  "dnm_deliver ofText m msg =
     (let (path, member, args) = msg in
      if path \<noteq> kIfacesPath \<or> member \<notin> set (dnm_slots m) then Some []
      else if member = ''StatsChanged'' then dnm_onStatsChanged args
      else if member = ''CadenceChanged'' then Some (dnm_onAgentCadenceChanged ofText args)
      else Some [])"


section \<open>Sessions\<close>

text \<open>The public operations of the two clients, and the calls a sequence of them sends.\<close>

datatype conn_op = CStart | CStop | CInterval int | CEagerness string | CDetails int

fun conn_step :: "conn_op \<Rightarrow> DBusConnectionMonitor \<Rightarrow> bus_call list \<times> DBusConnectionMonitor" where
  "conn_step CStart m = dcm_start m"
| "conn_step CStop m = ([], dcm_stop m)"
| "conn_step (CInterval ms) m = dcm_setDesiredIntervalMs ms m"
| "conn_step (CEagerness mode) m = dcm_setDesiredAttributionEagerness mode m"
| "conn_step (CDetails pid) m = (dcm_requestProcessDetails pid, m)"

datatype net_op = NStart bool bool | NStop | NInterval int | NCapabilities "string list"

fun net_step :: "net_op \<Rightarrow> DBusNetworkMonitor \<Rightarrow> bus_call list \<times> DBusNetworkMonitor" where
  "net_step (NStart ok okCad) m = dnm_start ok okCad m"
| "net_step NStop m = ([], dnm_stop m)"
| "net_step (NInterval ms) m = dnm_setDesiredIntervalMs ms m"
| "net_step (NCapabilities caps) m = ([], dnm_setAgentCapabilities caps m)"

fun session :: "('op \<Rightarrow> 'c \<Rightarrow> bus_call list \<times> 'c) \<Rightarrow> 'op list \<Rightarrow> 'c \<Rightarrow> bus_call list \<times> 'c" where
  "session step [] c = ([], c)"
| "session step (op # ops) c = (let (out, c) = step op c; (more, c) = session step ops c in (out @ more, c))"

text \<open>The last argument sent with a member.\<close>

fun last_sent :: "string \<Rightarrow> bus_call list \<Rightarrow> dbus_value list option" where
  "last_sent member [] = None"
| "last_sent member (BusCall m args # out) =
     (case last_sent member out of None \<Rightarrow> if m = member then Some args else None | Some v \<Rightarrow> Some v)"

lemma last_sent_append:
  "last_sent member (xs @ ys) = (case last_sent member ys of None \<Rightarrow> last_sent member xs | Some v \<Rightarrow> Some v)"
  by (induction member xs rule: last_sent.induct) (simp_all split: option.split)

text \<open>The contract of a client that holds a hint: a call carries the current wish, and a client that is running and
  wishes for something got there by a call or was so before. Then the last call carries the wish.\<close>

locale hint_client =
  fixes step :: "'op \<Rightarrow> 'c \<Rightarrow> bus_call list \<times> 'c" and member :: string and live :: "'c \<Rightarrow> bool" and wish :: "'c \<Rightarrow> dbus_value list"
  assumes carries: "step op c = (out, c') \<Longrightarrow> last_sent member out = Some v \<Longrightarrow> v = wish c'"
    and silent: "step op c = (out, c') \<Longrightarrow> last_sent member out = None \<Longrightarrow> live c' \<Longrightarrow> live c \<and> wish c' = wish c"
begin

lemma session_asserts_from:
  "session step ops c = (out, c') \<Longrightarrow> live c' \<Longrightarrow>
     last_sent member out = Some (wish c') \<or> last_sent member out = None \<and> live c \<and> wish c' = wish c"
proof (induction ops arbitrary: c out)
  case (Cons op ops)
  obtain o1 c1 where one: "step op c = (o1, c1)" by (meson surj_pair)
  obtain o2 where two: "session step ops c1 = (o2, c')" and out: "out = o1 @ o2"
    using Cons.prems(1) one by (auto simp: Let_def split: prod.splits)
  from Cons.IH [OF two Cons.prems(2)] show ?case
  proof (elim disjE conjE)
    assume "last_sent member o2 = None" and l: "live c1" and w: "wish c' = wish c1"
    then have "last_sent member out = last_sent member o1" by (simp add: out last_sent_append)
    then show ?thesis using carries [OF one] silent [OF one _ l] w by (cases "last_sent member o1") auto
  qed (simp add: out last_sent_append)
qed auto

lemma session_asserts:
  "session step ops c = (out, c') \<Longrightarrow> \<not> live c \<Longrightarrow> live c' \<Longrightarrow> last_sent member out = Some (wish c')"
  using session_asserts_from by blast

end

lemmas client_defs = dcm_start_def dcm_stop_def dcm_setDesiredIntervalMs_def dcm_setDesiredAttributionEagerness_def
  dcm_requestProcessDetails_def dcm_requestInitialSnapshot_def sendDesiredIntervalAsync_def Let_def
  dnm_start_def dnm_stop_def dnm_setDesiredIntervalMs_def dnm_requestInitialSnapshot_def dnm_setAgentCapabilities_def

interpretation conn_interval: hint_client conn_step "''SetDesiredIntervalMs''" "\<lambda>m. dcm_started m \<and> 0 < dcm_desiredMs m"
    "\<lambda>m. [UInt32V (word_of_int (dcm_desiredMs m))]"
proof unfold_locales
  fix op c out c' v
  assume s: "conn_step op c = (out, c')"
  show "v = [UInt32V (word_of_int (dcm_desiredMs c'))]" if "last_sent ''SetDesiredIntervalMs'' out = Some v"
    using s that by (cases op) (auto simp: client_defs split: if_splits)
  show "(dcm_started c \<and> 0 < dcm_desiredMs c) \<and> [UInt32V (word_of_int (dcm_desiredMs c'))] = [UInt32V (word_of_int (dcm_desiredMs c))]"
    if "last_sent ''SetDesiredIntervalMs'' out = None" "dcm_started c' \<and> 0 < dcm_desiredMs c'"
    using s that by (cases op) (auto simp: client_defs split: if_splits)
qed

interpretation conn_eagerness: hint_client conn_step "''SetDesiredAttributionEagerness''"
    "\<lambda>m. dcm_started m \<and> dcm_desiredEagerness m \<noteq> []" "\<lambda>m. [StringV (dcm_desiredEagerness m)]"
proof unfold_locales
  fix op c out c' v
  assume s: "conn_step op c = (out, c')"
  show "v = [StringV (dcm_desiredEagerness c')]" if "last_sent ''SetDesiredAttributionEagerness'' out = Some v"
    using s that by (cases op) (auto simp: client_defs split: if_splits)
  show "(dcm_started c \<and> dcm_desiredEagerness c \<noteq> []) \<and> [StringV (dcm_desiredEagerness c')] = [StringV (dcm_desiredEagerness c)]"
    if "last_sent ''SetDesiredAttributionEagerness'' out = None" "dcm_started c' \<and> dcm_desiredEagerness c' \<noteq> []"
    using s that by (cases op) (auto simp: client_defs split: if_splits)
qed

interpretation net_interval: hint_client net_step "''SetDesiredIntervalMs''" "\<lambda>m. dnm_started m \<and> 0 < dnm_desiredMs m"
    "\<lambda>m. [UInt32V (word_of_int (dnm_desiredMs m))]"
proof unfold_locales
  fix op c out c' v
  assume s: "net_step op c = (out, c')"
  show "v = [UInt32V (word_of_int (dnm_desiredMs c'))]" if "last_sent ''SetDesiredIntervalMs'' out = Some v"
    using s that by (cases op) (auto simp: client_defs split: if_splits)
  show "(dnm_started c \<and> 0 < dnm_desiredMs c) \<and> [UInt32V (word_of_int (dnm_desiredMs c'))] = [UInt32V (word_of_int (dnm_desiredMs c))]"
    if "last_sent ''SetDesiredIntervalMs'' out = None" "dnm_started c' \<and> 0 < dnm_desiredMs c'"
    using s that by (cases op) (auto simp: client_defs split: if_splits)
qed


section \<open>Subscriptions\<close>

definition conn_members :: "string list" where
  "conn_members = [''ConnectionsChanged'', ''PermissionDenied'', ''AttributionEagernessChanged'', ''AttributionChanged'']"

lemma conn_step_slots:
  "conn_step op m = (out, m') \<Longrightarrow> dcm_slots m = (if dcm_started m then conn_members else []) \<Longrightarrow>
     dcm_slots m' = (if dcm_started m' then conn_members else [])"
  by (cases op) (auto simp: client_defs conn_members_def split: if_splits)

lemma session_slots_from:
  "session conn_step ops m = (out, m') \<Longrightarrow> dcm_slots m = (if dcm_started m then conn_members else []) \<Longrightarrow>
     dcm_slots m' = (if dcm_started m' then conn_members else [])"
proof (induction ops arbitrary: m out)
  case (Cons op ops)
  obtain o1 m1 where one: "conn_step op m = (o1, m1)" by (meson surj_pair)
  obtain o2 where "session conn_step ops m1 = (o2, m')"
    using Cons.prems(1) one by (auto simp: Let_def split: prod.splits)
  then show ?case using Cons.IH conn_step_slots [OF one Cons.prems(2)] by blast
qed simp

lemma session_slots:
  "session conn_step ops mk_DBusConnectionMonitor = (out, m) \<Longrightarrow> dcm_slots m = (if dcm_started m then conn_members else [])"
  using session_slots_from [of ops mk_DBusConnectionMonitor out m] by (simp add: mk_DBusConnectionMonitor_def)

section \<open>What the agent sends arrives\<close>

lemma read_rows_sent:
  assumes "\<And>a. ofStr (toStr a) = a" "\<And>c. c \<in> set cs \<Longrightarrow> pi_pid (c_process c) \<le> qint32_max"
  shows "read_rows ofStr (enc_list put_ConnectionDto (toDtos toStr cs)) = Some (map client_view cs)"
  using assms by (simp add: read_rows_def connection_wire.dec_list_enc fromDtos_def toDtos_def from_toDto)

lemma read_stats_sent: "read_stats (enc_list put_InterfaceStatsDto (if_toDtos xs)) = Some xs"
  by (simp add: read_stats_def interface_wire.dec_list_enc if_roundtrip_list)

lemma paths_differ: "kConnsPath \<noteq> kIfacesPath" "kIfacesPath \<noteq> kConnsPath"
  by (simp_all add: kConnsPath_def kIfacesPath_def)

lemma deliver_snapshot:
  assumes "\<And>a. ofStr (toStr a) = a" "\<And>c. c \<in> set cs \<Longrightarrow> pi_pid (c_process c) \<le> qint32_max" "dcm_slots m = conn_members"
  shows "dcm_deliver ofStr m (bus_signal (ConnectionsChanged t (toDtos toStr cs))) = Some [connectionsUpdated (map client_view cs)]"
  by (simp add: dcm_deliver_def assms(3) conn_members_def dcm_onConnectionsChanged_def payload_def read_rows_sent [OF assms(1,2)])

lemma deliver_refinement:
  assumes "\<And>a. ofStr (toStr a) = a" "\<And>c. c \<in> set cs \<Longrightarrow> pi_pid (c_process c) \<le> qint32_max" "dcm_slots m = conn_members"
    and "cs \<noteq> []"
  shows "dcm_deliver ofStr m (bus_signal (AttributionChanged t (toDtos toStr cs))) = Some [connectionsAttributionRefined (map client_view cs)]"
  using assms(4)
  by (simp add: dcm_deliver_def assms(3) conn_members_def dcm_onAttributionChanged_def payload_def read_rows_sent [OF assms(1,2)])

lemma stopped_client_deaf: "dcm_slots m = [] \<Longrightarrow> dcm_deliver ofStr m msg = Some []"
  by (simp add: dcm_deliver_def split: prod.split)

lemma note_activity_rows [simp]: "cs_last (snd (note_activity clk a)) = cs_last a" "is_last (snd (note_activity clk a)) = is_last a"
  by (simp_all add: note_activity_def split: option.split prod.split)

lemma GetConnections_rows: "fst (cs_GetConnections clk a) = cs_last a"
  by (simp add: cs_GetConnections_def Let_def case_prod_beta)

lemma agent_ok_mirror: "agent_ok toStr a \<Longrightarrow> cs_last a = toDtos toStr (cs_lastConns a)"
  by (simp add: agent_ok_def mirror_ok_def)

section \<open>Properties\<close>


text \<open>Wishes reach the agent. After any session of a client's operations, a running client that wishes for an interval has
  sent exactly this interval last, one that wishes for an attribution mode has sent this mode last, and a network
  client the same.\<close>

theorem client_hints_asserted:
  assumes "session conn_step ops mk_DBusConnectionMonitor = (out, m)"
    and "session net_step nops mk_DBusNetworkMonitor = (nout, n)"
  shows "(dcm_started m \<and> 0 < dcm_desiredMs m \<longrightarrow> last_sent ''SetDesiredIntervalMs'' out = Some [UInt32V (word_of_int (dcm_desiredMs m))]) \<and>
    (dcm_started m \<and> dcm_desiredEagerness m \<noteq> [] \<longrightarrow>
       last_sent ''SetDesiredAttributionEagerness'' out = Some [StringV (dcm_desiredEagerness m)]) \<and>
    (dnm_started n \<and> 0 < dnm_desiredMs n \<longrightarrow> last_sent ''SetDesiredIntervalMs'' nout = Some [UInt32V (word_of_int (dnm_desiredMs n))])"
  using conn_interval.session_asserts [OF assms(1)] conn_eagerness.session_asserts [OF assms(1)]
    net_interval.session_asserts [OF assms(2)]
  by (simp add: mk_DBusConnectionMonitor_def mk_DBusNetworkMonitor_def)


definition sample_session :: "conn_op list" where
  "sample_session = [CInterval 500, CStart, CEagerness ''eager'', CStop, CStart, CDetails 7]"

lemma sample_session_result:
  "session conn_step sample_session mk_DBusConnectionMonitor =
     ([dcm_requestInitialSnapshot, sendDesiredIntervalAsync 500, BusCall ''SetDesiredAttributionEagerness'' [StringV ''eager''],
       dcm_requestInitialSnapshot, sendDesiredIntervalAsync 500, BusCall ''SetDesiredAttributionEagerness'' [StringV ''eager''],
       BusCall ''GetProcessDetails'' [UInt32V 7]],
      \<lparr>dcm_started = True, dcm_desiredMs = 500, dcm_desiredEagerness = ''eager'', dcm_slots = conn_members\<rparr>)"
  by (simp add: sample_session_def mk_DBusConnectionMonitor_def client_defs conn_members_def)

theorem client_hints_asserted_witness:
  "last_sent ''SetDesiredIntervalMs'' (fst (session conn_step sample_session mk_DBusConnectionMonitor)) = Some [UInt32V 500]"
proof -
  have "session net_step [] mk_DBusNetworkMonitor = ([], mk_DBusNetworkMonitor)" by simp
  from client_hints_asserted [OF sample_session_result this] show ?thesis unfolding sample_session_result fst_conv by simp
qed


section \<open>Limits\<close>

text \<open>A wish withdrawn while the client is stopped is never sent: the agent keeps the old interval after the restart.\<close>

lemma withdrawn_wish_not_sent:
  "let (out, m) = session conn_step [CInterval 500, CStart, CStop, CInterval 0, CStart] mk_DBusConnectionMonitor
   in dcm_started m \<and> dcm_desiredMs m = 0 \<and> last_sent ''SetDesiredIntervalMs'' out = Some [UInt32V 500]"
  by (simp add: mk_DBusConnectionMonitor_def client_defs)

text \<open>The answer to the first request is handed on even if the client was stopped in the meantime: the handler does not look
  at the state.\<close>

lemma late_reply_heard:
  "\<not> dcm_started (snd (session conn_step [CStart, CStop] mk_DBusConnectionMonitor)) \<and>
   dcm_snapshotReply ofStr (Inr [enc_list put_ConnectionDto []]) = Some [connectionsUpdated []]"
  by (simp add: mk_DBusConnectionMonitor_def client_defs dcm_snapshotReply_def read_rows_def enc_list_def dec_list_def fromDtos_def)

text \<open>Process details with a field appended by a newer agent are dropped, unlike flows and interfaces.\<close>

lemma details_reply_rejects_appended:
  "dcm_detailsReply (Inr [put_ProcessDetailsDto d]) \<noteq> [] \<and>
   (case put_ProcessDetailsDto d of StructV vs \<Rightarrow> dcm_detailsReply (Inr [StructV (vs @ [StringV x])]) = [] | _ \<Rightarrow> False)"
  using details_wire.dec_enc [of d] by (simp add: dcm_detailsReply_def put_ProcessDetailsDto_def)

end
