(* ===== verification/CheckTool.thy ===== *)
theory CheckTool
  imports Store FilterEval AggregatorFacts InterfaceAggregator
begin

text \<open>
  The monitoring plugin \<open>tools/check-qiftop/main.cpp\<close>: its options, its thresholds, and the two checks (flows and one
  interface) as machines over the events of the event loop. Number formatting and \<open>QString::toDouble\<close> are arguments. The
  theorems show that a check ends with one line and one exit code, and which.
\<close>

section \<open>Thresholds and metrics\<close>

datatype MetricPart = Rx | Tx | Total

definition exit_Ok :: int where "exit_Ok = 0"
definition exit_Warning :: int where "exit_Warning = 1"
definition exit_Critical :: int where "exit_Critical = 2"
definition exit_Unknown :: int where "exit_Unknown = 3"

lemmas exit_defs = exit_Ok_def exit_Warning_def exit_Critical_def exit_Unknown_def

record Options =
  op_part :: MetricPart
  op_metricArg :: string
  op_iface :: string
  op_filter :: string
  op_warning :: real
  op_critical :: real
  op_haveWarning :: bool
  op_haveCritical :: bool
  op_sessionBus :: bool
  op_timeoutSec :: int
  op_intervalMs :: int

definition default_Options :: Options where
  "default_Options = \<lparr>op_part = Total, op_metricArg = ''rate_total'', op_iface = [], op_filter = [], op_warning = 0, op_critical = 0,
     op_haveWarning = False, op_haveCritical = False, op_sessionBus = False, op_timeoutSec = 5, op_intervalMs = 1000\<rparr>"

definition compacted :: "string \<Rightarrow> string" where
  "compacted s = filter (\<lambda>c. \<not> isSpace c) s"

definition rate_suffixes :: "(string \<times> real) list" where
  "rate_suffixes =
     [(''tib'', 1099511627776), (''tb'', 1000000000000), (''ti'', 1099511627776), (''t'', 1000000000000),
      (''gib'', 1073741824), (''gb'', 1000000000), (''gi'', 1073741824), (''g'', 1000000000),
      (''mib'', 1048576), (''mb'', 1000000), (''mi'', 1048576), (''m'', 1000000),
      (''kib'', 1024), (''kb'', 1000), (''ki'', 1024), (''k'', 1000),
      (''bytes'', 1), (''byte'', 1), (''b'', 1)]"

text \<open>The first suffix of the table that fits is cut off.\<close>

definition split_suffix :: "string \<Rightarrow> string \<times> real" where
  "split_suffix s =
     (case filter (\<lambda>(suf, _). ends_with suf (toLower s)) rate_suffixes of
        [] \<Rightarrow> (s, 1)
      | (suf, multiplier) # _ \<Rightarrow> (chop (length suf) s, multiplier))"

definition parseByteRate :: "(string \<Rightarrow> real option) \<Rightarrow> string \<Rightarrow> real option" where
  "parseByteRate toDbl input =
     (let s = compacted (trimmed input) in
      if s = [] then None
      else
        (let s = (if ends_withCI ''/s'' s then chop 2 s else s);
             (s, multiplier) = split_suffix s
         in case toDbl s of None \<Rightarrow> None | Some n \<Rightarrow> if n < 0 then None else Some (n * multiplier)))"

definition parseMetric :: "string \<Rightarrow> MetricPart option" where
  "parseMetric metric =
     (let m = toLower (trimmed metric) in
      if m \<in> set [''rate_in'', ''rx_rate'', ''rate_rx'', ''rx'', ''in''] then Some Rx
      else if m \<in> set [''rate_out'', ''tx_rate'', ''rate_tx'', ''tx'', ''out''] then Some Tx
      else if m \<in> set [''rate_total'', ''total_rate'', ''rate'', ''total''] then Some Total
      else None)"

fun metricText :: "MetricPart \<Rightarrow> string" where
  "metricText Rx = ''rx''"
| "metricText Tx = ''tx''"
| "metricText Total = ''total''"

definition perfLabel :: "MetricPart \<Rightarrow> string" where
  "perfLabel part = metricText part @ ''_rate''"

fun metricValue :: "MetricPart \<Rightarrow> real \<Rightarrow> real \<Rightarrow> real" where
  "metricValue Rx rx tx = rx"
| "metricValue Tx rx tx = tx"
| "metricValue Total rx tx = rx + tx"

definition perfNumber :: "(real \<Rightarrow> nat \<Rightarrow> string) \<Rightarrow> real \<Rightarrow> string" where
  "perfNumber num value = num (max 0 value) 0"

definition statusFor :: "real \<Rightarrow> real \<Rightarrow> real \<Rightarrow> int" where
  "statusFor value warning critical =
     (if critical \<le> value then exit_Critical else if warning \<le> value then exit_Warning else exit_Ok)"

definition state_word :: "int \<Rightarrow> string" where
  "state_word code =
     (if code = exit_Ok then ''OK'' else if code = exit_Warning then ''WARNING''
      else if code = exit_Critical then ''CRITICAL'' else ''UNKNOWN'')"

definition nagios_line :: "(real \<Rightarrow> nat \<Rightarrow> string) \<Rightarrow> int \<Rightarrow> string \<Rightarrow> MetricPart \<Rightarrow> real \<Rightarrow> real \<Rightarrow> real \<Rightarrow> bool \<Rightarrow> string" where
  "nagios_line num code message part value warning critical includePerfdata =
     qargs ''QIFTOP %1 - %2'' [state_word code, message] @
     (if includePerfdata
      then qargs '' | %1=%2B/s;%3;%4;0'' [perfLabel part, perfNumber num value, perfNumber num warning, perfNumber num critical]
      else []) @ [CHR 0x0A]"

section \<open>Options\<close>

text \<open>The loop over the arguments behind the program name; \<open>argValue\<close> takes the next one. An error ends it.\<close>

definition missing_value :: "string \<Rightarrow> string" where
  "missing_value arg = qarg ''missing value for %1'' arg"

definition quoted_arg :: "string \<Rightarrow> string \<Rightarrow> string" where
  "quoted_arg msg x = qarg (msg @ [CHR 0x27] @ ''%1'' @ [CHR 0x27]) x"

definition set_option :: "(string \<Rightarrow> real option) \<Rightarrow> string \<Rightarrow> string \<Rightarrow> Options \<Rightarrow> string + Options" where
  "set_option toDbl arg v opts =
     (if arg = ''--metric'' then
        (case parseMetric v of
           None \<Rightarrow> Inl (quoted_arg ''unknown metric '' v)
         | Some part \<Rightarrow> Inr (opts\<lparr>op_metricArg := v, op_part := part\<rparr>))
      else if arg = ''--iface'' then Inr (opts\<lparr>op_iface := trimmed v\<rparr>)
      else if arg = ''--filter'' then Inr (opts\<lparr>op_filter := v\<rparr>)
      else if arg = ''--warning'' then
        (case parseByteRate toDbl v of
           None \<Rightarrow> Inl (quoted_arg ''invalid warning threshold '' v)
         | Some r \<Rightarrow> Inr (opts\<lparr>op_warning := r, op_haveWarning := True\<rparr>))
      else if arg = ''--critical'' then
        (case parseByteRate toDbl v of
           None \<Rightarrow> Inl (quoted_arg ''invalid critical threshold '' v)
         | Some r \<Rightarrow> Inr (opts\<lparr>op_critical := r, op_haveCritical := True\<rparr>))
      else if arg = ''--timeout'' then
        (if toInt v \<le> 0 then Inl ''invalid timeout'' else Inr (opts\<lparr>op_timeoutSec := toInt v\<rparr>))
      else
        (if toInt v \<le> 0 then Inl ''invalid interval'' else Inr (opts\<lparr>op_intervalMs := toInt v\<rparr>)))"

definition value_options :: "string list" where
  "value_options = [''--metric'', ''--iface'', ''--filter'', ''--warning'', ''--critical'', ''--timeout'', ''--interval-ms'']"

fun parse_args :: "(string \<Rightarrow> real option) \<Rightarrow> Options \<Rightarrow> string list \<Rightarrow> string + Options" where
  "parse_args toDbl opts [] = Inr opts"
| "parse_args toDbl opts (arg # rest) =
     (if arg = ''--session'' then parse_args toDbl (opts\<lparr>op_sessionBus := True\<rparr>) rest
      else if arg \<notin> set value_options then Inl (quoted_arg ''unknown argument '' arg)
      else
        (case rest of
           [] \<Rightarrow> Inl (missing_value arg)
         | v # rest \<Rightarrow> (case set_option toDbl arg v opts of Inl err \<Rightarrow> Inl err | Inr opts \<Rightarrow> parse_args toDbl opts rest)))"

definition parseOptions :: "(string \<Rightarrow> real option) \<Rightarrow> string list \<Rightarrow> string + Options" where
  "parseOptions toDbl args =
     (case parse_args toDbl default_Options (drop 1 args) of
        Inl err \<Rightarrow> Inl err
      | Inr opts \<Rightarrow>
          if \<not> op_haveWarning opts \<or> \<not> op_haveCritical opts then Inl ''--warning and --critical are required''
          else if op_critical opts < op_warning opts then Inl ''--critical must be greater than or equal to --warning''
          else if op_iface opts \<noteq> [] \<and> op_filter opts \<noteq> []
          then Inl ''--iface and --filter are mutually exclusive; use --filter iface=<name> for flow checks''
          else Inr opts)"

section \<open>The checks as machines\<close>

text \<open>What both checks share: the samples seen, the exit code once it is decided, and the lines printed.\<close>

record 'agg Check =
  ck_agg :: 'agg
  ck_samples :: nat
  ck_exit :: "int option"
  ck_lines :: "string list"

definition finish :: "(real \<Rightarrow> nat \<Rightarrow> string) \<Rightarrow> Options \<Rightarrow> int \<Rightarrow> string \<Rightarrow> real \<Rightarrow> 'agg Check \<Rightarrow> 'agg Check" where
  "finish num opts code message value s =
     (if ck_exit s \<noteq> None then s
      else s\<lparr>ck_exit := Some code,
             ck_lines := ck_lines s @ [nagios_line num code message (op_part opts) value (op_warning opts) (op_critical opts) True]\<rparr>)"

datatype flow_event = FlowSnapshot int "Connection list" | FlowDenied string | FlowTimeout

definition flow_subject :: "Options \<Rightarrow> string" where
  "flow_subject opts = (if op_filter opts = [] then ''flows'' else qarg ''flows[%1]'' (op_filter opts))"

definition matching_rates :: "FilterEnv \<Rightarrow> Expr option \<Rightarrow> ConnRow list \<Rightarrow> real \<times> real" where
  "matching_rates env e rows =
     fold (\<lambda>row (rx, tx).
       if \<not> matches env e \<lparr>ctx_c = cr_current row, ctx_rxRate = cr_rxRaw row, ctx_txRate = cr_txRaw row,
                            ctx_hostnameLocal = [], ctx_hostnameRemote = []\<rparr>
       then (rx, tx) else (rx + cr_rxRaw row, tx + cr_txRaw row)) rows (0, 0)"

fun flow_event_step ::
  "FilterEnv \<Rightarrow> (real \<Rightarrow> nat \<Rightarrow> string) \<Rightarrow> Options \<Rightarrow> Expr option \<Rightarrow> flow_event \<Rightarrow> ConnectionAggregator Check \<Rightarrow> ConnectionAggregator Check" where
  "flow_event_step env num opts e (FlowSnapshot nowMs conns) s =
     (let s = s\<lparr>ck_agg := snd (ca_updateConnections (addr_text env) nowMs conns (ck_agg s))\<rparr>;
          s = s\<lparr>ck_samples := ck_samples s + 1\<rparr>
      in if ck_samples s < 2 \<or> ck_exit s \<noteq> None then s
         else
           (let (rx, tx) = matching_rates env e (ca_rows (ck_agg s));
                value = metricValue (op_part opts) rx tx;
                code = statusFor value (op_warning opts) (op_critical opts)
            in finish num opts code (qargs ''%1 %2 %3'' [flow_subject opts, metricText (op_part opts), formatByteRate num value]) value s))"
| "flow_event_step env num opts e (FlowDenied detail) s =
     finish num opts exit_Unknown (qarg ''permission denied: %1'' detail) 0 s"
| "flow_event_step env num opts e FlowTimeout s =
     finish num opts exit_Unknown ''timed out waiting for qiftop-agent connection data'' 0 s"

datatype iface_event = IfaceSnapshot int "InterfaceStats list" | IfaceTimeout

fun iface_event_step ::
  "(real \<Rightarrow> nat \<Rightarrow> string) \<Rightarrow> Options \<Rightarrow> iface_event \<Rightarrow> InterfaceAggregator Check \<Rightarrow> InterfaceAggregator Check" where
  "iface_event_step num opts (IfaceSnapshot nowMs stats) s =
     (let s = s\<lparr>ck_agg := snd (ia_updateStats nowMs stats (ck_agg s))\<rparr>;
          s = s\<lparr>ck_samples := ck_samples s + 1\<rparr>
      in if ck_samples s < 2 \<or> ck_exit s \<noteq> None then s
         else
           (case filter (\<lambda>row. if_name (ir_current row) = op_iface opts) (ia_rows (ck_agg s)) of
              [] \<Rightarrow> finish num opts exit_Unknown (qarg (''interface '' @ [CHR 0x27] @ ''%1'' @ [CHR 0x27] @ '' not found'') (op_iface opts)) 0 s
            | row # _ \<Rightarrow>
                (let value = metricValue (op_part opts) (ir_rxRate row) (ir_txRate row);
                     code = statusFor value (op_warning opts) (op_critical opts)
                 in finish num opts code (qargs ''%1 %2 %3'' [op_iface opts, metricText (op_part opts), formatByteRate num value]) value s)))"
| "iface_event_step num opts IfaceTimeout s =
     finish num opts exit_Unknown ''timed out waiting for qiftop-agent interface data'' 0 s"

definition start_check :: "'agg \<Rightarrow> 'agg Check" where
  "start_check a = \<lparr>ck_agg = a, ck_samples = 0, ck_exit = None, ck_lines = []\<rparr>"

text \<open>\<open>main\<close> up to the event loop: an exit with a line, or the machine that runs. The delay of the timeout is an \<open>int\<close> product.\<close>

datatype plan = ExitNow int string | CheckFlows Options "Expr option" | CheckInterface Options

definition check_main :: "FilterEnv \<Rightarrow> (real \<Rightarrow> nat \<Rightarrow> string) \<Rightarrow> string list \<Rightarrow> plan" where
  "check_main env num args =
     (case parseOptions (toDouble env) args of
        Inl err \<Rightarrow> ExitNow exit_Unknown (nagios_line num exit_Unknown err Total 0 0 0 False)
      | Inr opts \<Rightarrow>
          if op_iface opts = [] then
            (let f = parse env (op_filter opts) in
             if pr_error f \<noteq> []
             then ExitNow exit_Unknown (nagios_line num exit_Unknown
                    (qarg (qarg ''invalid filter at column %1: %2'' (show_int (pr_errorPos f + 1))) (pr_error f))
                    (op_part opts) 0 (op_warning opts) (op_critical opts) True)
             else CheckFlows opts (pr_expr f))
          else CheckInterface opts)"

definition timeout_ms :: "Options \<Rightarrow> int" where
  "timeout_ms opts = op_timeoutSec opts * 1000"

definition run_flows :: "FilterEnv \<Rightarrow> (real \<Rightarrow> nat \<Rightarrow> string) \<Rightarrow> Options \<Rightarrow> Expr option \<Rightarrow> quint16 \<times> quint16 \<Rightarrow> flow_event list \<Rightarrow> ConnectionAggregator Check" where
  "run_flows env num opts e ports evs =
     fold (flow_event_step env num opts e) evs (start_check (ca_setPollIntervalMs (op_intervalMs opts) (mk_ConnectionAggregator ports)))"

definition run_iface :: "(real \<Rightarrow> nat \<Rightarrow> string) \<Rightarrow> Options \<Rightarrow> iface_event list \<Rightarrow> InterfaceAggregator Check" where
  "run_iface num opts evs = fold (iface_event_step num opts) evs (start_check mk_InterfaceAggregator)"


section \<open>A check reports once\<close>

text \<open>The contract of a check: the first sample decides nothing, every other event decides once, and a decision stands.\<close>

locale one_shot =
  fixes step :: "'ev \<Rightarrow> 'agg Check \<Rightarrow> 'agg Check" and is_sample :: "'ev \<Rightarrow> bool"
  assumes decided: "ck_exit s = Some c \<Longrightarrow> ck_exit (step ev s) = Some c \<and> ck_lines (step ev s) = ck_lines s"
    and counts: "ck_samples (step ev s) = ck_samples s + (if is_sample ev then 1 else 0)"
    and waits: "ck_exit s = None \<Longrightarrow> is_sample ev \<Longrightarrow> ck_samples s = 0 \<Longrightarrow> ck_exit (step ev s) = None \<and> ck_lines (step ev s) = ck_lines s"
    and decides: "ck_exit s = None \<Longrightarrow> \<not> is_sample ev \<or> 0 < ck_samples s \<Longrightarrow>
      \<exists>c l. ck_exit (step ev s) = Some c \<and> ck_lines (step ev s) = ck_lines s @ [l]"
begin

lemma decision_stands:
  "ck_exit s = Some c \<Longrightarrow> ck_exit (fold step evs s) = Some c \<and> ck_lines (fold step evs s) = ck_lines s"
  by (induction evs arbitrary: s) (simp_all add: decided)

lemma run_once:
  "ck_samples (fold step evs (start_check a)) = length (filter is_sample evs) \<and>
   (ck_exit (fold step evs (start_check a)) = None \<longleftrightarrow> list_all is_sample evs \<and> length evs < 2) \<and>
   length (ck_lines (fold step evs (start_check a))) = (if ck_exit (fold step evs (start_check a)) = None then 0 else 1)"
proof (induction evs rule: rev_induct)
  case Nil
  show ?case by (simp add: start_check_def)
next
  case (snoc ev evs)
  define s where "s = fold step evs (start_check a)"
  have ih: "ck_samples s = length (filter is_sample evs)" "ck_exit s = None \<longleftrightarrow> list_all is_sample evs \<and> length evs < 2"
    "length (ck_lines s) = (if ck_exit s = None then 0 else 1)" using snoc.IH by (simp_all add: s_def)
  have run: "fold step (evs @ [ev]) (start_check a) = step ev s" by (simp add: s_def)
  have n: "ck_samples (step ev s) = length (filter is_sample (evs @ [ev]))" using ih(1) by (simp add: counts)
  show ?case
  proof (cases "ck_exit s")
    case (Some c)
    then show ?thesis unfolding run using n decided [OF Some, of ev] ih by (auto simp: list_all_iff)
  next
    case None
    then have evs: "list_all is_sample evs" "length evs < 2" using ih(2) by simp_all
    then have len: "ck_samples s = length evs" using ih(1) by (simp add: list_all_iff)
    show ?thesis
    proof (cases "is_sample ev \<and> evs = []")
      case True
      then show ?thesis unfolding run using n waits [OF None, of ev] ih(3) None len by simp
    next
      case False
      then have "\<not> is_sample ev \<or> 0 < ck_samples s" using len by auto
      from decides [OF None this] obtain c l where "ck_exit (step ev s) = Some c" "ck_lines (step ev s) = ck_lines s @ [l]" by blast
      then show ?thesis unfolding run using n False ih(3) None by (cases evs) auto
    qed
  qed
qed

end

fun flow_sample :: "flow_event \<Rightarrow> bool" where
  "flow_sample (FlowSnapshot _ _) = True"
| "flow_sample _ = False"

fun iface_sample :: "iface_event \<Rightarrow> bool" where
  "iface_sample (IfaceSnapshot _ _) = True"
| "iface_sample _ = False"

lemma finish_simps:
  "ck_exit s = Some c \<Longrightarrow> finish num opts code msg v s = s"
  "ck_exit s = None \<Longrightarrow> ck_exit (finish num opts code msg v s) = Some code"
  "ck_exit s = None \<Longrightarrow> ck_lines (finish num opts code msg v s) =
     ck_lines s @ [nagios_line num code msg (op_part opts) v (op_warning opts) (op_critical opts) True]"
  "ck_samples (finish num opts code msg v s) = ck_samples s"
  "ck_agg (finish num opts code msg v s) = ck_agg s"
  by (simp_all add: finish_def)

interpretation flow_check: one_shot "flow_event_step env num opts e" flow_sample
proof unfold_locales
  fix s :: "ConnectionAggregator Check" and c ev
  show "ck_exit (flow_event_step env num opts e ev s) = Some c \<and> ck_lines (flow_event_step env num opts e ev s) = ck_lines s" if "ck_exit s = Some c"
    using that by (cases ev) (simp_all add: Let_def finish_simps)
  show "ck_samples (flow_event_step env num opts e ev s) = ck_samples s + (if flow_sample ev then 1 else 0)"
    by (cases ev) (simp_all add: Let_def finish_simps split: prod.split)
  show "ck_exit (flow_event_step env num opts e ev s) = None \<and> ck_lines (flow_event_step env num opts e ev s) = ck_lines s"
    if "ck_exit s = None" "flow_sample ev" "ck_samples s = 0"
    using that by (cases ev) (simp_all add: Let_def)
  show "\<exists>c l. ck_exit (flow_event_step env num opts e ev s) = Some c \<and> ck_lines (flow_event_step env num opts e ev s) = ck_lines s @ [l]"
    if "ck_exit s = None" "\<not> flow_sample ev \<or> 0 < ck_samples s"
    using that by (cases ev) (simp_all add: Let_def finish_simps split: prod.split)
qed

interpretation iface_check: one_shot "iface_event_step num opts" iface_sample
proof unfold_locales
  fix s :: "InterfaceAggregator Check" and c ev
  show "ck_exit (iface_event_step num opts ev s) = Some c \<and> ck_lines (iface_event_step num opts ev s) = ck_lines s" if "ck_exit s = Some c"
    using that by (cases ev) (simp_all add: Let_def finish_simps)
  show "ck_samples (iface_event_step num opts ev s) = ck_samples s + (if iface_sample ev then 1 else 0)"
    by (cases ev) (simp_all add: Let_def finish_simps split: list.split)
  show "ck_exit (iface_event_step num opts ev s) = None \<and> ck_lines (iface_event_step num opts ev s) = ck_lines s"
    if "ck_exit s = None" "iface_sample ev" "ck_samples s = 0"
    using that by (cases ev) (simp_all add: Let_def)
  show "\<exists>c l. ck_exit (iface_event_step num opts ev s) = Some c \<and> ck_lines (iface_event_step num opts ev s) = ck_lines s @ [l]"
    if "ck_exit s = None" "\<not> iface_sample ev \<or> 0 < ck_samples s"
    using that by (cases ev) (simp_all add: Let_def finish_simps split: list.split)
qed


section \<open>Accepted options and the measured value\<close>

definition options_ok :: "Options \<Rightarrow> bool" where
  "options_ok opts = (0 \<le> op_warning opts \<and> 0 \<le> op_critical opts \<and> 0 < op_timeoutSec opts \<and> 0 < op_intervalMs opts)"

lemma split_suffix_positive: "0 < snd (split_suffix s)"
proof (cases "filter (\<lambda>(suf, _). ends_with suf (toLower s)) rate_suffixes")
  case (Cons p ps)
  then have "p \<in> set (filter (\<lambda>(suf, _). ends_with suf (toLower s)) rate_suffixes)" by simp
  then have "p \<in> set rate_suffixes" by simp
  then have "0 < snd p" by (auto simp: rate_suffixes_def)
  then show ?thesis using Cons by (simp add: split_suffix_def case_prod_beta)
qed (simp add: split_suffix_def)

lemma parseByteRate_nonneg: "parseByteRate toDbl input = Some r \<Longrightarrow> 0 \<le> r"
  using split_suffix_positive
  by (auto simp: parseByteRate_def Let_def case_prod_beta less_imp_le split: if_splits option.splits)

lemma set_option_ok:
  assumes "options_ok opts" "set_option toDbl arg v opts = Inr opts'"
  shows "options_ok opts'"
proof -
  have "\<And>r. parseByteRate toDbl v = Some r \<Longrightarrow> 0 \<le> r" by (rule parseByteRate_nonneg)
  with assms(1) have "case set_option toDbl arg v opts of Inl _ \<Rightarrow> True | Inr o' \<Rightarrow> options_ok o'"
    unfolding set_option_def by (simp add: options_ok_def split: option.split)
  then show ?thesis using assms(2) by simp
qed

lemma parse_args_ok: "options_ok opts \<Longrightarrow> parse_args toDbl opts args = Inr opts' \<Longrightarrow> options_ok opts'"
proof (induction toDbl opts args rule: parse_args.induct)
  case (2 toDbl opts arg rest)
  have s: "options_ok (opts\<lparr>op_sessionBus := True\<rparr>)" using 2(3) by (simp add: options_ok_def)
  show ?case
  proof (cases "arg = ''--session''")
    case True
    then show ?thesis using 2(1) [OF True s] 2(4) by simp
  next
    case False
    then obtain v vs o' where rest: "rest = v # vs" "set_option toDbl arg v opts = Inr o'" "parse_args toDbl o' vs = Inr opts'"
      and mem: "\<not> arg \<notin> set value_options"
      using 2(4) by (cases rest) (auto split: if_splits sum.splits)
    show ?thesis by (rule 2(2) [OF False mem rest(1,2) set_option_ok [OF 2(3) rest(2)] rest(3)])
  qed
qed simp

lemma parseOptions_sound:
  assumes "parseOptions toDbl args = Inr opts"
  shows "options_ok opts" "op_warning opts \<le> op_critical opts" "op_iface opts = [] \<or> op_filter opts = []"
proof -
  have d: "options_ok default_Options" by (simp add: options_ok_def default_Options_def)
  obtain o' where o': "parse_args toDbl default_Options (drop 1 args) = Inr o'"
    using assms by (auto simp: parseOptions_def split: sum.splits)
  then have "o' = opts" "op_warning opts \<le> op_critical opts" "op_iface opts = [] \<or> op_filter opts = []"
    using assms by (auto simp: parseOptions_def split: if_splits)
  then show "options_ok opts" "op_warning opts \<le> op_critical opts" "op_iface opts = [] \<or> op_filter opts = []"
    using parse_args_ok [OF d o'] by auto
qed

definition row_ctx :: "ConnRow \<Rightarrow> Context" where
  "row_ctx row = \<lparr>ctx_c = cr_current row, ctx_rxRate = cr_rxRaw row, ctx_txRate = cr_txRaw row, ctx_hostnameLocal = [], ctx_hostnameRemote = []\<rparr>"

lemma matching_rates_sum:
  "matching_rates env e rows =
     (\<Sum>r \<leftarrow> filter (\<lambda>r. matches env e (row_ctx r)) rows. cr_rxRaw r, \<Sum>r \<leftarrow> filter (\<lambda>r. matches env e (row_ctx r)) rows. cr_txRaw r)"
proof -
  have "fold (\<lambda>row (rx, tx). if \<not> matches env e (row_ctx row) then (rx, tx) else (rx + cr_rxRaw row, tx + cr_txRaw row)) rows (x, y) =
     (x + (\<Sum>r \<leftarrow> filter (\<lambda>r. matches env e (row_ctx r)) rows. cr_rxRaw r), y + (\<Sum>r \<leftarrow> filter (\<lambda>r. matches env e (row_ctx r)) rows. cr_txRaw r))" for x y
    by (induction rows arbitrary: x y) (simp_all add: add.assoc)
  from this [of 0 0] show ?thesis by (simp add: matching_rates_def row_ctx_def)
qed

text \<open>The value a flow check measures, and the table it measures it on.\<close>

definition flow_table :: "FilterEnv \<Rightarrow> Options \<Rightarrow> quint16 \<times> quint16 \<Rightarrow> (int \<times> Connection list) list \<Rightarrow> ConnectionAggregator" where
  "flow_table env opts ports samples =
     fold (\<lambda>(t, cs) a. snd (ca_updateConnections (addr_text env) t cs a)) samples
       (ca_setPollIntervalMs (op_intervalMs opts) (mk_ConnectionAggregator ports))"

definition flow_value :: "FilterEnv \<Rightarrow> MetricPart \<Rightarrow> Expr option \<Rightarrow> ConnectionAggregator \<Rightarrow> real" where
  "flow_value env part e a =
     metricValue part (\<Sum>r \<leftarrow> filter (\<lambda>r. matches env e (row_ctx r)) (ca_rows a). cr_rxRaw r)
       (\<Sum>r \<leftarrow> filter (\<lambda>r. matches env e (row_ctx r)) (ca_rows a). cr_txRaw r)"

lemma flow_two_samples:
  "let a = flow_table env opts ports [(t1, c1), (t2, c2)]; v = flow_value env (op_part opts) e a;
       s = run_flows env num opts e ports (FlowSnapshot t1 c1 # FlowSnapshot t2 c2 # later)
   in ck_exit s = Some (statusFor v (op_warning opts) (op_critical opts)) \<and>
      ck_lines s = [nagios_line num (statusFor v (op_warning opts) (op_critical opts))
        (qargs ''%1 %2 %3'' [flow_subject opts, metricText (op_part opts), formatByteRate num v]) (op_part opts) v
        (op_warning opts) (op_critical opts) True]"
proof -
  define a0 where "a0 = ca_setPollIntervalMs (op_intervalMs opts) (mk_ConnectionAggregator ports)"
  define s2 where "s2 = flow_event_step env num opts e (FlowSnapshot t2 c2) (flow_event_step env num opts e (FlowSnapshot t1 c1) (start_check a0))"
  define a where "a = flow_table env opts ports [(t1, c1), (t2, c2)]"
  define v where "v = flow_value env (op_part opts) e a"
  have a: "a = snd (ca_updateConnections (addr_text env) t2 c2 (snd (ca_updateConnections (addr_text env) t1 c1 a0)))"
    by (simp add: a_def a0_def flow_table_def)
  have "ck_exit s2 = Some (statusFor v (op_warning opts) (op_critical opts)) \<and>
      ck_lines s2 = [nagios_line num (statusFor v (op_warning opts) (op_critical opts))
        (qargs ''%1 %2 %3'' [flow_subject opts, metricText (op_part opts), formatByteRate num v]) (op_part opts) v
        (op_warning opts) (op_critical opts) True]"
    by (simp add: s2_def start_check_def Let_def matching_rates_sum finish_simps v_def flow_value_def a)
  moreover have "run_flows env num opts e ports (FlowSnapshot t1 c1 # FlowSnapshot t2 c2 # later) = fold (flow_event_step env num opts e) later s2"
    by (simp only: run_flows_def fold_simps a0_def s2_def)
  ultimately show ?thesis
    using flow_check.decision_stands [of s2 "statusFor v (op_warning opts) (op_critical opts)" env num opts e later]
    unfolding Let_def a_def [symmetric] v_def [symmetric] by simp
qed


lemma check_main_flows:
  "check_main env num args = CheckFlows opts e \<Longrightarrow> parseOptions (toDouble env) args = Inr opts \<and> e = pr_expr (parse env (op_filter opts))"
  by (auto simp: check_main_def Let_def split: sum.splits if_splits)

lemma check_main_iface: "check_main env num args = CheckInterface opts \<Longrightarrow> parseOptions (toDouble env) args = Inr opts"
  by (auto simp: check_main_def Let_def split: sum.splits if_splits)

text \<open>C22: A flow check that starts has thresholds \<open>0 \<le> warning \<le> critical\<close>; whatever the bus delivers, it ends with exactly one line and
  one exit code as soon as the timeout, a refusal or a second snapshot arrives, and not before; and when two snapshots
  come first, the code compares the sum of the rates of the rows that match the given filter with the thresholds, whatever
  happens afterwards.\<close>

theorem check_reports_once:
  assumes "check_main env num args = CheckFlows opts e" and "s = run_flows env num opts e ports evs"
  shows "0 \<le> op_warning opts \<and> op_warning opts \<le> op_critical opts \<and> 0 < op_timeoutSec opts \<and>
    (ck_exit s = None \<longleftrightarrow> list_all flow_sample evs \<and> length evs < 2) \<and>
    length (ck_lines s) = (if ck_exit s = None then 0 else 1) \<and>
    (\<forall>t1 c1 t2 c2 later. evs = FlowSnapshot t1 c1 # FlowSnapshot t2 c2 # later \<longrightarrow>
      (let v = flow_value env (op_part opts) (pr_expr (parse env (op_filter opts))) (flow_table env opts ports [(t1, c1), (t2, c2)]) in
       ck_exit s = Some (if op_critical opts \<le> v then 2 else if op_warning opts \<le> v then 1 else 0)))"
proof -
  have opts: "parseOptions (toDouble env) args = Inr opts" and e: "e = pr_expr (parse env (op_filter opts))"
    using check_main_flows [OF assms(1)] by simp_all
  note sound = parseOptions_sound [OF opts]
  have run: "s = fold (flow_event_step env num opts e) evs (start_check (ca_setPollIntervalMs (op_intervalMs opts) (mk_ConnectionAggregator ports)))"
    by (simp add: assms(2) run_flows_def)
  have once: "ck_exit s = None \<longleftrightarrow> list_all flow_sample evs \<and> length evs < 2" "length (ck_lines s) = (if ck_exit s = None then 0 else 1)"
    using flow_check.run_once [of env num opts e evs] unfolding run by blast+
  have "let v = flow_value env (op_part opts) e (flow_table env opts ports [(t1, c1), (t2, c2)]) in
       ck_exit s = Some (if op_critical opts \<le> v then 2 else if op_warning opts \<le> v then 1 else 0)"
    if "evs = FlowSnapshot t1 c1 # FlowSnapshot t2 c2 # later" for t1 c1 t2 c2 later
    using flow_two_samples [of env opts ports t1 c1 t2 c2 e num later]
    unfolding assms(2) that Let_def statusFor_def exit_defs by blast
  then show ?thesis unfolding e [symmetric] using sound(1,2) once by (simp add: options_ok_def)
qed

text \<open>The interface check ends the same way; two snapshots decide by the rates of the named interface, or report that it is
  not there.\<close>

theorem interface_check_reports_once:
  assumes "check_main env num args = CheckInterface opts" and "s = run_iface num opts evs"
  shows "(ck_exit s = None \<longleftrightarrow> list_all iface_sample evs \<and> length evs < 2) \<and>
    length (ck_lines s) = (if ck_exit s = None then 0 else 1) \<and>
    (\<forall>t1 s1 t2 s2 later. evs = IfaceSnapshot t1 s1 # IfaceSnapshot t2 s2 # later \<longrightarrow> op_iface opts \<notin> if_name ` set s2 \<longrightarrow> ck_exit s = Some 3)"
proof -
  have run: "s = fold (iface_event_step num opts) evs (start_check mk_InterfaceAggregator)" by (simp add: assms(2) run_iface_def)
  have "ck_exit s = Some 3" if evs: "evs = IfaceSnapshot t1 s1 # IfaceSnapshot t2 s2 # later" and no: "op_iface opts \<notin> if_name ` set s2" for t1 s1 t2 s2 later
  proof -
    define a where "a = snd (ia_updateStats t2 s2 (snd (ia_updateStats t1 s1 mk_InterfaceAggregator)))"
    define st where "st = iface_event_step num opts (IfaceSnapshot t2 s2) (iface_event_step num opts (IfaceSnapshot t1 s1) (start_check mk_InterfaceAggregator))"
    have "map ir_current (ia_rows a) = sort_key if_name s2" unfolding a_def by (rule updateStats_sel(1) [OF surjective_pairing])
    then have "set (map ir_current (ia_rows a)) = set s2" by simp
    then have "\<forall>r \<in> set (ia_rows a). if_name (ir_current r) \<noteq> op_iface opts" using no by (metis image_eqI list.set_map)
    then have "filter (\<lambda>row. if_name (ir_current row) = op_iface opts) (ia_rows a) = []" by (simp add: filter_empty_conv)
    then have "ck_exit st = Some 3" by (simp add: st_def start_check_def Let_def a_def [symmetric] finish_simps exit_Unknown_def)
    moreover have "s = fold (iface_event_step num opts) later st" by (simp only: run evs fold_simps st_def)
    ultimately show ?thesis using iface_check.decision_stands by blast
  qed
  then show ?thesis using iface_check.run_once [of num opts evs mk_InterfaceAggregator] unfolding run [symmetric] by blast
qed


definition sample_opts :: Options where
  "sample_opts = default_Options\<lparr>op_warning := 1, op_haveWarning := True, op_critical := 2000, op_haveCritical := True\<rparr>"

lemma sample_rates:
  "parseByteRate (toDouble FilterParser.sample_env) ''1'' = Some 1"
  "parseByteRate (toDouble FilterParser.sample_env) ''2 k/s'' = Some 2000"
  by (simp_all add: parseByteRate_def compacted_def trimmed_def isSpace_def ends_withCI_def ends_with_def toLower_def lower_char_def
      chop_def split_suffix_def rate_suffixes_def FilterParser.sample_env_def is_digit_def digit_val_def Let_def)

lemma sample_main: "check_main FilterParser.sample_env num [''check'', ''--warning'', ''1'', ''--critical'', ''2 k/s''] = CheckFlows sample_opts None"
proof -
  have "parseOptions (toDouble FilterParser.sample_env) [''check'', ''--warning'', ''1'', ''--critical'', ''2 k/s''] = Inr sample_opts"
    by (simp add: parseOptions_def value_options_def set_option_def sample_rates sample_opts_def default_Options_def)
  moreover have "parse FilterParser.sample_env [] = \<lparr>pr_expr = None, pr_error = [], pr_errorPos = -1\<rparr>"
    by (simp add: parse_def mk_parser_def) code_simp
  ultimately show ?thesis by (simp add: check_main_def sample_opts_def default_Options_def)
qed

theorem check_reports_once_witness:
  "ck_exit (run_flows FilterParser.sample_env (\<lambda>_ _. ''0'') sample_opts None (32768, 60999) [FlowTimeout]) \<noteq> None \<and>
   length (ck_lines (run_flows FilterParser.sample_env (\<lambda>_ _. ''0'') sample_opts None (32768, 60999) [FlowTimeout])) = 1"
  using check_reports_once [OF sample_main refl, of "\<lambda>_ _. ''0''" "(32768, 60999)" "[FlowTimeout]"] by simp

section \<open>Limits\<close>

lemma subject_text: "op_filter opts \<noteq> [] \<Longrightarrow> flow_subject opts = ''flows['' @ op_filter opts @ '']''"
  by (simp add: flow_subject_def qarg_def piece_marks_def is_digit_def digit_val_def Let_def)

lemma message_text: "qargs ''%1 %2 %3'' [a, b, c] = a @ '' '' @ b @ '' '' @ c"
  by (simp add: qargs_def piece_marks_def is_digit_def digit_val_def Let_def)

text \<open>A filter with a bar (\<open>||\<close> is an operator of the language) is printed in the message, where a reader of the plugin protocol takes
  the first bar as the start of the performance data.\<close>

lemma bar_in_message:
  assumes "op_filter opts = a @ CHR ''|'' # b"
  shows "\<exists>p q. qargs ''%1 %2 %3'' [flow_subject opts, metricText part, r] = p @ CHR ''|'' # q"
  unfolding message_text using subject_text [of opts] assms by (intro exI [of _ "''flows['' @ a"] exI [of _ "b @ '']'' @ '' '' @ metricText part @ '' '' @ r"]) simp

text \<open>A timeout that fits an \<open>int\<close> is accepted although its delay in milliseconds does not.\<close>

lemma timeout_overflows:
  "\<exists>opts. parseOptions (toDouble FilterParser.sample_env) [''check'', ''--timeout'', show_int 2147484, ''--warning'', ''1'', ''--critical'', ''2 k/s''] = Inr opts \<and>
     2147483647 < timeout_ms opts"
proof -
  have t: "toInt (show_int 2147484) = 2147484" by (rule toInt_show) (simp add: qint32_def)
  show ?thesis
    by (simp add: parseOptions_def value_options_def set_option_def sample_rates default_Options_def t timeout_ms_def)
qed

end
