(* ===== verification/Spec2Isabelle.thy ===== *)
theory Spec2Isabelle
  imports Heuristics FilterEval BirthCache DeepQueue CgroupCache AgentConfig WireTypes Capabilities
    AgentRun AggregatorFacts InterfaceAggregator NetnsScanner ConntrackMonitor Handoff Privilege GroupProxyFacts TuiAppFacts
    BsdCaptureFacts DnsCache UserSettings ProcDetails LinkMonitor BusClient CheckTool
begin

text \<open>
  A verification library for \<open>qiftop\<close>, a monitor of network traffic per interface and per flow. File names below are relative
  to \<open>src/src\<close>.

  \<^bold>\<open>The program.\<close> A backend (\<open>backend/linux\<close>, \<open>backend/bsd\<close>) samples the kernel's interface counters and connection tracking. A privileged
  agent (\<open>agent/\<close>) attributes every flow to a process and a container, serves snapshots over D-Bus (\<open>dbus/Types\<close>) and adapts
  its polling and attribution effort to hints of its clients. The front ends read the agent's snapshots or run the backend
  themselves, fold the snapshots into tables with rates (\<open>aggregate/\<close>), and show them filtered (\<open>util/ConnectionFilter\<close>),
  grouped and sorted: a window (\<open>ui/\<close>) and a terminal program (\<open>tui/\<close>). Without an agent the window starts a privileged copy
  of itself (\<open>util/PrivilegeEscalator\<close>) and receives samples over a socket (\<open>util/Handoff*\<close>).

  \<^bold>\<open>Conventions.\<close> A class is a record, a method a function from the old state to the new one, with its result and the
  signals it emits in front. Qt and the standard library are modelled as far as the code uses them: \<open>QString\<close> is a list of
  bytes (UTF-8 where the source has other letters), \<open>QHash\<close> an association list with distinct keys, sorts are stable insertion sorts
  (\<open>Prelude.sort_by\<close>; where the source sorts unstably, only what holds for every order of equals is proved). Fixed-width integers
  are words where wrap-around can matter, otherwise integers with the range written out; \<open>double\<close> is \<open>real\<close>, so rounding
  is not covered. Code that is not in the repository (libnetfilter_conntrack, address printing, regular expressions, number
  formatting, files, clocks) is an argument of the definitions that use it; a theorem that relies on its behaviour names
  the assumption. Errors are values of \<open>option\<close> or of a record field, as in the source.

  \<^bold>\<open>Shared ground.\<close> \<open>Prelude\<close>: types, \<open>QString\<close> and \<open>QHash\<close> operations, sorting, the locale \<open>hash_table\<close>. \<open>FlowTypes\<close>: endpoints,
  flows, processes, containers, interface counters (\<open>backend/Connection.h\<close>, \<open>ProcessResolver.h\<close>, \<open>NetworkMonitor.h\<close>). \<open>QtText\<close>: \<open>QString::arg\<close> and
  byte units. \<open>Store\<close>: typed access to the settings file. \<open>TopK\<close> and \<open>BoundedCache\<close>: the contracts (locales \<open>top_k\<close>, \<open>ttl_cache\<close>)
  of the truncations and caches, interpreted by each component that implements them.

  \<^bold>\<open>Agent.\<close>
  \<^item> \<open>Heuristics\<close>: direction, service and scale decisions (\<open>util/ConnectionHeuristics.h\<close>, \<open>aggregate/BandwidthScale.h\<close>).
  \<^item> \<open>Resolver\<close>: the resolver interface (locale \<open>stable_resolver\<close>), the composite, the factory and \<open>attributeFlows\<close>. The memoised
    pass answers every flow as asking for it alone would.
  \<^item> \<open>BirthCache\<close>: the eBPF birth cache and resolver serve only the latest birth of a flow (interpretations of \<open>ttl_cache\<close> and
    \<open>stable_resolver\<close>).
  \<^item> \<open>SockDiag\<close>, \<open>SockDiagResolver\<close>, \<open>NetnsScanner\<close>: the byte-level walk over netlink dumps stays inside the received chunk and
    finds exactly the sockets in it; a process is answered only for a socket it holds; the namespace scan always returns to its
    own namespace.
  \<^item> \<open>CgroupParse\<close>, \<open>CgroupCache\<close>: container scopes in cgroup paths, and the cache guarded by process start times.
  \<^item> \<open>DeepQueue\<close>: the bounded queue of deferred attributions hands out the loudest flow, and the worker drains it.
  \<^item> \<open>HintTables\<close>, \<open>AgentConfig\<close>: per-client hints (locale \<open>capped_hints\<close>, interpreted for cadence and for eagerness) and the
    configuration loaders.
  \<^item> \<open>WireTypes\<close>, \<open>Capabilities\<close>: marshalling of the transfer objects (locale \<open>wire_codec\<close>), its round trip and tolerance of older
    senders; capability tokens.
  \<^item> \<open>AgentServices\<close>, \<open>AgentRun\<close>: the two D-Bus services, and the reachable states of the wired agent with its invariants: consistent
    index, loudest flows kept, refinements that only add, disclosure of process details by policy.
  \<^item> \<open>FlowHeap\<close>, \<open>ConntrackMonitor\<close>: the bounded min-heap (locale \<open>min_heap\<close>) and the poll of connection tracking on top of it; the
    LRU cache refines a recency list.
  \<^item> \<open>LinkMonitor\<close>: the Linux interface worker holds all of its resources or none and reports every link of its cache. \<open>ProcDetails\<close>: the
    details of a process come from one process, even if its pid is reused while they are read.
  \<^item> \<open>BsdCapture\<close>, \<open>BsdCaptureFacts\<close>: the BSD backend. Packets are parsed within the captured bytes, accounted to one entry per flow,
    attributed through the socket table and published loudest first (an interpretation of \<open>top_k\<close>).

  \<^bold>\<open>Front ends.\<close>
  \<^item> \<open>BusClient\<close>: the clients of the agent's bus interfaces (locale \<open>hint_client\<close>) and their composition with the agent: what the agent
    publishes is what a front end receives.
  \<^item> \<open>Aggregator\<close>, \<open>AggregatorFacts\<close>, \<open>InterfaceAggregator\<close>: the tables. A snapshot is shown completely, the granular signals reproduce the
    table on any view that follows the model protocol, UDP totals never fall (locale \<open>udp_counter\<close>, one interpretation per direction).
  \<^item> \<open>FilterLexer\<close>, \<open>FilterParser\<close>, \<open>FilterSyntax\<close>, \<open>FilterEval\<close>: the filter language. The loops of the parser end by a measure, so no fuel is needed;
    printing and parsing are inverse, and a parsed filter means its boolean combination of comparisons.
  \<^item> \<open>GroupProxy\<close>, \<open>GroupProxyFacts\<close>: the tree of groups in the window, with the reverse index and persistent indexes.
  \<^item> \<open>TuiFormat\<close>, \<open>TuiApp\<close>, \<open>TuiAppFacts\<close>: the terminal front end from formatting to its complete controller, whose reachable states
    (\<open>tui_reachable\<close>) keep every selection in range, whose frames show the cursor, and whose settings survive a restart.
    The search for a free export name has one more try than there are files, which is enough because the names differ.
  \<^item> \<open>Exporter\<close>: CSV and JSON export with a CSV reader that gives the table back.
  \<^item> \<open>CheckTool\<close>: the monitoring plugin (\<open>tools/check-qiftop\<close>), its options and its two checks as machines over events.
  \<^item> \<open>DnsCache\<close>: the reverse lookups with their bounded, saved cache. \<open>UserSettings\<close>: the preferences of the window, their migration and the
    autostart entry; a change survives a restart.
  \<^item> \<open>Handoff\<close>, \<open>Privilege\<close>: the socket to the privileged child listens only to that child and loses nothing; relaunching starts only
    programs of system directories with permitted environment variables.

  \<^bold>\<open>Not modelled.\<close> Widget construction, painting and menus of the window (\<open>ui/MainWindow\<close>, \<open>SettingsDialog\<close>, delegates, tray, themes) and the
  drawing of the terminal (\<open>tui/Screen\<close>) are calls into Qt and curses without state of their own worth specifying. Entry points only parse options and
  connect objects. Threads appear as sequences of the calls they make: every entry point is one step.
\<close>

end
